(* ===== verification/Prelude.thy ===== *)
theory Prelude
  imports Complex_Main "HOL-Library.Word" "HOL-Library.AList"
begin

text \<open>
  Shared vocabulary of the development: machine integers, the error values that stand for the
  exceptions and the undefined behaviour of the C++ code, IEEE doubles without rounding, and the
  unordered associative containers of the standard library.

  An operation that may throw after it has changed some state returns the state it leaves behind
  together with either the error or the returned value (type \<open>outcome\<close>).
\<close>

section \<open>Machine integers and errors\<close>

type_synonym u8 = "8 word"
type_synonym u32 = "32 word"
type_synonym u64 = "64 word"

datatype cpp_error =
    Out_Of_Range            \<comment> \<open>\<open>std::out_of_range\<close>, thrown by \<open>at\<close>\<close>
  | Runtime_Error string    \<comment> \<open>\<open>std::runtime_error\<close> with its message\<close>
  | Bad_Function_Call       \<comment> \<open>\<open>std::bad_function_call\<close>, the call of an empty \<open>std::function\<close>\<close>
  | Undefined_Behaviour     \<comment> \<open>the language gives no meaning to the execution\<close>
  | Assertion_Failed        \<comment> \<open>an \<open>assert\<close> ends the program\<close>
  | Terminated              \<comment> \<open>\<open>std::terminate\<close> ends the program\<close>
  | Blocked                 \<comment> \<open>the call does not return: nobody will notify it, or no number is free\<close>

type_synonym ('s, 'a) outcome = "'s \<times> (cpp_error + 'a)"

text \<open>Continue with the state and the value, or stop at the error.\<close>

definition obind :: "('s, 'a) outcome \<Rightarrow> ('s \<Rightarrow> 'a \<Rightarrow> ('s, 'b) outcome) \<Rightarrow> ('s, 'b) outcome" where
  "obind r f = (case r of (s, Inl e) \<Rightarrow> (s, Inl e) | (s, Inr a) \<Rightarrow> f s a)"

lemma obind_simps [simp]:
  "obind (s, Inl e) f = (s, Inl e)"
  "obind (s, Inr a) f = f s a"
  by (simp_all add: obind_def)

text \<open>An enumeration that several components use.\<close>

datatype LoiterDirection = CW | CCW

section \<open>Doubles\<close>

text \<open>
  A \<open>double\<close> is a finite number, one of the two infinities or NaN. The finite part is an exact
  real: rounding is abstracted, every other rule (NaN is unordered, infinity minus infinity is NaN)
  is IEEE's.
\<close>

datatype dbl = Fin real | PInf | NInf | NaN

fun dbl_neg :: "dbl \<Rightarrow> dbl" where
  "dbl_neg (Fin a) = Fin (- a)"
| "dbl_neg PInf = NInf"
| "dbl_neg NInf = PInf"
| "dbl_neg NaN = NaN"

fun dbl_add :: "dbl \<Rightarrow> dbl \<Rightarrow> dbl" where
  "dbl_add (Fin a) (Fin b) = Fin (a + b)"
| "dbl_add NaN _ = NaN"
| "dbl_add _ NaN = NaN"
| "dbl_add PInf NInf = NaN"
| "dbl_add NInf PInf = NaN"
| "dbl_add PInf _ = PInf"
| "dbl_add NInf _ = NInf"
| "dbl_add (Fin _) PInf = PInf"
| "dbl_add (Fin _) NInf = NInf"

definition dbl_sub :: "dbl \<Rightarrow> dbl \<Rightarrow> dbl" where
  "dbl_sub a b = dbl_add a (dbl_neg b)"

fun dbl_abs :: "dbl \<Rightarrow> dbl" where
  "dbl_abs (Fin a) = Fin \<bar>a\<bar>"
| "dbl_abs NaN = NaN"
| "dbl_abs _ = PInf"

fun dbl_lt :: "dbl \<Rightarrow> dbl \<Rightarrow> bool" where
  "dbl_lt (Fin a) (Fin b) = (a < b)"
| "dbl_lt NInf (Fin _) = True"
| "dbl_lt NInf PInf = True"
| "dbl_lt (Fin _) PInf = True"
| "dbl_lt _ _ = False"

text \<open>
  Products, quotients and \<open>fmod\<close>; a zero is positive, so a positive number divided by zero is positive
  infinity. \<open>fmod\<close> takes the sign of its first argument.
\<close>

definition dbl_inf :: "bool \<Rightarrow> dbl" where
  "dbl_inf positive = (if positive then PInf else NInf)"

fun dbl_mul :: "dbl \<Rightarrow> dbl \<Rightarrow> dbl" where
  "dbl_mul (Fin a) (Fin b) = Fin (a * b)"
| "dbl_mul NaN _ = NaN"
| "dbl_mul _ NaN = NaN"
| "dbl_mul (Fin a) y = (if a = 0 then NaN else dbl_inf ((a > 0) = (y = PInf)))"
| "dbl_mul x (Fin b) = (if b = 0 then NaN else dbl_inf ((x = PInf) = (b > 0)))"
| "dbl_mul x y = dbl_inf ((x = PInf) = (y = PInf))"

fun dbl_div :: "dbl \<Rightarrow> dbl \<Rightarrow> dbl" where
  "dbl_div (Fin a) (Fin b) = (if b = 0 then (if a = 0 then NaN else dbl_inf (a > 0)) else Fin (a / b))"
| "dbl_div NaN _ = NaN"
| "dbl_div _ NaN = NaN"
| "dbl_div (Fin a) _ = Fin 0"
| "dbl_div x (Fin b) = dbl_inf ((x = PInf) = (b \<ge> 0))"
| "dbl_div _ _ = NaN"

definition trunc :: "real \<Rightarrow> int" where
  "trunc r = (if r \<ge> 0 then \<lfloor>r\<rfloor> else \<lceil>r\<rceil>)"

fun dbl_fmod :: "dbl \<Rightarrow> dbl \<Rightarrow> dbl" where
  "dbl_fmod (Fin a) (Fin b) = (if b = 0 then NaN else Fin (a - b * of_int (trunc (a / b))))"
| "dbl_fmod (Fin a) PInf = Fin a"
| "dbl_fmod (Fin a) NInf = Fin a"
| "dbl_fmod _ _ = NaN"

text \<open>\<open>std::max\<close>, and the largest finite double.\<close>

definition dbl_max :: "dbl \<Rightarrow> dbl \<Rightarrow> dbl" where
  "dbl_max a b = (if dbl_lt a b then b else a)"

definition max_double :: dbl where
  "max_double = Fin (2 ^ 1024 - 2 ^ 971)"

lemma dbl_sub_Fin [simp]: "dbl_sub (Fin a) (Fin b) = Fin (a - b)"
  by (simp add: dbl_sub_def)

lemma dbl_abs_sub_commute: "dbl_abs (dbl_sub a b) = dbl_abs (dbl_sub b a)"
  by (cases a; cases b) (auto simp: dbl_sub_def)

lemma dbl_lt_irrefl [simp]: "\<not> dbl_lt a a"
  by (cases a) auto

lemma dbl_lt_asym: "dbl_lt a b \<Longrightarrow> \<not> dbl_lt b a"
  by (cases a; cases b) auto

lemma dbl_lt_trans: "dbl_lt a b \<Longrightarrow> dbl_lt b c \<Longrightarrow> dbl_lt a c"
  by (cases a; cases b; cases c) auto

section \<open>Lists\<close>

lemma less_length_takeWhile:
  "p < length (takeWhile P m) \<longleftrightarrow> p < length m \<and> (\<forall>q \<le> p. P (m ! q))"
proof (induction m arbitrary: p)
  case (Cons e m)
  show ?case
  proof (cases p)
    case (Suc p')
    have "(\<forall>q \<le> Suc p'. P ((e # m) ! q)) \<longleftrightarrow> P e \<and> (\<forall>q \<le> p'. P (m ! q))"
      by (metis Suc_le_mono le0 nat.exhaust nth_Cons_0 nth_Cons_Suc)
    then show ?thesis using Cons.IH [of p'] Suc by auto
  qed auto
qed simp

section \<open>Unordered maps\<close>

text \<open>
  A \<open>std::unordered_map\<close> is a list of entries with distinct keys; the order of the list is the
  (unspecified) iteration order. \<open>um_insert\<close> is \<open>insert\<close>, which leaves an existing entry alone;
  \<open>um_put\<close> is assignment through \<open>operator[]\<close>.
\<close>

type_synonym ('k, 'v) umap = "('k \<times> 'v) list"

definition um_insert :: "'k \<Rightarrow> 'v \<Rightarrow> ('k, 'v) umap \<Rightarrow> ('k, 'v) umap" where
  "um_insert k v m = (case map_of m k of None \<Rightarrow> m @ [(k, v)] | Some _ \<Rightarrow> m)"

abbreviation um_put :: "'k \<Rightarrow> 'v \<Rightarrow> ('k, 'v) umap \<Rightarrow> ('k, 'v) umap" where
  "um_put \<equiv> AList.update"

abbreviation um_erase :: "'k \<Rightarrow> ('k, 'v) umap \<Rightarrow> ('k, 'v) umap" where
  "um_erase \<equiv> AList.delete"

definition um_ok :: "('k, 'v) umap \<Rightarrow> bool" where
  "um_ok m \<longleftrightarrow> distinct (map fst m)"

lemma map_of_um_insert [simp]:
  "map_of (um_insert k v m) = (if map_of m k = None then (map_of m)(k \<mapsto> v) else map_of m)"
proof (cases "map_of m k")
  case None
  have "map_of (m @ [(k, v)]) x = ((map_of m)(k \<mapsto> v)) x" for x
    using None by (auto simp: map_add_def split: option.splits)
  then show ?thesis using None by (auto simp: um_insert_def)
qed (simp add: um_insert_def)

lemmas um_find_simps [simp] = update_conv' delete_conv'

lemma um_ok_Nil [simp]: "um_ok []"
  by (simp add: um_ok_def)

lemma um_ok_insert [simp]: "um_ok m \<Longrightarrow> um_ok (um_insert k v m)"
  by (auto simp: um_ok_def um_insert_def map_of_eq_None_iff split: option.splits)

lemma um_ok_put [simp]: "um_ok m \<Longrightarrow> um_ok (um_put k v m)"
  by (simp add: um_ok_def distinct_update)

lemma um_ok_erase [simp]: "um_ok m \<Longrightarrow> um_ok (um_erase k m)"
  by (simp add: um_ok_def distinct_delete)

lemma set_um_erase: "set (um_erase k m) = {e \<in> set m. fst e \<noteq> k}"
  by (induction m) auto

lemma set_um_put: "set (um_put k v m) \<subseteq> insert (k, v) (set m)"
  by (induction m) auto

lemma um_erase_absent [simp]: "map_of m k = None \<Longrightarrow> um_erase k m = m"
  by (simp add: map_of_eq_None_iff)

end
