(* ===== verification/Std_Map.thy ===== *)
theory Std_Map
  imports Prelude
begin

text \<open>
  The ordered associative containers of the standard library, \<open>std::map\<close> and
  \<open>std::multimap\<close>, over an arbitrary comparison function \<open>lt\<close>. A container is the list of
  its entries in iteration order; every search walks to the first entry whose key is not less than
  the one searched for (\<open>lower_bound\<close>), and two keys are the same key when neither is less than
  the other, as the standard prescribes.

  The laws (what a lookup returns after an insertion) need the comparison to be a strict weak
  order on the keys in use; the locale \<open>strict_weak_order\<close> states that, and the components that
  keep such containers interpret it for their comparison.
\<close>

section \<open>Operations\<close>

fun om_find :: "('k \<Rightarrow> 'k \<Rightarrow> bool) \<Rightarrow> 'k \<Rightarrow> ('k \<times> 'v) list \<Rightarrow> 'v option" where
  "om_find lt k [] = None"
| "om_find lt k ((a, w) # m) =
     (if lt a k then om_find lt k m else if lt k a then None else Some w)"

text \<open>\<open>insert\<close>: an entry with the same key stays as it is.\<close>

fun om_insert :: "('k \<Rightarrow> 'k \<Rightarrow> bool) \<Rightarrow> 'k \<Rightarrow> 'v \<Rightarrow> ('k \<times> 'v) list \<Rightarrow> ('k \<times> 'v) list" where
  "om_insert lt k v [] = [(k, v)]"
| "om_insert lt k v ((a, w) # m) =
     (if lt a k then (a, w) # om_insert lt k v m
      else if lt k a then (k, v) # (a, w) # m else (a, w) # m)"

text \<open>\<open>operator[]\<close> followed by an assignment: an entry with the same key keeps its stored key.\<close>

fun om_put :: "('k \<Rightarrow> 'k \<Rightarrow> bool) \<Rightarrow> 'k \<Rightarrow> 'v \<Rightarrow> ('k \<times> 'v) list \<Rightarrow> ('k \<times> 'v) list" where
  "om_put lt k v [] = [(k, v)]"
| "om_put lt k v ((a, w) # m) =
     (if lt a k then (a, w) # om_put lt k v m
      else if lt k a then (k, v) # (a, w) # m else (a, v) # m)"

fun om_erase :: "('k \<Rightarrow> 'k \<Rightarrow> bool) \<Rightarrow> 'k \<Rightarrow> ('k \<times> 'v) list \<Rightarrow> ('k \<times> 'v) list" where
  "om_erase lt k [] = []"
| "om_erase lt k ((a, w) # m) =
     (if lt a k then (a, w) # om_erase lt k m
      else if lt k a then (a, w) # m else m)"

text \<open>\<open>multimap::insert\<close> puts the new entry behind every entry with the same key.\<close>

fun mm_insert :: "('k \<Rightarrow> 'k \<Rightarrow> bool) \<Rightarrow> 'k \<Rightarrow> 'v \<Rightarrow> ('k \<times> 'v) list \<Rightarrow> ('k \<times> 'v) list" where
  "mm_insert lt k v [] = [(k, v)]"
| "mm_insert lt k v ((a, w) # m) =
     (if lt k a then (k, v) # (a, w) # m else (a, w) # mm_insert lt k v m)"

text \<open>Iterators are positions; the length of the list is \<open>end()\<close>.\<close>

definition mm_lower_bound :: "('k \<Rightarrow> 'k \<Rightarrow> bool) \<Rightarrow> 'k \<Rightarrow> ('k \<times> 'v) list \<Rightarrow> nat" where
  "mm_lower_bound lt k m = length (takeWhile (\<lambda>e. lt (fst e) k) m)"

definition mm_upper_bound :: "('k \<Rightarrow> 'k \<Rightarrow> bool) \<Rightarrow> 'k \<Rightarrow> ('k \<times> 'v) list \<Rightarrow> nat" where
  "mm_upper_bound lt k m = length (takeWhile (\<lambda>e. \<not> lt k (fst e)) m)"

definition mm_find :: "('k \<Rightarrow> 'k \<Rightarrow> bool) \<Rightarrow> 'k \<Rightarrow> ('k \<times> 'v) list \<Rightarrow> nat" where
  "mm_find lt k m =
     (let i = mm_lower_bound lt k m
      in if i < length m \<and> \<not> lt k (fst (m ! i)) then i else length m)"

lemma set_mm_insert [simp]: "set (mm_insert lt k v m) = insert (k, v) (set m)"
  by (induction lt k v m rule: mm_insert.induct) auto

lemma length_mm_insert [simp]: "length (mm_insert lt k v m) = Suc (length m)"
  by (induction lt k v m rule: mm_insert.induct) auto

lemma mm_lower_bound_le: "mm_lower_bound lt k m \<le> length m"
  by (simp add: mm_lower_bound_def length_takeWhile_le)

lemma mm_upper_bound_le: "mm_upper_bound lt k m \<le> length m"
  by (simp add: mm_upper_bound_def length_takeWhile_le)

lemma set_om_put_subset: "fst ` set (om_put lt k v m) \<subseteq> insert k (fst ` set m)"
  by (induction lt k v m rule: om_put.induct) auto

lemma set_om_erase_subset: "set (om_erase lt k m) \<subseteq> set m"
  by (induction lt k m rule: om_erase.induct) auto

section \<open>The contract of the comparison and the laws it gives\<close>

definition lt_eqv :: "('k \<Rightarrow> 'k \<Rightarrow> bool) \<Rightarrow> 'k \<Rightarrow> 'k \<Rightarrow> bool" where
  "lt_eqv lt x y \<longleftrightarrow> \<not> lt x y \<and> \<not> lt y x"

definition om_ok :: "('k \<Rightarrow> 'k \<Rightarrow> bool) \<Rightarrow> 'k set \<Rightarrow> ('k \<times> 'v) list \<Rightarrow> bool" where
  "om_ok lt K m \<longleftrightarrow> fst ` set m \<subseteq> K \<and> sorted_wrt (\<lambda>x y. lt (fst x) (fst y)) m"

definition mm_ok :: "('k \<Rightarrow> 'k \<Rightarrow> bool) \<Rightarrow> ('k \<times> 'v) list \<Rightarrow> bool" where
  "mm_ok lt m \<longleftrightarrow> sorted_wrt (\<lambda>x y. \<not> lt (fst y) (fst x)) m"

lemma om_ok_Nil [simp]: "om_ok lt K []"
  by (simp add: om_ok_def)

lemma mm_ok_Nil [simp]: "mm_ok lt []"
  by (simp add: mm_ok_def)

lemma om_ok_Cons:
  "om_ok lt K ((a, w) # m) \<longleftrightarrow> a \<in> K \<and> (\<forall>e \<in> set m. lt a (fst e)) \<and> om_ok lt K m"
  by (auto simp: om_ok_def)

lemma mm_ok_Cons:
  "mm_ok lt (e # m) \<longleftrightarrow> (\<forall>f \<in> set m. \<not> lt (fst f) (fst e)) \<and> mm_ok lt m"
  by (auto simp: mm_ok_def)

lemma mm_ok_take: "mm_ok lt m \<Longrightarrow> mm_ok lt (take n m)"
  by (simp add: mm_ok_def sorted_wrt_take)

lemma mm_ok_remove1: "mm_ok lt m \<Longrightarrow> mm_ok lt (take n m @ drop (Suc n) m)"
  by (induction m arbitrary: n) (auto simp: mm_ok_Cons take_Cons drop_Cons
      dest: in_set_takeD in_set_dropD split: nat.splits)

locale strict_weak_order =
  fixes lt :: "'k \<Rightarrow> 'k \<Rightarrow> bool" and K :: "'k set"
  assumes lt_irrefl: "x \<in> K \<Longrightarrow> \<not> lt x x"
    and lt_trans: "\<lbrakk>lt x y; lt y z; x \<in> K; y \<in> K; z \<in> K\<rbrakk> \<Longrightarrow> lt x z"
    and lt_split: "\<lbrakk>lt x z; x \<in> K; y \<in> K; z \<in> K\<rbrakk> \<Longrightarrow> lt x y \<or> lt y z"
begin

lemma lt_asym: "lt x y \<Longrightarrow> x \<in> K \<Longrightarrow> y \<in> K \<Longrightarrow> \<not> lt y x"
  using lt_irrefl lt_trans by blast

lemma om_ok_put: "om_ok lt K m \<Longrightarrow> k \<in> K \<Longrightarrow> om_ok lt K (om_put lt k v m)"
proof (induction m)
  case Nil
  then show ?case by (simp add: om_ok_def)
next
  case (Cons e m)
  obtain a w where e: "e = (a, w)" by (cases e)
  have sub: "fst f = k \<or> (\<exists>g \<in> set m. fst f = fst g)" if "f \<in> set (om_put lt k v m)" for f
    using set_om_put_subset [of lt k v m] that by (auto simp: image_iff subset_iff)
  have *: "a \<in> K" "\<forall>f \<in> set m. lt a (fst f) \<and> fst f \<in> K" "om_ok lt K m"
    using Cons.prems by (auto simp: e om_ok_Cons om_ok_def)
  show ?case
  proof (cases "lt a k")
    case True
    then show ?thesis using Cons * sub by (fastforce simp: e om_ok_Cons)
  next
    case False
    then show ?thesis using Cons * lt_trans by (auto simp: e om_ok_Cons)
  qed
qed

lemma om_ok_erase: "om_ok lt K m \<Longrightarrow> om_ok lt K (om_erase lt k m)"
proof (induction m)
  case (Cons e m)
  then show ?case
    using set_om_erase_subset [of lt k m] by (cases e) (auto simp: om_ok_Cons)
qed simp

lemma om_find_None_lt:
  "om_ok lt K m \<Longrightarrow> k \<in> K \<Longrightarrow> \<forall>e \<in> set m. lt k (fst e) \<Longrightarrow> om_find lt k m = None"
  by (cases m) (auto simp: om_ok_Cons dest: lt_asym)

lemma eqv_cong:
  assumes "\<not> lt x y" and "\<not> lt y x" and K: "x \<in> K" "y \<in> K" "z \<in> K"
  shows "lt x z \<longleftrightarrow> lt y z" and "lt z x \<longleftrightarrow> lt z y"
  using assms lt_split by blast+

lemma om_find_put:
  "\<lbrakk>om_ok lt K m; k \<in> K; j \<in> K\<rbrakk> \<Longrightarrow>
     om_find lt j (om_put lt k v m) = (if lt_eqv lt k j then Some v else om_find lt j m)"
proof (induction m)
  case Nil
  then show ?case by (auto simp: lt_eqv_def)
next
  case (Cons e m)
  obtain a w where e: "e = (a, w)" by (cases e)
  have a: "a \<in> K" and IH: "om_find lt j (om_put lt k v m) =
      (if lt_eqv lt k j then Some v else om_find lt j m)"
    using Cons by (auto simp: e om_ok_Cons)
  note K = a Cons.prems(2,3)
  consider "lt a k" | "\<not> lt a k" "lt k a" | "\<not> lt a k" "\<not> lt k a" by blast
  then show ?case
  proof cases
    case 1
    then have "lt a j \<or> lt j k" using lt_split [of a k j] K by blast
    then show ?thesis using 1 IH by (auto simp: e lt_eqv_def)
  next
    case 2
    then have "lt j k \<Longrightarrow> lt j a \<and> \<not> lt a j" "lt k j \<Longrightarrow> \<not> lt j k"
      using K lt_trans [of j k a] lt_asym by blast+
    then show ?thesis using 2 by (auto simp: e lt_eqv_def)
  next
    case 3
    then have "lt a j \<longleftrightarrow> lt k j" "lt j a \<longleftrightarrow> lt j k"
      using eqv_cong K by blast+
    then show ?thesis using 3 by (auto simp: e lt_eqv_def)
  qed
qed

lemma om_find_erase:
  "\<lbrakk>om_ok lt K m; k \<in> K; j \<in> K\<rbrakk> \<Longrightarrow>
     om_find lt j (om_erase lt k m) = (if lt_eqv lt k j then None else om_find lt j m)"
proof (induction m)
  case (Cons e m)
  obtain a w where e: "e = (a, w)" by (cases e)
  have a: "a \<in> K" and later: "\<forall>f \<in> set m. lt a (fst f) \<and> fst f \<in> K" and ok: "om_ok lt K m"
    and IH: "om_find lt j (om_erase lt k m) = (if lt_eqv lt k j then None else om_find lt j m)"
    using Cons by (auto simp: e om_ok_Cons om_ok_def)
  note K = a Cons.prems(2,3)
  consider "lt a k" | "\<not> lt a k" "lt k a" | "\<not> lt a k" "\<not> lt k a" by blast
  then show ?case
  proof cases
    case 1
    then have "lt a j \<or> lt j k" using lt_split [of a k j] K by blast
    then show ?thesis using 1 IH by (auto simp: e lt_eqv_def)
  next
    case 2
    then have "lt_eqv lt k j \<Longrightarrow> lt j a \<and> \<not> lt a j"
      using K eqv_cong [of k j a] lt_asym by (auto simp: lt_eqv_def)
    then show ?thesis using 2 by (auto simp: e)
  next
    case 3
    then have cong: "lt a j \<longleftrightarrow> lt k j" "lt j a \<longleftrightarrow> lt j k"
      using eqv_cong K by blast+
    have "om_find lt j m = None" if "\<not> lt a j"
      using that later K lt_split om_find_None_lt [OF ok K(3)] by blast
    then show ?thesis using 3 cong by (auto simp: e lt_eqv_def)
  qed
qed simp

end

lemma mm_ok_insert:
  assumes "strict_weak_order lt UNIV" and "mm_ok lt m"
  shows "mm_ok lt (mm_insert lt k v m)"
  using assms(2)
proof (induction m)
  case Nil
  then show ?case by (simp add: mm_ok_def)
next
  case (Cons e m)
  have "\<not> lt (fst f) k" if "lt k (fst e)" "\<not> lt (fst f) (fst e)" for f :: "'a \<times> 'b"
    using that strict_weak_order.lt_trans [OF assms(1), of "fst f" k "fst e"] by blast
  then show ?case
    using Cons strict_weak_order.lt_asym [OF assms(1), of k "fst e"]
    by (cases e) (auto simp: mm_ok_Cons)
qed

end
