(* ===== verification/Environment_Time.thy ===== *)
theory Environment_Time
  imports Std_Map
begin

text \<open>
  \<open>Data::EnvironmentTime\<close> (src/data/environment_time.h, .cpp): a broken-down calendar time with
  microseconds, its comparison operators and the subtraction that yields unsigned microseconds.
  The clock itself (\<open>CurrentTime\<close>, a call into Qt) is not modelled: operations of other components
  that read it take the time read as an argument. The flag \<open>isDST\<close> is copied by no operation and
  read by none; it is left out.
\<close>

section \<open>Data\<close>

record etime =
  year :: int
  month :: int
  dayOfMonth :: int
  hour :: int
  minute :: int
  second :: int
  millisecond :: int
  microsecond :: int
  instance_no :: u8

text \<open>The default constructor.\<close>

definition etime_zero :: etime where
  "etime_zero = \<lparr>year = 0, month = 0, dayOfMonth = 0, hour = 0, minute = 0, second = 0,
     millisecond = 0, microsecond = 0, instance_no = 0\<rparr>"

text \<open>
  The constructor from the C library's broken-down time, whose years count from 1900 and whose months from 0. C
  divides towards zero.
\<close>

record tm =
  tm_year :: int
  tm_mon :: int
  tm_mday :: int
  tm_hour :: int
  tm_min :: int
  tm_sec :: int

definition EnvironmentTime_tm :: "tm \<Rightarrow> int \<Rightarrow> etime" where
  "EnvironmentTime_tm t microseconds =
     (let ms = (if 0 \<le> microseconds then microseconds div 1000 else - (- microseconds div 1000))
      in \<lparr>year = tm_year t, month = tm_mon t, dayOfMonth = tm_mday t, hour = tm_hour t, minute = tm_min t,
          second = tm_sec t, millisecond = ms, microsecond = microseconds - 1000 * ms, instance_no = 0\<rparr>)"

section \<open>Comparison\<close>

definition time_eq :: "etime \<Rightarrow> etime \<Rightarrow> bool" where
  "time_eq a b =
     (if year a \<noteq> year b then False
      else if month a \<noteq> month b then False
      else if dayOfMonth a \<noteq> dayOfMonth b then False
      else if hour a \<noteq> hour b then False
      else if minute a \<noteq> minute b then False
      else if second a \<noteq> second b then False
      else if millisecond a \<noteq> millisecond b then False
      else if microsecond a \<noteq> microsecond b then False
      else if instance_no a \<noteq> instance_no b then False
      else True)"

definition EQTimeComponents :: "etime \<Rightarrow> etime \<Rightarrow> bool" where
  "EQTimeComponents a b =
     (if year a \<noteq> year b then False
      else if month a \<noteq> month b then False
      else if dayOfMonth a \<noteq> dayOfMonth b then False
      else if hour a \<noteq> hour b then False
      else if minute a \<noteq> minute b then False
      else if second a \<noteq> second b then False
      else if millisecond a \<noteq> millisecond b then False
      else if microsecond a \<noteq> microsecond b then False
      else True)"

definition time_neq :: "etime \<Rightarrow> etime \<Rightarrow> bool" where
  "time_neq a b = (\<not> time_eq a b)"

definition time_lt :: "etime \<Rightarrow> etime \<Rightarrow> bool" where
  "time_lt a b =
     (if year a \<noteq> year b then year a < year b
      else if month a \<noteq> month b then month a < month b
      else if dayOfMonth a \<noteq> dayOfMonth b then dayOfMonth a < dayOfMonth b
      else if hour a \<noteq> hour b then hour a < hour b
      else if minute a \<noteq> minute b then minute a < minute b
      else if second a \<noteq> second b then second a < second b
      else if millisecond a \<noteq> millisecond b then millisecond a < millisecond b
      else if microsecond a \<noteq> microsecond b then microsecond a < microsecond b
      else if instance_no a \<noteq> instance_no b then instance_no a < instance_no b
      else False)"

definition time_ge :: "etime \<Rightarrow> etime \<Rightarrow> bool" where
  "time_ge a b = (\<not> time_lt a b)"

definition time_gt :: "etime \<Rightarrow> etime \<Rightarrow> bool" where
  "time_gt a b = (if time_eq a b then (1::int) > 1 else time_ge a b)"

text \<open>\<open>setTime\<close> copies every modelled field.\<close>

definition setTime :: "etime \<Rightarrow> etime \<Rightarrow> etime" where
  "setTime this t = this\<lparr>year := year t, month := month t, dayOfMonth := dayOfMonth t,
     hour := hour t, minute := minute t, second := second t, millisecond := millisecond t,
     microsecond := microsecond t, instance_no := instance_no t\<rparr>"

section \<open>Subtraction\<close>

definition NonLeapDays :: "int list" where
  "NonLeapDays = [31, 28, 31, 30, 31, 30, 31, 31, 30, 31, 30, 31]"

text \<open>C's \<open>y % 4 == 0\<close> is divisibility, for negative \<open>y\<close> too.\<close>

definition isLeapYear :: "int \<Rightarrow> bool" where
  "isLeapYear y = ((4 dvd y \<and> \<not> 100 dvd y) \<or> 400 dvd y)"

text \<open>
  The loop that adds up the months before the given one. The table has twelve entries; for a
  month past 13 the code reads behind it, which the model cuts off at the end of the table
  (\<open>time_wf\<close> below excludes such months).
\<close>

definition days_before_month :: "int \<Rightarrow> int \<Rightarrow> int" where
  "days_before_month y m =
     sum_list (take (nat (m - 1)) NonLeapDays) + (if isLeapYear y \<and> m > 2 then 1 else 0)"

definition DailyMicroSeconds :: u64 where
  "DailyMicroSeconds = 86400000000"

definition year_us :: "int \<Rightarrow> u64" where
  "year_us i = (if isLeapYear i then 366 * DailyMicroSeconds else 365 * DailyMicroSeconds)"

text \<open>The two loops over the years between the operands.\<close>

function sub_years :: "int \<Rightarrow> int \<Rightarrow> u64 \<Rightarrow> u64" where
  "sub_years i hi d = (if i < hi then sub_years (i + 1) hi (d - year_us i) else d)"
  by pat_completeness auto
termination
  by (relation "measure (\<lambda>(i, hi, d). nat (hi - i))") auto

function add_years :: "int \<Rightarrow> int \<Rightarrow> u64 \<Rightarrow> u64" where
  "add_years i hi d = (if i < hi then add_years (i + 1) hi (d + year_us i) else d)"
  by pat_completeness auto
termination
  by (relation "measure (\<lambda>(i, hi, d). nat (hi - i))") auto

declare sub_years.simps [simp del] add_years.simps [simp del]

text \<open>
  \<open>operator -\<close>. Every \<open>Modifier*(a - b)\<close> converts a signed difference to \<open>uint64_t\<close>; the
  sums wrap.
\<close>

definition time_minus :: "etime \<Rightarrow> etime \<Rightarrow> u64" where
  "time_minus a b =
     (let d = word_of_int (microsecond a - microsecond b);
          d = d + 1000 * word_of_int (millisecond a - millisecond b);
          d = d + 1000000 * word_of_int (second a - second b);
          d = d + 60000000 * word_of_int (minute a - minute b);
          d = d + 3600000000 * word_of_int (hour a - hour b);
          d = d + 86400000000 * word_of_int (dayOfMonth a - dayOfMonth b);
          deltaDays = word_of_int (days_before_month (year a) (month a)
                                     - days_before_month (year b) (month b));
          d = d + deltaDays * DailyMicroSeconds;
          d = (if year a < year b then sub_years (year a) (year b) d else d)
      in if year b < year a then add_years (year b) (year a) d else d)"

section \<open>The order is a strict total order\<close>

text \<open>The fields in the order of their significance.\<close>

definition time_key :: "etime \<Rightarrow> int list" where
  "time_key t = [year t, month t, dayOfMonth t, hour t, minute t, second t, millisecond t,
     microsecond t, uint (instance_no t)]"

lemma time_lt_lexord: "time_lt a b \<longleftrightarrow> (time_key a, time_key b) \<in> lexord {(x, y). x < y}"
  by (auto simp: time_lt_def time_key_def word_less_def dest: word_uint_eqI)

lemma time_eq_key: "time_eq a b \<longleftrightarrow> time_key a = time_key b"
  by (auto simp: time_eq_def time_key_def dest: word_uint_eqI)

lemma time_key_inject: "time_key a = time_key b \<longleftrightarrow> a = b"
  by (auto simp: time_key_def dest: word_uint_eqI)

lemma time_eq_iff [simp]: "time_eq a b \<longleftrightarrow> a = b"
  by (simp add: time_eq_key time_key_inject)

lemma time_lt_irrefl [simp]: "\<not> time_lt a a"
  by (simp add: time_lt_def)

lemma time_lt_trans: "time_lt a b \<Longrightarrow> time_lt b c \<Longrightarrow> time_lt a c"
  unfolding time_lt_lexord by (rule lexord_trans) (auto intro: transI)

lemma time_lt_asym: "time_lt a b \<Longrightarrow> \<not> time_lt b a"
  using time_lt_trans time_lt_irrefl by blast

lemma time_lt_linear: "time_lt a b \<or> a = b \<or> time_lt b a"
proof -
  have "\<forall>x y::int. (x, y) \<in> {(x, y). x < y} \<or> x = y \<or> (y, x) \<in> {(x, y). x < y}"
    by auto
  from lexord_linear [OF this, of "time_key a" "time_key b"] show ?thesis
    by (auto simp: time_lt_lexord time_key_inject)
qed

lemma time_gt_iff [simp]: "time_gt a b \<longleftrightarrow> time_lt b a"
  using time_lt_linear [of a b] time_lt_asym [of a b]
  by (auto simp: time_gt_def time_ge_def)

interpretation time_order: strict_weak_order time_lt UNIV
proof
  fix x y z :: etime
  show "\<not> time_lt x x" by simp
  show "time_lt x y \<Longrightarrow> time_lt y z \<Longrightarrow> time_lt x z" by (rule time_lt_trans)
  show "time_lt x z \<Longrightarrow> time_lt x y \<or> time_lt y z"
    using time_lt_linear time_lt_trans by metis
qed

lemma time_ge_refl [simp]: "time_ge t t"
  by (simp add: time_ge_def)

lemma time_ge_trans: "time_ge c b \<Longrightarrow> time_ge b a \<Longrightarrow> time_ge c a"
  unfolding time_ge_def using time_order.lt_split [of c a b] by blast

lemma setTime_id [simp]: "setTime t u = u"
  by (simp add: setTime_def)

text \<open>The later of two times, as the update of a timestamp keeps it.\<close>

definition time_max :: "etime \<Rightarrow> etime \<Rightarrow> etime" where
  "time_max a b = (if time_lt a b then b else a)"

section \<open>Subtraction computes the calendar difference\<close>

text \<open>Days of the proleptic Gregorian calendar before a year, in closed form.\<close>

definition days_before_year :: "int \<Rightarrow> int" where
  "days_before_year y = 365 * y + (y - 1) div 4 - (y - 1) div 100 + (y - 1) div 400"

definition calendar_us :: "etime \<Rightarrow> int" where
  "calendar_us t = microsecond t + 1000 * millisecond t + 1000000 * second t
     + 60000000 * minute t + 3600000000 * hour t
     + 86400000000 * (dayOfMonth t + days_before_month (year t) (month t)
                        + days_before_year (year t))"

lemma div_step:
  assumes "0 < (n::int)"
  shows "y div n - (y - 1) div n = (if n dvd y then 1 else 0)"
proof (cases "n dvd y")
  case True
  then obtain q where y: "y = n * q" by blast
  have "(n * q - 1) div n = q - 1"
    by (rule int_div_pos_eq [where r = "n - 1"]) (use assms in \<open>auto simp: algebra_simps\<close>)
  then show ?thesis using True assms by (simp add: y)
next
  case False
  have "(y - 1) div n = y div n"
    by (rule int_div_pos_eq [where r = "y mod n - 1"])
      (use assms False pos_mod_sign [OF assms, of y] pos_mod_bound [OF assms, of y]
        in \<open>auto simp: dvd_eq_mod_eq_0 algebra_simps\<close>)
  then show ?thesis using False by simp
qed

lemma days_before_year_step:
  "days_before_year (y + 1) - days_before_year y = (if isLeapYear y then 366 else 365)"
proof -
  have "400 dvd y \<Longrightarrow> 100 dvd y" "100 dvd y \<Longrightarrow> 4 dvd y"
    using dvd_trans [of 100 400 y] dvd_trans [of 4 100 y] by simp_all
  moreover have "days_before_year (y + 1) - days_before_year y
      = 365 + (y div 4 - (y - 1) div 4) - (y div 100 - (y - 1) div 100)
        + (y div 400 - (y - 1) div 400)"
    by (simp add: days_before_year_def)
  ultimately show ?thesis by (simp add: div_step isLeapYear_def)
qed

lemma year_us_eq:
  "year_us y = of_int (86400000000 * (days_before_year (y + 1) - days_before_year y))"
  by (simp add: days_before_year_step year_us_def DailyMicroSeconds_def)

lemma sub_years_eq:
  "i \<le> hi \<Longrightarrow>
     sub_years i hi d = d - of_int (86400000000 * (days_before_year hi - days_before_year i))"
proof (induction i hi d rule: sub_years.induct)
  case (1 i hi d)
  show ?case
  proof (cases "i < hi")
    case True
    then show ?thesis
      using "1.IH" by (simp add: sub_years.simps [of i hi d] year_us_eq algebra_simps)
  next
    case False
    then show ?thesis using "1.prems" sub_years.simps [of hi hi d] by simp
  qed
qed

lemma add_years_eq:
  "i \<le> hi \<Longrightarrow>
     add_years i hi d = d + of_int (86400000000 * (days_before_year hi - days_before_year i))"
proof (induction i hi d rule: add_years.induct)
  case (1 i hi d)
  show ?case
  proof (cases "i < hi")
    case True
    then show ?thesis
      using "1.IH" by (simp add: add_years.simps [of i hi d] year_us_eq algebra_simps)
  next
    case False
    then show ?thesis using "1.prems" add_years.simps [of hi hi d] by simp
  qed
qed

lemma time_minus_calendar: "time_minus a b = of_int (calendar_us a - calendar_us b)"
  by (simp add: time_minus_def Let_def sub_years_eq add_years_eq calendar_us_def
      DailyMicroSeconds_def algebra_simps)

text \<open>The fields are in their calendar ranges.\<close>

definition time_wf :: "etime \<Rightarrow> bool" where
  "time_wf t \<longleftrightarrow> 1 \<le> month t \<and> month t \<le> 12 \<and> 1 \<le> dayOfMonth t
     \<and> dayOfMonth t \<le> NonLeapDays ! nat (month t - 1)
          + (if isLeapYear (year t) \<and> month t = 2 then 1 else 0)
     \<and> 0 \<le> hour t \<and> hour t < 24 \<and> 0 \<le> minute t \<and> minute t < 60
     \<and> 0 \<le> second t \<and> second t < 60 \<and> 0 \<le> millisecond t \<and> millisecond t < 1000
     \<and> 0 \<le> microsecond t \<and> microsecond t < 1000"

lemma days_before_month_step:
  assumes "1 \<le> m" "m \<le> 11"
  shows "days_before_month y (m + 1) = days_before_month y m + NonLeapDays ! nat (m - 1)
     + (if isLeapYear y \<and> m = 2 then 1 else 0)"
proof -
  have "nat m = Suc (nat (m - 1))" "nat (m - 1) < length NonLeapDays"
    using assms by (auto simp: NonLeapDays_def)
  then show ?thesis
    by (auto simp: days_before_month_def take_Suc_conv_app_nth)
qed

definition days_in_month :: "int \<Rightarrow> int \<Rightarrow> int" where
  "days_in_month y m = NonLeapDays ! nat (m - 1) + (if isLeapYear y \<and> m = 2 then 1 else 0)"

text \<open>A day of an earlier month comes before every day of a later one.\<close>

lemma days_before_month_mono:
  assumes "1 \<le> m" "m < n" "n \<le> 12"
  shows "days_before_month y m + days_in_month y m \<le> days_before_month y n"
proof -
  have nonneg: "0 \<le> days_in_month y k" if "1 \<le> k" "k \<le> 12" for k
  proof -
    have "nat (k - 1) < length NonLeapDays" using that by (auto simp: NonLeapDays_def)
    moreover have "\<forall>d \<in> set NonLeapDays. 0 \<le> d" by (simp add: NonLeapDays_def)
    ultimately have "0 \<le> NonLeapDays ! nat (k - 1)" using nth_mem by blast
    then show ?thesis by (simp add: days_in_month_def)
  qed
  have "m + int (Suc j) \<le> 12 \<Longrightarrow>
      days_before_month y m + days_in_month y m \<le> days_before_month y (m + int (Suc j))" for j
  proof (induction j)
    case 0
    then show ?case
      using assms days_before_month_step [of m y] by (simp add: days_in_month_def)
  next
    case (Suc j)
    have step: "days_before_month y (m + int (Suc j) + 1)
        = days_before_month y (m + int (Suc j)) + days_in_month y (m + int (Suc j))"
      using assms Suc.prems days_before_month_step [of "m + int (Suc j)" y]
      by (simp add: days_in_month_def)
    have "days_before_month y m + days_in_month y m \<le> days_before_month y (m + int (Suc j))"
      using Suc by simp
    also have "\<dots> \<le> days_before_month y (m + int (Suc j) + 1)"
      unfolding step using nonneg [of "m + int (Suc j)"] assms Suc.prems by simp
    finally show ?case by (simp add: algebra_simps)
  qed
  from this [of "nat (n - m - 1)"] assms show ?thesis by simp
qed

lemma days_before_month_last: "days_before_month y 12 + days_in_month y 12
    = (if isLeapYear y then 366 else 365)"
  by (simp add: days_before_month_def days_in_month_def NonLeapDays_def numeral_eq_Suc)

lemma days_before_month_nonneg: "1 \<le> m \<Longrightarrow> m \<le> 12 \<Longrightarrow> 0 \<le> days_before_month y m"
proof -
  have "\<forall>d \<in> set NonLeapDays. 0 \<le> d" by (simp add: NonLeapDays_def)
  then have "0 \<le> sum_list (take n NonLeapDays)" for n
    by (intro sum_list_nonneg) (blast dest: in_set_takeD)
  then show ?thesis by (simp add: days_before_month_def)
qed

lemma days_before_year_mono:
  assumes "y < z"
  shows "days_before_year y + (if isLeapYear y then 366 else 365) \<le> days_before_year z"
proof -
  have "days_before_year y + (if isLeapYear y then 366 else 365)
      \<le> days_before_year (y + int (Suc j))" for j
  proof (induction j)
    case 0
    then show ?case using days_before_year_step [of y] by simp
  next
    case (Suc j)
    have "days_before_year (y + int (Suc j)) \<le> days_before_year (y + int (Suc j) + 1)"
      using days_before_year_step [of "y + int (Suc j)"] by (metis diff_ge_0_iff_ge zero_le_numeral)
    with Suc show ?case by (simp add: algebra_simps)
  qed
  from this [of "nat (z - y - 1)"] assms show ?thesis by simp
qed

definition day_number :: "etime \<Rightarrow> int" where
  "day_number t = dayOfMonth t + days_before_month (year t) (month t) + days_before_year (year t)"

definition us_of_day :: "etime \<Rightarrow> int" where
  "us_of_day t = microsecond t + 1000 * millisecond t + 1000000 * second t
     + 60000000 * minute t + 3600000000 * hour t"

lemma calendar_us_split: "calendar_us t = us_of_day t + 86400000000 * day_number t"
  by (simp add: calendar_us_def us_of_day_def day_number_def)

lemma time_wf_month: "time_wf t \<Longrightarrow> 1 \<le> dayOfMonth t \<and> dayOfMonth t \<le> days_in_month (year t) (month t)
    \<and> 1 \<le> month t \<and> month t \<le> 12"
  by (auto simp: time_wf_def days_in_month_def)

lemma us_of_day_bound: "time_wf t \<Longrightarrow> 0 \<le> us_of_day t \<and> us_of_day t < 86400000000"
  by (auto simp: time_wf_def us_of_day_def)

lemma day_of_year_bound:
  assumes "time_wf t"
  shows "0 < dayOfMonth t + days_before_month (year t) (month t)"
    and "dayOfMonth t + days_before_month (year t) (month t)
           \<le> (if isLeapYear (year t) then 366 else 365)"
proof -
  note wf = time_wf_month [OF assms]
  show "0 < dayOfMonth t + days_before_month (year t) (month t)"
    using wf days_before_month_nonneg [of "month t" "year t"] by linarith
  have "days_before_month (year t) (month t) + days_in_month (year t) (month t)
      \<le> days_before_month (year t) 12 + days_in_month (year t) 12"
  proof (cases "month t = 12")
    case False
    then have "days_before_month (year t) (month t) + days_in_month (year t) (month t)
        \<le> days_before_month (year t) 12"
      using wf days_before_month_mono [of "month t" 12 "year t"] by simp
    moreover have "0 \<le> days_in_month (year t) 12"
      by (simp add: days_in_month_def NonLeapDays_def numeral_eq_Suc)
    ultimately show ?thesis by linarith
  qed simp
  then show "dayOfMonth t + days_before_month (year t) (month t)
      \<le> (if isLeapYear (year t) then 366 else 365)"
    using wf unfolding days_before_month_last by linarith
qed

lemma day_number_less:
  assumes "time_wf a" "time_wf b"
    and "year a < year b \<or> year a = year b \<and> (month a < month b
           \<or> month a = month b \<and> dayOfMonth a < dayOfMonth b)"
  shows "day_number a < day_number b"
proof -
  consider "year a < year b" | "year a = year b" "month a < month b"
    | "year a = year b" "month a = month b" "dayOfMonth a < dayOfMonth b"
    using assms(3) by blast
  then show ?thesis
  proof cases
    case 1
    then show ?thesis
      using day_of_year_bound [OF assms(1)] day_of_year_bound [OF assms(2)]
        days_before_year_mono [OF 1] by (simp add: day_number_def)
  next
    case 2
    then show ?thesis
      using time_wf_month [OF assms(1)] time_wf_month [OF assms(2)]
        days_before_month_mono [of "month a" "month b" "year a"] by (simp add: day_number_def)
  next
    case 3
    then show ?thesis by (simp add: day_number_def)
  qed
qed

lemma us_of_day_less:
  assumes "time_wf a" "time_wf b"
    and "hour a < hour b \<or> hour a = hour b \<and> (minute a < minute b
      \<or> minute a = minute b \<and> (second a < second b \<or> second a = second b \<and>
        (millisecond a < millisecond b
           \<or> millisecond a = millisecond b \<and> microsecond a < microsecond b)))"
  shows "us_of_day a < us_of_day b"
  using assms by (auto simp: time_wf_def us_of_day_def)

lemma calendar_us_less:
  assumes "time_wf a" "time_wf b" "time_lt a b" "\<not> EQTimeComponents a b"
  shows "calendar_us a < calendar_us b"
proof (cases "year a = year b \<and> month a = month b \<and> dayOfMonth a = dayOfMonth b")
  case True
  then have "us_of_day a < us_of_day b"
    using assms(3,4) by (intro us_of_day_less assms(1,2))
      (auto simp: time_lt_def EQTimeComponents_def split: if_splits)
  moreover have "day_number a = day_number b" using True by (simp add: day_number_def)
  ultimately show ?thesis by (simp add: calendar_us_split)
next
  case False
  then have "day_number a < day_number b"
    using assms(3) by (intro day_number_less assms(1,2)) (auto simp: time_lt_def split: if_splits)
  then have "day_number a + 1 \<le> day_number b" by simp
  then show ?thesis
    using us_of_day_bound [OF assms(1)] us_of_day_bound [OF assms(2)]
    by (simp add: calendar_us_split)
qed

lemma calendar_us_cong: "EQTimeComponents a b \<Longrightarrow> calendar_us a = calendar_us b"
  by (simp add: EQTimeComponents_def calendar_us_def split: if_splits)

text \<open>For calendar times the order is the order of the microseconds since the epoch.\<close>

lemma time_lt_calendar:
  assumes "time_wf a" "time_wf b" "\<not> EQTimeComponents a b"
  shows "time_lt a b \<longleftrightarrow> calendar_us a < calendar_us b"
proof -
  have "a \<noteq> b" "\<not> EQTimeComponents b a" using assms(3) by (auto simp: EQTimeComponents_def split: if_splits)
  then show ?thesis
    using assms calendar_us_less [of a b] calendar_us_less [of b a] time_lt_linear [of a b]
    by auto
qed

section \<open>Properties\<close>



text \<open>
  Times that are made from a \<open>tm\<close> are subtracted wrongly, since the operator counts months from 1: between the first
  of February and the first of March 2021 there are 28 days, and the operator finds 31; between the same days of 2000,
  a leap year, 29 days, and it finds 31.
\<close>

theorem tm_times_differ_wrongly:
  "time_minus (EnvironmentTime_tm \<lparr>tm_year = 121, tm_mon = 2, tm_mday = 1, tm_hour = 0, tm_min = 0, tm_sec = 0\<rparr> 0)
     (EnvironmentTime_tm \<lparr>tm_year = 121, tm_mon = 1, tm_mday = 1, tm_hour = 0, tm_min = 0, tm_sec = 0\<rparr> 0)
       = 31 * DailyMicroSeconds
   \<and> time_minus (EnvironmentTime_tm \<lparr>tm_year = 100, tm_mon = 2, tm_mday = 1, tm_hour = 0, tm_min = 0, tm_sec = 0\<rparr> 0)
     (EnvironmentTime_tm \<lparr>tm_year = 100, tm_mon = 1, tm_mday = 1, tm_hour = 0, tm_min = 0, tm_sec = 0\<rparr> 0)
       = 31 * DailyMicroSeconds"
  by code_simp

text \<open>
  The comparison operators are one strict total order on times (irreflexive, transitive, total),
  \<open>>\<close> and \<open>>=\<close> are its converse and its complement, and on calendar times that differ in more than
  the instance number it is the order of the instants they denote.
\<close>

theorem time_order_total:
  "\<not> time_lt a a \<and> (time_lt a b \<and> time_lt b c \<longrightarrow> time_lt a c)
   \<and> (time_lt a b \<or> time_eq a b \<or> time_lt b a) \<and> time_gt a b = time_lt b a
   \<and> time_ge a b = (time_lt b a \<or> time_eq a b)
   \<and> (time_wf a \<and> time_wf b \<and> \<not> EQTimeComponents a b
        \<longrightarrow> time_lt a b = (calendar_us a < calendar_us b))"
  using time_lt_trans [of a b c] time_lt_linear [of a b] time_lt_asym [of a b]
    time_lt_calendar [of a b]
  by (auto simp: time_ge_def)

theorem time_order_total_witness:
  "time_lt (etime_zero\<lparr>year := 1, month := 1, dayOfMonth := 1\<rparr>)
     (etime_zero\<lparr>year := 1, month := 2, dayOfMonth := 1\<rparr>)"
proof -
  have "EQTimeComponents (etime_zero\<lparr>year := 1, month := 1, dayOfMonth := 1\<rparr>)
     (etime_zero\<lparr>year := 1, month := 2, dayOfMonth := 1\<rparr>) = False"
    by (simp add: EQTimeComponents_def etime_zero_def)
  moreover have "time_wf (etime_zero\<lparr>year := 1, month := 1, dayOfMonth := 1\<rparr>)"
    "time_wf (etime_zero\<lparr>year := 1, month := 2, dayOfMonth := 1\<rparr>)"
    by (simp_all add: time_wf_def etime_zero_def NonLeapDays_def)
  moreover have "calendar_us (etime_zero\<lparr>year := 1, month := 1, dayOfMonth := 1\<rparr>)
      < calendar_us (etime_zero\<lparr>year := 1, month := 2, dayOfMonth := 1\<rparr>)"
    by (simp add: calendar_us_def etime_zero_def days_before_month_def NonLeapDays_def)
  ultimately show ?thesis
    using time_order_total [of "etime_zero\<lparr>year := 1, month := 1, dayOfMonth := 1\<rparr>"
      "etime_zero\<lparr>year := 1, month := 2, dayOfMonth := 1\<rparr>"] by blast
qed

end
