(* ===== verification/Bids.thy ===== *)
theory Bids
  imports Environment_Time
begin

text \<open>
  Task keys and bids (src/data_tasks/task_key.h, src/data_auctioneer/bids/bid_descriptor.h, .cpp,
  src/data_auctioneer/scrub_message.h).

  A task key is identified by its creator and its task number; the time stamp and the task type it
  also carries take part in no comparison, no hash and no operation of the auctioneer, and are left
  out, so that two keys are the same key exactly when they are equal.

  Bids are compared with tolerances: utilities closer than \<open>s_utilityEpsilon\<close> count as equal, and so
  do generation times closer than \<open>s_bidTimeEpsilon\<close> microseconds, where the difference of the times
  is the unsigned one of \<open>EnvironmentTime::operator -\<close>.
\<close>

section \<open>Data\<close>

record TaskKey =
  creatorID :: u64
  taskID :: u8

definition taskkey_eq :: "TaskKey \<Rightarrow> TaskKey \<Rightarrow> bool" where
  "taskkey_eq key1 key2 \<longleftrightarrow> creatorID key1 = creatorID key2 \<and> taskID key1 = taskID key2"

record BidDescriptor =
  agentID :: u64
  taskKey :: TaskKey
  work :: dbl
  cost :: dbl
  reward :: dbl
  utility :: dbl
  generationTime :: etime
  priority :: u8   \<comment> \<open>the 8 bits of an \<open>int8_t\<close>; nothing compares it\<close>
  validity :: bool

record ScrubMessage =
  scrub_agentID :: u64
  scrub_taskKey :: TaskKey
  scrub_timestamp :: etime

definition scrub_eq :: "ScrubMessage \<Rightarrow> ScrubMessage \<Rightarrow> bool" where
  "scrub_eq lhs rhs \<longleftrightarrow> scrub_agentID lhs = scrub_agentID rhs
     \<and> taskkey_eq (scrub_taskKey lhs) (scrub_taskKey rhs)
     \<and> time_eq (scrub_timestamp lhs) (scrub_timestamp rhs)"

section \<open>Operations\<close>

text \<open>
  The two constructors. The default one leaves the members of its task key uninitialised; their
  value is the argument.
\<close>

definition BidDescriptor_default :: "TaskKey \<Rightarrow> BidDescriptor" where
  "BidDescriptor_default uninit = \<lparr>agentID = 0, taskKey = uninit, work = Fin 0, cost = PInf,
     reward = dbl_neg PInf, utility = dbl_neg PInf, generationTime = etime_zero, priority = 0,
     validity = False\<rparr>"

definition BidDescriptor_for :: "u64 \<Rightarrow> TaskKey \<Rightarrow> BidDescriptor" where
  "BidDescriptor_for agent key = \<lparr>agentID = agent, taskKey = key, work = Fin 0, cost = PInf,
     reward = dbl_neg PInf, utility = dbl_neg PInf, generationTime = etime_zero, priority = 0,
     validity = True\<rparr>"

definition setBidProperties ::
  "dbl \<Rightarrow> dbl \<Rightarrow> dbl \<Rightarrow> etime \<Rightarrow> bool \<Rightarrow> BidDescriptor \<Rightarrow> BidDescriptor" where
  "setBidProperties w c r t v b =
     b\<lparr>work := w, cost := c, reward := r, generationTime := t, validity := v\<rparr>"

definition EstimateUtility :: "BidDescriptor \<Rightarrow> BidDescriptor" where
  "EstimateUtility b =
     (let b = b\<lparr>utility := dbl_sub (reward b) (cost b)\<rparr>
      in if dbl_lt (utility b) (Fin 0) then b\<lparr>utility := Fin 0\<rparr> else b)"

section \<open>Comparison\<close>

definition s_utilityEpsilon :: real where
  "s_utilityEpsilon = 1 / 1000"

definition s_bidTimeEpsilon :: u64 where
  "s_bidTimeEpsilon = 5 * 1000"

definition utility_close :: "BidDescriptor \<Rightarrow> BidDescriptor \<Rightarrow> bool" where
  "utility_close a b =
     dbl_lt (dbl_abs (dbl_sub (utility a) (utility b))) (Fin s_utilityEpsilon)"

definition bid_eq :: "BidDescriptor \<Rightarrow> BidDescriptor \<Rightarrow> bool" where
  "bid_eq a b \<longleftrightarrow> utility_close a b \<and> agentID a = agentID b
     \<and> taskkey_eq (taskKey a) (taskKey b)
     \<and> time_minus (generationTime a) (generationTime b) < s_bidTimeEpsilon"

definition bid_lt :: "BidDescriptor \<Rightarrow> BidDescriptor \<Rightarrow> bool" where
  "bid_lt a b =
     (if bid_eq a b then False
      else if utility_close a b
      then (if agentID a = agentID b
            then (if time_minus (generationTime a) (generationTime b) > s_bidTimeEpsilon
                  then time_lt (generationTime a) (generationTime b) else False)
            else agentID a < agentID b)
      else dbl_lt (utility a) (utility b))"

definition bid_gt :: "BidDescriptor \<Rightarrow> BidDescriptor \<Rightarrow> bool" where
  "bid_gt a b = bid_lt b a"

definition bid_le :: "BidDescriptor \<Rightarrow> BidDescriptor \<Rightarrow> bool" where
  "bid_le a b = (\<not> bid_lt b a)"

definition bid_ge :: "BidDescriptor \<Rightarrow> BidDescriptor \<Rightarrow> bool" where
  "bid_ge a b = (\<not> bid_lt a b)"

section \<open>Laws of the comparison\<close>

lemma taskkey_eq_iff [simp]: "taskkey_eq a b \<longleftrightarrow> a = b"
  by (auto simp: taskkey_eq_def)

lemma scrub_eq_iff: "scrub_eq a b \<longleftrightarrow> a = b"
  by (auto simp: scrub_eq_def)

lemma utility_close_sym: "utility_close a b \<longleftrightarrow> utility_close b a"
  by (simp add: utility_close_def dbl_abs_sub_commute)

lemma utility_close_Fin:
  "utility a = Fin x \<Longrightarrow> utility b = Fin y \<Longrightarrow> utility_close a b \<longleftrightarrow> \<bar>x - y\<bar> < s_utilityEpsilon"
  by (simp add: utility_close_def)

lemma utility_close_refl: "utility a = Fin x \<Longrightarrow> utility_close a a"
  by (simp add: utility_close_def s_utilityEpsilon_def)

lemma time_minus_self [simp]: "time_minus t t = 0"
  by (simp add: time_minus_calendar)

lemma bid_eq_refl: "utility b = Fin x \<Longrightarrow> bid_eq b b"
  by (simp add: bid_eq_def utility_close_refl s_bidTimeEpsilon_def)

lemma bid_lt_irrefl [simp]: "\<not> bid_lt b b"
  by (auto simp: bid_lt_def)

lemma bid_lt_asym: "bid_lt a b \<Longrightarrow> \<not> bid_lt b a"
  using time_lt_asym dbl_lt_asym utility_close_sym [of a b]
  by (auto simp: bid_lt_def split: if_splits)

lemma bid_eq_agent: "bid_eq a b \<Longrightarrow> agentID a = agentID b"
  by (simp add: bid_eq_def)

subsection \<open>Bids of different agents\<close>

text \<open>
  The bids of an auction whose utilities are apart by the tolerance or equal, one of each agent.
\<close>

definition bids_separated :: "BidDescriptor set \<Rightarrow> bool" where
  "bids_separated B \<longleftrightarrow> (\<forall>a \<in> B. \<exists>x. utility a = Fin x)
     \<and> (\<forall>a \<in> B. \<forall>b \<in> B. utility_close a b \<longrightarrow> utility a = utility b)
     \<and> inj_on agentID B"

lemma bids_separated_mono: "bids_separated B \<Longrightarrow> A \<subseteq> B \<Longrightarrow> bids_separated A"
  by (auto simp: bids_separated_def intro: inj_on_subset)

lemma bids_separated_agent:
  "bids_separated B \<Longrightarrow> a \<in> B \<Longrightarrow> b \<in> B \<Longrightarrow> agentID a = agentID b \<Longrightarrow> a = b"
  unfolding bids_separated_def by (blast dest: inj_onD)

lemma bids_separated_refl: "bids_separated B \<Longrightarrow> b \<in> B \<Longrightarrow> bid_eq b b"
  unfolding bids_separated_def using bid_eq_refl by blast

text \<open>On such bids the comparison is by utility and then by agent.\<close>

definition bid_key :: "BidDescriptor \<Rightarrow> real \<times> nat" where
  "bid_key b = ((case utility b of Fin x \<Rightarrow> x | _ \<Rightarrow> 0), unat (agentID b))"

lemma bid_lt_separated:
  assumes "bids_separated B" "a \<in> B" "b \<in> B"
  shows "bid_lt a b \<longleftrightarrow> fst (bid_key a) < fst (bid_key b)
     \<or> fst (bid_key a) = fst (bid_key b) \<and> snd (bid_key a) < snd (bid_key b)"
proof (cases "a = b")
  case False
  obtain x y where u: "utility a = Fin x" "utility b = Fin y"
    using assms by (metis bids_separated_def)
  have ag: "agentID a \<noteq> agentID b"
    using assms False by (auto simp: bids_separated_def inj_on_def)
  have "utility_close a b \<longleftrightarrow> x = y"
    using assms(1)[unfolded bids_separated_def] assms(2,3) utility_close_Fin [OF u] u
    by (auto simp: s_utilityEpsilon_def)
  then show ?thesis
    using u ag by (auto simp: bid_lt_def bid_eq_def bid_key_def word_less_nat_alt)
qed simp

lemma bid_key_inj:
  assumes "bids_separated B" "a \<in> B" "b \<in> B" "bid_key a = bid_key b"
  shows "a = b"
proof -
  have "unat (agentID a) = unat (agentID b)" using assms(4) by (simp add: bid_key_def)
  then have "agentID a = agentID b" by (rule unsigned_word_eqI)
  then show ?thesis using assms(1-3) by (auto simp: bids_separated_def inj_on_def)
qed

lemma bid_lt_linear:
  "bids_separated B \<Longrightarrow> a \<in> B \<Longrightarrow> b \<in> B \<Longrightarrow> a \<noteq> b \<Longrightarrow> bid_lt a b \<or> bid_lt b a"
  using bid_key_inj [of B a b] bid_lt_separated [of B a b] bid_lt_separated [of B b a]
  by (metis linorder_less_linear prod.expand)

lemma bid_order_separated: "bids_separated B \<Longrightarrow> strict_weak_order bid_lt B"
  by unfold_locales (auto simp: bid_lt_separated)

text \<open>The best bid of a set.\<close>

definition best_bid :: "BidDescriptor set \<Rightarrow> BidDescriptor \<Rightarrow> bool" where
  "best_bid B b \<longleftrightarrow> b \<in> B \<and> (\<forall>a \<in> B. a \<noteq> b \<longrightarrow> bid_lt a b)"

lemma best_bid_unique: "best_bid B a \<Longrightarrow> best_bid B b \<Longrightarrow> a = b"
  unfolding best_bid_def using bid_lt_asym by metis

lemma best_bid_insert:
  assumes sep: "bids_separated (insert a B)" and best: "best_bid B b"
  shows "best_bid (insert a B) (if bid_lt b a then a else b)"
proof (cases "bid_lt b a")
  case True
  have "bid_lt c a" if "c \<in> B" "c \<noteq> a" for c
    using that True best strict_weak_order.lt_trans [OF bid_order_separated [OF sep], of c b a]
    by (cases "c = b") (auto simp: best_bid_def)
  then show ?thesis using True by (auto simp: best_bid_def)
next
  case False
  then show ?thesis
    using best bid_lt_linear [OF sep, of a b] by (auto simp: best_bid_def)
qed

lemma best_bid_exists: "finite B \<Longrightarrow> B \<noteq> {} \<Longrightarrow> bids_separated B \<Longrightarrow> \<exists>b. best_bid B b"
proof (induction B rule: finite_ne_induct)
  case (singleton a)
  have "best_bid {a} a" by (simp add: best_bid_def)
  then show ?case ..
next
  case (insert a B)
  then show ?case using best_bid_insert bids_separated_mono [of "insert a B" B] by blast
qed

section \<open>Properties\<close>

text \<open>
  C37: On the bids of one auction (one per agent, finite utilities that are equal or apart by the
  tolerance) \<open>operator <\<close> is a strict total order: by utility, ties by agent number. Finitely many such bids
  have exactly one best bid.
\<close>

theorem bid_lt_total_on_auction:
  assumes "bids_separated B" "a \<in> B" "b \<in> B" "c \<in> B"
  shows "\<not> bid_lt a a \<and> (bid_lt a b \<and> bid_lt b c \<longrightarrow> bid_lt a c)
     \<and> (bid_lt a b \<or> a = b \<or> bid_lt b a)
     \<and> bid_lt a b = (fst (bid_key a) < fst (bid_key b)
          \<or> fst (bid_key a) = fst (bid_key b) \<and> agentID a < agentID b)
     \<and> (finite B \<longrightarrow> (\<exists>!m. best_bid B m))"
proof -
  have "B \<noteq> {}" using assms(2) by blast
  have best: "finite B \<longrightarrow> (\<exists>!m. best_bid B m)"
    using best_bid_exists [OF _ \<open>B \<noteq> {}\<close> assms(1)] best_bid_unique by blast
  have "snd (bid_key a) < snd (bid_key b) \<longleftrightarrow> agentID a < agentID b"
    by (simp add: bid_key_def word_less_nat_alt)
  then show ?thesis
    using best bid_lt_linear [OF assms(1-3)] bid_lt_separated [OF assms(1-3)]
      strict_weak_order.lt_trans [OF bid_order_separated [OF assms(1)], of a b c] assms(2-4)
    by auto
qed

theorem bid_lt_total_on_auction_witness:
  "bid_lt ((BidDescriptor_for 1 \<lparr>creatorID = 1, taskID = 1\<rparr>)\<lparr>utility := Fin 5\<rparr>)
          ((BidDescriptor_for 2 \<lparr>creatorID = 1, taskID = 1\<rparr>)\<lparr>utility := Fin 5\<rparr>)"
proof -
  let ?a = "(BidDescriptor_for 1 \<lparr>creatorID = 1, taskID = 1\<rparr>)\<lparr>utility := Fin 5\<rparr>"
  let ?b = "(BidDescriptor_for 2 \<lparr>creatorID = 1, taskID = 1\<rparr>)\<lparr>utility := Fin 5\<rparr>"
  have "bids_separated {?a, ?b}"
    by (simp add: bids_separated_def BidDescriptor_for_def)
  then show ?thesis
    using bid_lt_total_on_auction [of "{?a, ?b}" ?a ?b ?a]
    by (simp add: bid_key_def BidDescriptor_for_def)
qed

definition circle_bid :: "u64 \<Rightarrow> real \<Rightarrow> BidDescriptor" where
  "circle_bid a u = (BidDescriptor_for a \<lparr>creatorID = 1, taskID = 1\<rparr>)\<lparr>utility := Fin u\<rparr>"

text \<open>
  Whatever the bids, \<open>operator <\<close> is irreflexive and asymmetric, and equal bids (in either
  direction of \<open>operator ==\<close>) are never greater in that direction; but without the separation it is
  not transitive: the tolerance makes three bids of three agents beat each other in a circle.
\<close>

theorem bid_lt_asym_not_trans:
  "(\<forall>a b. \<not> bid_lt a a \<and> \<not> (bid_lt a b \<and> bid_lt b a) \<and> \<not> (bid_eq a b \<and> bid_lt a b))
   \<and> bid_lt (circle_bid 3 10) (circle_bid 1 (10 + 12 / 10000))
   \<and> bid_lt (circle_bid 1 (10 + 12 / 10000)) (circle_bid 2 (10 + 6 / 10000))
   \<and> bid_lt (circle_bid 2 (10 + 6 / 10000)) (circle_bid 3 10)"
  using bid_lt_asym
  by (auto simp: circle_bid_def BidDescriptor_for_def bid_lt_def bid_eq_def utility_close_def
      s_utilityEpsilon_def)

definition bid_at_ms :: "int \<Rightarrow> BidDescriptor" where
  "bid_at_ms ms = (circle_bid 1 10)\<lparr>generationTime := etime_zero\<lparr>month := 1, millisecond := ms\<rparr>\<rparr>"

text \<open>
  \<open>operator ==\<close> is not symmetric, because the difference of the generation times is unsigned: a
  bid equals the same bid generated a millisecond earlier, but not the other way round. A default
  constructed bid does not equal itself, its utility being minus infinity.
\<close>

theorem bid_eq_not_symmetric:
  "bid_eq (bid_at_ms 2) (bid_at_ms 1) \<and> \<not> bid_eq (bid_at_ms 1) (bid_at_ms 2)
   \<and> \<not> bid_eq (BidDescriptor_default k) (BidDescriptor_default k)"
  by (simp add: bid_eq_def bid_at_ms_def circle_bid_def BidDescriptor_for_def utility_close_def
      BidDescriptor_default_def s_utilityEpsilon_def s_bidTimeEpsilon_def time_minus_calendar
      calendar_us_def etime_zero_def dbl_sub_def word_less_def)

text \<open>
  An estimated utility is never negative: for a finite reward and cost it is the larger of zero
  and their difference, and the other members of the bid are kept.
\<close>

theorem EstimateUtility_correct:
  "\<not> dbl_lt (utility (EstimateUtility b)) (Fin 0)
   \<and> (EstimateUtility b)\<lparr>utility := utility b\<rparr> = b
   \<and> utility (EstimateUtility (b\<lparr>reward := Fin r, cost := Fin c\<rparr>)) = Fin (max 0 (r - c))"
  by (auto simp: EstimateUtility_def Let_def)

end
