(* ===== verification/Bid_Container.thy ===== *)
theory Bid_Container
  imports Bids
begin

text \<open>
  \<open>BidContainer\<close> (src/data_auctioneer/bids/bid_container.h, .cpp): what one agent believes about the
  auction of one task, that is the leading bid, whether it is valid, and for every agent the last
  time something was heard from it. \<open>ReceiveBid\<close> and \<open>ReceiveScrub\<close> are the agreement rules of
  the auction (the table of the consensus-based bundle algorithm).

  Where the code reads the clock, the time read is the argument \<open>clock\<close>.
\<close>

section \<open>State and operations\<close>

datatype ReceiveAction = ActionNone | BroadcastLocal | BroadcastReceived | BroadcastScrub

record BidContainer =
  bc_agentID :: u64
  bc_taskKey :: TaskKey
  leadingBid :: BidDescriptor
  bc_valid :: bool
  agentUpdateTimes :: "(u64, etime) umap"

text \<open>The leading bid of a new container is default constructed, its task key indeterminate.\<close>

definition BidContainer_new :: "etime \<Rightarrow> TaskKey \<Rightarrow> u64 \<Rightarrow> TaskKey \<Rightarrow> BidContainer" where
  "BidContainer_new clock uninit agent key = \<lparr>bc_agentID = agent, bc_taskKey = key,
     leadingBid = BidDescriptor_default uninit, bc_valid = False,
     agentUpdateTimes = um_insert agent clock []\<rparr>"

definition getAgentTime :: "u64 \<Rightarrow> BidContainer \<Rightarrow> etime option" where
  "getAgentTime agent c = map_of (agentUpdateTimes c) agent"

definition setAgentTime :: "u64 \<Rightarrow> etime \<Rightarrow> BidContainer \<Rightarrow> BidContainer" where
  "setAgentTime agent timestamp c =
     (case map_of (agentUpdateTimes c) agent of
        None \<Rightarrow> c\<lparr>agentUpdateTimes := um_insert agent timestamp (agentUpdateTimes c)\<rparr>
      | Some t \<Rightarrow>
          if time_lt t timestamp
          then c\<lparr>agentUpdateTimes := um_put agent (setTime t timestamp) (agentUpdateTimes c)\<rparr>
          else c)"

definition InvalidateBid :: "BidContainer \<Rightarrow> BidContainer" where
  "InvalidateBid c = c\<lparr>bc_valid := False\<rparr>"

definition getLeadingAgent :: "BidContainer \<Rightarrow> u64" where
  "getLeadingAgent c = agentID (leadingBid c)"

text \<open>
  The first part of \<open>ReceiveBid\<close>: what is learnt about the sender and the bidder, and the answer
  when the bid is older than what is known about a third agent (\<open>None\<close> if it is not).
\<close>

definition ReceiveBid_stale ::
  "u64 \<Rightarrow> etime \<Rightarrow> BidDescriptor \<Rightarrow> BidContainer \<Rightarrow> BidContainer \<times> ReceiveAction option" where
  "ReceiveBid_stale sender senderTimestamp bid c =
     (if sender = bc_agentID c then (c, None)
      else let c = setAgentTime sender senderTimestamp c
           in if sender \<noteq> agentID bid \<and> agentID bid \<noteq> bc_agentID c
              then let known = getAgentTime (agentID bid) c;
                       c = setAgentTime (agentID bid) (generationTime bid) c
                   in case known of
                        Some t \<Rightarrow>
                          (if time_gt t (generationTime bid)
                             \<and> time_minus t (generationTime bid) > s_bidTimeEpsilon
                           then (c, Some (if bc_valid c then BroadcastLocal else BroadcastScrub))
                           else (c, None))
                      | None \<Rightarrow> (c, None)
              else (c, None))"

text \<open>Accepting a bid as the leading one.\<close>

definition take_leader :: "etime \<Rightarrow> BidDescriptor \<Rightarrow> BidContainer \<Rightarrow> BidContainer" where
  "take_leader now bid c = setAgentTime (bc_agentID c) now (c\<lparr>leadingBid := bid\<rparr>)"

text \<open>
  The sender believes that it leads; that this agent leads; that another agent leads. Each returns
  the new state, whether the bid is the new leading bid, and the action.
\<close>

definition ReceiveBid_sender ::
  "etime \<Rightarrow> u64 \<Rightarrow> etime \<Rightarrow> BidDescriptor \<Rightarrow> BidContainer \<Rightarrow> BidContainer \<times> bool \<times> ReceiveAction"
where
  "ReceiveBid_sender now sender senderTimestamp bid c =
     (let c1 = setAgentTime sender senderTimestamp c;
          newLeadingBid = (getLeadingAgent c = sender \<or> bid_lt (leadingBid c) bid)
      in if newLeadingBid then (take_leader now bid c1, True, BroadcastReceived)
         else (c1, False, BroadcastLocal))"

definition ReceiveBid_self ::
  "etime \<Rightarrow> u64 \<Rightarrow> BidDescriptor \<Rightarrow> BidContainer \<Rightarrow> BidContainer \<times> bool \<times> ReceiveAction"
where
  "ReceiveBid_self now sender bid c =
     (if getLeadingAgent c = bc_agentID c
      then (c, False, if bid_eq (leadingBid c) bid then ActionNone else BroadcastLocal)
      else if getLeadingAgent c = sender
      then (setAgentTime (bc_agentID c) now (c\<lparr>bc_valid := False\<rparr>), False, BroadcastScrub)
      else (c, False, BroadcastLocal))"

definition ReceiveBid_other ::
  "etime \<Rightarrow> u64 \<Rightarrow> BidDescriptor \<Rightarrow> BidContainer \<Rightarrow> BidContainer \<times> bool \<times> ReceiveAction"
where
  "ReceiveBid_other now sender bid c =
     (let leader = getLeadingAgent c; newLeadingBid = bid_lt (leadingBid c) bid
      in if leader = bc_agentID c \<or> leader = sender
         then (if newLeadingBid then (take_leader now bid c, True, BroadcastReceived)
               else (c, False, BroadcastLocal))
         else if leader = agentID bid
         then (if bid_eq (leadingBid c) bid then (c, newLeadingBid, ActionNone)
               else if time_lt (generationTime (leadingBid c)) (generationTime bid)
               then (take_leader now bid c, True, BroadcastReceived)
               else (c, False, BroadcastLocal))
         else if newLeadingBid
         then (if time_ge (generationTime bid) (generationTime (leadingBid c))
               then (take_leader now bid c, True, BroadcastReceived)
               else (c, False, BroadcastLocal))
         else (if time_ge (generationTime (leadingBid c)) (generationTime bid)
               then (c, False, BroadcastLocal)
               else (take_leader now bid c, True, BroadcastReceived)))"

text \<open>The two halves of \<open>ReceiveBid\<close>: with and without a current leader.\<close>

definition ReceiveBid_leader ::
  "etime \<Rightarrow> u64 \<Rightarrow> etime \<Rightarrow> BidDescriptor \<Rightarrow> BidContainer \<Rightarrow> BidContainer \<times> bool \<times> ReceiveAction"
where
  "ReceiveBid_leader now sender senderTimestamp bid c =
     (if bid_eq (leadingBid c) bid then (c, False, ActionNone)
      else if sender = bc_agentID c
      then (if bid_lt (leadingBid c) bid then (take_leader now bid c, True, ActionNone)
            else (c, False, ActionNone))
      else if agentID bid = sender then ReceiveBid_sender now sender senderTimestamp bid c
      else if agentID bid = bc_agentID c then ReceiveBid_self now sender bid c
      else ReceiveBid_other now sender bid c)"

definition ReceiveBid_noleader ::
  "etime \<Rightarrow> u64 \<Rightarrow> BidDescriptor \<Rightarrow> BidContainer \<Rightarrow> BidContainer \<times> bool \<times> ReceiveAction"
where
  "ReceiveBid_noleader now sender bid c =
     (if sender = bc_agentID c
      then (take_leader now bid (c\<lparr>bc_valid := True\<rparr>), True, ActionNone)
      else if agentID bid \<noteq> bc_agentID c
      then (take_leader now bid (c\<lparr>bc_valid := True\<rparr>), True, BroadcastReceived)
      else (c, False, BroadcastScrub))"

definition ReceiveBid ::
  "etime \<Rightarrow> u64 \<Rightarrow> etime \<Rightarrow> BidDescriptor \<Rightarrow> BidContainer \<Rightarrow> BidContainer \<times> bool \<times> ReceiveAction"
where
  "ReceiveBid clock sender senderTimestamp bid c =
     (let now = (if sender = bc_agentID c then senderTimestamp else clock)
      in case ReceiveBid_stale sender senderTimestamp bid c of
           (c, Some action) \<Rightarrow> (c, False, action)
         | (c, None) \<Rightarrow>
             if bc_valid c then ReceiveBid_leader now sender senderTimestamp bid c
             else ReceiveBid_noleader now sender bid c)"

text \<open>
  \<open>ReceiveScrub\<close>. A sender nothing is known of has the default time, all of whose fields are zero.
\<close>

definition ReceiveScrub ::
  "etime \<Rightarrow> ScrubMessage \<Rightarrow> BidContainer \<Rightarrow> BidContainer \<times> ReceiveAction" where
  "ReceiveScrub clock scrub c =
     (let known = (case getAgentTime (scrub_agentID scrub) c of
                     Some t \<Rightarrow> setTime etime_zero t | None \<Rightarrow> etime_zero)
      in if time_lt (scrub_timestamp scrub) known then (c, ActionNone)
         else let c = setAgentTime (scrub_agentID scrub) (scrub_timestamp scrub) c
              in if bc_valid c
                 then (if getLeadingAgent c = bc_agentID c then (c, BroadcastLocal)
                       else if getLeadingAgent c = scrub_agentID scrub
                         \<or> time_gt (scrub_timestamp scrub) (generationTime (leadingBid c))
                       then (setAgentTime (bc_agentID c) clock (c\<lparr>bc_valid := False\<rparr>), BroadcastScrub)
                       else (c\<lparr>bc_valid := False\<rparr>, ActionNone))
                 else (c\<lparr>bc_valid := False\<rparr>, ActionNone))"

section \<open>Knowledge about agents\<close>

lemma setAgentTime_frame [simp]:
  "bc_agentID (setAgentTime a t c) = bc_agentID c"
  "bc_taskKey (setAgentTime a t c) = bc_taskKey c"
  "leadingBid (setAgentTime a t c) = leadingBid c"
  "bc_valid (setAgentTime a t c) = bc_valid c"
  by (simp_all add: setAgentTime_def split: option.splits)

lemma getAgentTime_setAgentTime:
  "getAgentTime x (setAgentTime a t c) =
     (if x = a then Some (case getAgentTime a c of None \<Rightarrow> t | Some u \<Rightarrow> time_max u t)
      else getAgentTime x c)"
  by (auto simp: getAgentTime_def setAgentTime_def time_max_def split: option.splits)

lemma getAgentTime_update [simp]:
  "getAgentTime a (c\<lparr>leadingBid := b\<rparr>) = getAgentTime a c"
  "getAgentTime a (c\<lparr>bc_valid := v\<rparr>) = getAgentTime a c"
  by (simp_all add: getAgentTime_def)

text \<open>One state knows at least as much as another.\<close>

definition knows_le :: "BidContainer \<Rightarrow> BidContainer \<Rightarrow> bool" where
  "knows_le c c' \<longleftrightarrow> (\<forall>a t. getAgentTime a c = Some t
     \<longrightarrow> (\<exists>t'. getAgentTime a c' = Some t' \<and> time_ge t' t))"

lemma knows_le_refl [simp]: "knows_le c c"
  by (simp add: knows_le_def time_ge_def)

lemma knows_le_trans: "knows_le a b \<Longrightarrow> knows_le b c \<Longrightarrow> knows_le a c"
  unfolding knows_le_def using time_ge_trans by blast

lemma knows_le_setAgentTime: "knows_le c c' \<Longrightarrow> knows_le c (setAgentTime a t c')"
  by (rule knows_le_trans)
    (auto simp: knows_le_def getAgentTime_setAgentTime time_ge_def time_max_def
      dest: time_lt_asym split: option.splits)

lemma knows_le_update:
  "knows_le c c' \<Longrightarrow> knows_le c (c'\<lparr>leadingBid := b\<rparr>)"
  "knows_le c c' \<Longrightarrow> knows_le c (c'\<lparr>bc_valid := v\<rparr>)"
  by (simp_all add: knows_le_def)

lemmas knows_le_intros = knows_le_setAgentTime knows_le_update

lemma take_leader_simps [simp]:
  "bc_agentID (take_leader now b c) = bc_agentID c"
  "bc_taskKey (take_leader now b c) = bc_taskKey c"
  "leadingBid (take_leader now b c) = b"
  "bc_valid (take_leader now b c) = bc_valid c"
  by (simp_all add: take_leader_def)

lemma stale_frame:
  assumes "ReceiveBid_stale s ts b c = (c', r)"
  shows "bc_agentID c' = bc_agentID c" "bc_taskKey c' = bc_taskKey c"
    "leadingBid c' = leadingBid c" "bc_valid c' = bc_valid c" "knows_le c c'"
  using assms by (auto simp: ReceiveBid_stale_def Let_def intro!: knows_le_intros
      split: if_splits option.splits)

text \<open>
  What one received bid can do: the bid becomes the leading one (the sender is this agent, or
  another agent that does not commit this one), or the leading bid stays and nothing invalid becomes
  valid. Only a bid accepted from another agent is passed on.
\<close>

definition bid_answer ::
  "u64 \<Rightarrow> BidDescriptor \<Rightarrow> BidContainer \<Rightarrow> BidContainer \<times> bool \<times> ReceiveAction \<Rightarrow> bool" where
  "bid_answer s b c r = (case r of (c', new, act) \<Rightarrow>
     bc_agentID c' = bc_agentID c \<and> bc_taskKey c' = bc_taskKey c \<and> knows_le c c'
     \<and> (if new then leadingBid c' = b \<and> bc_valid c' \<and> (s = bc_agentID c \<or> agentID b \<noteq> bc_agentID c)
          \<and> act = (if s = bc_agentID c then ActionNone else BroadcastReceived)
        else leadingBid c' = leadingBid c \<and> (bc_valid c' \<longrightarrow> bc_valid c) \<and> act \<noteq> BroadcastReceived))"

lemma bid_answer_keep [simp]:
  "bid_answer s b c (c, False, act) \<longleftrightarrow> act \<noteq> BroadcastReceived"
  by (simp add: bid_answer_def)

lemma bid_answer_take:
  "\<lbrakk>bc_valid c'; bc_agentID c' = bc_agentID c; bc_taskKey c' = bc_taskKey c; knows_le c c';
    s = bc_agentID c \<or> agentID b \<noteq> bc_agentID c;
    act = (if s = bc_agentID c then ActionNone else BroadcastReceived)\<rbrakk> \<Longrightarrow>
   bid_answer s b c (take_leader now b c', True, act)"
  by (auto simp: bid_answer_def take_leader_def intro!: knows_le_intros)

lemma bid_answer_from:
  "\<lbrakk>bid_answer s b c1 r; leadingBid c1 = leadingBid c; bc_valid c1 = bc_valid c;
    bc_agentID c1 = bc_agentID c; bc_taskKey c1 = bc_taskKey c; knows_le c c1\<rbrakk> \<Longrightarrow>
   bid_answer s b c r"
  by (auto simp: bid_answer_def intro: knows_le_trans split: prod.splits if_splits)

lemma bid_answer_sender:
  "bc_valid c \<Longrightarrow> agentID b = s \<Longrightarrow> s \<noteq> bc_agentID c \<Longrightarrow>
     bid_answer s b c (ReceiveBid_sender now s ts b c)"
  by (auto simp: ReceiveBid_sender_def Let_def intro!: bid_answer_take knows_le_intros)
    (auto simp: bid_answer_def intro!: knows_le_intros)

lemma bid_answer_self: "bid_answer s b c (ReceiveBid_self now s b c)"
  by (auto simp: ReceiveBid_self_def) (auto simp: bid_answer_def intro!: knows_le_intros)

lemma bid_answer_other:
  "bc_valid c \<Longrightarrow> agentID b \<noteq> bc_agentID c \<Longrightarrow> s \<noteq> bc_agentID c \<Longrightarrow>
     \<not> bid_eq (leadingBid c) b \<Longrightarrow> bid_answer s b c (ReceiveBid_other now s b c)"
  by (simp add: ReceiveBid_other_def Let_def bid_answer_take)

lemma bid_answer_leader:
  "bc_valid c \<Longrightarrow> bid_answer s b c (ReceiveBid_leader now s ts b c)"
  by (simp add: ReceiveBid_leader_def bid_answer_take bid_answer_sender bid_answer_self
      bid_answer_other)

lemma bid_answer_noleader: "bid_answer s b c (ReceiveBid_noleader now s b c)"
  by (auto simp: ReceiveBid_noleader_def intro!: bid_answer_take knows_le_intros)

lemma bid_answer_ReceiveBid: "bid_answer s b c (ReceiveBid clock s ts b c)"
proof -
  obtain c1 r where st: "ReceiveBid_stale s ts b c = (c1, r)"
    by (cases "ReceiveBid_stale s ts b c")
  note f = stale_frame [OF st]
  show ?thesis
  proof (cases r)
    case None
    have "bid_answer s b c1 (ReceiveBid clock s ts b c)"
      using None st by (simp add: ReceiveBid_def Let_def bid_answer_leader bid_answer_noleader)
    then show ?thesis by (rule bid_answer_from) (rule f)+
  next
    case (Some a)
    then have "a \<noteq> BroadcastReceived"
      using st by (auto simp: ReceiveBid_stale_def Let_def split: if_splits option.splits)
    then show ?thesis using Some st f by (simp add: ReceiveBid_def Let_def bid_answer_def)
  qed
qed

lemma ReceiveScrub_cases:
  assumes "ReceiveScrub clock scrub c = (c', act)"
  shows "bc_agentID c' = bc_agentID c" "bc_taskKey c' = bc_taskKey c" "knows_le c c'"
    "leadingBid c' = leadingBid c" "bc_valid c' \<Longrightarrow> bc_valid c" "act \<noteq> BroadcastReceived"
  using assms by (auto simp: ReceiveScrub_def Let_def intro!: knows_le_intros split: if_splits)

text \<open>
  Validity: a leader is lost only with a scrub, always with it, and a new one differs from the old.
\<close>

definition bid_answer_valid ::
  "BidDescriptor \<Rightarrow> BidContainer \<Rightarrow> BidContainer \<times> bool \<times> ReceiveAction \<Rightarrow> bool" where
  "bid_answer_valid b c r = (case r of (c', new, act) \<Rightarrow>
     (new \<and> bc_valid c \<longrightarrow> \<not> bid_eq (leadingBid c) b)
     \<and> (\<not> new \<and> act \<noteq> BroadcastScrub \<longrightarrow> bc_valid c' = bc_valid c)
     \<and> (bc_valid c \<and> act = BroadcastScrub \<longrightarrow> \<not> new \<and> \<not> bc_valid c'))"

lemma bid_answer_valid_leader:
  "bc_valid c \<Longrightarrow> bid_answer_valid b c (ReceiveBid_leader now s ts b c)"
  by (simp add: ReceiveBid_leader_def ReceiveBid_sender_def ReceiveBid_self_def ReceiveBid_other_def
      bid_answer_valid_def Let_def)

lemma bid_answer_valid_noleader:
  "\<not> bc_valid c \<Longrightarrow> bid_answer_valid b c (ReceiveBid_noleader now s b c)"
  by (simp add: ReceiveBid_noleader_def bid_answer_valid_def)

lemma bid_answer_valid_ReceiveBid: "bid_answer_valid b c (ReceiveBid clock s ts b c)"
proof -
  obtain c1 r where st: "ReceiveBid_stale s ts b c = (c1, r)"
    by (cases "ReceiveBid_stale s ts b c")
  note f = stale_frame [OF st]
  show ?thesis
  proof (cases r)
    case None
    then show ?thesis
      using st f bid_answer_valid_leader [of c1 b] bid_answer_valid_noleader [of c1 b]
      by (simp add: ReceiveBid_def Let_def bid_answer_valid_def)
  next
    case (Some a)
    then have "a = (if bc_valid c then BroadcastLocal else BroadcastScrub)"
      using st by (auto simp: ReceiveBid_stale_def Let_def split: if_splits option.splits)
    then show ?thesis using Some st f by (simp add: ReceiveBid_def Let_def bid_answer_valid_def)
  qed
qed

section \<open>Histories of a container\<close>

text \<open>Everything that can happen to a container, with the times read from the clock.\<close>

datatype container_event =
    Bid_Event etime u64 etime BidDescriptor   \<comment> \<open>clock, sender, its time stamp, bid\<close>
  | Scrub_Event etime ScrubMessage
  | Invalidate_Event

fun container_step :: "container_event \<Rightarrow> BidContainer \<Rightarrow> BidContainer" where
  "container_step (Bid_Event clock s ts b) c = fst (ReceiveBid clock s ts b c)"
| "container_step (Scrub_Event clock m) c = fst (ReceiveScrub clock m c)"
| "container_step Invalidate_Event c = InvalidateBid c"

definition container_run :: "container_event list \<Rightarrow> BidContainer \<Rightarrow> BidContainer" where
  "container_run es c = fold container_step es c"

lemma InvalidateBid_simps [simp]:
  "bc_agentID (InvalidateBid c) = bc_agentID c" "bc_taskKey (InvalidateBid c) = bc_taskKey c"
  "leadingBid (InvalidateBid c) = leadingBid c" "\<not> bc_valid (InvalidateBid c)"
  "knows_le c (InvalidateBid c)"
  by (simp_all add: InvalidateBid_def knows_le_intros)

lemma container_step_frame:
  "bc_agentID (container_step e c) = bc_agentID c"
  "bc_taskKey (container_step e c) = bc_taskKey c"
  "knows_le c (container_step e c)"
proof -
  have "bc_agentID (container_step e c) = bc_agentID c
      \<and> bc_taskKey (container_step e c) = bc_taskKey c \<and> knows_le c (container_step e c)"
  proof (cases e)
    case (Bid_Event clock s ts b)
    then show ?thesis
      using bid_answer_ReceiveBid [of s b c clock ts] by (auto simp: bid_answer_def split: prod.splits)
  next
    case (Scrub_Event clock m)
    then show ?thesis
      using ReceiveScrub_cases [of clock m c] by (cases "ReceiveScrub clock m c") auto
  qed simp
  then show "bc_agentID (container_step e c) = bc_agentID c"
    "bc_taskKey (container_step e c) = bc_taskKey c" "knows_le c (container_step e c)" by blast+
qed

lemma container_run_Nil [simp]: "container_run [] c = c"
  by (simp add: container_run_def)

lemma container_run_snoc: "container_run (es @ [e]) c = container_step e (container_run es c)"
  by (simp add: container_run_def)

lemma container_run_agentID [simp]: "bc_agentID (container_run es c) = bc_agentID c"
  by (induction es rule: rev_induct) (simp_all add: container_run_snoc container_step_frame)

text \<open>A step leaves the leading bid, or puts in the one delivered.\<close>

lemma container_step_leader:
  assumes "bc_valid (container_step e c)"
  shows "bc_valid c \<and> leadingBid (container_step e c) = leadingBid c
    \<or> (\<exists>clock s ts. e = Bid_Event clock s ts (leadingBid (container_step e c))
         \<and> (s = bc_agentID c \<or> agentID (leadingBid (container_step e c)) \<noteq> bc_agentID c))"
proof (cases e)
  case (Bid_Event clock s ts b)
  obtain c' new act where r: "ReceiveBid clock s ts b c = (c', new, act)"
    by (cases "ReceiveBid clock s ts b c")
  show ?thesis
    using bid_answer_ReceiveBid [of s b c clock ts] assms
    by (cases new) (auto simp: r Bid_Event bid_answer_def)
next
  case (Scrub_Event clock m)
  then show ?thesis
    using ReceiveScrub_cases [of clock m c] assms by (cases "ReceiveScrub clock m c") auto
qed (use assms in auto)

section \<open>Agreement on the bids the agents announce\<close>

text \<open>
  Bids announced by their own agents: each delivery has the time the receiver reads, the time stamp
  of the message and the bid, whose agent is the sender (for the receiver's own bid, the receiver).
\<close>

definition announce :: "etime \<times> etime \<times> BidDescriptor \<Rightarrow> container_event" where
  "announce d = (case d of (clock, ts, b) \<Rightarrow> Bid_Event clock (agentID b) ts b)"

definition announced :: "(etime \<times> etime \<times> BidDescriptor) list \<Rightarrow> BidDescriptor set" where
  "announced ds = (\<lambda>(clock, ts, b). b) ` set ds"

lemma ReceiveBid_own_stale:
  "ReceiveBid_stale (agentID b) ts b c =
     (if agentID b = bc_agentID c then c else setAgentTime (agentID b) ts c, None)"
  by (simp add: ReceiveBid_stale_def)

lemma ReceiveBid_own_first:
  assumes "\<not> bc_valid c" "ReceiveBid clock (agentID b) ts b c = (c', r)"
  shows "bc_valid c'" "leadingBid c' = b"
  using assms by (auto simp: ReceiveBid_def ReceiveBid_own_stale ReceiveBid_noleader_def Let_def
      split: if_splits)

lemma ReceiveBid_own:
  assumes sep: "bids_separated {leadingBid c, b}" and v: "bc_valid c"
    and r: "ReceiveBid clock (agentID b) ts b c = (c', r)"
  shows "bc_valid c'" "leadingBid c' = (if bid_lt (leadingBid c) b then b else leadingBid c)"
proof -
  have same: "leadingBid c = b" if "agentID (leadingBid c) = agentID b"
    using bids_separated_agent [OF sep] that by blast
  have "bid_eq b b"
    using bids_separated_refl [OF sep] by blast
  then have nlt: "bid_eq (leadingBid c) b \<Longrightarrow> \<not> bid_lt (leadingBid c) b" 
    and other: "\<not> bid_eq (leadingBid c) b \<Longrightarrow> getLeadingAgent c \<noteq> agentID b"
    using same by (auto simp: bid_lt_def getLeadingAgent_def)
  define c1 where "c1 = (if agentID b = bc_agentID c then c else setAgentTime (agentID b) ts c)"
  define now where "now = (if agentID b = bc_agentID c then ts else clock)"
  have c1: "bc_agentID c1 = bc_agentID c" "leadingBid c1 = leadingBid c" "bc_valid c1"
    by (simp_all add: c1_def v)
  have lead: "ReceiveBid_leader now (agentID b) ts b c1 = (c', r)"
    using r c1(3) by (simp add: ReceiveBid_def ReceiveBid_own_stale c1_def now_def)
  have "bc_valid c' \<and> leadingBid c' = (if bid_lt (leadingBid c) b then b else leadingBid c)"
  proof (cases "bid_eq (leadingBid c) b")
    case True
    then show ?thesis using lead nlt c1 by (simp add: ReceiveBid_leader_def)
  next
    case False
    then have "\<not> bid_eq (leadingBid c1) b" "getLeadingAgent c1 \<noteq> agentID b"
      using other c1 by (simp_all add: getLeadingAgent_def)
    then show ?thesis
      using lead c1 by (auto simp: ReceiveBid_leader_def ReceiveBid_sender_def Let_def split: if_splits)
  qed
  then show "bc_valid c'" "leadingBid c' = (if bid_lt (leadingBid c) b then b else leadingBid c)"
    by blast+
qed

lemma announce_best:
  assumes "bids_separated (announced ds)" "ds \<noteq> []" "\<not> bc_valid c"
  shows "bc_valid (container_run (map announce ds) c)
     \<and> best_bid (announced ds) (leadingBid (container_run (map announce ds) c))"
  using assms
proof (induction ds rule: rev_induct)
  case (snoc d ds)
  obtain clock ts b where d: "d = (clock, ts, b)" by (cases d)
  have ann: "announced (ds @ [d]) = insert b (announced ds)" by (simp add: announced_def d)
  define c1 where "c1 = container_run (map announce ds) c"
  obtain c2 r where r: "ReceiveBid clock (agentID b) ts b c1 = (c2, r)"
    by (cases "ReceiveBid clock (agentID b) ts b c1")
  have run: "container_run (map announce (ds @ [d])) c = c2"
    using r by (simp add: container_run_snoc c1_def announce_def d)
  show ?case
  proof (cases "ds = []")
    case True
    then have "c1 = c" by (simp add: c1_def)
    then show ?thesis
      using ReceiveBid_own_first [OF _ r] snoc.prems(3) True
      unfolding run ann by (auto simp: best_bid_def announced_def)
  next
    case False
    have sep: "bids_separated (insert b (announced ds))" using snoc.prems(1) by (simp add: ann)
    then have IH: "bc_valid c1 \<and> best_bid (announced ds) (leadingBid c1)"
      using snoc False bids_separated_mono [OF sep] unfolding c1_def by blast
    then have "{leadingBid c1, b} \<subseteq> insert b (announced ds)" by (auto simp: best_bid_def)
    then have sep2: "bids_separated {leadingBid c1, b}" using sep bids_separated_mono by blast
    show ?thesis
      using ReceiveBid_own [OF sep2 _ r] IH best_bid_insert [OF sep, of "leadingBid c1"]
      unfolding run ann by simp
  qed
qed simp

section \<open>Properties\<close>

lemma container_run_leader:
  assumes "\<not> bc_valid c"
  shows "bc_valid (container_run es c) \<Longrightarrow>
     \<exists>clock s ts. Bid_Event clock s ts (leadingBid (container_run es c)) \<in> set es
       \<and> (s = bc_agentID c \<or> agentID (leadingBid (container_run es c)) \<noteq> bc_agentID c)"
proof (induction es rule: rev_induct)
  case Nil
  then show ?case using assms by simp
next
  case (snoc e es)
  have *: "bc_valid (container_step e (container_run es c))"
    using snoc.prems by (simp add: container_run_snoc)
  define b where "b = leadingBid (container_step e (container_run es c))"
  have "\<exists>clock s ts. Bid_Event clock s ts b \<in> set (es @ [e])
      \<and> (s = bc_agentID c \<or> agentID b \<noteq> bc_agentID c)"
    using container_step_leader [OF *] unfolding b_def [symmetric] container_run_agentID
  proof (elim disjE exE conjE)
    assume "bc_valid (container_run es c)" and "b = leadingBid (container_run es c)"
    then show ?thesis using snoc.IH by auto
  qed auto
  then show ?case by (simp only: container_run_snoc b_def)
qed

lemma container_run_knows: "knows_le c (container_run es c)"
proof (induction es rule: rev_induct)
  case (snoc e es)
  then show ?case
    using container_step_frame(3) knows_le_trans unfolding container_run_snoc by blast
qed simp

text \<open>Bids for the examples: an agent, a utility and a generation second, all for one task.\<close>

definition ex_key :: TaskKey where
  "ex_key = \<lparr>creatorID = 1, taskID = 7\<rparr>"

definition ex_time :: "int \<Rightarrow> etime" where
  "ex_time s = etime_zero\<lparr>year := 2019, month := 5, dayOfMonth := 1, second := s\<rparr>"

definition ex_bid :: "u64 \<Rightarrow> real \<Rightarrow> int \<Rightarrow> BidDescriptor" where
  "ex_bid a u s = (BidDescriptor_for a ex_key)\<lparr>utility := Fin u, generationTime := ex_time s\<rparr>"

definition ex_container :: "u64 \<Rightarrow> BidContainer" where
  "ex_container a = BidContainer_new (ex_time 0) ex_key a ex_key"

lemma ex_bid_simps [simp]:
  "agentID (ex_bid a u s) = a" "taskKey (ex_bid a u s) = ex_key" "utility (ex_bid a u s) = Fin u"
  "generationTime (ex_bid a u s) = ex_time s"
  by (simp_all add: ex_bid_def BidDescriptor_for_def)

lemma ex_container_simps [simp]:
  "bc_agentID (ex_container a) = a" "\<not> bc_valid (ex_container a)"
  "agentUpdateTimes (ex_container a) = [(a, ex_time 0)]"
  by (simp_all add: ex_container_def BidContainer_new_def um_insert_def)

lemma ex_time_lt [simp]: "time_lt (ex_time a) (ex_time b) \<longleftrightarrow> a < b"
  by (simp add: ex_time_def time_lt_def etime_zero_def)

lemma ex_time_minus [simp]: "time_minus (ex_time a) (ex_time b) = of_int (1000000 * (a - b))"
  by (simp add: ex_time_def time_minus_calendar calendar_us_def etime_zero_def)

text \<open>
  C1: Agents that hear the same announced bids agree on the winner. Each agent's container starts
  without a leader and receives the bids that the agents announce for themselves (its own included),
  in any order, any number of times, with any time stamps and clock values; if the bids are
  separated (one per agent, utilities equal or apart by the tolerance), both containers end with the
  same valid leading bid, which is the best one.
\<close>

theorem announced_bids_agree:
  assumes "bids_separated (announced ds1)" "announced ds1 = announced ds2" "ds1 \<noteq> []"
    "\<not> bc_valid c1" "\<not> bc_valid c2"
  shows "leadingBid (container_run (map announce ds1) c1)
           = leadingBid (container_run (map announce ds2) c2)
     \<and> bc_valid (container_run (map announce ds1) c1)
     \<and> bc_valid (container_run (map announce ds2) c2)
     \<and> best_bid (announced ds1) (leadingBid (container_run (map announce ds1) c1))"
proof -
  have "ds2 \<noteq> []" using assms(2,3) by (auto simp: announced_def)
  then show ?thesis
    using announce_best [of ds1 c1] announce_best [of ds2 c2] assms best_bid_unique by metis
qed

theorem announced_bids_agree_witness:
  "leadingBid (container_run (map announce
        [(ex_time 1, ex_time 1, ex_bid 1 10 1), (ex_time 2, ex_time 2, ex_bid 2 20 2)]) (ex_container 1))
     = leadingBid (container_run (map announce
        [(ex_time 3, ex_time 4, ex_bid 2 20 2), (ex_time 5, ex_time 5, ex_bid 1 10 1)]) (ex_container 2))"
  by (rule conjunct1 [OF announced_bids_agree])
    (auto simp: announced_def bids_separated_def utility_close_def s_utilityEpsilon_def)

text \<open>
  C24: Nobody can commit an agent in its name: after any history of received bids, scrubs and
  invalidations, a valid leading bid was delivered by one of the events, and when its bidder is the
  agent itself it was delivered by that agent.
\<close>

theorem leader_was_delivered:
  assumes "bc_valid (container_run es (BidContainer_new clock uninit me key))"
  shows "\<exists>t s ts. Bid_Event t s ts (leadingBid (container_run es (BidContainer_new clock uninit me key)))
             \<in> set es
     \<and> (s = me \<or> getLeadingAgent (container_run es (BidContainer_new clock uninit me key)) \<noteq> me)"
  using container_run_leader [OF _ assms] by (simp add: BidContainer_new_def getLeadingAgent_def)

theorem leader_was_delivered_witness:
  "\<exists>t s ts. Bid_Event t s ts (leadingBid (container_run [Bid_Event (ex_time 1) 1 (ex_time 1) (ex_bid 1 10 1)]
       (BidContainer_new (ex_time 0) ex_key 1 ex_key)))
     \<in> set [Bid_Event (ex_time 1) 1 (ex_time 1) (ex_bid 1 10 1)]
     \<and> (s = 1 \<or> getLeadingAgent (container_run [Bid_Event (ex_time 1) 1 (ex_time 1) (ex_bid 1 10 1)]
       (BidContainer_new (ex_time 0) ex_key 1 ex_key)) \<noteq> 1)"
  by (rule leader_was_delivered)
    (simp add: container_run_def ReceiveBid_def ReceiveBid_stale_def ReceiveBid_noleader_def
      BidContainer_new_def)

text \<open>
  What is known about an agent never gets older: over any history of a container, every agent
  that has a time keeps one, and it is not earlier.
\<close>

theorem agent_times_never_go_back:
  assumes "getAgentTime a c = Some t"
  shows "\<exists>t'. getAgentTime a (container_run es c) = Some t' \<and> time_ge t' t"
  using container_run_knows [of c es] assms by (simp add: knows_le_def)

theorem agent_times_never_go_back_witness:
  "\<exists>t'. getAgentTime 1 (container_run [Bid_Event (ex_time 1) 2 (ex_time 9) (ex_bid 2 10 1)]
     (ex_container 1)) = Some t' \<and> time_ge t' (ex_time 0)"
  by (rule agent_times_never_go_back) (simp add: getAgentTime_def)

text \<open>
  The outcome of \<open>ReceiveBid\<close> on every branch: it reports a new leading bid exactly when it
  stored the received one (which is then valid and, coming from another agent, is broadcast);
  otherwise the leading bid is kept and no invalid one becomes valid. Agent and task never change.
\<close>

theorem ReceiveBid_outcome:
  "case ReceiveBid clock s ts b c of (c', new, act) \<Rightarrow>
     bc_agentID c' = bc_agentID c \<and> bc_taskKey c' = bc_taskKey c
     \<and> (if new then leadingBid c' = b \<and> bc_valid c' \<and> (s = bc_agentID c \<or> agentID b \<noteq> bc_agentID c)
          \<and> act = (if s = bc_agentID c then ActionNone else BroadcastReceived)
        else leadingBid c' = leadingBid c \<and> (bc_valid c' \<longrightarrow> bc_valid c) \<and> act \<noteq> BroadcastReceived)"
  using bid_answer_ReceiveBid [of s b c clock ts] by (auto simp: bid_answer_def)

theorem ReceiveBid_outcome_witness:
  "bc_agentID (fst (ReceiveBid (ex_time 1) 2 (ex_time 1) (ex_bid 2 10 1) (ex_container 1))) = 1"
  using ReceiveBid_outcome [where clock = "ex_time 1" and s = 2 and ts = "ex_time 1"
      and b = "ex_bid 2 10 1" and c = "ex_container 1"]
  by (auto split: prod.splits)

text \<open>
  Outdated relayed bids are refused: when a sender relays a bid of a third agent from which
  something more than the time tolerance newer than the bid is known, belief about the leader does
  not change and the answer is the local belief (the leading bid, or a scrub when there is none).
\<close>

theorem outdated_relay_refused:
  assumes "s \<noteq> bc_agentID c" "agentID b \<noteq> s" "agentID b \<noteq> bc_agentID c"
    "getAgentTime (agentID b) c = Some t" "time_lt (generationTime b) t"
    "time_minus t (generationTime b) > s_bidTimeEpsilon"
    "ReceiveBid clock s ts b c = (c', new, act)"
  shows "leadingBid c' = leadingBid c \<and> bc_valid c' = bc_valid c \<and> \<not> new
     \<and> act = (if bc_valid c then BroadcastLocal else BroadcastScrub)"
proof -
  have "getAgentTime (agentID b) (setAgentTime s ts c) = Some t"
    using assms by (simp add: getAgentTime_setAgentTime)
  then show ?thesis using assms by (auto simp: ReceiveBid_def ReceiveBid_stale_def Let_def)
qed

theorem outdated_relay_refused_witness:
  "\<exists>c' new act. ReceiveBid (ex_time 9) 2 (ex_time 9) (ex_bid 3 10 1)
       (setAgentTime 3 (ex_time 5) (ex_container 1)) = (c', new, act)
     \<and> \<not> bc_valid c' \<and> \<not> new \<and> act = BroadcastScrub"
proof -
  obtain c' new act where r: "ReceiveBid (ex_time 9) 2 (ex_time 9) (ex_bid 3 10 1)
       (setAgentTime 3 (ex_time 5) (ex_container 1)) = (c', new, act)"
    by (cases "ReceiveBid (ex_time 9) 2 (ex_time 9) (ex_bid 3 10 1)
       (setAgentTime 3 (ex_time 5) (ex_container 1))")
  have "getAgentTime 3 (setAgentTime 3 (ex_time 5) (ex_container 1)) = Some (ex_time 5)"
    by (simp add: getAgentTime_setAgentTime) (simp add: getAgentTime_def)
  then show ?thesis
    using outdated_relay_refused [OF _ _ _ _ _ _ r, of "ex_time 5"] r
    by (simp add: s_bidTimeEpsilon_def) blast
qed

text \<open>
  A scrub that is not older than what is known of its sender removes the leader unless the
  receiver leads itself: the leading bid stays stored, and it is valid afterwards exactly when it
  was valid and the message was outdated or the receiver is the leader.
\<close>

theorem ReceiveScrub_validity:
  assumes "ReceiveScrub clock m c = (c', act)"
  shows "leadingBid c' = leadingBid c
     \<and> (bc_valid c' \<longleftrightarrow> bc_valid c \<and> (getLeadingAgent c = bc_agentID c
          \<or> time_lt (scrub_timestamp m)
               (case getAgentTime (scrub_agentID m) c of Some t \<Rightarrow> t | None \<Rightarrow> etime_zero)))"
  using assms by (auto simp: ReceiveScrub_def Let_def getLeadingAgent_def split: if_splits option.splits)

theorem ReceiveScrub_validity_witness:
  "\<exists>c' act. ReceiveScrub (ex_time 9)
       \<lparr>scrub_agentID = 2, scrub_taskKey = ex_key, scrub_timestamp = ex_time 1\<rparr> (ex_container 1)
         = (c', act) \<and> \<not> bc_valid c'"
proof -
  obtain c' act where r: "ReceiveScrub (ex_time 9)
       \<lparr>scrub_agentID = 2, scrub_taskKey = ex_key, scrub_timestamp = ex_time 1\<rparr> (ex_container 1)
         = (c', act)"
    by (cases "ReceiveScrub (ex_time 9)
       \<lparr>scrub_agentID = 2, scrub_taskKey = ex_key, scrub_timestamp = ex_time 1\<rparr> (ex_container 1)")
  show ?thesis using ReceiveScrub_validity [OF r] r by simp
qed

text \<open>
  The second of two receptions of the same scrub never asks for a broadcast of the scrub.
\<close>

lemma ReceiveScrub_again:
  "snd (ReceiveScrub clock2 m (fst (ReceiveScrub clock1 m c))) \<noteq> BroadcastScrub"
proof -
  obtain c1 a1 where r1: "ReceiveScrub clock1 m c = (c1, a1)" by (cases "ReceiveScrub clock1 m c")
  show ?thesis
  proof (cases "bc_valid c1 \<and> getLeadingAgent c1 \<noteq> bc_agentID c1")
    case True
    then have "time_lt (scrub_timestamp m)
        (case getAgentTime (scrub_agentID m) c of Some t \<Rightarrow> t | None \<Rightarrow> etime_zero)" and "c1 = c"
      using r1 by (auto simp: ReceiveScrub_def Let_def getLeadingAgent_def
          split: if_splits option.splits)
    then show ?thesis using r1 by (auto simp: ReceiveScrub_def split: option.splits)
  next
    case False
    then show ?thesis using r1 by (auto simp: ReceiveScrub_def Let_def getLeadingAgent_def)
  qed
qed

end
