(* ===== verification/Task_Queues.thy ===== *)
theory Task_Queues
  imports Bids "HOL-Library.Multiset"
begin

text \<open>
  The three queues of the master task queue: the tasks available to bid on
  (\<open>AvailableTaskQueue\<close>), the tasks awarded to some agent (\<open>AwardedTaskQueue\<close>, an unordered map
  whose class adds printing only) and the ordered tasks assigned to this agent
  (\<open>AssignmentTaskQueue\<close>), in src/data_auctioneer/available_task_queue.h, .cpp, awarded_task_queue.h
  and assignment_task_queue.h, .cpp. Iterators are positions. Printing is not modelled.
\<close>

section \<open>Available tasks\<close>

type_synonym AvailableTaskQueue = "(TaskKey, int) umap"

definition Available_AddTask :: "TaskKey \<Rightarrow> int \<Rightarrow> AvailableTaskQueue \<Rightarrow> AvailableTaskQueue" where
  "Available_AddTask key prio q =
     (case map_of q key of None \<Rightarrow> um_insert key prio q | Some _ \<Rightarrow> um_put key prio q)"

definition Available_RemoveTask :: "TaskKey \<Rightarrow> AvailableTaskQueue \<Rightarrow> AvailableTaskQueue" where
  "Available_RemoveTask key q = um_erase key q"

definition UpdateTaskPriority :: "TaskKey \<Rightarrow> int \<Rightarrow> AvailableTaskQueue \<Rightarrow> AvailableTaskQueue" where
  "UpdateTaskPriority key prio q =
     (case map_of q key of None \<Rightarrow> q | Some _ \<Rightarrow> um_put key prio q)"

text \<open>
  \<open>std::sort\<close> orders entries of the same priority arbitrarily; the model keeps their order.
\<close>

definition SortedByPriority :: "AvailableTaskQueue \<Rightarrow> (TaskKey \<times> int) list" where
  "SortedByPriority q = sort_key snd q"

definition Available_Size :: "AvailableTaskQueue \<Rightarrow> nat" where
  "Available_Size q = length q"

definition Available_Empty :: "AvailableTaskQueue \<Rightarrow> bool" where
  "Available_Empty q = (q = [])"

definition Available_Erase :: "nat \<Rightarrow> AvailableTaskQueue \<Rightarrow> (AvailableTaskQueue, nat) outcome" where
  "Available_Erase pos q =
     (if pos < length q then (take pos q @ drop (Suc pos) q, Inr pos)
      else (q, Inl Undefined_Behaviour))"

lemma map_of_Available_AddTask [simp]:
  "map_of (Available_AddTask key prio q) = (map_of q)(key \<mapsto> prio)"
  by (simp add: Available_AddTask_def split: option.splits)

lemma map_of_Available_RemoveTask [simp]:
  "map_of (Available_RemoveTask key q) = (map_of q)(key := None)"
  by (simp add: Available_RemoveTask_def)

lemma um_ok_Available [simp]:
  "um_ok q \<Longrightarrow> um_ok (Available_AddTask key prio q)"
  "um_ok q \<Longrightarrow> um_ok (Available_RemoveTask key q)"
  "um_ok q \<Longrightarrow> um_ok (UpdateTaskPriority key prio q)"
  by (simp_all add: Available_AddTask_def Available_RemoveTask_def UpdateTaskPriority_def
      split: option.splits)

section \<open>Awarded tasks\<close>

text \<open>
  The parameters of an award. The code sets the task, the agent and the consensus flag only; the
  other two members (\<open>worstCaseBid\<close>, \<open>bidValidTime\<close>) are read by printing alone and left out.
\<close>

record AwardedTaskParams =
  awd_taskKey :: TaskKey
  awardedAgentID :: u64
  awd_consensusReached :: bool

type_synonym AwardedTaskQueue = "(TaskKey, AwardedTaskParams) umap"

section \<open>Assigned tasks\<close>

text \<open>
  \<open>firstNonConsensusIndex\<close> is the position of the first task without consensus; the tasks before it
  have been started.
\<close>

record 'v AssignmentTaskQueue =
  aq_tasks :: "(TaskKey \<times> 'v option) list"
  firstNonConsensusIndex :: int

definition AssignmentTaskQueue_new :: "'v AssignmentTaskQueue" where
  "AssignmentTaskQueue_new = \<lparr>aq_tasks = [], firstNonConsensusIndex = 0\<rparr>"

definition AddTask :: "TaskKey \<Rightarrow> 'v option \<Rightarrow> 'v AssignmentTaskQueue \<Rightarrow> 'v AssignmentTaskQueue" where
  "AddTask key st q = q\<lparr>aq_tasks := aq_tasks q @ [(key, st)]\<rparr>"

definition getCurrentTaskKey :: "'v AssignmentTaskQueue \<Rightarrow> TaskKey option" where
  "getCurrentTaskKey q = (case aq_tasks q of [] \<Rightarrow> None | t # _ \<Rightarrow> Some (fst t))"

definition getLastTaskKey :: "'v AssignmentTaskQueue \<Rightarrow> TaskKey option" where
  "getLastTaskKey q = (if aq_tasks q = [] then None else Some (fst (last (aq_tasks q))))"

definition getFinalState :: "'v AssignmentTaskQueue \<Rightarrow> 'v option option" where
  "getFinalState q = (if aq_tasks q = [] then None else Some (snd (last (aq_tasks q))))"

definition RemoveFront :: "'v AssignmentTaskQueue \<Rightarrow> 'v AssignmentTaskQueue" where
  "RemoveFront q =
     (let q = (if aq_tasks q \<noteq> [] then q\<lparr>aq_tasks := tl (aq_tasks q)\<rparr> else q)
      in if firstNonConsensusIndex q > 0
         then q\<lparr>firstNonConsensusIndex := firstNonConsensusIndex q - 1\<rparr> else q)"

definition Assignment_Clear :: "'v AssignmentTaskQueue \<Rightarrow> 'v AssignmentTaskQueue" where
  "Assignment_Clear q = q\<lparr>aq_tasks := [], firstNonConsensusIndex := 0\<rparr>"

text \<open>An iterator moved past the end has no meaning.\<close>

definition Begin_NonConsensus :: "'v AssignmentTaskQueue \<Rightarrow> cpp_error + nat" where
  "Begin_NonConsensus q =
     (if aq_tasks q = [] then Inr (length (aq_tasks q))
      else if 0 \<le> firstNonConsensusIndex q \<and> firstNonConsensusIndex q \<le> int (length (aq_tasks q))
      then Inr (nat (firstNonConsensusIndex q))
      else Inl Undefined_Behaviour)"

definition RemoveTasksAfter_pos :: "nat \<Rightarrow> 'v AssignmentTaskQueue \<Rightarrow> 'v AssignmentTaskQueue" where
  "RemoveTasksAfter_pos pos q = q\<lparr>aq_tasks := take pos (aq_tasks q)\<rparr>"

text \<open>The search loops: the position of the first entry with the key, from a position on.\<close>

fun find_task_from :: "nat \<Rightarrow> TaskKey \<Rightarrow> (TaskKey \<times> 'v option) list \<Rightarrow> nat option" where
  "find_task_from i key [] = None"
| "find_task_from i key (t # ts) =
     (if taskkey_eq (fst t) key then Some i else find_task_from (Suc i) key ts)"

definition RemoveTasksAfter :: "TaskKey \<Rightarrow> 'v AssignmentTaskQueue \<Rightarrow> 'v AssignmentTaskQueue" where
  "RemoveTasksAfter key q =
     (case find_task_from 0 key (aq_tasks q) of
        Some i \<Rightarrow> RemoveTasksAfter_pos i q | None \<Rightarrow> q)"

text \<open>The comparison is unsigned: a negative index would count as a large one.\<close>

definition ConsensusOnAllTasks :: "'v AssignmentTaskQueue \<Rightarrow> bool" where
  "ConsensusOnAllTasks q \<longleftrightarrow>
     (of_nat (length (aq_tasks q)) :: u64) \<le> of_int (firstNonConsensusIndex q) \<or> aq_tasks q = []"

text \<open>
  \<open>RemoveTask\<close>: after the loop the iterator stands where the task was. When the task was the last
  one, that is the end of the queue, which the code takes for \<open>not found\<close>.
\<close>

definition RemoveTask :: "TaskKey \<Rightarrow> 'v AssignmentTaskQueue \<Rightarrow> 'v AssignmentTaskQueue \<times> bool" where
  "RemoveTask key q =
     (case find_task_from 0 key (aq_tasks q) of
        None \<Rightarrow> (q, False)
      | Some i \<Rightarrow>
          let q = q\<lparr>aq_tasks := take i (aq_tasks q) @ drop (Suc i) (aq_tasks q)\<rparr>
          in if i = length (aq_tasks q) then (q, False)
             else (if int i < firstNonConsensusIndex q
                   then q\<lparr>firstNonConsensusIndex := firstNonConsensusIndex q - 1\<rparr> else q, True))"

section \<open>Lemmas\<close>

lemma find_task_from_Some:
  "find_task_from i key ts = Some j \<Longrightarrow>
     i \<le> j \<and> j - i < length ts \<and> fst (ts ! (j - i)) = key \<and> key \<notin> fst ` set (take (j - i) ts)"
proof (induction i key ts rule: find_task_from.induct)
  case (2 i key t ts)
  show ?case
  proof (cases "fst t = key")
    case False
    then have "find_task_from (Suc i) key ts = Some j" using "2.prems" by simp
    then have "Suc i \<le> j \<and> j - Suc i < length ts \<and> fst (ts ! (j - Suc i)) = key
        \<and> key \<notin> fst ` set (take (j - Suc i) ts)"
      using "2.IH" False by simp
    moreover from this have "j - i = Suc (j - Suc i)" by arith
    ultimately show ?thesis using False by auto
  qed (use "2.prems" in auto)
qed simp

lemma find_task_from_None: "find_task_from i key ts = None \<longleftrightarrow> key \<notin> fst ` set ts"
  by (induction i key ts rule: find_task_from.induct) auto

lemma find_task_0_Some:
  "find_task_from 0 key ts = Some j \<Longrightarrow> j < length ts \<and> fst (ts ! j) = key \<and> key \<notin> fst ` set (take j ts)"
  using find_task_from_Some [of 0 key ts j] by simp

lemma nth_take_mem: "i < j \<Longrightarrow> j < length ts \<Longrightarrow> ts ! i \<in> set (take j ts)"
  by (auto simp: in_set_conv_nth)

text \<open>\<open>RemoveTasksAfter\<close> keeps the tasks before the first occurrence of the key.\<close>

lemma RemoveTasksAfter_takeWhile:
  "aq_tasks (RemoveTasksAfter key q) = takeWhile (\<lambda>t. fst t \<noteq> key) (aq_tasks q)"
proof (cases "find_task_from 0 key (aq_tasks q)")
  case None
  then have "takeWhile (\<lambda>t. fst t \<noteq> key) (aq_tasks q) = aq_tasks q"
    by (subst takeWhile_eq_all_conv) (auto simp: find_task_from_None image_iff)
  then show ?thesis unfolding RemoveTasksAfter_def by (simp only: None option.case)
next
  case (Some j)
  have "takeWhile (\<lambda>t. fst t \<noteq> key) (aq_tasks q) = take j (aq_tasks q)"
  proof (rule takeWhile_eq_take_P_nth)
    fix i assume "i < j" "i < length (aq_tasks q)"
    then show "fst (aq_tasks q ! i) \<noteq> key"
      using find_task_0_Some [OF Some] nth_take_mem [of i j "aq_tasks q"] by (metis image_eqI)
  qed (use find_task_0_Some [OF Some] in auto)
  then show ?thesis by (simp add: RemoveTasksAfter_def RemoveTasksAfter_pos_def Some)
qed

text \<open>The position of the first task without consensus is a position of the queue.\<close>

definition aq_ok :: "'v AssignmentTaskQueue \<Rightarrow> bool" where
  "aq_ok q \<longleftrightarrow> 0 \<le> firstNonConsensusIndex q
     \<and> firstNonConsensusIndex q \<le> int (length (aq_tasks q))"

lemma aq_ok_new [simp]: "aq_ok AssignmentTaskQueue_new"
  by (simp add: aq_ok_def AssignmentTaskQueue_new_def)

lemma aq_ok_AddTask: "aq_ok q \<Longrightarrow> aq_ok (AddTask key st q)"
  by (simp add: aq_ok_def AddTask_def)

lemma aq_ok_RemoveFront: "aq_ok q \<Longrightarrow> aq_ok (RemoveFront q)"
  by (cases "aq_tasks q") (auto simp: aq_ok_def RemoveFront_def Let_def)

lemma aq_ok_Clear [simp]: "aq_ok (Assignment_Clear q)"
  by (simp add: aq_ok_def Assignment_Clear_def)

lemma Begin_NonConsensus_ok: "aq_ok q \<Longrightarrow> \<exists>i \<le> length (aq_tasks q). Begin_NonConsensus q = Inr i"
  by (cases "aq_tasks q = []") (auto simp: aq_ok_def Begin_NonConsensus_def nat_le_iff)

lemma remove_pos_filter:
  assumes "distinct (map fst ts)" "i < length ts"
  shows "take i ts @ drop (Suc i) ts = filter (\<lambda>t. fst t \<noteq> fst (ts ! i)) ts"
proof -
  have split: "ts = take i ts @ ts ! i # drop (Suc i) ts"
    using assms(2) by (rule id_take_nth_drop)
  then have "distinct (map fst (take i ts @ ts ! i # drop (Suc i) ts))" using assms(1) by simp
  then have "\<forall>t \<in> set (take i ts) \<union> set (drop (Suc i) ts). fst t \<noteq> fst (ts ! i)"
    by (auto simp: image_iff)
  then have "filter (\<lambda>t. fst t \<noteq> fst (ts ! i)) (take i ts @ ts ! i # drop (Suc i) ts)
      = take i ts @ drop (Suc i) ts"
    by (simp add: filter_id_conv)
  then show ?thesis using split by simp
qed

lemma last_key_iff:
  assumes "distinct (map fst ts)" "i < length ts"
  shows "fst (last ts) = fst (ts ! i) \<longleftrightarrow> Suc i = length ts"
proof -
  have ne: "ts \<noteq> []" using assms(2) by auto
  have eqs: "fst (last ts) = map fst ts ! (length ts - 1)" "fst (ts ! i) = map fst ts ! i"
    using ne assms(2) by (simp_all add: last_conv_nth)
  have "map fst ts ! (length ts - 1) = map fst ts ! i \<longleftrightarrow> length ts - 1 = i"
    using assms by (intro nth_eq_iff_index_eq) auto
  also have "\<dots> \<longleftrightarrow> Suc i = length ts" using assms(2) by arith
  finally show ?thesis unfolding eqs .
qed

lemma take_remove_before:
  assumes "distinct (map fst ts)" "i < n" "n \<le> length ts"
  shows "take (n - 1) (take i ts @ drop (Suc i) ts) = filter (\<lambda>t. fst t \<noteq> fst (ts ! i)) (take n ts)"
proof -
  have "distinct (map fst (take n ts))" using assms(1) by (simp flip: take_map)
  then have "filter (\<lambda>t. fst t \<noteq> fst (ts ! i)) (take n ts) = take i ts @ drop (Suc i) (take n ts)"
    using remove_pos_filter [of "take n ts" i] assms(2,3) by (simp add: min_def)
  moreover have "take (n - 1) (take i ts @ drop (Suc i) ts) = take i ts @ take (n - 1 - i) (drop (Suc i) ts)"
  proof -
    have "min (length ts) i = i" "min (n - 1) i = i" using assms(2,3) by auto
    then show ?thesis by (simp only: take_append take_take length_take)
  qed
  moreover have "take (n - 1 - i) (drop (Suc i) ts) = drop (Suc i) (take n ts)"
    unfolding drop_take by (rule arg_cong [where f = "\<lambda>k. take k (drop (Suc i) ts)"]) arith
  ultimately show ?thesis by (simp only:)
qed

lemma take_remove_after:
  assumes "distinct (map fst ts)" "n \<le> i" "i < length ts"
  shows "take n (take i ts @ drop (Suc i) ts) = filter (\<lambda>t. fst t \<noteq> fst (ts ! i)) (take n ts)"
proof -
  have "fst t \<noteq> fst (ts ! i)" if "t \<in> set (take n ts)" for t
  proof -
    obtain j where "j < n" "t = ts ! j" using \<open>t \<in> set (take n ts)\<close> by (auto simp: in_set_conv_nth)
    then show ?thesis
      using assms nth_eq_iff_index_eq [OF assms(1), of j i] by auto
  qed
  then have "filter (\<lambda>t. fst t \<noteq> fst (ts ! i)) (take n ts) = take n ts"
    by (simp add: filter_id_conv)
  then show ?thesis using assms by simp
qed

lemma RemoveTask_absent: "key \<notin> fst ` set (aq_tasks q) \<Longrightarrow> RemoveTask key q = (q, False)"
  using find_task_from_None [of 0 key "aq_tasks q"] by (simp add: RemoveTask_def)

lemma RemoveTask_present:
  assumes "find_task_from 0 key (aq_tasks q) = Some i"
  shows "RemoveTask key q =
    (let ts = take i (aq_tasks q) @ drop (Suc i) (aq_tasks q)
     in if Suc i = length (aq_tasks q) then (q\<lparr>aq_tasks := ts\<rparr>, False)
        else (q\<lparr>aq_tasks := ts, firstNonConsensusIndex :=
           (if int i < firstNonConsensusIndex q then firstNonConsensusIndex q - 1
            else firstNonConsensusIndex q)\<rparr>, True))"
  using find_task_0_Some [OF assms] assms by (auto simp: RemoveTask_def Let_def)

section \<open>Properties\<close>

text \<open>
  On a queue without duplicates \<open>RemoveTask\<close> removes exactly the task with the key and keeps the
  order of the others, but it reports the removal only when the task was not the last of the queue;
  when it reports it, the tasks before the first one without consensus are the same as before,
  without the removed one.
\<close>

theorem RemoveTask_outcome:
  assumes "distinct (map fst (aq_tasks q))" "aq_ok q" "RemoveTask key q = (q', r)"
  shows "aq_tasks q' = filter (\<lambda>t. fst t \<noteq> key) (aq_tasks q)
     \<and> (r \<longleftrightarrow> key \<in> fst ` set (aq_tasks q) \<and> fst (last (aq_tasks q)) \<noteq> key)
     \<and> (r \<longrightarrow> aq_ok q' \<and> take (nat (firstNonConsensusIndex q')) (aq_tasks q')
          = filter (\<lambda>t. fst t \<noteq> key) (take (nat (firstNonConsensusIndex q)) (aq_tasks q)))"
proof (cases "find_task_from 0 key (aq_tasks q)")
  case None
  then have "key \<notin> fst ` set (aq_tasks q)" by (simp add: find_task_from_None)
  moreover from this have "filter (\<lambda>t. fst t \<noteq> key) (aq_tasks q) = aq_tasks q"
    by (auto simp: filter_id_conv image_iff)
  ultimately show ?thesis using assms(3) by (simp add: RemoveTask_absent)
next
  case (Some i)
  have i: "i < length (aq_tasks q)" and key: "fst (aq_tasks q ! i) = key"
    using find_task_0_Some [OF Some] by blast+
  have mem: "key \<in> fst ` set (aq_tasks q)" using nth_mem [OF i] key by (metis image_eqI)
  have last: "fst (last (aq_tasks q)) = key \<longleftrightarrow> Suc i = length (aq_tasks q)"
    using last_key_iff [OF assms(1) i] unfolding key .
  have tasks: "take i (aq_tasks q) @ drop (Suc i) (aq_tasks q)
      = filter (\<lambda>t. fst t \<noteq> key) (aq_tasks q)"
    using remove_pos_filter [OF assms(1) i] unfolding key .
  obtain n where n: "firstNonConsensusIndex q = int n" "n \<le> length (aq_tasks q)"
    using assms(2) by (auto simp: aq_ok_def dest: zero_le_imp_eq_int)
  have len: "length (take i (aq_tasks q) @ drop (Suc i) (aq_tasks q)) = length (aq_tasks q) - 1"
    using i by simp
  have "take (if i < n then n - 1 else n) (take i (aq_tasks q) @ drop (Suc i) (aq_tasks q))
      = filter (\<lambda>t. fst t \<noteq> key) (take n (aq_tasks q))"
  proof (cases "i < n")
    case True
    from take_remove_before [OF assms(1) this n(2)] show ?thesis unfolding if_P [OF True] key .
  next
    case False
    then have "n \<le> i" by simp
    from take_remove_after [OF assms(1) this i] show ?thesis unfolding if_not_P [OF False] key .
  qed
  moreover have "r \<longleftrightarrow> Suc i \<noteq> length (aq_tasks q)"
    "aq_tasks q' = take i (aq_tasks q) @ drop (Suc i) (aq_tasks q)"
    "r \<Longrightarrow> firstNonConsensusIndex q' = int (if i < n then n - 1 else n)"
    using assms(3) n by (auto simp: RemoveTask_present [OF Some] Let_def split: if_splits)
  ultimately show ?thesis
    using mem last tasks n len i by (auto simp: aq_ok_def)
qed

text \<open>Queues of tasks of one creator, for the examples.\<close>

definition ex_queue :: "u8 list \<Rightarrow> int \<Rightarrow> nat AssignmentTaskQueue" where
  "ex_queue ids n = \<lparr>aq_tasks = map (\<lambda>i. (\<lparr>creatorID = 1, taskID = i\<rparr>, None)) ids,
     firstNonConsensusIndex = n\<rparr>"

theorem RemoveTask_outcome_witness:
  "aq_tasks (fst (RemoveTask \<lparr>creatorID = 1, taskID = 1\<rparr> (ex_queue [1, 2, 3] 2)))
     = aq_tasks (ex_queue [2, 3] 0)"
proof -
  let ?k = "\<lparr>creatorID = 1, taskID = 1\<rparr>"
  obtain q' r where q: "RemoveTask ?k (ex_queue [1, 2, 3] 2) = (q', r)"
    by (cases "RemoveTask ?k (ex_queue [1, 2, 3] 2)")
  show ?thesis
    using RemoveTask_outcome [OF _ _ q] q by (simp add: ex_queue_def aq_ok_def)
qed

text \<open>
  Losing a bid releases the task and all tasks behind it: \<open>RemoveTasksAfter\<close> keeps exactly the
  tasks before the first occurrence of the key (its documentation says that tasks after the key are
  removed; the key's own task is removed too). The consensus position is not touched, so that it may
  point behind the end, from where \<open>Begin_NonConsensus\<close> has no meaning.
\<close>

theorem RemoveTasksAfter_outcome:
  "aq_tasks (RemoveTasksAfter key q) = takeWhile (\<lambda>t. fst t \<noteq> key) (aq_tasks q)
   \<and> firstNonConsensusIndex (RemoveTasksAfter key q) = firstNonConsensusIndex q
   \<and> (Begin_NonConsensus (RemoveTasksAfter key q) = Inl Undefined_Behaviour \<longleftrightarrow>
        takeWhile (\<lambda>t. fst t \<noteq> key) (aq_tasks q) \<noteq> []
        \<and> (firstNonConsensusIndex q < 0 \<or> int (length (takeWhile (\<lambda>t. fst t \<noteq> key) (aq_tasks q)))
             < firstNonConsensusIndex q))"
proof -
  have "firstNonConsensusIndex (RemoveTasksAfter key q) = firstNonConsensusIndex q"
    by (simp add: RemoveTasksAfter_def RemoveTasksAfter_pos_def split: option.splits)
  then show ?thesis by (auto simp: Begin_NonConsensus_def RemoveTasksAfter_takeWhile)
qed

text \<open>
  The available tasks sorted by priority are the available tasks, each once, in the order of
  their priorities.
\<close>

theorem SortedByPriority_correct:
  "sorted (map snd (SortedByPriority q)) \<and> mset (SortedByPriority q) = mset q"
  by (simp add: SortedByPriority_def)

end
