(* ===== verification/Bid_Bundle.thy ===== *)
theory Bid_Bundle
  imports Bids
begin

text \<open>
  \<open>BidBundle\<close> (src/data_auctioneer/bids/bid_bundle.h, .cpp): the ordered bids of one agent, at most
  three of them while the agent builds it. The state of the vehicle after each task is known to its
  creator only; \<open>'v\<close> is the type of vehicle states and \<open>None\<close> the null pointer. Iterators are
  positions. \<open>Print\<close> and \<open>PrintLayout\<close> write to a stream and are not modelled.
\<close>

section \<open>State and operations\<close>

record 'v BundledBidDescriptor =
  descriptor :: BidDescriptor
  finalState :: "'v option"

record 'v BidBundle =
  bundle_items :: "'v BundledBidDescriptor list"
  bundle_genTime :: etime
  bundle_agentID :: u64

text \<open>The constructor leaves the agent number uninitialised; the argument stands for its value.\<close>

definition BidBundle_new :: "u64 \<Rightarrow> 'v BidBundle" where
  "BidBundle_new uninit = \<lparr>bundle_items = [], bundle_genTime = etime_zero, bundle_agentID = uninit\<rparr>"

definition s_bundleSizeLimit :: nat where
  "s_bundleSizeLimit = 3"

definition Workload :: "'v BidBundle \<Rightarrow> dbl" where
  "Workload bb = Fin 0"

definition AppendBid :: "BidDescriptor \<Rightarrow> 'v option \<Rightarrow> 'v BidBundle \<Rightarrow> 'v BidBundle \<times> bool" where
  "AppendBid d st bb =
     (if length (bundle_items bb) \<ge> s_bundleSizeLimit then (bb, False)
      else if length (bundle_items bb) > 0 \<and> agentID d \<noteq> bundle_agentID bb then (bb, False)
      else let bb = (if length (bundle_items bb) > 0 then bb else bb\<lparr>bundle_agentID := agentID d\<rparr>)
           in (bb\<lparr>bundle_items := bundle_items bb @ [\<lparr>descriptor = d, finalState = st\<rparr>]\<rparr>, True))"

text \<open>
  \<open>AppendBundle\<close>: the loop copies the descriptors of the other bundle; the copy has the null state.
\<close>

fun append_descriptors ::
  "'v BundledBidDescriptor list \<Rightarrow> 'v BundledBidDescriptor list \<Rightarrow> 'v BundledBidDescriptor list" where
  "append_descriptors acc [] = acc"
| "append_descriptors acc (b # bs) =
     append_descriptors (acc @ [\<lparr>descriptor = descriptor b, finalState = None\<rparr>]) bs"

definition AppendBundle :: "'v BidBundle \<Rightarrow> 'v BidBundle \<Rightarrow> ('v BidBundle, unit) outcome" where
  "AppendBundle other bb =
     (if bundle_items other = [] then (bb, Inr ())
      else if bundle_items bb \<noteq> [] \<and> bundle_agentID bb \<noteq> bundle_agentID other
      then (bb, Inl (Runtime_Error ''Attempted to append bundles with differing agent IDs''))
      else let bb = (if bundle_items bb = [] then bb\<lparr>bundle_agentID := bundle_agentID other\<rparr> else bb)
           in (bb\<lparr>bundle_items := append_descriptors (bundle_items bb) (bundle_items other)\<rparr>, Inr ()))"

text \<open>\<open>At\<close>: the \<open>int\<close> index converts to an unsigned one, so a negative index is out of range.\<close>

definition bundle_At :: "int \<Rightarrow> 'v BidBundle \<Rightarrow> cpp_error + 'v BundledBidDescriptor" where
  "bundle_At i bb = (if 0 \<le> i \<and> i < int (length (bundle_items bb)) then Inr (bundle_items bb ! nat i)
     else Inl Out_Of_Range)"

text \<open>\<open>Erase\<close> at a position, and of a range of positions.\<close>

definition bundle_Erase :: "nat \<Rightarrow> 'v BidBundle \<Rightarrow> ('v BidBundle, nat) outcome" where
  "bundle_Erase pos bb =
     (if pos < length (bundle_items bb)
      then (bb\<lparr>bundle_items := take pos (bundle_items bb) @ drop (Suc pos) (bundle_items bb)\<rparr>, Inr pos)
      else (bb, Inl Undefined_Behaviour))"

definition bundle_Erase_range :: "nat \<Rightarrow> nat \<Rightarrow> 'v BidBundle \<Rightarrow> ('v BidBundle, nat) outcome" where
  "bundle_Erase_range from_pos to_pos bb =
     (if from_pos \<le> to_pos \<and> to_pos \<le> length (bundle_items bb)
      then (bb\<lparr>bundle_items := take from_pos (bundle_items bb) @ drop to_pos (bundle_items bb)\<rparr>, Inr from_pos)
      else (bb, Inl Undefined_Behaviour))"

definition bundle_Front :: "'v BidBundle \<Rightarrow> cpp_error + 'v BundledBidDescriptor" where
  "bundle_Front bb = (case bundle_items bb of [] \<Rightarrow> Inl Undefined_Behaviour | b # _ \<Rightarrow> Inr b)"

definition bundle_Back :: "'v BidBundle \<Rightarrow> cpp_error + 'v BundledBidDescriptor" where
  "bundle_Back bb = (if bundle_items bb = [] then Inl Undefined_Behaviour else Inr (last (bundle_items bb)))"

definition bundle_Clear :: "'v BidBundle \<Rightarrow> 'v BidBundle" where
  "bundle_Clear bb = bb\<lparr>bundle_items := []\<rparr>"

section \<open>Invariant and lemmas\<close>

text \<open>Every bid of a bundle is by the bundle's agent.\<close>

definition bundle_ok :: "'v BidBundle \<Rightarrow> bool" where
  "bundle_ok bb \<longleftrightarrow> (\<forall>b \<in> set (bundle_items bb). agentID (descriptor b) = bundle_agentID bb)"

definition bundle_bids :: "'v BidBundle \<Rightarrow> BidDescriptor list" where
  "bundle_bids bb = map descriptor (bundle_items bb)"

lemma append_descriptors_map:
  "append_descriptors acc bs = acc @ map (\<lambda>b. \<lparr>descriptor = descriptor b, finalState = None\<rparr>) bs"
  by (induction bs arbitrary: acc) auto

lemma bundle_ok_new [simp]: "bundle_ok (BidBundle_new u)"
  by (simp add: bundle_ok_def BidBundle_new_def)

lemma bundle_ok_AppendBid: "bundle_ok bb \<Longrightarrow> bundle_ok (fst (AppendBid d st bb))"
  by (auto simp: bundle_ok_def AppendBid_def Let_def)

lemma bundle_ok_AppendBundle:
  "bundle_ok bb \<Longrightarrow> bundle_ok other \<Longrightarrow> bundle_ok (fst (AppendBundle other bb))"
  by (auto simp: bundle_ok_def AppendBundle_def Let_def append_descriptors_map)

lemma bundle_ok_Erase: "bundle_ok bb \<Longrightarrow> bundle_ok (fst (bundle_Erase p bb))"
  by (auto simp: bundle_ok_def bundle_Erase_def dest: in_set_takeD in_set_dropD)

lemma bundle_ok_Erase_range: "bundle_ok bb \<Longrightarrow> bundle_ok (fst (bundle_Erase_range p q bb))"
  by (auto simp: bundle_ok_def bundle_Erase_range_def dest: in_set_takeD in_set_dropD)

lemma bundle_ok_Clear [simp]: "bundle_ok (bundle_Clear bb)"
  by (simp add: bundle_ok_def bundle_Clear_def)

section \<open>Properties\<close>

text \<open>What can be done to a bundle.\<close>

datatype 'v bundle_op =
    Op_AppendBid BidDescriptor "'v option"
  | Op_AppendBundle "'v BidBundle"
  | Op_Erase nat
  | Op_Erase_range nat nat
  | Op_Clear

fun bundle_step :: "'v bundle_op \<Rightarrow> 'v BidBundle \<Rightarrow> 'v BidBundle" where
  "bundle_step (Op_AppendBid d st) bb = fst (AppendBid d st bb)"
| "bundle_step (Op_AppendBundle other) bb = fst (AppendBundle other bb)"
| "bundle_step (Op_Erase p) bb = fst (bundle_Erase p bb)"
| "bundle_step (Op_Erase_range p q) bb = fst (bundle_Erase_range p q bb)"
| "bundle_step Op_Clear bb = bundle_Clear bb"

definition bundle_op_ok :: "'v bundle_op \<Rightarrow> bool" where
  "bundle_op_ok op \<longleftrightarrow> (case op of Op_AppendBundle other \<Rightarrow> bundle_ok other | _ \<Rightarrow> True)"

lemma bundle_ok_step: "bundle_op_ok op \<Longrightarrow> bundle_ok bb \<Longrightarrow> bundle_ok (bundle_step op bb)"
  by (cases op)
    (auto simp: bundle_op_ok_def bundle_ok_AppendBid bundle_ok_AppendBundle bundle_ok_Erase
      bundle_ok_Erase_range)

lemma bundle_ok_fold:
  "list_all bundle_op_ok ops \<Longrightarrow> bundle_ok bb \<Longrightarrow> bundle_ok (fold bundle_step ops bb)"
  by (induction ops arbitrary: bb) (auto simp: bundle_ok_step)

text \<open>
  A bundle built by any sequence of operations (appending bundles that were built this way)
  holds bids of one agent only, the one it names.
\<close>

theorem bundle_single_agent:
  assumes "list_all bundle_op_ok ops"
  shows "bundle_ok (fold bundle_step ops (BidBundle_new u))"
  using assms by (simp add: bundle_ok_fold)

theorem bundle_single_agent_witness:
  "bundle_ok (fold bundle_step
     [Op_AppendBid (BidDescriptor_for 4 \<lparr>creatorID = 1, taskID = 1\<rparr>) (Some (0 :: nat)), Op_Clear,
      Op_AppendBid (BidDescriptor_for 5 \<lparr>creatorID = 1, taskID = 1\<rparr>) None] (BidBundle_new 0))"
  by (rule bundle_single_agent) (simp add: bundle_op_ok_def)

text \<open>
  \<open>AppendBid\<close> accepts a bid exactly when the bundle has fewer than three bids and is empty or of
  the bidder; then the bid is its last, otherwise nothing changes. \<open>AppendBundle\<close> throws exactly
  when both bundles have bids and their agents differ, leaving the bundle unchanged; otherwise the
  bids of the other bundle follow those of this one, in order.
\<close>

theorem append_outcomes:
  "(snd (AppendBid d st bb) \<longleftrightarrow>
      length (bundle_items bb) < 3 \<and> (bundle_items bb = [] \<or> agentID d = bundle_agentID bb))
   \<and> bundle_items (fst (AppendBid d st bb)) = (if snd (AppendBid d st bb)
       then bundle_items bb @ [\<lparr>descriptor = d, finalState = st\<rparr>] else bundle_items bb)
   \<and> (\<not> isl (snd (AppendBundle other bb)) \<longleftrightarrow> bundle_items other = [] \<or> bundle_items bb = []
       \<or> bundle_agentID bb = bundle_agentID other)
   \<and> (if isl (snd (AppendBundle other bb)) then fst (AppendBundle other bb) = bb
      else bundle_bids (fst (AppendBundle other bb)) = bundle_bids bb @ bundle_bids other)"
  by (auto simp: AppendBid_def AppendBundle_def s_bundleSizeLimit_def Let_def
      append_descriptors_map bundle_bids_def)

end
