(* ===== verification/Auction_Stats.thy ===== *)
theory Auction_Stats
  imports Bid_Bundle "HOL-Library.Multiset"
begin

text \<open>
  \<open>AuctionStatistics_Agent\<close> (src/data_auctioneer/auction_statistics_agent.h, .cpp): counters of the
  messages and assignments of the auction, kept for every task and globally, with flags for the
  tasks that were assigned, started, completed and aborted.

  The mutex is not modelled (each operation is one step); the clock reads are the argument \<open>clock\<close>;
  the counters are unbounded. The frequencies that \<open>CalculateDynamicStats\<close> filters are exact reals.
  The functions that print are not modelled, and neither is the watchdog thread that calls
  \<open>CalculateDynamicStats\<close> every 100 ms.
\<close>

section \<open>Data\<close>

datatype MessageType = Send | Rcv

record AuctionStatistics_Common =
  taskKeyBroadcastsSent :: int
  taskKeyBroadcastsRcv :: int
  taskDescriptorRequestsSent :: int
  taskDescriptorRequestsRcv :: int
  taskDescriptorsSent :: int
  taskDescriptorsRcv :: int
  bundlesSent :: int
  bundlesRcv :: int
  bidsRebroadcastSent :: int
  bidsRebroadcastRcv :: int
  scrubMessagesSent :: int
  scrubMessagesRcv :: int
  taskCompletionBroadcastsSent :: int
  taskCompletionBroadcastsRcv :: int
  taskAbortionBroadcastsSent :: int
  taskAbortionBroadcastsRcv :: int
  taskStartedBroadcastsSent :: int
  taskStartedBroadcastsRcv :: int
  bidsGeneratedForSelf :: int
  timesAssignedToSelf :: int
  timesAssignedToOther :: int
  timesInvalidated :: int
  highestUtility :: dbl
  currentUtility :: dbl
  modified :: bool

record AuctionStatistics_Task = AuctionStatistics_Common +
  firstAssigned :: etime
  lastAssignmentChange :: etime
  completed :: bool
  aborted :: bool
  started :: bool
  assigned :: bool

record AuctionStatistics_Global = AuctionStatistics_Common +
  totalTasks :: int
  completedTasks :: int
  abortedTasks :: int
  startedTasks :: int
  assignedTasks :: int
  taskGenerationFrequency :: real
  completionFrequency :: real
  abortionFrequency :: real
  startFrequency :: real
  messageSendFrequency :: real
  messageRcvFrequency :: real

record AuctionStatistics_Agent =
  sa_agentID :: u64
  globalStats :: AuctionStatistics_Global
  taskStats :: "(TaskKey, AuctionStatistics_Task) umap"
  numRecentNewTasks :: int
  numRecentCompletedTasks :: int
  numRecentAbortedTasks :: int
  numRecentStartedTasks :: int
  numRecentMessagesSent :: int
  numRecentMessagesRcv :: int

text \<open>The initial values of the members.\<close>

definition Common_new :: AuctionStatistics_Common where
  "Common_new = \<lparr>taskKeyBroadcastsSent = 0, taskKeyBroadcastsRcv = 0,
     taskDescriptorRequestsSent = 0, taskDescriptorRequestsRcv = 0, taskDescriptorsSent = 0,
     taskDescriptorsRcv = 0, bundlesSent = 0, bundlesRcv = 0, bidsRebroadcastSent = 0,
     bidsRebroadcastRcv = 0, scrubMessagesSent = 0, scrubMessagesRcv = 0,
     taskCompletionBroadcastsSent = 0, taskCompletionBroadcastsRcv = 0,
     taskAbortionBroadcastsSent = 0, taskAbortionBroadcastsRcv = 0,
     taskStartedBroadcastsSent = 0, taskStartedBroadcastsRcv = 0, bidsGeneratedForSelf = 0,
     timesAssignedToSelf = 0, timesAssignedToOther = 0, timesInvalidated = 0,
     highestUtility = Fin 0, currentUtility = Fin 0, modified = False\<rparr>"

definition Task_new :: AuctionStatistics_Task where
  "Task_new = AuctionStatistics_Common.extend Common_new
     (AuctionStatistics_Task.fields etime_zero etime_zero False False False False)"

definition Global_new :: AuctionStatistics_Global where
  "Global_new = AuctionStatistics_Common.extend Common_new
     (AuctionStatistics_Global.fields 0 0 0 0 0 0 0 0 0 0 0)"

definition Stats_new :: "u64 \<Rightarrow> AuctionStatistics_Agent" where
  "Stats_new agent = \<lparr>sa_agentID = agent, globalStats = Global_new, taskStats = [],
     numRecentNewTasks = 0, numRecentCompletedTasks = 0, numRecentAbortedTasks = 0,
     numRecentStartedTasks = 0, numRecentMessagesSent = 0, numRecentMessagesRcv = 0\<rparr>"

section \<open>Operations\<close>

text \<open>
  \<open>getTaskStats\<close> creates the entry of an unknown task; it returns a reference to the entry, which
  the callers modify through \<open>on_task\<close> and read through \<open>task_entry\<close>.
\<close>

definition getTaskStats :: "TaskKey \<Rightarrow> AuctionStatistics_Agent \<Rightarrow> AuctionStatistics_Agent" where
  "getTaskStats key st =
     (case map_of (taskStats st) key of
        None \<Rightarrow> st\<lparr>taskStats := um_insert key Task_new (taskStats st),
                    numRecentNewTasks := numRecentNewTasks st + 1,
                    globalStats := (globalStats st)\<lparr>totalTasks := totalTasks (globalStats st) + 1\<rparr>\<rparr>
      | Some _ \<Rightarrow> st)"

definition task_entry :: "TaskKey \<Rightarrow> AuctionStatistics_Agent \<Rightarrow> AuctionStatistics_Task" where
  "task_entry key st = (case map_of (taskStats st) key of Some s \<Rightarrow> s | None \<Rightarrow> Task_new)"

definition on_task ::
  "TaskKey \<Rightarrow> (AuctionStatistics_Task \<Rightarrow> AuctionStatistics_Task) \<Rightarrow> AuctionStatistics_Agent
     \<Rightarrow> AuctionStatistics_Agent" where
  "on_task key f st = st\<lparr>taskStats := um_put key (f (task_entry key st)) (taskStats st)\<rparr>"

definition on_global ::
  "(AuctionStatistics_Global \<Rightarrow> AuctionStatistics_Global) \<Rightarrow> AuctionStatistics_Agent
     \<Rightarrow> AuctionStatistics_Agent" where
  "on_global h st = st\<lparr>globalStats := h (globalStats st)\<rparr>"

definition count_message :: "MessageType \<Rightarrow> AuctionStatistics_Agent \<Rightarrow> AuctionStatistics_Agent" where
  "count_message type st = (case type of
     Send \<Rightarrow> st\<lparr>numRecentMessagesSent := numRecentMessagesSent st + 1\<rparr>
   | Rcv \<Rightarrow> st\<lparr>numRecentMessagesRcv := numRecentMessagesRcv st + 1\<rparr>)"

text \<open>The increments of the message counters, the same for a task and globally.\<close>

definition mark_modified ::
  "'a AuctionStatistics_Common_scheme \<Rightarrow> 'a AuctionStatistics_Common_scheme" where
  "mark_modified s = s\<lparr>modified := True\<rparr>"

definition inc_taskKey ::
  "MessageType \<Rightarrow> 'a AuctionStatistics_Common_scheme \<Rightarrow> 'a AuctionStatistics_Common_scheme" where
  "inc_taskKey type s = (case type of
     Send \<Rightarrow> s\<lparr>taskKeyBroadcastsSent := taskKeyBroadcastsSent s + 1\<rparr>
   | Rcv \<Rightarrow> s\<lparr>taskKeyBroadcastsRcv := taskKeyBroadcastsRcv s + 1\<rparr>)"

definition inc_request ::
  "MessageType \<Rightarrow> 'a AuctionStatistics_Common_scheme \<Rightarrow> 'a AuctionStatistics_Common_scheme" where
  "inc_request type s = (case type of
     Send \<Rightarrow> s\<lparr>taskDescriptorRequestsSent := taskDescriptorRequestsSent s + 1\<rparr>
   | Rcv \<Rightarrow> s\<lparr>taskDescriptorRequestsRcv := taskDescriptorRequestsRcv s + 1\<rparr>)"

definition inc_descriptor ::
  "MessageType \<Rightarrow> 'a AuctionStatistics_Common_scheme \<Rightarrow> 'a AuctionStatistics_Common_scheme" where
  "inc_descriptor type s = (case type of
     Send \<Rightarrow> s\<lparr>taskDescriptorsSent := taskDescriptorsSent s + 1\<rparr>
   | Rcv \<Rightarrow> s\<lparr>taskDescriptorsRcv := taskDescriptorsRcv s + 1\<rparr>)"

definition inc_bundles ::
  "MessageType \<Rightarrow> 'a AuctionStatistics_Common_scheme \<Rightarrow> 'a AuctionStatistics_Common_scheme" where
  "inc_bundles type s = (case type of
     Send \<Rightarrow> s\<lparr>bundlesSent := bundlesSent s + 1\<rparr>
   | Rcv \<Rightarrow> s\<lparr>bundlesRcv := bundlesRcv s + 1\<rparr>)"

definition inc_generated ::
  "'a AuctionStatistics_Common_scheme \<Rightarrow> 'a AuctionStatistics_Common_scheme" where
  "inc_generated s = s\<lparr>bidsGeneratedForSelf := bidsGeneratedForSelf s + 1\<rparr>"

definition inc_bid ::
  "MessageType \<Rightarrow> 'a AuctionStatistics_Common_scheme \<Rightarrow> 'a AuctionStatistics_Common_scheme" where
  "inc_bid type s = (case type of
     Send \<Rightarrow> s\<lparr>bidsRebroadcastSent := bidsRebroadcastSent s + 1\<rparr>
   | Rcv \<Rightarrow> s\<lparr>bidsRebroadcastRcv := bidsRebroadcastRcv s + 1\<rparr>)"

definition inc_scrub ::
  "MessageType \<Rightarrow> 'a AuctionStatistics_Common_scheme \<Rightarrow> 'a AuctionStatistics_Common_scheme" where
  "inc_scrub type s = (case type of
     Send \<Rightarrow> s\<lparr>scrubMessagesSent := scrubMessagesSent s + 1\<rparr>
   | Rcv \<Rightarrow> s\<lparr>scrubMessagesRcv := scrubMessagesRcv s + 1\<rparr>)"

definition inc_completion ::
  "MessageType \<Rightarrow> 'a AuctionStatistics_Common_scheme \<Rightarrow> 'a AuctionStatistics_Common_scheme" where
  "inc_completion type s = (case type of
     Send \<Rightarrow> s\<lparr>taskCompletionBroadcastsSent := taskCompletionBroadcastsSent s + 1\<rparr>
   | Rcv \<Rightarrow> s\<lparr>taskCompletionBroadcastsRcv := taskCompletionBroadcastsRcv s + 1\<rparr>)"

definition inc_abortion ::
  "MessageType \<Rightarrow> 'a AuctionStatistics_Common_scheme \<Rightarrow> 'a AuctionStatistics_Common_scheme" where
  "inc_abortion type s = (case type of
     Send \<Rightarrow> s\<lparr>taskAbortionBroadcastsSent := taskAbortionBroadcastsSent s + 1\<rparr>
   | Rcv \<Rightarrow> s\<lparr>taskAbortionBroadcastsRcv := taskAbortionBroadcastsRcv s + 1\<rparr>)"

definition inc_start ::
  "MessageType \<Rightarrow> 'a AuctionStatistics_Common_scheme \<Rightarrow> 'a AuctionStatistics_Common_scheme" where
  "inc_start type s = (case type of
     Send \<Rightarrow> s\<lparr>taskStartedBroadcastsSent := taskStartedBroadcastsSent s + 1\<rparr>
   | Rcv \<Rightarrow> s\<lparr>taskStartedBroadcastsRcv := taskStartedBroadcastsRcv s + 1\<rparr>)"

text \<open>The messages that only count.\<close>

definition TrackTaskKey :: "MessageType \<Rightarrow> TaskKey \<Rightarrow> AuctionStatistics_Agent \<Rightarrow> AuctionStatistics_Agent"
where
  "TrackTaskKey type key st =
     (let st = getTaskStats key st;
          st = on_task key mark_modified st;
          st = on_global mark_modified st;
          st = on_global (inc_taskKey type) st;
          st = on_task key (inc_taskKey type) st
      in count_message type st)"

definition TrackTaskDescriptorRequest ::
  "MessageType \<Rightarrow> TaskKey \<Rightarrow> AuctionStatistics_Agent \<Rightarrow> AuctionStatistics_Agent" where
  "TrackTaskDescriptorRequest type key st =
     (let st = getTaskStats key st;
          st = on_task key mark_modified st;
          st = on_global mark_modified st;
          st = on_global (inc_request type) st;
          st = on_task key (inc_request type) st
      in count_message type st)"

definition TrackTaskDescriptor ::
  "MessageType \<Rightarrow> TaskKey \<Rightarrow> AuctionStatistics_Agent \<Rightarrow> AuctionStatistics_Agent" where
  "TrackTaskDescriptor type key st =
     (let st = getTaskStats key st;
          st = on_task key mark_modified st;
          st = on_global mark_modified st;
          st = on_global (inc_descriptor type) st;
          st = on_task key (inc_descriptor type) st
      in count_message type st)"

text \<open>\<open>TrackBidBundle\<close>: the global counter counts the bundle, the tasks' counters its bids.\<close>

definition track_bundled ::
  "MessageType \<Rightarrow> TaskKey \<Rightarrow> AuctionStatistics_Agent \<Rightarrow> AuctionStatistics_Agent" where
  "track_bundled type key st =
     (let st = getTaskStats key st;
          st = on_task key mark_modified st;
          st = on_task key (inc_bundles type) st
      in case type of
           Send \<Rightarrow> on_global inc_generated (on_task key inc_generated st)
         | Rcv \<Rightarrow> st)"

definition TrackBidBundle ::
  "MessageType \<Rightarrow> 'v BidBundle \<Rightarrow> AuctionStatistics_Agent \<Rightarrow> AuctionStatistics_Agent" where
  "TrackBidBundle type bb st =
     (let st = on_global mark_modified st;
          st = on_global (inc_bundles type) st;
          st = fold (track_bundled type) (map (taskKey \<circ> descriptor) (bundle_items bb)) st
      in count_message type st)"

definition TrackBid ::
  "MessageType \<Rightarrow> BidDescriptor \<Rightarrow> AuctionStatistics_Agent \<Rightarrow> AuctionStatistics_Agent" where
  "TrackBid type bid st =
     (let st = getTaskStats (taskKey bid) st;
          st = on_global (inc_bid type) st;
          st = on_task (taskKey bid) (inc_bid type) st
      in count_message type st)"

definition TrackScrubMessage ::
  "MessageType \<Rightarrow> ScrubMessage \<Rightarrow> AuctionStatistics_Agent \<Rightarrow> AuctionStatistics_Agent" where
  "TrackScrubMessage type scrub st =
     (let st = getTaskStats (scrub_taskKey scrub) st;
          st = on_global (inc_scrub type) st;
          st = on_task (scrub_taskKey scrub) (inc_scrub type) st
      in count_message type st)"

text \<open>
  Completion, abortion and start: a task that was not assigned counts as assigned from now on. The
  block is the same in the three operations.
\<close>

definition never_assigned :: "AuctionStatistics_Task \<Rightarrow> bool" where
  "never_assigned s \<longleftrightarrow> timesAssignedToOther s = 0 \<and> timesAssignedToSelf s = 0"

definition stamp_assignment :: "etime \<Rightarrow> AuctionStatistics_Task \<Rightarrow> AuctionStatistics_Task" where
  "stamp_assignment now s =
     (let s = (if never_assigned s then s\<lparr>firstAssigned := now\<rparr> else s)
      in s\<lparr>lastAssignmentChange := now\<rparr>)"

definition assign_if_not ::
  "etime \<Rightarrow> TaskKey \<Rightarrow> AuctionStatistics_Agent \<Rightarrow> AuctionStatistics_Agent" where
  "assign_if_not now key st =
     (if \<not> assigned (task_entry key st)
      then let st = on_task key (\<lambda>s. s\<lparr>assigned := True\<rparr>) st;
               st = on_task key (stamp_assignment now) st
           in on_global (\<lambda>g. g\<lparr>assignedTasks := assignedTasks g + 1\<rparr>) st
      else st)"

definition TrackCompletion ::
  "etime \<Rightarrow> MessageType \<Rightarrow> TaskKey \<Rightarrow> AuctionStatistics_Agent \<Rightarrow> AuctionStatistics_Agent" where
  "TrackCompletion clock type key st =
     (let st = getTaskStats key st;
          st = on_global mark_modified st;
          st = on_task key mark_modified st;
          st = (if \<not> completed (task_entry key st)
                then let st = on_task key (\<lambda>s. s\<lparr>completed := True\<rparr>) st;
                         st = st\<lparr>numRecentCompletedTasks := numRecentCompletedTasks st + 1\<rparr>;
                         st = on_global (\<lambda>g. g\<lparr>completedTasks := completedTasks g + 1\<rparr>) st
                     in assign_if_not clock key st
                else st);
          st = on_task key (inc_completion type) st;
          st = on_global (inc_completion type) st
      in count_message type st)"

definition TrackAbortion ::
  "etime \<Rightarrow> MessageType \<Rightarrow> TaskKey \<Rightarrow> AuctionStatistics_Agent \<Rightarrow> AuctionStatistics_Agent" where
  "TrackAbortion clock type key st =
     (let st = getTaskStats key st;
          st = on_global mark_modified st;
          st = on_task key mark_modified st;
          st = (if \<not> aborted (task_entry key st)
                then let st = on_task key (\<lambda>s. s\<lparr>aborted := True\<rparr>) st;
                         st = st\<lparr>numRecentAbortedTasks := numRecentAbortedTasks st + 1\<rparr>;
                         st = on_global (\<lambda>g. g\<lparr>abortedTasks := abortedTasks g + 1\<rparr>) st
                     in assign_if_not clock key st
                else st);
          st = on_task key (inc_abortion type) st;
          st = on_global (inc_abortion type) st
      in count_message type st)"

definition TrackStart ::
  "etime \<Rightarrow> MessageType \<Rightarrow> TaskKey \<Rightarrow> AuctionStatistics_Agent \<Rightarrow> AuctionStatistics_Agent" where
  "TrackStart clock type key st =
     (let st = getTaskStats key st;
          st = on_global mark_modified st;
          st = on_task key mark_modified st;
          st = (if \<not> started (task_entry key st)
                then let st = on_task key (\<lambda>s. s\<lparr>started := True\<rparr>) st;
                         st = st\<lparr>numRecentStartedTasks := numRecentStartedTasks st + 1\<rparr>;
                         st = on_global (\<lambda>g. g\<lparr>startedTasks := startedTasks g + 1\<rparr>) st
                     in assign_if_not clock key st
                else st);
          st = on_task key (inc_start type) st;
          st = on_global (inc_start type) st
      in count_message type st)"

text \<open>Assignment and invalidation.\<close>

definition settled :: "AuctionStatistics_Task \<Rightarrow> bool" where
  "settled s \<longleftrightarrow> completed s \<or> aborted s \<or> started s"

definition raise_highest ::
  "'a AuctionStatistics_Common_scheme \<Rightarrow> 'a AuctionStatistics_Common_scheme" where
  "raise_highest s = (if dbl_lt (highestUtility s) (currentUtility s)
     then s\<lparr>highestUtility := currentUtility s\<rparr> else s)"

definition TrackAssignment ::
  "etime \<Rightarrow> TaskKey \<Rightarrow> u64 \<Rightarrow> dbl \<Rightarrow> AuctionStatistics_Agent \<Rightarrow> AuctionStatistics_Agent" where
  "TrackAssignment clock key agent u st =
     (let st = getTaskStats key st;
          st = on_task key mark_modified st;
          st = on_global mark_modified st;
          st = (if \<not> settled (task_entry key st)
                then let st = (if \<not> assigned (task_entry key st)
                               then on_global (\<lambda>g. g\<lparr>assignedTasks := assignedTasks g + 1\<rparr>) st
                               else st);
                         st = on_task key (\<lambda>s. s\<lparr>assigned := True\<rparr>) st
                     in on_task key (stamp_assignment clock) st
                else st);
          st = (if agent = sa_agentID st
                then on_task key (\<lambda>s. s\<lparr>timesAssignedToSelf := timesAssignedToSelf s + 1\<rparr>)
                       (on_global (\<lambda>g. g\<lparr>timesAssignedToSelf := timesAssignedToSelf g + 1\<rparr>) st)
                else on_task key (\<lambda>s. s\<lparr>timesAssignedToOther := timesAssignedToOther s + 1\<rparr>)
                       (on_global (\<lambda>g. g\<lparr>timesAssignedToOther := timesAssignedToOther g + 1\<rparr>) st));
          old = currentUtility (task_entry key st);
          st = on_global (\<lambda>g. g\<lparr>currentUtility := dbl_sub (currentUtility g) old\<rparr>) st;
          st = on_global (\<lambda>g. g\<lparr>currentUtility := dbl_add (currentUtility g) u\<rparr>) st;
          st = on_task key (\<lambda>s. s\<lparr>currentUtility := u\<rparr>) st;
          st = on_task key raise_highest st
      in on_global raise_highest st)"

definition TrackInvalidation ::
  "etime \<Rightarrow> TaskKey \<Rightarrow> AuctionStatistics_Agent \<Rightarrow> AuctionStatistics_Agent" where
  "TrackInvalidation clock key st =
     (let st = getTaskStats key st;
          st = on_task key mark_modified st;
          st = on_global mark_modified st;
          st = on_global (\<lambda>g. g\<lparr>timesInvalidated := timesInvalidated g + 1\<rparr>) st;
          st = on_task key (\<lambda>s. s\<lparr>timesInvalidated := timesInvalidated s + 1\<rparr>) st;
          old = currentUtility (task_entry key st);
          st = on_global (\<lambda>g. g\<lparr>currentUtility := dbl_sub (currentUtility g) old\<rparr>) st;
          st = on_task key (\<lambda>s. s\<lparr>currentUtility := Fin 0\<rparr>) st
      in if \<not> settled (task_entry key st)
         then let st = (if assigned (task_entry key st)
                        then on_global (\<lambda>g. g\<lparr>assignedTasks := assignedTasks g - 1\<rparr>) st else st);
                  st = on_task key (\<lambda>s. s\<lparr>assigned := False\<rparr>) st
              in on_task key (stamp_assignment clock) st
         else st)"

definition ResetGlobalChangedFlag :: "AuctionStatistics_Agent \<Rightarrow> AuctionStatistics_Agent" where
  "ResetGlobalChangedFlag st = on_global (\<lambda>g. g\<lparr>modified := False\<rparr>) st"

text \<open>\<open>ResetChangedFlag\<close> dereferences the end iterator for a task it does not know.\<close>

definition ResetChangedFlag ::
  "TaskKey \<Rightarrow> AuctionStatistics_Agent \<Rightarrow> (AuctionStatistics_Agent, unit) outcome" where
  "ResetChangedFlag key st =
     (case map_of (taskStats st) key of
        None \<Rightarrow> (st, Inl Undefined_Behaviour)
      | Some s \<Rightarrow> (st\<lparr>taskStats := um_put key (s\<lparr>modified := False\<rparr>) (taskStats st)\<rparr>, Inr ()))"

definition CalculateDynamicStats :: "real \<Rightarrow> AuctionStatistics_Agent \<Rightarrow> AuctionStatistics_Agent" where
  "CalculateDynamicStats duration st =
     (let g = globalStats st;
          g = g\<lparr>taskGenerationFrequency := 95 / 100 * taskGenerationFrequency g
                  + 5 / 100 * of_int (numRecentNewTasks st) / duration\<rparr>;
          g = g\<lparr>completionFrequency := 95 / 100 * completionFrequency g
                  + 5 / 100 * of_int (numRecentCompletedTasks st) / duration\<rparr>;
          g = g\<lparr>abortionFrequency := 95 / 100 * abortionFrequency g
                  + 5 / 100 * of_int (numRecentAbortedTasks st) / duration\<rparr>;
          g = g\<lparr>startFrequency := 95 / 100 * startFrequency g
                  + 5 / 100 * of_int (numRecentStartedTasks st) / duration\<rparr>;
          g = g\<lparr>messageSendFrequency := 95 / 100 * messageSendFrequency g
                  + 5 / 100 * of_int (numRecentMessagesSent st)\<rparr>;
          g = g\<lparr>messageRcvFrequency := 95 / 100 * messageRcvFrequency g
                  + 5 / 100 * of_int (numRecentMessagesRcv st)\<rparr>
      in st\<lparr>globalStats := g, numRecentNewTasks := 0, numRecentCompletedTasks := 0,
            numRecentAbortedTasks := 0, numRecentStartedTasks := 0, numRecentMessagesSent := 0,
            numRecentMessagesRcv := 0\<rparr>)"

section \<open>The entry of a task\<close>

definition known :: "TaskKey \<Rightarrow> AuctionStatistics_Agent \<Rightarrow> bool" where
  "known key st \<longleftrightarrow> map_of (taskStats st) key \<noteq> None"

lemma known_getTaskStats [simp]: "known key (getTaskStats key st)"
  by (auto simp: known_def getTaskStats_def split: option.splits)

lemma known_frame [simp]:
  "known key (on_task key' f st) \<longleftrightarrow> key = key' \<or> known key st"
  "known key (on_global h st) = known key st"
  "known key (count_message type st) = known key st"
  by (auto simp: known_def on_task_def on_global_def count_message_def split: MessageType.split)

lemma task_entry_frame [simp]:
  "task_entry key (on_task key f st) = f (task_entry key st)"
  "task_entry key (on_global h st) = task_entry key st"
  "task_entry key (count_message type st) = task_entry key st"
  by (auto simp: task_entry_def on_task_def on_global_def count_message_def split: MessageType.split)

lemma globalStats_frame [simp]:
  "globalStats (on_task key f st) = globalStats st"
  "globalStats (on_global h st) = h (globalStats st)"
  "globalStats (count_message type st) = globalStats st"
  by (auto simp: on_task_def on_global_def count_message_def split: MessageType.split)

lemma sa_agentID_frame [simp]:
  "sa_agentID (on_task key f st) = sa_agentID st"
  "sa_agentID (on_global h st) = sa_agentID st"
  "sa_agentID (count_message type st) = sa_agentID st"
  "sa_agentID (getTaskStats key st) = sa_agentID st"
  by (auto simp: on_task_def on_global_def count_message_def getTaskStats_def
      split: MessageType.split option.split)

text \<open>A sum over the tasks after one entry changed.\<close>

lemma sum_list_update:
  assumes "um_ok m" "map_of m k = Some s"
  shows "(\<Sum>e\<leftarrow>AList.update k s' m. t (snd e)) = (\<Sum>e\<leftarrow>m. t (snd e)) - t s + (t s' :: int)"
  using assms
proof (induction m)
  case (Cons e m)
  show ?case
  proof (cases "fst e = k")
    case True
    then show ?thesis using Cons.prems by (cases e) simp
  next
    case False
    then have "um_ok m" "map_of m k = Some s" using Cons.prems by (cases e; simp add: um_ok_def)+
    then show ?thesis using Cons.IH False by (cases e) simp
  qed
qed simp

text \<open>The difference between a global counter and the sum of the tasks' contributions.\<close>

definition gap ::
  "(AuctionStatistics_Global \<Rightarrow> int) \<Rightarrow> (AuctionStatistics_Task \<Rightarrow> int) \<Rightarrow> AuctionStatistics_Agent \<Rightarrow> int"
where
  "gap g t st = g (globalStats st) - (\<Sum>e\<leftarrow>taskStats st. t (snd e))"

definition stats_ok :: "AuctionStatistics_Agent \<Rightarrow> bool" where
  "stats_ok st \<longleftrightarrow> um_ok (taskStats st)"

lemma stats_ok_frame [simp]:
  "stats_ok st \<Longrightarrow> stats_ok (on_task key f st)"
  "stats_ok (on_global h st) = stats_ok st"
  "stats_ok (count_message type st) = stats_ok st"
  "stats_ok st \<Longrightarrow> stats_ok (getTaskStats key st)"
  by (auto simp: stats_ok_def on_task_def on_global_def count_message_def getTaskStats_def
      split: MessageType.split option.split)

lemma gap_on_task:
  assumes "stats_ok st" "known key st"
  shows "gap g t (on_task key f st) = gap g t st - (t (f (task_entry key st)) - t (task_entry key st))"
proof -
  obtain s where s: "map_of (taskStats st) key = Some s" using assms(2) by (auto simp: known_def)
  have "um_ok (taskStats st)" using assms(1) by (simp add: stats_ok_def)
  from sum_list_update [OF this s, where t = t] show ?thesis
    using s by (simp add: gap_def on_task_def task_entry_def)
qed

lemma gap_on_global: "gap g t (on_global h st) = gap g t st + (g (h (globalStats st)) - g (globalStats st))"
  by (simp add: gap_def on_global_def)

lemma gap_count_message [simp]: "gap g t (count_message type st) = gap g t st"
  by (simp add: gap_def count_message_def split: MessageType.split)

lemma assign_if_not_frame [simp]:
  "stats_ok st \<Longrightarrow> stats_ok (assign_if_not now key st)"
  "known key st \<Longrightarrow> known key (assign_if_not now key st)"
  by (simp_all add: assign_if_not_def Let_def)

text \<open>The counters of recent events do not enter any sum.\<close>

lemma recent_frame [simp]:
  "gap g t (st\<lparr>numRecentCompletedTasks := n\<rparr>) = gap g t st"
  "gap g t (st\<lparr>numRecentAbortedTasks := n\<rparr>) = gap g t st"
  "gap g t (st\<lparr>numRecentStartedTasks := n\<rparr>) = gap g t st"
  "stats_ok (st\<lparr>numRecentCompletedTasks := n\<rparr>) = stats_ok st"
  "stats_ok (st\<lparr>numRecentAbortedTasks := n\<rparr>) = stats_ok st"
  "stats_ok (st\<lparr>numRecentStartedTasks := n\<rparr>) = stats_ok st"
  "known key (st\<lparr>numRecentCompletedTasks := n\<rparr>) = known key st"
  "known key (st\<lparr>numRecentAbortedTasks := n\<rparr>) = known key st"
  "known key (st\<lparr>numRecentStartedTasks := n\<rparr>) = known key st"
  "task_entry key (st\<lparr>numRecentCompletedTasks := n\<rparr>) = task_entry key st"
  "task_entry key (st\<lparr>numRecentAbortedTasks := n\<rparr>) = task_entry key st"
  "task_entry key (st\<lparr>numRecentStartedTasks := n\<rparr>) = task_entry key st"
  "globalStats (st\<lparr>numRecentStartedTasks := n\<rparr>) = globalStats st"
  by (simp_all add: gap_def stats_ok_def known_def task_entry_def)

section \<open>Counters kept for every task and globally\<close>

text \<open>
  The contract between a global counter \<open>g\<close> and a task's contribution \<open>t\<close>: every update the
  operations make on a task and its companion on the global statistics change both by the same.
\<close>

locale task_counter =
  fixes g :: "AuctionStatistics_Global \<Rightarrow> int" and t :: "AuctionStatistics_Task \<Rightarrow> int"
  assumes new_task: "g (G\<lparr>totalTasks := totalTasks G + 1\<rparr>) = g G + t Task_new"
    and mark: "t (mark_modified s) = t s" "g (mark_modified G) = g G"
    and unmark: "t (s\<lparr>modified := False\<rparr>) = t s" "g (G\<lparr>modified := False\<rparr>) = g G"
    and taskKey: "t (inc_taskKey ty s) - t s = g (inc_taskKey ty G) - g G"
    and request: "t (inc_request ty s) - t s = g (inc_request ty G) - g G"
    and descriptor: "t (inc_descriptor ty s) - t s = g (inc_descriptor ty G) - g G"
    and bundles: "t (inc_bundles ty s) = t s" "g (inc_bundles ty G) = g G"
    and generated: "t (inc_generated s) - t s = g (inc_generated G) - g G"
    and bid: "t (inc_bid ty s) - t s = g (inc_bid ty G) - g G"
    and scrub: "t (inc_scrub ty s) - t s = g (inc_scrub ty G) - g G"
    and completion: "t (inc_completion ty s) - t s = g (inc_completion ty G) - g G"
    and abortion: "t (inc_abortion ty s) - t s = g (inc_abortion ty G) - g G"
    and start: "t (inc_start ty s) - t s = g (inc_start ty G) - g G"
    and stamp: "t (stamp_assignment now s) = t s"
    and complete: "\<not> completed s \<Longrightarrow>
      t (s\<lparr>completed := True\<rparr>) - t s = g (G\<lparr>completedTasks := completedTasks G + 1\<rparr>) - g G"
    and abort: "\<not> aborted s \<Longrightarrow>
      t (s\<lparr>aborted := True\<rparr>) - t s = g (G\<lparr>abortedTasks := abortedTasks G + 1\<rparr>) - g G"
    and begin_task: "\<not> started s \<Longrightarrow>
      t (s\<lparr>started := True\<rparr>) - t s = g (G\<lparr>startedTasks := startedTasks G + 1\<rparr>) - g G"
    and assign: "\<not> assigned s \<Longrightarrow>
      t (s\<lparr>assigned := True\<rparr>) - t s = g (G\<lparr>assignedTasks := assignedTasks G + 1\<rparr>) - g G"
    and reassign: "assigned s \<Longrightarrow> t (s\<lparr>assigned := True\<rparr>) = t s"
    and unassign: "assigned s \<Longrightarrow>
      t (s\<lparr>assigned := False\<rparr>) - t s = g (G\<lparr>assignedTasks := assignedTasks G - 1\<rparr>) - g G"
    and not_assigned: "\<not> assigned s \<Longrightarrow> t (s\<lparr>assigned := False\<rparr>) = t s"
    and to_self: "t (s\<lparr>timesAssignedToSelf := timesAssignedToSelf s + 1\<rparr>) - t s
      = g (G\<lparr>timesAssignedToSelf := timesAssignedToSelf G + 1\<rparr>) - g G"
    and to_other: "t (s\<lparr>timesAssignedToOther := timesAssignedToOther s + 1\<rparr>) - t s
      = g (G\<lparr>timesAssignedToOther := timesAssignedToOther G + 1\<rparr>) - g G"
    and invalidated: "t (s\<lparr>timesInvalidated := timesInvalidated s + 1\<rparr>) - t s
      = g (G\<lparr>timesInvalidated := timesInvalidated G + 1\<rparr>) - g G"
    and utilities: "t (s\<lparr>currentUtility := u\<rparr>) = t s" "g (G\<lparr>currentUtility := u\<rparr>) = g G"
      "t (raise_highest s) = t s" "g (raise_highest G) = g G"
    and frequencies: "g (G\<lparr>taskGenerationFrequency := f1, completionFrequency := f2,
        abortionFrequency := f3, startFrequency := f4, messageSendFrequency := f5,
        messageRcvFrequency := f6\<rparr>) = g G"
begin

lemma gap_getTaskStats [simp]: "gap g t (getTaskStats key st) = gap g t st"
  by (auto simp: gap_def getTaskStats_def um_insert_def new_task split: option.splits)

lemmas gap_steps = gap_on_task gap_on_global mark bundles stamp utilities

lemma gap_count:
  assumes "stats_ok st" "known key st" "\<And>s G. t (f s) - t s = g (h G) - g G"
  shows "gap g t (on_global h (on_task key f st)) = gap g t st"
    "gap g t (on_task key f (on_global h st)) = gap g t st"
  using assms(3) [of "task_entry key st" "globalStats st"] assms(1,2)
  by (simp_all add: gap_on_task gap_on_global)

lemma gap_assign_if_not:
  "stats_ok st \<Longrightarrow> known key st \<Longrightarrow> gap g t (assign_if_not now key st) = gap g t st"
  using assign [of "task_entry key st" "globalStats st"]
  by (simp add: assign_if_not_def gap_steps Let_def)

lemma gap_TrackTaskKey: "stats_ok st \<Longrightarrow> gap g t (TrackTaskKey ty key st) = gap g t st"
  by (simp add: TrackTaskKey_def Let_def gap_count taskKey) (simp add: gap_steps)

lemma gap_TrackTaskDescriptorRequest:
  "stats_ok st \<Longrightarrow> gap g t (TrackTaskDescriptorRequest ty key st) = gap g t st"
  by (simp add: TrackTaskDescriptorRequest_def Let_def gap_count request) (simp add: gap_steps)

lemma gap_TrackTaskDescriptor:
  "stats_ok st \<Longrightarrow> gap g t (TrackTaskDescriptor ty key st) = gap g t st"
  by (simp add: TrackTaskDescriptor_def Let_def gap_count descriptor) (simp add: gap_steps)

lemma gap_track_bundled: "stats_ok st \<Longrightarrow> gap g t (track_bundled ty key st) = gap g t st"
  by (cases ty) (simp_all add: track_bundled_def Let_def gap_count generated, simp_all add: gap_steps)

lemma gap_TrackBid: "stats_ok st \<Longrightarrow> gap g t (TrackBid ty b st) = gap g t st"
  by (simp add: TrackBid_def Let_def gap_count bid)

lemma gap_TrackScrubMessage: "stats_ok st \<Longrightarrow> gap g t (TrackScrubMessage ty m st) = gap g t st"
  by (simp add: TrackScrubMessage_def Let_def gap_count scrub)

lemma gap_TrackCompletion:
  assumes "stats_ok st"
  shows "gap g t (TrackCompletion clock ty key st) = gap g t st"
proof -
  define st1 where "st1 = on_task key mark_modified (on_global mark_modified (getTaskStats key st))"
  have st1: "stats_ok st1" "known key st1" "gap g t st1 = gap g t st"
    using assms by (simp_all add: st1_def) (simp add: gap_steps)
  define st2 where "st2 = (if \<not> completed (task_entry key st1)
    then let st = on_task key (\<lambda>s. s\<lparr>completed := True\<rparr>) st1;
             st = st\<lparr>numRecentCompletedTasks := numRecentCompletedTasks st + 1\<rparr>;
             st = on_global (\<lambda>g. g\<lparr>completedTasks := completedTasks g + 1\<rparr>) st
         in assign_if_not clock key st
    else st1)"
  have st2: "stats_ok st2" "known key st2" "gap g t st2 = gap g t st1"
    using st1 complete [of "task_entry key st1" "globalStats st1"]
    by (simp_all add: st2_def Let_def gap_assign_if_not) (simp add: gap_steps)
  have "TrackCompletion clock ty key st
      = count_message ty (on_global (inc_completion ty) (on_task key (inc_completion ty) st2))"
    unfolding TrackCompletion_def Let_def st2_def st1_def ..
  then show ?thesis using st1 st2 by (simp add: gap_count completion)
qed

lemma gap_TrackAbortion:
  assumes "stats_ok st"
  shows "gap g t (TrackAbortion clock ty key st) = gap g t st"
proof -
  define st1 where "st1 = on_task key mark_modified (on_global mark_modified (getTaskStats key st))"
  have st1: "stats_ok st1" "known key st1" "gap g t st1 = gap g t st"
    using assms by (simp_all add: st1_def) (simp add: gap_steps)
  define st2 where "st2 = (if \<not> aborted (task_entry key st1)
    then let st = on_task key (\<lambda>s. s\<lparr>aborted := True\<rparr>) st1;
             st = st\<lparr>numRecentAbortedTasks := numRecentAbortedTasks st + 1\<rparr>;
             st = on_global (\<lambda>g. g\<lparr>abortedTasks := abortedTasks g + 1\<rparr>) st
         in assign_if_not clock key st
    else st1)"
  have st2: "stats_ok st2" "known key st2" "gap g t st2 = gap g t st1"
    using st1 abort [of "task_entry key st1" "globalStats st1"]
    by (simp_all add: st2_def Let_def gap_assign_if_not) (simp add: gap_steps)
  have "TrackAbortion clock ty key st
      = count_message ty (on_global (inc_abortion ty) (on_task key (inc_abortion ty) st2))"
    unfolding TrackAbortion_def Let_def st2_def st1_def ..
  then show ?thesis using st1 st2 by (simp add: gap_count abortion)
qed

lemma gap_TrackStart:
  assumes "stats_ok st"
  shows "gap g t (TrackStart clock ty key st) = gap g t st"
proof -
  define st1 where "st1 = on_task key mark_modified (on_global mark_modified (getTaskStats key st))"
  have st1: "stats_ok st1" "known key st1" "gap g t st1 = gap g t st"
    using assms by (simp_all add: st1_def) (simp add: gap_steps)
  define st2 where "st2 = (if \<not> started (task_entry key st1)
    then let st = on_task key (\<lambda>s. s\<lparr>started := True\<rparr>) st1;
             st = st\<lparr>numRecentStartedTasks := numRecentStartedTasks st + 1\<rparr>;
             st = on_global (\<lambda>g. g\<lparr>startedTasks := startedTasks g + 1\<rparr>) st
         in assign_if_not clock key st
    else st1)"
  have st2: "stats_ok st2" "known key st2" "gap g t st2 = gap g t st1"
    using st1 begin_task [of "task_entry key st1" "globalStats st1"]
    by (simp_all add: st2_def Let_def gap_assign_if_not) (simp add: gap_steps)
  have "TrackStart clock ty key st
      = count_message ty (on_global (inc_start ty) (on_task key (inc_start ty) st2))"
    unfolding TrackStart_def Let_def st2_def st1_def ..
  then show ?thesis using st1 st2 by (simp add: gap_count start)
qed

lemma gap_TrackAssignment:
  assumes "stats_ok st"
  shows "gap g t (TrackAssignment clock key agent u st) = gap g t st"
proof -
  define st1 where "st1 = on_global mark_modified (on_task key mark_modified (getTaskStats key st))"
  have st1: "stats_ok st1" "known key st1" "gap g t st1 = gap g t st"
    using assms by (simp_all add: st1_def) (simp add: gap_steps)
  define st2 where "st2 = (if \<not> settled (task_entry key st1)
    then let st = (if \<not> assigned (task_entry key st1)
                   then on_global (\<lambda>g. g\<lparr>assignedTasks := assignedTasks g + 1\<rparr>) st1 else st1);
             st = on_task key (\<lambda>s. s\<lparr>assigned := True\<rparr>) st
         in on_task key (stamp_assignment clock) st
    else st1)"
  have st2: "stats_ok st2" "known key st2" "gap g t st2 = gap g t st1"
    using st1 assign [of "task_entry key st1" "globalStats st1"] reassign [of "task_entry key st1"]
    by (simp_all add: st2_def Let_def) (simp add: gap_steps)
  define st3 where "st3 = (if agent = sa_agentID st2
    then on_task key (\<lambda>s. s\<lparr>timesAssignedToSelf := timesAssignedToSelf s + 1\<rparr>)
           (on_global (\<lambda>g. g\<lparr>timesAssignedToSelf := timesAssignedToSelf g + 1\<rparr>) st2)
    else on_task key (\<lambda>s. s\<lparr>timesAssignedToOther := timesAssignedToOther s + 1\<rparr>)
           (on_global (\<lambda>g. g\<lparr>timesAssignedToOther := timesAssignedToOther g + 1\<rparr>) st2))"
  have st3: "stats_ok st3" "known key st3" "gap g t st3 = gap g t st2"
    using st2 by (simp_all add: st3_def gap_count to_self to_other)
  have "TrackAssignment clock key agent u st =
      (let old = currentUtility (task_entry key st3);
          st = on_global (\<lambda>g. g\<lparr>currentUtility := dbl_sub (currentUtility g) old\<rparr>) st3;
          st = on_global (\<lambda>g. g\<lparr>currentUtility := dbl_add (currentUtility g) u\<rparr>) st;
          st = on_task key (\<lambda>s. s\<lparr>currentUtility := u\<rparr>) st;
          st = on_task key raise_highest st
      in on_global raise_highest st)"
    unfolding TrackAssignment_def Let_def st3_def st2_def st1_def ..
  then show ?thesis using st1 st2 st3 by (simp add: Let_def) (simp add: gap_steps)
qed

lemma gap_TrackInvalidation:
  assumes "stats_ok st"
  shows "gap g t (TrackInvalidation clock key st) = gap g t st"
proof -
  define st1 where "st1 = (let st = getTaskStats key st;
          st = on_task key mark_modified st;
          st = on_global mark_modified st;
          st = on_global (\<lambda>g. g\<lparr>timesInvalidated := timesInvalidated g + 1\<rparr>) st
      in on_task key (\<lambda>s. s\<lparr>timesInvalidated := timesInvalidated s + 1\<rparr>) st)"
  have st1: "stats_ok st1" "known key st1" "gap g t st1 = gap g t st"
    using assms by (simp_all add: st1_def Let_def gap_count invalidated) (simp add: gap_steps)
  define st2 where "st2 = on_task key (\<lambda>s. s\<lparr>currentUtility := Fin 0\<rparr>)
      (on_global (\<lambda>g. g\<lparr>currentUtility :=
         dbl_sub (currentUtility g) (currentUtility (task_entry key st1))\<rparr>) st1)"
  have st2: "stats_ok st2" "known key st2" "gap g t st2 = gap g t st1"
    using st1 by (simp_all add: st2_def) (simp add: gap_steps)
  have "TrackInvalidation clock key st =
     (if \<not> settled (task_entry key st2)
         then let st = (if assigned (task_entry key st2)
                        then on_global (\<lambda>g. g\<lparr>assignedTasks := assignedTasks g - 1\<rparr>) st2 else st2);
                  st = on_task key (\<lambda>s. s\<lparr>assigned := False\<rparr>) st
              in on_task key (stamp_assignment clock) st
         else st2)"
    unfolding TrackInvalidation_def Let_def st2_def st1_def ..
  then show ?thesis
    using st1 st2 unassign [of "task_entry key st2" "globalStats st2"]
      not_assigned [of "task_entry key st2"]
    by (simp add: Let_def) (simp add: gap_steps)
qed

lemma gap_Reset:
  "gap g t (ResetGlobalChangedFlag st) = gap g t st"
  "stats_ok st \<Longrightarrow> gap g t (fst (ResetChangedFlag key st)) = gap g t st"
proof -
  show "gap g t (ResetGlobalChangedFlag st) = gap g t st"
    by (simp add: ResetGlobalChangedFlag_def gap_on_global unmark)
  assume ok: "stats_ok st"
  show "gap g t (fst (ResetChangedFlag key st)) = gap g t st"
  proof (cases "map_of (taskStats st) key")
    case (Some s)
    then show ?thesis
      using ok sum_list_update [where m = "taskStats st" and k = key and s = s
          and s' = "s\<lparr>modified := False\<rparr>" and t = t]
      by (simp add: ResetChangedFlag_def gap_def stats_ok_def unmark)
  qed (simp add: ResetChangedFlag_def)
qed

lemma gap_CalculateDynamicStats: "gap g t (CalculateDynamicStats d st) = gap g t st"
  by (simp add: CalculateDynamicStats_def gap_def Let_def frequencies)

end

section \<open>Histories\<close>

datatype 'v stats_event =
    E_TaskKey MessageType TaskKey
  | E_Request MessageType TaskKey
  | E_Descriptor MessageType TaskKey
  | E_Bundle MessageType "'v BidBundle"
  | E_Bid MessageType BidDescriptor
  | E_Scrub MessageType ScrubMessage
  | E_Completion etime MessageType TaskKey
  | E_Abortion etime MessageType TaskKey
  | E_Start etime MessageType TaskKey
  | E_Assignment etime TaskKey u64 dbl
  | E_Invalidation etime TaskKey
  | E_ResetGlobal
  | E_ResetTask TaskKey
  | E_Dynamic real

fun stats_step :: "'v stats_event \<Rightarrow> AuctionStatistics_Agent \<Rightarrow> AuctionStatistics_Agent" where
  "stats_step (E_TaskKey ty k) st = TrackTaskKey ty k st"
| "stats_step (E_Request ty k) st = TrackTaskDescriptorRequest ty k st"
| "stats_step (E_Descriptor ty k) st = TrackTaskDescriptor ty k st"
| "stats_step (E_Bundle ty bb) st = TrackBidBundle ty bb st"
| "stats_step (E_Bid ty b) st = TrackBid ty b st"
| "stats_step (E_Scrub ty m) st = TrackScrubMessage ty m st"
| "stats_step (E_Completion clock ty k) st = TrackCompletion clock ty k st"
| "stats_step (E_Abortion clock ty k) st = TrackAbortion clock ty k st"
| "stats_step (E_Start clock ty k) st = TrackStart clock ty k st"
| "stats_step (E_Assignment clock k agent u) st = TrackAssignment clock k agent u st"
| "stats_step (E_Invalidation clock k) st = TrackInvalidation clock k st"
| "stats_step E_ResetGlobal st = ResetGlobalChangedFlag st"
| "stats_step (E_ResetTask k) st = fst (ResetChangedFlag k st)"
| "stats_step (E_Dynamic d) st = CalculateDynamicStats d st"

definition stats_run :: "'v stats_event list \<Rightarrow> AuctionStatistics_Agent \<Rightarrow> AuctionStatistics_Agent" where
  "stats_run es st = fold stats_step es st"

lemma stats_ok_bundled: "stats_ok st \<Longrightarrow> stats_ok (fold (track_bundled ty) ks st)"
  by (induction ks arbitrary: st) (auto simp: track_bundled_def Let_def split: MessageType.split)

lemma stats_ok_step: "stats_ok st \<Longrightarrow> stats_ok (stats_step e st)"
proof (cases e)
  case (E_ResetTask k)
  assume "stats_ok st"
  then show ?thesis
    by (auto simp: E_ResetTask ResetChangedFlag_def stats_ok_def split: option.split)
next
  case (E_Dynamic d)
  assume "stats_ok st"
  then show ?thesis by (simp add: E_Dynamic CalculateDynamicStats_def stats_ok_def Let_def)
qed (simp_all add: TrackTaskKey_def TrackTaskDescriptorRequest_def TrackTaskDescriptor_def
    TrackBidBundle_def TrackBid_def TrackScrubMessage_def TrackCompletion_def TrackAbortion_def
    TrackStart_def TrackAssignment_def TrackInvalidation_def ResetGlobalChangedFlag_def Let_def
    stats_ok_bundled)

context task_counter
begin

lemma gap_bundled: "stats_ok st \<Longrightarrow> gap g t (fold (track_bundled ty) ks st) = gap g t st"
proof (induction ks arbitrary: st)
  case (Cons k ks)
  have "stats_ok (track_bundled ty k st)" using stats_ok_bundled [of st ty "[k]"] Cons.prems by simp
  then show ?case using Cons gap_track_bundled by simp
qed simp

lemma gap_TrackBidBundle: "stats_ok st \<Longrightarrow> gap g t (TrackBidBundle ty bb st) = gap g t st"
  by (simp add: TrackBidBundle_def Let_def gap_bundled) (simp add: gap_steps)

lemma gap_step: "stats_ok st \<Longrightarrow> gap g t (stats_step e st) = gap g t st"
  by (cases e) (simp_all add: gap_TrackTaskKey gap_TrackTaskDescriptorRequest gap_TrackTaskDescriptor
    gap_TrackBidBundle gap_TrackBid gap_TrackScrubMessage gap_TrackCompletion gap_TrackAbortion
    gap_TrackStart gap_TrackAssignment gap_TrackInvalidation gap_Reset gap_CalculateDynamicStats)

lemma gap_run: "stats_ok st \<Longrightarrow> gap g t (stats_run es st) = gap g t st"
proof (induction es arbitrary: st)
  case (Cons e es)
  then show ?case
    using gap_step [OF Cons.prems, of e] stats_ok_step [OF Cons.prems, of e]
    by (simp add: stats_run_def)
qed (simp add: stats_run_def)

lemma counted:
  assumes "g Global_new = 0"
  shows "g (globalStats (stats_run es (Stats_new a)))
     = (\<Sum>e\<leftarrow>taskStats (stats_run es (Stats_new a)). t (snd e))"
proof -
  have "stats_ok (Stats_new a)" "gap g t (Stats_new a) = 0"
    using assms by (simp_all add: stats_ok_def gap_def Stats_new_def)
  then show ?thesis using gap_run [of "Stats_new a" es] by (simp add: gap_def)
qed

end

section \<open>The counters of the code meet the contract\<close>

text \<open>
  The counters kept in \<open>AuctionStatistics_Common\<close> with the same meaning for a task and globally: all
  but those of the bundles, which count bundles globally and bids for the tasks.
\<close>

datatype common_counter =
    N_TaskKey MessageType | N_Request MessageType | N_Descriptor MessageType | N_Bid MessageType
  | N_Scrub MessageType | N_Completion MessageType | N_Abortion MessageType | N_Start MessageType
  | N_Generated | N_Self | N_Other | N_Invalidated

fun counter_of :: "common_counter \<Rightarrow> 'a AuctionStatistics_Common_scheme \<Rightarrow> int" where
  "counter_of (N_TaskKey ty) s = (case ty of Send \<Rightarrow> taskKeyBroadcastsSent s | Rcv \<Rightarrow> taskKeyBroadcastsRcv s)"
| "counter_of (N_Request ty) s =
     (case ty of Send \<Rightarrow> taskDescriptorRequestsSent s | Rcv \<Rightarrow> taskDescriptorRequestsRcv s)"
| "counter_of (N_Descriptor ty) s =
     (case ty of Send \<Rightarrow> taskDescriptorsSent s | Rcv \<Rightarrow> taskDescriptorsRcv s)"
| "counter_of (N_Bid ty) s = (case ty of Send \<Rightarrow> bidsRebroadcastSent s | Rcv \<Rightarrow> bidsRebroadcastRcv s)"
| "counter_of (N_Scrub ty) s = (case ty of Send \<Rightarrow> scrubMessagesSent s | Rcv \<Rightarrow> scrubMessagesRcv s)"
| "counter_of (N_Completion ty) s =
     (case ty of Send \<Rightarrow> taskCompletionBroadcastsSent s | Rcv \<Rightarrow> taskCompletionBroadcastsRcv s)"
| "counter_of (N_Abortion ty) s =
     (case ty of Send \<Rightarrow> taskAbortionBroadcastsSent s | Rcv \<Rightarrow> taskAbortionBroadcastsRcv s)"
| "counter_of (N_Start ty) s =
     (case ty of Send \<Rightarrow> taskStartedBroadcastsSent s | Rcv \<Rightarrow> taskStartedBroadcastsRcv s)"
| "counter_of N_Generated s = bidsGeneratedForSelf s"
| "counter_of N_Self s = timesAssignedToSelf s"
| "counter_of N_Other s = timesAssignedToOther s"
| "counter_of N_Invalidated s = timesInvalidated s"

lemmas update_defs = mark_modified_def inc_taskKey_def inc_request_def inc_descriptor_def
  inc_bundles_def inc_generated_def inc_bid_def inc_scrub_def inc_completion_def inc_abortion_def
  inc_start_def stamp_assignment_def raise_highest_def Task_new_def Common_new_def
  AuctionStatistics_Common.defs AuctionStatistics_Task.defs Let_def

interpretation common: task_counter "counter_of c" "counter_of c" for c
  by unfold_locales (cases c; auto simp: update_defs split: MessageType.split)+

interpretation total: task_counter totalTasks "\<lambda>s. 1"
  by unfold_locales (auto simp: update_defs split: MessageType.split)

interpretation assigned_tasks: task_counter assignedTasks "\<lambda>s. of_bool (assigned s)"
  by unfold_locales (auto simp: update_defs split: MessageType.split)

interpretation completed_tasks: task_counter completedTasks "\<lambda>s. of_bool (completed s)"
  by unfold_locales (auto simp: update_defs split: MessageType.split)

interpretation aborted_tasks: task_counter abortedTasks "\<lambda>s. of_bool (aborted s)"
  by unfold_locales (auto simp: update_defs split: MessageType.split)

interpretation started_tasks: task_counter startedTasks "\<lambda>s. of_bool (started s)"
  by unfold_locales (auto simp: update_defs split: MessageType.split)

lemma Global_new_counters [simp]:
  "counter_of c Global_new = 0" "totalTasks Global_new = 0" "assignedTasks Global_new = 0"
  "completedTasks Global_new = 0" "abortedTasks Global_new = 0" "startedTasks Global_new = 0"
  by (cases c; simp add: Global_new_def Common_new_def AuctionStatistics_Common.defs
      AuctionStatistics_Global.defs split: MessageType.split)
    (simp_all add: Global_new_def Common_new_def AuctionStatistics_Common.defs
      AuctionStatistics_Global.defs)

lemma sum_list_of_bool: "(\<Sum>e\<leftarrow>m. of_bool (P (snd e))) = int (length (filter (P \<circ> snd) m))"
  by (induction m) auto

section \<open>Properties\<close>

text \<open>
  C25: After any history of tracked events, the global numbers of tasks, of assigned, completed,
  aborted and started tasks are the numbers of the tasks with an entry and with the respective flag.
\<close>

theorem task_numbers_exact:
  "let st = stats_run es (Stats_new a)
   in totalTasks (globalStats st) = int (length (taskStats st))
     \<and> assignedTasks (globalStats st) = int (length (filter (assigned \<circ> snd) (taskStats st)))
     \<and> completedTasks (globalStats st) = int (length (filter (completed \<circ> snd) (taskStats st)))
     \<and> abortedTasks (globalStats st) = int (length (filter (aborted \<circ> snd) (taskStats st)))
     \<and> startedTasks (globalStats st) = int (length (filter (started \<circ> snd) (taskStats st)))"
  using total.counted [of es a] assigned_tasks.counted [of es a] completed_tasks.counted [of es a]
    aborted_tasks.counted [of es a] started_tasks.counted [of es a]
  by (simp add: Let_def sum_list_of_bool sum_list_triv)

text \<open>
  C26: After any history, every message and assignment counter of the global statistics, except
  \<open>bundlesSent\<close> and \<open>bundlesRcv\<close>, which count bundles globally and bids for the tasks, is
  the sum of the tasks' counters.
\<close>

theorem counters_add_up:
  "counter_of c (globalStats (stats_run es (Stats_new a)))
     = (\<Sum>e\<leftarrow>taskStats (stats_run es (Stats_new a)). counter_of c (snd e))"
  by (rule common.counted) simp

end
