(* ===== verification/Master_Queue.thy ===== *)
theory Master_Queue
  imports Bid_Container Task_Queues Auction_Stats
begin

text \<open>
  \<open>MasterTaskQueue\<close> (src/data_auctioneer/master_task_queue.h, .cpp) and the \<open>TaskContainer\<close> it keeps
  for every task: what one agent knows about all tasks of the auction. An operation that looks a key
  up with \<open>at\<close> throws when the key is missing; the operations return the state they leave behind
  together with the error or the result.

  The clock is read through an argument \<open>clock\<close>, one value for all reads of an operation. The
  argument \<open>uninit\<close> is the indeterminate task key inside the default bid of a new container. The
  vehicle states \<open>'v\<close> attached to bids are opaque. \<open>m_bidsToBroadcast\<close> is an unordered map under a
  tolerant equality whose hash includes the generation time: an entry is found when both agree.
  Pointers to task descriptors are never null where the code dereferences them.
\<close>

section \<open>Task descriptors and containers\<close>

datatype TaskType = LOITER | SURVEY | UNKNOWN_TYPE

record TaskDescriptor =
  td_creatorID :: u64
  td_taskID :: u8
  td_type :: TaskType
  timeCreated :: etime
  timePenalty :: dbl
  requiredStart :: etime
  requiredEnd :: etime

definition getTaskKey :: "TaskDescriptor \<Rightarrow> TaskKey" where
  "getTaskKey d = \<lparr>creatorID = td_creatorID d, taskID = td_taskID d\<rparr>"

definition UpdateID :: "u64 \<Rightarrow> u8 \<Rightarrow> TaskDescriptor \<Rightarrow> TaskDescriptor" where
  "UpdateID creator task d = d\<lparr>td_creatorID := creator, td_taskID := task\<rparr>"

record TaskContainer =
  tc_taskKey :: TaskKey
  tc_descriptor :: "TaskDescriptor option"
  bidContainer :: BidContainer
  tc_priority :: int
  consensusReached :: bool
  addressable :: bool

definition TaskContainer_new ::
  "etime \<Rightarrow> TaskKey \<Rightarrow> u64 \<Rightarrow> TaskKey \<Rightarrow> bool \<Rightarrow> int \<Rightarrow> TaskContainer" where
  "TaskContainer_new clock uninit agent key addr prio = \<lparr>tc_taskKey = key, tc_descriptor = None,
     bidContainer = BidContainer_new clock uninit agent key, tc_priority = prio,
     consensusReached = False, addressable = addr\<rparr>"

section \<open>State\<close>

type_synonym agent_bids = "(etime \<times> BidDescriptor) list"

record 'v MasterTaskQueue =
  mq_agentID :: u64
  taskData :: "(TaskKey, TaskContainer) umap"
  availableTasks :: AvailableTaskQueue
  awardedTasks :: AwardedTaskQueue
  assignedQueue :: "'v AssignmentTaskQueue"
  knownAgentBids :: "(u64, agent_bids) umap"
  bidsToBroadcast :: "(BidDescriptor \<times> etime) list"
  scrubMessagesToBroadcast :: "ScrubMessage list"
  tasksCompleted :: "(TaskKey, u64) umap"
  tasksAborted :: "(TaskKey, u64) umap"
  tasksStarted :: "(TaskKey, u64) umap"
  auctionStats :: "AuctionStatistics_Agent option"

definition MasterTaskQueue_new :: "u64 \<Rightarrow> 'v MasterTaskQueue" where
  "MasterTaskQueue_new agent = \<lparr>mq_agentID = agent, taskData = [], availableTasks = [],
     awardedTasks = [], assignedQueue = AssignmentTaskQueue_new, knownAgentBids = [],
     bidsToBroadcast = [], scrubMessagesToBroadcast = [], tasksCompleted = [], tasksAborted = [],
     tasksStarted = [], auctionStats = None\<rparr>"

definition setAgentID :: "u64 \<Rightarrow> 'v MasterTaskQueue \<Rightarrow> 'v MasterTaskQueue" where
  "setAgentID agent mq = mq\<lparr>mq_agentID := agent\<rparr>"

definition setAuctionStats ::
  "AuctionStatistics_Agent option \<Rightarrow> 'v MasterTaskQueue \<Rightarrow> 'v MasterTaskQueue" where
  "setAuctionStats st mq = mq\<lparr>auctionStats := st\<rparr>"

text \<open>Writing through the reference to a container.\<close>

definition put_container :: "TaskKey \<Rightarrow> TaskContainer \<Rightarrow> 'v MasterTaskQueue \<Rightarrow> 'v MasterTaskQueue" where
  "put_container key tc mq = mq\<lparr>taskData := um_put key tc (taskData mq)\<rparr>"

section \<open>Tasks and descriptors\<close>

definition AddTaskKey ::
  "etime \<Rightarrow> TaskKey \<Rightarrow> TaskKey \<Rightarrow> bool \<Rightarrow> int \<Rightarrow> 'v MasterTaskQueue \<Rightarrow> 'v MasterTaskQueue \<times> bool"
where
  "AddTaskKey clock uninit key addr prio mq =
     (if map_of (taskData mq) key \<noteq> None then (mq, False)
      else let mq = (if addr
                     then mq\<lparr>availableTasks := Available_AddTask key prio (availableTasks mq)\<rparr>
                     else mq)
           in (mq\<lparr>taskData := um_insert key
                  (TaskContainer_new clock uninit (mq_agentID mq) key addr prio) (taskData mq)\<rparr>, True))"

definition AddTaskDescriptor ::
  "TaskDescriptor \<Rightarrow> 'v MasterTaskQueue \<Rightarrow> ('v MasterTaskQueue, unit) outcome" where
  "AddTaskDescriptor d mq =
     (case map_of (taskData mq) (getTaskKey d) of
        None \<Rightarrow> (mq, Inl Out_Of_Range)
      | Some tc \<Rightarrow> (put_container (getTaskKey d) (tc\<lparr>tc_descriptor := Some d\<rparr>) mq, Inr ()))"

definition getTaskDescriptor ::
  "TaskKey \<Rightarrow> 'v MasterTaskQueue \<Rightarrow> cpp_error + TaskDescriptor option" where
  "getTaskDescriptor key mq = (case map_of (taskData mq) key of
     None \<Rightarrow> Inl Out_Of_Range | Some tc \<Rightarrow> Inr (tc_descriptor tc))"

definition getConsensusReached :: "TaskKey \<Rightarrow> 'v MasterTaskQueue \<Rightarrow> cpp_error + bool" where
  "getConsensusReached key mq = (case map_of (taskData mq) key of
     None \<Rightarrow> Inl Out_Of_Range | Some tc \<Rightarrow> Inr (consensusReached tc))"

definition getPriority :: "TaskKey \<Rightarrow> 'v MasterTaskQueue \<Rightarrow> cpp_error + int" where
  "getPriority key mq = (case map_of (taskData mq) key of
     None \<Rightarrow> Inl Out_Of_Range | Some tc \<Rightarrow> Inr (tc_priority tc))"

definition setPriority ::
  "TaskKey \<Rightarrow> int \<Rightarrow> 'v MasterTaskQueue \<Rightarrow> ('v MasterTaskQueue, unit) outcome" where
  "setPriority key prio mq = (case map_of (taskData mq) key of
     None \<Rightarrow> (mq, Inl Out_Of_Range)
   | Some tc \<Rightarrow> (put_container key (tc\<lparr>tc_priority := prio\<rparr>) mq, Inr ()))"

definition HasTask :: "TaskKey \<Rightarrow> 'v MasterTaskQueue \<Rightarrow> bool" where
  "HasTask key mq \<longleftrightarrow> map_of (taskData mq) key \<noteq> None"

definition HasTaskDescriptor :: "TaskKey \<Rightarrow> 'v MasterTaskQueue \<Rightarrow> cpp_error + bool" where
  "HasTaskDescriptor key mq = (case map_of (taskData mq) key of
     None \<Rightarrow> Inl Out_Of_Range | Some tc \<Rightarrow> Inr (tc_descriptor tc \<noteq> None))"

definition HasLeadingBid :: "TaskKey \<Rightarrow> 'v MasterTaskQueue \<Rightarrow> bool" where
  "HasLeadingBid key mq = (case map_of (taskData mq) key of
     None \<Rightarrow> False | Some tc \<Rightarrow> bc_valid (bidContainer tc))"

definition HasAvailableTasks :: "'v MasterTaskQueue \<Rightarrow> bool" where
  "HasAvailableTasks mq \<longleftrightarrow> \<not> Available_Empty (availableTasks mq)"

definition ConsensusOnAllAssignedTasks :: "'v MasterTaskQueue \<Rightarrow> bool" where
  "ConsensusOnAllAssignedTasks mq = ConsensusOnAllTasks (assignedQueue mq)"

definition getLeadingBid :: "TaskKey \<Rightarrow> 'v MasterTaskQueue \<Rightarrow> cpp_error + BidDescriptor" where
  "getLeadingBid key mq = (case map_of (taskData mq) key of
     None \<Rightarrow> Inl Out_Of_Range | Some tc \<Rightarrow> Inr (leadingBid (bidContainer tc)))"

definition getLeadingAgentID :: "TaskKey \<Rightarrow> 'v MasterTaskQueue \<Rightarrow> cpp_error + u64" where
  "getLeadingAgentID key mq = (case map_of (taskData mq) key of
     None \<Rightarrow> Inl Out_Of_Range | Some tc \<Rightarrow> Inr (getLeadingAgent (bidContainer tc)))"

text \<open>The own time of a container; the default time when there is none.\<close>

definition own_time :: "u64 \<Rightarrow> BidContainer \<Rightarrow> etime" where
  "own_time me bc = (case getAgentTime me bc of Some t \<Rightarrow> setTime etime_zero t | None \<Rightarrow> etime_zero)"

definition getBidTimestamp :: "TaskKey \<Rightarrow> 'v MasterTaskQueue \<Rightarrow> cpp_error + etime" where
  "getBidTimestamp key mq = (case map_of (taskData mq) key of
     None \<Rightarrow> Inl Out_Of_Range | Some tc \<Rightarrow> Inr (own_time (mq_agentID mq) (bidContainer tc)))"

text \<open>\<open>getUnassignedTasks\<close> with the condition as the code has it.\<close>

definition getUnassignedTasks :: "'v MasterTaskQueue \<Rightarrow> TaskKey list" where
  "getUnassignedTasks mq = filter (\<lambda>key. map_of (awardedTasks mq) key = None
     \<and> \<not> (map_of (tasksStarted mq) key = None \<or> map_of (tasksAborted mq) key = None
          \<or> map_of (tasksCompleted mq) key = None)) (map fst (taskData mq))"

fun add_tasks :: "TaskKey list \<Rightarrow> 'v AssignmentTaskQueue \<Rightarrow> 'v AssignmentTaskQueue" where
  "add_tasks [] q = q"
| "add_tasks (k # ks) q = add_tasks ks (AddTask k None q)"

definition getBelievedAssignedTasks ::
  "u64 \<Rightarrow> 'v MasterTaskQueue \<Rightarrow> 'v AssignmentTaskQueue \<times> bool" where
  "getBelievedAssignedTasks agent mq =
     (if agent = mq_agentID mq then (assignedQueue mq, True)
      else case map_of (knownAgentBids mq) agent of
             None \<Rightarrow> (AssignmentTaskQueue_new, False)
           | Some m \<Rightarrow> (add_tasks (map (taskKey \<circ> snd) m) AssignmentTaskQueue_new, True))"

section \<open>Broadcasts\<close>

definition broadcast_same :: "BidDescriptor \<Rightarrow> BidDescriptor \<Rightarrow> bool" where
  "broadcast_same a b \<longleftrightarrow> generationTime a = generationTime b \<and> bid_eq a b"

definition insert_bid_broadcast ::
  "BidDescriptor \<Rightarrow> etime \<Rightarrow> 'v MasterTaskQueue \<Rightarrow> 'v MasterTaskQueue" where
  "insert_bid_broadcast b t mq =
     (if list_ex (\<lambda>e. broadcast_same (fst e) b) (bidsToBroadcast mq) then mq
      else mq\<lparr>bidsToBroadcast := bidsToBroadcast mq @ [(b, t)]\<rparr>)"

definition insert_scrub_broadcast :: "ScrubMessage \<Rightarrow> 'v MasterTaskQueue \<Rightarrow> 'v MasterTaskQueue" where
  "insert_scrub_broadcast m mq =
     (if list_ex (scrub_eq m) (scrubMessagesToBroadcast mq) then mq
      else mq\<lparr>scrubMessagesToBroadcast := scrubMessagesToBroadcast mq @ [m]\<rparr>)"

definition ClearBidsToBroadcast :: "'v MasterTaskQueue \<Rightarrow> 'v MasterTaskQueue" where
  "ClearBidsToBroadcast mq = mq\<lparr>bidsToBroadcast := []\<rparr>"

definition ClearScrubMessagesToBroadcast :: "'v MasterTaskQueue \<Rightarrow> 'v MasterTaskQueue" where
  "ClearScrubMessagesToBroadcast mq = mq\<lparr>scrubMessagesToBroadcast := []\<rparr>"

section \<open>Invalidation\<close>

definition track_invalidation :: "etime \<Rightarrow> TaskKey \<Rightarrow> 'v MasterTaskQueue \<Rightarrow> 'v MasterTaskQueue" where
  "track_invalidation clock key mq =
     (case auctionStats mq of None \<Rightarrow> mq
      | Some st \<Rightarrow> mq\<lparr>auctionStats := Some (TrackInvalidation clock key st)\<rparr>)"

definition track_assignment ::
  "etime \<Rightarrow> TaskKey \<Rightarrow> u64 \<Rightarrow> dbl \<Rightarrow> 'v MasterTaskQueue \<Rightarrow> 'v MasterTaskQueue" where
  "track_assignment clock key agent u mq =
     (case auctionStats mq of None \<Rightarrow> mq
      | Some st \<Rightarrow> mq\<lparr>auctionStats := Some (TrackAssignment clock key agent u st)\<rparr>)"

text \<open>The position of the first entry that equals a bid.\<close>

fun find_bid :: "BidDescriptor \<Rightarrow> agent_bids \<Rightarrow> nat option" where
  "find_bid b [] = None"
| "find_bid b (e # m) = (if bid_eq (snd e) b then Some 0 else map_option Suc (find_bid b m))"

text \<open>One turn of the erasing loop of \<open>InvalidateBids\<close>, on a bid whose container was found.\<close>

definition invalidate_one ::
  "etime \<Rightarrow> BidDescriptor \<Rightarrow> TaskContainer \<Rightarrow> 'v MasterTaskQueue \<Rightarrow> 'v MasterTaskQueue" where
  "invalidate_one clock bid tc mq =
     (let key = taskKey bid; bc = bidContainer tc;
          mq = (if bc_valid bc \<and> bid_eq (leadingBid bc) bid
                then (put_container key (tc\<lparr>bidContainer := InvalidateBid bc\<rparr>) mq)
                       \<lparr>awardedTasks := um_erase key (awardedTasks mq)\<rparr>
                else mq);
          mq = mq\<lparr>awardedTasks := um_erase key (awardedTasks mq)\<rparr>;
          mq = (if addressable tc
                then mq\<lparr>availableTasks := Available_AddTask key (tc_priority tc) (availableTasks mq)\<rparr>
                else mq)
      in track_invalidation clock key mq)"

text \<open>The loop: \<open>kept\<close> are the agent's bids before the iterator, which is at the head of the list.\<close>

fun invalidate_loop ::
  "etime \<Rightarrow> u64 \<Rightarrow> agent_bids \<Rightarrow> agent_bids \<Rightarrow> 'v MasterTaskQueue \<Rightarrow> ('v MasterTaskQueue, unit) outcome"
where
  "invalidate_loop clock agent kept [] mq = (mq, Inr ())"
| "invalidate_loop clock agent kept (e # rest) mq =
     (case map_of (taskData mq) (taskKey (snd e)) of
        None \<Rightarrow> (mq, Inl Out_Of_Range)
      | Some tc \<Rightarrow>
          let mq = invalidate_one clock (snd e) tc mq;
              mq = mq\<lparr>knownAgentBids := um_put agent (kept @ rest) (knownAgentBids mq)\<rparr>
          in invalidate_loop clock agent kept rest mq)"

definition InvalidateBids ::
  "etime \<Rightarrow> BidDescriptor \<Rightarrow> 'v MasterTaskQueue \<Rightarrow> ('v MasterTaskQueue, unit) outcome" where
  "InvalidateBids clock startBid mq =
     (case map_of (knownAgentBids mq) (agentID startBid) of
        None \<Rightarrow> (mq, Inr ())
      | Some m \<Rightarrow>
          let lower = mm_lower_bound time_lt (generationTime startBid) m;
              upper = mm_upper_bound time_lt (generationTime startBid) m
          in case find_bid startBid (take (upper - lower) (drop lower m)) of
               None \<Rightarrow> (mq, Inr ())
             | Some i \<Rightarrow>
                 let mq = (if agentID startBid = mq_agentID mq
                           then mq\<lparr>assignedQueue := RemoveTasksAfter (taskKey startBid) (assignedQueue mq)\<rparr>
                           else mq)
                 in invalidate_loop clock (agentID startBid) (take (lower + i) m) (drop (lower + i) m) mq)"

section \<open>Receiving bids and scrubs\<close>

text \<open>What follows the decision of the bid container: what is to be broadcast.\<close>

definition note_broadcast ::
  "ReceiveAction \<Rightarrow> BidDescriptor \<Rightarrow> BidDescriptor \<Rightarrow> TaskKey \<Rightarrow> etime \<Rightarrow> 'v MasterTaskQueue
     \<Rightarrow> 'v MasterTaskQueue" where
  "note_broadcast act prev bid key timestamp mq = (case act of
     BroadcastLocal \<Rightarrow> insert_bid_broadcast prev timestamp mq
   | BroadcastReceived \<Rightarrow> insert_bid_broadcast bid timestamp mq
   | BroadcastScrub \<Rightarrow> insert_scrub_broadcast
       \<lparr>scrub_agentID = mq_agentID mq, scrub_taskKey = key, scrub_timestamp = timestamp\<rparr> mq
   | ActionNone \<Rightarrow> mq)"

text \<open>The award of a task to the sender of the new leading bid.\<close>

definition award ::
  "etime \<Rightarrow> u64 \<Rightarrow> BidDescriptor \<Rightarrow> 'v option \<Rightarrow> 'v MasterTaskQueue \<Rightarrow> 'v MasterTaskQueue" where
  "award clock sender bid st mq =
     (let key = taskKey bid;
          params = \<lparr>awd_taskKey = key, awardedAgentID = sender, awd_consensusReached = False\<rparr>;
          mq = mq\<lparr>awardedTasks := um_insert key params (um_erase key (awardedTasks mq))\<rparr>;
          mq = (if sender = mq_agentID mq
                then mq\<lparr>assignedQueue := AddTask key st (assignedQueue mq),
                        availableTasks := Available_RemoveTask key (availableTasks mq)\<rparr>
                else mq);
          mq = (if map_of (knownAgentBids mq) (agentID bid) = None
                then mq\<lparr>knownAgentBids := um_insert (agentID bid) [] (knownAgentBids mq)\<rparr> else mq);
          m = (case map_of (knownAgentBids mq) (agentID bid) of Some m \<Rightarrow> m | None \<Rightarrow> []);
          mq = mq\<lparr>knownAgentBids := um_put (agentID bid)
                    (mm_insert time_lt (generationTime bid) bid m) (knownAgentBids mq)\<rparr>
      in track_assignment clock key sender (utility bid) mq)"

definition Master_ReceiveBid ::
  "etime \<Rightarrow> u64 \<Rightarrow> etime \<Rightarrow> BidDescriptor \<Rightarrow> 'v option \<Rightarrow> 'v MasterTaskQueue
     \<Rightarrow> ('v MasterTaskQueue, bool) outcome" where
  "Master_ReceiveBid clock sender senderTimestamp bid st mq =
     (case map_of (taskData mq) (taskKey bid) of
        None \<Rightarrow> (mq, Inl Out_Of_Range)
      | Some tc \<Rightarrow>
          if consensusReached tc then (mq, Inr False)
          else let hadPrevBid = bc_valid (bidContainer tc);
                   prevLeadingBid = leadingBid (bidContainer tc);
                   (bc, newLeader, act) = ReceiveBid clock sender senderTimestamp bid (bidContainer tc);
                   mq = put_container (taskKey bid) (tc\<lparr>bidContainer := bc\<rparr>) mq;
                   act = (if \<not> hadPrevBid \<and> act = BroadcastLocal then BroadcastScrub else act);
                   timestamp = own_time (mq_agentID mq) bc;
                   mq = note_broadcast act prevLeadingBid bid (taskKey bid) timestamp mq
               in obind (if hadPrevBid \<and> (newLeader \<or> act = BroadcastScrub)
                         then InvalidateBids clock prevLeadingBid mq else (mq, Inr ()))
                    (\<lambda>mq u. (if newLeader then award clock sender bid st mq else mq, Inr newLeader)))"

text \<open>
  \<open>AddBidBundle\<close>: the loop receives the bids of the bundle until one is not a new leader.
\<close>

fun receive_bundle ::
  "etime \<Rightarrow> u64 \<Rightarrow> 'v BundledBidDescriptor list \<Rightarrow> bool \<Rightarrow> 'v MasterTaskQueue
     \<Rightarrow> ('v MasterTaskQueue, bool) outcome" where
  "receive_bundle clock agent [] newLeaders mq = (mq, Inr newLeaders)"
| "receive_bundle clock agent (e # es) newLeaders mq =
     obind (Master_ReceiveBid clock agent (generationTime (descriptor e)) (descriptor e) (finalState e) mq)
       (\<lambda>mq leader. if \<not> leader then (mq, Inr newLeaders) else receive_bundle clock agent es True mq)"

definition AddBidBundle ::
  "etime \<Rightarrow> 'v BidBundle \<Rightarrow> 'v MasterTaskQueue \<Rightarrow> ('v MasterTaskQueue, bool) outcome" where
  "AddBidBundle clock bb mq =
     (let agent = bundle_agentID bb;
          mq = (if map_of (knownAgentBids mq) agent = None
                then mq\<lparr>knownAgentBids := um_insert agent [] (knownAgentBids mq)\<rparr> else mq)
      in receive_bundle clock agent (bundle_items bb) False mq)"

text \<open>
  \<open>ReceiveScrubMessage\<close> calls the container's \<open>ReceiveScrub\<close> twice: the result of the first call is
  not used, the time stamp is read between the calls, the result of the second decides.
\<close>

definition Master_ReceiveScrub ::
  "etime \<Rightarrow> ScrubMessage \<Rightarrow> 'v MasterTaskQueue \<Rightarrow> ('v MasterTaskQueue, unit) outcome" where
  "Master_ReceiveScrub clock scrub mq =
     (case map_of (taskData mq) (scrub_taskKey scrub) of
        None \<Rightarrow> (mq, Inl Out_Of_Range)
      | Some tc \<Rightarrow>
          let hadPrevBid = bc_valid (bidContainer tc);
              prevBid = leadingBid (bidContainer tc);
              (bc, _) = ReceiveScrub clock scrub (bidContainer tc);
              timestamp = own_time (mq_agentID mq) bc;
              (bc, act) = ReceiveScrub clock scrub bc;
              mq = put_container (scrub_taskKey scrub) (tc\<lparr>bidContainer := bc\<rparr>) mq
          in obind
               (case act of
                  ActionNone \<Rightarrow> (mq, Inr ())
                | BroadcastLocal \<Rightarrow> (insert_bid_broadcast (leadingBid bc) timestamp mq, Inr ())
                | BroadcastScrub \<Rightarrow> (insert_scrub_broadcast \<lparr>scrub_agentID = mq_agentID mq,
                    scrub_taskKey = scrub_taskKey scrub, scrub_timestamp = timestamp\<rparr> mq, Inr ())
                | BroadcastReceived \<Rightarrow> (mq, Inl (Runtime_Error
                    ''Rebroadcast received action requested when receiving a scrub message'')))
               (\<lambda>mq u. if hadPrevBid \<and> \<not> bc_valid bc then InvalidateBids clock prevBid mq
                       else (mq, Inr ())))"

section \<open>Started, completed and aborted tasks\<close>

text \<open>
  The block shared by \<open>setTaskCompleted\<close>, \<open>setTaskStarted\<close> and \<open>setTaskAborted\<close> for a task with a
  leading bid: whether the message is to be rebroadcast.
\<close>

definition settle_leader ::
  "etime \<Rightarrow> TaskKey \<Rightarrow> u64 \<Rightarrow> TaskContainer \<Rightarrow> 'v MasterTaskQueue \<Rightarrow> ('v MasterTaskQueue, bool) outcome"
where
  "settle_leader clock key agent tc mq =
     (case map_of (awardedTasks mq) key of
        None \<Rightarrow> (mq, Inl Out_Of_Range)
      | Some params \<Rightarrow>
          let leading = leadingBid (bidContainer tc)
          in if awardedAgentID params = agent
             then (case map_of (knownAgentBids mq) agent of
                     None \<Rightarrow> (mq, Inl Out_Of_Range)
                   | Some m \<Rightarrow>
                       let i = mm_find time_lt (generationTime leading) m
                       in case find_bid leading (drop i m) of
                            None \<Rightarrow> (mq, Inr False)
                          | Some j \<Rightarrow> (mq\<lparr>knownAgentBids := um_put agent
                                (take (i + j) m @ drop (Suc (i + j)) m) (knownAgentBids mq)\<rparr>, Inr False))
             else obind (InvalidateBids clock leading mq) (\<lambda>mq u. (mq, Inr True)))"

text \<open>Consensus on the task, by the reference to its container.\<close>

definition set_consensus :: "TaskKey \<Rightarrow> 'v MasterTaskQueue \<Rightarrow> 'v MasterTaskQueue" where
  "set_consensus key mq = (case map_of (taskData mq) key of None \<Rightarrow> mq
     | Some tc \<Rightarrow> put_container key (tc\<lparr>consensusReached := True\<rparr>) mq)"

definition release_task :: "TaskKey \<Rightarrow> 'v MasterTaskQueue \<Rightarrow> 'v MasterTaskQueue" where
  "release_task key mq = mq\<lparr>availableTasks := Available_RemoveTask key (availableTasks mq),
     awardedTasks := um_erase key (awardedTasks mq)\<rparr>"

definition learn_task :: "etime \<Rightarrow> TaskKey \<Rightarrow> TaskKey \<Rightarrow> 'v MasterTaskQueue \<Rightarrow> 'v MasterTaskQueue" where
  "learn_task clock uninit key mq = mq\<lparr>taskData := um_insert key
     (TaskContainer_new clock uninit (mq_agentID mq) key False 0) (taskData mq)\<rparr>"

definition setTaskCompleted ::
  "etime \<Rightarrow> TaskKey \<Rightarrow> TaskKey \<Rightarrow> u64 \<Rightarrow> 'v MasterTaskQueue \<Rightarrow> ('v MasterTaskQueue, bool) outcome"
where
  "setTaskCompleted clock uninit key agent mq =
     (if map_of (tasksCompleted mq) key \<noteq> None then (mq, Inr False)
      else if map_of (tasksAborted mq) key \<noteq> None then (mq, Inr False)
      else if map_of (taskData mq) key = None
      then (let mq = learn_task clock uninit key mq
            in mq\<lparr>tasksCompleted := um_insert key agent (tasksCompleted mq)\<rparr>, Inr False)
      else let mq = set_consensus key mq
           in obind (case map_of (taskData mq) key of None \<Rightarrow> (mq, Inl Out_Of_Range)
                     | Some tc \<Rightarrow>
                         if HasLeadingBid key mq \<and> map_of (tasksStarted mq) key = None
                         then settle_leader clock key agent tc mq else (mq, Inr True))
                (\<lambda>mq rebroadcast.
                   let mq = release_task key mq; mq = set_consensus key mq
                   in (mq\<lparr>tasksCompleted := um_insert key agent (tasksCompleted mq),
                          tasksStarted := um_erase key (tasksStarted mq)\<rparr>, Inr rebroadcast)))"

definition setTaskStarted ::
  "etime \<Rightarrow> TaskKey \<Rightarrow> TaskKey \<Rightarrow> u64 \<Rightarrow> 'v MasterTaskQueue \<Rightarrow> ('v MasterTaskQueue, bool) outcome"
where
  "setTaskStarted clock uninit key agent mq =
     (if map_of (tasksStarted mq) key \<noteq> None then (mq, Inr False)
      else if map_of (tasksAborted mq) key \<noteq> None then (mq, Inr False)
      else if map_of (tasksCompleted mq) key \<noteq> None then (mq, Inr False)
      else if map_of (taskData mq) key = None
      then (let mq = learn_task clock uninit key mq
            in mq\<lparr>tasksStarted := um_insert key agent (tasksStarted mq)\<rparr>, Inr False)
      else let mq = set_consensus key mq
           in obind (case map_of (taskData mq) key of None \<Rightarrow> (mq, Inl Out_Of_Range)
                     | Some tc \<Rightarrow>
                         if HasLeadingBid key mq
                         then settle_leader clock key agent tc mq else (mq, Inr True))
                (\<lambda>mq rebroadcast.
                   let mq = release_task key mq; mq = set_consensus key mq
                   in (mq\<lparr>tasksStarted := um_insert key agent (tasksStarted mq)\<rparr>, Inr rebroadcast)))"

text \<open>At its end \<open>setTaskAborted\<close> enters the task among the started ones.\<close>

definition setTaskAborted ::
  "etime \<Rightarrow> TaskKey \<Rightarrow> TaskKey \<Rightarrow> u64 \<Rightarrow> 'v MasterTaskQueue \<Rightarrow> ('v MasterTaskQueue, bool) outcome"
where
  "setTaskAborted clock uninit key agent mq =
     (if map_of (tasksAborted mq) key \<noteq> None then (mq, Inr False)
      else if map_of (tasksCompleted mq) key \<noteq> None then (mq, Inr False)
      else if map_of (taskData mq) key = None
      then (let mq = learn_task clock uninit key mq
            in mq\<lparr>tasksAborted := um_insert key agent (tasksAborted mq)\<rparr>, Inr False)
      else let mq = set_consensus key mq
           in obind (case map_of (taskData mq) key of None \<Rightarrow> (mq, Inl Out_Of_Range)
                     | Some tc \<Rightarrow>
                         if HasLeadingBid key mq \<and> map_of (tasksStarted mq) key = None
                         then settle_leader clock key agent tc mq else (mq, Inr True))
                (\<lambda>mq rebroadcast.
                   let mq = mq\<lparr>tasksStarted := um_erase key (tasksStarted mq)\<rparr>;
                       mq = release_task key mq; mq = set_consensus key mq
                   in (mq\<lparr>tasksStarted := um_insert key agent (tasksStarted mq)\<rparr>, Inr rebroadcast)))"

definition getTaskCompleted :: "TaskKey \<Rightarrow> 'v MasterTaskQueue \<Rightarrow> u64 option" where
  "getTaskCompleted key mq = map_of (tasksCompleted mq) key"

definition getTaskStarted :: "TaskKey \<Rightarrow> 'v MasterTaskQueue \<Rightarrow> u64 option" where
  "getTaskStarted key mq = map_of (tasksStarted mq) key"

definition getTaskAborted :: "TaskKey \<Rightarrow> 'v MasterTaskQueue \<Rightarrow> u64 option" where
  "getTaskAborted key mq = map_of (tasksAborted mq) key"

section \<open>The own tasks\<close>

text \<open>The task at the front of the own queue; the result is its key, if there was one.\<close>

definition CurrentTaskCompleted ::
  "etime \<Rightarrow> TaskKey \<Rightarrow> 'v MasterTaskQueue \<Rightarrow> ('v MasterTaskQueue, TaskKey option) outcome" where
  "CurrentTaskCompleted clock uninit mq =
     (case getCurrentTaskKey (assignedQueue mq) of
        None \<Rightarrow> (mq, Inr None)
      | Some key \<Rightarrow>
          let mq = mq\<lparr>assignedQueue := RemoveFront (assignedQueue mq)\<rparr>
          in obind (setTaskCompleted clock uninit key (mq_agentID mq) mq) (\<lambda>mq r. (mq, Inr (Some key))))"

definition AssignedTaskCompleted ::
  "etime \<Rightarrow> TaskKey \<Rightarrow> TaskKey \<Rightarrow> 'v MasterTaskQueue \<Rightarrow> ('v MasterTaskQueue, bool) outcome" where
  "AssignedTaskCompleted clock uninit key mq =
     (let (q, valid) = RemoveTask key (assignedQueue mq);
          mq = mq\<lparr>assignedQueue := q\<rparr>
      in if valid
         then obind (setTaskCompleted clock uninit key (mq_agentID mq) mq) (\<lambda>mq r. (mq, Inr True))
         else (mq, Inr False))"

definition CurrentTaskAborted ::
  "etime \<Rightarrow> TaskKey \<Rightarrow> 'v MasterTaskQueue \<Rightarrow> ('v MasterTaskQueue, TaskKey option) outcome" where
  "CurrentTaskAborted clock uninit mq =
     (case getCurrentTaskKey (assignedQueue mq) of
        None \<Rightarrow> (mq, Inr None)
      | Some key \<Rightarrow>
          let mq = mq\<lparr>assignedQueue := RemoveFront (assignedQueue mq)\<rparr>
          in obind (setTaskAborted clock uninit key (mq_agentID mq) mq) (\<lambda>mq r. (mq, Inr (Some key))))"

text \<open>\<open>AssignedTaskAborted\<close> calls \<open>setTaskCompleted\<close>.\<close>

definition AssignedTaskAborted ::
  "etime \<Rightarrow> TaskKey \<Rightarrow> TaskKey \<Rightarrow> 'v MasterTaskQueue \<Rightarrow> ('v MasterTaskQueue, bool) outcome" where
  "AssignedTaskAborted clock uninit key mq =
     (let (q, valid) = RemoveTask key (assignedQueue mq);
          mq = mq\<lparr>assignedQueue := q\<rparr>
      in if valid
         then obind (setTaskCompleted clock uninit key (mq_agentID mq) mq) (\<lambda>mq r. (mq, Inr True))
         else (mq, Inr False))"

definition CurrentTaskStarted ::
  "etime \<Rightarrow> TaskKey \<Rightarrow> 'v MasterTaskQueue \<Rightarrow> ('v MasterTaskQueue, TaskKey option) outcome" where
  "CurrentTaskStarted clock uninit mq =
     (case getCurrentTaskKey (assignedQueue mq) of
        None \<Rightarrow> (mq, Inr None)
      | Some key \<Rightarrow>
          let mq = (if firstNonConsensusIndex (assignedQueue mq) \<le> 0
                    then mq\<lparr>assignedQueue := (assignedQueue mq)\<lparr>firstNonConsensusIndex := 1\<rparr>\<rparr> else mq)
          in obind (setTaskStarted clock uninit key (mq_agentID mq) mq) (\<lambda>mq r. (mq, Inr (Some key))))"

definition AssignedTaskStarted ::
  "etime \<Rightarrow> TaskKey \<Rightarrow> TaskKey \<Rightarrow> 'v MasterTaskQueue \<Rightarrow> ('v MasterTaskQueue, bool) outcome" where
  "AssignedTaskStarted clock uninit key mq =
     (case Begin_NonConsensus (assignedQueue mq) of
        Inl e \<Rightarrow> (mq, Inl e)
      | Inr pos \<Rightarrow>
          (case find_task_from 0 key (drop pos (aq_tasks (assignedQueue mq))) of
             None \<Rightarrow> (mq, Inr False)
           | Some i \<Rightarrow>
               let q = assignedQueue mq;
                   mq = mq\<lparr>assignedQueue :=
                     q\<lparr>firstNonConsensusIndex := firstNonConsensusIndex q + int i\<rparr>\<rparr>
               in obind (setTaskStarted clock uninit key (mq_agentID mq) mq)
                    (\<lambda>mq r. (mq, Inr True))))"

end
