(* ===== verification/Master_Safety.thy ===== *)
theory Master_Safety
  imports Master_Queue
begin

text \<open>
  The consistency of the master task queue: what the maps of \<open>MasterTaskQueue\<close> say about each other,
  that every operation keeps it, and that therefore no lookup with \<open>at\<close> fails inside the operations
  (only a message about an unknown task throws).

  The invariant holds for bids that arrive from their own agent and that \<open>operator ==\<close> tells apart
  (\<open>distinguishable\<close>); the theorems at the end show what goes wrong otherwise.
\<close>

section \<open>The invariant\<close>

definition distinguishable :: "BidDescriptor set \<Rightarrow> bool" where
  "distinguishable B \<longleftrightarrow> (\<forall>a \<in> B. \<forall>b \<in> B. bid_eq a b \<longleftrightarrow> a = b)"

text \<open>The container of the bid's task has the bid as its valid leading bid.\<close>

definition leads :: "BidDescriptor \<Rightarrow> 'v MasterTaskQueue \<Rightarrow> bool" where
  "leads b mq \<longleftrightarrow> (\<exists>tc. map_of (taskData mq) (taskKey b) = Some tc
     \<and> bc_valid (bidContainer tc) \<and> leadingBid (bidContainer tc) = b)"

text \<open>
  The known bids of an agent are its own, sorted by generation time, without duplicates, for known
  tasks, and each (but those in \<open>X\<close>) leads its task.
\<close>

definition agent_bids_inv ::
  "BidDescriptor set \<Rightarrow> BidDescriptor set \<Rightarrow> 'v MasterTaskQueue \<Rightarrow> u64 \<Rightarrow> agent_bids \<Rightarrow> bool" where
  "agent_bids_inv B X mq a m \<longleftrightarrow> mm_ok time_lt m \<and> distinct (map snd m)
     \<and> (\<forall>e \<in> set m. fst e = generationTime (snd e) \<and> agentID (snd e) = a \<and> snd e \<in> B
          \<and> map_of (taskData mq) (taskKey (snd e)) \<noteq> None \<and> (snd e \<notin> X \<longrightarrow> leads (snd e) mq))"

definition known_inv :: "BidDescriptor set \<Rightarrow> BidDescriptor set \<Rightarrow> 'v MasterTaskQueue \<Rightarrow> bool" where
  "known_inv B X mq \<longleftrightarrow>
     (\<forall>a m. map_of (knownAgentBids mq) a = Some m \<longrightarrow> agent_bids_inv B X mq a m)"

text \<open>The containers belong to the agent and lead with bids for their task.\<close>

definition container_inv :: "BidDescriptor set \<Rightarrow> 'v MasterTaskQueue \<Rightarrow> bool" where
  "container_inv B mq \<longleftrightarrow> (\<forall>k tc. map_of (taskData mq) k = Some tc \<longrightarrow>
     bc_agentID (bidContainer tc) = mq_agentID mq
     \<and> (bc_valid (bidContainer tc) \<longrightarrow> leadingBid (bidContainer tc) \<in> B
          \<and> taskKey (leadingBid (bidContainer tc)) = k))"

text \<open>
  A task (outside \<open>K\<close>) with a leader that was neither started nor completed is awarded to the
  leading agent, whose bids are kept.
\<close>

definition award_inv :: "TaskKey set \<Rightarrow> 'v MasterTaskQueue \<Rightarrow> bool" where
  "award_inv K mq \<longleftrightarrow> (\<forall>k tc. k \<notin> K \<and> map_of (taskData mq) k = Some tc
     \<and> bc_valid (bidContainer tc) \<and> map_of (tasksStarted mq) k = None
     \<and> map_of (tasksCompleted mq) k = None \<longrightarrow>
     (\<exists>p. map_of (awardedTasks mq) k = Some p
        \<and> awardedAgentID p = agentID (leadingBid (bidContainer tc))
        \<and> map_of (knownAgentBids mq) (awardedAgentID p) \<noteq> None))"

definition master_inv :: "BidDescriptor set \<Rightarrow> 'v MasterTaskQueue \<Rightarrow> bool" where
  "master_inv B mq \<longleftrightarrow> known_inv B {} mq \<and> container_inv B mq \<and> award_inv {} mq"

lemma distinguishableD: "distinguishable B \<Longrightarrow> a \<in> B \<Longrightarrow> b \<in> B \<Longrightarrow> bid_eq a b \<longleftrightarrow> a = b"
  by (simp add: distinguishable_def)

lemma leads_unique: "leads a mq \<Longrightarrow> leads b mq \<Longrightarrow> taskKey a = taskKey b \<Longrightarrow> a = b"
  unfolding leads_def by (metis option.inject)

text \<open>The invariant speaks about some of the fields only.\<close>

definition same_view :: "'v MasterTaskQueue \<Rightarrow> 'v MasterTaskQueue \<Rightarrow> bool" where
  "same_view mq mq' \<longleftrightarrow> mq_agentID mq' = mq_agentID mq \<and> taskData mq' = taskData mq
     \<and> awardedTasks mq' = awardedTasks mq \<and> knownAgentBids mq' = knownAgentBids mq
     \<and> tasksStarted mq' = tasksStarted mq \<and> tasksCompleted mq' = tasksCompleted mq"

lemma same_view_leads: "same_view mq mq' \<Longrightarrow> leads b mq' = leads b mq"
  by (simp only: same_view_def leads_def)

lemma same_view_known: "same_view mq mq' \<Longrightarrow> known_inv B X mq' = known_inv B X mq"
  unfolding known_inv_def agent_bids_inv_def
  by (simp only: same_view_leads) (simp only: same_view_def)

lemma same_view_container: "same_view mq mq' \<Longrightarrow> container_inv B mq' = container_inv B mq"
  by (simp only: same_view_def container_inv_def)

lemma same_view_award: "same_view mq mq' \<Longrightarrow> award_inv K mq' = award_inv K mq"
  by (simp only: same_view_def award_inv_def)

lemmas same_view_inv = same_view_known same_view_container same_view_award same_view_leads

lemma same_view_broadcast [simp]:
  "same_view mq (insert_bid_broadcast b t mq)" "same_view mq (insert_scrub_broadcast m mq)"
  "same_view mq (note_broadcast act prev b k ts mq)"
  by (simp_all add: same_view_def insert_bid_broadcast_def insert_scrub_broadcast_def
      note_broadcast_def split: ReceiveAction.split)

lemma same_view_track [simp]:
  "same_view mq (track_invalidation clock k mq)" "same_view mq (track_assignment clock k a u mq)"
  by (simp_all add: same_view_def track_invalidation_def track_assignment_def split: option.split)

lemma same_view_update [simp]:
  "same_view mq (mq\<lparr>assignedQueue := q\<rparr>)" "same_view mq (mq\<lparr>availableTasks := v\<rparr>)"
  by (simp_all add: same_view_def)

lemma same_view_trans: "same_view a b \<Longrightarrow> same_view b c \<Longrightarrow> same_view a c"
  by (simp add: same_view_def)

lemma agent_bids_agent: "agent_bids_inv B X mq a m \<Longrightarrow> e \<in> set m \<Longrightarrow> agentID (snd e) = a"
  by (simp add: agent_bids_inv_def)

lemma agent_bids_B: "agent_bids_inv B X mq a m \<Longrightarrow> snd ` set m \<subseteq> B"
  by (auto simp: agent_bids_inv_def)

section \<open>Finding a bid among the known ones\<close>

lemma find_bid_Some:
  "find_bid b m = Some i \<Longrightarrow> i < length m \<and> bid_eq (snd (m ! i)) b"
  by (induction b m arbitrary: i rule: find_bid.induct) (auto split: if_splits)

lemma find_bid_None: "find_bid b m = None \<longleftrightarrow> (\<forall>e \<in> set m. \<not> bid_eq (snd e) b)"
  by (induction b m rule: find_bid.induct) auto

lemma find_bid_exact:
  assumes "distinguishable B" "b \<in> B" "snd ` set m \<subseteq> B"
  shows "case find_bid b m of None \<Rightarrow> b \<notin> snd ` set m
     | Some i \<Rightarrow> i < length m \<and> snd (m ! i) = b"
proof (cases "find_bid b m")
  case None
  then have "\<forall>e \<in> set m. \<not> bid_eq (snd e) b" by (simp add: find_bid_None)
  then have "b \<notin> snd ` set m" using distinguishableD [OF assms(1,2,2)] by auto
  then show ?thesis using None by simp
next
  case (Some i)
  then have "i < length m \<and> bid_eq (snd (m ! i)) b" by (rule find_bid_Some)
  moreover from this have "snd (m ! i) \<in> B" using assms(3) nth_mem by blast
  ultimately show ?thesis using Some distinguishableD [OF assms(1) _ assms(2)] by simp
qed

lemma mm_ok_nth: "mm_ok time_lt m \<Longrightarrow> q \<le> p \<Longrightarrow> p < length m \<Longrightarrow> \<not> time_lt (fst (m ! p)) (fst (m ! q))"
  by (cases "q = p") (auto simp: mm_ok_def sorted_wrt_iff_nth_less)

text \<open>An entry of a sorted map lies in the range its key searches.\<close>

lemma entry_in_range:
  assumes "mm_ok time_lt m" "p < length m" "fst (m ! p) = t"
  shows "mm_lower_bound time_lt t m \<le> p" "p < mm_upper_bound time_lt t m"
proof -
  show "mm_lower_bound time_lt t m \<le> p"
    using less_length_takeWhile [of p "\<lambda>e. time_lt (fst e) t" m] assms(3)
    by (force simp: mm_lower_bound_def not_less [symmetric])
  show "p < mm_upper_bound time_lt t m"
    using mm_ok_nth [OF assms(1) _ assms(2)] assms(2,3)
    by (simp add: mm_upper_bound_def less_length_takeWhile)
qed

text \<open>The search of \<open>InvalidateBids\<close>: it finds a bid exactly when it is among the known ones.\<close>

lemma range_search:
  assumes "distinguishable B" "b \<in> B" "mm_ok time_lt m" "snd ` set m \<subseteq> B"
    "\<forall>e \<in> set m. fst e = generationTime (snd e)"
  defines "l \<equiv> mm_lower_bound time_lt (generationTime b) m"
    and "u \<equiv> mm_upper_bound time_lt (generationTime b) m"
  shows "case find_bid b (take (u - l) (drop l m)) of None \<Rightarrow> b \<notin> snd ` set m
     | Some i \<Rightarrow> l + i < length m \<and> snd (m ! (l + i)) = b"
proof -
  let ?r = "take (u - l) (drop l m)"
  have sub: "set ?r \<subseteq> set m" by (meson set_drop_subset set_take_subset subset_trans)
  then have B: "snd ` set ?r \<subseteq> B" using assms(4) by blast
  note f = find_bid_exact [OF assms(1,2) B]
  show ?thesis
  proof (cases "find_bid b ?r")
    case None
    have "b \<notin> snd ` set m"
    proof
      assume "b \<in> snd ` set m"
      then obtain p where p: "p < length m" "snd (m ! p) = b" by (auto simp: in_set_conv_nth)
      then have "fst (m ! p) = generationTime b" using assms(5) nth_mem by metis
      then have "l \<le> p" "p < u" using entry_in_range [OF assms(3) p(1)] by (auto simp: l_def u_def)
      then have "?r ! (p - l) = m ! p" "p - l < length ?r" using p(1) by auto
      then have "b \<in> snd ` set ?r" using p(2) by (metis image_eqI nth_mem)
      then show False using f None by simp
    qed
    then show ?thesis using None by simp
  next
    case (Some i)
    then have "i < length ?r \<and> snd (?r ! i) = b" using f by (simp only: option.case)
    then have "i < length ?r" "snd (?r ! i) = b" by blast+
    then have "m ! (l + i) = ?r ! i" "l + i < length m" by auto
    with \<open>snd (?r ! i) = b\<close> Some show ?thesis by (simp only: option.case)
  qed
qed

text \<open>The search of \<open>settle_leader\<close>, from the first entry with the time.\<close>

lemma tail_search:
  assumes "distinguishable B" "b \<in> B" "mm_ok time_lt m" "snd ` set m \<subseteq> B"
    "\<forall>e \<in> set m. fst e = generationTime (snd e)"
  defines "i \<equiv> mm_find time_lt (generationTime b) m"
  shows "case find_bid b (drop i m) of None \<Rightarrow> b \<notin> snd ` set m
     | Some j \<Rightarrow> i + j < length m \<and> snd (m ! (i + j)) = b"
proof -
  have "set (drop i m) \<subseteq> set m" by (rule set_drop_subset)
  then have B: "snd ` set (drop i m) \<subseteq> B" using assms(4) by blast
  note f = find_bid_exact [OF assms(1,2) B]
  show ?thesis
  proof (cases "find_bid b (drop i m)")
    case None
    have "b \<notin> snd ` set m"
    proof
      assume "b \<in> snd ` set m"
      then obtain p where p: "p < length m" "snd (m ! p) = b" by (auto simp: in_set_conv_nth)
      then have t: "fst (m ! p) = generationTime b" using assms(5) nth_mem by metis
      define l where "l = mm_lower_bound time_lt (generationTime b) m"
      have "l \<le> p" using entry_in_range(1) [OF assms(3) p(1) t] by (simp add: l_def)
      moreover have "\<not> time_lt (generationTime b) (fst (m ! l))"
        using mm_ok_nth [OF assms(3) _ p(1)] t \<open>l \<le> p\<close> by metis
      ultimately have "i = l" using p(1) by (simp add: i_def mm_find_def l_def Let_def)
      then have "drop i m ! (p - i) = m ! p" "p - i < length (drop i m)"
        using p(1) \<open>l \<le> p\<close> by auto
      then have "b \<in> snd ` set (drop i m)" using p(2) by (metis image_eqI nth_mem)
      then show False using f None by simp
    qed
    then show ?thesis using None by simp
  next
    case (Some j)
    then show ?thesis using f by auto
  qed
qed

section \<open>Invalidation\<close>

text \<open>Containers that lead with a bid of \<open>S\<close> may have become invalid; nothing else changed.\<close>

definition only_invalidates :: "BidDescriptor set \<Rightarrow> 'v MasterTaskQueue \<Rightarrow> 'v MasterTaskQueue \<Rightarrow> bool" where
  "only_invalidates S mq mq' \<longleftrightarrow> mq_agentID mq' = mq_agentID mq
     \<and> tasksStarted mq' = tasksStarted mq \<and> tasksCompleted mq' = tasksCompleted mq
     \<and> (\<forall>k. map_of (taskData mq') k = map_of (taskData mq) k
          \<or> (\<exists>tc. map_of (taskData mq) k = Some tc \<and> bc_valid (bidContainer tc)
               \<and> leadingBid (bidContainer tc) \<in> S
               \<and> map_of (taskData mq') k = Some (tc\<lparr>bidContainer := InvalidateBid (bidContainer tc)\<rparr>)))"

lemma only_invalidates_refl [simp]: "only_invalidates S mq mq"
  by (simp add: only_invalidates_def)

lemma only_invalidates_cases:
  assumes "only_invalidates S mq mq'" "map_of (taskData mq') k = Some tc'"
  obtains "map_of (taskData mq) k = Some tc'"
  | tc where "map_of (taskData mq) k = Some tc" "bc_valid (bidContainer tc)"
      "leadingBid (bidContainer tc) \<in> S" "tc' = tc\<lparr>bidContainer := InvalidateBid (bidContainer tc)\<rparr>"
proof -
  have "map_of (taskData mq') k = map_of (taskData mq) k
      \<or> (\<exists>tc. map_of (taskData mq) k = Some tc \<and> bc_valid (bidContainer tc)
           \<and> leadingBid (bidContainer tc) \<in> S
           \<and> map_of (taskData mq') k = Some (tc\<lparr>bidContainer := InvalidateBid (bidContainer tc)\<rparr>))"
    using assms(1) unfolding only_invalidates_def by blast
  then show thesis using assms(2) that by auto
qed

lemma only_invalidates_dom:
  assumes "only_invalidates S mq mq'"
  shows "map_of (taskData mq') k = None \<longleftrightarrow> map_of (taskData mq) k = None"
proof -
  have "map_of (taskData mq') k = map_of (taskData mq) k
      \<or> (\<exists>tc. map_of (taskData mq) k = Some tc
           \<and> map_of (taskData mq') k = Some (tc\<lparr>bidContainer := InvalidateBid (bidContainer tc)\<rparr>))"
    using assms unfolding only_invalidates_def by blast
  then show ?thesis by auto
qed

lemma only_invalidates_leads:
  assumes "only_invalidates S mq mq'" "b \<notin> S"
  shows "leads b mq' = leads b mq"
proof
  assume "leads b mq'"
  then obtain tc' where tc': "map_of (taskData mq') (taskKey b) = Some tc'"
    "bc_valid (bidContainer tc')" "leadingBid (bidContainer tc') = b" unfolding leads_def by blast
  have "map_of (taskData mq) (taskKey b) = Some tc'"
    by (rule only_invalidates_cases [OF assms(1) tc'(1)]) (use tc'(2) in simp_all)
  then show "leads b mq" using tc' unfolding leads_def by blast
next
  assume "leads b mq"
  then obtain tc where tc: "map_of (taskData mq) (taskKey b) = Some tc" "bc_valid (bidContainer tc)"
    "leadingBid (bidContainer tc) = b" unfolding leads_def by blast
  then obtain tc' where tc': "map_of (taskData mq') (taskKey b) = Some tc'"
    using only_invalidates_dom [OF assms(1), of "taskKey b"] by auto
  have "tc' = tc" by (rule only_invalidates_cases [OF assms(1) tc']) (use tc assms(2) in auto)
  then show "leads b mq'" using tc tc' unfolding leads_def by blast
qed

lemma only_invalidates_trans:
  assumes "only_invalidates S a b" "only_invalidates T b c"
  shows "only_invalidates (S \<union> T) a c"
proof -
  have "map_of (taskData c) k = map_of (taskData a) k
      \<or> (\<exists>tc. map_of (taskData a) k = Some tc \<and> bc_valid (bidContainer tc)
           \<and> leadingBid (bidContainer tc) \<in> S \<union> T
           \<and> map_of (taskData c) k = Some (tc\<lparr>bidContainer := InvalidateBid (bidContainer tc)\<rparr>))" for k
  proof (cases "map_of (taskData c) k")
    case None
    then show ?thesis
      using only_invalidates_dom [OF assms(1)] only_invalidates_dom [OF assms(2)] by metis
  next
    case (Some tc2)
    show ?thesis
    proof (rule only_invalidates_cases [OF assms(2) Some])
      assume b: "map_of (taskData b) k = Some tc2"
      show ?thesis
        by (rule only_invalidates_cases [OF assms(1) b]) (use Some in auto)
    next
      fix tc1
      assume b: "map_of (taskData b) k = Some tc1" "bc_valid (bidContainer tc1)"
        "leadingBid (bidContainer tc1) \<in> T" "tc2 = tc1\<lparr>bidContainer := InvalidateBid (bidContainer tc1)\<rparr>"
      show ?thesis
        by (rule only_invalidates_cases [OF assms(1) b(1)]) (use b Some in auto)
    qed
  qed
  then show ?thesis using assms by (simp add: only_invalidates_def)
qed

lemma only_invalidates_container:
  assumes "only_invalidates S mq mq'" "container_inv B mq"
  shows "container_inv B mq'"
  unfolding container_inv_def
proof (intro allI impI)
  fix k tc' assume tc': "map_of (taskData mq') k = Some tc'"
  have me: "mq_agentID mq' = mq_agentID mq" using assms(1) by (simp add: only_invalidates_def)
  show "bc_agentID (bidContainer tc') = mq_agentID mq'
     \<and> (bc_valid (bidContainer tc') \<longrightarrow> leadingBid (bidContainer tc') \<in> B
          \<and> taskKey (leadingBid (bidContainer tc')) = k)"
    by (rule only_invalidates_cases [OF assms(1) tc'])
      (use assms(2) me in \<open>auto simp: container_inv_def\<close>)
qed

subsection \<open>One turn of the loop\<close>

lemma invalidate_one_fields [simp]:
  "mq_agentID (invalidate_one clock b tc mq) = mq_agentID mq"
  "knownAgentBids (invalidate_one clock b tc mq) = knownAgentBids mq"
  "tasksStarted (invalidate_one clock b tc mq) = tasksStarted mq"
  "tasksCompleted (invalidate_one clock b tc mq) = tasksCompleted mq"
  "map_of (awardedTasks (invalidate_one clock b tc mq)) = (map_of (awardedTasks mq))(taskKey b := None)"
  "map_of (taskData (invalidate_one clock b tc mq)) =
     (if bc_valid (bidContainer tc) \<and> bid_eq (leadingBid (bidContainer tc)) b
      then (map_of (taskData mq))(taskKey b \<mapsto> tc\<lparr>bidContainer := InvalidateBid (bidContainer tc)\<rparr>)
      else map_of (taskData mq))"
  by (auto simp: invalidate_one_def put_container_def track_invalidation_def Let_def
      split: option.split)

text \<open>The loop's body on an entry \<open>e\<close>, the first of the entries not yet erased.\<close>

definition erase_entry ::
  "etime \<Rightarrow> u64 \<Rightarrow> agent_bids \<Rightarrow> etime \<times> BidDescriptor \<Rightarrow> agent_bids \<Rightarrow> TaskContainer
     \<Rightarrow> 'v MasterTaskQueue \<Rightarrow> 'v MasterTaskQueue" where
  "erase_entry clock a kept e rest tc mq = (invalidate_one clock (snd e) tc mq)
     \<lparr>knownAgentBids := um_put a (kept @ rest) (knownAgentBids mq)\<rparr>"

lemma erase_entry_invalidates:
  assumes "distinguishable B" "snd e \<in> B" "container_inv B mq"
    "map_of (taskData mq) (taskKey (snd e)) = Some tc"
  shows "only_invalidates {snd e} mq (erase_entry clock a kept e rest tc mq)"
proof -
  have "bc_valid (bidContainer tc) \<Longrightarrow> leadingBid (bidContainer tc) \<in> B"
    using assms(3,4) by (simp add: container_inv_def)
  then have "bc_valid (bidContainer tc) \<Longrightarrow> bid_eq (leadingBid (bidContainer tc)) (snd e) \<Longrightarrow>
      leadingBid (bidContainer tc) = snd e"
    using distinguishableD [OF assms(1) _ assms(2)] by blast
  then show ?thesis using assms(4) by (auto simp: only_invalidates_def erase_entry_def)
qed

lemma erase_entry_known:
  assumes "distinguishable B" "known_inv B X mq" "container_inv B mq"
    "map_of (knownAgentBids mq) a = Some (kept @ e # rest)"
    "map_of (taskData mq) (taskKey (snd e)) = Some tc"
  shows "known_inv B X (erase_entry clock a kept e rest tc mq)" (is "known_inv B X ?mq")
  unfolding known_inv_def
proof (intro allI impI)
  fix a' m' assume m': "map_of (knownAgentBids ?mq) a' = Some m'"
  have a: "agent_bids_inv B X mq a (kept @ e # rest)"
    using assms(2,4) by (simp add: known_inv_def)
  then have "snd e \<in> B" by (simp add: agent_bids_inv_def)
  note inval = erase_entry_invalidates [OF assms(1) this assms(3,5), of clock a kept rest]
  obtain m where m: "agent_bids_inv B X mq a' m" "set m' \<subseteq> set m"
    "mm_ok time_lt m' \<and> distinct (map snd m') \<and> snd e \<notin> snd ` set m'"
  proof (cases "a' = a")
    case True
    then have [simp]: "m' = kept @ rest" using m' by (simp add: erase_entry_def)
    have "mm_ok time_lt m'"
      using a mm_ok_remove1 [of time_lt "kept @ e # rest" "length kept"]
      by (simp add: agent_bids_inv_def)
    then show thesis using that [of "kept @ e # rest"] a True by (auto simp: agent_bids_inv_def)
  next
    case False
    then have "map_of (knownAgentBids mq) a' = Some m'" using m' by (simp add: erase_entry_def)
    then have inv: "agent_bids_inv B X mq a' m'" using assms(2) by (simp add: known_inv_def)
    moreover have "agentID (snd e) = a" by (rule agent_bids_agent [OF a]) simp
    then have "snd e \<notin> snd ` set m'" using agent_bids_agent [OF inv] False by (metis imageE)
    ultimately show thesis using that [of m'] by (simp add: agent_bids_inv_def)
  qed
  have "leads (snd f) ?mq" if "f \<in> set m'" "snd f \<notin> X" for f
  proof -
    have "snd f \<notin> {snd e}" using m(3) that(1) by (metis image_eqI singletonD)
    then show ?thesis
      using only_invalidates_leads [OF inval] m(1,2) that by (auto simp: agent_bids_inv_def)
  qed
  then show "agent_bids_inv B X ?mq a' m'"
    using m only_invalidates_dom [OF inval] by (auto simp: agent_bids_inv_def subset_iff)
qed

lemma erase_entry_award:
  assumes "distinguishable B" "known_inv B X mq" "container_inv B mq" "award_inv K mq"
    "map_of (knownAgentBids mq) a = Some (kept @ e # rest)"
    "map_of (taskData mq) (taskKey (snd e)) = Some tc"
    "snd e \<in> X \<Longrightarrow> taskKey (snd e) \<in> K"
  shows "award_inv K (erase_entry clock a kept e rest tc mq)" (is "award_inv K ?mq")
  unfolding award_inv_def
proof (intro allI impI, elim conjE)
  fix k tck
  assume k: "k \<notin> K" "map_of (taskData ?mq) k = Some tck" "bc_valid (bidContainer tck)"
    "map_of (tasksStarted ?mq) k = None" "map_of (tasksCompleted ?mq) k = None"
  have a: "agent_bids_inv B X mq a (kept @ e # rest)"
    using assms(2,5) by (simp add: known_inv_def)
  then have eB: "snd e \<in> B" by (simp add: agent_bids_inv_def)
  note inval = erase_entry_invalidates [OF assms(1) this assms(3,6), of clock a kept rest]
  have tck: "map_of (taskData mq) k = Some tck"
    by (rule only_invalidates_cases [OF inval k(2)]) (use k(3) in auto)
  have "k \<noteq> taskKey (snd e)"
  proof
    assume key: "k = taskKey (snd e)"
    then have "leads (snd e) mq" using a assms(7) k(1) by (auto simp: agent_bids_inv_def)
    then have "bc_valid (bidContainer tc)" and lead: "leadingBid (bidContainer tc) = snd e"
      using assms(6) unfolding leads_def by (metis option.inject)+
    moreover have "bid_eq (leadingBid (bidContainer tc)) (snd e)"
      unfolding lead using distinguishableD [OF assms(1) eB eB] by simp
    ultimately have "map_of (taskData ?mq) k
        = Some (tc\<lparr>bidContainer := InvalidateBid (bidContainer tc)\<rparr>)"
      by (simp add: erase_entry_def key)
    then show False using k(2,3) by auto
  qed
  moreover have "\<exists>p. map_of (awardedTasks mq) k = Some p
      \<and> awardedAgentID p = agentID (leadingBid (bidContainer tck))
      \<and> map_of (knownAgentBids mq) (awardedAgentID p) \<noteq> None"
    using assms(4) k tck unfolding award_inv_def by (auto simp: erase_entry_def)
  ultimately show "\<exists>p. map_of (awardedTasks ?mq) k = Some p
      \<and> awardedAgentID p = agentID (leadingBid (bidContainer tck))
      \<and> map_of (knownAgentBids ?mq) (awardedAgentID p) \<noteq> None"
    by (auto simp: erase_entry_def)
qed

subsection \<open>The loop and the whole invalidation\<close>

lemma invalidate_loop_ok:
  assumes "distinguishable B" "known_inv B X mq" "container_inv B mq" "award_inv K mq"
    "map_of (knownAgentBids mq) a = Some (kept @ rest)"
    "\<forall>e \<in> set rest. snd e \<in> X \<longrightarrow> taskKey (snd e) \<in> K"
  shows "\<exists>mq'. invalidate_loop clock a kept rest mq = (mq', Inr ())
     \<and> known_inv B X mq' \<and> container_inv B mq' \<and> award_inv K mq'
     \<and> map_of (knownAgentBids mq') = (map_of (knownAgentBids mq))(a \<mapsto> kept)
     \<and> only_invalidates (snd ` set rest) mq mq'"
  using assms(2-)
proof (induction rest arbitrary: mq)
  case Nil
  then show ?case by (auto simp: fun_upd_idem)
next
  case (Cons e rest)
  have a: "agent_bids_inv B X mq a (kept @ e # rest)"
    using Cons.prems(1,4) by (simp add: known_inv_def)
  then obtain tc where tc: "map_of (taskData mq) (taskKey (snd e)) = Some tc"
    by (auto simp: agent_bids_inv_def)
  have eB: "snd e \<in> B" using a by (simp add: agent_bids_inv_def)
  define mq1 where "mq1 = erase_entry clock a kept e rest tc mq"
  have inval: "only_invalidates {snd e} mq mq1"
    unfolding mq1_def by (rule erase_entry_invalidates [OF assms(1) eB Cons.prems(2) tc])
  have known: "map_of (knownAgentBids mq1) = (map_of (knownAgentBids mq))(a \<mapsto> kept @ rest)"
    by (simp add: mq1_def erase_entry_def)
  have "known_inv B X mq1"
    unfolding mq1_def by (rule erase_entry_known [OF assms(1) Cons.prems(1,2,4) tc])
  moreover have "container_inv B mq1" using only_invalidates_container [OF inval Cons.prems(2)] .
  moreover have "award_inv K mq1"
    unfolding mq1_def
    by (rule erase_entry_award [OF assms(1) Cons.prems(1-4) tc]) (use Cons.prems(5) in simp)
  moreover have "map_of (knownAgentBids mq1) a = Some (kept @ rest)" using known by simp
  moreover have "\<forall>e \<in> set rest. snd e \<in> X \<longrightarrow> taskKey (snd e) \<in> K" using Cons.prems(5) by simp
  ultimately obtain mq' where mq': "invalidate_loop clock a kept rest mq1 = (mq', Inr ())"
    "known_inv B X mq'" "container_inv B mq'" "award_inv K mq'"
    "map_of (knownAgentBids mq') = (map_of (knownAgentBids mq1))(a \<mapsto> kept)"
    "only_invalidates (snd ` set rest) mq1 mq'"
    using Cons.IH [of mq1] by blast
  have "invalidate_loop clock a kept (e # rest) mq = invalidate_loop clock a kept rest mq1"
    using tc by (simp add: mq1_def erase_entry_def Let_def)
  moreover have "map_of (knownAgentBids mq') = (map_of (knownAgentBids mq))(a \<mapsto> kept)"
    unfolding mq'(5) known by simp
  moreover have "only_invalidates (snd ` set (e # rest)) mq mq'"
    using only_invalidates_trans [OF inval mq'(6)] by simp
  ultimately show ?case using mq' by metis
qed

definition known_bids :: "'v MasterTaskQueue \<Rightarrow> BidDescriptor set" where
  "known_bids mq = {b. \<exists>a m. map_of (knownAgentBids mq) a = Some m \<and> b \<in> snd ` set m}"

lemma known_inv_drop:
  assumes "known_inv B X mq" "X \<inter> known_bids mq = {}"
  shows "known_inv B {} mq"
  unfolding known_inv_def agent_bids_inv_def
proof (intro allI impI)
  fix a m assume m: "map_of (knownAgentBids mq) a = Some m"
  then have "agent_bids_inv B X mq a m" using assms(1) by (simp add: known_inv_def)
  moreover have "snd e \<notin> X" if "e \<in> set m" for e
    using assms(2) m that unfolding known_bids_def by blast
  ultimately show "mm_ok time_lt m \<and> distinct (map snd m)
     \<and> (\<forall>e \<in> set m. fst e = generationTime (snd e) \<and> agentID (snd e) = a \<and> snd e \<in> B
          \<and> map_of (taskData mq) (taskKey (snd e)) \<noteq> None \<and> (snd e \<notin> {} \<longrightarrow> leads (snd e) mq))"
    unfolding agent_bids_inv_def by blast
qed

lemma known_bids_agent:
  "known_inv B X mq \<Longrightarrow> b \<in> known_bids mq \<Longrightarrow>
     \<exists>m. map_of (knownAgentBids mq) (agentID b) = Some m \<and> b \<in> snd ` set m"
  unfolding known_bids_def known_inv_def using agent_bids_agent by blast

text \<open>The outcome of \<open>InvalidateBids\<close> on a bid that does not lead any more (\<open>X = {x}\<close>) or still does.\<close>

definition invalidated ::
  "BidDescriptor set \<Rightarrow> TaskKey set \<Rightarrow> 'v MasterTaskQueue \<Rightarrow> 'v MasterTaskQueue \<Rightarrow> bool" where
  "invalidated B K mq mq' \<longleftrightarrow> known_inv B {} mq' \<and> container_inv B mq' \<and> award_inv K mq'
     \<and> only_invalidates (known_bids mq) mq mq' \<and> known_bids mq' \<subseteq> known_bids mq
     \<and> (\<forall>a. map_of (knownAgentBids mq') a = None \<longleftrightarrow> map_of (knownAgentBids mq) a = None)"

lemma agent_bids_search:
  assumes "distinguishable B" "b \<in> B" "agent_bids_inv B X mq a m"
  shows "case find_bid b (take (mm_upper_bound time_lt (generationTime b) m
        - mm_lower_bound time_lt (generationTime b) m)
        (drop (mm_lower_bound time_lt (generationTime b) m) m)) of
       None \<Rightarrow> b \<notin> snd ` set m
     | Some i \<Rightarrow> mm_lower_bound time_lt (generationTime b) m + i < length m
         \<and> snd (m ! (mm_lower_bound time_lt (generationTime b) m + i)) = b"
  by (rule range_search [OF assms(1,2)]) (use assms(3) in \<open>auto simp: agent_bids_inv_def\<close>)

lemma InvalidateBids_ok:
  assumes "distinguishable B" "x \<in> B" "known_inv B X mq" "X \<subseteq> {x}" "container_inv B mq"
    "award_inv K mq" "X \<noteq> {} \<Longrightarrow> taskKey x \<in> K"
  shows "\<exists>mq'. InvalidateBids clock x mq = (mq', Inr ()) \<and> invalidated B K mq mq'"
proof (cases "x \<in> known_bids mq")
  case False
  then have known: "known_inv B {} mq" using known_inv_drop [OF assms(3)] assms(4) by blast
  have "InvalidateBids clock x mq = (mq, Inr ())"
  proof (cases "map_of (knownAgentBids mq) (agentID x)")
    case (Some m)
    then have inv: "agent_bids_inv B X mq (agentID x) m" using assms(3) by (simp add: known_inv_def)
    have notin: "x \<notin> snd ` set m" using False Some by (auto simp: known_bids_def)
    have "find_bid x (take (mm_upper_bound time_lt (generationTime x) m
        - mm_lower_bound time_lt (generationTime x) m)
        (drop (mm_lower_bound time_lt (generationTime x) m) m)) = None"
    proof (rule ccontr)
      assume "find_bid x (take (mm_upper_bound time_lt (generationTime x) m
        - mm_lower_bound time_lt (generationTime x) m)
        (drop (mm_lower_bound time_lt (generationTime x) m) m)) \<noteq> None"
      then obtain p where "p < length m" "snd (m ! p) = x"
        using agent_bids_search [OF assms(1,2) inv] by (auto split: option.splits)
      then show False using notin by (metis image_eqI nth_mem)
    qed
    then show ?thesis by (simp add: InvalidateBids_def Some Let_def)
  qed (simp add: InvalidateBids_def)
  then show ?thesis using known assms(5,6) by (simp add: invalidated_def)
next
  case True
  then obtain m where m: "map_of (knownAgentBids mq) (agentID x) = Some m" "x \<in> snd ` set m"
    using known_bids_agent [OF assms(3)] by blast
  then have inv: "agent_bids_inv B X mq (agentID x) m" using assms(3) by (simp add: known_inv_def)
  define l where "l = mm_lower_bound time_lt (generationTime x) m"
  define u where "u = mm_upper_bound time_lt (generationTime x) m"
  obtain i where i: "find_bid x (take (u - l) (drop l m)) = Some i" "l + i < length m"
    "snd (m ! (l + i)) = x"
    using agent_bids_search [OF assms(1,2) inv] m(2) unfolding l_def u_def
    by (auto split: option.splits)
  define mq0 where "mq0 = (if agentID x = mq_agentID mq
      then mq\<lparr>assignedQueue := RemoveTasksAfter (taskKey x) (assignedQueue mq)\<rparr> else mq)"
  have view: "same_view mq mq0" unfolding mq0_def by (simp add: same_view_def)
  define kept where "kept = take (l + i) m"
  define rest where "rest = drop (l + i) m"
  have eq: "InvalidateBids clock x mq = invalidate_loop clock (agentID x) kept rest mq0"
    using m(1) i(1) by (simp add: InvalidateBids_def Let_def l_def u_def mq0_def kept_def rest_def)
  have "map_of (knownAgentBids mq0) (agentID x) = Some (kept @ rest)"
    using m(1) view by (simp add: same_view_def kept_def rest_def)
  moreover have "\<forall>e \<in> set rest. snd e \<in> X \<longrightarrow> taskKey (snd e) \<in> K"
    using assms(4,7) by fastforce
  ultimately obtain mq' where mq': "invalidate_loop clock (agentID x) kept rest mq0 = (mq', Inr ())"
    "known_inv B X mq'" "container_inv B mq'" "award_inv K mq'"
    "map_of (knownAgentBids mq') = (map_of (knownAgentBids mq0))(agentID x \<mapsto> kept)"
    "only_invalidates (snd ` set rest) mq0 mq'"
    using invalidate_loop_ok [OF assms(1), of X mq0 K "agentID x" kept rest clock]
      assms(3,5,6) same_view_inv [OF view] by auto
  have known0: "knownAgentBids mq0 = knownAgentBids mq" using view by (simp add: same_view_def)
  have sub: "known_bids mq' \<subseteq> known_bids mq"
    using mq'(5) m(1) unfolding known0 known_bids_def kept_def
    by (auto split: if_splits dest: in_set_takeD)
  have "only_invalidates (known_bids mq) mq mq'"
    using mq'(6) view m(1) unfolding only_invalidates_def same_view_def rest_def known_bids_def
    by (force dest: in_set_dropD)
  moreover have "x \<notin> snd ` set kept"
  proof
    assume "x \<in> snd ` set kept"
    then obtain j where "j < l + i" "map snd m ! j = map snd m ! (l + i)"
      using i(2,3) by (auto simp: kept_def in_set_conv_nth)
    then show False
      using inv i(2) nth_eq_iff_index_eq [of "map snd m" j "l + i"]
      by (simp add: agent_bids_inv_def)
  qed
  then have "x \<notin> known_bids mq'"
    using known_bids_agent [OF mq'(2), of x] mq'(5) by auto
  then have "known_inv B {} mq'" using known_inv_drop [OF mq'(2)] assms(4) by blast
  ultimately show ?thesis
    using eq mq' sub m(1) by (simp add: invalidated_def known0)
qed

section \<open>Replacing a container\<close>

lemma put_container_fields [simp]:
  "mq_agentID (put_container k tc mq) = mq_agentID mq"
  "awardedTasks (put_container k tc mq) = awardedTasks mq"
  "knownAgentBids (put_container k tc mq) = knownAgentBids mq"
  "tasksStarted (put_container k tc mq) = tasksStarted mq"
  "tasksCompleted (put_container k tc mq) = tasksCompleted mq"
  "map_of (taskData (put_container k tc mq)) = (map_of (taskData mq))(k \<mapsto> tc)"
  by (simp_all add: put_container_def)

lemma leads_put_container:
  "leads b (put_container k tc mq) \<longleftrightarrow>
     (if taskKey b = k then bc_valid (bidContainer tc) \<and> leadingBid (bidContainer tc) = b
      else leads b mq)"
  by (simp add: leads_def)

text \<open>The new container keeps the leading bid, or the old leading bid is one of \<open>X\<close>.\<close>

lemma known_inv_put_container:
  assumes "known_inv B {} mq" "map_of (taskData mq) k = Some tc"
    "bc_valid (bidContainer tc) \<Longrightarrow> leadingBid (bidContainer tc) \<notin> X \<Longrightarrow>
       bc_valid (bidContainer tc') \<and> leadingBid (bidContainer tc') = leadingBid (bidContainer tc)"
  shows "known_inv B X (put_container k tc' mq)"
  unfolding known_inv_def
proof (intro allI impI)
  fix a m assume "map_of (knownAgentBids (put_container k tc' mq)) a = Some m"
  then have inv: "agent_bids_inv B {} mq a m" using assms(1) by (simp add: known_inv_def)
  have "leads (snd e) (put_container k tc' mq)" if "e \<in> set m" "snd e \<notin> X" for e
  proof (cases "taskKey (snd e) = k")
    case True
    have "leads (snd e) mq" using inv that(1) by (simp add: agent_bids_inv_def)
    then have "bc_valid (bidContainer tc)" "leadingBid (bidContainer tc) = snd e"
      using assms(2) True unfolding leads_def by (metis option.inject)+
    then show ?thesis using assms(3) that(2) True by (simp add: leads_put_container)
  next
    case False
    then show ?thesis using inv that(1) by (simp add: leads_put_container agent_bids_inv_def)
  qed
  then show "agent_bids_inv B X (put_container k tc' mq) a m"
    using inv by (auto simp: agent_bids_inv_def)
qed

lemma container_inv_put_container:
  "\<lbrakk>container_inv B mq; bc_agentID (bidContainer tc) = mq_agentID mq;
    bc_valid (bidContainer tc) \<Longrightarrow> leadingBid (bidContainer tc) \<in> B
      \<and> taskKey (leadingBid (bidContainer tc)) = k\<rbrakk> \<Longrightarrow>
   container_inv B (put_container k tc mq)"
  by (simp add: container_inv_def)

lemma award_inv_put_container:
  "award_inv K mq \<Longrightarrow> k \<in> K \<Longrightarrow> award_inv K (put_container k tc mq)"
  by (auto simp: award_inv_def)

lemma award_inv_put_valid:
  "\<lbrakk>award_inv K mq; map_of (taskData mq) k = Some tc;
    bc_valid (bidContainer tc') \<Longrightarrow> bc_valid (bidContainer tc)
      \<and> leadingBid (bidContainer tc') = leadingBid (bidContainer tc)\<rbrakk> \<Longrightarrow>
   award_inv K (put_container k tc' mq)"
  by (simp add: award_inv_def)

lemma award_inv_mono: "award_inv K mq \<Longrightarrow> K \<subseteq> K' \<Longrightarrow> award_inv K' mq"
  unfolding award_inv_def by blast

section \<open>Receiving a bid\<close>

lemma distinct_mm_insert:
  "distinct (map snd (mm_insert lt k v m)) \<longleftrightarrow> v \<notin> snd ` set m \<and> distinct (map snd m)"
  by (induction lt k v m rule: mm_insert.induct) auto

lemma award_fields [simp]:
  "mq_agentID (award clock s b st mq) = mq_agentID mq"
  "taskData (award clock s b st mq) = taskData mq"
  "tasksStarted (award clock s b st mq) = tasksStarted mq"
  "tasksCompleted (award clock s b st mq) = tasksCompleted mq"
  "map_of (awardedTasks (award clock s b st mq)) = (map_of (awardedTasks mq))
     (taskKey b \<mapsto> \<lparr>awd_taskKey = taskKey b, awardedAgentID = s, awd_consensusReached = False\<rparr>)"
  "map_of (knownAgentBids (award clock s b st mq)) = (map_of (knownAgentBids mq))
     (agentID b \<mapsto> mm_insert time_lt (generationTime b) b
        (case map_of (knownAgentBids mq) (agentID b) of Some m \<Rightarrow> m | None \<Rightarrow> []))"
  by (auto simp: award_def track_assignment_def Let_def split: option.split)

lemma award_ok:
  assumes "known_inv B {} mq" "container_inv B mq" "award_inv {taskKey b} mq" "leads b mq" "b \<in> B"
    "b \<notin> known_bids mq"
  shows "master_inv B (award clock (agentID b) b st mq)" (is "master_inv B ?mq")
proof -
  have leads: "leads c ?mq = leads c mq" for c by (simp add: leads_def)
  have "agent_bids_inv B {} ?mq a m" if m: "map_of (knownAgentBids ?mq) a = Some m" for a m
  proof (cases "a = agentID b")
    case True
    define m0 where "m0 = (case map_of (knownAgentBids mq) a of Some m \<Rightarrow> m | None \<Rightarrow> [])"
    have m0: "agent_bids_inv B {} mq a m0 \<and> b \<notin> snd ` set m0"
    proof (cases "map_of (knownAgentBids mq) a")
      case None
      then show ?thesis
        by (simp add: m0_def agent_bids_inv_def)
    next
      case (Some m')
      then show ?thesis
        using assms(1,6) by (auto simp: m0_def known_inv_def known_bids_def)
    qed
    have "m = mm_insert time_lt (generationTime b) b m0" using m True by (simp add: m0_def)
    then show ?thesis
      using m0 assms(4,5) leads True mm_ok_insert [OF time_order.strict_weak_order_axioms, of m0]
      by (auto simp: agent_bids_inv_def distinct_mm_insert leads_def)
  next
    case False
    then show ?thesis using m assms(1) leads by (simp add: known_inv_def agent_bids_inv_def)
  qed
  moreover have "award_inv {} ?mq"
    unfolding award_inv_def
  proof (intro allI impI, elim conjE)
    fix k tc
    assume k: "map_of (taskData ?mq) k = Some tc" "bc_valid (bidContainer tc)"
      "map_of (tasksStarted ?mq) k = None" "map_of (tasksCompleted ?mq) k = None"
    show "\<exists>p. map_of (awardedTasks ?mq) k = Some p
        \<and> awardedAgentID p = agentID (leadingBid (bidContainer tc))
        \<and> map_of (knownAgentBids ?mq) (awardedAgentID p) \<noteq> None"
    proof (cases "k = taskKey b")
      case True
      then have "leadingBid (bidContainer tc) = b"
        using assms(4) k(1) unfolding leads_def award_fields by (metis option.inject)
      then show ?thesis using True by simp
    next
      case False
      then obtain p where "map_of (awardedTasks mq) k = Some p"
        "awardedAgentID p = agentID (leadingBid (bidContainer tc))"
        "map_of (knownAgentBids mq) (awardedAgentID p) \<noteq> None"
        using assms(3) k unfolding award_inv_def by (metis award_fields(2-4) singletonD)
      then show ?thesis using False by (intro exI [of _ p]) simp
    qed
  qed
  ultimately show ?thesis
    using assms(2) by (simp add: master_inv_def known_inv_def container_inv_def)
qed

lemma award_inv_close:
  assumes "award_inv {k} mq" "\<And>tc. map_of (taskData mq) k = Some tc \<Longrightarrow> \<not> bc_valid (bidContainer tc)"
  shows "award_inv {} mq"
  using assms unfolding award_inv_def by (metis singletonD)

lemma known_leads: "known_inv B {} mq \<Longrightarrow> b \<in> known_bids mq \<Longrightarrow> leads b mq"
  by (auto simp: known_inv_def known_bids_def agent_bids_inv_def)

lemma known_bids_view: "same_view mq mq' \<Longrightarrow> known_bids mq' = known_bids mq"
  by (simp add: same_view_def known_bids_def)

text \<open>What is left to do for a new leader, after the previous one has been invalidated.\<close>

lemma award_after_invalidation:
  assumes "invalidated B {taskKey b} mq mq'" "leads b mq" "b \<in> B" "b \<notin> known_bids mq"
  shows "master_inv B (award clock (agentID b) b st mq')"
proof (rule award_ok)
  have inval: "only_invalidates (known_bids mq) mq mq'" using assms(1) by (simp add: invalidated_def)
  show "leads b mq'" using only_invalidates_leads [OF inval assms(4)] assms(2) by simp
  show "b \<notin> known_bids mq'" using assms(1,4) by (auto simp: invalidated_def)
qed (use assms in \<open>simp_all add: invalidated_def\<close>)

lemma inv_after_scrub:
  assumes "invalidated B {k} mq mq'"
    "\<And>tc. map_of (taskData mq) k = Some tc \<Longrightarrow> \<not> bc_valid (bidContainer tc)"
  shows "master_inv B mq'"
proof -
  have inval: "only_invalidates (known_bids mq) mq mq'" using assms(1) by (simp add: invalidated_def)
  have "\<not> bc_valid (bidContainer tc)" if tc: "map_of (taskData mq') k = Some tc" for tc
    by (rule only_invalidates_cases [OF inval tc]) (use assms(2) in auto)
  then show ?thesis
    using assms(1) award_inv_close [of k mq'] by (simp add: invalidated_def master_inv_def)
qed

lemma known_bids_put_container [simp]: "known_bids (put_container k tc mq) = known_bids mq"
  by (simp add: known_bids_def)

text \<open>
  The state right after the bid container has decided and its answer was stored: what holds then,
  with the previous leading bid exempt when it is to be invalidated.
\<close>

definition decided ::
  "BidDescriptor set \<Rightarrow> BidDescriptor \<Rightarrow> BidContainer \<Rightarrow> BidContainer \<Rightarrow> bool \<Rightarrow> bool
     \<Rightarrow> 'v MasterTaskQueue \<Rightarrow> bool" where
  "decided B bid bc bc' new call mq \<longleftrightarrow>
     known_inv B (if call then {leadingBid bc} else {}) mq \<and> container_inv B mq
     \<and> award_inv {taskKey bid} mq \<and> (\<not> new \<longrightarrow> award_inv {} mq)
     \<and> (new \<longrightarrow> leads bid mq \<and> bid \<notin> known_bids mq)
     \<and> (call \<longrightarrow> leadingBid bc \<in> B \<and> taskKey (leadingBid bc) = taskKey bid)
     \<and> (call \<and> \<not> new \<longrightarrow> (\<forall>tc. map_of (taskData mq) (taskKey bid) = Some tc \<longrightarrow>
          \<not> bc_valid (bidContainer tc)))"

lemma decided_view: "same_view mq mq' \<Longrightarrow> decided B bid bc bc' new call mq \<Longrightarrow> decided B bid bc bc' new call mq'"
  using same_view_inv [of mq mq'] known_bids_view [of mq mq'] by (simp add: decided_def same_view_def)

lemma decided_store:
  assumes "distinguishable B" "master_inv B mq" "bid \<in> B"
    "map_of (taskData mq) (taskKey bid) = Some tc" "bc = bidContainer tc"
    "ReceiveBid clock (agentID bid) ts bid bc = (bc', new, act0)"
    "act = (if \<not> bc_valid bc \<and> act0 = BroadcastLocal then BroadcastScrub else act0)"
    "call \<longleftrightarrow> bc_valid bc \<and> (new \<or> act = BroadcastScrub)"
  shows "decided B bid bc bc' new call (put_container (taskKey bid) (tc\<lparr>bidContainer := bc'\<rparr>) mq)"
    (is "decided B bid bc bc' new call ?mq")
proof -
  have inv: "known_inv B {} mq" "container_inv B mq" "award_inv {} mq"
    using assms(2) by (simp_all add: master_inv_def)
  have bc: "bc_agentID bc = mq_agentID mq"
    "bc_valid bc \<Longrightarrow> leadingBid bc \<in> B \<and> taskKey (leadingBid bc) = taskKey bid"
    using inv(2) assms(4,5) by (simp_all add: container_inv_def)
  have ans: "bc_agentID bc' = bc_agentID bc"
    "new \<Longrightarrow> leadingBid bc' = bid \<and> bc_valid bc'"
    "\<not> new \<Longrightarrow> leadingBid bc' = leadingBid bc \<and> (bc_valid bc' \<longrightarrow> bc_valid bc)"
    using bid_answer_ReceiveBid [of "agentID bid" bid bc clock ts]
    by (auto simp: assms(6) bid_answer_def)
  have val: "new \<Longrightarrow> bc_valid bc \<Longrightarrow> leadingBid bc \<noteq> bid"
    "\<not> new \<Longrightarrow> act0 \<noteq> BroadcastScrub \<Longrightarrow> bc_valid bc' = bc_valid bc"
    "bc_valid bc \<Longrightarrow> act0 = BroadcastScrub \<Longrightarrow> \<not> new \<and> \<not> bc_valid bc'"
    using bid_answer_valid_ReceiveBid [of bid bc clock "agentID bid" ts]
      distinguishableD [OF assms(1,3,3)] by (auto simp: assms(6) bid_answer_valid_def)
  have known: "known_inv B (if call then {leadingBid bc} else {}) ?mq"
  proof (rule known_inv_put_container [OF inv(1) assms(4)])
    assume "bc_valid (bidContainer tc)" "leadingBid (bidContainer tc) \<notin> (if call then {leadingBid bc} else {})"
    then have "\<not> new" "act0 \<noteq> BroadcastScrub" by (auto simp: assms(5,7,8) split: if_splits)
    then show "bc_valid (bidContainer (tc\<lparr>bidContainer := bc'\<rparr>)) \<and>
        leadingBid (bidContainer (tc\<lparr>bidContainer := bc'\<rparr>)) = leadingBid (bidContainer tc)"
      using val ans \<open>bc_valid (bidContainer tc)\<close> by (simp add: assms(5))
  qed
  have container: "container_inv B ?mq"
    by (rule container_inv_put_container [OF inv(2)]) (use ans bc assms(3) in \<open>cases new; simp\<close>)+
  have award: "award_inv {taskKey bid} ?mq" "\<not> new \<Longrightarrow> award_inv {} ?mq"
    using award_inv_put_container [OF award_inv_mono [OF inv(3)], of "{taskKey bid}" "taskKey bid"]
      award_inv_put_valid [OF inv(3) assms(4), of "tc\<lparr>bidContainer := bc'\<rparr>"] ans(3)
    by (simp_all add: assms(5))
  have fresh: "bid \<notin> known_bids mq" if new
  proof
    assume "bid \<in> known_bids mq"
    then have "leads bid mq" using known_leads [OF inv(1)] by blast
    then have "bc_valid bc \<and> leadingBid bc = bid"
      using assms(4,5) unfolding leads_def by (metis option.inject)
    then show False using val(1) that by blast
  qed
  have "leads bid ?mq" if new using ans(2) [OF that] by (simp add: leads_def)
  moreover have "\<not> bc_valid bc'" if "call" "\<not> new"
    using that val(3) by (auto simp: assms(7,8) split: if_splits)
  ultimately show ?thesis
    using known container award fresh bc(2) by (auto simp: decided_def assms(8))
qed

lemma decided_finish:
  assumes "distinguishable B" "bid \<in> B" "decided B bid bc bc' new call mq"
  shows "\<exists>mq'. obind (if call then InvalidateBids clock (leadingBid bc) mq else (mq, Inr ()))
      (\<lambda>mq u. (if new then award clock (agentID bid) bid st mq else mq, Inr new)) = (mq', Inr new)
    \<and> master_inv B mq'"
proof (cases call)
  case True
  then have d: "known_inv B {leadingBid bc} mq" "container_inv B mq" "award_inv {taskKey bid} mq"
    "leadingBid bc \<in> B" "taskKey (leadingBid bc) \<in> {taskKey bid}"
    "\<not> new \<Longrightarrow> map_of (taskData mq) (taskKey bid) = Some tc \<Longrightarrow> \<not> bc_valid (bidContainer tc)"
    "new \<Longrightarrow> leads bid mq \<and> bid \<notin> known_bids mq" for tc
    using assms(3) by (auto simp: decided_def)
  obtain mq3 where mq3: "InvalidateBids clock (leadingBid bc) mq = (mq3, Inr ())"
    "invalidated B {taskKey bid} mq mq3"
    using InvalidateBids_ok [OF assms(1) d(4,1) order_refl d(2,3,5)] by blast
  show ?thesis
  proof (cases new)
    case new: True
    then show ?thesis
      using True mq3(1) award_after_invalidation [OF mq3(2) _ assms(2)] d(7) by simp
  next
    case False
    then show ?thesis using True mq3(1) inv_after_scrub [OF mq3(2)] d(6) by simp
  qed
next
  case False
  then have d: "known_inv B {} mq" "container_inv B mq" "award_inv {taskKey bid} mq"
    "\<not> new \<Longrightarrow> award_inv {} mq" "new \<Longrightarrow> leads bid mq \<and> bid \<notin> known_bids mq"
    using assms(3) by (auto simp: decided_def)
  show ?thesis
    using False award_ok [OF d(1-3) _ assms(2)] d by (cases new) (auto simp: master_inv_def)
qed

lemma Master_ReceiveBid_ok:
  assumes "distinguishable B" "master_inv B mq" "bid \<in> B"
    "map_of (taskData mq) (taskKey bid) = Some tc"
  shows "\<exists>mq' r. Master_ReceiveBid clock (agentID bid) ts bid st mq = (mq', Inr r)
     \<and> master_inv B mq'"
proof (cases "consensusReached tc")
  case True
  then have "Master_ReceiveBid clock (agentID bid) ts bid st mq = (mq, Inr False)"
    using assms(4) by (simp add: Master_ReceiveBid_def)
  then show ?thesis using assms(2) by blast
next
  case False
  define bc where "bc = bidContainer tc"
  obtain bc' new act0 where r: "ReceiveBid clock (agentID bid) ts bid bc = (bc', new, act0)"
    by (cases "ReceiveBid clock (agentID bid) ts bid bc")
  define act where "act = (if \<not> bc_valid bc \<and> act0 = BroadcastLocal then BroadcastScrub else act0)"
  define call where "call \<longleftrightarrow> bc_valid bc \<and> (new \<or> act = BroadcastScrub)"
  define mq1 where "mq1 = put_container (taskKey bid) (tc\<lparr>bidContainer := bc'\<rparr>) mq"
  define mq2 where "mq2 = note_broadcast act (leadingBid bc) bid (taskKey bid) (own_time (mq_agentID mq) bc') mq1"
  have "decided B bid bc bc' new call mq1"
    unfolding mq1_def by (rule decided_store [OF assms bc_def r act_def call_def])
  then have "decided B bid bc bc' new call mq2" by (rule decided_view [rotated]) (simp add: mq2_def)
  then obtain mq' where "obind (if call then InvalidateBids clock (leadingBid bc) mq2 else (mq2, Inr ()))
        (\<lambda>mq u. (if new then award clock (agentID bid) bid st mq else mq, Inr new)) = (mq', Inr new)"
    "master_inv B mq'"
    using decided_finish [OF assms(1,3)] by blast
  moreover have "Master_ReceiveBid clock (agentID bid) ts bid st mq =
      obind (if call then InvalidateBids clock (leadingBid bc) mq2 else (mq2, Inr ()))
        (\<lambda>mq u. (if new then award clock (agentID bid) bid st mq else mq, Inr new))"
    using False r unfolding Master_ReceiveBid_def call_def act_def mq1_def mq2_def bc_def assms(4)
    by (simp only: option.case Let_def if_False prod.case put_container_fields)
  ultimately show ?thesis 
    by (intro exI [of _ mq'] exI [of _ new] conjI) (rule trans)
qed

section \<open>Receiving a scrub\<close>

lemma ReceiveScrub_twice:
  assumes "ReceiveScrub c1 m bc = (bc1, a1)" "ReceiveScrub c2 m bc1 = (bc2, a2)"
  shows "bc_agentID bc2 = bc_agentID bc" "leadingBid bc2 = leadingBid bc"
    "bc_valid bc2 \<Longrightarrow> bc_valid bc" "a2 \<noteq> BroadcastReceived"
  using ReceiveScrub_cases [OF assms(1)] ReceiveScrub_cases [OF assms(2)] by simp_all

lemma scrubbed_ok:
  assumes "distinguishable B" "master_inv B mq" "map_of (taskData mq) k = Some tc"
    "bc = bidContainer tc" "bc_agentID bc' = bc_agentID bc" "leadingBid bc' = leadingBid bc"
    "bc_valid bc' \<Longrightarrow> bc_valid bc" "same_view (put_container k (tc\<lparr>bidContainer := bc'\<rparr>) mq) mq2"
  shows "\<exists>mq'. (if bc_valid bc \<and> \<not> bc_valid bc' then InvalidateBids clock (leadingBid bc) mq2
     else (mq2, Inr ())) = (mq', Inr ()) \<and> master_inv B mq'"
proof -
  have inv: "known_inv B {} mq" "container_inv B mq" "award_inv {} mq"
    using assms(2) by (simp_all add: master_inv_def)
  have bc: "bc_agentID bc = mq_agentID mq"
    "bc_valid bc \<Longrightarrow> leadingBid bc \<in> B \<and> taskKey (leadingBid bc) = k"
    using inv(2) assms(3,4) by (simp_all add: container_inv_def)
  let ?mq = "put_container k (tc\<lparr>bidContainer := bc'\<rparr>) mq"
  have container: "container_inv B mq2"
    unfolding same_view_container [OF assms(8)]
    by (rule container_inv_put_container [OF inv(2)]) (use bc assms(5-7) in simp_all)
  have award: "award_inv {} mq2"
    unfolding same_view_award [OF assms(8)]
    by (rule award_inv_put_valid [OF inv(3) assms(3)]) (use assms(4,6,7) in simp)
  show ?thesis
  proof (cases "bc_valid bc \<and> \<not> bc_valid bc'")
    case True
    have known: "known_inv B {leadingBid bc} mq2"
      unfolding same_view_known [OF assms(8)]
      by (rule known_inv_put_container [OF inv(1) assms(3)]) (simp add: assms(4))
    obtain mq3 where mq3: "InvalidateBids clock (leadingBid bc) mq2 = (mq3, Inr ())"
      "invalidated B {k} mq2 mq3"
      using InvalidateBids_ok [OF assms(1) _ known order_refl container award_inv_mono [OF award], of "{k}"]
        bc(2) True by blast
    have "map_of (taskData mq2) k = Some (tc\<lparr>bidContainer := bc'\<rparr>)"
      using assms(8) by (simp add: same_view_def)
    then show ?thesis using mq3 True inv_after_scrub [OF mq3(2)] by simp
  next
    case False
    have "known_inv B {} mq2"
      unfolding same_view_known [OF assms(8)]
      by (rule known_inv_put_container [OF inv(1) assms(3)]) (use False assms(4,6) in auto)
    then show ?thesis using False container award by (auto simp: master_inv_def)
  qed
qed

lemma Master_ReceiveScrub_ok:
  assumes "distinguishable B" "master_inv B mq" "map_of (taskData mq) (scrub_taskKey m) = Some tc"
  shows "\<exists>mq'. Master_ReceiveScrub clock m mq = (mq', Inr ()) \<and> master_inv B mq'"
proof -
  define bc where "bc = bidContainer tc"
  obtain bc1 a1 where r1: "ReceiveScrub clock m bc = (bc1, a1)" by (cases "ReceiveScrub clock m bc")
  obtain bc2 a2 where r2: "ReceiveScrub clock m bc1 = (bc2, a2)" by (cases "ReceiveScrub clock m bc1")
  note tw = ReceiveScrub_twice [OF r1 r2]
  define mq1 where "mq1 = put_container (scrub_taskKey m) (tc\<lparr>bidContainer := bc2\<rparr>) mq"
  define ts where "ts = own_time (mq_agentID mq) bc1"
  define mq2 where "mq2 = note_broadcast a2 (leadingBid bc2) (leadingBid bc2) (scrub_taskKey m) ts mq1"
  have view: "same_view mq1 mq2" by (simp add: mq2_def)
  have "Master_ReceiveScrub clock m mq =
      (if bc_valid bc \<and> \<not> bc_valid bc2 then InvalidateBids clock (leadingBid bc) mq2
       else (mq2, Inr ()))"
    using assms(3) r1 r2 tw(4)
    by (cases a2) (simp_all add: Master_ReceiveScrub_def bc_def [symmetric] mq1_def mq2_def ts_def
        note_broadcast_def Let_def)
  then show ?thesis
    using scrubbed_ok [OF assms(1,2,3) bc_def tw(1-3) view [unfolded mq1_def], of clock] by metis
qed

section \<open>Started, completed and aborted tasks\<close>

lemma known_inv_erase:
  assumes "known_inv B {} mq" "map_of (knownAgentBids mq) a = Some m" "p < length m"
  shows "known_inv B {} (mq\<lparr>knownAgentBids := um_put a (take p m @ drop (Suc p) m) (knownAgentBids mq)\<rparr>)"
proof -
  have inv: "agent_bids_inv B {} mq a m" using assms(1,2) by (simp add: known_inv_def)
  have "map snd (take p m @ drop (Suc p) m) = take p (map snd m) @ drop (Suc p) (map snd m)"
    by (simp add: take_map drop_map)
  moreover have "distinct (take p (map snd m) @ drop (Suc p) (map snd m))"
    using inv by (simp add: agent_bids_inv_def set_take_disj_set_drop_if_distinct)
  ultimately have "agent_bids_inv B {} mq a (take p m @ drop (Suc p) m)"
    using inv mm_ok_remove1 by (auto simp: agent_bids_inv_def dest: in_set_takeD in_set_dropD)
  then show ?thesis
    using assms(1) by (simp add: known_inv_def agent_bids_inv_def leads_def)
qed

lemma settle_leader_ok:
  assumes "distinguishable B" "master_inv B mq" "map_of (taskData mq) k = Some tc"
    "bc_valid (bidContainer tc)" "map_of (tasksStarted mq) k = None"
    "map_of (tasksCompleted mq) k = None"
  shows "\<exists>mq' r. settle_leader clock k agent tc mq = (mq', Inr r) \<and> master_inv B mq'"
proof -
  have inv: "known_inv B {} mq" "container_inv B mq" "award_inv {} mq"
    using assms(2) by (simp_all add: master_inv_def)
  obtain p where p: "map_of (awardedTasks mq) k = Some p"
    "map_of (knownAgentBids mq) (awardedAgentID p) \<noteq> None"
    using inv(3) assms(3-6) unfolding award_inv_def by blast
  define x where "x = leadingBid (bidContainer tc)"
  have x: "x \<in> B" using inv(2) assms(3,4) by (simp add: container_inv_def x_def)
  show ?thesis
  proof (cases "awardedAgentID p = agent")
    case True
    then obtain m where m: "map_of (knownAgentBids mq) agent = Some m" using p(2) by auto
    then have a: "agent_bids_inv B {} mq agent m" using inv(1) by (simp add: known_inv_def)
    define i where "i = mm_find time_lt (generationTime x) m"
    have search: "case find_bid x (drop i m) of None \<Rightarrow> x \<notin> snd ` set m
        | Some j \<Rightarrow> i + j < length m \<and> snd (m ! (i + j)) = x"
      unfolding i_def
      by (rule tail_search [OF assms(1) x]) (use a in \<open>auto simp: agent_bids_inv_def\<close>)
    show ?thesis
    proof (cases "find_bid x (drop i m)")
      case None
      then have "settle_leader clock k agent tc mq = (mq, Inr False)"
        using p(1) m True by (simp add: settle_leader_def x_def i_def Let_def)
      then show ?thesis using assms(2) by blast
    next
      case (Some j)
      let ?mq = "mq\<lparr>knownAgentBids := um_put agent (take (i + j) m @ drop (Suc (i + j)) m) (knownAgentBids mq)\<rparr>"
      have "settle_leader clock k agent tc mq = (?mq, Inr False)"
        using p(1) m True Some by (simp add: settle_leader_def x_def i_def Let_def)
      moreover have "known_inv B {} ?mq"
        using known_inv_erase [OF inv(1) m] search Some by simp
      moreover have "container_inv B ?mq" using inv(2) by (simp add: container_inv_def)
      moreover have "award_inv {} ?mq" using inv(3) by (fastforce simp: award_inv_def)
      ultimately show ?thesis by (auto simp: master_inv_def)
    qed
  next
    case False
    obtain mq' where "InvalidateBids clock x mq = (mq', Inr ())" "invalidated B {} mq mq'"
      using InvalidateBids_ok [OF assms(1) x inv(1) _ inv(2,3)] by blast
    then show ?thesis
      using p(1) False by (auto simp: settle_leader_def x_def Let_def invalidated_def master_inv_def)
  qed
qed

text \<open>Two states that agree up to the consensus flags.\<close>

lemma set_consensus_fields [simp]:
  "mq_agentID (set_consensus k mq) = mq_agentID mq"
  "awardedTasks (set_consensus k mq) = awardedTasks mq"
  "knownAgentBids (set_consensus k mq) = knownAgentBids mq"
  "tasksStarted (set_consensus k mq) = tasksStarted mq"
  "tasksCompleted (set_consensus k mq) = tasksCompleted mq"
  by (simp_all add: set_consensus_def split: option.split)

lemma known_inv_set_consensus: "known_inv B {} mq \<Longrightarrow> known_inv B {} (set_consensus k mq)"
  by (auto simp: set_consensus_def intro: known_inv_put_container split: option.split)

lemma container_inv_set_consensus: "container_inv B mq \<Longrightarrow> container_inv B (set_consensus k mq)"
  by (auto simp: set_consensus_def container_inv_def split: option.split)

lemma award_inv_set_consensus: "award_inv K mq \<Longrightarrow> award_inv K (set_consensus k mq)"
  by (auto simp: set_consensus_def intro: award_inv_put_valid split: option.split)

lemma master_inv_set_consensus: "master_inv B mq \<Longrightarrow> master_inv B (set_consensus k mq)"
  by (simp add: master_inv_def known_inv_set_consensus container_inv_set_consensus
      award_inv_set_consensus)

text \<open>The end of the three operations: the task leaves the queues and is entered as settled.\<close>

lemma release_ok:
  assumes "master_inv B mq"
    "\<forall>k'. k' \<noteq> k \<longrightarrow> map_of started' k' = map_of (tasksStarted mq) k'
       \<and> map_of completed' k' = map_of (tasksCompleted mq) k'"
    "map_of started' k \<noteq> None \<or> map_of completed' k \<noteq> None"
  shows "master_inv B ((set_consensus k (release_task k mq))
     \<lparr>tasksStarted := started', tasksCompleted := completed'\<rparr>)" (is "master_inv B ?mq")
proof -
  define mq1 where "mq1 = set_consensus k mq"
  have inv: "known_inv B {} mq1" "container_inv B mq1" "award_inv {} mq1"
    using master_inv_set_consensus [OF assms(1)] by (simp_all add: mq1_def master_inv_def)
  have data: "taskData ?mq = taskData mq1" "knownAgentBids ?mq = knownAgentBids mq1"
    "mq_agentID ?mq = mq_agentID mq1"
    by (simp_all add: mq1_def set_consensus_def release_task_def put_container_def split: option.split)
  have awarded: "map_of (awardedTasks ?mq) = (map_of (awardedTasks mq1))(k := None)"
    "tasksStarted mq1 = tasksStarted mq" "tasksCompleted mq1 = tasksCompleted mq"
    by (simp_all add: mq1_def release_task_def)
  have "known_inv B {} ?mq"
    using inv(1) by (simp only: known_inv_def agent_bids_inv_def leads_def data)
  moreover have "container_inv B ?mq" using inv(2) by (simp only: container_inv_def data)
  moreover have "award_inv {} ?mq"
    unfolding award_inv_def
  proof (intro allI impI, elim conjE)
    fix k' tc
    assume k': "map_of (taskData ?mq) k' = Some tc" "bc_valid (bidContainer tc)"
      "map_of (tasksStarted ?mq) k' = None" "map_of (tasksCompleted ?mq) k' = None"
    have "k' \<noteq> k" using k'(3,4) assms(3) by auto
    then have "map_of (tasksStarted mq) k' = None" "map_of (tasksCompleted mq) k' = None"
      using k'(3,4) assms(2) by simp_all
    then obtain p where "map_of (awardedTasks mq1) k' = Some p"
      "awardedAgentID p = agentID (leadingBid (bidContainer tc))"
      "map_of (knownAgentBids mq1) (awardedAgentID p) \<noteq> None"
      using inv(3) k'(1,2) unfolding data award_inv_def awarded by blast
    then show "\<exists>p. map_of (awardedTasks ?mq) k' = Some p
        \<and> awardedAgentID p = agentID (leadingBid (bidContainer tc))
        \<and> map_of (knownAgentBids ?mq) (awardedAgentID p) \<noteq> None"
      unfolding data awarded using \<open>k' \<noteq> k\<close> by (intro exI [of _ p]) simp
  qed
  ultimately show ?thesis by (simp add: master_inv_def)
qed

text \<open>The middle of the three operations: with a leader that was not started, it is settled.\<close>

lemma settle_part_ok:
  assumes "distinguishable B" "master_inv B mq" "map_of (tasksCompleted mq) k = None"
    "map_of (taskData mq) k \<noteq> None" "P \<Longrightarrow> map_of (tasksStarted mq) k = None"
  shows "\<exists>mq' r. (case map_of (taskData mq) k of None \<Rightarrow> (mq, Inl Out_Of_Range)
      | Some tc \<Rightarrow> if HasLeadingBid k mq \<and> P then settle_leader clock k agent tc mq else (mq, Inr True))
      = (mq', Inr r) \<and> master_inv B mq'"
proof -
  obtain tc where tc: "map_of (taskData mq) k = Some tc" using assms(4) by auto
  show ?thesis
  proof (cases "HasLeadingBid k mq \<and> P")
    case True
    then have "bc_valid (bidContainer tc)" using tc by (simp add: HasLeadingBid_def)
    then show ?thesis
      using settle_leader_ok [OF assms(1,2) tc _ _ assms(3)] True assms(5) tc by simp
  next
    case False
    then show ?thesis using tc assms(2) by auto
  qed
qed

lemma learn_task_inv:
  assumes "master_inv B mq" "map_of (taskData mq) k = None"
  shows "master_inv B (learn_task clock uninit k mq)"
proof -
  have leads: "leads b mq \<Longrightarrow> leads b (learn_task clock uninit k mq)" for b
    using assms(2) by (auto simp: leads_def learn_task_def)
  then show ?thesis
    using assms by (auto simp: master_inv_def known_inv_def agent_bids_inv_def container_inv_def
        award_inv_def learn_task_def TaskContainer_new_def BidContainer_new_def)
qed

lemma master_inv_started:
  "master_inv B mq \<Longrightarrow> master_inv B (mq\<lparr>tasksStarted := um_insert k a (tasksStarted mq)\<rparr>)"
  by (simp add: master_inv_def known_inv_def agent_bids_inv_def container_inv_def award_inv_def
      leads_def)

lemma master_inv_completed:
  "master_inv B mq \<Longrightarrow> master_inv B (mq\<lparr>tasksCompleted := um_insert k a (tasksCompleted mq)\<rparr>)"
  by (simp add: master_inv_def known_inv_def agent_bids_inv_def container_inv_def award_inv_def
      leads_def)

lemma master_inv_aborted: "master_inv B mq \<Longrightarrow> master_inv B (mq\<lparr>tasksAborted := x\<rparr>)"
  by (simp add: master_inv_def known_inv_def agent_bids_inv_def container_inv_def award_inv_def
      leads_def)

lemma same_completed:
  "tasksCompleted mq = c \<Longrightarrow> mq\<lparr>tasksStarted := x, tasksCompleted := c\<rparr> = mq\<lparr>tasksStarted := x\<rparr>"
  by (cases mq) simp

lemma setTaskCompleted_ok:
  assumes "distinguishable B" "master_inv B mq"
  shows "\<exists>mq' r. setTaskCompleted clock uninit k agent mq = (mq', Inr r) \<and> master_inv B mq'"
proof -
  consider (early) "map_of (tasksCompleted mq) k \<noteq> None \<or> map_of (tasksAborted mq) k \<noteq> None"
    | (new) "map_of (tasksCompleted mq) k = None" "map_of (tasksAborted mq) k = None"
        "map_of (taskData mq) k = None"
    | (known) "map_of (tasksCompleted mq) k = None" "map_of (tasksAborted mq) k = None"
        "map_of (taskData mq) k \<noteq> None" by blast
  then show ?thesis
  proof cases
    case early
    then show ?thesis using assms(2) by (auto simp: setTaskCompleted_def)
  next
    case new
    then show ?thesis
      using master_inv_completed [OF learn_task_inv [OF assms(2) new(3)]]
      by (simp add: setTaskCompleted_def Let_def) blast
  next
    case known
    have tk: "map_of (taskData (set_consensus k mq)) k \<noteq> None"
      using known(3) by (auto simp: set_consensus_def)
    have c: "map_of (tasksCompleted (set_consensus k mq)) k = None" using known by simp
    obtain mq1 r where mq1: "(case map_of (taskData (set_consensus k mq)) k of
          None \<Rightarrow> (set_consensus k mq, Inl Out_Of_Range)
        | Some tc \<Rightarrow> if HasLeadingBid k (set_consensus k mq) \<and> map_of (tasksStarted (set_consensus k mq)) k = None
            then settle_leader clock k agent tc (set_consensus k mq) else (set_consensus k mq, Inr True))
        = (mq1, Inr r)" "master_inv B mq1"
      using settle_part_ok [OF assms(1) master_inv_set_consensus [OF assms(2)] c tk,
          where P = "map_of (tasksStarted (set_consensus k mq)) k = None"
            and clock = clock and agent = agent] by blast
    have "setTaskCompleted clock uninit k agent mq = ((set_consensus k (release_task k mq1))
        \<lparr>tasksStarted := um_erase k (tasksStarted mq1),
         tasksCompleted := um_insert k agent (tasksCompleted mq1)\<rparr>, Inr r)"
      using known mq1(1) unfolding setTaskCompleted_def Let_def
      by (auto simp: release_task_def)
    moreover have "master_inv B ((set_consensus k (release_task k mq1))
        \<lparr>tasksStarted := um_erase k (tasksStarted mq1),
         tasksCompleted := um_insert k agent (tasksCompleted mq1)\<rparr>)"
      by (rule release_ok [OF mq1(2)]) simp_all
    ultimately show ?thesis by blast
  qed
qed

lemma setTaskStarted_ok:
  assumes "distinguishable B" "master_inv B mq"
  shows "\<exists>mq' r. setTaskStarted clock uninit k agent mq = (mq', Inr r) \<and> master_inv B mq'"
proof -
  consider (early) "map_of (tasksStarted mq) k \<noteq> None \<or> map_of (tasksAborted mq) k \<noteq> None
      \<or> map_of (tasksCompleted mq) k \<noteq> None"
    | (new) "map_of (tasksStarted mq) k = None" "map_of (tasksAborted mq) k = None"
        "map_of (tasksCompleted mq) k = None" "map_of (taskData mq) k = None"
    | (known) "map_of (tasksStarted mq) k = None" "map_of (tasksAborted mq) k = None"
        "map_of (tasksCompleted mq) k = None" "map_of (taskData mq) k \<noteq> None" by blast
  then show ?thesis
  proof cases
    case early
    then show ?thesis using assms(2) by (auto simp: setTaskStarted_def)
  next
    case new
    then show ?thesis
      using master_inv_started [OF learn_task_inv [OF assms(2) new(4)]]
      by (simp add: setTaskStarted_def Let_def) blast
  next
    case known
    have tk: "map_of (taskData (set_consensus k mq)) k \<noteq> None"
      using known(4) by (auto simp: set_consensus_def)
    have c: "map_of (tasksCompleted (set_consensus k mq)) k = None" using known by simp
    obtain mq1 r where mq1: "(case map_of (taskData (set_consensus k mq)) k of
          None \<Rightarrow> (set_consensus k mq, Inl Out_Of_Range)
        | Some tc \<Rightarrow> if HasLeadingBid k (set_consensus k mq) \<and> True
            then settle_leader clock k agent tc (set_consensus k mq) else (set_consensus k mq, Inr True))
        = (mq1, Inr r)" "master_inv B mq1"
      using settle_part_ok [OF assms(1) master_inv_set_consensus [OF assms(2)] c tk,
          where P = True and clock = clock and agent = agent] known(1) by auto
    have "setTaskStarted clock uninit k agent mq = ((set_consensus k (release_task k mq1))
        \<lparr>tasksStarted := um_insert k agent (tasksStarted mq1)\<rparr>, Inr r)"
      using known mq1(1) [unfolded simp_thms] unfolding setTaskStarted_def Let_def
      by (auto simp: release_task_def)
    then have "setTaskStarted clock uninit k agent mq = ((set_consensus k (release_task k mq1))
        \<lparr>tasksStarted := um_insert k agent (tasksStarted mq1),
         tasksCompleted := tasksCompleted mq1\<rparr>, Inr r)"
      by (simp add: same_completed release_task_def)
    moreover have "master_inv B ((set_consensus k (release_task k mq1))
        \<lparr>tasksStarted := um_insert k agent (tasksStarted mq1),
         tasksCompleted := tasksCompleted mq1\<rparr>)"
      by (rule release_ok [OF mq1(2)]) simp_all
    ultimately show ?thesis by blast
  qed
qed

lemma setTaskAborted_ok:
  assumes "distinguishable B" "master_inv B mq"
  shows "\<exists>mq' r. setTaskAborted clock uninit k agent mq = (mq', Inr r) \<and> master_inv B mq'"
proof -
  consider (early) "map_of (tasksAborted mq) k \<noteq> None \<or> map_of (tasksCompleted mq) k \<noteq> None"
    | (new) "map_of (tasksAborted mq) k = None" "map_of (tasksCompleted mq) k = None"
        "map_of (taskData mq) k = None"
    | (known) "map_of (tasksAborted mq) k = None" "map_of (tasksCompleted mq) k = None"
        "map_of (taskData mq) k \<noteq> None" by blast
  then show ?thesis
  proof cases
    case early
    then show ?thesis using assms(2) by (auto simp: setTaskAborted_def)
  next
    case new
    then show ?thesis
      using master_inv_aborted [OF learn_task_inv [OF assms(2) new(3)]]
      by (simp add: setTaskAborted_def Let_def) blast
  next
    case known
    have tk: "map_of (taskData (set_consensus k mq)) k \<noteq> None"
      using known(3) by (auto simp: set_consensus_def)
    have c: "map_of (tasksCompleted (set_consensus k mq)) k = None" using known by simp
    obtain mq1 r where mq1: "(case map_of (taskData (set_consensus k mq)) k of
          None \<Rightarrow> (set_consensus k mq, Inl Out_Of_Range)
        | Some tc \<Rightarrow> if HasLeadingBid k (set_consensus k mq) \<and> map_of (tasksStarted (set_consensus k mq)) k = None
            then settle_leader clock k agent tc (set_consensus k mq) else (set_consensus k mq, Inr True))
        = (mq1, Inr r)" "master_inv B mq1"
      using settle_part_ok [OF assms(1) master_inv_set_consensus [OF assms(2)] c tk,
          where P = "map_of (tasksStarted (set_consensus k mq)) k = None"
            and clock = clock and agent = agent] by blast
    let ?mq = "(set_consensus k (release_task k mq1))
        \<lparr>tasksStarted := um_insert k agent (um_erase k (tasksStarted mq1)),
         tasksCompleted := tasksCompleted mq1\<rparr>"
    have "setTaskAborted clock uninit k agent mq = (set_consensus k (release_task k
        (mq1\<lparr>tasksStarted := um_erase k (tasksStarted mq1)\<rparr>))
          \<lparr>tasksStarted := um_insert k agent (um_erase k (tasksStarted mq1))\<rparr>, Inr r)"
      using known mq1(1) unfolding setTaskAborted_def Let_def
      by (auto simp: release_task_def)
    then have "setTaskAborted clock uninit k agent mq = (?mq, Inr r)"
      by (simp add: same_completed release_task_def)
        (simp add: set_consensus_def put_container_def split: option.split)
    moreover have "master_inv B ?mq" by (rule release_ok [OF mq1(2)]) simp_all
    ultimately show ?thesis by blast
  qed
qed

section \<open>The other operations\<close>

lemma master_inv_view: "same_view mq mq' \<Longrightarrow> master_inv B mq' = master_inv B mq"
  by (simp add: master_inv_def same_view_inv)

lemma master_inv_new [simp]: "master_inv B (MasterTaskQueue_new a)"
  by (simp add: master_inv_def known_inv_def container_inv_def award_inv_def MasterTaskQueue_new_def)

lemma AddTaskKey_ok:
  assumes "master_inv B mq"
  shows "master_inv B (fst (AddTaskKey clock uninit k addr prio mq))"
proof (cases "map_of (taskData mq) k")
  case None
  define mq1 where "mq1 = (if addr
      then mq\<lparr>availableTasks := Available_AddTask k prio (availableTasks mq)\<rparr> else mq)"
  have view: "same_view mq mq1" by (simp add: mq1_def same_view_def)
  have inv: "master_inv B mq1" "map_of (taskData mq1) k = None"
    using assms None master_inv_view [OF view] view by (simp_all add: same_view_def)
  let ?mq = "mq1\<lparr>taskData := um_insert k
      (TaskContainer_new clock uninit (mq_agentID mq1) k addr prio) (taskData mq1)\<rparr>"
  have leads: "leads b mq1 \<Longrightarrow> leads b ?mq" for b using inv(2) by (auto simp: leads_def)
  then have "master_inv B ?mq"
    using inv by (auto simp: master_inv_def known_inv_def agent_bids_inv_def container_inv_def
        award_inv_def TaskContainer_new_def BidContainer_new_def)
  moreover have "fst (AddTaskKey clock uninit k addr prio mq) = ?mq"
    using None by (simp add: AddTaskKey_def mq1_def Let_def)
  ultimately show ?thesis by simp
qed (use assms in \<open>simp add: AddTaskKey_def\<close>)

text \<open>Writing the members of a container that are not about bids.\<close>

lemma master_inv_put_other:
  assumes "master_inv B mq" "map_of (taskData mq) k = Some tc" "bidContainer tc' = bidContainer tc"
  shows "master_inv B (put_container k tc' mq)"
proof -
  have inv: "known_inv B {} mq" "container_inv B mq" "award_inv {} mq"
    using assms(1) by (simp_all add: master_inv_def)
  have "container_inv B (put_container k tc' mq)"
    using inv(2) assms(2,3) by (simp add: container_inv_def)
  then show ?thesis
    using known_inv_put_container [OF inv(1) assms(2), of "{}" tc']
      award_inv_put_valid [OF inv(3) assms(2), of tc'] assms(3) by (simp add: master_inv_def)
qed

lemma receive_bundle_ok:
  assumes "distinguishable B" "\<forall>e \<in> set es. agentID (descriptor e) = agent \<and> descriptor e \<in> B"
  shows "master_inv B mq \<Longrightarrow> master_inv B (fst (receive_bundle clock agent es nl mq))
     \<and> (isl (snd (receive_bundle clock agent es nl mq)) \<longrightarrow>
          (\<exists>e \<in> set es. map_of (taskData (fst (receive_bundle clock agent es nl mq)))
             (taskKey (descriptor e)) = None))"
  using assms(2)
proof (induction es arbitrary: nl mq)
  case (Cons e es)
  have e: "agentID (descriptor e) = agent" "descriptor e \<in> B" using Cons.prems(2) by simp_all
  show ?case
  proof (cases "map_of (taskData mq) (taskKey (descriptor e))")
    case None
    then show ?thesis using Cons.prems(1) by (simp add: Master_ReceiveBid_def)
  next
    case (Some tc)
    obtain mq1 r where mq1: "Master_ReceiveBid clock agent (generationTime (descriptor e)) (descriptor e)
        (finalState e) mq = (mq1, Inr r)" "master_inv B mq1"
      using Master_ReceiveBid_ok [OF assms(1) Cons.prems(1) e(2) Some] e(1) by metis
    then show ?thesis using Cons.IH [of mq1 True] Cons.prems(2) by (cases r) auto
  qed
qed simp

lemma master_inv_new_agent:
  assumes "master_inv B mq" "map_of (knownAgentBids mq) a = None"
  shows "master_inv B (mq\<lparr>knownAgentBids := um_insert a [] (knownAgentBids mq)\<rparr>)" (is "master_inv B ?mq")
proof -
  have inv: "known_inv B {} mq" "container_inv B mq" "award_inv {} mq"
    using assms(1) by (simp_all add: master_inv_def)
  have "known_inv B {} ?mq"
    using inv(1) by (auto simp: known_inv_def agent_bids_inv_def leads_def)
  moreover have "container_inv B ?mq" using inv(2) by (simp add: container_inv_def)
  moreover have "award_inv {} ?mq"
    unfolding award_inv_def
  proof (intro allI impI, elim conjE)
    fix k tc
    assume "map_of (taskData ?mq) k = Some tc" "bc_valid (bidContainer tc)"
      "map_of (tasksStarted ?mq) k = None" "map_of (tasksCompleted ?mq) k = None"
    then obtain p where "map_of (awardedTasks mq) k = Some p"
      "awardedAgentID p = agentID (leadingBid (bidContainer tc))"
      "map_of (knownAgentBids mq) (awardedAgentID p) \<noteq> None"
      using inv(3) [unfolded award_inv_def, rule_format, of k tc] by auto
    then show "\<exists>p. map_of (awardedTasks ?mq) k = Some p
        \<and> awardedAgentID p = agentID (leadingBid (bidContainer tc))
        \<and> map_of (knownAgentBids ?mq) (awardedAgentID p) \<noteq> None"
      by (intro exI [of _ p]) simp
  qed
  ultimately show ?thesis by (simp add: master_inv_def)
qed

lemma AddBidBundle_ok:
  assumes "distinguishable B" "bundle_ok bb" "set (bundle_bids bb) \<subseteq> B" "master_inv B mq"
  shows "master_inv B (fst (AddBidBundle clock bb mq))"
    "isl (snd (AddBidBundle clock bb mq)) \<Longrightarrow> \<exists>b \<in> set (bundle_bids bb).
       map_of (taskData (fst (AddBidBundle clock bb mq))) (taskKey b) = None"
proof -
  define mq1 where "mq1 = (if map_of (knownAgentBids mq) (bundle_agentID bb) = None
      then mq\<lparr>knownAgentBids := um_insert (bundle_agentID bb) [] (knownAgentBids mq)\<rparr> else mq)"
  have eq: "AddBidBundle clock bb mq = receive_bundle clock (bundle_agentID bb) (bundle_items bb) False mq1"
    by (simp add: AddBidBundle_def mq1_def Let_def)
  have "master_inv B mq1"
    using assms(4) master_inv_new_agent by (auto simp: mq1_def)
  moreover have "\<forall>e \<in> set (bundle_items bb). agentID (descriptor e) = bundle_agentID bb \<and> descriptor e \<in> B"
    using assms(2,3) by (auto simp: bundle_ok_def bundle_bids_def)
  ultimately show "master_inv B (fst (AddBidBundle clock bb mq))"
    "isl (snd (AddBidBundle clock bb mq)) \<Longrightarrow> \<exists>b \<in> set (bundle_bids bb).
       map_of (taskData (fst (AddBidBundle clock bb mq))) (taskKey b) = None"
    unfolding eq using receive_bundle_ok [OF assms(1), of "bundle_items bb" "bundle_agentID bb" mq1 clock False]
    by (auto simp: bundle_bids_def)
qed

section \<open>Histories\<close>

text \<open>The calls of the queue's users; a bid comes with the number of its sender.\<close>

datatype 'v master_event =
    M_AddTask etime TaskKey TaskKey bool int
  | M_Descriptor TaskDescriptor
  | M_Priority TaskKey int
  | M_Bid etime u64 etime BidDescriptor "'v option"
  | M_Bundle etime "'v BidBundle"
  | M_Scrub etime ScrubMessage
  | M_Completed etime TaskKey TaskKey u64
  | M_Started etime TaskKey TaskKey u64
  | M_Aborted etime TaskKey TaskKey u64
  | M_CurrentCompleted etime TaskKey
  | M_CurrentAborted etime TaskKey
  | M_CurrentStarted etime TaskKey
  | M_AssignedCompleted etime TaskKey TaskKey
  | M_AssignedAborted etime TaskKey TaskKey
  | M_AssignedStarted etime TaskKey TaskKey
  | M_ClearBids
  | M_ClearScrubs
  | M_Stats "AuctionStatistics_Agent option"

definition ran :: "('s, 'a) outcome \<Rightarrow> 's \<times> cpp_error option" where
  "ran r = (fst r, case snd r of Inl e \<Rightarrow> Some e | Inr _ \<Rightarrow> None)"

fun master_step :: "'v master_event \<Rightarrow> 'v MasterTaskQueue \<Rightarrow> 'v MasterTaskQueue \<times> cpp_error option" where
  "master_step (M_AddTask clock u k addr prio) mq = (fst (AddTaskKey clock u k addr prio mq), None)"
| "master_step (M_Descriptor d) mq = ran (AddTaskDescriptor d mq)"
| "master_step (M_Priority k prio) mq = ran (setPriority k prio mq)"
| "master_step (M_Bid clock s ts b st) mq = ran (Master_ReceiveBid clock s ts b st mq)"
| "master_step (M_Bundle clock bb) mq = ran (AddBidBundle clock bb mq)"
| "master_step (M_Scrub clock m) mq = ran (Master_ReceiveScrub clock m mq)"
| "master_step (M_Completed clock u k a) mq = ran (setTaskCompleted clock u k a mq)"
| "master_step (M_Started clock u k a) mq = ran (setTaskStarted clock u k a mq)"
| "master_step (M_Aborted clock u k a) mq = ran (setTaskAborted clock u k a mq)"
| "master_step (M_CurrentCompleted clock u) mq = ran (CurrentTaskCompleted clock u mq)"
| "master_step (M_CurrentAborted clock u) mq = ran (CurrentTaskAborted clock u mq)"
| "master_step (M_CurrentStarted clock u) mq = ran (CurrentTaskStarted clock u mq)"
| "master_step (M_AssignedCompleted clock u k) mq = ran (AssignedTaskCompleted clock u k mq)"
| "master_step (M_AssignedAborted clock u k) mq = ran (AssignedTaskAborted clock u k mq)"
| "master_step (M_AssignedStarted clock u k) mq = ran (AssignedTaskStarted clock u k mq)"
| "master_step M_ClearBids mq = (ClearBidsToBroadcast mq, None)"
| "master_step M_ClearScrubs mq = (ClearScrubMessagesToBroadcast mq, None)"
| "master_step (M_Stats st) mq = (setAuctionStats st mq, None)"

definition master_run :: "'v master_event list \<Rightarrow> 'v MasterTaskQueue \<Rightarrow> 'v MasterTaskQueue" where
  "master_run es mq = fold (\<lambda>e mq. fst (master_step e mq)) es mq"

text \<open>The bids an event delivers come from their own agents and are among \<open>B\<close>.\<close>

fun event_ok :: "BidDescriptor set \<Rightarrow> 'v master_event \<Rightarrow> bool" where
  "event_ok B (M_Bid clock s ts b st) \<longleftrightarrow> s = agentID b \<and> b \<in> B"
| "event_ok B (M_Bundle clock bb) \<longleftrightarrow> bundle_ok bb \<and> set (bundle_bids bb) \<subseteq> B"
| "event_ok B _ \<longleftrightarrow> True"

text \<open>The tasks an event names that have to be known.\<close>

fun event_tasks :: "'v master_event \<Rightarrow> TaskKey set" where
  "event_tasks (M_Descriptor d) = {getTaskKey d}"
| "event_tasks (M_Priority k prio) = {k}"
| "event_tasks (M_Bid clock s ts b st) = {taskKey b}"
| "event_tasks (M_Bundle clock bb) = taskKey ` set (bundle_bids bb)"
| "event_tasks (M_Scrub clock m) = {scrub_taskKey m}"
| "event_tasks _ = {}"

lemma ran_ok: "r = (mq, Inr x) \<Longrightarrow> ran r = (mq, None)"
  by (simp add: ran_def)

lemma master_inv_assigned: "master_inv B mq \<Longrightarrow> master_inv B (mq\<lparr>assignedQueue := q\<rparr>)"
  by (subst master_inv_view [where mq = mq]) simp_all

lemma CurrentTask_ok:
  assumes "distinguishable B" "master_inv B mq"
  shows "\<exists>mq' r. CurrentTaskCompleted clock u mq = (mq', Inr r) \<and> master_inv B mq'"
    "\<exists>mq' r. CurrentTaskAborted clock u mq = (mq', Inr r) \<and> master_inv B mq'"
    "\<exists>mq' r. CurrentTaskStarted clock u mq = (mq', Inr r) \<and> master_inv B mq'"
proof -
  note inv = master_inv_assigned [OF assms(2)]
  show "\<exists>mq' r. CurrentTaskCompleted clock u mq = (mq', Inr r) \<and> master_inv B mq'"
  proof (cases "getCurrentTaskKey (assignedQueue mq)")
    case (Some k)
    from setTaskCompleted_ok [OF assms(1) inv [of "RemoveFront (assignedQueue mq)"], of clock u k]
    obtain mq' r where "setTaskCompleted clock u k (mq_agentID mq)
        (mq\<lparr>assignedQueue := RemoveFront (assignedQueue mq)\<rparr>) = (mq', Inr r)" "master_inv B mq'" by blast
    then show ?thesis by (simp add: CurrentTaskCompleted_def Some Let_def)
  qed (use assms(2) in \<open>simp add: CurrentTaskCompleted_def\<close>)
  show "\<exists>mq' r. CurrentTaskAborted clock u mq = (mq', Inr r) \<and> master_inv B mq'"
  proof (cases "getCurrentTaskKey (assignedQueue mq)")
    case (Some k)
    from setTaskAborted_ok [OF assms(1) inv [of "RemoveFront (assignedQueue mq)"], of clock u k]
    obtain mq' r where "setTaskAborted clock u k (mq_agentID mq)
        (mq\<lparr>assignedQueue := RemoveFront (assignedQueue mq)\<rparr>) = (mq', Inr r)" "master_inv B mq'" by blast
    then show ?thesis by (simp add: CurrentTaskAborted_def Some Let_def)
  qed (use assms(2) in \<open>simp add: CurrentTaskAborted_def\<close>)
  show "\<exists>mq' r. CurrentTaskStarted clock u mq = (mq', Inr r) \<and> master_inv B mq'"
  proof (cases "getCurrentTaskKey (assignedQueue mq)")
    case (Some k)
    define mq1 where "mq1 = (if firstNonConsensusIndex (assignedQueue mq) \<le> 0
      then mq\<lparr>assignedQueue := (assignedQueue mq)\<lparr>firstNonConsensusIndex := 1\<rparr>\<rparr> else mq)"
    have "master_inv B mq1" using assms(2) inv by (simp add: mq1_def)
    from setTaskStarted_ok [OF assms(1) this, of clock u k "mq_agentID mq1"]
    obtain mq' r where "setTaskStarted clock u k (mq_agentID mq1) mq1 = (mq', Inr r)" "master_inv B mq'"
      by blast
    then show ?thesis unfolding CurrentTaskStarted_def Some mq1_def by (simp add: Let_def)
  qed (use assms(2) in \<open>simp add: CurrentTaskStarted_def\<close>)
qed

lemma AssignedTask_ok:
  assumes "distinguishable B" "master_inv B mq"
  shows "\<exists>mq' r. AssignedTaskCompleted clock u k mq = (mq', Inr r) \<and> master_inv B mq'"
    "\<exists>mq' r. AssignedTaskAborted clock u k mq = (mq', Inr r) \<and> master_inv B mq'"
proof -
  obtain q valid where q: "RemoveTask k (assignedQueue mq) = (q, valid)"
    by (cases "RemoveTask k (assignedQueue mq)")
  have inv: "master_inv B (mq\<lparr>assignedQueue := q\<rparr>)" by (rule master_inv_assigned [OF assms(2)])
  from setTaskCompleted_ok [OF assms(1) inv, of clock u k]
  obtain mq' r where "setTaskCompleted clock u k (mq_agentID mq) (mq\<lparr>assignedQueue := q\<rparr>) = (mq', Inr r)"
    "master_inv B mq'" by blast
  then have "AssignedTaskCompleted clock u k mq =
      (if valid then (mq', Inr True) else (mq\<lparr>assignedQueue := q\<rparr>, Inr False))"
    "AssignedTaskAborted clock u k mq =
      (if valid then (mq', Inr True) else (mq\<lparr>assignedQueue := q\<rparr>, Inr False))"
    using q by (simp_all add: AssignedTaskCompleted_def AssignedTaskAborted_def)
  then show "\<exists>mq' r. AssignedTaskCompleted clock u k mq = (mq', Inr r) \<and> master_inv B mq'"
    "\<exists>mq' r. AssignedTaskAborted clock u k mq = (mq', Inr r) \<and> master_inv B mq'"
    using \<open>master_inv B mq'\<close> inv by (cases valid; auto)+
qed

lemma AssignedTaskStarted_ok:
  assumes "distinguishable B" "master_inv B mq"
  shows "master_inv B (fst (AssignedTaskStarted clock u k mq))"
    "snd (AssignedTaskStarted clock u k mq) = Inl err \<Longrightarrow> Begin_NonConsensus (assignedQueue mq) = Inl err"
proof -
  let ?r = "AssignedTaskStarted clock u k mq"
  have "(\<exists>err. ?r = (mq, Inl err) \<and> Begin_NonConsensus (assignedQueue mq) = Inl err) \<or>
      (\<exists>mq' r. ?r = (mq', Inr r) \<and> master_inv B mq')"
  proof (cases "Begin_NonConsensus (assignedQueue mq)")
    case (Inr pos)
    show ?thesis
    proof (cases "find_task_from 0 k (drop pos (aq_tasks (assignedQueue mq)))")
      case (Some i)
      let ?q = "assignedQueue mq"
      have "master_inv B (mq\<lparr>assignedQueue := ?q\<lparr>firstNonConsensusIndex := firstNonConsensusIndex ?q + int i\<rparr>\<rparr>)"
        by (rule master_inv_assigned [OF assms(2)])
      from setTaskStarted_ok [OF assms(1) this, of clock u k "mq_agentID mq"] show ?thesis
        using Inr Some by (auto simp: AssignedTaskStarted_def Let_def)
    qed (use Inr assms(2) in \<open>auto simp: AssignedTaskStarted_def\<close>)
  qed (simp add: AssignedTaskStarted_def)
  then show "master_inv B (fst ?r)" "snd ?r = Inl err \<Longrightarrow> Begin_NonConsensus (assignedQueue mq) = Inl err"
    using assms(2) by auto
qed

text \<open>
  The one operation that can fail for another reason: \<open>AssignedTaskStarted\<close> starts at the first task without
  consensus, whose index may point behind the queue.
\<close>

fun lost_consensus :: "'v master_event \<Rightarrow> 'v MasterTaskQueue \<Rightarrow> bool" where
  "lost_consensus (M_AssignedStarted clock u k) mq \<longleftrightarrow> Begin_NonConsensus (assignedQueue mq) = Inl Undefined_Behaviour"
| "lost_consensus _ mq \<longleftrightarrow> False"

lemma master_step_ok:
  assumes "distinguishable B" "event_ok B e" "master_inv B mq"
  shows "master_inv B (fst (master_step e mq))
     \<and> (snd (master_step e mq) \<noteq> None \<longrightarrow>
          (\<exists>k \<in> event_tasks e. map_of (taskData (fst (master_step e mq))) k = None) \<or> lost_consensus e mq)"
proof (cases e)
  case (M_Descriptor d)
  then show ?thesis
    using assms(3) master_inv_put_other [OF assms(3), of "getTaskKey d"]
    by (cases "map_of (taskData mq) (getTaskKey d)") (simp_all add: AddTaskDescriptor_def ran_def)
next
  case (M_Priority k prio)
  then show ?thesis
    using assms(3) master_inv_put_other [OF assms(3), of k]
    by (cases "map_of (taskData mq) k") (simp_all add: setPriority_def ran_def)
next
  case (M_Bid clock s ts b st)
  show ?thesis
  proof (cases "map_of (taskData mq) (taskKey b)")
    case None
    then show ?thesis using M_Bid assms(3) by (simp add: Master_ReceiveBid_def ran_def)
  next
    case (Some tc)
    have "s = agentID b" "b \<in> B" using assms(2) M_Bid by simp_all
    then show ?thesis
      using Master_ReceiveBid_ok [OF assms(1,3) _ Some, of clock ts st] M_Bid by (auto simp: ran_def)
  qed
next
  case (M_Bundle clock bb)
  then have "bundle_ok bb" "set (bundle_bids bb) \<subseteq> B" using assms(2) by simp_all
  note ok = AddBidBundle_ok [OF assms(1) this assms(3), of clock]
  show ?thesis
  proof (cases "snd (AddBidBundle clock bb mq)")
    case (Inl err)
    then show ?thesis using ok(1) ok(2) by (auto simp: M_Bundle ran_def)
  next
    case (Inr r)
    then show ?thesis using ok(1) by (simp add: M_Bundle ran_def)
  qed
next
  case (M_Scrub clock m)
  show ?thesis
  proof (cases "map_of (taskData mq) (scrub_taskKey m)")
    case None
    then show ?thesis using M_Scrub assms(3) by (simp add: Master_ReceiveScrub_def ran_def)
  next
    case (Some tc)
    then show ?thesis
      using Master_ReceiveScrub_ok [OF assms(1,3) Some, of clock] M_Scrub by (auto simp: ran_def)
  qed
next
  case (M_Completed clock u k a)
  then show ?thesis using setTaskCompleted_ok [OF assms(1,3), of clock u k a] by (auto simp: ran_def)
next
  case (M_Started clock u k a)
  then show ?thesis using setTaskStarted_ok [OF assms(1,3), of clock u k a] by (auto simp: ran_def)
next
  case (M_Aborted clock u k a)
  then show ?thesis using setTaskAborted_ok [OF assms(1,3), of clock u k a] by (auto simp: ran_def)
next
  case (M_CurrentCompleted clock u)
  then show ?thesis using CurrentTask_ok(1) [OF assms(1,3), of clock u] by (auto simp: ran_def)
next
  case (M_CurrentAborted clock u)
  then show ?thesis using CurrentTask_ok(2) [OF assms(1,3), of clock u] by (auto simp: ran_def)
next
  case (M_CurrentStarted clock u)
  then show ?thesis using CurrentTask_ok(3) [OF assms(1,3), of clock u] by (auto simp: ran_def)
next
  case (M_AssignedCompleted clock u k)
  then show ?thesis using AssignedTask_ok(1) [OF assms(1,3), of clock u k] by (auto simp: ran_def)
next
  case (M_AssignedAborted clock u k)
  then show ?thesis using AssignedTask_ok(2) [OF assms(1,3), of clock u k] by (auto simp: ran_def)
next
  case (M_AssignedStarted clock u k)
  then show ?thesis
    using AssignedTaskStarted_ok [OF assms(1,3), of clock u k]
    by (cases "snd (AssignedTaskStarted clock u k mq)") (auto simp: ran_def Begin_NonConsensus_def split: if_splits)
next
  case M_ClearBids
  have "same_view mq (ClearBidsToBroadcast mq)" by (simp add: same_view_def ClearBidsToBroadcast_def)
  then show ?thesis using M_ClearBids assms(3) master_inv_view by auto
next
  case M_ClearScrubs
  have "same_view mq (ClearScrubMessagesToBroadcast mq)"
    by (simp add: same_view_def ClearScrubMessagesToBroadcast_def)
  then show ?thesis using M_ClearScrubs assms(3) master_inv_view by auto
next
  case (M_Stats st)
  have "same_view mq (setAuctionStats st mq)" by (simp add: same_view_def setAuctionStats_def)
  then show ?thesis using M_Stats assms(3) master_inv_view by auto
qed (simp add: AddTaskKey_ok [OF assms(3)])

lemma master_run_ok:
  assumes "distinguishable B" "\<forall>e \<in> set es. event_ok B e"
  shows "master_inv B (master_run es (MasterTaskQueue_new me))"
  using assms(2)
proof (induction es rule: rev_induct)
  case (snoc e es)
  then show ?case using master_step_ok [OF assms(1), of e] by (simp add: master_run_def)
qed (simp add: master_run_def)

end
