(* ===== verification/Master_Properties.thy ===== *)
theory Master_Properties
  imports Master_Safety
begin

text \<open>
  The properties of the master task queue: consistency and absence of exceptions over every history
  (from the invariant of \<open>Master_Safety\<close>), and the behaviour of the scrub, abort and unassigned-task
  operations, with the histories that show what the code does where it departs from its intention.
\<close>

section \<open>What the operations leave alone\<close>

text \<open>The recorded outcomes of the tasks.\<close>

definition status ::
  "'v MasterTaskQueue \<Rightarrow> (TaskKey, u64) umap \<times> (TaskKey, u64) umap \<times> (TaskKey, u64) umap" where
  "status mq = (tasksCompleted mq, tasksAborted mq, tasksStarted mq)"

lemma status_update [simp]:
  "status (mq\<lparr>taskData := x1\<rparr>) = status mq" "status (mq\<lparr>availableTasks := x2\<rparr>) = status mq"
  "status (mq\<lparr>awardedTasks := x3\<rparr>) = status mq" "status (mq\<lparr>assignedQueue := x4\<rparr>) = status mq"
  "status (mq\<lparr>knownAgentBids := x5\<rparr>) = status mq" "status (mq\<lparr>bidsToBroadcast := x6\<rparr>) = status mq"
  "status (mq\<lparr>scrubMessagesToBroadcast := x7\<rparr>) = status mq" "status (mq\<lparr>auctionStats := x8\<rparr>) = status mq"
  "status (put_container k tc mq) = status mq"
  by (simp_all add: status_def put_container_def)

lemma status_parts [simp]:
  "status (note_broadcast act prev b k ts mq) = status mq"
  "status (insert_bid_broadcast b ts mq) = status mq"
  "status (insert_scrub_broadcast m mq) = status mq"
  "status (track_invalidation clock k mq) = status mq"
  "status (track_assignment clock k a u mq) = status mq"
  "status (set_consensus k mq) = status mq"
  by (simp_all add: note_broadcast_def insert_bid_broadcast_def insert_scrub_broadcast_def
      track_invalidation_def track_assignment_def set_consensus_def
      split: ReceiveAction.split option.split)

lemma status_composed [simp]:
  "status (invalidate_one clock b tc mq) = status mq"
  "status (award clock s b st mq) = status mq"
  "status (release_task k mq) = status mq"
  by (simp_all add: invalidate_one_def award_def release_task_def Let_def)

lemma scrubs_frame [simp]:
  "scrubMessagesToBroadcast (put_container k tc mq) = scrubMessagesToBroadcast mq"
  "scrubMessagesToBroadcast (insert_bid_broadcast b ts mq) = scrubMessagesToBroadcast mq"
  "scrubMessagesToBroadcast (invalidate_one clock b tc mq) = scrubMessagesToBroadcast mq"
  by (simp_all add: put_container_def insert_bid_broadcast_def invalidate_one_def
      track_invalidation_def Let_def split: option.split)

lemma invalidate_loop_frame [simp]:
  "status (fst (invalidate_loop clock a kept rest mq)) = status mq"
  "scrubMessagesToBroadcast (fst (invalidate_loop clock a kept rest mq)) = scrubMessagesToBroadcast mq"
  by (induction clock a kept rest mq rule: invalidate_loop.induct)
    (auto simp: Let_def split: option.split)

lemma InvalidateBids_frame [simp]:
  "status (fst (InvalidateBids clock b mq)) = status mq"
  "scrubMessagesToBroadcast (fst (InvalidateBids clock b mq)) = scrubMessagesToBroadcast mq"
  by (simp_all add: InvalidateBids_def Let_def split: option.split)

lemma fst_obind: "fst (obind r f) = (case snd r of Inl e \<Rightarrow> fst r | Inr a \<Rightarrow> fst (f (fst r) a))"
  by (cases r; cases "snd r") auto

lemma status_receive [simp]:
  "status (fst (Master_ReceiveBid clock s ts b st mq)) = status mq"
  by (simp add: Master_ReceiveBid_def Let_def fst_obind split: option.split prod.split sum.split)

lemma status_scrub [simp]: "status (fst (Master_ReceiveScrub clock m mq)) = status mq"
  by (simp add: Master_ReceiveScrub_def Let_def fst_obind
      split: option.split prod.split sum.split ReceiveAction.split)

lemma status_bundle_loop [simp]:
  "status (fst (receive_bundle clock a es nl mq)) = status mq"
proof (induction es arbitrary: nl mq)
  case (Cons e es)
  show ?case using Cons.IH by (simp add: fst_obind split: sum.split)
qed simp

lemma status_bundle [simp]: "status (fst (AddBidBundle clock bb mq)) = status mq"
  by (simp add: AddBidBundle_def Let_def)

lemma status_settle [simp]: "status (fst (settle_leader clock k a tc mq)) = status mq"
  by (simp add: settle_leader_def Let_def fst_obind split: option.split sum.split)

section \<open>Consistency over histories\<close>

text \<open>
  C2: No lookup of the master task queue fails. After any history of operations with bids that come
  from their own agents (none is passed on by another agent) and are told apart by \<open>operator ==\<close>, an operation
  fails only when it names a task that the queue does not know, or when it is \<open>AssignedTaskStarted\<close> and the index
  of the first task without consensus points behind the assigned queue. Starting, completing and aborting a task
  never fail otherwise. The number of the agent is set once, before the first operation.
\<close>

theorem master_never_throws:
  assumes "distinguishable B" "\<forall>e' \<in> set es. event_ok B e'" "event_ok B e"
    "snd (master_step e (master_run es (MasterTaskQueue_new me))) \<noteq> None"
  shows "(\<exists>k \<in> event_tasks e. \<not> HasTask k (fst (master_step e (master_run es (MasterTaskQueue_new me)))))
     \<or> (\<exists>clock u k. e = M_AssignedStarted clock u k) \<and>
        Begin_NonConsensus (assignedQueue (master_run es (MasterTaskQueue_new me))) = Inl Undefined_Behaviour"
  using master_step_ok [OF assms(1,3) master_run_ok [OF assms(1,2)]] assms(4)
  by (cases e) (auto simp: HasTask_def)

text \<open>
  C3: After any history of operations with bids that come from their own agents and are told apart by
  \<open>operator ==\<close>, the number of the agent being set once before it, the maps agree: the bids kept for an
  agent are its own, in the order of their generation times, each the valid leading bid of its task; and a task with
  a valid leading bid that was neither started nor completed is awarded to the leading agent.
\<close>

theorem master_consistent:
  assumes "distinguishable B" "\<forall>e \<in> set es. event_ok B e"
    "mq = master_run es (MasterTaskQueue_new me)"
  shows "(map_of (knownAgentBids mq) a = Some m \<longrightarrow>
       sorted_wrt (\<lambda>x y. \<not> time_lt (generationTime (snd y)) (generationTime (snd x))) m
       \<and> (\<forall>e \<in> set m. agentID (snd e) = a \<and> leads (snd e) mq))
     \<and> (map_of (taskData mq) k = Some tc \<and> bc_valid (bidContainer tc)
          \<and> getTaskStarted k mq = None \<and> getTaskCompleted k mq = None \<longrightarrow>
        (\<exists>p. map_of (awardedTasks mq) k = Some p
           \<and> awardedAgentID p = agentID (leadingBid (bidContainer tc))))"
proof -
  have inv: "known_inv B {} mq" "award_inv {} mq"
    using master_run_ok [OF assms(1,2), of me] by (simp_all add: assms(3) master_inv_def)
  have "sorted_wrt (\<lambda>x y. \<not> time_lt (generationTime (snd y)) (generationTime (snd x))) m
       \<and> (\<forall>e \<in> set m. agentID (snd e) = a \<and> leads (snd e) mq)"
    if "map_of (knownAgentBids mq) a = Some m"
  proof -
    have a: "agent_bids_inv B {} mq a m" using inv(1) that by (simp add: known_inv_def)
    then have "sorted_wrt (\<lambda>x y. \<not> time_lt (fst y) (fst x)) m"
      by (simp add: agent_bids_inv_def mm_ok_def)
    then have "sorted_wrt (\<lambda>x y. \<not> time_lt (generationTime (snd y)) (generationTime (snd x))) m"
      by (rule sorted_wrt_mono_rel [rotated]) (use a in \<open>auto simp: agent_bids_inv_def\<close>)
    then show ?thesis using a by (simp add: agent_bids_inv_def)
  qed
  then show ?thesis
    using inv(2) unfolding award_inv_def getTaskStarted_def getTaskCompleted_def by blast
qed

lemma add_tasks_keys: "map fst (aq_tasks (add_tasks ks q)) = map fst (aq_tasks q) @ ks"
  by (induction ks arbitrary: q) (simp_all add: AddTask_def)

lemma believed_tasks:
  assumes "known_inv B {} mq" "a \<noteq> mq_agentID mq"
  shows "distinct (map fst (aq_tasks (fst (getBelievedAssignedTasks a mq))))
     \<and> (\<forall>k \<in> fst ` set (aq_tasks (fst (getBelievedAssignedTasks a mq))).
          \<exists>b. taskKey b = k \<and> agentID b = a \<and> leads b mq)"
proof (cases "map_of (knownAgentBids mq) a")
  case None
  then show ?thesis using assms(2) by (simp add: getBelievedAssignedTasks_def AssignmentTaskQueue_new_def)
next
  case (Some m)
  have a: "agent_bids_inv B {} mq a m" using assms(1) Some by (simp add: known_inv_def)
  have keys: "map fst (aq_tasks (fst (getBelievedAssignedTasks a mq))) = map (taskKey \<circ> snd) m"
    using assms(2) Some
    by (simp add: getBelievedAssignedTasks_def add_tasks_keys AssignmentTaskQueue_new_def)
  have "inj_on taskKey (snd ` set m)"
    using a leads_unique unfolding inj_on_def agent_bids_inv_def by blast
  then have "distinct (map (taskKey \<circ> snd) m)"
    using a by (simp add: agent_bids_inv_def distinct_map comp_inj_on)
  moreover have "\<forall>k \<in> set (map (taskKey \<circ> snd) m). \<exists>b. taskKey b = k \<and> agentID b = a \<and> leads b mq"
    using a by (auto simp: agent_bids_inv_def)
  ultimately show ?thesis by (metis keys list.set_map)
qed

text \<open>
  C23: The believed assignments are free of conflicts: after any history of operations with bids that come from
  their own agents and are told apart by \<open>operator ==\<close>, two different other agents are never believed
  to be assigned the same task, and no agent the same task twice.
\<close>

theorem believed_assignments_disjoint:
  assumes "distinguishable B" "\<forall>e \<in> set es. event_ok B e"
    "mq = master_run es (MasterTaskQueue_new me)"
    "a \<noteq> mq_agentID mq" "a' \<noteq> mq_agentID mq" "a \<noteq> a'"
  shows "fst ` set (aq_tasks (fst (getBelievedAssignedTasks a mq)))
       \<inter> fst ` set (aq_tasks (fst (getBelievedAssignedTasks a' mq))) = {}
     \<and> distinct (map fst (aq_tasks (fst (getBelievedAssignedTasks a mq))))"
proof -
  have inv: "known_inv B {} mq"
    using master_run_ok [OF assms(1,2), of me] by (simp add: assms(3) master_inv_def)
  show ?thesis
    using believed_tasks [OF inv assms(4)] believed_tasks [OF inv assms(5)] assms(6) leads_unique
    by blast
qed

section \<open>Scrubs, aborts and unassigned tasks\<close>

text \<open>
  A scrub is never passed on. \<open>ReceiveScrubMessage\<close> asks the bid container twice and acts on the
  second answer, which never asks for a broadcast of the scrub, so the messages to be sent stay as
  they were although the first answer may have asked for it.
\<close>

theorem scrub_never_forwarded:
  "scrubMessagesToBroadcast (fst (Master_ReceiveScrub clock m mq)) = scrubMessagesToBroadcast mq"
proof (cases "map_of (taskData mq) (scrub_taskKey m)")
  case (Some tc)
  obtain bc1 a1 where r1: "ReceiveScrub clock m (bidContainer tc) = (bc1, a1)"
    by (cases "ReceiveScrub clock m (bidContainer tc)")
  obtain bc2 a2 where r2: "ReceiveScrub clock m bc1 = (bc2, a2)" by (cases "ReceiveScrub clock m bc1")
  have "a2 \<noteq> BroadcastScrub"
    using ReceiveScrub_again [of clock m clock "bidContainer tc"] r1 r2 by simp
  then show ?thesis
    by (simp add: Master_ReceiveScrub_def Some r1 r2 Let_def fst_obind
        split: ReceiveAction.split sum.split)
qed (simp add: Master_ReceiveScrub_def)

lemma tasks_settle:
  "tasksCompleted (fst (settle_leader clock k a tc mq)) = tasksCompleted mq"
  "tasksAborted (fst (settle_leader clock k a tc mq)) = tasksAborted mq"
  "tasksStarted (fst (settle_leader clock k a tc mq)) = tasksStarted mq"
  using status_settle [of clock k a tc mq] by (simp_all add: status_def del: status_settle)

lemma tasks_set_consensus:
  "tasksCompleted (set_consensus k mq) = tasksCompleted mq"
  "tasksAborted (set_consensus k mq) = tasksAborted mq"
  "tasksStarted (set_consensus k mq) = tasksStarted mq"
  by (simp_all add: set_consensus_def put_container_def split: option.split)

lemma abort_records:
  assumes "setTaskAborted clock u k a mq = (mq', Inr r)" "HasTask k mq"
    "getTaskAborted k mq = None" "getTaskCompleted k mq = None"
  shows "tasksAborted mq' = tasksAborted mq" "map_of (tasksStarted mq') k = Some a"
proof -
  obtain tc where tc: "map_of (taskData (set_consensus k mq)) k = Some tc"
    using assms(2) by (auto simp: HasTask_def set_consensus_def)
  define mid where "mid = (if HasLeadingBid k (set_consensus k mq) \<and> map_of (tasksStarted (set_consensus k mq)) k = None
    then settle_leader clock k a tc (set_consensus k mq) else (set_consensus k mq, Inr True))"
  have mid: "tasksAborted (fst mid) = tasksAborted mq"
    by (simp add: mid_def tasks_settle tasks_set_consensus)
  have eq: "setTaskAborted clock u k a mq = obind mid (\<lambda>mq rebroadcast.
       let mq = mq\<lparr>tasksStarted := um_erase k (tasksStarted mq)\<rparr>;
           mq = release_task k mq; mq = set_consensus k mq
       in (mq\<lparr>tasksStarted := um_insert k a (tasksStarted mq)\<rparr>, Inr rebroadcast))"
    using assms(2-4) tc by (auto simp: setTaskAborted_def HasTask_def getTaskAborted_def
        getTaskCompleted_def mid_def Let_def)
  obtain mq1 r' where "mid = (mq1, Inr r')"
    using assms(1) eq by (cases mid; cases "snd mid") auto
  then show "tasksAborted mq' = tasksAborted mq" "map_of (tasksStarted mq') k = Some a"
    using assms(1) eq mid by (auto simp: Let_def tasks_set_consensus release_task_def)
qed

text \<open>
  Aborting a known task records it as started, never as aborted: when \<open>setTaskAborted\<close> returns on
  a task that is known and has no outcome yet, \<open>getTaskAborted\<close> still says no, and \<open>getTaskStarted\<close>
  names the aborting agent.
\<close>

theorem abort_recorded_as_start:
  assumes "setTaskAborted clock u k a mq = (mq', Inr r)" "HasTask k mq"
    "getTaskAborted k mq = None" "getTaskCompleted k mq = None"
  shows "getTaskAborted k mq' = None \<and> getTaskStarted k mq' = Some a"
  using abort_records [OF assms] assms(3) by (simp add: getTaskAborted_def getTaskStarted_def)

definition outcomes_disjoint :: "'v MasterTaskQueue \<Rightarrow> bool" where
  "outcomes_disjoint mq \<longleftrightarrow>
     (\<forall>k. map_of (tasksAborted mq) k = None \<or> map_of (tasksCompleted mq) k = None)"

lemma outcomes_status: "status mq' = status mq \<Longrightarrow> outcomes_disjoint mq' = outcomes_disjoint mq"
  by (simp add: outcomes_disjoint_def status_def)

text \<open>The end of \<open>setTaskCompleted\<close> adds a completion only, the others add none.\<close>

lemma completed_disjoint:
  assumes "outcomes_disjoint mq"
  shows "outcomes_disjoint (fst (setTaskCompleted clock u k a mq))"
proof (cases "map_of (tasksCompleted mq) k = None \<and> map_of (tasksAborted mq) k = None")
  case True
  then show ?thesis
    using assms by (auto simp: setTaskCompleted_def fst_obind Let_def outcomes_disjoint_def
        learn_task_def release_task_def tasks_settle tasks_set_consensus
        split: option.split sum.split)
next
  case False
  then show ?thesis using assms by (auto simp: setTaskCompleted_def)
qed

lemma started_disjoint:
  assumes "outcomes_disjoint mq"
  shows "outcomes_disjoint (fst (setTaskStarted clock u k a mq))"
  using assms by (auto simp: setTaskStarted_def fst_obind Let_def outcomes_disjoint_def
      learn_task_def release_task_def tasks_settle tasks_set_consensus split: option.split sum.split)

lemma aborted_disjoint:
  assumes "outcomes_disjoint mq"
  shows "outcomes_disjoint (fst (setTaskAborted clock u k a mq))"
proof (cases "map_of (tasksCompleted mq) k")
  case None
  then show ?thesis
    using assms by (auto simp: setTaskAborted_def fst_obind Let_def outcomes_disjoint_def
        learn_task_def release_task_def tasks_settle tasks_set_consensus
        split: option.split sum.split)
next
  case (Some x)
  then show ?thesis using assms by (simp add: setTaskAborted_def)
qed

lemma assigned_disjoint: "outcomes_disjoint mq \<Longrightarrow> outcomes_disjoint (mq\<lparr>assignedQueue := q\<rparr>)"
  by (simp add: outcomes_disjoint_def)

lemma step_disjoint:
  assumes "outcomes_disjoint mq"
  shows "outcomes_disjoint (fst (master_step e mq))"
proof (cases e)
  case (M_AddTask clock u k addr prio)
  then show ?thesis
    using assms by (simp add: AddTaskKey_def outcomes_disjoint_def Let_def)
next
  case (M_Descriptor d)
  then show ?thesis
    using assms by (simp add: ran_def AddTaskDescriptor_def outcomes_disjoint_def put_container_def
        split: option.split)
next
  case (M_Priority k prio)
  then show ?thesis
    using assms by (simp add: ran_def setPriority_def outcomes_disjoint_def put_container_def
        split: option.split)
qed (use assms in \<open>auto simp: ran_def outcomes_status [OF status_receive]
    outcomes_status [OF status_bundle] outcomes_status [OF status_scrub] completed_disjoint
    started_disjoint aborted_disjoint CurrentTaskCompleted_def CurrentTaskAborted_def
    CurrentTaskStarted_def AssignedTaskCompleted_def AssignedTaskAborted_def AssignedTaskStarted_def fst_obind Let_def
    assigned_disjoint split: option.split sum.split prod.split\<close>,
    auto simp: outcomes_disjoint_def ClearBidsToBroadcast_def ClearScrubMessagesToBroadcast_def
      setAuctionStats_def)

text \<open>
  \<open>getUnassignedTasks\<close> never returns a task: its condition asks for a task that is recorded as
  started, aborted and completed at once, and over every history (of any operations and bids) no task
  is both aborted and completed.
\<close>

theorem no_unassigned_task_reported:
  "getUnassignedTasks (master_run es (MasterTaskQueue_new me)) = []"
proof -
  have "outcomes_disjoint (master_run es (MasterTaskQueue_new me))"
    by (induction es rule: rev_induct)
      (simp_all add: master_run_def step_disjoint, simp add: outcomes_disjoint_def MasterTaskQueue_new_def)
  then show ?thesis
    unfolding getUnassignedTasks_def filter_empty_conv outcomes_disjoint_def by metis
qed

section \<open>The own tasks\<close>

lemma completion_records:
  assumes "setTaskCompleted clock u k a mq = (mq', Inr r)"
    "getTaskAborted k mq = None" "getTaskCompleted k mq = None"
  shows "map_of (tasksCompleted mq') k = Some a" "tasksAborted mq' = tasksAborted mq"
proof -
  have "map_of (tasksCompleted mq') k = Some a \<and> tasksAborted mq' = tasksAborted mq"
  proof (cases "map_of (taskData mq) k")
    case None
    then show ?thesis
      using assms by (auto simp: setTaskCompleted_def getTaskAborted_def getTaskCompleted_def
          learn_task_def Let_def)
  next
    case (Some tc0)
    then obtain tc where tc: "map_of (taskData (set_consensus k mq)) k = Some tc"
      by (auto simp: set_consensus_def)
    define mid where "mid = (if HasLeadingBid k (set_consensus k mq) \<and> map_of (tasksStarted (set_consensus k mq)) k = None
      then settle_leader clock k a tc (set_consensus k mq) else (set_consensus k mq, Inr True))"
    have mid: "tasksAborted (fst mid) = tasksAborted mq" "tasksCompleted (fst mid) = tasksCompleted mq"
      by (simp_all add: mid_def tasks_settle tasks_set_consensus)
    have eq: "setTaskCompleted clock u k a mq = obind mid (\<lambda>mq rebroadcast.
         let mq = release_task k mq; mq = set_consensus k mq
         in (mq\<lparr>tasksCompleted := um_insert k a (tasksCompleted mq),
                tasksStarted := um_erase k (tasksStarted mq)\<rparr>, Inr rebroadcast))"
      using assms(2,3) Some tc by (auto simp: setTaskCompleted_def getTaskAborted_def
          getTaskCompleted_def mid_def Let_def)
    obtain mq1 r' where "mid = (mq1, Inr r')"
      using assms(1) eq by (cases mid; cases "snd mid") auto
    then show ?thesis
      using assms(1,3) eq mid by (auto simp: Let_def getTaskCompleted_def tasks_set_consensus release_task_def)
  qed
  then show "map_of (tasksCompleted mq') k = Some a" "tasksAborted mq' = tasksAborted mq"
    by simp_all
qed

text \<open>
  Aborting an assigned task out of order records it as completed by this agent: when
  \<open>AssignedTaskAborted\<close> reports success on a task without outcome, \<open>getTaskCompleted\<close> names this
  agent and \<open>getTaskAborted\<close> says no.
\<close>

theorem assigned_abort_recorded_as_completion:
  assumes "AssignedTaskAborted clock u k mq = (mq', Inr True)"
    "getTaskAborted k mq = None" "getTaskCompleted k mq = None"
  shows "getTaskCompleted k mq' = Some (mq_agentID mq) \<and> getTaskAborted k mq' = None"
proof -
  obtain q valid where q: "RemoveTask k (assignedQueue mq) = (q, valid)"
    by (cases "RemoveTask k (assignedQueue mq)")
  obtain mq1 r where r: "setTaskCompleted clock u k (mq_agentID mq) (mq\<lparr>assignedQueue := q\<rparr>) = (mq1, r)"
    by (cases "setTaskCompleted clock u k (mq_agentID mq) (mq\<lparr>assignedQueue := q\<rparr>)")
  have "valid" using assms(1) q by (auto simp: AssignedTaskAborted_def Let_def split: if_splits)
  then obtain r' where "r = Inr r'" "mq' = mq1"
    using assms(1) q r by (cases r) (auto simp: AssignedTaskAborted_def Let_def)
  then show ?thesis
    using completion_records [of clock u k "mq_agentID mq" "mq\<lparr>assignedQueue := q\<rparr>" mq' r'] r assms(2,3)
    by (simp add: getTaskAborted_def getTaskCompleted_def)
qed

text \<open>
  Completing the last task of the own queue out of order is lost: \<open>AssignedTaskCompleted\<close> takes the
  task out of the queue but reports that it was not assigned, and records no completion.
\<close>

theorem last_assigned_completion_lost:
  assumes "distinct (map fst (aq_tasks (assignedQueue mq)))" "aq_tasks (assignedQueue mq) \<noteq> []"
    "k = fst (last (aq_tasks (assignedQueue mq)))"
  shows "snd (AssignedTaskCompleted clock u k mq) = Inr False
     \<and> k \<notin> fst ` set (aq_tasks (assignedQueue (fst (AssignedTaskCompleted clock u k mq))))
     \<and> getTaskCompleted k (fst (AssignedTaskCompleted clock u k mq)) = getTaskCompleted k mq"
proof -
  define ts where "ts = aq_tasks (assignedQueue mq)"
  have mem: "k \<in> fst ` set ts" using assms(2,3) last_in_set by (auto simp: ts_def)
  then obtain i where i: "find_task_from 0 k ts = Some i"
    using find_task_from_None [of 0 k ts] by (cases "find_task_from 0 k ts") auto
  have p: "i < length ts" "fst (ts ! i) = k" using find_task_0_Some [OF i] by blast+
  then have "Suc i = length ts"
    using last_key_iff [of ts i] assms(1,3) by (simp add: ts_def)
  moreover have "k \<notin> fst ` set (take i ts)" using find_task_0_Some [OF i] by blast
  ultimately show ?thesis
    using RemoveTask_present [of k "assignedQueue mq" i] i
    by (simp add: AssignedTaskCompleted_def ts_def [symmetric] getTaskCompleted_def Let_def)
qed

section \<open>Example histories\<close>

definition ex_add :: "nat master_event" where
  "ex_add = M_AddTask (ex_time 0) ex_key ex_key True 0"

text \<open>Agent 1 learns a task, agent 2 bids for it.\<close>

definition ex_history :: "nat master_event list" where
  "ex_history = [ex_add, M_Bid (ex_time 2) 2 (ex_time 2) (ex_bid 2 10 1) None]"

definition ex_mq :: "nat master_event list \<Rightarrow> nat MasterTaskQueue" where
  "ex_mq es = master_run es (MasterTaskQueue_new 1)"

lemma ex_distinguishable: "distinguishable {ex_bid 2 10 1}"
proof -
  have "bid_eq (ex_bid 2 10 1) (ex_bid 2 10 1)" by code_simp
  then show ?thesis by (simp add: distinguishable_def)
qed

lemma ex_history_ok: "\<forall>e \<in> set ex_history. event_ok {ex_bid 2 10 1} e"
  by (simp add: ex_history_def ex_add_def)

theorem master_never_throws_witness:
  "snd (master_step (M_Priority \<lparr>creatorID = 1, taskID = 8\<rparr> 3) (ex_mq ex_history)) \<noteq> None
   \<and> \<not> HasTask \<lparr>creatorID = 1, taskID = 8\<rparr>
       (fst (master_step (M_Priority \<lparr>creatorID = 1, taskID = 8\<rparr> 3) (ex_mq ex_history)))"
proof -
  let ?e = "M_Priority \<lparr>creatorID = 1, taskID = 8\<rparr> 3 :: nat master_event"
  have throws: "snd (master_step ?e (ex_mq ex_history)) \<noteq> None" by code_simp
  then have "\<exists>k \<in> event_tasks ?e. \<not> HasTask k (fst (master_step ?e (ex_mq ex_history)))"
    unfolding ex_mq_def
    using master_never_throws [OF ex_distinguishable ex_history_ok, of ?e 1] by simp
  then show ?thesis using throws by simp
qed

theorem master_consistent_witness:
  "\<exists>p. map_of (awardedTasks (ex_mq ex_history)) ex_key = Some p
     \<and> awardedAgentID p = agentID (ex_bid 2 10 1)"
proof -
  have "(case map_of (taskData (ex_mq ex_history)) ex_key of None \<Rightarrow> False
      | Some tc \<Rightarrow> bc_valid (bidContainer tc) \<and> agentID (leadingBid (bidContainer tc)) = 2)
      \<and> getTaskStarted ex_key (ex_mq ex_history) = None
      \<and> getTaskCompleted ex_key (ex_mq ex_history) = None"
    by code_simp
  then obtain tc where "map_of (taskData (ex_mq ex_history)) ex_key = Some tc"
    "bc_valid (bidContainer tc)" "agentID (leadingBid (bidContainer tc)) = 2"
    "getTaskStarted ex_key (ex_mq ex_history) = None"
    "getTaskCompleted ex_key (ex_mq ex_history) = None"
    by (auto split: option.splits)
  then show ?thesis
    using master_consistent [OF ex_distinguishable ex_history_ok, of "ex_mq ex_history" 1 2 _ ex_key tc]
    by (simp add: ex_mq_def)
qed

theorem believed_assignments_disjoint_witness:
  "fst ` set (aq_tasks (fst (getBelievedAssignedTasks 2 (ex_mq ex_history)))) = {ex_key}
   \<and> ex_key \<notin> fst ` set (aq_tasks (fst (getBelievedAssignedTasks 3 (ex_mq ex_history))))"
proof -
  have two: "map fst (aq_tasks (fst (getBelievedAssignedTasks 2 (ex_mq ex_history)))) = [ex_key]"
    "mq_agentID (ex_mq ex_history) = 1"
    by code_simp+
  have "fst ` set (aq_tasks (fst (getBelievedAssignedTasks 2 (ex_mq ex_history)))) = {ex_key}"
    using arg_cong [OF two(1), of set] by simp
  then show ?thesis
    using believed_assignments_disjoint [OF ex_distinguishable ex_history_ok,
        of "ex_mq ex_history" 1 2 3] two(2)
    by (auto simp: ex_mq_def)
qed

theorem abort_recorded_as_start_witness:
  "getTaskAborted ex_key (fst (setTaskAborted (ex_time 3) ex_key ex_key 2 (ex_mq ex_history))) = None
   \<and> getTaskStarted ex_key (fst (setTaskAborted (ex_time 3) ex_key ex_key 2 (ex_mq ex_history))) = Some 2"
proof -
  let ?r = "setTaskAborted (ex_time 3) ex_key ex_key 2 (ex_mq ex_history)"
  have "snd ?r = Inr False" "HasTask ex_key (ex_mq ex_history)"
    "getTaskAborted ex_key (ex_mq ex_history) = None" "getTaskCompleted ex_key (ex_mq ex_history) = None"
    by code_simp+
  moreover have "?r = (fst ?r, snd ?r)" by simp
  ultimately show ?thesis
    using abort_recorded_as_start [of "ex_time 3" ex_key ex_key 2 "ex_mq ex_history" "fst ?r" False]
    by simp
qed

text \<open>Agent 1 takes two tasks itself.\<close>

definition ex_key2 :: TaskKey where
  "ex_key2 = \<lparr>creatorID = 1, taskID = 8\<rparr>"

definition ex_own :: "nat MasterTaskQueue" where
  "ex_own = (ex_mq [ex_add, M_AddTask (ex_time 0) ex_key ex_key2 True 0])
     \<lparr>assignedQueue := \<lparr>aq_tasks = [(ex_key, None), (ex_key2, None)], firstNonConsensusIndex = 0\<rparr>\<rparr>"

theorem assigned_abort_recorded_as_completion_witness:
  "getTaskCompleted ex_key (fst (AssignedTaskAborted (ex_time 3) ex_key ex_key ex_own)) = Some 1"
proof -
  let ?r = "AssignedTaskAborted (ex_time 3) ex_key ex_key ex_own"
  have "snd ?r = Inr True" "getTaskAborted ex_key ex_own = None" "getTaskCompleted ex_key ex_own = None"
    "mq_agentID ex_own = 1"
    by code_simp+
  moreover have "?r = (fst ?r, snd ?r)" by simp
  ultimately show ?thesis
    using assigned_abort_recorded_as_completion [of "ex_time 3" ex_key ex_key ex_own "fst ?r"]
    by simp
qed

theorem last_assigned_completion_lost_witness:
  "snd (AssignedTaskCompleted (ex_time 3) ex_key ex_key2 ex_own) = Inr False
   \<and> getTaskCompleted ex_key2 (fst (AssignedTaskCompleted (ex_time 3) ex_key ex_key2 ex_own)) = None"
proof -
  have "aq_tasks (assignedQueue ex_own) = [(ex_key, None), (ex_key2, None)]"
    by (simp add: ex_own_def)
  moreover have "getTaskCompleted ex_key2 ex_own = None" "ex_key \<noteq> ex_key2" by code_simp+
  ultimately show ?thesis
    using last_assigned_completion_lost [of ex_own ex_key2 "ex_time 3" ex_key] by simp
qed

section \<open>Outside the invariant\<close>

text \<open>
  A relayed bid breaks the queue: when agent 2 passes on a bid of agent 3, the task is awarded to
  the sender, and its completion by the sender looks up bids of agent 2 that are not kept and throws.
\<close>

theorem relayed_bid_breaks_completion:
  "(let mq = ex_mq [ex_add, M_Bid (ex_time 2) 2 (ex_time 2) (ex_bid 3 10 1) None]
    in map_option awardedAgentID (map_of (awardedTasks mq) ex_key) = Some 2
     \<and> map_option (\<lambda>tc. agentID (leadingBid (bidContainer tc))) (map_of (taskData mq) ex_key) = Some 3
     \<and> snd (setTaskCompleted (ex_time 3) ex_key ex_key 2 mq) = Inl Out_Of_Range)"
  by code_simp

text \<open>The same bid, generated one microsecond later.\<close>

definition ex_rebid :: BidDescriptor where
  "ex_rebid = (ex_bid 2 10 1)\<lparr>generationTime := (ex_time 1)\<lparr>microsecond := 1\<rparr>\<rparr>"

text \<open>
  A bid that an agent repeats within the tolerance of \<open>operator ==\<close> loses the task: the comparison
  is not symmetric, so the repeated bid is taken as a new leader and then invalidated as if it were
  the previous one. The task stays awarded to the agent although no bid leads it.
\<close>

theorem repeated_bid_loses_leader:
  "(let mq = ex_mq (ex_history @ [M_Bid (ex_time 4) 2 (ex_time 4) ex_rebid None])
    in map_option awardedAgentID (map_of (awardedTasks mq) ex_key) = Some 2
     \<and> map_option (\<lambda>tc. leadingBid (bidContainer tc) = ex_rebid \<and> bc_valid (bidContainer tc))
         (map_of (taskData mq) ex_key) = Some False)"
  by code_simp

text \<open>
  A completed task the queue did not know can be auctioned again: \<open>setTaskCompleted\<close> records the
  completion of an unknown task but does not mark consensus, so the next bid becomes its leader.
\<close>

theorem completed_task_auctioned_again:
  "(let mq = ex_mq [M_Completed (ex_time 0) ex_key ex_key 3,
                    M_Bid (ex_time 2) 2 (ex_time 2) (ex_bid 2 10 1) None]
    in getTaskCompleted ex_key mq = Some 3
     \<and> map_option awardedAgentID (map_of (awardedTasks mq) ex_key) = Some 2)"
  by code_simp

end
