(* ===== verification/Mission.thy ===== *)
theory Mission
  imports Std_Map
begin

text \<open>
  The mission data (\<open>src/src/data_generic_command_item/mission_items\<close>): the enumerations of mission
  types, mission states and execution states with their names, the mission key with its comparison
  operators, and the mission list. A command item of a list is a shared pointer: \<open>None\<close> is the null
  pointer, and the type parameter stands for what it points to.
\<close>

section \<open>Enumerations\<close>

datatype MISSIONTYPE = AUTO | GUIDED | ROI | FENCE | RALLY | MISSIONTYPE_ALL

datatype MISSIONSTATE = CURRENT | ONBOARD | PROPOSED | RECEIVED | OUTDATED | UNKNWON

datatype MissionExecutionState =
  MESTATE_UNEXECUTED | MESTATE_EXECUTING | MESTATE_PAUSED | MESTATE_COMPLETED | MESTATE_ABORTED

text \<open>The values of the enumerators, which \<open>operator >\<close> compares.\<close>

primrec type_code :: "MISSIONTYPE \<Rightarrow> u8" where
  "type_code AUTO = 0"
| "type_code GUIDED = 1"
| "type_code ROI = 2"
| "type_code FENCE = 3"
| "type_code RALLY = 4"
| "type_code MISSIONTYPE_ALL = 5"

primrec state_code :: "MISSIONSTATE \<Rightarrow> u8" where
  "state_code CURRENT = 0"
| "state_code ONBOARD = 1"
| "state_code PROPOSED = 2"
| "state_code RECEIVED = 3"
| "state_code OUTDATED = 4"
| "state_code UNKNWON = 5"

lemma type_code_inject: "type_code a = type_code b \<longleftrightarrow> a = b"
  by (cases a; cases b) simp_all

lemma state_code_inject: "state_code a = state_code b \<longleftrightarrow> a = b"
  by (cases a; cases b) simp_all

instantiation MISSIONTYPE :: linorder
begin

definition less_eq_MISSIONTYPE :: "MISSIONTYPE \<Rightarrow> MISSIONTYPE \<Rightarrow> bool" where
  "less_eq_MISSIONTYPE a b \<longleftrightarrow> type_code a \<le> type_code b"

definition less_MISSIONTYPE :: "MISSIONTYPE \<Rightarrow> MISSIONTYPE \<Rightarrow> bool" where
  "less_MISSIONTYPE a b \<longleftrightarrow> type_code a < type_code b"

instance
  by standard (auto simp: less_eq_MISSIONTYPE_def less_MISSIONTYPE_def type_code_inject [symmetric])

end

instantiation MISSIONSTATE :: linorder
begin

definition less_eq_MISSIONSTATE :: "MISSIONSTATE \<Rightarrow> MISSIONSTATE \<Rightarrow> bool" where
  "less_eq_MISSIONSTATE a b \<longleftrightarrow> state_code a \<le> state_code b"

definition less_MISSIONSTATE :: "MISSIONSTATE \<Rightarrow> MISSIONSTATE \<Rightarrow> bool" where
  "less_MISSIONSTATE a b \<longleftrightarrow> state_code a < state_code b"

instance
  by standard (auto simp: less_eq_MISSIONSTATE_def less_MISSIONSTATE_def state_code_inject [symmetric])

end

text \<open>The names; the switch and the chain of comparisons end in a \<open>std::runtime_error\<close>.\<close>

primrec MissionTypeToString :: "MISSIONTYPE \<Rightarrow> cpp_error + string" where
  "MissionTypeToString AUTO = Inr ''AUTO''"
| "MissionTypeToString GUIDED = Inr ''GUIDED''"
| "MissionTypeToString ROI = Inr ''ROI''"
| "MissionTypeToString FENCE = Inr ''FENCE''"
| "MissionTypeToString RALLY = Inr ''RALLY''"
| "MissionTypeToString MISSIONTYPE_ALL = Inr ''ALL''"

definition MissionTypeFromString :: "string \<Rightarrow> cpp_error + MISSIONTYPE" where
  "MissionTypeFromString str =
     (if str = ''AUTO'' then Inr AUTO
      else if str = ''GUIDED'' then Inr GUIDED
      else if str = ''ROI'' then Inr ROI
      else if str = ''FENCE'' then Inr FENCE
      else if str = ''RALLY'' then Inr RALLY
      else if str = ''ALL'' then Inr MISSIONTYPE_ALL
      else Inl (Runtime_Error ''Unknown string MissionType seen''))"

primrec MissionStateToString :: "MISSIONSTATE \<Rightarrow> cpp_error + string" where
  "MissionStateToString CURRENT = Inr ''CURRENT''"
| "MissionStateToString ONBOARD = Inr ''ONBOARD''"
| "MissionStateToString PROPOSED = Inr ''PROPOSED''"
| "MissionStateToString RECEIVED = Inr ''RECEIVED''"
| "MissionStateToString OUTDATED = Inr ''OUTDATED''"
| "MissionStateToString UNKNWON = Inl (Runtime_Error ''Unknown MISSIONSTATE seen'')"

definition MissionStateFromString :: "string \<Rightarrow> cpp_error + MISSIONSTATE" where
  "MissionStateFromString str =
     (if str = ''CURRENT'' then Inr CURRENT
      else if str = ''ONBOARD'' then Inr ONBOARD
      else if str = ''PROPOSED'' then Inr PROPOSED
      else if str = ''RECEIVED'' then Inr RECEIVED
      else if str = ''OUTDATED'' then Inr OUTDATED
      else Inl (Runtime_Error ''Unknown string MISSIONSTATE seen''))"

primrec MissionExecutionStateToString :: "MissionExecutionState \<Rightarrow> cpp_error + string" where
  "MissionExecutionStateToString MESTATE_UNEXECUTED = Inr ''UNEXECUTED''"
| "MissionExecutionStateToString MESTATE_EXECUTING = Inr ''EXECUTING''"
| "MissionExecutionStateToString MESTATE_PAUSED = Inr ''PAUSED''"
| "MissionExecutionStateToString MESTATE_COMPLETED = Inr ''COMPLETED''"
| "MissionExecutionStateToString MESTATE_ABORTED = Inr ''ABORTED''"

definition MissionExecutionStateFromString :: "string \<Rightarrow> cpp_error + MissionExecutionState" where
  "MissionExecutionStateFromString str =
     (if str = ''UNEXECUTED'' then Inr MESTATE_UNEXECUTED
      else if str = ''EXECUTING'' then Inr MESTATE_EXECUTING
      else if str = ''PAUSED'' then Inr MESTATE_PAUSED
      else if str = ''COMPLETED'' then Inr MESTATE_COMPLETED
      else if str = ''ABORTED'' then Inr MESTATE_ABORTED
      else Inl (Runtime_Error ''Unknown string MissionCommandAction seen''))"

section \<open>Mission keys\<close>

record MissionKey =
  m_systemID :: u32
  m_creatorID :: u32
  m_missionID :: u64
  m_missionType :: MISSIONTYPE
  m_missionState :: MISSIONSTATE

definition MissionKey_default :: MissionKey where
  "MissionKey_default = \<lparr>m_systemID = 0, m_creatorID = 0, m_missionID = 0,
     m_missionType = AUTO, m_missionState = CURRENT\<rparr>"

definition MissionKey_new :: "u32 \<Rightarrow> u32 \<Rightarrow> u32 \<Rightarrow> MISSIONTYPE \<Rightarrow> MISSIONSTATE \<Rightarrow> MissionKey" where
  "MissionKey_new systemID creatorID missionID missionType missionState =
     \<lparr>m_systemID = systemID, m_creatorID = creatorID, m_missionID = ucast missionID,
      m_missionType = missionType, m_missionState = missionState\<rparr>"

definition mission_eq :: "MissionKey \<Rightarrow> MissionKey \<Rightarrow> bool" where
  "mission_eq a b =
     (if m_systemID a \<noteq> m_systemID b then False
      else if m_creatorID a \<noteq> m_creatorID b then False
      else if m_missionID a \<noteq> m_missionID b then False
      else if m_missionType a \<noteq> m_missionType b then False
      else if m_missionState a \<noteq> m_missionState b then False
      else True)"

definition mission_neq :: "MissionKey \<Rightarrow> MissionKey \<Rightarrow> bool" where
  "mission_neq a b \<longleftrightarrow> \<not> mission_eq a b"

text \<open>\<open>operator <\<close>: no field may be greater.\<close>

definition mission_lt :: "MissionKey \<Rightarrow> MissionKey \<Rightarrow> bool" where
  "mission_lt a b =
     (if mission_eq a b then False
      else if m_systemID a > m_systemID b then False
      else if m_missionID a > m_missionID b then False
      else if m_creatorID a > m_creatorID b then False
      else if m_missionType a > m_missionType b then False
      else if m_missionState a > m_missionState b then False
      else True)"

lemma mission_eq_iff [simp]: "mission_eq a b \<longleftrightarrow> a = b"
  by (auto simp: mission_eq_def)

text \<open>The componentwise order of the fields.\<close>

definition mission_le :: "MissionKey \<Rightarrow> MissionKey \<Rightarrow> bool" where
  "mission_le a b \<longleftrightarrow> m_systemID a \<le> m_systemID b \<and> m_creatorID a \<le> m_creatorID b
     \<and> m_missionID a \<le> m_missionID b \<and> m_missionType a \<le> m_missionType b
     \<and> m_missionState a \<le> m_missionState b"

lemma mission_lt_iff: "mission_lt a b \<longleftrightarrow> mission_le a b \<and> a \<noteq> b"
  by (auto simp: mission_lt_def mission_le_def not_less)

lemma mission_le_trans: "mission_le a b \<Longrightarrow> mission_le b c \<Longrightarrow> mission_le a c"
  unfolding mission_le_def by (meson order_trans)

lemma mission_le_antisym: "mission_le a b \<Longrightarrow> mission_le b a \<Longrightarrow> a = b"
  unfolding mission_le_def by (intro MissionKey.equality) auto

lemma mission_lt_irrefl [simp]: "\<not> mission_lt a a"
  by (simp add: mission_lt_iff)

lemma mission_lt_trans: "mission_lt a b \<Longrightarrow> mission_lt b c \<Longrightarrow> mission_lt a c"
  unfolding mission_lt_iff using mission_le_trans mission_le_antisym by blast

text \<open>Keys that are pairwise comparable; only on those is the comparison a strict weak order.\<close>

definition comparable :: "MissionKey set \<Rightarrow> bool" where
  "comparable K \<longleftrightarrow> (\<forall>a \<in> K. \<forall>b \<in> K. mission_le a b \<or> mission_le b a)"

lemma comparable_weak_order: "comparable K \<Longrightarrow> strict_weak_order mission_lt K"
proof
  fix x y z
  assume "comparable K" "mission_lt x z" "x \<in> K" "y \<in> K" "z \<in> K"
  then show "mission_lt x y \<or> mission_lt y z"
    unfolding comparable_def by (metis mission_lt_iff mission_le_trans mission_le_antisym)
qed (use mission_lt_trans in auto)

lemma comparable_eqv: "comparable K \<Longrightarrow> a \<in> K \<Longrightarrow> b \<in> K \<Longrightarrow> lt_eqv mission_lt a b \<longleftrightarrow> a = b"
  unfolding comparable_def lt_eqv_def mission_lt_iff by blast

text \<open>The missions one creator makes for one vehicle, of one type and state, are comparable.\<close>

definition mission_line :: "u32 \<Rightarrow> u32 \<Rightarrow> MISSIONTYPE \<Rightarrow> MISSIONSTATE \<Rightarrow> MissionKey set" where
  "mission_line s c t st = {k. m_systemID k = s \<and> m_creatorID k = c \<and> m_missionType k = t
     \<and> m_missionState k = st}"

lemma comparable_line: "comparable (mission_line s c t st)"
  by (auto simp: comparable_def mission_line_def mission_le_def)

interpretation mission_order: strict_weak_order mission_lt "mission_line s c t st" for s c t st
  by (rule comparable_weak_order [OF comparable_line])

section \<open>Mission lists\<close>

datatype MissionListState = COMPLETE | INCOMPLETE

record MissionListStatus =
  mls_state :: MissionListState
  remainingItems :: "int list"

record 'i MissionList =
  missionKey :: MissionKey
  missionExeState :: MissionExecutionState
  activeMissionItem :: u32
  missionQueue :: "'i option list"

definition MissionList_default :: "'i MissionList" where
  "MissionList_default = \<lparr>missionKey = MissionKey_new 0 0 0 AUTO CURRENT,
     missionExeState = MESTATE_UNEXECUTED, activeMissionItem = 0, missionQueue = []\<rparr>"

definition initializeQueue :: "nat \<Rightarrow> 'i MissionList \<Rightarrow> 'i MissionList" where
  "initializeQueue n ml =
     (let ml = ml\<lparr>missionQueue := []\<rparr>
      in if n > 0 then ml\<lparr>missionQueue := replicate n None\<rparr> else ml)"

definition MissionList_new ::
  "u32 \<Rightarrow> u32 \<Rightarrow> u32 \<Rightarrow> MISSIONTYPE \<Rightarrow> MISSIONSTATE \<Rightarrow> nat \<Rightarrow> 'i MissionList" where
  "MissionList_new targetID generatorID missionID missionType state n =
     initializeQueue n \<lparr>missionKey = MissionKey_new targetID generatorID missionID missionType state,
       missionExeState = MESTATE_UNEXECUTED, activeMissionItem = 0, missionQueue = []\<rparr>"

definition clearQueue :: "'i MissionList \<Rightarrow> 'i MissionList" where
  "clearQueue ml = ml\<lparr>missionQueue := []\<rparr>"

definition replaceMissionQueue :: "'i option list \<Rightarrow> 'i MissionList \<Rightarrow> 'i MissionList" where
  "replaceMissionQueue newQueue ml = ml\<lparr>missionQueue := newQueue\<rparr>"

text \<open>The loop of \<open>getMissionListStatus\<close> from an index on.\<close>

fun null_items :: "int \<Rightarrow> 'i option list \<Rightarrow> int list" where
  "null_items index [] = []"
| "null_items index (None # xs) = index # null_items (index + 1) xs"
| "null_items index (Some i # xs) = null_items (index + 1) xs"

definition getMissionListStatus :: "'i MissionList \<Rightarrow> MissionListStatus" where
  "getMissionListStatus ml =
     (let nullItems = null_items 0 (missionQueue ml)
      in \<lparr>mls_state = (if nullItems = [] then COMPLETE else INCOMPLETE),
          remainingItems = nullItems\<rparr>)"

text \<open>\<open>insertMissionItem\<close> dereferences the pointer; the clone is what the item's \<open>getClone\<close> returns.\<close>

definition insertMissionItem ::
  "('i \<Rightarrow> 'i option) \<Rightarrow> 'i option \<Rightarrow> 'i MissionList \<Rightarrow> ('i MissionList, unit) outcome" where
  "insertMissionItem getClone missionItem ml = (case missionItem of
     None \<Rightarrow> (ml, Inl Undefined_Behaviour)
   | Some item \<Rightarrow> (ml\<lparr>missionQueue := missionQueue ml @ [getClone item]\<rparr>, Inr ()))"

text \<open>\<open>operator[]\<close> of a vector does not check the index.\<close>

definition replaceMissionItemAtIndex ::
  "'i option \<Rightarrow> u32 \<Rightarrow> 'i MissionList \<Rightarrow> ('i MissionList, unit) outcome" where
  "replaceMissionItemAtIndex missionItem index ml =
     (if unat index < length (missionQueue ml)
      then (ml\<lparr>missionQueue := (missionQueue ml)[unat index := missionItem]\<rparr>, Inr ())
      else (ml, Inl Undefined_Behaviour))"

definition getMissionItem :: "u32 \<Rightarrow> 'i MissionList \<Rightarrow> cpp_error + 'i option" where
  "getMissionItem index ml =
     (if unat index < length (missionQueue ml) then Inr (missionQueue ml ! unat index)
      else Inl Undefined_Behaviour)"

definition getQueueSize :: "'i MissionList \<Rightarrow> nat" where
  "getQueueSize ml = length (missionQueue ml)"

definition getActiveIndex :: "'i MissionList \<Rightarrow> u32" where
  "getActiveIndex ml = activeMissionItem ml"

definition getActiveMissionItem :: "'i MissionList \<Rightarrow> cpp_error + 'i option" where
  "getActiveMissionItem ml = getMissionItem (getActiveIndex ml) ml"

definition setActiveIndex :: "u32 \<Rightarrow> 'i MissionList \<Rightarrow> 'i MissionList" where
  "setActiveIndex activeIndex ml = ml\<lparr>activeMissionItem := activeIndex\<rparr>"

definition setVehicleID :: "u32 \<Rightarrow> 'i MissionList \<Rightarrow> 'i MissionList" where
  "setVehicleID vehicleID ml = ml\<lparr>missionKey := (missionKey ml)\<lparr>m_systemID := vehicleID\<rparr>\<rparr>"

definition setMissionID :: "u64 \<Rightarrow> 'i MissionList \<Rightarrow> 'i MissionList" where
  "setMissionID missionID ml = ml\<lparr>missionKey := (missionKey ml)\<lparr>m_missionID := missionID\<rparr>\<rparr>"

definition setMissionTXState :: "MISSIONSTATE \<Rightarrow> 'i MissionList \<Rightarrow> 'i MissionList" where
  "setMissionTXState st ml = ml\<lparr>missionKey := (missionKey ml)\<lparr>m_missionState := st\<rparr>\<rparr>"

definition missionlist_eq :: "'i MissionList \<Rightarrow> 'i MissionList \<Rightarrow> bool" where
  "missionlist_eq a b =
     (if mission_neq (missionKey a) (missionKey b) then False
      else if missionQueue a \<noteq> missionQueue b then False
      else if missionExeState a \<noteq> missionExeState b then False
      else if activeMissionItem a \<noteq> activeMissionItem b then False
      else True)"

section \<open>Properties\<close>

lemma null_items_iff:
  "j \<in> set (null_items i xs) \<longleftrightarrow> i \<le> j \<and> j - i < int (length xs) \<and> xs ! nat (j - i) = None"
proof (induction i xs arbitrary: j rule: null_items.induct)
  case (2 index xs)
  show ?case
  proof (cases "j = index")
    case False
    then have "nat (j - index) = Suc (nat (j - (index + 1)))" if "index \<le> j" using that by auto
    then show ?thesis using 2 [of j] False by auto
  qed simp
next
  case (3 index i xs)
  show ?case
  proof (cases "j = index")
    case True
    then show ?thesis using 3 [of j] by simp
  next
    case False
    then have "nat (j - index) = Suc (nat (j - (index + 1)))" if "index \<le> j" using that by auto
    then show ?thesis using 3 [of j] False by auto
  qed
qed simp

lemma null_items_sorted: "sorted_wrt (<) (null_items i xs)"
  by (induction i xs rule: null_items.induct) (auto simp: null_items_iff)

text \<open>
  The status of a mission list names exactly the items still missing, in ascending order and each
  once, and says complete exactly when none is missing.
\<close>

theorem missing_items_exact:
  "remainingItems (getMissionListStatus ml) = sorted_list_of_set
     {int i |i. i < getQueueSize ml \<and> missionQueue ml ! i = None}
   \<and> (mls_state (getMissionListStatus ml) = COMPLETE \<longleftrightarrow> None \<notin> set (missionQueue ml))"
proof -
  let ?xs = "missionQueue ml"
  have set: "set (null_items 0 ?xs) = {int i |i. i < length ?xs \<and> ?xs ! i = None}"
  proof (intro set_eqI iffI)
    fix j assume "j \<in> set (null_items 0 ?xs)"
    then have "0 \<le> j" "nat j < length ?xs" "?xs ! nat j = None" by (auto simp: null_items_iff)
    then show "j \<in> {int i |i. i < length ?xs \<and> ?xs ! i = None}"
      by (intro CollectI exI [of _ "nat j"]) auto
  qed (auto simp: null_items_iff)
  have "null_items 0 ?xs = sorted_list_of_set (set (null_items 0 ?xs))"
    using null_items_sorted [of 0 ?xs]
    by (simp add: strict_sorted_iff sorted_list_of_set.idem_if_sorted_distinct)
  moreover have "null_items 0 ?xs = [] \<longleftrightarrow> None \<notin> set ?xs"
  proof -
    have "null_items 0 ?xs = [] \<longleftrightarrow> set (null_items 0 ?xs) = {}" by simp
    also have "\<dots> \<longleftrightarrow> None \<notin> set ?xs" unfolding set by (auto simp: in_set_conv_nth)
    finally show ?thesis .
  qed
  ultimately show ?thesis
    by (simp add: getMissionListStatus_def getQueueSize_def set Let_def)
qed

text \<open>
  The names of the enumerations are read back to the same enumerator, and only names are read;
  the exception is the mission state \<open>UNKNWON\<close>, which has no name: asking for it throws.
\<close>

theorem enumeration_names:
  "(\<forall>t s. (MissionTypeToString t = Inr s) = (MissionTypeFromString s = Inr t))
   \<and> (\<forall>t s. (MissionStateToString t = Inr s) = (MissionStateFromString s = Inr t))
   \<and> (\<forall>t s. (MissionExecutionStateToString t = Inr s) = (MissionExecutionStateFromString s = Inr t))
   \<and> (\<forall>t. (MissionStateToString t = Inl (Runtime_Error ''Unknown MISSIONSTATE seen'')) = (t = UNKNWON))"
proof (intro conjI allI)
  fix t s show "(MissionTypeToString t = Inr s) = (MissionTypeFromString s = Inr t)"
    by (cases t) (auto simp: MissionTypeFromString_def)
next
  fix t s show "(MissionStateToString t = Inr s) = (MissionStateFromString s = Inr t)"
    by (cases t) (auto simp: MissionStateFromString_def)
next
  fix t s
  show "(MissionExecutionStateToString t = Inr s) = (MissionExecutionStateFromString s = Inr t)"
    by (cases t) (auto simp: MissionExecutionStateFromString_def)
next
  fix t show "(MissionStateToString t = Inl (Runtime_Error ''Unknown MISSIONSTATE seen'')) = (t = UNKNWON)"
    by (cases t) simp_all
qed

text \<open>
  \<open>operator <\<close> on mission keys is a strict partial order but not the strict weak order that the
  keys of a \<open>std::map\<close> need: a key of a higher system with a lower mission is equivalent to two keys
  one of which is less than the other.
\<close>

theorem mission_lt_not_weak_order:
  "(\<forall>a b c. \<not> mission_lt a a \<and> (mission_lt a b \<and> mission_lt b c) \<le> mission_lt a c)
   \<and> (let a = MissionKey_new 1 1 5 AUTO CURRENT; b = MissionKey_new 2 1 3 AUTO CURRENT;
          c = MissionKey_new 1 1 4 AUTO CURRENT
      in lt_eqv mission_lt a b \<and> lt_eqv mission_lt b c \<and> mission_lt c a)"
proof -
  have "(let a = MissionKey_new 1 1 5 AUTO CURRENT; b = MissionKey_new 2 1 3 AUTO CURRENT;
          c = MissionKey_new 1 1 4 AUTO CURRENT
      in lt_eqv mission_lt a b \<and> lt_eqv mission_lt b c \<and> mission_lt c a)"
    by code_simp
  then show ?thesis using mission_lt_trans by auto
qed

end
