(* ===== verification/Mission_Store.thy ===== *)
theory Mission_Store
  imports Mission
begin

text \<open>
  The missions in the central data store (\<open>MaceData\<close> in \<open>src/src/mace_core/mace_data.cpp\<close>): the
  identifiers given to new missions, the map of missions by key and the current mission of each
  vehicle. The methods are the store's only access to this state; each holds its mutex for its whole
  body, so they run one after the other.

  The keys \<open>int\<close> of the identifier and current maps are unsigned values converted bit by bit, kept
  here as 32 bit words; those maps are only looked up, so their order is not modelled.
\<close>

section \<open>State and operations\<close>

record 'i MissionStore =
  mapMissionID :: "(u32, (u32, u32) umap) umap"
  mapMissions :: "(MissionKey \<times> 'i MissionList) list"
  mapCurrentMission :: "(u32, MissionKey) umap"

definition MissionStore_new :: "'i MissionStore" where
  "MissionStore_new = \<lparr>mapMissionID = [], mapMissions = [], mapCurrentMission = []\<rparr>"

text \<open>
  \<open>getAvailableMissionID\<close>: the kept \<open>int\<close> is sign extended when read and truncated when written.
\<close>

definition getAvailableMissionID :: "MissionKey \<Rightarrow> 'i MissionStore \<Rightarrow> 'i MissionStore \<times> u32" where
  "getAvailableMissionID key ms =
     (let prevID = (case map_of (mapMissionID ms) (m_systemID key) of
            None \<Rightarrow> 0
          | Some internalMap \<Rightarrow>
              (case map_of internalMap (m_creatorID key) of
                 None \<Rightarrow> 0
               | Some p \<Rightarrow> let prevID = (scast p :: u64)
                          in if prevID \<ge> m_missionID key then prevID + 1 else m_missionID key));
          inner = (case map_of (mapMissionID ms) (m_systemID key) of None \<Rightarrow> [] | Some m \<Rightarrow> m)
      in (ms\<lparr>mapMissionID := um_put (m_systemID key) (um_put (m_creatorID key) (ucast prevID) inner)
                               (mapMissionID ms)\<rparr>,
          ucast prevID))"

definition appendAssociatedMissionMap ::
  "'i MissionList \<Rightarrow> 'i MissionStore \<Rightarrow> 'i MissionStore \<times> MissionKey" where
  "appendAssociatedMissionMap missionList ms =
     (let (ms, updatedMissionID) = getAvailableMissionID (missionKey missionList) ms;
          corrected = setMissionID (scast updatedMissionID) missionList
      in (ms\<lparr>mapMissions := om_put mission_lt (missionKey corrected) corrected (mapMissions ms)\<rparr>,
          missionKey corrected))"

text \<open>With a new system: the identifier is still asked for with the key of the list as it came.\<close>

definition appendAssociatedMissionMap_to ::
  "u32 \<Rightarrow> 'i MissionList \<Rightarrow> 'i MissionStore \<Rightarrow> 'i MissionStore \<times> MissionKey" where
  "appendAssociatedMissionMap_to newSystemID missionList ms =
     (let corrected = setVehicleID newSystemID missionList;
          (ms, updatedMissionID) = getAvailableMissionID (missionKey missionList) ms;
          corrected = setMissionID (scast updatedMissionID) corrected
      in (ms\<lparr>mapMissions := om_put mission_lt (missionKey corrected) corrected (mapMissions ms)\<rparr>,
          missionKey corrected))"

text \<open>\<open>updateCurrentMissionItem\<close> dereferences the result of \<open>find\<close> without a check.\<close>

definition updateCurrentMissionItem ::
  "MissionKey \<Rightarrow> u32 \<Rightarrow> 'i MissionStore \<Rightarrow> ('i MissionStore, bool) outcome" where
  "updateCurrentMissionItem key index ms = (case om_find mission_lt key (mapMissions ms) of
     None \<Rightarrow> (ms, Inl Undefined_Behaviour)
   | Some ml \<Rightarrow> (ms\<lparr>mapMissions := om_put mission_lt key (setActiveIndex index ml) (mapMissions ms)\<rparr>,
                Inr True))"

definition getMissionList :: "MissionKey \<Rightarrow> 'i MissionStore \<Rightarrow> 'i MissionList option" where
  "getMissionList key ms = om_find mission_lt key (mapMissions ms)"

text \<open>The query by system, type and state is switched off.\<close>

definition getMissionList_by_state ::
  "u32 \<Rightarrow> MISSIONTYPE \<Rightarrow> MISSIONSTATE \<Rightarrow> 'i MissionStore \<Rightarrow> 'i MissionList option" where
  "getMissionList_by_state systemID type st ms = None"

definition getCurrentMissionKey :: "u32 \<Rightarrow> 'i MissionStore \<Rightarrow> MissionKey option" where
  "getCurrentMissionKey systemID ms = map_of (mapCurrentMission ms) systemID"

definition getCurrentMission :: "u32 \<Rightarrow> 'i MissionStore \<Rightarrow> 'i MissionList option" where
  "getCurrentMission systemID ms = (case map_of (mapCurrentMission ms) systemID of
     None \<Rightarrow> None | Some key \<Rightarrow> om_find mission_lt key (mapMissions ms))"

definition getCurrentMissionValidity :: "u32 \<Rightarrow> 'i MissionStore \<Rightarrow> bool" where
  "getCurrentMissionValidity systemID ms \<longleftrightarrow> map_of (mapCurrentMission ms) systemID \<noteq> None"

definition getMissionKeyValidity :: "MissionKey \<Rightarrow> 'i MissionStore \<Rightarrow> bool" where
  "getMissionKeyValidity key ms \<longleftrightarrow> om_find mission_lt key (mapMissions ms) \<noteq> None"

definition getMissionKeysForVehicle :: "u32 \<Rightarrow> 'i MissionStore \<Rightarrow> MissionKey list" where
  "getMissionKeysForVehicle systemID ms =
     filter (\<lambda>key. m_systemID key = systemID) (map fst (mapMissions ms))"

definition removeFromMissionMap :: "MissionKey \<Rightarrow> 'i MissionStore \<Rightarrow> 'i MissionStore" where
  "removeFromMissionMap key ms = ms\<lparr>mapMissions := om_erase mission_lt key (mapMissions ms)\<rparr>"

definition receivedMissionACKKey ::
  "MissionKey \<Rightarrow> MISSIONSTATE \<Rightarrow> 'i MissionStore \<Rightarrow> 'i MissionStore \<times> MissionKey" where
  "receivedMissionACKKey key newState ms = (case om_find mission_lt key (mapMissions ms) of
     None \<Rightarrow> (ms, key)
   | Some copyList \<Rightarrow>
       (let newKey = key\<lparr>m_missionState := newState\<rparr>;
            copyList = copyList\<lparr>missionKey := newKey\<rparr>;
            m = om_erase mission_lt key (mapMissions ms)
        in (ms\<lparr>mapMissions := om_put mission_lt newKey copyList m\<rparr>, newKey)))"

definition receivedNewMission :: "'i MissionList \<Rightarrow> 'i MissionStore \<Rightarrow> 'i MissionStore" where
  "receivedNewMission missionList ms =
     ms\<lparr>mapMissions := om_put mission_lt (missionKey missionList) missionList (mapMissions ms)\<rparr>"

text \<open>\<open>updateMissionExeState\<close> sets the state of a local copy of the list.\<close>

definition updateMissionExeState ::
  "MissionKey \<Rightarrow> MissionExecutionState \<Rightarrow> 'i MissionStore \<Rightarrow> 'i MissionStore" where
  "updateMissionExeState key st ms = (case om_find mission_lt key (mapMissions ms) of
     None \<Rightarrow> ms
   | Some mission \<Rightarrow> let mission = mission\<lparr>missionExeState := st\<rparr> in ms)"

definition updateOnboardMission :: "MissionKey \<Rightarrow> 'i MissionStore \<Rightarrow> 'i MissionStore \<times> bool" where
  "updateOnboardMission key ms = (case om_find mission_lt key (mapMissions ms) of
     None \<Rightarrow> (ms, False)
   | Some mission \<Rightarrow>
       (ms\<lparr>mapMissions := om_put mission_lt key (setMissionTXState ONBOARD mission) (mapMissions ms)\<rparr>,
        True))"

definition checkForCurrentMission :: "MissionKey \<Rightarrow> 'i MissionStore \<Rightarrow> 'i MissionStore \<times> bool" where
  "checkForCurrentMission key ms =
     (let systemID = m_systemID key
      in if m_missionState key = CURRENT \<and> (m_missionType key = AUTO \<or> m_missionType key = GUIDED)
         then (let ms = (case map_of (mapCurrentMission ms) systemID of
                   None \<Rightarrow> ms
                 | Some oldKey \<Rightarrow>
                     (case om_find mission_lt oldKey (mapMissions ms) of
                        None \<Rightarrow> ms
                      | Some old \<Rightarrow>
                          if m_missionType (missionKey old) = GUIDED
                          then ms\<lparr>mapMissions := om_erase mission_lt oldKey (mapMissions ms)\<rparr>
                          else ms))
               in (ms\<lparr>mapCurrentMission := um_put systemID key (mapCurrentMission ms)\<rparr>, True))
         else (ms, False))"

section \<open>The map of missions over a comparable set of keys\<close>

text \<open>
  The laws of \<open>std::map\<close> hold for the keys that are comparable; these are the laws of the locale
  for the order of mission keys, with equivalent keys equal.
\<close>

lemma mission_find_put:
  assumes "comparable K" "om_ok mission_lt K m" "k \<in> K" "j \<in> K"
  shows "om_find mission_lt j (om_put mission_lt k v m) = (if k = j then Some v else om_find mission_lt j m)"
  using strict_weak_order.om_find_put [OF comparable_weak_order [OF assms(1)] assms(2-4)]
    comparable_eqv [OF assms(1,3,4)] by simp

lemma mission_find_erase:
  assumes "comparable K" "om_ok mission_lt K m" "k \<in> K" "j \<in> K"
  shows "om_find mission_lt j (om_erase mission_lt k m) = (if k = j then None else om_find mission_lt j m)"
  using strict_weak_order.om_find_erase [OF comparable_weak_order [OF assms(1)] assms(2-4)]
    comparable_eqv [OF assms(1,3,4)] by simp

lemma mission_put_ok:
  "comparable K \<Longrightarrow> om_ok mission_lt K m \<Longrightarrow> k \<in> K \<Longrightarrow> om_ok mission_lt K (om_put mission_lt k v m)"
  by (rule strict_weak_order.om_ok_put [OF comparable_weak_order])

lemma mission_erase_ok:
  "comparable K \<Longrightarrow> om_ok mission_lt K m \<Longrightarrow> om_ok mission_lt K (om_erase mission_lt k m)"
  by (rule strict_weak_order.om_ok_erase [OF comparable_weak_order])

lemmas mission_map = mission_find_put mission_find_erase mission_put_ok mission_erase_ok

lemma mission_find_member:
  "om_find mission_lt k m = Some v \<Longrightarrow> comparable K \<Longrightarrow> om_ok mission_lt K m \<Longrightarrow> k \<in> K \<Longrightarrow> k \<in> fst ` set m"
proof (induction m)
  case (Cons e m)
  then show ?case
    using comparable_eqv [of K "fst e" k]
    by (cases e) (auto simp: om_ok_Cons lt_eqv_def split: if_splits)
qed simp

lemma mission_member_find:
  "k \<in> fst ` set m \<Longrightarrow> om_ok mission_lt K m \<Longrightarrow> om_find mission_lt k m \<noteq> None"
proof (induction m)
  case (Cons e m)
  then show ?case
    by (cases e) (auto simp: om_ok_Cons mission_lt_iff dest: mission_le_antisym)
qed simp

section \<open>Histories and the abstract store\<close>

datatype 'i mission_event =
    MS_Append "'i MissionList"
  | MS_AppendTo u32 "'i MissionList"
  | MS_Current MissionKey u32
  | MS_Remove MissionKey
  | MS_Ack MissionKey MISSIONSTATE
  | MS_New "'i MissionList"
  | MS_Exe MissionKey MissionExecutionState
  | MS_Onboard MissionKey
  | MS_Check MissionKey

fun mission_step :: "'i mission_event \<Rightarrow> 'i MissionStore \<Rightarrow> ('i MissionStore, unit) outcome" where
  "mission_step (MS_Append ml) ms = (fst (appendAssociatedMissionMap ml ms), Inr ())"
| "mission_step (MS_AppendTo s ml) ms = (fst (appendAssociatedMissionMap_to s ml ms), Inr ())"
| "mission_step (MS_Current k i) ms = obind (updateCurrentMissionItem k i ms) (\<lambda>ms r. (ms, Inr ()))"
| "mission_step (MS_Remove k) ms = (removeFromMissionMap k ms, Inr ())"
| "mission_step (MS_Ack k st) ms = (fst (receivedMissionACKKey k st ms), Inr ())"
| "mission_step (MS_New ml) ms = (receivedNewMission ml ms, Inr ())"
| "mission_step (MS_Exe k st) ms = (updateMissionExeState k st ms, Inr ())"
| "mission_step (MS_Onboard k) ms = (fst (updateOnboardMission k ms), Inr ())"
| "mission_step (MS_Check k) ms = (fst (checkForCurrentMission k ms), Inr ())"

text \<open>The keys an event searches the map for.\<close>

fun event_keys :: "'i mission_event \<Rightarrow> 'i MissionStore \<Rightarrow> MissionKey set" where
  "event_keys (MS_Append ml) ms = {snd (appendAssociatedMissionMap ml ms)}"
| "event_keys (MS_AppendTo s ml) ms = {snd (appendAssociatedMissionMap_to s ml ms)}"
| "event_keys (MS_Current k i) ms = {k}"
| "event_keys (MS_Remove k) ms = {k}"
| "event_keys (MS_Ack k st) ms = {k, k\<lparr>m_missionState := st\<rparr>}"
| "event_keys (MS_New ml) ms = {missionKey ml}"
| "event_keys (MS_Exe k st) ms = {k}"
| "event_keys (MS_Onboard k) ms = {k}"
| "event_keys (MS_Check k) ms = {k} \<union> set_option (map_of (mapCurrentMission ms) (m_systemID k))"

text \<open>
  What an event does to the missions as a partial function \<open>f\<close> of their keys. The identifier of an
  appended mission and the mission that was current come from the store.
\<close>

type_synonym 'i missions = "MissionKey \<rightharpoonup> 'i MissionList"

fun mission_spec :: "'i mission_event \<Rightarrow> 'i MissionStore \<Rightarrow> 'i missions \<Rightarrow> 'i missions" where
  "mission_spec (MS_Append ml) ms f =
     (let k = snd (appendAssociatedMissionMap ml ms) in f(k \<mapsto> ml\<lparr>missionKey := k\<rparr>))"
| "mission_spec (MS_AppendTo s ml) ms f =
     (let k = snd (appendAssociatedMissionMap_to s ml ms) in f(k \<mapsto> ml\<lparr>missionKey := k\<rparr>))"
| "mission_spec (MS_Current k i) ms f =
     (case f k of None \<Rightarrow> f | Some ml \<Rightarrow> f(k \<mapsto> ml\<lparr>activeMissionItem := i\<rparr>))"
| "mission_spec (MS_Remove k) ms f = f(k := None)"
| "mission_spec (MS_Ack k st) ms f = (case f k of None \<Rightarrow> f
     | Some ml \<Rightarrow> let k' = k\<lparr>m_missionState := st\<rparr> in f(k := None, k' \<mapsto> ml\<lparr>missionKey := k'\<rparr>))"
| "mission_spec (MS_New ml) ms f = f(missionKey ml \<mapsto> ml)"
| "mission_spec (MS_Exe k st) ms f = f"
| "mission_spec (MS_Onboard k) ms f =
     (case f k of None \<Rightarrow> f | Some ml \<Rightarrow> f(k \<mapsto> setMissionTXState ONBOARD ml))"
| "mission_spec (MS_Check k) ms f =
     (if m_missionState k = CURRENT \<and> m_missionType k \<in> {AUTO, GUIDED}
      then (case map_of (mapCurrentMission ms) (m_systemID k) of
              None \<Rightarrow> f
            | Some old \<Rightarrow> if map_option (m_missionType \<circ> missionKey) (f old) = Some GUIDED
                         then f(old := None) else f)
      else f)"

lemma append_eq:
  "fst (appendAssociatedMissionMap ml ms) =
     (let k = snd (appendAssociatedMissionMap ml ms)
      in fst (getAvailableMissionID (missionKey ml) ms)
           \<lparr>mapMissions := om_put mission_lt k (ml\<lparr>missionKey := k\<rparr>) (mapMissions ms)\<rparr>)"
  "fst (appendAssociatedMissionMap_to s ml ms) =
     (let k = snd (appendAssociatedMissionMap_to s ml ms)
      in fst (getAvailableMissionID (missionKey ml) ms)
           \<lparr>mapMissions := om_put mission_lt k (ml\<lparr>missionKey := k\<rparr>) (mapMissions ms)\<rparr>)"
  by (simp_all add: appendAssociatedMissionMap_def appendAssociatedMissionMap_to_def Let_def
      getAvailableMissionID_def setMissionID_def setVehicleID_def)

lemmas mission_ops = getMissionList_def updateCurrentMissionItem_def removeFromMissionMap_def
  receivedMissionACKKey_def receivedNewMission_def updateMissionExeState_def
  updateOnboardMission_def checkForCurrentMission_def setActiveIndex_def append_eq Let_def

lemma mission_step_ok:
  assumes "comparable K" "om_ok mission_lt K (mapMissions ms)" "event_keys e ms \<subseteq> K"
  shows "om_ok mission_lt K (mapMissions (fst (mission_step e ms)))"
  using assms by (cases e) (auto simp: mission_ops mission_map split: option.split)

lemma mission_step_find:
  assumes "comparable K" "om_ok mission_lt K (mapMissions ms)" "event_keys e ms \<subseteq> K" "k \<in> K"
  shows "getMissionList k (fst (mission_step e ms)) = mission_spec e ms (\<lambda>k. getMissionList k ms) k"
proof (cases e)
  case (MS_Check c)
  then show ?thesis
    using assms by (auto simp: mission_ops mission_map split: option.split)
qed (use assms in \<open>auto simp: mission_ops mission_map split: option.split\<close>)

text \<open>The stores that are reached by operations that do not fail, while all keys stay in the set.\<close>

inductive mission_reachable :: "MissionKey set \<Rightarrow> 'i MissionStore \<Rightarrow> bool" for K where
  start: "mission_reachable K MissionStore_new"
| step: "mission_reachable K ms \<Longrightarrow> event_keys e ms \<subseteq> K \<Longrightarrow> mission_step e ms = (ms', Inr ()) \<Longrightarrow> mission_reachable K ms'"

text \<open>The key in a list is the one it is stored under, up to the state \<open>ONBOARD\<close>.\<close>

definition key_fits :: "MissionKey \<Rightarrow> 'i MissionList \<Rightarrow> bool" where
  "key_fits k ml \<longleftrightarrow> missionKey ml = k \<or> missionKey ml = k\<lparr>m_missionState := ONBOARD\<rparr>"

lemma key_fits_intros:
  "key_fits k (ml\<lparr>missionKey := k\<rparr>)"
  "missionKey ml = k \<Longrightarrow> key_fits k ml"
  "key_fits k ml \<Longrightarrow> key_fits k (ml\<lparr>activeMissionItem := i\<rparr>)"
  "key_fits k ml \<Longrightarrow> key_fits k (setMissionTXState ONBOARD ml)"
  by (auto simp: key_fits_def setMissionTXState_def)

lemma reachable_ok:
  assumes "mission_reachable K ms" "comparable K"
  shows "om_ok mission_lt K (mapMissions ms)
    \<and> (\<forall>k \<in> K. \<forall>ml. getMissionList k ms = Some ml \<longrightarrow> key_fits k ml)"
  using assms
proof (induction rule: mission_reachable.induct)
  case start
  then show ?case by (simp add: MissionStore_new_def getMissionList_def)
next
  case (step ms e ms')
  have ms': "ms' = fst (mission_step e ms)" using step.hyps(3) by simp
  from step have ok: "om_ok mission_lt K (mapMissions ms)"
    and fits: "\<And>k ml. k \<in> K \<Longrightarrow> getMissionList k ms = Some ml \<Longrightarrow> key_fits k ml" by blast+
  have "key_fits k ml" if "k \<in> K" "getMissionList k ms' = Some ml" for k ml
  proof -
    have "mission_spec e ms (\<lambda>k. getMissionList k ms) k = Some ml"
      using mission_step_find [OF step.prems ok step.hyps(2) that(1)] that(2) ms' by simp
    then show ?thesis
      using fits step.hyps(2) that(1)
      by (cases e) (auto simp: Let_def intro: key_fits_intros split: option.splits if_splits)
  qed
  then show ?case using mission_step_ok [OF step.prems ok step.hyps(2)] ms' by simp
qed

section \<open>Identifiers\<close>

text \<open>The identifier last given for a system and a creator.\<close>

definition last_id :: "u32 \<Rightarrow> u32 \<Rightarrow> 'i MissionStore \<Rightarrow> u32 option" where
  "last_id s c ms = (case map_of (mapMissionID ms) s of None \<Rightarrow> None | Some m \<Rightarrow> map_of m c)"

fun give_ids :: "MissionKey list \<Rightarrow> 'i MissionStore \<Rightarrow> (MissionKey \<times> u32) list" where
  "give_ids [] ms = []"
| "give_ids (k # ks) ms =
     (let (ms, i) = getAvailableMissionID k ms in (k, i) # give_ids ks ms)"

lemma scast_small: "unat (p :: u32) < 2 ^ 31 \<Longrightarrow> (scast p :: u64) = ucast p"
proof -
  assume "unat p < 2 ^ 31"
  then have "uint p < 2 ^ 31" by (metis of_nat_less_iff of_nat_numeral of_nat_power uint_nat)
  moreover have "- (2 ^ 31) \<le> uint p" by (rule order_trans [of _ 0]) simp_all
  ultimately have "signed_take_bit 31 (uint p) = uint p" by (intro signed_take_bit_int_eq_self)
  then have "sint p = uint p" by (simp add: sint_uint)
  then show ?thesis unfolding scast_eq ucast_eq by (rule arg_cong)
qed

lemma available_id_last:
  "last_id s c (fst (getAvailableMissionID k ms)) =
     (if s = m_systemID k \<and> c = m_creatorID k then Some (snd (getAvailableMissionID k ms))
      else last_id s c ms)"
  by (auto simp: getAvailableMissionID_def last_id_def Let_def split: option.split)

lemma available_id_value:
  assumes "\<forall>p. last_id (m_systemID k) (m_creatorID k) ms = Some p \<longrightarrow> unat p < n"
    "unat (m_missionID k) < n" "n < 2 ^ 31"
  shows "unat (snd (getAvailableMissionID k ms)) \<le> n"
    "last_id (m_systemID k) (m_creatorID k) ms = Some p \<Longrightarrow> p < snd (getAvailableMissionID k ms)"
proof -
  let ?id = "m_missionID k" and ?i = "snd (getAvailableMissionID k ms)"
  have none: "?i = 0" if "last_id (m_systemID k) (m_creatorID k) ms = None"
    using that by (auto simp: getAvailableMissionID_def last_id_def Let_def split: option.splits)
  have some: "unat ?i = (if unat ?id \<le> unat p then unat p + 1 else unat ?id)"
    if p: "last_id (m_systemID k) (m_creatorID k) ms = Some p" for p
  proof -
    have small: "unat p < n" using assms(1) p by blast
    then have eq: "(scast p :: u64) = ucast p" using assms(3) by (intro scast_small) simp
    have u: "unat (ucast p :: u64) = unat p"
      using small assms(3) by (simp add: unsigned_ucast_eq take_bit_nat_eq_self)
    have "unat (ucast p + 1 :: u64) = unat p + 1"
      using small assms(3) u by (subst unat_plus_simple [THEN iffD1]) (auto simp: word_le_nat_alt unat_word_ariths)
    moreover have "?i = ucast (if ?id \<le> ucast p then ucast p + 1 else ?id)"
      using p eq by (auto simp: getAvailableMissionID_def last_id_def Let_def split: option.splits)
    moreover have "unat (ucast w :: u32) = unat w" if "unat w \<le> n" for w :: u64
      using that assms(3) by (simp add: unsigned_ucast_eq take_bit_nat_eq_self)
    ultimately show ?thesis using u small assms(2) by (auto simp: word_le_nat_alt)
  qed
  show "unat ?i \<le> n"
    using none some assms(1,2) by (cases "last_id (m_systemID k) (m_creatorID k) ms") auto
  show "p < ?i" if "last_id (m_systemID k) (m_creatorID k) ms = Some p"
    using some [OF that] by (auto simp: word_less_nat_alt split: if_splits)
qed

lemma give_ids_sorted:
  assumes "\<forall>s c p. last_id s c ms = Some p \<longrightarrow> unat p < n"
    "\<forall>k \<in> set ks. unat (m_missionID k) < n" "n + length ks \<le> 2 ^ 31"
  shows "sorted_wrt (<) (map snd (filter (\<lambda>e. m_systemID (fst e) = s \<and> m_creatorID (fst e) = c)
      (give_ids ks ms)))
    \<and> (\<forall>e \<in> set (give_ids ks ms). m_systemID (fst e) = s \<and> m_creatorID (fst e) = c \<longrightarrow>
        unat (snd e) < 2 ^ 31 \<and> (\<forall>p. last_id s c ms = Some p \<longrightarrow> p < snd e))"
  using assms
proof (induction ks arbitrary: ms n)
  case (Cons k ks)
  let ?r = "getAvailableMissionID k ms"
  have k: "unat (snd ?r) \<le> n" "\<And>p. last_id (m_systemID k) (m_creatorID k) ms = Some p \<Longrightarrow> p < snd ?r"
    using available_id_value [of k ms n] Cons.prems by auto
  have "\<forall>s c p. last_id s c (fst ?r) = Some p \<longrightarrow> unat p < Suc n"
    using k(1) Cons.prems(1) by (auto simp: available_id_last less_Suc_eq split: if_splits)
  moreover have "\<forall>k \<in> set ks. unat (m_missionID k) < Suc n" using Cons.prems(2) by auto
  moreover have "Suc n + length ks \<le> 2 ^ 31" using Cons.prems(3) by simp
  ultimately have IH: "sorted_wrt (<) (map snd (filter (\<lambda>e. m_systemID (fst e) = s \<and> m_creatorID (fst e) = c)
      (give_ids ks (fst ?r))))"
    "\<And>e. e \<in> set (give_ids ks (fst ?r)) \<Longrightarrow> m_systemID (fst e) = s \<Longrightarrow> m_creatorID (fst e) = c \<Longrightarrow>
        unat (snd e) < 2 ^ 31 \<and> (\<forall>p. last_id s c (fst ?r) = Some p \<longrightarrow> p < snd e)"
    using Cons.IH [of "fst ?r" "Suc n"] by blast+
  have eq: "give_ids (k # ks) ms = (k, snd ?r) # give_ids ks (fst ?r)"
    by (simp add: case_prod_beta)
  show ?case
  proof (cases "m_systemID k = s \<and> m_creatorID k = c")
    case True
    then have "last_id s c (fst ?r) = Some (snd ?r)" by (simp add: available_id_last)
    then show ?thesis
      unfolding eq using IH k True Cons.prems(3) by (fastforce dest: order_less_trans)
  next
    case False
    then have "last_id s c (fst ?r) = last_id s c ms" by (auto simp: available_id_last)
    then show ?thesis unfolding eq using IH False by auto
  qed
qed simp

section \<open>Properties\<close>

text \<open>A mission of the given system, identifier and type, proposed by creator 1, without items.\<close>

definition ex_mission :: "u32 \<Rightarrow> u32 \<Rightarrow> MISSIONTYPE \<Rightarrow> nat MissionList" where
  "ex_mission s i t = MissionList_new s 1 i t CURRENT 0"

text \<open>
  C29: The store of missions implements a partial function of their keys: as long as the keys in use
  are comparable, the only operation that fails is \<open>updateCurrentMissionItem\<close> with a key that is not stored,
  which dereferences the end of the map; every other one changes exactly the missions it names, as
  \<open>mission_spec\<close> says. An acknowledgement moves the mission to the new state, a new current mission
  drops the guided mission that was current, and \<open>updateMissionExeState\<close>, against its documentation, changes
  no mission.
\<close>

theorem mission_store_refines:
  assumes "comparable K" "mission_reachable K ms" "event_keys e ms \<subseteq> K" "k \<in> K"
  shows "(if \<exists>j i. e = MS_Current j i \<and> getMissionList j ms = None
      then mission_step e ms = (ms, Inl Undefined_Behaviour)
      else \<exists>ms'. mission_step e ms = (ms', Inr ()) \<and>
        getMissionList k ms' = mission_spec e ms (\<lambda>k. getMissionList k ms) k)"
proof -
  have "getMissionList k (fst (mission_step e ms)) = mission_spec e ms (\<lambda>k. getMissionList k ms) k"
    using assms(1,3,4) reachable_ok [OF assms(2,1)] by (intro mission_step_find) blast+
  moreover have "if \<exists>j i. e = MS_Current j i \<and> getMissionList j ms = None
      then mission_step e ms = (ms, Inl Undefined_Behaviour) else snd (mission_step e ms) = Inr ()"
    by (cases e) (auto simp: updateCurrentMissionItem_def getMissionList_def split: option.split)
  ultimately show ?thesis by (cases "mission_step e ms") (auto split: if_splits)
qed

definition ex_line :: "MissionKey set" where
  "ex_line = mission_line 1 1 GUIDED CURRENT"

lemma ex_line_mission: "missionKey (ex_mission 1 i GUIDED) \<in> ex_line"
  by (simp add: ex_line_def mission_line_def ex_mission_def MissionList_new_def initializeQueue_def
      MissionKey_new_def)

definition ex_store :: "nat MissionStore" where
  "ex_store = fst (mission_step (MS_New (ex_mission 1 3 GUIDED)) MissionStore_new)"

lemma ex_line_reachable: "mission_reachable ex_line ex_store"
  unfolding ex_store_def
  by (rule mission_reachable.step [OF mission_reachable.start, where e = "MS_New (ex_mission 1 3 GUIDED)"])
    (simp_all add: ex_line_mission)

theorem mission_store_refines_witness:
  "\<exists>ms'. mission_step (MS_New (ex_mission 1 5 GUIDED)) ex_store = (ms', Inr ()) \<and>
     getMissionList (missionKey (ex_mission 1 5 GUIDED)) ms' = Some (ex_mission 1 5 GUIDED)"
proof -
  have "comparable ex_line" unfolding ex_line_def by (rule comparable_line)
  then show ?thesis
    using mission_store_refines [of ex_line ex_store "MS_New (ex_mission 1 5 GUIDED)"
        "missionKey (ex_mission 1 5 GUIDED)"] ex_line_reachable ex_line_mission
    by simp
qed

text \<open>
  Over every history on comparable keys the store has no key twice, the keys it lists for a
  vehicle are exactly the valid keys of that vehicle, and a list carries the key it is stored under,
  except that its state may read \<open>ONBOARD\<close>, because \<open>updateOnboardMission\<close> changes the state in the
  list and stores it under the old key.
\<close>

theorem stored_missions_sound:
  assumes "comparable K" "mission_reachable K ms" "k \<in> K"
  shows "distinct (map fst (mapMissions ms))
     \<and> (k \<in> set (getMissionKeysForVehicle s ms) \<longleftrightarrow> m_systemID k = s \<and> getMissionKeyValidity k ms)
     \<and> (getMissionList k ms = Some ml \<longrightarrow>
          missionKey ml = k \<or> missionKey ml = k\<lparr>m_missionState := ONBOARD\<rparr>)"
proof -
  have ok: "om_ok mission_lt K (mapMissions ms)"
    and fits: "getMissionList k ms = Some ml \<longrightarrow> key_fits k ml"
    using reachable_ok [OF assms(2,1)] assms(3) by blast+
  have "sorted_wrt mission_lt (map fst (mapMissions ms))"
    using ok by (simp add: om_ok_def sorted_wrt_map)
  then have "distinct (map fst (mapMissions ms))"
    unfolding distinct_conv_nth sorted_wrt_iff_nth_less by (metis mission_lt_irrefl nat_neq_iff)
  moreover have "k \<in> fst ` set (mapMissions ms) \<longleftrightarrow> getMissionKeyValidity k ms"
    unfolding getMissionKeyValidity_def
    using mission_find_member [OF _ assms(1) ok assms(3)] mission_member_find [OF _ ok] by blast
  ultimately show ?thesis
    using fits by (auto simp: getMissionKeysForVehicle_def key_fits_def)
qed

theorem stored_missions_sound_witness:
  "missionKey (ex_mission 1 3 GUIDED) \<in> set (getMissionKeysForVehicle 1
     ex_store)"
proof -
  let ?ms = ex_store
  have "comparable ex_line" unfolding ex_line_def by (rule comparable_line)
  moreover have "m_systemID (missionKey (ex_mission 1 3 GUIDED)) = 1"
    "getMissionKeyValidity (missionKey (ex_mission 1 3 GUIDED)) ?ms"
    by code_simp+
  ultimately show ?thesis
    using stored_missions_sound [OF _ ex_line_reachable ex_line_mission [of 3], of 1] by blast
qed

text \<open>
  Identifiers are never given twice: whatever missions ask for one, the identifiers given for one
  system and creator strictly increase, as long as the identifiers of the lists and their number stay
  within the positive range of \<open>int\<close>.
\<close>

theorem mission_ids_increase:
  assumes "\<forall>k \<in> set ks. unat (m_missionID k) + length ks < 2 ^ 31"
  shows "sorted_wrt (<) (map snd (filter (\<lambda>e. m_systemID (fst e) = s \<and> m_creatorID (fst e) = c)
    (give_ids ks MissionStore_new)))"
proof (cases "ks = []")
  case False
  let ?n = "Suc (Max ((unat \<circ> m_missionID) ` set ks))"
  have "Max ((unat \<circ> m_missionID) ` set ks) \<in> (unat \<circ> m_missionID) ` set ks"
    using False by (intro Max_in) auto
  then have "?n + length ks \<le> 2 ^ 31" using assms by auto
  moreover have "\<forall>k \<in> set ks. unat (m_missionID k) < ?n" by (auto simp: less_Suc_eq_le)
  moreover have "\<forall>s c p. last_id s c MissionStore_new = Some p \<longrightarrow> unat p < ?n"
    by (simp add: last_id_def MissionStore_new_def)
  ultimately show ?thesis using give_ids_sorted by blast
qed simp

theorem mission_ids_increase_witness:
  "(let k = missionKey (ex_mission 1 0 AUTO); k7 = missionKey (ex_mission 1 7 AUTO)
    in sorted_wrt (<) (map snd (filter (\<lambda>e. m_systemID (fst e) = 1 \<and> m_creatorID (fst e) = 1)
          (give_ids [k, k, k7, k] MissionStore_new)))
     \<and> map snd (give_ids [k, k, k7, k] MissionStore_new) = [0, 1, 7, 8])"
proof -
  let ?k = "missionKey (ex_mission 1 0 AUTO)" and ?k7 = "missionKey (ex_mission 1 7 AUTO)"
  have "unat (m_missionID ?k) = 0" "unat (m_missionID ?k7) = 7"
    "map snd (give_ids [?k, ?k, ?k7, ?k] MissionStore_new) = [0, 1, 7, 8]"
    by code_simp+
  then show ?thesis
    using mission_ids_increase [of "[?k, ?k, ?k7, ?k]" 1 1] by (simp add: Let_def)
qed

text \<open>
  Missions of two vehicles can overwrite each other: on a store with mission 5 of vehicle 1,
  storing mission 3 of vehicle 2 replaces it, since the two keys are equivalent for the map; asked for
  vehicle 1's mission the store answers with vehicle 2's.
\<close>

theorem missions_of_two_vehicles_collide:
  "(let ms = receivedNewMission (ex_mission 2 3 AUTO) (receivedNewMission (ex_mission 1 5 AUTO) MissionStore_new)
    in map (m_systemID \<circ> fst) (mapMissions ms) = [1]
     \<and> map_option (m_systemID \<circ> missionKey) (getMissionList (missionKey (ex_mission 1 5 AUTO)) ms) = Some 2
     \<and> getMissionKeysForVehicle 2 ms = [])"
  by code_simp

text \<open>
  Missions that are reassigned to a vehicle can overwrite each other: the identifier is asked for
  with the system the list had before, so two lists of different systems, appended for vehicle 3, get
  the same key, and only the second is kept.
\<close>

theorem reassigned_missions_collide:
  "(let (ms, k1) = appendAssociatedMissionMap_to 3 (ex_mission 1 0 AUTO) MissionStore_new;
        (ms, k2) = appendAssociatedMissionMap_to 3 ((ex_mission 2 0 AUTO)\<lparr>activeMissionItem := 1\<rparr>) ms
    in k1 = k2 \<and> length (mapMissions ms) = 1
     \<and> map_option activeMissionItem (getMissionList k1 ms) = Some 1)"
  by code_simp

end
