(* ===== verification/Registry.thy ===== *)
theory Registry
  imports Std_Map
begin

text \<open>
  The registries of the central data store (\<open>MaceData\<close> in \<open>src/src/mace_core\<close>): modules and their
  addresses, the vehicles and the modules that speak for them, flight modes, and the boundaries with
  their identifiers. The geometry of a boundary is a type parameter.
\<close>

section \<open>Module addresses\<close>

datatype ModuleClasses =
  VEHICLE_COMMS | EXTERNAL_LINK | GROUND_STATION | PATH_PLANNING | ROS | RTA | SENSORS | NR_TYPES

record ModuleCharacteristic =
  MaceInstance :: u32
  ModuleID :: u32

definition module_eq :: "ModuleCharacteristic \<Rightarrow> ModuleCharacteristic \<Rightarrow> bool" where
  "module_eq a b =
     (if ModuleID a \<noteq> ModuleID b then False
      else if MaceInstance a \<noteq> MaceInstance b then False
      else True)"

definition module_lt :: "ModuleCharacteristic \<Rightarrow> ModuleCharacteristic \<Rightarrow> bool" where
  "module_lt a b =
     (if ModuleID a < ModuleID b then True
      else if MaceInstance a < MaceInstance b then True
      else False)"

lemma module_eq_iff [simp]: "module_eq a b \<longleftrightarrow> a = b"
  by (auto simp: module_eq_def)

text \<open>The tuple of a module and a boundary identifier, with the order of \<open>std::tuple\<close>.\<close>

record ModuleBoundaryIdentifier =
  mbi_Module :: ModuleCharacteristic
  BoundaryIdentifier :: u8

definition mbi_lt :: "ModuleBoundaryIdentifier \<Rightarrow> ModuleBoundaryIdentifier \<Rightarrow> bool" where
  "mbi_lt a b \<longleftrightarrow> module_lt (mbi_Module a) (mbi_Module b)
     \<or> \<not> module_lt (mbi_Module b) (mbi_Module a) \<and> BoundaryIdentifier a < BoundaryIdentifier b"

section \<open>Modules\<close>

record ModuleRegistry =
  m_LocalModules :: "(ModuleCharacteristic, ModuleClasses) umap"
  m_RemoteModules :: "(ModuleCharacteristic, ModuleClasses) umap"

definition ModuleRegistry_new :: ModuleRegistry where
  "ModuleRegistry_new = \<lparr>m_LocalModules = [], m_RemoteModules = []\<rparr>"

definition AddLocalModule :: "ModuleCharacteristic \<Rightarrow> ModuleClasses \<Rightarrow> ModuleRegistry \<Rightarrow> ModuleRegistry" where
  "AddLocalModule c t r = r\<lparr>m_LocalModules := um_insert c t (m_LocalModules r)\<rparr>"

definition AddRemoteModule ::
  "ModuleCharacteristic \<Rightarrow> ModuleClasses \<Rightarrow> ModuleRegistry \<Rightarrow> ModuleRegistry \<times> bool" where
  "AddRemoteModule c t r =
     (if map_of (m_RemoteModules r) c = None
      then (r\<lparr>m_RemoteModules := um_insert c t (m_RemoteModules r)\<rparr>, True)
      else (r, False))"

definition GetAllLocalModules :: "ModuleRegistry \<Rightarrow> ModuleCharacteristic list" where
  "GetAllLocalModules r = map fst (m_LocalModules r)"

definition GetAllRemoteModules :: "ModuleRegistry \<Rightarrow> ModuleCharacteristic list" where
  "GetAllRemoteModules r = map fst (m_RemoteModules r)"

definition GetAllModules :: "ModuleRegistry \<Rightarrow> ModuleCharacteristic list" where
  "GetAllModules r = GetAllLocalModules r @ GetAllRemoteModules r"

definition getModuleType :: "ModuleCharacteristic \<Rightarrow> ModuleRegistry \<Rightarrow> cpp_error + ModuleClasses" where
  "getModuleType c r = (case map_of (m_LocalModules r) c of
     Some t \<Rightarrow> Inr t
   | None \<Rightarrow> (case map_of (m_RemoteModules r) c of
                Some t \<Rightarrow> Inr t
              | None \<Rightarrow> Inl (Runtime_Error ''Unknown module given'')))"

definition HasModule :: "ModuleCharacteristic \<Rightarrow> ModuleRegistry \<Rightarrow> bool" where
  "HasModule c r =
     (if map_of (m_LocalModules r) c \<noteq> None then True
      else if map_of (m_RemoteModules r) c \<noteq> None then True
      else False)"

definition KnownMaceInstance :: "u8 \<Rightarrow> ModuleRegistry \<Rightarrow> bool" where
  "KnownMaceInstance i r \<longleftrightarrow> list_ex (\<lambda>e. MaceInstance (fst e) = ucast i) (m_LocalModules r)
     \<or> list_ex (\<lambda>e. MaceInstance (fst e) = ucast i) (m_RemoteModules r)"

section \<open>Vehicles\<close>

record VehicleRegistry =
  m_AvailableVehicles :: "u32 list"
  m_LocalVehicles :: "u32 list"
  m_MAVLINKIDtoModule :: "(u32, ModuleCharacteristic) umap"
  m_VehicleFlightModeMap :: "(u32, string) umap"

definition VehicleRegistry_new :: VehicleRegistry where
  "VehicleRegistry_new = \<lparr>m_AvailableVehicles = [], m_LocalVehicles = [], m_MAVLINKIDtoModule = [],
     m_VehicleFlightModeMap = []\<rparr>"

text \<open>
  \<open>unique\<close> removes adjacent duplicates. The available vehicles are sorted before it, the local ones
  are not.
\<close>

definition AddAvailableVehicle ::
  "u32 \<Rightarrow> bool \<Rightarrow> ModuleCharacteristic \<Rightarrow> VehicleRegistry \<Rightarrow> VehicleRegistry" where
  "AddAvailableVehicle vehicleID internal m v =
     (let v = v\<lparr>m_AvailableVehicles := m_AvailableVehicles v @ [vehicleID]\<rparr>;
          v = v\<lparr>m_AvailableVehicles := sort (m_AvailableVehicles v)\<rparr>;
          v = v\<lparr>m_AvailableVehicles := remdups_adj (m_AvailableVehicles v)\<rparr>;
          v = v\<lparr>m_MAVLINKIDtoModule := um_insert vehicleID m (m_MAVLINKIDtoModule v)\<rparr>
      in if internal
         then (let v = v\<lparr>m_LocalVehicles := m_LocalVehicles v @ [vehicleID]\<rparr>
               in v\<lparr>m_LocalVehicles := remdups_adj (m_LocalVehicles v)\<rparr>)
         else v)"

definition HasMavlinkID :: "u32 \<Rightarrow> VehicleRegistry \<Rightarrow> bool" where
  "HasMavlinkID i v \<longleftrightarrow> map_of (m_MAVLINKIDtoModule v) i \<noteq> None"

definition GetVehicleFromMAVLINKID :: "u32 \<Rightarrow> VehicleRegistry \<Rightarrow> cpp_error + ModuleCharacteristic" where
  "GetVehicleFromMAVLINKID i v = (case map_of (m_MAVLINKIDtoModule v) i of
     None \<Rightarrow> Inl Out_Of_Range | Some m \<Rightarrow> Inr m)"

text \<open>The first entry of the module in the order of iteration; the identifier is cut to 8 bits.\<close>

definition getMavlinkIDFromModule :: "ModuleCharacteristic \<Rightarrow> VehicleRegistry \<Rightarrow> u8 option" where
  "getMavlinkIDFromModule c v =
     map_option (\<lambda>e. ucast (fst e)) (find (\<lambda>e. module_eq (snd e) c) (m_MAVLINKIDtoModule v))"

definition HasModuleAsMavlinkID :: "ModuleCharacteristic \<Rightarrow> VehicleRegistry \<Rightarrow> bool" where
  "HasModuleAsMavlinkID c v \<longleftrightarrow> list_ex (\<lambda>e. module_eq (snd e) c) (m_MAVLINKIDtoModule v)"

definition GetVehicleFlightMode :: "u32 \<Rightarrow> VehicleRegistry \<Rightarrow> string" where
  "GetVehicleFlightMode i v = (case map_of (m_VehicleFlightModeMap v) i of
     Some mode \<Rightarrow> mode | None \<Rightarrow> ''UNKNOWN'')"

definition updateVehicleFlightMode :: "u32 \<Rightarrow> string \<Rightarrow> VehicleRegistry \<Rightarrow> VehicleRegistry" where
  "updateVehicleFlightMode i mode v =
     (if map_of (m_VehicleFlightModeMap v) i \<noteq> None
      then v\<lparr>m_VehicleFlightModeMap := um_put i mode (m_VehicleFlightModeMap v)\<rparr>
      else v\<lparr>m_VehicleFlightModeMap := um_insert i mode (m_VehicleFlightModeMap v)\<rparr>)"

section \<open>Boundaries\<close>

datatype BOUNDARYTYPE = OPERATIONAL_FENCE | RESOURCE_FENCE | GENERIC_POLYGON

definition BoundaryTypeFromString :: "string \<Rightarrow> cpp_error + BOUNDARYTYPE" where
  "BoundaryTypeFromString str =
     (if str = ''OPERATIONAL FENCE'' then Inr OPERATIONAL_FENCE
      else if str = ''RESOURCE FENCE'' then Inr RESOURCE_FENCE
      else if str = ''GENERIC POLYGON'' then Inr GENERIC_POLYGON
      else Inl (Runtime_Error ''Unknown string boundary type seen''))"

primrec BoundaryTypeToString :: "BOUNDARYTYPE \<Rightarrow> string" where
  "BoundaryTypeToString OPERATIONAL_FENCE = ''OPERATIONAL FENCE''"
| "BoundaryTypeToString RESOURCE_FENCE = ''RESOURCE FENCE''"
| "BoundaryTypeToString GENERIC_POLYGON = ''GENERIC POLYGON''"

record BoundaryCharacteristic =
  m_associatedVehicles :: "int list"
  m_boundaryType :: BOUNDARYTYPE

definition BoundaryCharacteristic_new :: "int list \<Rightarrow> BOUNDARYTYPE \<Rightarrow> cpp_error + BoundaryCharacteristic" where
  "BoundaryCharacteristic_new vehicles t =
     (if t = RESOURCE_FENCE \<and> length vehicles \<noteq> 1
      then Inl (Runtime_Error ''A Resource fence can only be associated with a single vehicle'')
      else Inr \<lparr>m_associatedVehicles = vehicles, m_boundaryType = t\<rparr>)"

text \<open>The constructor for a global boundary and the one for a single vehicle.\<close>

definition BoundaryCharacteristic_global :: "BOUNDARYTYPE \<Rightarrow> cpp_error + BoundaryCharacteristic" where
  "BoundaryCharacteristic_global t = BoundaryCharacteristic_new [] t"

definition BoundaryCharacteristic_single :: "int \<Rightarrow> BOUNDARYTYPE \<Rightarrow> cpp_error + BoundaryCharacteristic" where
  "BoundaryCharacteristic_single vehicle t = BoundaryCharacteristic_new [vehicle] t"

definition ContainsVehicle :: "int \<Rightarrow> BoundaryCharacteristic \<Rightarrow> bool" where
  "ContainsVehicle i c =
     (if length (m_associatedVehicles c) = 0 then True
      else list_ex (\<lambda>v. v = i) (m_associatedVehicles c))"

type_synonym 'b boundaries = "(u8, BoundaryCharacteristic \<times> 'b) umap"

text \<open>The loop that looks for a free identifier: \<open>number++\<close> wraps at 256.\<close>

partial_function (option) next_free :: "'b boundaries \<Rightarrow> u8 \<Rightarrow> u8 option" where
  "next_free bs number =
     (if map_of bs number = None then Some number else next_free bs (number + 1))"

text \<open>
  \<open>setBoundaryByKey\<close> (\<open>None\<close> if the loop never ended; \<open>free_identifier\<close> below shows that it does).
\<close>

definition setBoundaryByKey ::
  "BoundaryCharacteristic \<Rightarrow> 'b \<Rightarrow> 'b boundaries \<Rightarrow> ('b boundaries, u8) outcome option" where
  "setBoundaryByKey c b bs =
     (if length bs = 255
      then Some (bs, Inl (Runtime_Error ''More than boundaries have been set. This is the max allowed in current data paradigm''))
      else case next_free bs (of_nat (length bs)) of
             None \<Rightarrow> None
           | Some number \<Rightarrow> Some (um_insert number (c, b) bs, Inr number))"

text \<open>Every occurrence of the vehicle in the list of a boundary adds its identifier.\<close>

definition getBoundaryForVehicle :: "int \<Rightarrow> BOUNDARYTYPE \<Rightarrow> 'b boundaries \<Rightarrow> u8 list" where
  "getBoundaryForVehicle vehicleID t bs = concat (map (\<lambda>(i, c, b).
     if m_boundaryType c \<noteq> t then []
     else map (\<lambda>_. i) (filter (\<lambda>v. v = vehicleID) (m_associatedVehicles c))) bs)"

definition getBoundaryFromIdentifier :: "u8 \<Rightarrow> 'b boundaries \<Rightarrow> 'b option" where
  "getBoundaryFromIdentifier i bs = (case map_of bs i of None \<Rightarrow> None | Some (c, b) \<Rightarrow> Some b)"

definition getCharactersticFromIdentifier :: "u8 \<Rightarrow> 'b boundaries \<Rightarrow> BoundaryCharacteristic option" where
  "getCharactersticFromIdentifier i bs = (case map_of bs i of None \<Rightarrow> None | Some (c, b) \<Rightarrow> Some c)"

text \<open>\<open>shift\<close> is \<open>applyCoordinateShift\<close> of the polygon with the given distance and bearing.\<close>

definition updateBoundariesNewOrigin :: "('b \<Rightarrow> 'b) \<Rightarrow> 'b boundaries \<Rightarrow> 'b boundaries" where
  "updateBoundariesNewOrigin shift bs = map (\<lambda>(i, c, b). (i, c, shift b)) bs"

section \<open>Lemmas\<close>

lemma next_free_some:
  "map_of bs (n + of_nat d) = None \<Longrightarrow> \<exists>i. next_free bs n = Some i \<and> map_of bs i = None"
proof (induction d arbitrary: n)
  case (Suc d)
  show ?case
  proof (cases "map_of bs n")
    case (Some x)
    have "map_of bs (n + 1 + of_nat d) = None" using Suc.prems by (simp add: add.assoc)
    then show ?thesis using Suc.IH [of "n + 1"] Some by (subst next_free.simps) simp
  qed (simp add: next_free.simps)
qed (simp add: next_free.simps)

lemma next_free_ok:
  assumes "length bs < 256"
  shows "\<exists>i. next_free bs n = Some i \<and> map_of bs i = None"
proof -
  have "card (fst ` set bs) < card (UNIV :: u8 set)"
    using assms card_image_le [of "set bs" fst] card_length [of bs] by (simp add: card_word)
  then have "fst ` set bs \<noteq> UNIV" by auto
  then obtain f where "map_of bs f = None" by (auto simp: map_of_eq_None_iff)
  then have "map_of bs (n + of_nat (unat (f - n))) = None" by simp
  then show ?thesis by (rule next_free_some)
qed

definition added_vehicle :: "u32 \<times> bool \<times> ModuleCharacteristic \<Rightarrow> VehicleRegistry \<Rightarrow> VehicleRegistry" where
  "added_vehicle e = (case e of (i, internal, m) \<Rightarrow> AddAvailableVehicle i internal m)"

lemma remdups_adj_sorted_distinct: "sorted xs \<Longrightarrow> distinct (remdups_adj (xs :: 'a :: linorder list))"
proof (induction xs rule: remdups_adj.induct)
  case (3 x y xs)
  then show ?case by (cases "x = y") (auto simp: order.antisym)
qed simp_all

lemma remdups_adj_sorted: "sorted xs \<Longrightarrow> remdups_adj (xs :: 'a :: linorder list) = sorted_list_of_set (set xs)"
  by (metis remdups_adj_set sorted_list_of_set.idem_if_sorted_distinct sorted_remdups_adj
      remdups_adj_sorted_distinct)

lemma added_vehicles:
  "m_AvailableVehicles (fold added_vehicle es v) =
     (if es = [] then m_AvailableVehicles v
      else sorted_list_of_set (set (m_AvailableVehicles v) \<union> fst ` set es))
   \<and> set (m_LocalVehicles (fold added_vehicle es v)) =
       set (m_LocalVehicles v) \<union> {i. \<exists>m. (i, True, m) \<in> set es}"
proof (induction es arbitrary: v)
  case (Cons e es)
  obtain i b m where e: "e = (i, b, m)" by (cases e)
  let ?v = "added_vehicle e v"
  have av: "m_AvailableVehicles ?v = sorted_list_of_set (insert i (set (m_AvailableVehicles v)))"
    by (simp add: e added_vehicle_def AddAvailableVehicle_def Let_def remdups_adj_sorted)
  have loc: "set (m_LocalVehicles ?v) = set (m_LocalVehicles v) \<union> (if b then {i} else {})"
    by (auto simp: e added_vehicle_def AddAvailableVehicle_def Let_def)
  show ?case
    using Cons.IH [of ?v] by (simp add: av loc del: sorted_list_of_set_insert_remove)
      (auto simp: e simp del: sorted_list_of_set_insert_remove)
qed simp

section \<open>Properties\<close>

text \<open>
  Setting a boundary always comes to an end and, unless 255 boundaries are set, gives it an
  identifier that no other boundary has: the boundary and its characteristic are found under it and
  every other boundary is kept.
\<close>

theorem setBoundaryByKey_fresh:
  assumes "length bs < 255"
  shows "\<exists>bs' i. setBoundaryByKey c b bs = Some (bs', Inr i)
     \<and> getBoundaryFromIdentifier i bs = None
     \<and> getBoundaryFromIdentifier i bs' = Some b \<and> getCharactersticFromIdentifier i bs' = Some c
     \<and> (\<forall>j. j \<noteq> i \<longrightarrow> map_of bs' j = map_of bs j) \<and> length bs' = Suc (length bs)"
proof -
  obtain i where i: "next_free bs (of_nat (length bs)) = Some i" "map_of bs i = None"
    using next_free_ok [of bs "of_nat (length bs)"] assms by auto
  moreover have "length (um_insert i (c, b) bs) = Suc (length bs)"
    using i(2) by (simp add: um_insert_def)
  ultimately show ?thesis
    using assms by (simp add: setBoundaryByKey_def getBoundaryFromIdentifier_def
        getCharactersticFromIdentifier_def)
qed

definition ex_characteristic :: BoundaryCharacteristic where
  "ex_characteristic = \<lparr>m_associatedVehicles = [4], m_boundaryType = RESOURCE_FENCE\<rparr>"

theorem setBoundaryByKey_fresh_witness:
  "\<exists>bs' i. setBoundaryByKey ex_characteristic (7 :: nat) [(0, ex_characteristic, 5)] = Some (bs', Inr i)
     \<and> getBoundaryFromIdentifier i bs' = Some 7"
  using setBoundaryByKey_fresh [of "[(0, ex_characteristic, 5)]" ex_characteristic 7] by auto

text \<open>
  The boundaries of a vehicle are those of the type that name it; a global boundary, which by
  \<open>ContainsVehicle\<close> holds for every vehicle, is found for none.
\<close>

theorem boundaries_for_vehicle:
  "i \<in> set (getBoundaryForVehicle v t bs) \<longleftrightarrow>
     (\<exists>c b. (i, c, b) \<in> set bs \<and> m_boundaryType c = t \<and> ContainsVehicle v c
        \<and> m_associatedVehicles c \<noteq> [])"
proof -
  have "i \<in> set (getBoundaryForVehicle v t bs) \<longleftrightarrow>
      (\<exists>c b. (i, c, b) \<in> set bs \<and> m_boundaryType c = t \<and> v \<in> set (m_associatedVehicles c))"
    by (induction bs) (auto simp: getBoundaryForVehicle_def)
  moreover have "v \<in> set (m_associatedVehicles c) \<longleftrightarrow> ContainsVehicle v c \<and> m_associatedVehicles c \<noteq> []"
    for c by (auto simp: ContainsVehicle_def list_ex_iff)
  ultimately show ?thesis by (simp only: conj_assoc)
qed

text \<open>
  After any additions the available vehicles are exactly the added ones, sorted and each once, and
  the local vehicles are exactly the added internal ones; but a local vehicle can be listed twice,
  since only adjacent duplicates are removed and the list is not sorted.
\<close>

theorem vehicles_exact:
  "m_AvailableVehicles (fold added_vehicle es VehicleRegistry_new) = sorted_list_of_set (fst ` set es)
   \<and> set (m_LocalVehicles (fold added_vehicle es VehicleRegistry_new)) = {i. \<exists>m. (i, True, m) \<in> set es}
   \<and> m_LocalVehicles (fold added_vehicle [(1, True, m1), (2, True, m2), (1, True, m1)]
        VehicleRegistry_new) = [1, 2, 1]"
proof -
  have "m_LocalVehicles (fold added_vehicle [(1, True, m1), (2, True, m2), (1, True, m1)]
        VehicleRegistry_new) = [1, 2, 1]"
    by (simp add: added_vehicle_def AddAvailableVehicle_def VehicleRegistry_new_def Let_def)
  then show ?thesis
    using added_vehicles [of es VehicleRegistry_new] by (auto simp: VehicleRegistry_new_def)
qed

text \<open>
  \<open>operator <\<close> on module addresses is not asymmetric, although addresses order \<open>std::map\<close> keys (in
  the identifiers of remote boundaries): two modules can each be less than the other.
\<close>

theorem module_lt_not_asym:
  "module_lt a b \<and> module_lt b a \<longleftrightarrow>
     ModuleID a < ModuleID b \<and> MaceInstance b < MaceInstance a
   \<or> ModuleID b < ModuleID a \<and> MaceInstance a < MaceInstance b"
  by (auto simp: module_lt_def)

end
