(* ===== verification/Transmit_Queue.thy ===== *)
theory Transmit_Queue
  imports Prelude
begin

text \<open>
  The retransmission queue (\<open>src/src/common/transmit_queue.h\<close>) that the controllers use to send a
  message until it is answered: \<open>TransmitQueue\<close> with its loop, and \<open>TransmitQueueWithKeys\<close>, which
  finds a transmission by the object that ends it and keeps the targets that have not answered.

  The actions of a transmission are those the keyed queue installs; what they do to the outside is
  logged: \<open>sent\<close> lists the calls of \<open>transmitAction\<close>, \<open>failures\<close> those of \<open>onFailure\<close>. A call of the
  queue runs without interruption, as does the loop's work on one entry; the threads detached by the
  loop to remove a failed entry are kept in \<open>reaping\<close> until they run. The keys of one instantiation of
  the template are one type \<open>'k\<close>, the targets \<open>'c\<close>.
\<close>

section \<open>The queue\<close>

record TransmitTask =
  numTries :: int
  lastTransmit :: int   \<comment> \<open>milliseconds since the epoch\<close>
  active :: bool

record ('c, 'k) KeyedQueue =
  m_ActiveTransmits :: "(int, TransmitTask) umap"
  m_WaitForRetries :: int
  m_NumRetries :: int
  m_ActiveTransmissionToTargets :: "(int, 'c list) umap"
  m_ActiveTransmissions :: "('k, int) umap"
  m_ActiveTransmissionsToKeyMap :: "(int, 'k list) umap"
  sent :: "(int \<times> 'c list) list"
  failures :: "int list"
  reaping :: "int list"

definition KeyedQueue_new :: "int \<Rightarrow> int \<Rightarrow> ('c, 'k) KeyedQueue" where
  "KeyedQueue_new waitForRetries numRetries =
     \<lparr>m_ActiveTransmits = [], m_WaitForRetries = waitForRetries, m_NumRetries = numRetries,
      m_ActiveTransmissionToTargets = [], m_ActiveTransmissions = [],
      m_ActiveTransmissionsToKeyMap = [], sent = [], failures = [], reaping = []\<rparr>"

text \<open>
  \<open>TransmitQueue::QueueTransmission\<close> draws random numbers until one is not in use; \<open>draws\<close> are the
  numbers it draws, and \<open>None\<close> means that it still draws after the last of them.
\<close>

definition queue_task :: "int list \<Rightarrow> bool \<Rightarrow> ('c, 'k) KeyedQueue \<Rightarrow> (('c, 'k) KeyedQueue \<times> int) option" where
  "queue_task draws execute q =
     map_option (\<lambda>num. (q\<lparr>m_ActiveTransmits := um_insert num
         \<lparr>numTries = 0, lastTransmit = 0, active = execute\<rparr> (m_ActiveTransmits q)\<rparr>, num))
       (find (\<lambda>num. map_of (m_ActiveTransmits q) num = None) draws)"

definition RemoveTransmissionFromQueue :: "int \<Rightarrow> ('c, 'k) KeyedQueue \<Rightarrow> ('c, 'k) KeyedQueue" where
  "RemoveTransmissionFromQueue num q =
     (if map_of (m_ActiveTransmits q) num \<noteq> None
      then q\<lparr>m_ActiveTransmits := um_erase num (m_ActiveTransmits q)\<rparr> else q)"

definition Execute :: "int \<Rightarrow> ('c, 'k) KeyedQueue \<Rightarrow> ('c, 'k) KeyedQueue \<times> (cpp_error + unit)" where
  "Execute num q = (case map_of (m_ActiveTransmits q) num of
     None \<Rightarrow> (q, Inl (Runtime_Error ''Given transmission number is unknown''))
   | Some t \<Rightarrow> (q\<lparr>m_ActiveTransmits := um_put num (t\<lparr>active := True\<rparr>) (m_ActiveTransmits q)\<rparr>, Inr ()))"

section \<open>The keyed queue\<close>

text \<open>\<open>failFunction\<close>: the keys and targets of the transmission are forgotten.\<close>

definition failFunction :: "int \<Rightarrow> ('c, 'k) KeyedQueue \<Rightarrow> ('c, 'k) KeyedQueue \<times> (cpp_error + unit)" where
  "failFunction num q =
     (let q = q\<lparr>failures := failures q @ [num]\<rparr>
      in case map_of (m_ActiveTransmissionsToKeyMap q) num of
           None \<Rightarrow> (q, Inl Out_Of_Range)
         | Some keys \<Rightarrow>
             (q\<lparr>m_ActiveTransmissions := fold um_erase keys (m_ActiveTransmissions q),
                m_ActiveTransmissionsToKeyMap := um_erase num (m_ActiveTransmissionsToKeyMap q),
                m_ActiveTransmissionToTargets := um_erase num (m_ActiveTransmissionToTargets q)\<rparr>,
              Inr ()))"

definition transmitFunction :: "int \<Rightarrow> ('c, 'k) KeyedQueue \<Rightarrow> ('c, 'k) KeyedQueue \<times> (cpp_error + unit)" where
  "transmitFunction num q = (case map_of (m_ActiveTransmissionToTargets q) num of
     None \<Rightarrow> (q, Inl Out_Of_Range)
   | Some targets \<Rightarrow> (q\<lparr>sent := sent q @ [(num, targets)]\<rparr>, Inr ()))"

text \<open>The elapsed milliseconds are stored in an \<open>int\<close>.\<close>

definition elapsed_ms :: "int \<Rightarrow> int \<Rightarrow> int" where
  "elapsed_ms now before = sint (word_of_int (now - before) :: u32)"

text \<open>The body of the loop in \<open>run\<close> for one entry, at the time \<open>now\<close>.\<close>

definition attempt :: "int \<Rightarrow> int \<Rightarrow> ('c, 'k) KeyedQueue \<Rightarrow> ('c, 'k) KeyedQueue \<times> (cpp_error + unit)" where
  "attempt now num q = (case map_of (m_ActiveTransmits q) num of
     None \<Rightarrow> (q, Inr ())
   | Some t \<Rightarrow>
       if \<not> active t then (q, Inr ())
       else if numTries t = 0 \<or> elapsed_ms now (lastTransmit t) > m_WaitForRetries q
       then (if numTries t \<ge> m_NumRetries q
             then obind (failFunction num q) (\<lambda>q u.
               (q\<lparr>m_ActiveTransmits := um_put num (t\<lparr>active := False\<rparr>) (m_ActiveTransmits q),
                  reaping := reaping q @ [num]\<rparr>, Inr ()))
             else transmitFunction num
               (q\<lparr>m_ActiveTransmits := um_put num (t\<lparr>lastTransmit := now, numTries := numTries t + 1\<rparr>)
                   (m_ActiveTransmits q)\<rparr>))
       else (q, Inr ()))"

text \<open>One pass of the loop over the entries; the clock is read for each.\<close>

fun run_pass :: "(int \<times> int) list \<Rightarrow> ('c, 'k) KeyedQueue \<Rightarrow> ('c, 'k) KeyedQueue \<times> (cpp_error + unit)" where
  "run_pass [] q = (q, Inr ())"
| "run_pass ((num, now) # es) q = obind (attempt now num q) (\<lambda>q u. run_pass es q)"

text \<open>A detached thread removes the entry that failed.\<close>

definition reap :: "int \<Rightarrow> ('c, 'k) KeyedQueue \<Rightarrow> ('c, 'k) KeyedQueue" where
  "reap num q = (if num \<in> set (reaping q)
     then RemoveTransmissionFromQueue num (q\<lparr>reaping := remove1 num (reaping q)\<rparr>) else q)"

definition QueueTransmission ::
  "'k list \<Rightarrow> 'c list \<Rightarrow> int list \<Rightarrow> ('c, 'k) KeyedQueue
     \<Rightarrow> (('c, 'k) KeyedQueue \<times> (cpp_error + unit)) option" where
  "QueueTransmission keys targets draws q =
     (if list_ex (\<lambda>k. map_of (m_ActiveTransmissions q) k \<noteq> None) keys then Some (q, Inr ())
      else case queue_task draws False q of
        None \<Rightarrow> None
      | Some (q, num) \<Rightarrow>
          let q = q\<lparr>m_ActiveTransmissions := fold (\<lambda>k. um_insert k num) keys (m_ActiveTransmissions q)\<rparr>
          in if map_of (m_ActiveTransmissionsToKeyMap q) num \<noteq> None
             then Some (q, Inl (Runtime_Error ''Need to set m_ActiveTransmissionsToKeyMap variable, but it already has an entry. Something got desynced''))
             else if map_of (m_ActiveTransmissionToTargets q) num \<noteq> None
             then Some (q, Inl (Runtime_Error ''Need to set m_ActiveTransmissionToTargets variable, but it already has an entry. Something got desynced''))
             else Some (Execute num
               (q\<lparr>m_ActiveTransmissionsToKeyMap := um_insert num keys (m_ActiveTransmissionsToKeyMap q),
                  m_ActiveTransmissionToTargets := um_insert num targets (m_ActiveTransmissionToTargets q)\<rparr>)))"

text \<open>
  The loop of \<open>RemoveTransmission\<close>: a target that answered is taken off the transmission's targets, and
  a transmission without targets is removed.
\<close>

definition acknowledge :: "int \<Rightarrow> 'c option \<Rightarrow> ('c, 'k) KeyedQueue \<Rightarrow> ('c, 'k) KeyedQueue \<times> bool" where
  "acknowledge num receivedFrom q = (case map_of (m_ActiveTransmissionToTargets q) num of
     None \<Rightarrow> (q, True)
   | Some targets \<Rightarrow>
       (case receivedFrom of
          None \<Rightarrow> (q, False)
        | Some c \<Rightarrow>
            let targets = removeAll c targets
            in (q\<lparr>m_ActiveTransmissionToTargets :=
                   um_put num targets (m_ActiveTransmissionToTargets q)\<rparr>, targets = [])))"

definition drop_transmission :: "int \<Rightarrow> ('c, 'k) KeyedQueue \<Rightarrow> ('c, 'k) KeyedQueue" where
  "drop_transmission num q =
     (let q = RemoveTransmissionFromQueue num q;
          q = (case map_of (m_ActiveTransmissionsToKeyMap q) num of
                 None \<Rightarrow> q
               | Some keys \<Rightarrow> q\<lparr>m_ActiveTransmissions := fold um_erase keys (m_ActiveTransmissions q)\<rparr>)
      in q\<lparr>m_ActiveTransmissionsToKeyMap := um_erase num (m_ActiveTransmissionsToKeyMap q),
           m_ActiveTransmissionToTargets := um_erase num (m_ActiveTransmissionToTargets q)\<rparr>)"

partial_function (option) RemoveTransmission ::
  "'k \<Rightarrow> 'c option \<Rightarrow> ('c, 'k) KeyedQueue \<Rightarrow> ('c, 'k) KeyedQueue option" where
  "RemoveTransmission key receivedFrom q = (case map_of (m_ActiveTransmissions q) key of
     None \<Rightarrow> Some q
   | Some num \<Rightarrow>
       let r = acknowledge num receivedFrom q
       in if snd r then RemoveTransmission key receivedFrom (drop_transmission num (fst r))
          else Some (fst r))"

text \<open>\<open>RemoveAllTransmissions\<close> does not touch the targets.\<close>

definition RemoveAllTransmissions :: "('c, 'k) KeyedQueue \<Rightarrow> ('c, 'k) KeyedQueue" where
  "RemoveAllTransmissions q =
     (let q = fold (\<lambda>e. RemoveTransmissionFromQueue (snd e)) (m_ActiveTransmissions q) q
      in q\<lparr>m_ActiveTransmissions := [], m_ActiveTransmissionsToKeyMap := []\<rparr>)"

section \<open>The maps agree\<close>

text \<open>
  The invariant, on the lookup functions of the four maps: every transmission has keys and targets, its
  keys lead to it and it is active; an inactive entry waits for its removal.
\<close>

definition sync ::
  "('k \<rightharpoonup> int) \<Rightarrow> (int \<rightharpoonup> 'k list) \<Rightarrow> (int \<rightharpoonup> 'c list) \<Rightarrow> (int \<rightharpoonup> TransmitTask) \<Rightarrow> int \<Rightarrow> int set \<Rightarrow> bool" where
  "sync AT KM TG TT r R \<longleftrightarrow> dom TG = dom KM
     \<and> (\<forall>k n. AT k = Some n \<longleftrightarrow> (\<exists>ks. KM n = Some ks \<and> k \<in> set ks))
     \<and> {n. \<exists>t. TT n = Some t \<and> active t} = dom KM
     \<and> (\<forall>t \<in> ran TT. 0 \<le> numTries t \<and> numTries t \<le> max 0 r)
     \<and> R \<inter> dom KM = {}"

definition in_sync :: "('c, 'k) KeyedQueue \<Rightarrow> bool" where
  "in_sync q \<longleftrightarrow> sync (map_of (m_ActiveTransmissions q)) (map_of (m_ActiveTransmissionsToKeyMap q))
     (map_of (m_ActiveTransmissionToTargets q)) (map_of (m_ActiveTransmits q)) (m_NumRetries q)
     (set (reaping q))"

lemma map_of_fold_erase [simp]:
  "map_of (fold um_erase ks m) = (\<lambda>k. if k \<in> set ks then None else map_of m k)"
  by (induction ks arbitrary: m) (auto simp: fun_eq_iff)

lemma map_of_fold_insert [simp]:
  "map_of (fold (\<lambda>k. um_insert k n) ks m) =
     (\<lambda>k. if k \<in> set ks \<and> map_of m k = None then Some n else map_of m k)"
  by (induction ks arbitrary: m) (auto simp: fun_eq_iff)

lemma sync_drop:
  assumes s: "sync AT KM TG TT r R" and n: "KM n = Some ks"
  shows "sync (\<lambda>k. if k \<in> set ks then None else AT k) (KM(n := None)) (TG(n := None)) (TT(n := None)) r R"
proof -
  have at: "AT k = Some m \<longleftrightarrow> (\<exists>ks. KM m = Some ks \<and> k \<in> set ks)" for k m
    using s by (simp add: sync_def)
  then have "k \<in> set ks \<Longrightarrow> AT k = Some n" for k using n by auto
  then have "(if k \<in> set ks then None else AT k) = Some m \<longleftrightarrow>
      (\<exists>ks. (KM(n := None)) m = Some ks \<and> k \<in> set ks)" for k m
    using at [of k m] n by (cases "m = n") auto
  moreover have "{m. \<exists>t. (TT(n := None)) m = Some t \<and> active t} = {m. \<exists>t. TT m = Some t \<and> active t} - {n}"
    by auto
  moreover have "ran (TT(n := None)) \<subseteq> ran TT" by (auto simp: ran_def split: if_splits)
  ultimately show ?thesis
    using s unfolding sync_def by (simp add: subset_iff) blast
qed

lemma sync_tasks:
  assumes "sync AT KM TG TT r R" "ran TT' \<subseteq> insert u (ran TT)" "0 \<le> numTries u" "numTries u \<le> max 0 r"
    "{n. \<exists>t. TT' n = Some t \<and> active t} = {n. \<exists>t. TT n = Some t \<and> active t}"
  shows "sync AT KM TG TT' r R"
proof -
  have "\<forall>t \<in> ran TT'. 0 \<le> numTries t \<and> numTries t \<le> max 0 r"
    using assms(1-4) unfolding sync_def by blast
  then show ?thesis using assms(1,5) unfolding sync_def by simp
qed

lemma sync_fail:
  assumes s: "sync AT KM TG TT r R" and n: "KM n = Some ks" "TT n = Some t"
  shows "sync (\<lambda>k. if k \<in> set ks then None else AT k) (KM(n := None)) (TG(n := None))
    (TT(n \<mapsto> t\<lparr>active := False\<rparr>)) r (insert n R)"
proof -
  let ?TT = "TT(n := None)"
  have d: "sync (\<lambda>k. if k \<in> set ks then None else AT k) (KM(n := None)) (TG(n := None)) ?TT r R"
    by (rule sync_drop [OF s n(1)])
  have "sync (\<lambda>k. if k \<in> set ks then None else AT k) (KM(n := None)) (TG(n := None))
      (TT(n \<mapsto> t\<lparr>active := False\<rparr>)) r R"
  proof (rule sync_tasks [OF d])
    show "ran (TT(n \<mapsto> t\<lparr>active := False\<rparr>)) \<subseteq> insert (t\<lparr>active := False\<rparr>) (ran ?TT)"
      by (auto simp: ran_def split: if_splits)
  qed (use s n(2) in \<open>auto simp: sync_def ran_def\<close>)
  then show ?thesis unfolding sync_def by auto
qed

lemma sync_try:
  assumes s: "sync AT KM TG TT r R" and n: "TT n = Some t" "active t" "numTries t < r"
  shows "sync AT KM TG (TT(n \<mapsto> t\<lparr>lastTransmit := now, numTries := numTries t + 1\<rparr>)) r R"
proof -
  let ?t = "t\<lparr>lastTransmit := now, numTries := numTries t + 1\<rparr>"
  have "0 \<le> numTries t" using s n(1) by (auto simp: sync_def ran_def)
  then show ?thesis
    using n by (intro sync_tasks [OF s, where u = ?t]) (auto simp: ran_def split: if_splits)
qed

lemma sync_queue:
  assumes s: "sync AT KM TG TT r R" and n: "TT n = None" "n \<notin> R" and ks: "\<forall>k \<in> set ks. AT k = None"
  shows "sync (\<lambda>k. if k \<in> set ks \<and> AT k = None then Some n else AT k) (KM(n \<mapsto> ks)) (TG(n \<mapsto> ts))
    (TT(n \<mapsto> \<lparr>numTries = 0, lastTransmit = l, active = True\<rparr>)) r R"
proof -
  let ?t = "\<lparr>numTries = 0, lastTransmit = l, active = True\<rparr>"
  have at: "AT k = Some m \<longleftrightarrow> (\<exists>ks. KM m = Some ks \<and> k \<in> set ks)" for k m
    using s by (simp add: sync_def)
  have "n \<notin> {n. \<exists>t. TT n = Some t \<and> active t}" using n(1) by simp
  moreover have "{n. \<exists>t. TT n = Some t \<and> active t} = dom KM" using s by (simp add: sync_def)
  ultimately have "n \<notin> dom KM" by simp
  then have "(if k \<in> set ks \<and> AT k = None then Some n else AT k) = Some m \<longleftrightarrow>
      (\<exists>ks'. (KM(n \<mapsto> ks)) m = Some ks' \<and> k \<in> set ks')" for k m
    using at [of k m] at [of k n] ks by (cases "m = n") auto
  moreover have "{m. \<exists>u. (TT(n \<mapsto> ?t)) m = Some u \<and> active u} = insert n {m. \<exists>u. TT m = Some u \<and> active u}"
    by auto
  moreover have "ran (TT(n \<mapsto> ?t)) \<subseteq> insert ?t (ran TT)" by (auto simp: ran_def split: if_splits)
  ultimately show ?thesis
    using s n(2) unfolding sync_def by (simp add: subset_iff) fastforce
qed

section \<open>The operations keep the maps in agreement\<close>

lemma in_sync_new: "in_sync (KeyedQueue_new w r)"
  by (simp add: in_sync_def sync_def KeyedQueue_new_def)

lemma RemoveTransmissionFromQueue_eq:
  "RemoveTransmissionFromQueue n q = q\<lparr>m_ActiveTransmits := um_erase n (m_ActiveTransmits q)\<rparr>"
  by (simp add: RemoveTransmissionFromQueue_def)

lemma drop_transmission_eq:
  "map_of (m_ActiveTransmissionsToKeyMap q) n = Some ks \<Longrightarrow>
   drop_transmission n q = q\<lparr>m_ActiveTransmits := um_erase n (m_ActiveTransmits q),
      m_ActiveTransmissions := fold um_erase ks (m_ActiveTransmissions q),
      m_ActiveTransmissionsToKeyMap := um_erase n (m_ActiveTransmissionsToKeyMap q),
      m_ActiveTransmissionToTargets := um_erase n (m_ActiveTransmissionToTargets q)\<rparr>"
  by (simp add: drop_transmission_def RemoveTransmissionFromQueue_eq Let_def)

lemma in_sync_drop:
  "in_sync q \<Longrightarrow> map_of (m_ActiveTransmissionsToKeyMap q) n = Some ks \<Longrightarrow> in_sync (drop_transmission n q)"
  by (simp add: drop_transmission_eq in_sync_def sync_drop fun_upd_def [symmetric])

lemma in_sync_queued:
  assumes "in_sync q" "map_of (m_ActiveTransmissions q) k = Some n"
  shows "\<exists>ks ts t. map_of (m_ActiveTransmissionsToKeyMap q) n = Some ks \<and> k \<in> set ks
    \<and> map_of (m_ActiveTransmissionToTargets q) n = Some ts
    \<and> map_of (m_ActiveTransmits q) n = Some t \<and> active t"
proof -
  obtain ks where ks: "map_of (m_ActiveTransmissionsToKeyMap q) n = Some ks" "k \<in> set ks"
    using assms by (auto simp: in_sync_def sync_def)
  then have "n \<in> dom (map_of (m_ActiveTransmissionToTargets q))"
    "n \<in> {n. \<exists>t. map_of (m_ActiveTransmits q) n = Some t \<and> active t}"
    using assms(1) unfolding in_sync_def sync_def by (simp_all add: domI)
  then show ?thesis using ks by auto
qed

text \<open>The outcome of \<open>RemoveTransmission\<close>.\<close>

definition removed :: "'k \<Rightarrow> 'c option \<Rightarrow> ('c, 'k) KeyedQueue \<Rightarrow> ('c, 'k) KeyedQueue" where
  "removed key from q = (case map_of (m_ActiveTransmissions q) key of
     None \<Rightarrow> q
   | Some n \<Rightarrow>
       (case from of
          None \<Rightarrow> q
        | Some c \<Rightarrow>
            let ts = removeAll c (the (map_of (m_ActiveTransmissionToTargets q) n))
            in if ts = [] then drop_transmission n q
               else q\<lparr>m_ActiveTransmissionToTargets := um_put n ts (m_ActiveTransmissionToTargets q)\<rparr>))"

lemma RemoveTransmission_removed:
  assumes "in_sync q"
  shows "RemoveTransmission key from q = Some (removed key from q) \<and> in_sync (removed key from q)"
proof (cases "map_of (m_ActiveTransmissions q) key")
  case None
  then show ?thesis using assms by (subst RemoveTransmission.simps) (simp add: removed_def)
next
  case (Some n)
  obtain ks ts where ks: "map_of (m_ActiveTransmissionsToKeyMap q) n = Some ks" "key \<in> set ks"
    and ts: "map_of (m_ActiveTransmissionToTargets q) n = Some ts"
    using in_sync_queued [OF assms Some] by blast
  show ?thesis
  proof (cases "from")
    case None
    then show ?thesis
      using assms Some ts by (subst RemoveTransmission.simps) (simp add: removed_def acknowledge_def)
  next
    case c: (Some c)
    let ?ts = "removeAll c ts"
    let ?q = "q\<lparr>m_ActiveTransmissionToTargets := um_put n ?ts (m_ActiveTransmissionToTargets q)\<rparr>"
    have ack: "acknowledge n from q = (?q, ?ts = [])" by (simp add: acknowledge_def c ts Let_def)
    have "dom (map_of (m_ActiveTransmissionToTargets ?q)) = dom (map_of (m_ActiveTransmissionToTargets q))"
      using ts by auto
    then have sync: "in_sync ?q" using assms unfolding in_sync_def sync_def by simp
    show ?thesis
    proof (cases "?ts = []")
      case True
      have eq: "drop_transmission n ?q = drop_transmission n q"
        using ks(1) by (simp add: drop_transmission_eq delete_update_same)
      have "map_of (m_ActiveTransmissions (drop_transmission n q)) key = None"
        using ks by (simp add: drop_transmission_eq)
      then have "RemoveTransmission key from (drop_transmission n q) = Some (drop_transmission n q)"
        by (subst RemoveTransmission.simps) simp
      then show ?thesis
        using Some True ack eq c ts in_sync_drop [OF assms ks(1)]
        by (subst RemoveTransmission.simps) (simp add: removed_def)
    next
      case False
      then show ?thesis
        using Some ack c ts sync by (subst RemoveTransmission.simps) (simp add: removed_def Let_def)
    qed
  qed
qed

text \<open>With the removals that are still to come.\<close>

definition queue_ok :: "('c, 'k) KeyedQueue \<Rightarrow> bool" where
  "queue_ok q \<longleftrightarrow> in_sync q \<and> distinct (reaping q)
     \<and> (\<forall>n \<in> set (reaping q). map_of (m_ActiveTransmits q) n \<noteq> None)"

lemma queue_okD:
  "queue_ok q \<Longrightarrow> in_sync q" "queue_ok q \<Longrightarrow> distinct (reaping q)"
  "queue_ok q \<Longrightarrow> n \<in> set (reaping q) \<Longrightarrow> map_of (m_ActiveTransmits q) n \<noteq> None"
  by (simp_all add: queue_ok_def)

lemma not_reaping:
  "in_sync q \<Longrightarrow> map_of (m_ActiveTransmissionsToKeyMap q) n = Some ks \<Longrightarrow> n \<notin> set (reaping q)"
  unfolding in_sync_def sync_def by blast

lemma QueueTransmission_ok:
  assumes "queue_ok q" "QueueTransmission keys targets draws q = Some (q', r)"
  shows "queue_ok q' \<and> r = Inr ()"
proof (cases "list_ex (\<lambda>k. map_of (m_ActiveTransmissions q) k \<noteq> None) keys")
  case True
  then show ?thesis using assms by (simp add: QueueTransmission_def)
next
  case False
  note ok = queue_okD [OF assms(1)]
  obtain n where n: "find (\<lambda>num. map_of (m_ActiveTransmits q) num = None) draws = Some n"
    using assms(2) False by (auto simp: QueueTransmission_def queue_task_def split: option.splits)
  then have free: "map_of (m_ActiveTransmits q) n = None" by (auto simp: find_Some_iff)
  then have "n \<notin> {n. \<exists>t. map_of (m_ActiveTransmits q) n = Some t \<and> active t}" by simp
  then have "n \<notin> dom (map_of (m_ActiveTransmissionsToKeyMap q))"
    "n \<notin> dom (map_of (m_ActiveTransmissionToTargets q))"
    using ok(1) unfolding in_sync_def sync_def by argo+
  then have none: "map_of (m_ActiveTransmissionsToKeyMap q) n = None"
    "map_of (m_ActiveTransmissionToTargets q) n = None" by auto
  have new: "\<forall>k \<in> set keys. map_of (m_ActiveTransmissions q) k = None"
    using False by (simp add: list_ex_iff)
  have "n \<notin> set (reaping q)" using ok(3) free by blast
  then have "in_sync q'" "r = Inr ()" "reaping q' = reaping q"
    "m_ActiveTransmits q' = um_put n \<lparr>numTries = 0, lastTransmit = 0, active = True\<rparr>
       (um_insert n \<lparr>numTries = 0, lastTransmit = 0, active = False\<rparr> (m_ActiveTransmits q))"
    using assms(2) False n free none
      sync_queue [OF ok(1) [unfolded in_sync_def] free _ new, where l = 0 and ts = targets]
    by (auto simp: QueueTransmission_def queue_task_def Execute_def in_sync_def Let_def)
  then show ?thesis using ok(2,3) by (auto simp: queue_ok_def)
qed

lemma RemoveTransmission_ok:
  assumes "queue_ok q"
  shows "RemoveTransmission key from q = Some (removed key from q) \<and> queue_ok (removed key from q)"
proof -
  note ok = queue_okD [OF assms]
  have "reaping (removed key from q) = reaping q"
    by (auto simp: removed_def drop_transmission_def RemoveTransmissionFromQueue_def Let_def
        split: option.split)
  moreover have "map_of (m_ActiveTransmits (removed key from q)) n \<noteq> None" if n: "n \<in> set (reaping q)" for n
  proof (cases "map_of (m_ActiveTransmissions q) key")
    case (Some m)
    then obtain ks where ks: "map_of (m_ActiveTransmissionsToKeyMap q) m = Some ks"
      using in_sync_queued [OF ok(1)] by blast
    then have "n \<noteq> m" using not_reaping [OF ok(1)] n by blast
    then show ?thesis
      using Some ok(3) [OF n] by (simp add: removed_def drop_transmission_eq [OF ks] Let_def split: option.split)
  qed (use ok(3) n in \<open>simp add: removed_def\<close>)
  ultimately show ?thesis
    using RemoveTransmission_removed [OF ok(1)] ok(2) by (simp add: queue_ok_def)
qed

lemma attempt_ok:
  assumes "queue_ok q"
  shows "queue_ok (fst (attempt now n q)) \<and> snd (attempt now n q) = Inr ()"
proof (cases "map_of (m_ActiveTransmits q) n")
  case None
  then show ?thesis using assms by (simp add: attempt_def)
next
  case (Some t)
  note ok = queue_okD [OF assms]
  let ?due = "active t \<and> (numTries t = 0 \<or> elapsed_ms now (lastTransmit t) > m_WaitForRetries q)"
  show ?thesis
  proof (cases ?due)
    case True
    then have "n \<in> {n. \<exists>t. map_of (m_ActiveTransmits q) n = Some t \<and> active t}" using Some by simp
    then have "n \<in> dom (map_of (m_ActiveTransmissionsToKeyMap q))"
      "n \<in> dom (map_of (m_ActiveTransmissionToTargets q))"
      using ok(1) unfolding in_sync_def sync_def by argo+
    then obtain ks ts where ks: "map_of (m_ActiveTransmissionsToKeyMap q) n = Some ks"
      and ts: "map_of (m_ActiveTransmissionToTargets q) n = Some ts" by blast
    note sync = ok(1) [unfolded in_sync_def]
    show ?thesis
    proof (cases "numTries t \<ge> m_NumRetries q")
      case fail: True
      then have "attempt now n q = (q\<lparr>failures := failures q @ [n],
          m_ActiveTransmissions := fold um_erase ks (m_ActiveTransmissions q),
          m_ActiveTransmissionsToKeyMap := um_erase n (m_ActiveTransmissionsToKeyMap q),
          m_ActiveTransmissionToTargets := um_erase n (m_ActiveTransmissionToTargets q),
          m_ActiveTransmits := um_put n (t\<lparr>active := False\<rparr>) (m_ActiveTransmits q),
          reaping := reaping q @ [n]\<rparr>, Inr ())"
        using Some True ks by (simp add: attempt_def failFunction_def Let_def)
      then show ?thesis
        using sync_fail [OF sync ks Some] not_reaping [OF ok(1) ks] ok(2,3)
        by (auto simp: queue_ok_def in_sync_def fun_upd_def [symmetric])
    next
      case send: False
      then have "attempt now n q = (q\<lparr>m_ActiveTransmits := um_put n
          (t\<lparr>lastTransmit := now, numTries := numTries t + 1\<rparr>) (m_ActiveTransmits q),
          sent := sent q @ [(n, ts)]\<rparr>, Inr ())"
        using Some True ts by (simp add: attempt_def transmitFunction_def)
      then show ?thesis
        using sync_try [OF sync Some, where now = now] True send ok(2,3)
        by (auto simp: queue_ok_def in_sync_def fun_upd_def [symmetric])
    qed
  next
    case False
    then show ?thesis using assms Some by (auto simp: attempt_def)
  qed
qed

lemma reap_ok: "queue_ok q \<Longrightarrow> queue_ok (reap n q)"
proof (cases "n \<in> set (reaping q)")
  case True
  assume "queue_ok q"
  note ok = queue_okD [OF this]
  have "map_of (m_ActiveTransmissionsToKeyMap q) n = None"
    using not_reaping [OF ok(1)] True by (cases "map_of (m_ActiveTransmissionsToKeyMap q) n") auto
  then have "n \<notin> dom (map_of (m_ActiveTransmissionsToKeyMap q))" by auto
  then have "n \<notin> {n. \<exists>t. map_of (m_ActiveTransmits q) n = Some t \<and> active t}"
    using ok(1) unfolding in_sync_def sync_def by argo
  then have "{m. \<exists>t. m \<noteq> n \<and> map_of (m_ActiveTransmits q) m = Some t \<and> active t}
      = {m. \<exists>t. map_of (m_ActiveTransmits q) m = Some t \<and> active t}" by auto
  moreover have "ran ((map_of (m_ActiveTransmits q))(n := None)) \<subseteq> ran (map_of (m_ActiveTransmits q))"
    by (auto simp: ran_def split: if_splits)
  ultimately have "in_sync (reap n q)"
    using ok(1,2) True unfolding in_sync_def sync_def
    by (auto simp: reap_def RemoveTransmissionFromQueue_eq set_remove1_eq)
  then show ?thesis
    using ok(2,3) True by (simp add: queue_ok_def reap_def RemoveTransmissionFromQueue_eq)
qed (simp add: reap_def)

section \<open>Histories\<close>

text \<open>
  The queues reached by queueing, removing, attempts of the loop and removals of failed entries, in any
  order; a call that still draws random numbers has not returned and is no step.
\<close>

inductive tq_reach :: "int \<Rightarrow> int \<Rightarrow> ('c, 'k) KeyedQueue \<Rightarrow> bool" for w r where
  start: "tq_reach w r (KeyedQueue_new w r)"
| queue: "tq_reach w r q \<Longrightarrow> QueueTransmission keys targets draws q = Some (q', res) \<Longrightarrow> tq_reach w r q'"
| remove: "tq_reach w r q \<Longrightarrow> RemoveTransmission key from q = Some q' \<Longrightarrow> tq_reach w r q'"
| attempt: "tq_reach w r q \<Longrightarrow> tq_reach w r (fst (attempt now n q))"
| reap: "tq_reach w r q \<Longrightarrow> tq_reach w r (reap n q)"

lemma reach_ok: "tq_reach w r q \<Longrightarrow> queue_ok q"
proof (induction rule: tq_reach.induct)
  case start
  then show ?case by (simp add: queue_ok_def in_sync_new) (simp add: KeyedQueue_new_def)
qed (use QueueTransmission_ok RemoveTransmission_ok attempt_ok reap_ok in \<open>blast, fastforce, blast, blast\<close>)

lemma queue_retries:
  "QueueTransmission keys targets draws q = Some (q', res) \<Longrightarrow> m_NumRetries q' = m_NumRetries q"
  by (auto simp: QueueTransmission_def queue_task_def Execute_def Let_def
      split: if_splits option.splits)

lemma removed_retries: "m_NumRetries (removed key from q) = m_NumRetries q"
  by (auto simp: removed_def drop_transmission_def RemoveTransmissionFromQueue_def Let_def
      split: option.split)

lemma attempt_retries: "m_NumRetries (fst (attempt now n q)) = m_NumRetries q"
  by (auto simp: attempt_def failFunction_def transmitFunction_def Let_def split: option.split)

lemma reach_retries: "tq_reach w r q \<Longrightarrow> m_NumRetries q = r"
proof (induction rule: tq_reach.induct)
  case (remove q key "from" q')
  then show ?case using RemoveTransmission_ok [OF reach_ok] removed_retries by (metis option.inject)
qed (auto simp: KeyedQueue_new_def queue_retries attempt_retries reap_def RemoveTransmissionFromQueue_eq)

lemma run_pass_ok: "queue_ok q \<Longrightarrow> snd (run_pass es q) = Inr ()"
proof (induction es q rule: run_pass.induct)
  case (2 num now es q)
  then show ?case using attempt_ok [of q now num] by (cases "attempt now num q") simp
qed simp

text \<open>A queue with one transmission to two targets.\<close>

definition ex_transmission :: "(nat, string) KeyedQueue" where
  "ex_transmission = (case QueueTransmission [''a''] [1, 2] [5] (KeyedQueue_new 100 3) of
     Some (q, _) \<Rightarrow> q | None \<Rightarrow> KeyedQueue_new 100 3)"

lemma ex_transmission_eq:
  "QueueTransmission [''a''] [1, 2] [5] (KeyedQueue_new 100 3) = Some (ex_transmission, Inr ())"
  by code_simp

lemma ex_transmission_reach: "tq_reach 100 3 ex_transmission"
  by (rule tq_reach.queue [OF tq_reach.start ex_transmission_eq])

section \<open>Properties\<close>



text \<open>
  The broadcast is reliable and spares the targets that answered: when the answer of a target comes
  in, the target is taken off; while others are missing the next attempt sends exactly to those, and
  with the last answer the transmission and all its keys are gone. An answer without a sender ends
  nothing, because a queued transmission always has an entry for its targets.
\<close>

theorem answered_targets_spared:
  assumes "tq_reach w r q" "map_of (m_ActiveTransmissions q) key = Some n"
    "map_of (m_ActiveTransmissionToTargets q) n = Some ts"
  shows "RemoveTransmission key None q = Some q
     \<and> (\<exists>q'. RemoveTransmission key (Some c) q = Some q'
        \<and> (if removeAll c ts = []
           then map_of (m_ActiveTransmits q') n = None \<and> (\<forall>k. map_of (m_ActiveTransmissions q') k \<noteq> Some n)
           else map_of (m_ActiveTransmissions q') key = Some n
             \<and> sent (fst (attempt now n q')) \<in> {sent q, sent q @ [(n, removeAll c ts)]}))"
proof -
  note ok = queue_okD(1) [OF reach_ok [OF assms(1)]]
  obtain ks where ks: "map_of (m_ActiveTransmissionsToKeyMap q) n = Some ks"
    using in_sync_queued [OF ok assms(2)] by blast
  have keys: "map_of (m_ActiveTransmissions q) k = Some n \<Longrightarrow> k \<in> set ks" for k
    using ok ks by (auto simp: in_sync_def sync_def)
  have none: "RemoveTransmission key None q = Some q"
    using RemoveTransmission_removed [OF ok, of key None] assms(2) by (simp add: removed_def)
  let ?q = "removed key (Some c) q"
  have some: "RemoveTransmission key (Some c) q = Some ?q"
    using RemoveTransmission_removed [OF ok] by blast
  show ?thesis
  proof (cases "removeAll c ts = []")
    case True
    then have "?q = drop_transmission n q" using assms(2,3) by (simp add: removed_def)
    then show ?thesis using none some True keys by (auto simp: drop_transmission_eq [OF ks])
  next
    case False
    then have q: "?q = q\<lparr>m_ActiveTransmissionToTargets :=
        um_put n (removeAll c ts) (m_ActiveTransmissionToTargets q)\<rparr>"
      using assms(2,3) by (simp add: removed_def Let_def)
    have "sent (fst (attempt now n ?q)) \<in> {sent q, sent q @ [(n, removeAll c ts)]}"
      unfolding q by (auto simp: attempt_def failFunction_def transmitFunction_def Let_def
          split: option.split)
    then show ?thesis using none some False assms(2) q by auto
  qed
qed

theorem answered_targets_spared_witness:
  "\<exists>q'. RemoveTransmission ''a'' (Some 1) ex_transmission = Some q'
     \<and> sent (fst (attempt 0 5 q')) \<in> {[], [(5, [2])]}"
proof -
  have "map_of (m_ActiveTransmissions ex_transmission) ''a'' = Some 5"
    "map_of (m_ActiveTransmissionToTargets ex_transmission) 5 = Some [1, 2]" "sent ex_transmission = []"
    by code_simp+
  then show ?thesis
    using answered_targets_spared [OF ex_transmission_reach, of "''a''" 5 "[1, 2]" 1 0] by auto
qed

lemma attempt_cases:
  assumes "queue_ok q" "map_of (m_ActiveTransmits q) m = Some t"
  shows "attempt now m q = (q, Inr ())
    \<or> fst (attempt now m q) = (fst (failFunction m q))\<lparr>m_ActiveTransmits := um_put m (t\<lparr>active := False\<rparr>) (m_ActiveTransmits q),
        reaping := reaping q @ [m]\<rparr>
    \<or> (\<exists>ts. numTries t < m_NumRetries q \<and> fst (attempt now m q) = q\<lparr>m_ActiveTransmits := um_put m
        (t\<lparr>lastTransmit := now, numTries := numTries t + 1\<rparr>) (m_ActiveTransmits q), sent := sent q @ [(m, ts)]\<rparr>)"
proof (cases "active t \<and> (numTries t = 0 \<or> elapsed_ms now (lastTransmit t) > m_WaitForRetries q)")
  case True
  then have "m \<in> {n. \<exists>t. map_of (m_ActiveTransmits q) n = Some t \<and> active t}" using assms(2) by simp
  then have "m \<in> dom (map_of (m_ActiveTransmissionsToKeyMap q))" "m \<in> dom (map_of (m_ActiveTransmissionToTargets q))"
    using queue_okD(1) [OF assms(1)] unfolding in_sync_def sync_def by argo+
  then show ?thesis
    using True assms(2) by (auto simp: attempt_def failFunction_def transmitFunction_def Let_def)
next
  case False
  then show ?thesis using assms(2) by (auto simp: attempt_def)
qed

text \<open>
  The queues that follow while the number \<open>n\<close> is not given out again, and how often a transmission with the number
  was sent.
\<close>

inductive tq_while :: "int \<Rightarrow> ('c, 'k) KeyedQueue \<Rightarrow> ('c, 'k) KeyedQueue \<Rightarrow> bool" for n q0 where
  here: "tq_while n q0 q0"
| queue: "tq_while n q0 q \<Longrightarrow> QueueTransmission keys targets draws q = Some (q', res) \<Longrightarrow>
    (map_of (m_ActiveTransmits q) n = None \<Longrightarrow> map_of (m_ActiveTransmits q') n = None) \<Longrightarrow> tq_while n q0 q'"
| remove: "tq_while n q0 q \<Longrightarrow> RemoveTransmission key from q = Some q' \<Longrightarrow> tq_while n q0 q'"
| attempt: "tq_while n q0 q \<Longrightarrow> tq_while n q0 (fst (attempt now m q))"
| reap: "tq_while n q0 q \<Longrightarrow> tq_while n q0 (reap m q)"

definition times_sent :: "int \<Rightarrow> ('c, 'k) KeyedQueue \<Rightarrow> nat" where
  "times_sent n q = length (filter (\<lambda>s. fst s = n) (sent q))"

text \<open>Since a queue \<open>q0\<close> the number was sent as often as its entry counts, and never more often than the retries.\<close>

definition tries_counted :: "int \<Rightarrow> ('c, 'k) KeyedQueue \<Rightarrow> ('c, 'k) KeyedQueue \<Rightarrow> bool" where
  "tries_counted n q0 q \<longleftrightarrow> int (times_sent n q) \<le> int (times_sent n q0) + max 0 (m_NumRetries q) \<and>
     (\<forall>t. map_of (m_ActiveTransmits q) n = Some t \<longrightarrow> int (times_sent n q) = int (times_sent n q0) + numTries t)"

lemma queue_ok_tries: "queue_ok q \<Longrightarrow> map_of (m_ActiveTransmits q) n = Some t \<Longrightarrow> 0 \<le> numTries t \<and> numTries t \<le> max 0 (m_NumRetries q)"
  by (auto simp: queue_ok_def in_sync_def sync_def ran_def)

lemma QueueTransmission_entries:
  assumes "QueueTransmission keys targets draws q = Some (q', res)"
  shows "sent q' = sent q" "map_of (m_ActiveTransmits q) n = Some t \<Longrightarrow> map_of (m_ActiveTransmits q') n = Some t"
    "map_of (m_ActiveTransmits q) n = None \<Longrightarrow> map_of (m_ActiveTransmits q') n = Some t \<Longrightarrow> numTries t = 0"
  using assms
  by (auto simp: QueueTransmission_def queue_task_def Execute_def Let_def find_Some_iff split: if_splits option.splits)

lemma removed_entries:
  "sent (removed key from q) = sent q \<and>
   (map_of (m_ActiveTransmits (removed key from q)) n = Some t \<longrightarrow> map_of (m_ActiveTransmits q) n = Some t)"
  by (auto simp: removed_def drop_transmission_def RemoveTransmissionFromQueue_def Let_def split: option.splits if_splits)

lemma attempt_counted:
  assumes "queue_ok q" "tries_counted n q0 q"
  shows "tries_counted n q0 (fst (attempt now m q))"
proof (cases "map_of (m_ActiveTransmits q) m")
  case None
  then show ?thesis using assms(2) by (simp add: attempt_def)
next
  case (Some t)
  let ?q = "fst (attempt now m q)"
  have "(times_sent n ?q = times_sent n q \<and>
      (\<forall>u. map_of (m_ActiveTransmits ?q) n = Some u \<longrightarrow> (\<exists>v. map_of (m_ActiveTransmits q) n = Some v \<and> numTries u = numTries v))) \<or>
    (n = m \<and> times_sent n ?q = times_sent n q + 1 \<and> numTries t < m_NumRetries q \<and>
      map_of (m_ActiveTransmits ?q) n = Some (t\<lparr>lastTransmit := now, numTries := numTries t + 1\<rparr>))"
  proof -
    consider (idle) "attempt now m q = (q, Inr ())"
      | (fail) "?q = (fst (failFunction m q))\<lparr>m_ActiveTransmits := um_put m (t\<lparr>active := False\<rparr>) (m_ActiveTransmits q), reaping := reaping q @ [m]\<rparr>"
      | (send) ts where "numTries t < m_NumRetries q" "?q = q\<lparr>m_ActiveTransmits := um_put m
            (t\<lparr>lastTransmit := now, numTries := numTries t + 1\<rparr>) (m_ActiveTransmits q), sent := sent q @ [(m, ts)]\<rparr>"
      using attempt_cases [OF assms(1) Some, of now] by blast
    then show ?thesis
    proof cases
      case idle
      then show ?thesis by simp
    next
      case fail
      then show ?thesis
        using Some by (auto simp: times_sent_def failFunction_def Let_def split: option.split if_splits)
    next
      case send
      then show ?thesis using Some by (auto simp: times_sent_def)
    qed
  qed
  then show ?thesis
  proof
    assume "times_sent n ?q = times_sent n q \<and>
      (\<forall>u. map_of (m_ActiveTransmits ?q) n = Some u \<longrightarrow> (\<exists>v. map_of (m_ActiveTransmits q) n = Some v \<and> numTries u = numTries v))"
    then show ?thesis using assms(2) attempt_retries [of now m q] by (fastforce simp: tries_counted_def)
  next
    assume *: "n = m \<and> times_sent n ?q = times_sent n q + 1 \<and> numTries t < m_NumRetries q \<and>
      map_of (m_ActiveTransmits ?q) n = Some (t\<lparr>lastTransmit := now, numTries := numTries t + 1\<rparr>)"
    then have "int (times_sent n q) = int (times_sent n q0) + numTries t" using assms(2) Some by (simp add: tries_counted_def)
    with * show ?thesis using attempt_retries [of now m q] by (auto simp: tries_counted_def)
  qed
qed

lemma while_counted:
  assumes "tq_while n q0 q" "queue_ok q0" "\<And>t. map_of (m_ActiveTransmits q0) n = Some t \<Longrightarrow> numTries t = 0"
  shows "queue_ok q \<and> m_NumRetries q = m_NumRetries q0 \<and> tries_counted n q0 q"
  using assms(1)
proof (induction rule: tq_while.induct)
  case here
  then show ?case using assms(2,3) by (simp add: tries_counted_def)
next
  case (queue q keys targets draws q' res)
  note e = QueueTransmission_entries [OF queue.hyps(2)]
  have r: "m_NumRetries q' = m_NumRetries q" by (rule queue_retries [OF queue.hyps(2)])
  have IH: "queue_ok q" "m_NumRetries q = m_NumRetries q0" "tries_counted n q0 q" using queue.IH by simp_all
  have sends: "times_sent n q' = times_sent n q" by (simp add: times_sent_def e(1))
  have "tries_counted n q0 q'"
  proof (cases "map_of (m_ActiveTransmits q) n")
    case None
    then show ?thesis using IH(3) queue.hyps(3) by (simp add: tries_counted_def sends r)
  next
    case (Some t)
    then show ?thesis using IH(3) e(2) [OF Some] by (simp add: tries_counted_def sends r)
  qed
  then show ?case using IH QueueTransmission_ok [OF _ queue.hyps(2)] r by simp
next
  case (remove q key "from" q')
  then have q': "q' = removed key from q" "queue_ok q'" using RemoveTransmission_ok [of q key "from"] by auto
  have "m_NumRetries q' = m_NumRetries q" by (simp add: q'(1) removed_retries)
  then show ?case
    using remove.IH q' removed_entries [of key "from" q n] by (auto simp: tries_counted_def times_sent_def)
next
  case (attempt q now m)
  then show ?case
    using attempt_ok [of q now m] attempt_counted [of q n q0 now m] attempt_retries [of now m q] by simp
next
  case (reap q m)
  have "m_NumRetries (reap m q) = m_NumRetries q" "times_sent n (reap m q) = times_sent n q"
      "\<And>t. map_of (m_ActiveTransmits (reap m q)) n = Some t \<Longrightarrow> map_of (m_ActiveTransmits q) n = Some t"
    by (auto simp: reap_def RemoveTransmissionFromQueue_eq times_sent_def split: if_splits)
  then show ?case using reap.IH reap_ok [of q m] by (auto simp: tries_counted_def)
qed

text \<open>
  C39: From the moment a transmission is queued until its number is given out again it is sent at most
  \<open>m_NumRetries\<close> times, whatever is queued, removed, attempted and reaped meanwhile
  (\<open>RemoveAllTransmissions\<close> aside); while it has an entry the entry counts exactly how often it was
  sent, and an attempt that is due after \<open>m_NumRetries\<close> of them sends nothing, reports the failure once
  and frees every key of the transmission.
\<close>

theorem retries_bounded:
  assumes "tq_reach w r q0" "QueueTransmission keys targets draws q0 = Some (q1, res)"
    and "map_of (m_ActiveTransmits q0) n = None" "map_of (m_ActiveTransmits q1) n \<noteq> None"
    and "tq_while n q1 q"
  shows "int (times_sent n q) - int (times_sent n q1) \<le> max 0 r
     \<and> (\<forall>t. map_of (m_ActiveTransmits q) n = Some t \<longrightarrow> int (times_sent n q) - int (times_sent n q1) = numTries t
        \<and> (active t \<and> numTries t \<ge> r \<and> (numTries t = 0 \<or> elapsed_ms now (lastTransmit t) > m_WaitForRetries q) \<longrightarrow>
             sent (fst (attempt now n q)) = sent q \<and> failures (fst (attempt now n q)) = failures q @ [n]
           \<and> (\<forall>k. map_of (m_ActiveTransmissions (fst (attempt now n q))) k \<noteq> Some n)
           \<and> n \<in> set (reaping (fst (attempt now n q)))))"
proof -
  have "queue_ok q1" "m_NumRetries q1 = r"
    using QueueTransmission_ok [OF reach_ok [OF assms(1)] assms(2)] queue_retries [OF assms(2)] reach_retries [OF assms(1)]
    by simp_all
  then have w: "queue_ok q" "m_NumRetries q = r" "tries_counted n q1 q"
    using while_counted [OF assms(5)] QueueTransmission_entries(3) [OF assms(2,3)] by simp_all
  note ok = queue_okD(1) [OF w(1)]
  have "sent (fst (attempt now n q)) = sent q \<and> failures (fst (attempt now n q)) = failures q @ [n]
        \<and> (\<forall>k. map_of (m_ActiveTransmissions (fst (attempt now n q))) k \<noteq> Some n)
        \<and> n \<in> set (reaping (fst (attempt now n q)))"
    if t: "map_of (m_ActiveTransmits q) n = Some t"
      and due: "active t" "numTries t \<ge> r" "numTries t = 0 \<or> elapsed_ms now (lastTransmit t) > m_WaitForRetries q" for t
  proof -
    have "n \<in> {n. \<exists>t. map_of (m_ActiveTransmits q) n = Some t \<and> active t}" using t due by simp
    then have "n \<in> dom (map_of (m_ActiveTransmissionsToKeyMap q))"
      using ok unfolding in_sync_def sync_def by argo
    then obtain ks where ks: "map_of (m_ActiveTransmissionsToKeyMap q) n = Some ks" by blast
    have "map_of (m_ActiveTransmissions q) k = Some n \<Longrightarrow> k \<in> set ks" for k
      using ok ks by (auto simp: in_sync_def sync_def)
    then show ?thesis using due ks t w(2) by (auto simp: attempt_def failFunction_def Let_def)
  qed
  then show ?thesis using w(2,3) by (auto simp: tries_counted_def)
qed

theorem retries_bounded_witness:
  "times_sent 5 (fst (attempt 0 5 ex_transmission)) \<le> 3"
proof -
  have "map_of (m_ActiveTransmits (KeyedQueue_new 100 3 :: (nat, string) KeyedQueue)) 5 = None"
    "map_of (m_ActiveTransmits ex_transmission) 5 \<noteq> None" "times_sent 5 ex_transmission = 0"
    by code_simp+
  note retries_bounded [OF tq_reach.start ex_transmission_eq this(1,2) tq_while.attempt [OF tq_while.here], THEN conjunct1]
  then show ?thesis using \<open>times_sent 5 ex_transmission = 0\<close> by simp
qed

text \<open>
  Removing all transmissions leaves their targets behind: a later transmission that draws the same
  number throws, with the mutex of the queue still locked.
\<close>

theorem remove_all_desyncs:
  "(case QueueTransmission [''b''] [3] [5] (RemoveAllTransmissions ex_transmission) of
      Some (q, Inl (Runtime_Error _)) \<Rightarrow> map_of (m_ActiveTransmits q) 5 \<noteq> None
    | _ \<Rightarrow> False)
   \<and> m_ActiveTransmits (RemoveAllTransmissions ex_transmission) = []"
  by code_simp

end
