(* ===== verification/Task_Decomposer.thy ===== *)
theory Task_Decomposer
  imports Master_Queue
begin

text \<open>
  The decomposition of an assigned task into commands for the vehicle (\<open>TaskDecomposer\<close> in
  \<open>src/src/module_task_management/task_decomposer.{h,cpp}\<close>), with the vehicle state it reads
  (\<open>src/src/data_auctioneer/state/vehicle_state.{h,cpp}\<close>).

  The geodesy (\<open>PositionalAid\<close> and the distances and bearings of positions) and the addition of
  milliseconds to a time, which is Qt's, are the functions of an argument of type \<open>geometry\<close>; nothing
  is assumed of them. The functions a command list carries read the fields of their own list that change
  later and the global origin: these are the \<open>Context\<close> they are given when they are called.
\<close>

section \<open>Positions and the vehicle state\<close>

record GlobalPosition =
  latitude :: dbl
  longitude :: dbl
  altitude :: dbl

record LocalPosition =
  position_x :: dbl
  position_y :: dbl
  position_z :: dbl

record StateAttitude =
  roll :: dbl
  pitch :: dbl
  yaw :: dbl

record Battery =
  battery_voltage :: dbl
  battery_current :: dbl
  battery_remaining :: dbl

record VehicleState =
  vs_position :: LocalPosition
  vs_velocity :: LocalPosition
  vs_attitude :: StateAttitude
  vs_battery :: Battery
  vs_systemArm :: bool
  vs_timestamp :: etime
  positionValid :: bool
  velocityValid :: bool
  attitudeValid :: bool
  batteryValid :: bool
  systemArmValid :: bool
  timestampValid :: bool

definition VehicleState_new :: VehicleState where
  "VehicleState_new = \<lparr>vs_position = \<lparr>position_x = Fin 0, position_y = Fin 0, position_z = Fin 0\<rparr>,
     vs_velocity = \<lparr>position_x = Fin 0, position_y = Fin 0, position_z = Fin 0\<rparr>,
     vs_attitude = \<lparr>roll = Fin 0, pitch = Fin 0, yaw = Fin 0\<rparr>, vs_battery = \<lparr>battery_voltage = Fin 0, battery_current = Fin 0, battery_remaining = Fin 0\<rparr>,
     vs_systemArm = False, vs_timestamp = etime_zero, positionValid = False, velocityValid = False, attitudeValid = False,
     batteryValid = False, systemArmValid = False, timestampValid = False\<rparr>"

definition setPosition :: "LocalPosition \<Rightarrow> VehicleState \<Rightarrow> VehicleState" where
  "setPosition p vs = vs\<lparr>vs_position := p, positionValid := True\<rparr>"

text \<open>\<open>setVelocity\<close> does not set the flag.\<close>

definition setVelocity :: "LocalPosition \<Rightarrow> VehicleState \<Rightarrow> VehicleState" where
  "setVelocity v vs = vs\<lparr>vs_velocity := v\<rparr>"

definition setAttitude :: "StateAttitude \<Rightarrow> VehicleState \<Rightarrow> VehicleState" where
  "setAttitude a vs = vs\<lparr>vs_attitude := a, attitudeValid := True\<rparr>"

definition setBattery :: "Battery \<Rightarrow> VehicleState \<Rightarrow> VehicleState" where
  "setBattery b vs = vs\<lparr>vs_battery := b, batteryValid := True\<rparr>"

definition setSystemArm :: "bool \<Rightarrow> VehicleState \<Rightarrow> VehicleState" where
  "setSystemArm a vs = vs\<lparr>vs_systemArm := a, systemArmValid := True\<rparr>"

definition setTimestamp :: "etime \<Rightarrow> VehicleState \<Rightarrow> VehicleState" where
  "setTimestamp t vs = vs\<lparr>vs_timestamp := t, timestampValid := True\<rparr>"

record geometry =
  toLocal :: "GlobalPosition \<Rightarrow> GlobalPosition \<Rightarrow> LocalPosition"
  toGlobal :: "GlobalPosition \<Rightarrow> LocalPosition \<Rightarrow> GlobalPosition"
  distance2D :: "GlobalPosition \<Rightarrow> GlobalPosition \<Rightarrow> dbl"
  distance3D :: "GlobalPosition \<Rightarrow> GlobalPosition \<Rightarrow> dbl"
  local_distance3D :: "LocalPosition \<Rightarrow> LocalPosition \<Rightarrow> dbl"
  bearingBetween :: "LocalPosition \<Rightarrow> LocalPosition \<Rightarrow> dbl"
  plus_ms :: "etime \<Rightarrow> dbl \<Rightarrow> etime"

section \<open>Tasks and commands\<close>

datatype TaskPosition =
    Cartesian_3D dbl dbl dbl
  | Cartesian_2D dbl dbl
  | Geodetic_3D dbl dbl dbl   \<comment> \<open>latitude, longitude, altitude\<close>
  | Geodetic_2D dbl dbl
  | Other_State

text \<open>
  The part of a task that its own class adds. A survey has a boundary in Cartesian or in geodetic
  coordinates, which is also its coordinate type.
\<close>

datatype TaskPayload =
    Loiter_Task TaskPosition dbl
  | Survey_2DC "(dbl \<times> dbl) list"
  | Survey_2DG "(dbl \<times> dbl) list"

record Task =
  task_descriptor :: TaskDescriptor
  task_payload :: TaskPayload

definition task_key :: "Task \<Rightarrow> TaskKey" where
  "task_key t = getTaskKey (task_descriptor t)"

datatype Command =
    GoTo_Waypoint GlobalPosition
  | GoTo_Loiter GlobalPosition dbl LoiterDirection dbl   \<comment> \<open>duration, direction, radius\<close>
  | Spatial_RTL

text \<open>
  What the functions given with a command read when they are called: the origin (a loiter asks for it again, the
  others have captured it), the index and the time of the last command of their list, and the distance that the
  decomposer requires.
\<close>

record Context =
  ctx_origin :: GlobalPosition
  ctx_index :: int
  ctx_lastIssued :: etime
  ctx_required :: dbl

record CommandData =
  command :: Command
  expectedDuration :: dbl
  commandDone :: "Context \<Rightarrow> VehicleState \<Rightarrow> bool"

record CommandList =
  commands :: "CommandData list"
  commandIndex :: int
  expectedTransitionTime :: "dbl option"   \<comment> \<open>not written for a loiter task\<close>
  listDuration :: dbl
  lastCommandIssued :: etime
  abortLambda :: "(Context \<Rightarrow> VehicleState \<Rightarrow> cpp_error + bool) option"

section \<open>The decomposer\<close>

text \<open>The cache of the start of a task; the classes derived from it add the last field.\<close>

datatype CacheDetail =
    Loiter_Cache LoiterDirection
  | Survey_Cache "GlobalPosition list" int

record TaskDataCache =
  cache_key :: TaskKey
  startPosition :: GlobalPosition
  startIs2D :: bool
  cache_transitionTime :: dbl
  cache_detail :: CacheDetail

record TaskDecomposer =
  minTurnRadius :: dbl
  nominalSpeed :: dbl
  nominalAcceleration :: dbl
  nominalClimbRate :: dbl
  canFly :: bool
  defaultAltitude :: dbl
  canBeStationary :: bool
  requiredDistanceToTarget :: dbl
  takeoffAltitude :: dbl
  taskDataCache :: "TaskDataCache option"

definition TaskDecomposer_new :: TaskDecomposer where
  "TaskDecomposer_new = \<lparr>minTurnRadius = Fin 0, nominalSpeed = Fin 5, nominalAcceleration = Fin 2,
     nominalClimbRate = Fin 2, canFly = True, defaultAltitude = Fin 10, canBeStationary = True,
     requiredDistanceToTarget = Fin 2, takeoffAltitude = Fin 2, taskDataCache = None\<rparr>"

definition setRequiredDistanceToTarget :: "dbl \<Rightarrow> TaskDecomposer \<Rightarrow> TaskDecomposer" where
  "setRequiredDistanceToTarget d td = td\<lparr>requiredDistanceToTarget := dbl_max d (Fin 2)\<rparr>"

definition setMinTurnRadius :: "dbl \<Rightarrow> TaskDecomposer \<Rightarrow> TaskDecomposer" where
  "setMinTurnRadius x td = td\<lparr>minTurnRadius := x\<rparr>"

definition setNominalSpeed :: "dbl \<Rightarrow> TaskDecomposer \<Rightarrow> TaskDecomposer" where
  "setNominalSpeed x td = td\<lparr>nominalSpeed := x\<rparr>"

definition setNominalAcceleration :: "dbl \<Rightarrow> TaskDecomposer \<Rightarrow> TaskDecomposer" where
  "setNominalAcceleration x td = td\<lparr>nominalAcceleration := x\<rparr>"

definition setNominalClimbRate :: "dbl \<Rightarrow> TaskDecomposer \<Rightarrow> TaskDecomposer" where
  "setNominalClimbRate x td = td\<lparr>nominalClimbRate := x\<rparr>"

definition setCanFly :: "bool \<Rightarrow> TaskDecomposer \<Rightarrow> TaskDecomposer" where
  "setCanFly x td = td\<lparr>canFly := x\<rparr>"

definition setDefaultAltitude :: "dbl \<Rightarrow> TaskDecomposer \<Rightarrow> TaskDecomposer" where
  "setDefaultAltitude x td = td\<lparr>defaultAltitude := x\<rparr>"

definition setCanBeStationary :: "bool \<Rightarrow> TaskDecomposer \<Rightarrow> TaskDecomposer" where
  "setCanBeStationary x td = td\<lparr>canBeStationary := x\<rparr>"

definition setTakeoffAltitude :: "dbl \<Rightarrow> TaskDecomposer \<Rightarrow> TaskDecomposer" where
  "setTakeoffAltitude x td = td\<lparr>takeoffAltitude := x\<rparr>"

lemmas decomposer_setters = setRequiredDistanceToTarget_def setMinTurnRadius_def setNominalSpeed_def
  setNominalAcceleration_def setNominalClimbRate_def setCanFly_def setDefaultAltitude_def
  setCanBeStationary_def setTakeoffAltitude_def

text \<open>Whether the position is two dimensional, and the position on the globe.\<close>

definition ConvertTaskPositionToGlobalPosition ::
  "geometry \<Rightarrow> TaskDecomposer \<Rightarrow> GlobalPosition \<Rightarrow> TaskPosition \<Rightarrow> cpp_error + (bool \<times> GlobalPosition)" where
  "ConvertTaskPositionToGlobalPosition G td origin p = (case p of
     Cartesian_3D x y z \<Rightarrow>
       Inr (False, toGlobal G origin \<lparr>position_x = x, position_y = y, position_z = z\<rparr>)
   | Cartesian_2D x y \<Rightarrow>
       Inr (True, toGlobal G origin \<lparr>position_x = x, position_y = y, position_z = defaultAltitude td\<rparr>)
   | Geodetic_3D lat lon alt \<Rightarrow> Inr (False, \<lparr>latitude = lat, longitude = lon, altitude = alt\<rparr>)
   | Geodetic_2D lat lon \<Rightarrow> Inr (True, \<lparr>latitude = lat, longitude = lon, altitude = defaultAltitude td\<rparr>)
   | Other_State \<Rightarrow> Inl (Runtime_Error ''Unsupported coordinate system''))"

text \<open>The travel time and the state at the end.\<close>

definition EstimateTravelTime ::
  "geometry \<Rightarrow> TaskDecomposer \<Rightarrow> LocalPosition \<Rightarrow> VehicleState \<Rightarrow> VehicleState \<Rightarrow> VehicleState \<times> dbl" where
  "EstimateTravelTime G td dst startState endState =
     (let distance = local_distance3D G dst (vs_position startState);
          bearing = bearingBetween G (vs_position startState) dst;
          distance = (if attitudeValid startState
            then let delta = dbl_fmod (dbl_sub (dbl_add (Fin 360) bearing) (yaw (vs_attitude startState)))
                               (Fin 360);
                     delta = (if dbl_lt (Fin 180) delta then dbl_sub delta (Fin 180) else delta)
                 in dbl_add distance (dbl_div (dbl_mul (minTurnRadius td) delta) (Fin (2 * pi)))
            else distance);
          endState = setPosition dst endState;
          endState = setAttitude \<lparr>roll = Fin 0, pitch = Fin 0, yaw = bearing\<rparr> endState
      in (endState, dbl_div distance (nominalSpeed td)))"

text \<open>The waypoint of a position: an altitude below 0.5 is replaced by the default altitude.\<close>

definition waypoint :: "TaskDecomposer \<Rightarrow> GlobalPosition \<Rightarrow> Command" where
  "waypoint td p =
     GoTo_Waypoint (if dbl_lt (altitude p) (Fin 0.5) then p\<lparr>altitude := defaultAltitude td\<rparr> else p)"

definition loiter_direction ::
  "geometry \<Rightarrow> TaskDecomposer \<Rightarrow> GlobalPosition \<Rightarrow> GlobalPosition \<Rightarrow> VehicleState \<Rightarrow> LoiterDirection" where
  "loiter_direction G td origin start vs =
     (if canBeStationary td
      then (if positionValid vs \<and> attitudeValid vs
            then let bearing = bearingBetween G (vs_position vs) (toLocal G origin start);
                     delta = dbl_fmod (dbl_sub (dbl_add (Fin 360) bearing) (yaw (vs_attitude vs))) (Fin 360)
                 in if dbl_lt (Fin 180) delta then CCW else CW
            else CW)
      else CW)"

definition GetTransitionCommand_Loiter ::
  "geometry \<Rightarrow> GlobalPosition \<Rightarrow> VehicleState \<Rightarrow> Task \<Rightarrow> TaskDecomposer \<Rightarrow> (TaskDecomposer, CommandData) outcome" where
  "GetTransitionCommand_Loiter G origin vs task td = (case task_payload task of
     Loiter_Task p _ \<Rightarrow>
       (case ConvertTaskPositionToGlobalPosition G td origin p of
          Inl e \<Rightarrow> (td, Inl e)
        | Inr (is2D, start) \<Rightarrow>
            let start = (if is2D then start\<lparr>altitude := defaultAltitude td\<rparr> else start);
                direction = loiter_direction G td origin start vs;
                required = (if canBeStationary td
                  then dbl_max (minTurnRadius td) (requiredDistanceToTarget td)
                  else requiredDistanceToTarget td);
                duration = snd (EstimateTravelTime G td (toLocal G origin start) vs VehicleState_new)
            in (td\<lparr>taskDataCache := Some \<lparr>cache_key = task_key task, startPosition = start,
                  startIs2D = is2D, cache_transitionTime = duration,
                  cache_detail = Loiter_Cache direction\<rparr>\<rparr>,
                Inr \<lparr>command = waypoint td start, expectedDuration = duration,
                     commandDone = (\<lambda>ctx s. dbl_lt
                       (distance3D G (toGlobal G (ctx_origin ctx) (vs_position s)) start) required)\<rparr>))
   | _ \<Rightarrow> (td, Inl Undefined_Behaviour))"

text \<open>
  The loop over the boundary of a survey for the vertex that is closest to the vehicle; all vertices are
  two dimensional.
\<close>

fun closest_vertex :: "geometry \<Rightarrow> GlobalPosition \<Rightarrow> int \<Rightarrow> GlobalPosition list \<Rightarrow> dbl \<Rightarrow> int \<Rightarrow> int" where
  "closest_vertex G vehicle index [] closest startIndex = startIndex"
| "closest_vertex G vehicle index (p # ps) closest startIndex =
     (if dbl_lt (distance2D G vehicle p) closest
      then closest_vertex G vehicle (index + 1) ps (distance2D G vehicle p) index
      else closest_vertex G vehicle (index + 1) ps closest startIndex)"

definition survey_vertices :: "geometry \<Rightarrow> TaskDecomposer \<Rightarrow> GlobalPosition \<Rightarrow> TaskPayload \<Rightarrow> GlobalPosition list option" where
  "survey_vertices G td origin payload = (case payload of
     Survey_2DC vs \<Rightarrow> Some (map (\<lambda>(x, y). toGlobal G origin
       \<lparr>position_x = x, position_y = y, position_z = defaultAltitude td\<rparr>) vs)
   | Survey_2DG vs \<Rightarrow> Some (map (\<lambda>(lat, lon).
       \<lparr>latitude = lat, longitude = lon, altitude = defaultAltitude td\<rparr>) vs)
   | _ \<Rightarrow> None)"

definition GlobalPosition_new :: GlobalPosition where
  "GlobalPosition_new = \<lparr>latitude = Fin 0, longitude = Fin 0, altitude = Fin 0\<rparr>"

definition GetTransitionCommand_Survey ::
  "geometry \<Rightarrow> GlobalPosition \<Rightarrow> VehicleState \<Rightarrow> Task \<Rightarrow> TaskDecomposer \<Rightarrow> (TaskDecomposer, CommandData) outcome" where
  "GetTransitionCommand_Survey G origin vs task td =
     (case survey_vertices G td origin (task_payload task) of
        None \<Rightarrow> (td, Inl Undefined_Behaviour)
      | Some boundary \<Rightarrow>
          let vehicle = toGlobal G origin (vs_position vs);
              startIndex = closest_vertex G vehicle 0 boundary max_double 0;
              start = (if boundary = [] then GlobalPosition_new else boundary ! nat startIndex);
              start = start\<lparr>altitude := position_z (vs_position vs)\<rparr>;
              duration = snd (EstimateTravelTime G td (toLocal G origin start) vs VehicleState_new)
          in (td\<lparr>taskDataCache := Some \<lparr>cache_key = task_key task, startPosition = start,
                startIs2D = True, cache_transitionTime = duration,
                cache_detail = Survey_Cache boundary startIndex\<rparr>\<rparr>,
              Inr \<lparr>command = waypoint td start, expectedDuration = duration,
                   commandDone = (\<lambda>ctx s. dbl_lt
                     (distance3D G (toGlobal G origin (vs_position s)) start)
                     (ctx_required ctx))\<rparr>))"

definition GetTransitionCommand ::
  "geometry \<Rightarrow> GlobalPosition \<Rightarrow> VehicleState \<Rightarrow> Task \<Rightarrow> TaskDecomposer \<Rightarrow> (TaskDecomposer, CommandData) outcome" where
  "GetTransitionCommand G origin vs task td = (case td_type (task_descriptor task) of
     LOITER \<Rightarrow> GetTransitionCommand_Loiter G origin vs task td
   | SURVEY \<Rightarrow> GetTransitionCommand_Survey G origin vs task td
   | UNKNOWN_TYPE \<Rightarrow> (td, Inl (Runtime_Error ''Unsupported task type'')))"

section \<open>Decomposition\<close>

definition Decompose_Loiter ::
  "geometry \<Rightarrow> VehicleState \<Rightarrow> Task \<Rightarrow> TaskDecomposer \<Rightarrow> cpp_error + CommandList" where
  "Decompose_Loiter G vs task td = (case (taskDataCache td, task_payload task) of
     (Some cache, Loiter_Task _ duration) \<Rightarrow>
       (case cache_detail cache of
          Loiter_Cache direction \<Rightarrow>
            let data = \<lparr>command = GoTo_Loiter (startPosition cache) duration direction (minTurnRadius td),
                  expectedDuration = duration,
                  commandDone = (\<lambda>ctx s. time_lt (plus_ms G (ctx_lastIssued ctx) (dbl_mul duration (Fin 1000)))
                                            (vs_timestamp s))\<rparr>;
                requiredTransitionDone = plus_ms G (vs_timestamp vs)
                  (dbl_mul (dbl_mul (cache_transitionTime cache) (Fin 1000)) (Fin 2))
            in Inr \<lparr>commands = [data], commandIndex = -1, expectedTransitionTime = None,
                 listDuration = duration, lastCommandIssued = etime_zero,
                 abortLambda = Some (\<lambda>ctx s.
                   Inr (ctx_index ctx < 0 \<and> time_lt requiredTransitionDone (vs_timestamp s)))\<rparr>
        | _ \<Rightarrow> Inl Undefined_Behaviour)
   | _ \<Rightarrow> Inl Undefined_Behaviour)"

definition survey_command ::
  "geometry \<Rightarrow> GlobalPosition \<Rightarrow> TaskDecomposer \<Rightarrow> GlobalPosition \<Rightarrow> dbl \<Rightarrow> CommandData" where
  "survey_command G origin td p duration = \<lparr>command = waypoint td p, expectedDuration = duration,
     commandDone = (\<lambda>ctx s. dbl_lt (distance3D G p (toGlobal G origin (vs_position s)))
                              (ctx_required ctx))\<rparr>"

text \<open>
  The loop over the vertices of a survey; \<open>None\<close> if it never ended (\<open>survey_order_total\<close> shows that it
  does).
\<close>

partial_function (option) survey_order ::
  "geometry \<Rightarrow> GlobalPosition \<Rightarrow> TaskDecomposer \<Rightarrow> GlobalPosition list \<Rightarrow> int \<Rightarrow> int \<Rightarrow> VehicleState
     \<Rightarrow> CommandData list \<Rightarrow> dbl \<Rightarrow> (CommandData list \<times> dbl) option" where
  "survey_order G origin td boundary startIndex index current cmds estimate =
     (if index = startIndex then Some (cmds, estimate)
      else let p = boundary ! nat index;
               r = EstimateTravelTime G td (toLocal G origin p) current VehicleState_new
           in survey_order G origin td boundary startIndex ((index + 1) mod int (length boundary)) (fst r)
                (cmds @ [survey_command G origin td p (snd r)]) (dbl_add estimate (snd r)))"

definition survey_abort ::
  "geometry \<Rightarrow> dbl \<Rightarrow> CommandData list \<Rightarrow> Context \<Rightarrow> VehicleState \<Rightarrow> cpp_error + bool" where
  "survey_abort G transitionTime cmds ctx s =
     (if ctx_index ctx < 0
      then Inr (time_lt (plus_ms G (ctx_lastIssued ctx)
             (dbl_mul (dbl_mul transitionTime (Fin 1000)) (Fin 1.5))) (vs_timestamp s))
      else if nat (ctx_index ctx) < length cmds
      then Inr (time_lt (plus_ms G (ctx_lastIssued ctx)
             (dbl_mul (dbl_mul (expectedDuration (cmds ! nat (ctx_index ctx))) (Fin 1000)) (Fin 1.5)))
             (vs_timestamp s))
      else Inl Out_Of_Range)"

definition Decompose_Survey ::
  "geometry \<Rightarrow> GlobalPosition \<Rightarrow> VehicleState \<Rightarrow> TaskDecomposer \<Rightarrow> (cpp_error + CommandList) option" where
  "Decompose_Survey G origin vs td = (case taskDataCache td of
     None \<Rightarrow> Some (Inl Undefined_Behaviour)
   | Some cache \<Rightarrow>
       (case cache_detail cache of
          Survey_Cache boundary startIndex \<Rightarrow>
            if boundary = [] then Some (Inl Undefined_Behaviour)
            else (case survey_order G origin td boundary startIndex
                         ((startIndex + 1) mod int (length boundary)) vs [] (Fin 0) of
                    None \<Rightarrow> None
                  | Some (cmds, estimate) \<Rightarrow>
                      Some (Inr \<lparr>commands = cmds, commandIndex = -1,
                        expectedTransitionTime = Some (cache_transitionTime cache), listDuration = estimate,
                        lastCommandIssued = etime_zero,
                        abortLambda = Some (survey_abort G (cache_transitionTime cache) cmds)\<rparr>))
        | _ \<Rightarrow> Some (Inl Undefined_Behaviour)))"

definition refresh_cache ::
  "geometry \<Rightarrow> GlobalPosition \<Rightarrow> VehicleState \<Rightarrow> Task \<Rightarrow> TaskDecomposer \<Rightarrow> (TaskDecomposer, unit) outcome" where
  "refresh_cache G origin vs task td =
     (if (case taskDataCache td of None \<Rightarrow> True | Some cache \<Rightarrow> \<not> taskkey_eq (cache_key cache) (task_key task))
      then obind (GetTransitionCommand G origin vs task td) (\<lambda>td cmd. (td, Inr ()))
      else (td, Inr ()))"

definition Decompose ::
  "geometry \<Rightarrow> GlobalPosition \<Rightarrow> VehicleState \<Rightarrow> Task \<Rightarrow> TaskDecomposer
     \<Rightarrow> (TaskDecomposer, CommandList option) outcome option" where
  "Decompose G origin vs task td = (case refresh_cache G origin vs task td of
     (td, Inl e) \<Rightarrow> Some (td, Inl e)
   | (td, Inr u) \<Rightarrow>
       (case td_type (task_descriptor task) of
          LOITER \<Rightarrow> Some (td, map_sum id Some (Decompose_Loiter G vs task td))
        | SURVEY \<Rightarrow> map_option (\<lambda>r. (td, map_sum id Some r)) (Decompose_Survey G origin vs td)
        | UNKNOWN_TYPE \<Rightarrow> Some (td, Inr None)))"

section \<open>The order of a survey\<close>

lemma closest_vertex_range:
  "0 \<le> s \<Longrightarrow> s < index + int (length ps) \<Longrightarrow> 0 \<le> index \<Longrightarrow>
     0 \<le> closest_vertex G v index ps d s \<and> closest_vertex G v index ps d s < index + int (length ps)"
  by (induction G v index ps d s rule: closest_vertex.induct) (auto simp: add.assoc)

text \<open>
  The vertices between the current index and the start, going round: the loop visits them in this order.
\<close>

definition vertices_to :: "nat \<Rightarrow> nat \<Rightarrow> 'a list \<Rightarrow> 'a list" where
  "vertices_to start i xs = (if i \<le> start then take (start - i) (drop i xs) else drop i xs @ take start xs)"

lemma vertices_to_step:
  assumes "i < length xs" "start < length xs" "i \<noteq> start"
  shows "vertices_to start i xs = xs ! i # vertices_to start ((i + 1) mod length xs) xs"
proof (cases "Suc i = length xs")
  case True
  then have "drop i xs = [xs ! i]" using assms(1) by (simp add: Cons_nth_drop_Suc [symmetric])
  then show ?thesis using assms True by (auto simp: vertices_to_def)
next
  case False
  have "drop i xs = xs ! i # drop (Suc i) xs" using assms(1) by (simp add: Cons_nth_drop_Suc)
  moreover have "i < start \<Longrightarrow> start - i = Suc (start - Suc i)" by simp
  ultimately show ?thesis using assms False by (auto simp: vertices_to_def)
qed

lemma vertices_to_rotate:
  assumes "start < length xs"
  shows "vertices_to start ((start + 1) mod length xs) xs = tl (rotate start xs)"
proof -
  have r: "rotate start xs = drop start xs @ take start xs"
    using assms by (simp add: rotate_drop_take)
  then have *: "tl (rotate start xs) = drop (Suc start) xs @ take start xs"
    using assms by (simp add: tl_append drop_Suc tl_drop)
      (metis Cons_nth_drop_Suc list.sel(3) drop_Suc tl_drop list.simps(5))
  show ?thesis
  proof (cases "Suc start = length xs")
    case True
    then show ?thesis using * by (auto simp: vertices_to_def)
  next
    case False
    then show ?thesis using * assms by (simp add: vertices_to_def)
  qed
qed

lemma vertices_to_self [simp]: "vertices_to i i xs = []"
  by (simp add: vertices_to_def)

lemma vertices_to_Suc_less: "i \<noteq> start \<Longrightarrow> i < length xs \<Longrightarrow> start < length xs \<Longrightarrow>
   length (vertices_to start ((i + 1) mod length xs) xs) < length (vertices_to start i xs)"
  using vertices_to_step by fastforce

lemma survey_order_done [simp]: "survey_order G origin td b i i vs cmds e = Some (cmds, e)"
  by (simp add: survey_order.simps)

lemma survey_order_visits:
  assumes "start < length b" "i < length b"
  shows "\<exists>cmds' e'. survey_order G origin td b (int start) (int i) vs cmds e = Some (cmds @ cmds', e')
     \<and> map command cmds' = map (waypoint td) (vertices_to start i b)
     \<and> (\<forall>c \<in> set cmds'. \<exists>p d. c = survey_command G origin td p d)"
  using assms
proof (induction "length (vertices_to start i b)" arbitrary: i vs cmds e rule: less_induct)
  case less
  show ?case
  proof (cases "i = start")
    case True
    then show ?thesis by simp
  next
    case False
    let ?r = "EstimateTravelTime G td (toLocal G origin (b ! i)) vs VehicleState_new"
    let ?c = "survey_command G origin td (b ! i) (snd ?r)"
    have lt: "(i + 1) mod length b < length b"
      using less.prems by (intro mod_less_divisor) linarith
    have next_eq: "(int i + 1) mod int (length b) = int ((i + 1) mod length b)"
      by (metis of_nat_1 of_nat_add zmod_int)
    have "survey_order G origin td b (int start) (int i) vs cmds e
        = survey_order G origin td b (int start) (int ((i + 1) mod length b)) (fst ?r) (cmds @ [?c])
            (dbl_add e (snd ?r))"
      using False by (subst survey_order.simps) (simp add: Let_def next_eq)
    moreover obtain cmds' e' where
      "survey_order G origin td b (int start) (int ((i + 1) mod length b)) (fst ?r) (cmds @ [?c])
         (dbl_add e (snd ?r)) = Some ((cmds @ [?c]) @ cmds', e')"
      "map command cmds' = map (waypoint td) (vertices_to start ((i + 1) mod length b) b)"
      "\<forall>c \<in> set cmds'. \<exists>p d. c = survey_command G origin td p d"
      using less.hyps [OF vertices_to_Suc_less [OF False less.prems(2,1)] less.prems(1) lt] by blast
    moreover have "command ?c = waypoint td (b ! i)" by (simp add: survey_command_def)
    ultimately show ?thesis
      using vertices_to_step [OF less.prems(2,1) False] by (intro exI [of _ "?c # cmds'"]) auto
  qed
qed

lemma survey_order_total:
  assumes "start < length b"
  shows "\<exists>cmds e. survey_order G origin td b (int start) ((int start + 1) mod int (length b)) vs [] (Fin 0)
       = Some (cmds, e)
     \<and> map command cmds = map (waypoint td) (tl (rotate start b))
     \<and> (\<forall>c \<in> set cmds. \<exists>p d. c = survey_command G origin td p d)"
proof -
  have "(start + 1) mod length b < length b" using assms by (intro mod_less_divisor) linarith
  moreover have "(int start + 1) mod int (length b) = int ((start + 1) mod length b)"
    by (metis of_nat_1 of_nat_add zmod_int)
  ultimately show ?thesis
    using survey_order_visits [OF assms, of "(start + 1) mod length b" G origin td vs "[]" "Fin 0"]
      vertices_to_rotate [OF assms] by auto
qed

lemma closest_vertex_min:
  "(let r = closest_vertex G v index ps d s
    in (r = s \<and> (\<forall>p \<in> set ps. \<not> dbl_lt (distance2D G v p) d))
     \<or> (\<exists>j < length ps. r = index + int j \<and> dbl_lt (distance2D G v (ps ! j)) d
          \<and> (\<forall>p \<in> set ps. \<not> dbl_lt (distance2D G v p) (distance2D G v (ps ! j)))))"
proof (induction G v index ps d s rule: closest_vertex.induct)
  case (2 G v index p ps d s)
  show ?case
  proof (cases "dbl_lt (distance2D G v p) d")
    case True
    consider "closest_vertex G v (index + 1) ps (distance2D G v p) index = index"
        "\<forall>q \<in> set ps. \<not> dbl_lt (distance2D G v q) (distance2D G v p)"
      | j where "j < length ps" "closest_vertex G v (index + 1) ps (distance2D G v p) index = index + 1 + int j"
        "dbl_lt (distance2D G v (ps ! j)) (distance2D G v p)"
        "\<forall>q \<in> set ps. \<not> dbl_lt (distance2D G v q) (distance2D G v (ps ! j))"
      using 2(1) [OF True] by (auto simp: Let_def)
    then show ?thesis
    proof cases
      case 1
      then show ?thesis using True by (auto simp: Let_def intro!: exI [of _ 0])
    next
      case 2
      then show ?thesis
        using True dbl_lt_trans [OF 2(3) True] dbl_lt_asym [OF 2(3)]
        by (auto simp: Let_def intro!: exI [of _ "Suc j"])
    qed
  next
    case False
    consider "closest_vertex G v (index + 1) ps d s = s" "\<forall>q \<in> set ps. \<not> dbl_lt (distance2D G v q) d"
      | j where "j < length ps" "closest_vertex G v (index + 1) ps d s = index + 1 + int j"
        "dbl_lt (distance2D G v (ps ! j)) d"
        "\<forall>q \<in> set ps. \<not> dbl_lt (distance2D G v q) (distance2D G v (ps ! j))"
      using 2(2) [OF False] by (auto simp: Let_def)
    then show ?thesis
    proof cases
      case 1
      then show ?thesis using False by (auto simp: Let_def)
    next
      case (2 j)
      have "\<not> dbl_lt (distance2D G v p) (distance2D G v (ps ! j))"
        using dbl_lt_trans [OF _ 2(3)] False by blast
      then show ?thesis
        using 2 False by (auto simp: Let_def intro!: exI [of _ "Suc j"])
    qed
  qed
qed simp

section \<open>Properties\<close>

text \<open>
  C22: A survey is flown completely: the transition goes to the vertex closest to the vehicle, and the
  decomposition ends and gives a command for every other vertex, each once, in the order of the boundary
  from there on. No vertex with a distance is closer than the start.
\<close>

theorem survey_visits_every_vertex:
  assumes "td_type (task_descriptor task) = SURVEY"
    and "survey_vertices G td origin (task_payload task) = Some b" and "b \<noteq> []"
    and "GetTransitionCommand G origin vs task td = (td', res)"
  shows "\<exists>s cmd cl. s < length b \<and> res = Inr cmd
     \<and> command cmd = waypoint td ((b ! s)\<lparr>altitude := position_z (vs_position vs)\<rparr>)
     \<and> ((\<exists>p \<in> set b. dbl_lt (distance2D G (toGlobal G origin (vs_position vs)) p) max_double) \<longrightarrow>
          (\<forall>p \<in> set b. \<not> dbl_lt (distance2D G (toGlobal G origin (vs_position vs)) p)
                              (distance2D G (toGlobal G origin (vs_position vs)) (b ! s))))
     \<and> Decompose G origin vs' task td' = Some (td', Inr (Some cl))
     \<and> map command (commands cl) = map (waypoint td) (tl (rotate s b)) \<and> commandIndex cl = -1"
proof -
  let ?v = "toGlobal G origin (vs_position vs)"
  define r where "r = closest_vertex G ?v 0 b max_double 0"
  have "0 \<le> r \<and> r < int (length b)"
    using closest_vertex_range [of 0 0 b G ?v max_double] assms(3) by (simp add: r_def)
  then obtain s where s: "r = int s" "s < length b" by (metis nonneg_int_cases of_nat_less_iff)
  have near: "(\<exists>p \<in> set b. dbl_lt (distance2D G ?v p) max_double) \<longrightarrow>
      (\<forall>p \<in> set b. \<not> dbl_lt (distance2D G ?v p) (distance2D G ?v (b ! s)))"
    using closest_vertex_min [of G ?v 0 b max_double 0] s unfolding Let_def r_def [symmetric] by auto
  obtain c where c: "taskDataCache td' = Some c" "cache_key c = task_key task"
      "cache_detail c = Survey_Cache b r"
    and td': "minTurnRadius td' = minTurnRadius td" "nominalSpeed td' = nominalSpeed td"
      "defaultAltitude td' = defaultAltitude td"
    and cmd: "\<exists>cmd. res = Inr cmd
      \<and> command cmd = waypoint td ((b ! s)\<lparr>altitude := position_z (vs_position vs)\<rparr>)"
    using assms s by (auto simp: GetTransitionCommand_def GetTransitionCommand_Survey_def Let_def
        r_def [symmetric])
  have way: "waypoint td' = waypoint td" using td' by (simp add: waypoint_def fun_eq_iff)
  obtain cmds e where "survey_order G origin td' b (int s) ((int s + 1) mod int (length b)) vs' [] (Fin 0)
       = Some (cmds, e)" "map command cmds = map (waypoint td') (tl (rotate s b))"
    using survey_order_total [OF s(2)] by blast
  then have "\<exists>cl. Decompose G origin vs' task td' = Some (td', Inr (Some cl))
     \<and> map command (commands cl) = map (waypoint td) (tl (rotate s b)) \<and> commandIndex cl = -1"
    using c assms(1,3) s(1) way
    by (simp add: Decompose_def refresh_cache_def taskkey_eq_def Decompose_Survey_def)
  then show ?thesis using s(2) near cmd by blast
qed

text \<open>A flat world: distances are sums of coordinate differences, times do not move.\<close>

definition flat :: geometry where
  "flat = \<lparr>toLocal = (\<lambda>origin p. \<lparr>position_x = latitude p, position_y = longitude p, position_z = altitude p\<rparr>),
     toGlobal = (\<lambda>origin p. \<lparr>latitude = position_x p, longitude = position_y p, altitude = position_z p\<rparr>),
     distance2D = (\<lambda>p q. dbl_add (dbl_abs (dbl_sub (latitude p) (latitude q)))
                                 (dbl_abs (dbl_sub (longitude p) (longitude q)))),
     distance3D = (\<lambda>p q. dbl_add (dbl_abs (dbl_sub (latitude p) (latitude q)))
                                 (dbl_abs (dbl_sub (longitude p) (longitude q)))),
     local_distance3D = (\<lambda>p q. dbl_abs (dbl_sub (position_x p) (position_x q))),
     bearingBetween = (\<lambda>p q. Fin 0), plus_ms = (\<lambda>t d. t)\<rparr>"

definition ex_survey :: "(dbl \<times> dbl) list \<Rightarrow> Task" where
  "ex_survey vs = \<lparr>task_descriptor = \<lparr>td_creatorID = 1, td_taskID = 1, td_type = SURVEY,
      timeCreated = etime_zero, timePenalty = Fin 0, requiredStart = etime_zero, requiredEnd = etime_zero\<rparr>,
     task_payload = Survey_2DG vs\<rparr>"

theorem survey_visits_every_vertex_witness:
  "\<exists>td' cmd cl. GetTransitionCommand flat GlobalPosition_new VehicleState_new
       (ex_survey [(Fin 5, Fin 0), (Fin 1, Fin 0), (Fin 3, Fin 0)]) TaskDecomposer_new = (td', Inr cmd)
     \<and> Decompose flat GlobalPosition_new VehicleState_new
         (ex_survey [(Fin 5, Fin 0), (Fin 1, Fin 0), (Fin 3, Fin 0)]) td' = Some (td', Inr (Some cl))
     \<and> length (commands cl) = 2"
proof -
  let ?t = "ex_survey [(Fin 5, Fin 0), (Fin 1, Fin 0), (Fin 3, Fin 0)]"
  let ?b = "map (\<lambda>(lat, lon). \<lparr>latitude = lat, longitude = lon, altitude = Fin 10\<rparr>)
    [(Fin 5, Fin 0), (Fin 1, Fin 0), (Fin 3, Fin 0)]"
  obtain td' res where g: "GetTransitionCommand flat GlobalPosition_new VehicleState_new ?t
      TaskDecomposer_new = (td', res)" by (metis surj_pair)
  have "td_type (task_descriptor ?t) = SURVEY"
    "survey_vertices flat TaskDecomposer_new GlobalPosition_new (task_payload ?t) = Some ?b" "?b \<noteq> []"
    by (simp_all add: ex_survey_def survey_vertices_def TaskDecomposer_new_def)
  from survey_visits_every_vertex [OF this g, of VehicleState_new]
  obtain s cmd cl where "res = Inr cmd"
    "Decompose flat GlobalPosition_new VehicleState_new ?t td' = Some (td', Inr (Some cl))"
    "map command (commands cl) = map (waypoint TaskDecomposer_new) (tl (rotate s ?b))" by blast
  moreover from arg_cong [OF this(3), of length] have "length (commands cl) = 2" by simp
  ultimately show ?thesis using g by blast
qed

text \<open>
  A survey with a single vertex has no commands, and one without vertices has no decomposition at
  all: the number of vertices is the divisor.
\<close>

theorem small_surveys:
  "(\<exists>td cl. Decompose G origin vs (ex_survey [(lat, lon)]) TaskDecomposer_new = Some (td, Inr (Some cl))
      \<and> commands cl = [])
   \<and> (\<exists>td. Decompose G origin vs (ex_survey []) TaskDecomposer_new = Some (td, Inl Undefined_Behaviour))"
  by (simp add: Decompose_def refresh_cache_def GetTransitionCommand_def GetTransitionCommand_Survey_def
      survey_vertices_def ex_survey_def Let_def Decompose_Survey_def
      TaskDecomposer_new_def)

end
