(* ===== verification/Tasking.thy ===== *)
theory Tasking
  imports Task_Decomposer
begin

text \<open>
  Carrying out assigned tasks (\<open>src/src/module_task_management\<close>): \<open>TaskingStateMachine\<close>, which takes a
  task from transition to completion and waits for the auction to confirm each status, and
  \<open>ModuleTaskManagement\<close>, which feeds it with the assignments that have been stable and with the
  auction's signals, and sends statuses and commands.

  A pointer to a task that may be null is an option; the command list is held by the state machine only,
  so it is a value. The clock and the global origin are arguments. The steps of the module run one at a
  time: the management loop and the topic handlers interleave between them.
\<close>

section \<open>The state machine\<close>

datatype TaskingState =
    Idle | Refuel | Transition | WaitForAuction_Start | PerformingTask | WaitForAuction_Complete
  | Complete | WaitForAuction_Abort | Abort

record TaskingStateMachine =
  m_queuedTasks :: "Task list"
  m_currentTask :: "Task option"
  m_currentTaskCommands :: "CommandList option"
  m_currentState :: TaskingState
  m_auctionHasSignaled :: bool
  m_transitionCommand :: "CommandData option"   \<comment> \<open>\<open>None\<close>: as constructed, without functions\<close>
  m_taskDecomposer :: TaskDecomposer

definition TaskingStateMachine_new :: TaskingStateMachine where
  "TaskingStateMachine_new = \<lparr>m_queuedTasks = [], m_currentTask = None, m_currentTaskCommands = None,
     m_currentState = Idle, m_auctionHasSignaled = False, m_transitionCommand = None,
     m_taskDecomposer = TaskDecomposer_new\<rparr>"

definition NewAssignmentQueue :: "Task list \<Rightarrow> TaskingStateMachine \<Rightarrow> TaskingStateMachine" where
  "NewAssignmentQueue assignmentQueue sm =
     (let sm = sm\<lparr>m_queuedTasks := assignmentQueue\<rparr>
      in case (assignmentQueue, m_currentTask sm) of
           ([], _) \<Rightarrow> sm
         | (_, None) \<Rightarrow> sm
         | (front # rest, Some task) \<Rightarrow>
             if \<not> taskkey_eq (task_key front) (task_key task)
             then sm\<lparr>m_currentTask := None, m_currentTaskCommands := None\<rparr>
             else sm\<lparr>m_queuedTasks := rest\<rparr>)"

definition ReceiveAuctionSignal :: "TaskingStateMachine \<Rightarrow> TaskingStateMachine" where
  "ReceiveAuctionSignal sm = sm\<lparr>m_auctionHasSignaled := True\<rparr>"

definition RefuelNeeded :: "VehicleState \<Rightarrow> bool" where
  "RefuelNeeded vs = False"

text \<open>The functions of a command list read this of the list and of the origin when they are called.\<close>

definition list_context :: "GlobalPosition \<Rightarrow> TaskDecomposer \<Rightarrow> CommandList \<Rightarrow> Context" where
  "list_context origin td cl =
     \<lparr>ctx_origin = origin, ctx_index = commandIndex cl, ctx_lastIssued = lastCommandIssued cl,
      ctx_required = requiredDistanceToTarget td\<rparr>"

definition run_abort :: "GlobalPosition \<Rightarrow> TaskDecomposer \<Rightarrow> VehicleState \<Rightarrow> CommandList \<Rightarrow> cpp_error + bool" where
  "run_abort origin td vs cl = (case abortLambda cl of
     None \<Rightarrow> Inr False | Some f \<Rightarrow> f (list_context origin td cl) vs)"

text \<open>The result of a step: whether a new state was entered and whether a new command is to be issued.\<close>

type_synonym advance = "(TaskingStateMachine, bool \<times> bool) outcome"

definition enter :: "TaskingState \<Rightarrow> bool \<Rightarrow> TaskingStateMachine \<Rightarrow> advance" where
  "enter st newCommand sm = (sm\<lparr>m_currentState := st\<rparr>, Inr (True, newCommand))"

definition advance_idle :: "geometry \<Rightarrow> GlobalPosition \<Rightarrow> VehicleState \<Rightarrow> TaskingStateMachine \<Rightarrow> advance" where
  "advance_idle G origin vs sm =
     (if RefuelNeeded vs then enter Refuel True sm
      else case m_queuedTasks sm of
             [] \<Rightarrow> (sm, Inr (False, False))
           | task # rest \<Rightarrow>
               let sm = sm\<lparr>m_currentState := Transition, m_currentTask := Some task, m_queuedTasks := rest\<rparr>;
                   r = GetTransitionCommand G origin vs task (m_taskDecomposer sm);
                   sm = sm\<lparr>m_taskDecomposer := fst r\<rparr>
               in case snd r of
                    Inl e \<Rightarrow> (sm, Inl e)
                  | Inr cmd \<Rightarrow> (sm\<lparr>m_transitionCommand := Some cmd\<rparr>, Inr (True, True)))"

text \<open>
  A transition without a task falls back to idle; the first step after the transition began decomposes
  the task. \<open>None\<close> is a decomposition that never ends.
\<close>

definition advance_transition ::
  "geometry \<Rightarrow> GlobalPosition \<Rightarrow> etime \<Rightarrow> VehicleState \<Rightarrow> TaskingStateMachine \<Rightarrow> advance option" where
  "advance_transition G origin now vs sm = (case m_currentTask sm of
     None \<Rightarrow> Some (enter Idle False sm)
   | Some task \<Rightarrow>
       (case m_currentTaskCommands sm of
          None \<Rightarrow>
            (case Decompose G origin vs task (m_taskDecomposer sm) of
               None \<Rightarrow> None
             | Some (td, r) \<Rightarrow>
                 let sm = sm\<lparr>m_taskDecomposer := td\<rparr>
                 in Some (case r of
                      Inl e \<Rightarrow> (sm, Inl e)
                    | Inr None \<Rightarrow> (sm, Inl Undefined_Behaviour)
                    | Inr (Some cl) \<Rightarrow>
                        (sm\<lparr>m_currentTaskCommands := Some (cl\<lparr>lastCommandIssued := now\<rparr>)\<rparr>,
                         Inr (False, False))))
        | Some cl \<Rightarrow> Some (case run_abort origin (m_taskDecomposer sm) vs cl of
            Inl e \<Rightarrow> (sm, Inl e)
          | Inr True \<Rightarrow> enter WaitForAuction_Abort False sm
          | Inr False \<Rightarrow>
              (case m_transitionCommand sm of
                 None \<Rightarrow> (sm, Inl Bad_Function_Call)
               | Some cmd \<Rightarrow>
                   if commandDone cmd (list_context origin (m_taskDecomposer sm) cl) vs
                   then enter WaitForAuction_Start False
                          (sm\<lparr>m_currentTaskCommands := Some (cl\<lparr>commandIndex := 0\<rparr>)\<rparr>)
                   else (sm, Inr (False, False))))))"

text \<open>
  \<open>commands.at\<close> throws for an index out of range; the comparison of the index with the size is unsigned,
  and the index is not negative there.
\<close>

definition advance_performing ::
  "GlobalPosition \<Rightarrow> etime \<Rightarrow> VehicleState \<Rightarrow> TaskingStateMachine \<Rightarrow> advance" where
  "advance_performing origin now vs sm = (case m_currentTaskCommands sm of
     None \<Rightarrow> (sm, Inl Undefined_Behaviour)
   | Some cl \<Rightarrow>
       if commandIndex cl < 0 \<or> nat (commandIndex cl) \<ge> length (commands cl) then (sm, Inl Out_Of_Range)
       else if commandDone (commands cl ! nat (commandIndex cl)) (list_context origin (m_taskDecomposer sm) cl) vs
       then (let cl' = cl\<lparr>commandIndex := commandIndex cl + 1\<rparr>;
                 finished = (nat (commandIndex cl') \<ge> length (commands cl'));
                 sm = (if finished then sm\<lparr>m_currentState := WaitForAuction_Complete\<rparr> else sm)
             in (sm\<lparr>m_currentTaskCommands := Some (cl'\<lparr>lastCommandIssued := now\<rparr>)\<rparr>,
                 Inr (finished, \<not> finished)))
       else (case run_abort origin (m_taskDecomposer sm) vs cl of
               Inl e \<Rightarrow> (sm, Inl e)
             | Inr True \<Rightarrow> enter WaitForAuction_Abort False sm
             | Inr False \<Rightarrow> (sm, Inr (False, False))))"

text \<open>
  Waiting for the auction: a signal leads on and is used up; then a task that was taken away leads to
  idle.
\<close>

definition advance_waiting :: "TaskingState \<Rightarrow> bool \<Rightarrow> TaskingStateMachine \<Rightarrow> advance" where
  "advance_waiting st newCommand sm =
     (let r = (if m_auctionHasSignaled sm
               then (sm\<lparr>m_currentState := st, m_auctionHasSignaled := False\<rparr>, True, newCommand)
               else (sm, False, False))
      in if m_currentTask sm = None then ((fst r)\<lparr>m_currentState := Idle\<rparr>, Inr (True, snd (snd r)))
         else (fst r, Inr (snd r)))"

definition AdvanceStateMachine ::
  "geometry \<Rightarrow> GlobalPosition \<Rightarrow> etime \<Rightarrow> VehicleState \<Rightarrow> TaskingStateMachine \<Rightarrow> advance option" where
  "AdvanceStateMachine G origin now vs sm = (case m_currentState sm of
     Idle \<Rightarrow> Some (advance_idle G origin vs sm)
   | Transition \<Rightarrow> advance_transition G origin now vs sm
   | PerformingTask \<Rightarrow> Some (advance_performing origin now vs sm)
   | Complete \<Rightarrow> Some (enter Idle False (sm\<lparr>m_currentTask := None, m_currentTaskCommands := None\<rparr>))
   | Abort \<Rightarrow> Some (enter Idle False (sm\<lparr>m_currentTask := None, m_currentTaskCommands := None\<rparr>))
   | Refuel \<Rightarrow> Some (if \<not> RefuelNeeded vs then enter Idle False sm else (sm, Inr (False, False)))
   | WaitForAuction_Start \<Rightarrow> Some (advance_waiting PerformingTask True sm)
   | WaitForAuction_Complete \<Rightarrow> Some (advance_waiting Complete False sm)
   | WaitForAuction_Abort \<Rightarrow> Some (advance_waiting Abort False sm))"

definition GetNextVehicleCommand :: "TaskingStateMachine \<Rightarrow> cpp_error + Command option" where
  "GetNextVehicleCommand sm = (case m_currentState sm of
     Transition \<Rightarrow> Inr (if m_currentTask sm = None then None else map_option command (m_transitionCommand sm))
   | PerformingTask \<Rightarrow>
       (case m_currentTaskCommands sm of
          None \<Rightarrow> Inl Undefined_Behaviour
        | Some cl \<Rightarrow>
            if commandIndex cl < 0 \<or> nat (commandIndex cl) \<ge> length (commands cl) then Inr None
            else Inr (Some (command (commands cl ! nat (commandIndex cl)))))
   | Refuel \<Rightarrow> Inr (Some Spatial_RTL)
   | _ \<Rightarrow> Inr None)"

section \<open>The state stays sound\<close>

text \<open>Tasks as the auction makes them: the payload fits the type, and a survey has an area.\<close>

definition task_ok :: "Task \<Rightarrow> bool" where
  "task_ok t = (case (td_type (task_descriptor t), task_payload t) of
     (LOITER, Loiter_Task p _) \<Rightarrow> p \<noteq> Other_State
   | (SURVEY, Survey_2DC vs) \<Rightarrow> length vs \<ge> 2
   | (SURVEY, Survey_2DG vs) \<Rightarrow> length vs \<ge> 2
   | _ \<Rightarrow> False)"

definition list_ok :: "CommandList \<Rightarrow> bool" where
  "list_ok cl \<longleftrightarrow> commands cl \<noteq> []
     \<and> (\<forall>f ctx vs. abortLambda cl = Some f \<longrightarrow> ctx_index ctx < int (length (commands cl)) \<longrightarrow>
          (\<exists>b. f ctx vs = Inr b))"

definition machine_ok :: "TaskingStateMachine \<Rightarrow> bool" where
  "machine_ok sm \<longleftrightarrow>
     (\<forall>t \<in> set (m_queuedTasks sm). task_ok t)
   \<and> (m_currentTask sm = None \<longrightarrow> m_currentTaskCommands sm = None)
   \<and> (m_currentState sm \<in> {Idle, Refuel} \<longrightarrow> m_currentTask sm = None)
   \<and> (m_currentTask sm \<noteq> None \<and> m_currentState sm \<noteq> Transition \<longrightarrow> m_currentTaskCommands sm \<noteq> None)
   \<and> (\<forall>cl. m_currentTaskCommands sm = Some cl \<longrightarrow> list_ok cl
        \<and> (m_currentState sm = Transition \<longrightarrow> commandIndex cl = -1)
        \<and> (m_currentState sm \<in> {WaitForAuction_Start, PerformingTask} \<longrightarrow>
             0 \<le> commandIndex cl \<and> commandIndex cl < int (length (commands cl))))
   \<and> (\<forall>t. m_currentTask sm = Some t \<and> m_currentState sm = Transition \<longrightarrow> task_ok t
        \<and> m_transitionCommand sm \<noteq> None
        \<and> (\<exists>c. taskDataCache (m_taskDecomposer sm) = Some c \<and> cache_key c = task_key t
             \<and> (case cache_detail c of
                  Loiter_Cache _ \<Rightarrow> td_type (task_descriptor t) = LOITER
                | Survey_Cache b s \<Rightarrow> td_type (task_descriptor t) = SURVEY \<and> length b \<ge> 2
                    \<and> 0 \<le> s \<and> s < int (length b))))"

lemma machine_ok_new: "machine_ok TaskingStateMachine_new"
  by (simp add: machine_ok_def TaskingStateMachine_new_def)

lemma machine_ok_assign:
  "machine_ok sm \<Longrightarrow> \<forall>t \<in> set q. task_ok t \<Longrightarrow> machine_ok (NewAssignmentQueue q sm)"
  by (cases q; cases "m_currentTask sm")
    (auto simp: machine_ok_def NewAssignmentQueue_def Let_def)

lemma machine_ok_signal: "machine_ok sm \<Longrightarrow> machine_ok (ReceiveAuctionSignal sm)"
  by (simp add: machine_ok_def ReceiveAuctionSignal_def)

text \<open>The transition command of a sound task exists, and its cache fits the task.\<close>

lemma transition_command_ok:
  assumes "task_ok t"
  shows "\<exists>td' cmd c. GetTransitionCommand G origin vs t td = (td', Inr cmd)
     \<and> taskDataCache td' = Some c \<and> cache_key c = task_key t
     \<and> (case cache_detail c of
          Loiter_Cache _ \<Rightarrow> td_type (task_descriptor t) = LOITER
        | Survey_Cache b s \<Rightarrow> td_type (task_descriptor t) = SURVEY \<and> length b \<ge> 2
            \<and> 0 \<le> s \<and> s < int (length b))"
proof -
  have range: "0 \<le> closest_vertex G v 0 (map f ps) d 0 \<and> closest_vertex G v 0 (map f ps) d 0 < int (length ps)"
    if "2 \<le> length ps" for v d and f :: "dbl \<times> dbl \<Rightarrow> GlobalPosition" and ps
    using closest_vertex_range [of 0 0 "map f ps" G v d] that by (cases "ps = []") auto
  show ?thesis
    using assms
    by (cases "td_type (task_descriptor t)"; cases "task_payload t")
      (auto simp: task_ok_def GetTransitionCommand_def GetTransitionCommand_Loiter_def
        GetTransitionCommand_Survey_def survey_vertices_def ConvertTaskPositionToGlobalPosition_def
        Let_def range split: TaskPosition.splits)
qed

lemma decompose_ok:
  assumes "task_ok t" "taskDataCache td = Some c" "cache_key c = task_key t"
    and "case cache_detail c of
          Loiter_Cache _ \<Rightarrow> td_type (task_descriptor t) = LOITER
        | Survey_Cache b s \<Rightarrow> td_type (task_descriptor t) = SURVEY \<and> length b \<ge> 2
            \<and> 0 \<le> s \<and> s < int (length b)"
  shows "\<exists>cl. Decompose G origin vs t td = Some (td, Inr (Some cl)) \<and> list_ok cl \<and> commandIndex cl = -1"
proof (cases "cache_detail c")
  case (Loiter_Cache d)
  then show ?thesis
    using assms by (cases "task_payload t")
      (auto simp: task_ok_def Decompose_def refresh_cache_def taskkey_eq_def Decompose_Loiter_def
        list_ok_def Let_def)
next
  case (Survey_Cache b s)
  then obtain n where n: "s = int n" "n < length b" "length b \<ge> 2"
    using assms(4) by (auto elim: nonneg_int_cases)
  obtain cmds e where c: "survey_order G origin td b s ((s + 1) mod int (length b)) vs [] (Fin 0) = Some (cmds, e)"
    "map command cmds = map (waypoint td) (tl (rotate n b))"
    using survey_order_total [OF n(2)] n(1) by blast
  then have "length cmds = length b - 1" by (metis length_map length_tl length_rotate)
  then have "cmds \<noteq> []" using n(3) by auto
  then show ?thesis
    using Survey_Cache assms n(3) c(1)
    by (auto simp: Decompose_def refresh_cache_def taskkey_eq_def Decompose_Survey_def list_ok_def
        survey_abort_def)
qed

lemma run_abort_total:
  assumes "list_ok cl" "commandIndex cl < int (length (commands cl))"
  shows "\<exists>b. run_abort origin td vs cl = Inr b"
proof (cases "abortLambda cl")
  case (Some f)
  have "ctx_index (list_context origin td cl) < int (length (commands cl))"
    using assms(2) by (simp add: list_context_def)
  then show ?thesis using assms(1) Some unfolding list_ok_def run_abort_def by simp
qed (auto simp: run_abort_def)

lemma idle_ok:
  assumes "machine_ok sm" "m_currentState sm = Idle"
  shows "\<exists>sm' r. advance_idle G origin vs sm = (sm', Inr r) \<and> machine_ok sm'"
proof (cases "m_queuedTasks sm")
  case (Cons t ts)
  then have "task_ok t" using assms by (simp add: machine_ok_def)
  from transition_command_ok [OF this, of G origin vs "m_taskDecomposer sm"] show ?thesis
    using assms Cons by (auto simp: advance_idle_def RefuelNeeded_def machine_ok_def Let_def)
qed (use assms in \<open>auto simp: advance_idle_def RefuelNeeded_def\<close>)

lemma transition_ok:
  assumes "machine_ok sm" "m_currentState sm = Transition"
  shows "\<exists>sm' r. advance_transition G origin now vs sm = Some (sm', Inr r) \<and> machine_ok sm'"
proof (cases "m_currentTask sm")
  case None
  then show ?thesis using assms by (auto simp: advance_transition_def enter_def machine_ok_def)
next
  case (Some t)
  then obtain c cmd where t: "task_ok t" "taskDataCache (m_taskDecomposer sm) = Some c"
      "cache_key c = task_key t" "m_transitionCommand sm = Some cmd"
    and detail: "case cache_detail c of
          Loiter_Cache _ \<Rightarrow> td_type (task_descriptor t) = LOITER
        | Survey_Cache b s \<Rightarrow> td_type (task_descriptor t) = SURVEY \<and> length b \<ge> 2
            \<and> 0 \<le> s \<and> s < int (length b)"
    using assms by (auto simp: machine_ok_def)
  show ?thesis
  proof (cases "m_currentTaskCommands sm")
    case None
    obtain cl where "Decompose G origin vs t (m_taskDecomposer sm)
        = Some (m_taskDecomposer sm, Inr (Some cl))" "list_ok cl" "commandIndex cl = -1"
      using decompose_ok [OF t(1-3) detail] by blast
    then show ?thesis
      using assms Some None by (auto simp: advance_transition_def machine_ok_def list_ok_def Let_def)
  next
    case (Some cl)
    then have cl: "list_ok cl" "commandIndex cl = -1" using assms by (auto simp: machine_ok_def)
    then obtain b where b: "run_abort origin (m_taskDecomposer sm) vs cl = Inr b"
      using run_abort_total [of cl origin "m_taskDecomposer sm" vs] by auto
    have cl0: "list_ok (cl\<lparr>commandIndex := 0\<rparr>)" "commands cl \<noteq> []"
      using cl by (auto simp: list_ok_def)
    show ?thesis
    proof (cases b)
      case True
      have "machine_ok (sm\<lparr>m_currentState := WaitForAuction_Abort\<rparr>)"
        using assms \<open>m_currentTask sm = Some t\<close> Some by (simp add: machine_ok_def)
      then show ?thesis using assms(1) \<open>m_currentTask sm = Some t\<close> Some b True
        by (auto simp: advance_transition_def enter_def)
    next
      case False
      have "machine_ok (sm\<lparr>m_currentTaskCommands := Some (cl\<lparr>commandIndex := 0\<rparr>),
          m_currentState := WaitForAuction_Start\<rparr>)"
        using assms \<open>m_currentTask sm = Some t\<close> cl0 by (simp add: machine_ok_def)
      then show ?thesis using assms(1) \<open>m_currentTask sm = Some t\<close> Some b t(4) False
        by (auto simp: advance_transition_def enter_def)
    qed
  qed
qed

lemma performing_ok:
  assumes "machine_ok sm" "m_currentState sm = PerformingTask" "m_currentTask sm \<noteq> None"
  shows "\<exists>sm' r. advance_performing origin now vs sm = (sm', Inr r) \<and> machine_ok sm'"
proof -
  obtain cl where cl: "m_currentTaskCommands sm = Some cl" "list_ok cl" "0 \<le> commandIndex cl"
      "commandIndex cl < int (length (commands cl))"
    using assms by (auto simp: machine_ok_def)
  then have in_range: "\<not> (commandIndex cl < 0 \<or> nat (commandIndex cl) \<ge> length (commands cl))" by auto
  obtain b where b: "run_abort origin (m_taskDecomposer sm) vs cl = Inr b"
    using run_abort_total [OF cl(2,4)] by blast
  let ?cl = "cl\<lparr>commandIndex := commandIndex cl + 1, lastCommandIssued := now\<rparr>"
  have lo: "list_ok ?cl" using cl(2) by (simp add: list_ok_def)
  obtain t where t: "m_currentTask sm = Some t" using assms(3) by blast
  have finished: "machine_ok (sm\<lparr>m_currentState := WaitForAuction_Complete, m_currentTaskCommands := Some ?cl\<rparr>)"
    and abort: "machine_ok (sm\<lparr>m_currentState := WaitForAuction_Abort\<rparr>)"
    using assms(1,2) t cl(1) lo by (simp_all add: machine_ok_def)
  have more: "machine_ok (sm\<lparr>m_currentTaskCommands := Some ?cl\<rparr>)"
    if "\<not> length (commands cl) \<le> nat (commandIndex cl + 1)"
    using assms(1,2) t cl(3) lo that by (simp add: machine_ok_def)
  show ?thesis
    using assms(1) cl(1) in_range b finished abort more
    by (cases b) (auto simp: advance_performing_def enter_def Let_def)
qed

lemma waiting_ok:
  assumes ok: "machine_ok sm" and st: "m_currentState sm = WaitForAuction_Start \<and> st = PerformingTask
    \<or> m_currentState sm = WaitForAuction_Complete \<and> st = Complete
    \<or> m_currentState sm = WaitForAuction_Abort \<and> st = Abort"
  shows "\<exists>sm' r. advance_waiting st c sm = (sm', Inr r) \<and> machine_ok sm'"
proof -
  have idle: "machine_ok (sm\<lparr>m_currentState := Idle\<rparr>)"
      "machine_ok (sm\<lparr>m_auctionHasSignaled := False, m_currentState := Idle\<rparr>)"
    if "m_currentTask sm = None"
    using ok that by (simp_all add: machine_ok_def)
  have on: "machine_ok (sm\<lparr>m_currentState := st, m_auctionHasSignaled := False\<rparr>)"
    if "m_currentTask sm = Some t" for t
    using ok st that by (elim disjE) (simp_all add: machine_ok_def)
  show ?thesis
    using ok idle on by (auto simp: advance_waiting_def Let_def)
qed

lemma advance_ok:
  assumes "machine_ok sm"
  shows "if m_currentState sm = PerformingTask \<and> m_currentTask sm = None
    then AdvanceStateMachine G origin now vs sm = Some (sm, Inl Undefined_Behaviour)
    else \<exists>sm' r. AdvanceStateMachine G origin now vs sm = Some (sm', Inr r) \<and> machine_ok sm'"
proof (cases "m_currentState sm")
  case PerformingTask
  then show ?thesis
    using performing_ok [OF assms PerformingTask, of origin now vs] assms
    by (auto simp: AdvanceStateMachine_def advance_performing_def machine_ok_def)
qed (use assms idle_ok transition_ok waiting_ok in
    \<open>auto simp: AdvanceStateMachine_def enter_def RefuelNeeded_def machine_ok_def\<close>)

section \<open>Histories\<close>

datatype tasking_event = Assign "Task list" | Signal | Advance GlobalPosition etime VehicleState

text \<open>
  The histories of the state machine: the events, the states it entered, in order, and the machine. A
  step that throws ends the history.
\<close>

inductive tasking_trace ::
  "geometry \<Rightarrow> tasking_event list \<Rightarrow> TaskingState list \<Rightarrow> TaskingStateMachine \<Rightarrow> bool" for G where
  start: "tasking_trace G [] [] TaskingStateMachine_new"
| assign: "tasking_trace G es sts sm \<Longrightarrow> \<forall>t \<in> set q. task_ok t \<Longrightarrow>
    tasking_trace G (es @ [Assign q]) sts (NewAssignmentQueue q sm)"
| signal: "tasking_trace G es sts sm \<Longrightarrow> tasking_trace G (es @ [Signal]) sts (ReceiveAuctionSignal sm)"
| advance: "tasking_trace G es sts sm \<Longrightarrow>
    AdvanceStateMachine G origin now vs sm = Some (sm', Inr (newState, newCommand)) \<Longrightarrow>
    tasking_trace G (es @ [Advance origin now vs]) (if newState then sts @ [m_currentState sm'] else sts) sm'"

lemma trace_ok: "tasking_trace G es sts sm \<Longrightarrow> machine_ok sm"
proof (induction rule: tasking_trace.induct)
  case (advance es sts sm origin now vs sm' newState newCommand)
  then show ?case using advance_ok [OF advance.IH, of G origin now vs] by (auto split: if_splits)
qed (auto simp: machine_ok_new machine_ok_assign machine_ok_signal)

text \<open>The states that need a signal of the auction to be entered.\<close>

definition gated :: "TaskingState \<Rightarrow> bool" where
  "gated st \<longleftrightarrow> st \<in> {PerformingTask, Complete, Abort}"

text \<open>What one step can do to the state.\<close>

definition tasking_edge :: "TaskingState \<Rightarrow> TaskingState \<Rightarrow> bool" where
  "tasking_edge a b = (case a of
     Idle \<Rightarrow> b = Transition
   | Refuel \<Rightarrow> b = Idle
   | Transition \<Rightarrow> b \<in> {Idle, WaitForAuction_Start, WaitForAuction_Abort}
   | WaitForAuction_Start \<Rightarrow> b \<in> {PerformingTask, Idle}
   | PerformingTask \<Rightarrow> b \<in> {WaitForAuction_Complete, WaitForAuction_Abort}
   | WaitForAuction_Complete \<Rightarrow> b \<in> {Complete, Idle}
   | Complete \<Rightarrow> b = Idle
   | WaitForAuction_Abort \<Rightarrow> b \<in> {Abort, Idle}
   | Abort \<Rightarrow> b = Idle)"

lemma advance_edge:
  assumes "AdvanceStateMachine G origin now vs sm = Some (sm', Inr (newState, newCommand))"
  shows "(if newState then tasking_edge (m_currentState sm) (m_currentState sm')
          else m_currentState sm' = m_currentState sm)
     \<and> (gated (m_currentState sm') \<and> newState \<longrightarrow> m_auctionHasSignaled sm \<and> \<not> m_auctionHasSignaled sm')
     \<and> (m_auctionHasSignaled sm' \<longrightarrow> m_auctionHasSignaled sm)"
  using assms
  by (cases "m_currentState sm")
    (auto simp: AdvanceStateMachine_def advance_idle_def advance_transition_def advance_performing_def
      advance_waiting_def enter_def RefuelNeeded_def tasking_edge_def gated_def Let_def
      split: if_splits option.splits list.splits sum.splits prod.splits bool.splits)

lemma assign_state [simp]: "m_currentState (NewAssignmentQueue q sm) = m_currentState sm"
    "m_auctionHasSignaled (NewAssignmentQueue q sm) = m_auctionHasSignaled sm"
  by (auto simp: NewAssignmentQueue_def Let_def split: list.split option.split)

lemma signal_state [simp]: "m_currentState (ReceiveAuctionSignal sm) = m_currentState sm"
    "m_auctionHasSignaled (ReceiveAuctionSignal sm)"
  by (simp_all add: ReceiveAuctionSignal_def)

definition path_from_idle :: "TaskingState list \<Rightarrow> bool" where
  "path_from_idle sts \<longleftrightarrow> (\<forall>i < length sts. tasking_edge ((Idle # sts) ! i) (sts ! i))"

lemma path_from_idle_snoc:
  "path_from_idle (sts @ [st]) \<longleftrightarrow> path_from_idle sts \<and> tasking_edge (last (Idle # sts)) st"
proof -
  have "(Idle # sts @ [st]) ! length sts = last (Idle # sts)"
    by (cases sts rule: rev_cases) (auto simp: nth_append)
  moreover have "(Idle # sts @ [st]) ! i = (Idle # sts) ! i" if "i < length sts" for i
    using that by (cases i) (auto simp: nth_append)
  ultimately show ?thesis
    by (auto simp: path_from_idle_def nth_append less_Suc_eq)
qed

lemma trace_gates:
  "tasking_trace G es sts sm \<Longrightarrow> path_from_idle sts \<and> last (Idle # sts) = m_currentState sm
     \<and> length (filter gated sts) + (if m_auctionHasSignaled sm then 1 else 0)
         \<le> length (filter (\<lambda>e. e = Signal) es)"
proof (induction rule: tasking_trace.induct)
  case start
  then show ?case by (simp add: path_from_idle_def TaskingStateMachine_new_def)
next
  case (advance es sts sm origin now vs sm' newState newCommand)
  note edge = advance_edge [OF advance.hyps(2)]
  show ?case
  proof (cases newState)
    case True
    then show ?thesis using advance.IH edge
      by (cases "gated (m_currentState sm')") (auto simp: path_from_idle_snoc split: if_splits)
  next
    case False
    then show ?thesis using advance.IH edge by (auto split: if_splits)
  qed
qed (auto split: if_splits)

section \<open>Properties\<close>

text \<open>
  The state machine fails in one way only: after any history of sound assignments, signals and steps,
  the next step succeeds unless a task is being performed that was taken away by a new assignment queue;
  then it dereferences the null pointer of its commands.
\<close>

theorem tasking_fails_iff_cancelled:
  assumes "tasking_trace G es sts sm"
  shows "if m_currentState sm = PerformingTask \<and> m_currentTask sm = None
    then AdvanceStateMachine G origin now vs sm = Some (sm, Inl Undefined_Behaviour)
    else \<exists>sm' r. AdvanceStateMachine G origin now vs sm = Some (sm', Inr r)"
  using advance_ok [OF trace_ok [OF assms], of G origin now vs] by (auto split: if_splits)

theorem tasking_fails_iff_cancelled_witness:
  "\<exists>sm' r. AdvanceStateMachine flat GlobalPosition_new etime_zero VehicleState_new
     (NewAssignmentQueue [ex_survey [(Fin 5, Fin 0), (Fin 1, Fin 0)]] TaskingStateMachine_new) = Some (sm', Inr r)"
proof -
  have "task_ok (ex_survey [(Fin 5, Fin 0), (Fin 1, Fin 0)])" by (simp add: task_ok_def ex_survey_def)
  then have "tasking_trace flat ([] @ [Assign [ex_survey [(Fin 5, Fin 0), (Fin 1, Fin 0)]]]) []
      (NewAssignmentQueue [ex_survey [(Fin 5, Fin 0), (Fin 1, Fin 0)]] TaskingStateMachine_new)"
    by (intro tasking_trace.assign tasking_trace.start) simp
  then show ?thesis
    using tasking_fails_iff_cancelled [of flat _ "[]"
        "NewAssignmentQueue [ex_survey [(Fin 5, Fin 0), (Fin 1, Fin 0)]] TaskingStateMachine_new"
        GlobalPosition_new etime_zero VehicleState_new]
    by (simp add: TaskingStateMachine_new_def)
qed

text \<open>
  C5: No task is started, completed or aborted without the auction: over any history the states entered
  follow the edges of the state machine from idle, and the states behind the auction (performing, complete,
  abort) are entered at most as often as the auction has signaled.
\<close>

theorem signals_gate_progress:
  assumes "tasking_trace G es sts sm"
  shows "path_from_idle sts \<and> last (Idle # sts) = m_currentState sm
     \<and> length (filter gated sts) \<le> length (filter (\<lambda>e. e = Signal) es)"
  using trace_gates [OF assms] by auto

theorem signals_gate_progress_witness:
  "\<exists>sm. AdvanceStateMachine flat GlobalPosition_new etime_zero VehicleState_new
       (ReceiveAuctionSignal (NewAssignmentQueue [ex_survey [(Fin 5, Fin 0), (Fin 1, Fin 0)]]
          TaskingStateMachine_new)) = Some (sm, Inr (True, True))
     \<and> path_from_idle [Transition] \<and> last [Idle, Transition] = m_currentState sm"
proof -
  let ?q = "[ex_survey [(Fin 5, Fin 0), (Fin 1, Fin 0)]]"
  let ?m = "ReceiveAuctionSignal (NewAssignmentQueue ?q TaskingStateMachine_new)"
  have sound: "task_ok (hd ?q)" by (simp add: task_ok_def ex_survey_def)
  then have "tasking_trace flat (([] @ [Assign ?q]) @ [Signal]) [] ?m"
    by (intro tasking_trace.signal tasking_trace.assign tasking_trace.start) simp
  moreover obtain sm where step: "AdvanceStateMachine flat GlobalPosition_new etime_zero VehicleState_new ?m
      = Some (sm, Inr (True, True))"
    using transition_command_ok [OF sound, of flat GlobalPosition_new VehicleState_new TaskDecomposer_new]
    by (auto simp: AdvanceStateMachine_def advance_idle_def RefuelNeeded_def NewAssignmentQueue_def
        TaskingStateMachine_new_def ReceiveAuctionSignal_def Let_def)
  moreover have "m_currentState sm = Transition"
    using step by (auto simp: AdvanceStateMachine_def advance_idle_def RefuelNeeded_def
        NewAssignmentQueue_def TaskingStateMachine_new_def ReceiveAuctionSignal_def Let_def split: sum.splits)
  ultimately show ?thesis
    using signals_gate_progress [OF tasking_trace.advance] by fastforce
qed

text \<open>
  A run of steps with what comes out of it: the commands that the caller is told to issue, as it fetches them, and
  the states that are reported as entered.
\<close>

fun issues :: "geometry \<Rightarrow> GlobalPosition \<Rightarrow> (etime \<times> VehicleState) list \<Rightarrow> TaskingStateMachine
    \<Rightarrow> (TaskingStateMachine \<times> Command option list \<times> TaskingState list) option" where
  "issues G origin [] sm = Some (sm, [], [])"
| "issues G origin ((now, vs) # steps) sm = (case AdvanceStateMachine G origin now vs sm of
     Some (sm', Inr (newState, newCommand)) \<Rightarrow>
       (case (if newCommand then map_sum id (\<lambda>c. [c]) (GetNextVehicleCommand sm') else Inr []) of
          Inl e \<Rightarrow> None
        | Inr cs \<Rightarrow> (case issues G origin steps sm' of
            None \<Rightarrow> None
          | Some (sm'', cs', sts) \<Rightarrow> Some (sm'', cs @ cs', (if newState then [m_currentState sm'] else []) @ sts)))
   | _ \<Rightarrow> None)"

lemma issues_performing:
  assumes "m_currentState sm = PerformingTask"
    and "m_currentTaskCommands sm = Some (cl\<lparr>commandIndex := int k, lastCommandIssued := l\<rparr>)"
    and "requiredDistanceToTarget (m_taskDecomposer sm) = d" and "steps \<noteq> []" and "k + length steps = length (commands cl)"
    and "\<forall>i < length steps. commandDone (commands cl ! (k + i))
      \<lparr>ctx_origin = origin, ctx_index = int (k + i), ctx_lastIssued = (if i = 0 then l else fst (steps ! (i - 1))), ctx_required = d\<rparr>
      (snd (steps ! i))"
  shows "\<exists>sm'. issues G origin steps sm = Some (sm', map (Some \<circ> command) (drop (Suc k) (commands cl)), [WaitForAuction_Complete])
    \<and> m_currentState sm' = WaitForAuction_Complete"
  using assms
proof (induction steps arbitrary: sm k l)
  case (Cons step steps)
  obtain now vs where step: "step = (now, vs)" by fastforce
  have k: "k < length (commands cl)" using Cons.prems(5) by simp
  have current: "commandDone (commands cl ! k) \<lparr>ctx_origin = origin, ctx_index = int k, ctx_lastIssued = l, ctx_required = d\<rparr> vs"
    using Cons.prems(6) [rule_format, of 0] by (simp add: step)
  have later: "\<forall>i < length steps. commandDone (commands cl ! (Suc k + i))
      \<lparr>ctx_origin = origin, ctx_index = int (Suc k + i), ctx_lastIssued = (if i = 0 then now else fst (steps ! (i - 1))), ctx_required = d\<rparr>
      (snd (steps ! i))"
  proof (intro allI impI)
    fix i assume i: "i < length steps"
    have "commandDone (commands cl ! (k + Suc i)) \<lparr>ctx_origin = origin, ctx_index = int (k + Suc i),
        ctx_lastIssued = fst ((step # steps) ! i), ctx_required = d\<rparr> (snd (steps ! i))"
      using Cons.prems(6) [rule_format, of "Suc i"] i by simp
    moreover have "fst ((step # steps) ! i) = (if i = 0 then now else fst (steps ! (i - 1)))" by (cases i) (simp_all add: step)
    ultimately show "commandDone (commands cl ! (Suc k + i))
      \<lparr>ctx_origin = origin, ctx_index = int (Suc k + i), ctx_lastIssued = (if i = 0 then now else fst (steps ! (i - 1))), ctx_required = d\<rparr>
      (snd (steps ! i))" by simp
  qed
  show ?case
  proof (cases "steps = []")
    case True
    then show ?thesis
      using Cons.prems(1-3,5) k current
      by (simp add: step AdvanceStateMachine_def advance_performing_def Let_def list_context_def nat_add_distrib)
  next
    case False
    define sm1 where "sm1 = sm\<lparr>m_currentTaskCommands := Some (cl\<lparr>commandIndex := int (Suc k), lastCommandIssued := now\<rparr>)\<rparr>"
    have more: "Suc k < length (commands cl)" using Cons.prems(5) False by (cases steps) auto
    then have advance: "AdvanceStateMachine G origin now vs sm = Some (sm1, Inr (False, True))"
      using Cons.prems(1-3) k current
      by (simp add: sm1_def AdvanceStateMachine_def advance_performing_def Let_def list_context_def nat_add_distrib)
    have next_command: "GetNextVehicleCommand sm1 = Inr (Some (command (commands cl ! Suc k)))"
      using Cons.prems(1) more by (simp add: sm1_def GetNextVehicleCommand_def nat_add_distrib)
    have sm1: "m_currentState sm1 = PerformingTask"
        "m_currentTaskCommands sm1 = Some (cl\<lparr>commandIndex := int (Suc k), lastCommandIssued := now\<rparr>)"
        "requiredDistanceToTarget (m_taskDecomposer sm1) = d"
      using Cons.prems(1,3) by (simp_all add: sm1_def)
    obtain sm' where "issues G origin steps sm1 = Some (sm', map (Some \<circ> command) (drop (Suc (Suc k)) (commands cl)), [WaitForAuction_Complete])"
        "m_currentState sm' = WaitForAuction_Complete"
      using Cons.IH [OF sm1 False _ later] Cons.prems(5) by auto
    then show ?thesis
      using advance next_command more by (simp add: step flip: Cons_nth_drop_Suc)
  qed
qed simp

text \<open>
  C35: A task is performed to its end: once the auction has signaled and each step finds the current command done,
  the caller is told to issue the commands of the task one after the other, every command exactly once, the entry
  into the state is reported at the start, and after the last command the machine reports that it waits for the
  auction to confirm the completion.
\<close>

theorem performing_issues_all_commands:
  assumes "m_currentState sm = WaitForAuction_Start" and "m_auctionHasSignaled sm" and "m_currentTask sm \<noteq> None"
    and "m_currentTaskCommands sm = Some cl" and "commandIndex cl = 0" and "commands cl \<noteq> []"
    and "length steps = length (commands cl)"
    and done_each: "\<forall>i < length steps. commandDone (commands cl ! i)
      \<lparr>ctx_origin = origin, ctx_index = int i,
       ctx_lastIssued = (if i = 0 then lastCommandIssued cl else fst (steps ! (i - 1))),
       ctx_required = requiredDistanceToTarget (m_taskDecomposer sm)\<rparr> (snd (steps ! i))"
  shows "\<exists>sm'. issues G origin ((now, vs) # steps) sm
       = Some (sm', map (Some \<circ> command) (commands cl), [PerformingTask, WaitForAuction_Complete])
     \<and> m_currentState sm' = WaitForAuction_Complete"
proof -
  define sm1 where "sm1 = sm\<lparr>m_currentState := PerformingTask, m_auctionHasSignaled := False\<rparr>"
  have advance: "AdvanceStateMachine G origin now vs sm = Some (sm1, Inr (True, True))"
    using assms(1-3) by (auto simp: sm1_def AdvanceStateMachine_def advance_waiting_def Let_def)
  have first: "GetNextVehicleCommand sm1 = Inr (Some (command (commands cl ! 0)))"
    using assms(4-6) by (simp add: sm1_def GetNextVehicleCommand_def)
  have sm1: "m_currentState sm1 = PerformingTask"
      "m_currentTaskCommands sm1 = Some (cl\<lparr>commandIndex := int 0, lastCommandIssued := lastCommandIssued cl\<rparr>)"
      "requiredDistanceToTarget (m_taskDecomposer sm1) = requiredDistanceToTarget (m_taskDecomposer sm)"
    using assms(4,5) by (simp_all add: sm1_def)
  have "steps \<noteq> []" using assms(6,7) by auto
  then obtain sm' where "issues G origin steps sm1 = Some (sm', map (Some \<circ> command) (drop (Suc 0) (commands cl)), [WaitForAuction_Complete])"
      "m_currentState sm' = WaitForAuction_Complete"
    using issues_performing [OF sm1, of steps origin G] assms(7) done_each by auto
  moreover have "command (commands cl ! 0) # map command (drop (Suc 0) (commands cl)) = map command (commands cl)"
    using assms(6) by (cases "commands cl") simp_all
  moreover have "m_currentState sm1 = PerformingTask" by (rule sm1(1))
  ultimately show ?thesis using assms(6) by (cases "commands cl") (auto simp: advance first)
qed

definition ex_performing :: TaskingStateMachine where
  "ex_performing = TaskingStateMachine_new\<lparr>m_currentState := WaitForAuction_Start, m_auctionHasSignaled := True,
     m_currentTask := Some (ex_survey []), m_currentTaskCommands := Some
       \<lparr>commands = [\<lparr>command = Spatial_RTL, expectedDuration = Fin 1, commandDone = (\<lambda>ctx s. True)\<rparr>],
        commandIndex = 0, expectedTransitionTime = None, listDuration = Fin 1,
        lastCommandIssued = etime_zero, abortLambda = None\<rparr>\<rparr>"

theorem performing_issues_all_commands_witness:
  "\<exists>sm'. issues flat GlobalPosition_new [(etime_zero, VehicleState_new), (etime_zero, VehicleState_new)] ex_performing
      = Some (sm', [Some Spatial_RTL], [PerformingTask, WaitForAuction_Complete])
     \<and> m_currentState sm' = WaitForAuction_Complete"
proof -
  let ?cl = "the (m_currentTaskCommands ex_performing)"
  have "m_currentState ex_performing = WaitForAuction_Start" "m_auctionHasSignaled ex_performing"
    "m_currentTask ex_performing \<noteq> None" "m_currentTaskCommands ex_performing = Some ?cl"
    "commandIndex ?cl = 0" "commands ?cl \<noteq> []" "length [(etime_zero, VehicleState_new)] = length (commands ?cl)"
    "\<forall>i < length [(etime_zero, VehicleState_new)]. commandDone (commands ?cl ! i)
      \<lparr>ctx_origin = GlobalPosition_new, ctx_index = int i, ctx_lastIssued = (if i = 0
         then lastCommandIssued ?cl else fst ([(etime_zero, VehicleState_new)] ! (i - 1))),
       ctx_required = requiredDistanceToTarget (m_taskDecomposer ex_performing)\<rparr>
      (snd ([(etime_zero, VehicleState_new)] ! i))"
    by (simp_all add: ex_performing_def)
  from performing_issues_all_commands [OF this, of flat etime_zero VehicleState_new]
  have "\<exists>sm'. issues flat GlobalPosition_new [(etime_zero, VehicleState_new), (etime_zero, VehicleState_new)] ex_performing
      = Some (sm', map (Some \<circ> command) (commands ?cl), [PerformingTask, WaitForAuction_Complete])
     \<and> m_currentState sm' = WaitForAuction_Complete" .
  moreover have "map (Some \<circ> command) (commands ?cl) = [Some Spatial_RTL]" by (simp add: ex_performing_def)
  ultimately show ?thesis by simp
qed

text \<open>
  C36: The state of the machine is well formed after any history in which the assigned tasks are sound
  (\<open>task_ok\<close>: the payload fits the type, and a survey has at least two vertices) and which a step that
  throws ends: the queued tasks are sound, a machine without a task has no commands and one with a task has them
  from the transition on, the index is -1 in the transition and in range while performing, and during the transition
  the cache of the decomposer is that of the task and of its class, so that its downcast is right.
\<close>

theorem tasking_machine_well_formed:
  assumes "tasking_trace G es sts sm"
  shows "machine_ok sm"
  by (rule trace_ok [OF assms])

theorem tasking_machine_well_formed_witness:
  "machine_ok (ReceiveAuctionSignal (NewAssignmentQueue [ex_survey [(Fin 5, Fin 0), (Fin 1, Fin 0)]]
     TaskingStateMachine_new))"
proof -
  have "task_ok (ex_survey [(Fin 5, Fin 0), (Fin 1, Fin 0)])" by (simp add: task_ok_def ex_survey_def)
  then show ?thesis
    by (intro tasking_machine_well_formed [of flat "([] @ [Assign [ex_survey [(Fin 5, Fin 0), (Fin 1, Fin 0)]]])
        @ [Signal]" "[]"] tasking_trace.signal tasking_trace.assign tasking_trace.start) simp
qed

text \<open>
  Losing the task that is being performed to another one makes the next step dereference a null pointer;
  losing the last assigned task does not cancel it at all.
\<close>

theorem new_assignment_crashes_performing:
  "m_currentState sm = PerformingTask \<and> m_currentTask sm = Some t \<and> task_key q \<noteq> task_key t \<longrightarrow>
     (\<exists>sm'. AdvanceStateMachine G origin now vs (NewAssignmentQueue (q # qs) sm)
        = Some (sm', Inl Undefined_Behaviour))
   \<and> m_currentTask (NewAssignmentQueue [] sm) = Some t"
  by (auto simp: NewAssignmentQueue_def taskkey_eq_def AdvanceStateMachine_def advance_performing_def
      task_key_def getTaskKey_def)

text \<open>
  A signal that comes when the machine does not wait for one is kept, and lets a later task start without
  the consent of the auction.
\<close>

theorem early_signal_kept:
  "(AdvanceStateMachine G origin now vs sm = Some (sm', Inr r) \<longrightarrow>
      m_currentState sm \<in> {Idle, Refuel, Transition, PerformingTask, Complete, Abort} \<longrightarrow>
      m_auctionHasSignaled sm' = m_auctionHasSignaled sm)
   \<and> (m_currentState sm = WaitForAuction_Start \<and> m_auctionHasSignaled sm \<and> m_currentTask sm \<noteq> None \<longrightarrow>
      (\<exists>sm'. AdvanceStateMachine G origin now vs sm = Some (sm', Inr (True, True))
         \<and> m_currentState sm' = PerformingTask))"
  by (cases "m_currentState sm")
    (auto simp: AdvanceStateMachine_def advance_idle_def advance_transition_def advance_performing_def
      advance_waiting_def enter_def RefuelNeeded_def Let_def
      split: if_splits option.splits list.splits sum.splits prod.splits bool.splits)

end
