(* ===== verification/Task_Management.thy ===== *)
theory Task_Management
  imports Tasking Registry
begin

text \<open>
  The module that drives the tasking state machine (\<open>ModuleTaskManagement\<close> in
  \<open>src/src/module_task_management/module_task_management.{h,cpp}\<close>): which assignments count as stable,
  what it makes of the auction's answers, and one round of its loop. What it sends is logged: statuses to
  the auction and orders to the vehicle.

  The flags \<open>newState\<close> and \<open>newCommand\<close> of the loop are not initialised; they are \<open>None\<close> until a step of
  the state machine writes them, and reading them before that has no meaning.
\<close>

section \<open>State\<close>

datatype TaskStatusType = Started | Aborted | Completed

datatype VehicleOrder = Order_Arm | Order_Takeoff dbl | Order_GoTo Command | Order_General Command

record ModuleTaskManagement =
  own_characteristic :: ModuleCharacteristic
  vehicleID :: int
  auctionModule :: "ModuleCharacteristic option"
  m_assignedTasks :: "Task list"
  m_stableAssignedTasks :: "Task list"
  m_assignmentTime :: "(TaskKey, etime) umap"
  m_stateMachine :: TaskingStateMachine
  m_vehicleState :: VehicleState
  m_hasNewAssignments :: bool
  m_assignmentCommandDelay :: int
  m_takeoffAltitude :: dbl
  m_defaultAltitude :: dbl
  m_flightMode :: string
  signaled :: bool                    \<comment> \<open>\<open>m_auctionHasSignaled\<close>\<close>
  m_auctionSignalOK :: "bool option"  \<comment> \<open>not initialised\<close>
  newState :: "bool option"
  newCommand :: "bool option"
  statuses :: "(TaskStatusType \<times> TaskKey) list"
  orders :: "VehicleOrder list"

definition ModuleTaskManagement_new :: "ModuleCharacteristic \<Rightarrow> int \<Rightarrow> ModuleTaskManagement" where
  "ModuleTaskManagement_new c i = \<lparr>own_characteristic = c, vehicleID = i, auctionModule = None,
     m_assignedTasks = [], m_stableAssignedTasks = [], m_assignmentTime = [],
     m_stateMachine = TaskingStateMachine_new, m_vehicleState = VehicleState_new,
     m_hasNewAssignments = False, m_assignmentCommandDelay = 5000000, m_takeoffAltitude = Fin 2,
     m_defaultAltitude = Fin 10, m_flightMode = ''UNKNOWN'', signaled = False, m_auctionSignalOK = None, newState = None, newCommand = None, statuses = [],
     orders = []\<rparr>"

section \<open>Configuration\<close>

text \<open>The parameters of the configuration; all but the vehicle are optional.\<close>

record ModuleParameters =
  p_VehicleID :: int
  p_AssignmentCommandDelay :: "int option"
  p_RequiredDistanceToTarget :: "dbl option"
  p_MinTurnRadius :: "dbl option"
  p_NominalSpeed :: "dbl option"
  p_NominalClimbRate :: "dbl option"
  p_NominalAcceleration :: "dbl option"
  p_DefaultAltitude :: "dbl option"
  p_TakeoffAltitude :: "dbl option"
  p_CanFly :: "bool option"
  p_CanBeStationary :: "bool option"

definition decompose_with ::
  "('a \<Rightarrow> TaskDecomposer \<Rightarrow> TaskDecomposer) \<Rightarrow> 'a option \<Rightarrow> ModuleTaskManagement \<Rightarrow> ModuleTaskManagement" where
  "decompose_with set_field x m = (case x of
     None \<Rightarrow> m
   | Some v \<Rightarrow> m\<lparr>m_stateMachine := (m_stateMachine m)
       \<lparr>m_taskDecomposer := set_field v (m_taskDecomposer (m_stateMachine m))\<rparr>\<rparr>)"

text \<open>The delay is given in milliseconds; its product is an \<open>int\<close>.\<close>

definition ConfigureModule ::
  "ModuleParameters \<Rightarrow> ModuleTaskManagement \<Rightarrow> (ModuleTaskManagement, unit) outcome" where
  "ConfigureModule params m =
     (let m = m\<lparr>vehicleID := p_VehicleID params\<rparr>;
          m' = (case p_AssignmentCommandDelay params of
             None \<Rightarrow> m | Some x \<Rightarrow> m\<lparr>m_assignmentCommandDelay := 1000 * x\<rparr>)
      in if \<not> (- (2 ^ 31) \<le> m_assignmentCommandDelay m' \<and> m_assignmentCommandDelay m' < 2 ^ 31)
         then (m, Inl Undefined_Behaviour)
         else
     let m = m';
         m = decompose_with setRequiredDistanceToTarget (p_RequiredDistanceToTarget params) m;
         m = decompose_with setMinTurnRadius (p_MinTurnRadius params) m;
         m = decompose_with setNominalSpeed (p_NominalSpeed params) m;
         m = decompose_with setNominalClimbRate (p_NominalClimbRate params) m;
         m = decompose_with setNominalAcceleration (p_NominalAcceleration params) m;
         m = (case p_DefaultAltitude params of None \<Rightarrow> m | Some x \<Rightarrow> m\<lparr>m_defaultAltitude := x\<rparr>);
         m = decompose_with setDefaultAltitude (Some (m_defaultAltitude m)) m;
         m = (case p_TakeoffAltitude params of None \<Rightarrow> m | Some x \<Rightarrow> m\<lparr>m_takeoffAltitude := x\<rparr>);
         m = decompose_with setTakeoffAltitude (Some (m_takeoffAltitude m)) m;
         m = decompose_with setCanFly (p_CanFly params) m;
         m = decompose_with setCanBeStationary (p_CanBeStationary params) m
     in (m, Inr ()))"

section \<open>The state of the vehicle\<close>

text \<open>
  The components of the vehicle's topic in the store, as they are read into new objects; positions with
  whether their altitude is set.
\<close>

record VehicleData =
  vd_globalPosition :: "GlobalPosition \<times> bool"
  vd_globalPositionEx :: "GlobalPosition \<times> bool"
  vd_localVelocity :: LocalPosition
  vd_attitude :: StateAttitude
  vd_battery :: Battery
  vd_systemArm :: bool
  vd_flightMode :: string

definition local_position ::
  "geometry \<Rightarrow> GlobalPosition \<Rightarrow> dbl \<Rightarrow> GlobalPosition \<times> bool \<Rightarrow> LocalPosition" where
  "local_position G origin z p =
     (let tempLocal = toLocal G origin (fst p)
      in if \<not> snd p then tempLocal\<lparr>position_z := z\<rparr> else tempLocal)"

text \<open>
  One updated component, with the clock then read. Local positions leave the loop before they are read; a
  global velocity and an unknown component change the time only.
\<close>

definition update_component ::
  "geometry \<Rightarrow> GlobalPosition \<Rightarrow> VehicleData \<Rightarrow> string \<times> etime \<Rightarrow> ModuleTaskManagement \<Rightarrow> ModuleTaskManagement" where
  "update_component G origin data c m =
     (let vs = m_vehicleState m; name = fst c;
          stamp = (\<lambda>m. m\<lparr>m_vehicleState := setTimestamp (snd c) (m_vehicleState m)\<rparr>)
      in if name = ''localPosition'' then m
         else if name = ''localPositionEx'' then m
         else if name = ''globalPosition'' then stamp (m\<lparr>m_vehicleState :=
           setPosition (local_position G origin (m_defaultAltitude m) (vd_globalPosition data)) vs\<rparr>)
         else if name = ''globalPositionEx'' then stamp (m\<lparr>m_vehicleState :=
           setPosition (local_position G origin (m_defaultAltitude m) (vd_globalPositionEx data)) vs\<rparr>)
         else if name = ''localVelocity'' then stamp (m\<lparr>m_vehicleState := setVelocity (vd_localVelocity data) vs\<rparr>)
         else if name = ''attitude'' then stamp (m\<lparr>m_vehicleState := setAttitude (vd_attitude data) vs\<rparr>)
         else if name = ''battery'' then stamp (m\<lparr>m_vehicleState := setBattery (vd_battery data) vs\<rparr>)
         else if name = ''systemArm'' then stamp (m\<lparr>m_vehicleState := setSystemArm (vd_systemArm data) vs\<rparr>)
         else if name = ''system_operating_mode'' then stamp (m\<lparr>m_flightMode := vd_flightMode data\<rparr>)
         else stamp m)"

text \<open>\<open>data\<close> is what the store holds of a vehicle, or the exception when it holds nothing.\<close>

definition UpdateVehicleState ::
  "geometry \<Rightarrow> GlobalPosition \<Rightarrow> VehicleRegistry \<Rightarrow> (ModuleCharacteristic \<Rightarrow> cpp_error + VehicleData)
     \<Rightarrow> (string \<times> etime) list \<Rightarrow> ModuleTaskManagement \<Rightarrow> (ModuleTaskManagement, unit) outcome" where
  "UpdateVehicleState G origin registry data componentsUpdated m =
     (let i = word_of_int (vehicleID m)
      in if \<not> HasMavlinkID i registry then (m, Inr ())
         else case GetVehicleFromMAVLINKID i registry of
                Inl e \<Rightarrow> (m, Inl e)
              | Inr vehicle \<Rightarrow>
                  (case data vehicle of
                     Inl e \<Rightarrow> (m, Inl e)
                   | Inr read \<Rightarrow> (fold (update_component G origin read) componentsUpdated m, Inr ())))"

section \<open>Assignments\<close>

text \<open>
  The loop over the assigned tasks: the assignment times, the keys seen and the stable tasks. The delay is
  converted to the unsigned type of the time difference.
\<close>

fun stable_pass ::
  "etime \<Rightarrow> int \<Rightarrow> Task list \<Rightarrow> (TaskKey, etime) umap \<times> TaskKey list \<times> Task list
     \<Rightarrow> (TaskKey, etime) umap \<times> TaskKey list \<times> Task list" where
  "stable_pass now delay [] (since, current, kept) = (since, current, kept)"
| "stable_pass now delay (task # tasks) (since, current, kept) = (case map_of since (task_key task) of
     None \<Rightarrow> stable_pass now delay tasks
       (um_insert (task_key task) now since, List.insert (task_key task) current, kept)
   | Some t \<Rightarrow> stable_pass now delay tasks
       (since, List.insert (task_key task) current,
        if time_minus now t > word_of_int delay then kept @ [task] else kept))"

definition UpdateStableTaskAssignments :: "etime \<Rightarrow> ModuleTaskManagement \<Rightarrow> ModuleTaskManagement" where
  "UpdateStableTaskAssignments now m = (case stable_pass now (m_assignmentCommandDelay m)
       (m_assignedTasks m) (m_assignmentTime m, [], []) of
     (since, current, kept) \<Rightarrow> m\<lparr>m_stableAssignedTasks := kept,
       m_assignmentTime := filter (\<lambda>e. fst e \<in> set current) since, m_hasNewAssignments := False\<rparr>)"

text \<open>
  \<open>UpdateAssignmentQueue\<close>: the assignment in the sender's topic is for one vehicle; the first component
  that is an assignment for another vehicle ends the method.
\<close>

fun assignment_pass ::
  "string list \<Rightarrow> ModuleCharacteristic \<Rightarrow> int \<times> Task list \<Rightarrow> ModuleTaskManagement
     \<Rightarrow> ModuleTaskManagement \<times> bool" where
  "assignment_pass [] sender assignment m = (m, True)"
| "assignment_pass (c # cs) sender assignment m =
     (if c = ''task_assignment''
      then if fst assignment \<noteq> vehicleID m then (m, False)
           else assignment_pass cs sender assignment
             (m\<lparr>auctionModule := Some sender, m_assignedTasks := snd assignment\<rparr>)
      else assignment_pass cs sender assignment m)"

definition UpdateAssignmentQueue ::
  "string list \<Rightarrow> ModuleCharacteristic \<Rightarrow> int \<times> Task list \<Rightarrow> ModuleTaskManagement \<Rightarrow> ModuleTaskManagement" where
  "UpdateAssignmentQueue componentsUpdated sender assignment m =
     (let (m, cont) = assignment_pass componentsUpdated sender assignment m
      in if cont then m\<lparr>m_hasNewAssignments := True\<rparr> else m)"

text \<open>
  \<open>NewTopicData\<close>: an answer of the auction, the vehicle and whether it agrees (\<open>None\<close> if the datagram
  holds no status). That it agrees is noted, but nothing reads the note.
\<close>

definition NewTopicData ::
  "string \<Rightarrow> ModuleCharacteristic option \<Rightarrow> (int \<times> bool) option \<Rightarrow> ModuleTaskManagement \<Rightarrow> ModuleTaskManagement" where
  "NewTopicData topicName target status m =
     (if target \<noteq> None \<and> the target \<noteq> own_characteristic m then m
      else if topicName = ''VehicleTaskStatus''
      then (case status of
              None \<Rightarrow> m
            | Some (vehicle, success) \<Rightarrow>
                if target = None \<and> vehicle \<noteq> vehicleID m then m
                else m\<lparr>m_auctionSignalOK := Some success, signaled := True\<rparr>)
      else m)"

section \<open>The loop\<close>

definition UpdateTaskStatus :: "ModuleTaskManagement \<Rightarrow> (ModuleTaskManagement, unit) outcome" where
  "UpdateTaskStatus m =
     (let report = (\<lambda>status. case m_currentTask (m_stateMachine m) of
            None \<Rightarrow> (m, Inl Undefined_Behaviour)
          | Some task \<Rightarrow> (m\<lparr>statuses := statuses m @ [(status, task_key task)]\<rparr>, Inr ()))
      in case m_currentState (m_stateMachine m) of
           WaitForAuction_Start \<Rightarrow> report Started
         | WaitForAuction_Complete \<Rightarrow> report Completed
         | WaitForAuction_Abort \<Rightarrow> report Aborted
         | _ \<Rightarrow> (m, Inr ()))"

definition take_assignments :: "etime \<Rightarrow> ModuleTaskManagement \<Rightarrow> ModuleTaskManagement" where
  "take_assignments now m =
     (if m_hasNewAssignments m
      then let m = UpdateStableTaskAssignments now m
           in m\<lparr>m_stateMachine := NewAssignmentQueue (m_stableAssignedTasks m) (m_stateMachine m)\<rparr>
      else m)"

definition take_signal :: "ModuleTaskManagement \<Rightarrow> ModuleTaskManagement" where
  "take_signal m =
     (if signaled m
      then m\<lparr>m_stateMachine := ReceiveAuctionSignal (m_stateMachine m), signaled := False\<rparr>
      else m)"

definition take_step ::
  "geometry \<Rightarrow> GlobalPosition \<Rightarrow> etime \<Rightarrow> ModuleTaskManagement \<Rightarrow> (ModuleTaskManagement, unit) outcome option" where
  "take_step G origin now m =
     (if positionValid (m_vehicleState m)
      then map_option (\<lambda>(sm, r). case r of
             Inl e \<Rightarrow> (m\<lparr>m_stateMachine := sm\<rparr>, Inl e)
           | Inr (st, cmd) \<Rightarrow> (m\<lparr>m_stateMachine := sm, newState := Some st, newCommand := Some cmd\<rparr>, Inr ()))
         (AdvanceStateMachine G origin now (m_vehicleState m) (m_stateMachine m))
      else Some (m, Inr ()))"

definition report_state :: "ModuleTaskManagement \<Rightarrow> (ModuleTaskManagement, unit) outcome" where
  "report_state m = (case newState m of
     None \<Rightarrow> (m, Inl Undefined_Behaviour)
   | Some True \<Rightarrow> UpdateTaskStatus m
   | Some False \<Rightarrow> (m, Inr ()))"

text \<open>
  The vehicle is armed first if need be: the orders to arm and to take off are repeated until the state of
  the vehicle, which another thread updates, says that it is armed; \<open>rounds\<close> is how often. Then the
  command is issued.
\<close>

definition armed :: "VehicleState \<Rightarrow> bool" where
  "armed vs \<longleftrightarrow> systemArmValid vs \<and> vs_systemArm vs"

definition arm_vehicle :: "nat \<Rightarrow> ModuleTaskManagement \<Rightarrow> ModuleTaskManagement" where
  "arm_vehicle rounds m =
     (if \<not> armed (m_vehicleState m) \<and> m_currentState (m_stateMachine m) \<notin> {Idle, Refuel}
      then m\<lparr>newCommand := Some True, m_vehicleState := setSystemArm True (m_vehicleState m),
             orders := orders m @ concat (replicate rounds [Order_Arm, Order_Takeoff (m_takeoffAltitude m)])\<rparr>
      else m)"

definition issue_command :: "ModuleTaskManagement \<Rightarrow> (ModuleTaskManagement, unit) outcome" where
  "issue_command m = (case newCommand m of
     None \<Rightarrow> (m, Inl Undefined_Behaviour)
   | Some False \<Rightarrow> (m, Inr ())
   | Some True \<Rightarrow>
       (case GetNextVehicleCommand (m_stateMachine m) of
          Inl e \<Rightarrow> (m, Inl e)
        | Inr None \<Rightarrow> (m, Inr ())
        | Inr (Some Spatial_RTL) \<Rightarrow> (m\<lparr>orders := orders m @ [Order_General Spatial_RTL]\<rparr>, Inr ())
        | Inr (Some cmd) \<Rightarrow> (m\<lparr>orders := orders m @ [Order_GoTo cmd]\<rparr>, Inr ())))"

definition TaskManagementLoop ::
  "geometry \<Rightarrow> GlobalPosition \<Rightarrow> etime \<Rightarrow> nat \<Rightarrow> ModuleTaskManagement
     \<Rightarrow> (ModuleTaskManagement, unit) outcome option" where
  "TaskManagementLoop G origin now rounds m =
     map_option (\<lambda>r. obind r (\<lambda>m u. obind (report_state m) (\<lambda>m u. issue_command (arm_vehicle rounds m))))
       (take_step G origin now (take_signal (take_assignments now m)))"

section \<open>Stable assignments\<close>

text \<open>
  A reference definition over the updates, newest first, each with its time and the keys then assigned:
  since when a key has been assigned without a break.
\<close>

fun assigned_since :: "TaskKey \<Rightarrow> (etime \<times> TaskKey set) list \<Rightarrow> etime option" where
  "assigned_since key [] = None"
| "assigned_since key ((now, keys) # us) =
     (if key \<notin> keys then None
      else case assigned_since key us of None \<Rightarrow> Some now | Some t \<Rightarrow> Some t)"

definition update_all :: "(etime \<times> Task list) list \<Rightarrow> ModuleTaskManagement \<Rightarrow> ModuleTaskManagement" where
  "update_all us = fold (\<lambda>(now, tasks) m. UpdateStableTaskAssignments now (m\<lparr>m_assignedTasks := tasks\<rparr>)) us"

lemma stable_pass_outcome:
  "stable_pass now delay tasks (since, current, kept) = (since', current', kept') \<Longrightarrow>
     kept' = kept @ filter (\<lambda>t. \<exists>t0. map_of since (task_key t) = Some t0 \<and> time_minus now t0 > word_of_int delay) tasks
   \<and> set current' = set current \<union> task_key ` set tasks
   \<and> (\<forall>k. map_of since' k = (case map_of since k of
        None \<Rightarrow> if k \<in> task_key ` set tasks then Some now else None | Some t0 \<Rightarrow> Some t0))"
proof (induction tasks arbitrary: since current kept)
  case Nil
  then show ?case by (auto split: option.split)
next
  case (Cons task tasks)
  have self: "\<not> time_minus now now > word_of_int delay" by simp
  show ?case
  proof (cases "map_of since (task_key task)")
    case None
    let ?a = "um_insert (task_key task) now since"
    have "filter (\<lambda>t. \<exists>t0. map_of ?a (task_key t) = Some t0 \<and> time_minus now t0 > word_of_int delay) tasks
        = filter (\<lambda>t. \<exists>t0. map_of since (task_key t) = Some t0 \<and> time_minus now t0 > word_of_int delay) tasks"
      using None self by (intro filter_cong) auto
    then show ?thesis
      using Cons.IH [of ?a "List.insert (task_key task) current" kept] Cons.prems None
      by (auto split: option.splits)
  next
    case (Some t0)
    then show ?thesis
      using Cons.IH [of since "List.insert (task_key task) current"
          "if time_minus now t0 > word_of_int delay then kept @ [task] else kept"] Cons.prems
      by (auto split: option.splits if_splits)
  qed
qed

lemma map_of_filter_keys: "map_of (filter (\<lambda>e. fst e \<in> K) xs) k = (if k \<in> K then map_of xs k else None)"
  by (induction xs) auto

lemma update_stable:
  "m_stableAssignedTasks (UpdateStableTaskAssignments now m) = filter (\<lambda>t. \<exists>t0.
      map_of (m_assignmentTime m) (task_key t) = Some t0
      \<and> time_minus now t0 > word_of_int (m_assignmentCommandDelay m)) (m_assignedTasks m)
   \<and> map_of (m_assignmentTime (UpdateStableTaskAssignments now m)) k =
      (if k \<notin> task_key ` set (m_assignedTasks m) then None
       else case map_of (m_assignmentTime m) k of None \<Rightarrow> Some now | Some t0 \<Rightarrow> Some t0)
   \<and> m_assignmentCommandDelay (UpdateStableTaskAssignments now m) = m_assignmentCommandDelay m"
proof -
  obtain since current kept where p: "stable_pass now (m_assignmentCommandDelay m) (m_assignedTasks m)
      (m_assignmentTime m, [], []) = (since, current, kept)" by (metis prod_cases3)
  from stable_pass_outcome [OF this] show ?thesis
    by (auto simp: UpdateStableTaskAssignments_def p map_of_filter_keys split: option.splits)
qed

lemma update_all_times:
  "m_assignmentTime m = [] \<Longrightarrow>
     map_of (m_assignmentTime (update_all us m)) k
       = assigned_since k (rev (map (\<lambda>(now, tasks). (now, task_key ` set tasks)) us))
   \<and> m_assignmentCommandDelay (update_all us m) = m_assignmentCommandDelay m"
proof (induction us rule: rev_induct)
  case Nil
  then show ?case by (simp add: update_all_def)
next
  case (snoc u us)
  obtain now tasks where u: "u = (now, tasks)" by (cases u)
  have "update_all (us @ [u]) m
      = UpdateStableTaskAssignments now ((update_all us m)\<lparr>m_assignedTasks := tasks\<rparr>)"
    by (simp add: update_all_def u)
  then show ?case
    using snoc update_stable [of now "(update_all us m)\<lparr>m_assignedTasks := tasks\<rparr>" k]
    by (simp add: u image_iff)
qed

section \<open>Histories of the module\<close>

lemma decompose_with_fields [simp]:
  "m_assignedTasks (decompose_with f x m) = m_assignedTasks m"
  "m_vehicleState (decompose_with f x m) = m_vehicleState m"
  "newState (decompose_with f x m) = newState m"
  by (simp_all add: decompose_with_def split: option.split)

lemma decompose_with_machine:
  assumes "\<And>v td. taskDataCache (f v td) = taskDataCache td" "machine_ok (m_stateMachine m)"
  shows "machine_ok (m_stateMachine (decompose_with f x m))"
  using assms by (simp add: decompose_with_def machine_ok_def split: option.split)

lemma update_components:
  "m_assignedTasks (fold (update_component G origin data) cs m) = m_assignedTasks m
   \<and> m_stateMachine (fold (update_component G origin data) cs m) = m_stateMachine m
   \<and> newState (fold (update_component G origin data) cs m) = newState m
   \<and> (positionValid (m_vehicleState (fold (update_component G origin data) cs m)) \<longleftrightarrow>
        positionValid (m_vehicleState m) \<or> (\<exists>c \<in> fst ` set cs. c \<in> {''globalPosition'', ''globalPositionEx''}))"
  by (induction cs arbitrary: m)
    (auto simp: update_component_def Let_def setPosition_def setVelocity_def setAttitude_def
      setBattery_def setSystemArm_def setTimestamp_def)

inductive management_reach :: "geometry \<Rightarrow> ModuleTaskManagement \<Rightarrow> bool" for G where
  start: "management_reach G (ModuleTaskManagement_new c i)"
| answer: "management_reach G m \<Longrightarrow> management_reach G (NewTopicData topic target status m)"
| assign: "management_reach G m \<Longrightarrow> \<forall>t \<in> set (snd assignment). task_ok t \<Longrightarrow>
    management_reach G (UpdateAssignmentQueue cs sender assignment m)"
| configure: "management_reach G m \<Longrightarrow> management_reach G (fst (ConfigureModule params m))"
| vehicle: "management_reach G m \<Longrightarrow>
    management_reach G (fst (UpdateVehicleState G origin registry data cs m))"
| round: "management_reach G m \<Longrightarrow> TaskManagementLoop G origin now rounds m = Some (m', Inr ()) \<Longrightarrow>
    management_reach G m'"

definition module_ok :: "ModuleTaskManagement \<Rightarrow> bool" where
  "module_ok m \<longleftrightarrow> machine_ok (m_stateMachine m) \<and> (\<forall>t \<in> set (m_assignedTasks m). task_ok t)
     \<and> (newState m \<noteq> None \<longrightarrow> positionValid (m_vehicleState m))"

lemma configure_ok: "module_ok m \<Longrightarrow> module_ok (fst (ConfigureModule params m))"
  by (auto simp: ConfigureModule_def module_ok_def Let_def decomposer_setters
      intro!: decompose_with_machine split: option.split)

lemma take_assignments_ok:
  assumes "module_ok m"
  shows "module_ok (take_assignments now m)
    \<and> m_vehicleState (take_assignments now m) = m_vehicleState m \<and> newState (take_assignments now m) = newState m"
proof -
  let ?m = "UpdateStableTaskAssignments now m"
  have same: "m_stateMachine ?m = m_stateMachine m" "m_assignedTasks ?m = m_assignedTasks m"
    "m_vehicleState ?m = m_vehicleState m" "newState ?m = newState m"
    by (auto simp: UpdateStableTaskAssignments_def split: prod.split)
  have "set (m_stableAssignedTasks ?m) \<subseteq> set (m_assignedTasks m)"
    using update_stable [of now m] by simp
  then have "machine_ok (NewAssignmentQueue (m_stableAssignedTasks ?m) (m_stateMachine m))"
    using assms by (intro machine_ok_assign) (auto simp: module_ok_def)
  then show ?thesis using assms by (simp add: take_assignments_def module_ok_def same Let_def)
qed

lemma take_signal_ok:
  "module_ok m \<Longrightarrow> module_ok (take_signal m) \<and> m_vehicleState (take_signal m) = m_vehicleState m
     \<and> newState (take_signal m) = newState m"
  by (simp add: take_signal_def module_ok_def machine_ok_signal)

text \<open>What a step leaves behind when it enters a state.\<close>

lemma advance_leaves:
  assumes "AdvanceStateMachine G origin now vs sm = Some (sm', Inr (st, cmd))" "machine_ok sm"
  shows "(st \<longrightarrow> m_currentState sm' \<in> {WaitForAuction_Start, WaitForAuction_Complete, WaitForAuction_Abort}
            \<longrightarrow> m_currentTask sm' \<noteq> None)
     \<and> (m_currentState sm' = PerformingTask \<longrightarrow> m_currentTaskCommands sm' \<noteq> None)"
proof (cases "m_currentState sm = PerformingTask \<and> m_currentTask sm = None")
  case True
  then show ?thesis using assms advance_ok [OF assms(2), of G origin now vs] by simp
next
  case False
  have "m_currentTask sm \<noteq> None \<longrightarrow> m_currentState sm \<noteq> Transition \<longrightarrow> m_currentTaskCommands sm \<noteq> None"
    using assms(2) by (simp add: machine_ok_def)
  then show ?thesis
    using assms(1) False
    by (cases "m_currentState sm")
      (auto simp: AdvanceStateMachine_def advance_idle_def advance_transition_def advance_performing_def
        advance_waiting_def enter_def RefuelNeeded_def Let_def
        split: if_splits option.splits list.splits sum.splits prod.splits bool.splits)
qed

lemma report_ok:
  assumes "module_ok m" "newState m = Some st"
    and task: "st \<longrightarrow> m_currentState (m_stateMachine m)
        \<in> {WaitForAuction_Start, WaitForAuction_Complete, WaitForAuction_Abort}
      \<longrightarrow> m_currentTask (m_stateMachine m) \<noteq> None"
  shows "\<exists>m'. report_state m = (m', Inr ()) \<and> module_ok m' \<and> m_stateMachine m' = m_stateMachine m
    \<and> newCommand m' = newCommand m"
proof (cases st)
  case True
  show ?thesis
  proof (cases "m_currentState (m_stateMachine m)
        \<in> {WaitForAuction_Start, WaitForAuction_Complete, WaitForAuction_Abort}")
    case waits: True
    then obtain t where "m_currentTask (m_stateMachine m) = Some t" using task True by blast
    then show ?thesis using assms(1,2) True waits
      by (auto simp: report_state_def UpdateTaskStatus_def module_ok_def)
  next
    case False
    then show ?thesis using assms(1,2) True
      by (cases "m_currentState (m_stateMachine m)")
        (simp_all add: report_state_def UpdateTaskStatus_def)
  qed
qed (use assms in \<open>simp add: report_state_def\<close>)

lemma issue_ok:
  assumes "module_ok m" "newCommand m = Some cmd"
    and "m_currentState (m_stateMachine m) = PerformingTask \<longrightarrow>
      m_currentTaskCommands (m_stateMachine m) \<noteq> None"
  shows "\<exists>m'. issue_command m = (m', Inr ()) \<and> module_ok m'"
proof -
  have "\<exists>c. GetNextVehicleCommand (m_stateMachine m) = Inr c"
    using assms(3) by (cases "m_currentState (m_stateMachine m)") (auto simp: GetNextVehicleCommand_def)
  then obtain c where "GetNextVehicleCommand (m_stateMachine m) = Inr c" by blast
  then show ?thesis
    using assms(1,2) by (auto simp: issue_command_def module_ok_def
        split: option.split bool.split Command.split)
qed

lemma round_outcome:
  assumes "module_ok m"
  shows "let m1 = take_signal (take_assignments now m)
    in if \<not> positionValid (m_vehicleState m)
          \<or> m_currentState (m_stateMachine m1) = PerformingTask \<and> m_currentTask (m_stateMachine m1) = None
       then \<exists>m'. TaskManagementLoop G origin now rounds m = Some (m', Inl Undefined_Behaviour)
       else \<exists>m'. TaskManagementLoop G origin now rounds m = Some (m', Inr ()) \<and> module_ok m'"
proof -
  define m1 where "m1 = take_signal (take_assignments now m)"
  have m1: "module_ok m1" "m_vehicleState m1 = m_vehicleState m" "newState m1 = newState m"
    using take_assignments_ok [OF assms] take_signal_ok unfolding m1_def by metis+
  let ?sm = "m_stateMachine m1"
  have ok: "machine_ok ?sm" using m1(1) by (simp add: module_ok_def)
  show ?thesis
  proof (cases "positionValid (m_vehicleState m)")
    case False
    then have "newState m1 = None" using assms m1 by (auto simp: module_ok_def)
    then show ?thesis
      using False m1 by (simp add: TaskManagementLoop_def m1_def [symmetric] take_step_def report_state_def)
  next
    case pos: True
    show ?thesis
    proof (cases "m_currentState ?sm = PerformingTask \<and> m_currentTask ?sm = None")
      case True
      then show ?thesis
        using pos m1 advance_ok [OF ok, of G origin now "m_vehicleState m"]
        by (simp add: TaskManagementLoop_def m1_def [symmetric] take_step_def Let_def)
    next
      case False
      then obtain sm' st cmd where step: "AdvanceStateMachine G origin now (m_vehicleState m) ?sm
          = Some (sm', Inr (st, cmd))" "machine_ok sm'"
        using advance_ok [OF ok, of G origin now "m_vehicleState m"] by auto
      define m2 where "m2 = m1\<lparr>m_stateMachine := sm', newState := Some st, newCommand := Some cmd\<rparr>"
      have m2: "module_ok m2" using m1 pos step(2) by (simp add: m2_def module_ok_def)
      have "newState m2 = Some st" "m_stateMachine m2 = sm'" "newCommand m2 = Some cmd"
        by (simp_all add: m2_def)
      then obtain m3 where m3: "report_state m2 = (m3, Inr ())" "module_ok m3" "m_stateMachine m3 = sm'"
          "newCommand m3 = Some cmd"
        using report_ok [OF m2, of st] advance_leaves [OF step(1) ok] by auto
      define m4 where "m4 = arm_vehicle rounds m3"
      have m4: "module_ok m4" "m_stateMachine m4 = sm'"
        using m3 by (auto simp: m4_def arm_vehicle_def module_ok_def setSystemArm_def)
      have "\<exists>cmd'. newCommand m4 = Some cmd'"
        using m3 by (auto simp: m4_def arm_vehicle_def)
      then have "\<exists>m5. issue_command m4 = (m5, Inr ()) \<and> module_ok m5"
        using issue_ok [OF m4(1)] advance_leaves [OF step(1) ok] m4(2) by auto
      then show ?thesis
        using False pos m1(2) step(1) m3(1)
        by (auto simp: TaskManagementLoop_def m1_def [symmetric] take_step_def m2_def [symmetric]
            m4_def [symmetric] Let_def)
    qed
  qed
qed

definition ex_vehicles :: VehicleRegistry where
  "ex_vehicles = VehicleRegistry_new\<lparr>m_MAVLINKIDtoModule := [(3, \<lparr>MaceInstance = 1, ModuleID = 2\<rparr>)]\<rparr>"

definition ex_vehicle_data :: VehicleData where
  "ex_vehicle_data = \<lparr>vd_globalPosition = (GlobalPosition_new, True), vd_globalPositionEx = (GlobalPosition_new, True),
     vd_localVelocity = vs_velocity VehicleState_new, vd_attitude = vs_attitude VehicleState_new,
     vd_battery = vs_battery VehicleState_new, vd_systemArm = True, vd_flightMode = ''AUTO''\<rparr>"

section \<open>Properties\<close>

text \<open>
  C27: A task is handed to the state machine exactly when it has been assigned for longer than the delay:
  after any updates, the stable tasks are those assigned now whose assignment has lasted, without a break
  in the updates before, longer than the delay, in the order of the assignment. In particular a task is
  never stable in the update that first brings it.
\<close>

theorem stable_tasks_exact:
  "m_stableAssignedTasks (update_all (us @ [(now, tasks)]) (ModuleTaskManagement_new c i)) =
     filter (\<lambda>t. \<exists>t0. assigned_since (task_key t) (rev (map (\<lambda>(now, tasks). (now, task_key ` set tasks)) us))
          = Some t0 \<and> time_minus now t0 > 5000000) tasks"
proof -
  let ?m = "ModuleTaskManagement_new c i"
  have "m_assignmentTime ?m = []" "m_assignmentCommandDelay ?m = 5000000"
    by (simp_all add: ModuleTaskManagement_new_def)
  with update_all_times [OF this(1), of us] have all:
    "\<And>k. map_of (m_assignmentTime (update_all us ?m)) k
       = assigned_since k (rev (map (\<lambda>(now, tasks). (now, task_key ` set tasks)) us))"
    "m_assignmentCommandDelay (update_all us ?m) = 5000000" by auto
  have "update_all (us @ [(now, tasks)]) ?m
      = UpdateStableTaskAssignments now ((update_all us ?m)\<lparr>m_assignedTasks := tasks\<rparr>)"
    by (simp add: update_all_def)
  then show ?thesis
    using update_stable [of now "(update_all us ?m)\<lparr>m_assignedTasks := tasks\<rparr>"] all
    by (simp add: image_iff)
qed

lemma assignment_pass_ok:
  "module_ok m \<Longrightarrow> \<forall>t \<in> set (snd assignment). task_ok t \<Longrightarrow>
     module_ok (fst (assignment_pass cs sender assignment m))"
  by (induction cs sender assignment m rule: assignment_pass.induct) (auto simp: module_ok_def)

lemma reach_module_ok: "management_reach G m \<Longrightarrow> module_ok m"
proof (induction rule: management_reach.induct)
  case (start c i)
  then show ?case by (simp add: module_ok_def ModuleTaskManagement_new_def machine_ok_new)
next
  case (answer m topic target status)
  then show ?case by (auto simp: NewTopicData_def module_ok_def split: option.split)
next
  case (assign m assignment cs sender)
  then show ?case
    using assignment_pass_ok [of m assignment cs sender]
    by (auto simp: UpdateAssignmentQueue_def module_ok_def split: prod.split)
next
  case (configure m params)
  then show ?case by (simp add: configure_ok)
next
  case (vehicle m origin registry data cs)
  then show ?case
    by (auto simp: UpdateVehicleState_def module_ok_def update_components Let_def split: sum.split)
next
  case (round m origin now rounds m')
  then show ?case
    using round_outcome [OF round.IH, of now G origin rounds] by (auto simp: Let_def split: if_splits)
qed

text \<open>
  C20: A round of the loop fails in two ways only. After any history of answers, assignments of sound tasks
  (\<open>task_ok\<close>: the payload fits the type, and a survey has at least two vertices), configurations,
  vehicle updates and rounds that succeed, the next round succeeds unless the vehicle has not yet reported a
  position, when it reads flags that were never written, or the task being performed has been taken away by the
  assignments taken in this round, when it dereferences a null pointer.
\<close>

theorem management_round_fails_iff:
  assumes "management_reach G m"
  shows "let sm = m_stateMachine (take_signal (take_assignments now m))
    in if \<not> positionValid (m_vehicleState m) \<or> m_currentState sm = PerformingTask \<and> m_currentTask sm = None
       then \<exists>m'. TaskManagementLoop G origin now rounds m = Some (m', Inl Undefined_Behaviour)
       else \<exists>m'. TaskManagementLoop G origin now rounds m = Some (m', Inr ())"
  using round_outcome [OF reach_module_ok [OF assms], of now G origin rounds]
  by (auto simp: Let_def split: if_splits)

theorem management_round_fails_iff_witness:
  "\<exists>m'. TaskManagementLoop flat GlobalPosition_new etime_zero 1 (fst (UpdateVehicleState flat
      GlobalPosition_new ex_vehicles (\<lambda>c. Inr ex_vehicle_data) [(''globalPosition'', etime_zero)]
      (ModuleTaskManagement_new \<lparr>MaceInstance = 1, ModuleID = 4\<rparr> 3))) = Some (m', Inr ())"
proof -
  have "management_reach flat (fst (UpdateVehicleState flat GlobalPosition_new ex_vehicles
      (\<lambda>c. Inr ex_vehicle_data) [(''globalPosition'', etime_zero)]
      (ModuleTaskManagement_new \<lparr>MaceInstance = 1, ModuleID = 4\<rparr> 3)))"
    by (intro management_reach.vehicle management_reach.start)
  from management_round_fails_iff [OF this, of etime_zero GlobalPosition_new 1] show ?thesis
    by (simp add: take_signal_def take_assignments_def ModuleTaskManagement_new_def setPosition_def
        TaskingStateMachine_new_def UpdateVehicleState_def HasMavlinkID_def GetVehicleFromMAVLINKID_def
        ex_vehicles_def ex_vehicle_data_def update_component_def setTimestamp_def Let_def)
qed

text \<open>
  A refusal by the auction counts as its consent: the module raises the same signal whatever the answer
  says.
\<close>

theorem refusal_counts_as_consent:
  "m_stateMachine (take_signal (NewTopicData ''VehicleTaskStatus'' None (Some (vehicleID m, ok)) m))
     = ReceiveAuctionSignal (m_stateMachine m)"
  by (simp add: NewTopicData_def take_signal_def)

end
