(* ===== verification/Topics.thy ===== *)
theory Topics
  imports Task_Management Mission Bid_Bundle
begin

text \<open>
  Topics: the data the modules of an instance exchange (\<open>src/src/mace_core/topic.h\<close>). A datagram maps names
  to values (terminals) and to datagrams (non-terminals); a component of a topic writes itself to a
  datagram and reads itself back; a topic puts components into the datagram that is sent. The data store
  keeps the latest value of every component (\<open>MaceData\<close> in \<open>src/src/mace_core/mace_data.h\<close>).

  Terminals are kept as untyped pointers and read by a cast that is not checked: a value of another type
  has no meaning when it is read. The shared datagrams behind non-terminals are not written after they are
  added, so a datagram is a value. The contract of a component, that it reads back what it wrote, is the
  locale \<open>topic_component\<close>; every component class below interprets it.
\<close>

section \<open>Datagrams\<close>

datatype 'v TopicDatagram = Datagram
  (m_TerminalValues: "(string \<times> 'v) list")
  (m_NonTerminalValues: "(string \<times> 'v TopicDatagram) list")

definition TopicDatagram_new :: "'v TopicDatagram" where
  "TopicDatagram_new = Datagram [] []"

definition AddTerminal :: "string \<Rightarrow> 'v \<Rightarrow> 'v TopicDatagram \<Rightarrow> 'v TopicDatagram" where
  "AddTerminal str value d = Datagram (um_insert str value (m_TerminalValues d)) (m_NonTerminalValues d)"

text \<open>\<open>cast\<close> is the type that is asked for, as a partial projection.\<close>

definition GetTerminal :: "('v \<Rightarrow> 'a option) \<Rightarrow> string \<Rightarrow> 'v TopicDatagram \<Rightarrow> cpp_error + 'a" where
  "GetTerminal cast str d = (case map_of (m_TerminalValues d) str of
     None \<Rightarrow> Inl (Runtime_Error ''Given string does not exists as a value in this topic data'')
   | Some v \<Rightarrow> (case cast v of None \<Rightarrow> Inl Undefined_Behaviour | Some x \<Rightarrow> Inr x))"

definition AddNonTerminal :: "string \<Rightarrow> 'v TopicDatagram \<Rightarrow> 'v TopicDatagram \<Rightarrow> 'v TopicDatagram" where
  "AddNonTerminal str values d =
     Datagram (m_TerminalValues d) (um_insert str values (m_NonTerminalValues d))"

definition GetNonTerminal :: "string \<Rightarrow> 'v TopicDatagram \<Rightarrow> cpp_error + 'v TopicDatagram" where
  "GetNonTerminal str d = (case map_of (m_NonTerminalValues d) str of
     None \<Rightarrow> Inl Out_Of_Range | Some values \<Rightarrow> Inr values)"

definition HasNonTerminal :: "string \<Rightarrow> 'v TopicDatagram \<Rightarrow> bool" where
  "HasNonTerminal str d = (if map_of (m_NonTerminalValues d) str = None then False else True)"

lemma HasNonTerminal_iff [simp]:
  "HasNonTerminal str d \<longleftrightarrow> map_of (m_NonTerminalValues d) str \<noteq> None"
  by (simp add: HasNonTerminal_def)

definition ListTerminals :: "'v TopicDatagram \<Rightarrow> string list" where
  "ListTerminals d = map fst (m_TerminalValues d)"

definition ListNonTerminals :: "'v TopicDatagram \<Rightarrow> string list" where
  "ListNonTerminals d = map fst (m_NonTerminalValues d)"

definition isEmpty :: "'v TopicDatagram \<Rightarrow> bool" where
  "isEmpty d = (if length (m_TerminalValues d) = 0 \<and> length (m_NonTerminalValues d) = 0 then True else False)"

text \<open>\<open>Merge\<close> inserts, so the first datagram wins; \<open>MergeDatagram\<close> overwrites.\<close>

definition insert_all :: "('k, 'v) umap \<Rightarrow> ('k, 'v) umap \<Rightarrow> ('k, 'v) umap" where
  "insert_all es m = fold (\<lambda>(k, v). um_insert k v) es m"

definition Merge :: "'v TopicDatagram \<Rightarrow> 'v TopicDatagram \<Rightarrow> 'v TopicDatagram" where
  "Merge merge1 merge2 = Datagram
     (insert_all (m_TerminalValues merge2) (insert_all (m_TerminalValues merge1) []))
     (insert_all (m_NonTerminalValues merge2) (insert_all (m_NonTerminalValues merge1) []))"

definition overwrite_all :: "('k, 'v) umap \<Rightarrow> ('k, 'v) umap \<Rightarrow> ('k, 'v) umap" where
  "overwrite_all es m =
     fold (\<lambda>(k, v) m. if map_of m k = None then um_insert k v m else um_put k v m) es m"

definition MergeDatagram :: "'v TopicDatagram \<Rightarrow> 'v TopicDatagram \<Rightarrow> 'v TopicDatagram" where
  "MergeDatagram dataToMerge d = Datagram
     (overwrite_all (m_TerminalValues dataToMerge) (m_TerminalValues d))
     (overwrite_all (m_NonTerminalValues dataToMerge) (m_NonTerminalValues d))"

section \<open>Components and topics\<close>

definition SetComponent ::
  "string \<Rightarrow> ('c \<Rightarrow> 'v TopicDatagram) \<Rightarrow> 'c \<Rightarrow> 'v TopicDatagram \<Rightarrow> 'v TopicDatagram" where
  "SetComponent name generate component d = AddNonTerminal name (generate component) d"

definition GetComponent ::
  "string \<Rightarrow> ('v TopicDatagram \<Rightarrow> 'c \<Rightarrow> ('c, unit) outcome) \<Rightarrow> 'v TopicDatagram \<Rightarrow> 'c \<Rightarrow> ('c, bool) outcome" where
  "GetComponent name create d value =
     (if HasNonTerminal name d = False then (value, Inr False)
      else case GetNonTerminal name d of
             Inl e \<Rightarrow> (value, Inl e)
           | Inr values \<Rightarrow> obind (create values value) (\<lambda>value u. (value, Inr True)))"

locale topic_component =
  fixes name :: string
    and generate :: "'c \<Rightarrow> 'v TopicDatagram"
    and create :: "'v TopicDatagram \<Rightarrow> 'c \<Rightarrow> ('c, unit) outcome"
  assumes create_generate: "create (generate c) c0 = (c, Inr ())"
begin

lemma get_set:
  "\<not> HasNonTerminal name d \<Longrightarrow> GetComponent name create (SetComponent name generate c d) c0 = (c, Inr True)"
  by (simp add: GetComponent_def SetComponent_def AddNonTerminal_def GetNonTerminal_def
      create_generate)

text \<open>A component that is there already is not replaced.\<close>

lemma set_again:
  "HasNonTerminal name d \<Longrightarrow> GetComponent name create (SetComponent name generate c d) c0
     = GetComponent name create d c0"
  by (auto simp: GetComponent_def SetComponent_def AddNonTerminal_def GetNonTerminal_def)

lemma get_absent: "\<not> HasNonTerminal name d \<Longrightarrow> GetComponent name create d c0 = (c0, Inr False)"
  by (simp add: GetComponent_def)

lemma get_set_other:
  "name' \<noteq> name \<Longrightarrow> GetComponent name create (SetComponent name' generate' c d) c0
     = GetComponent name create d c0"
  by (auto simp: GetComponent_def SetComponent_def AddNonTerminal_def GetNonTerminal_def)

end

section \<open>The components\<close>

text \<open>The values of the terminals, by their C++ types; a \<open>DataArray\<close> has 64 bytes.\<close>

datatype topic_value =
    V_ScrubMessage ScrubMessage
  | V_BidDescriptor BidDescriptor
  | V_EnvironmentTime etime
  | V_BidBundle "VehicleState BidBundle"
  | V_TaskKey TaskKey
  | V_uint64 u64
  | V_uint32 u32
  | V_int u32
  | V_bool bool
  | V_double dbl
  | V_string string
  | V_TaskStatusType TaskStatusType
  | V_DataArray "u8 list"
  | V_Tasks "Task list"
  | V_MissionKey MissionKey

fun as_ScrubMessage where "as_ScrubMessage (V_ScrubMessage x) = Some x" | "as_ScrubMessage _ = None"
fun as_BidDescriptor where "as_BidDescriptor (V_BidDescriptor x) = Some x" | "as_BidDescriptor _ = None"
fun as_EnvironmentTime where "as_EnvironmentTime (V_EnvironmentTime x) = Some x" | "as_EnvironmentTime _ = None"
fun as_BidBundle where "as_BidBundle (V_BidBundle x) = Some x" | "as_BidBundle _ = None"
fun as_TaskKey where "as_TaskKey (V_TaskKey x) = Some x" | "as_TaskKey _ = None"
fun as_uint64 where "as_uint64 (V_uint64 x) = Some x" | "as_uint64 _ = None"
fun as_uint32 where "as_uint32 (V_uint32 x) = Some x" | "as_uint32 _ = None"
fun as_int where "as_int (V_int x) = Some x" | "as_int _ = None"
fun as_bool where "as_bool (V_bool x) = Some x" | "as_bool _ = None"
fun as_double where "as_double (V_double x) = Some x" | "as_double _ = None"
fun as_string where "as_string (V_string x) = Some x" | "as_string _ = None"
fun as_TaskStatusType where "as_TaskStatusType (V_TaskStatusType x) = Some x" | "as_TaskStatusType _ = None"
fun as_DataArray where "as_DataArray (V_DataArray x) = Some x" | "as_DataArray _ = None"
fun as_Tasks where "as_Tasks (V_Tasks x) = Some x" | "as_Tasks _ = None"
fun as_MissionKey where "as_MissionKey (V_MissionKey x) = Some x" | "as_MissionKey _ = None"

text \<open>The assignment of a field from a terminal; a missing terminal leaves the fields set so far.\<close>

definition read_field ::
  "(topic_value \<Rightarrow> 'a option) \<Rightarrow> string \<Rightarrow> ('a \<Rightarrow> 'c \<Rightarrow> 'c) \<Rightarrow> topic_value TopicDatagram \<Rightarrow> 'c \<Rightarrow> ('c, unit) outcome" where
  "read_field cast str write d c = (case GetTerminal cast str d of
     Inl e \<Rightarrow> (c, Inl e) | Inr x \<Rightarrow> (write x c, Inr ()))"

record ScrubMessageTopic =
  st_message :: ScrubMessage

definition ScrubMessageTopic_GenerateDatagram :: "ScrubMessageTopic \<Rightarrow> topic_value TopicDatagram" where
  "ScrubMessageTopic_GenerateDatagram c =
     (let datagram = TopicDatagram_new;
          datagram = AddTerminal ''Scrub Message'' (V_ScrubMessage (st_message c)) datagram
      in datagram)"

definition ScrubMessageTopic_CreateFromDatagram ::
  "topic_value TopicDatagram \<Rightarrow> ScrubMessageTopic \<Rightarrow> (ScrubMessageTopic, unit) outcome" where
  "ScrubMessageTopic_CreateFromDatagram datagram c =
     read_field as_ScrubMessage ''Scrub Message'' (\<lambda>x c. c\<lparr>st_message := x\<rparr>) datagram c"

record BidDescriptorTopic =
  bt_descriptor :: BidDescriptor
  bt_timestamp :: etime

definition BidDescriptorTopic_GenerateDatagram :: "BidDescriptorTopic \<Rightarrow> topic_value TopicDatagram" where
  "BidDescriptorTopic_GenerateDatagram c =
     (let datagram = TopicDatagram_new;
          datagram = AddTerminal ''Bid Descriptor'' (V_BidDescriptor (bt_descriptor c)) datagram;
          datagram = AddTerminal ''Timestamp'' (V_EnvironmentTime (bt_timestamp c)) datagram
      in datagram)"

definition BidDescriptorTopic_CreateFromDatagram ::
  "topic_value TopicDatagram \<Rightarrow> BidDescriptorTopic \<Rightarrow> (BidDescriptorTopic, unit) outcome" where
  "BidDescriptorTopic_CreateFromDatagram datagram c =
     obind (read_field as_BidDescriptor ''Bid Descriptor'' (\<lambda>x c. c\<lparr>bt_descriptor := x\<rparr>) datagram c) (\<lambda>c u.
     read_field as_EnvironmentTime ''Timestamp'' (\<lambda>x c. c\<lparr>bt_timestamp := x\<rparr>) datagram c)"

record BidBundleTopic =
  bt_bundle :: "VehicleState BidBundle"

definition BidBundleTopic_GenerateDatagram :: "BidBundleTopic \<Rightarrow> topic_value TopicDatagram" where
  "BidBundleTopic_GenerateDatagram c =
     (let datagram = TopicDatagram_new;
          datagram = AddTerminal ''Bid Bundle'' (V_BidBundle (bt_bundle c)) datagram
      in datagram)"

definition BidBundleTopic_CreateFromDatagram ::
  "topic_value TopicDatagram \<Rightarrow> BidBundleTopic \<Rightarrow> (BidBundleTopic, unit) outcome" where
  "BidBundleTopic_CreateFromDatagram datagram c =
     read_field as_BidBundle ''Bid Bundle'' (\<lambda>x c. c\<lparr>bt_bundle := x\<rparr>) datagram c"

record TaskStatusTopic =
  ts_taskKey :: TaskKey
  ts_agentID :: u64
  ts_statusType :: TaskStatusType
  ts_data :: "u8 list"

definition TaskStatusTopic_GenerateDatagram :: "TaskStatusTopic \<Rightarrow> topic_value TopicDatagram" where
  "TaskStatusTopic_GenerateDatagram c =
     (let datagram = TopicDatagram_new;
          datagram = AddTerminal ''Task Key'' (V_TaskKey (ts_taskKey c)) datagram;
          datagram = AddTerminal ''Agent ID'' (V_uint64 (ts_agentID c)) datagram;
          datagram = AddTerminal ''Type'' (V_TaskStatusType (ts_statusType c)) datagram;
          datagram = AddTerminal ''Data'' (V_DataArray (ts_data c)) datagram
      in datagram)"

definition TaskStatusTopic_CreateFromDatagram ::
  "topic_value TopicDatagram \<Rightarrow> TaskStatusTopic \<Rightarrow> (TaskStatusTopic, unit) outcome" where
  "TaskStatusTopic_CreateFromDatagram datagram c =
     obind (read_field as_TaskKey ''Task Key'' (\<lambda>x c. c\<lparr>ts_taskKey := x\<rparr>) datagram c) (\<lambda>c u.
     obind (read_field as_uint64 ''Agent ID'' (\<lambda>x c. c\<lparr>ts_agentID := x\<rparr>) datagram c) (\<lambda>c u.
     obind (read_field as_TaskStatusType ''Type'' (\<lambda>x c. c\<lparr>ts_statusType := x\<rparr>) datagram c) (\<lambda>c u.
     read_field as_DataArray ''Data'' (\<lambda>x c. c\<lparr>ts_data := x\<rparr>) datagram c)))"

record TaskKeyTopic =
  tk_key :: TaskKey
  tk_requesting :: bool

definition TaskKeyTopic_GenerateDatagram :: "TaskKeyTopic \<Rightarrow> topic_value TopicDatagram" where
  "TaskKeyTopic_GenerateDatagram c =
     (let datagram = TopicDatagram_new;
          datagram = AddTerminal ''Task Key'' (V_TaskKey (tk_key c)) datagram;
          datagram = AddTerminal ''Requesting'' (V_bool (tk_requesting c)) datagram
      in datagram)"

definition TaskKeyTopic_CreateFromDatagram ::
  "topic_value TopicDatagram \<Rightarrow> TaskKeyTopic \<Rightarrow> (TaskKeyTopic, unit) outcome" where
  "TaskKeyTopic_CreateFromDatagram datagram c =
     obind (read_field as_TaskKey ''Task Key'' (\<lambda>x c. c\<lparr>tk_key := x\<rparr>) datagram c) (\<lambda>c u.
     read_field as_bool ''Requesting'' (\<lambda>x c. c\<lparr>tk_requesting := x\<rparr>) datagram c)"

record TaskAssignmentTopic =
  ta_assignedTasks :: "Task list"
  ta_vehicleID :: u32

definition TaskAssignmentTopic_GenerateDatagram :: "TaskAssignmentTopic \<Rightarrow> topic_value TopicDatagram" where
  "TaskAssignmentTopic_GenerateDatagram c =
     (let datagram = TopicDatagram_new;
          datagram = AddTerminal ''AssignedTasks'' (V_Tasks (ta_assignedTasks c)) datagram;
          datagram = AddTerminal ''VehicleID'' (V_int (ta_vehicleID c)) datagram
      in datagram)"

definition TaskAssignmentTopic_CreateFromDatagram ::
  "topic_value TopicDatagram \<Rightarrow> TaskAssignmentTopic \<Rightarrow> (TaskAssignmentTopic, unit) outcome" where
  "TaskAssignmentTopic_CreateFromDatagram datagram c =
     obind (read_field as_Tasks ''AssignedTasks'' (\<lambda>x c. c\<lparr>ta_assignedTasks := x\<rparr>) datagram c) (\<lambda>c u.
     read_field as_int ''VehicleID'' (\<lambda>x c. c\<lparr>ta_vehicleID := x\<rparr>) datagram c)"

record VehicleTaskStatusTopic =
  vt_vehicleID :: u32
  vt_taskKey :: TaskKey
  vt_statusType :: TaskStatusType
  vt_success :: bool

definition VehicleTaskStatusTopic_GenerateDatagram :: "VehicleTaskStatusTopic \<Rightarrow> topic_value TopicDatagram" where
  "VehicleTaskStatusTopic_GenerateDatagram c =
     (let datagram = TopicDatagram_new;
          datagram = AddTerminal ''VehicleID'' (V_int (vt_vehicleID c)) datagram;
          datagram = AddTerminal ''TaskKey'' (V_TaskKey (vt_taskKey c)) datagram;
          datagram = AddTerminal ''Status'' (V_TaskStatusType (vt_statusType c)) datagram;
          datagram = AddTerminal ''Success'' (V_bool (vt_success c)) datagram
      in datagram)"

definition VehicleTaskStatusTopic_CreateFromDatagram ::
  "topic_value TopicDatagram \<Rightarrow> VehicleTaskStatusTopic \<Rightarrow> (VehicleTaskStatusTopic, unit) outcome" where
  "VehicleTaskStatusTopic_CreateFromDatagram datagram c =
     obind (read_field as_int ''VehicleID'' (\<lambda>x c. c\<lparr>vt_vehicleID := x\<rparr>) datagram c) (\<lambda>c u.
     obind (read_field as_TaskKey ''TaskKey'' (\<lambda>x c. c\<lparr>vt_taskKey := x\<rparr>) datagram c) (\<lambda>c u.
     obind (read_field as_TaskStatusType ''Status'' (\<lambda>x c. c\<lparr>vt_statusType := x\<rparr>) datagram c) (\<lambda>c u.
     read_field as_bool ''Success'' (\<lambda>x c. c\<lparr>vt_success := x\<rparr>) datagram c)))"

record MissionItemCurrentTopic =
  mc_key :: MissionKey
  mc_indexCurrent :: u32

definition MissionItemCurrentTopic_GenerateDatagram :: "MissionItemCurrentTopic \<Rightarrow> topic_value TopicDatagram" where
  "MissionItemCurrentTopic_GenerateDatagram c =
     (let datagram = TopicDatagram_new;
          datagram = AddTerminal ''key'' (V_MissionKey (mc_key c)) datagram;
          datagram = AddTerminal ''currentIndex'' (V_int (mc_indexCurrent c)) datagram
      in datagram)"

definition MissionItemCurrentTopic_CreateFromDatagram ::
  "topic_value TopicDatagram \<Rightarrow> MissionItemCurrentTopic \<Rightarrow> (MissionItemCurrentTopic, unit) outcome" where
  "MissionItemCurrentTopic_CreateFromDatagram datagram c =
     obind (read_field as_MissionKey ''key'' (\<lambda>x c. c\<lparr>mc_key := x\<rparr>) datagram c) (\<lambda>c u.
     read_field as_int ''currentIndex'' (\<lambda>x c. c\<lparr>mc_indexCurrent := x\<rparr>) datagram c)"

record MissionItemReachedTopic =
  mr_key :: MissionKey
  mr_indexAchieved :: u32

definition MissionItemReachedTopic_GenerateDatagram :: "MissionItemReachedTopic \<Rightarrow> topic_value TopicDatagram" where
  "MissionItemReachedTopic_GenerateDatagram c =
     (let datagram = TopicDatagram_new;
          datagram = AddTerminal ''key'' (V_MissionKey (mr_key c)) datagram;
          datagram = AddTerminal ''index'' (V_uint32 (mr_indexAchieved c)) datagram
      in datagram)"

definition MissionItemReachedTopic_CreateFromDatagram ::
  "topic_value TopicDatagram \<Rightarrow> MissionItemReachedTopic \<Rightarrow> (MissionItemReachedTopic, unit) outcome" where
  "MissionItemReachedTopic_CreateFromDatagram datagram c =
     obind (read_field as_MissionKey ''key'' (\<lambda>x c. c\<lparr>mr_key := x\<rparr>) datagram c) (\<lambda>c u.
     read_field as_uint32 ''index'' (\<lambda>x c. c\<lparr>mr_indexAchieved := x\<rparr>) datagram c)"

record MissionItemRequestTopic =
  mq_vehicleID :: u32
  mq_missionItemIndex :: u32

definition MissionItemRequestTopic_GenerateDatagram :: "MissionItemRequestTopic \<Rightarrow> topic_value TopicDatagram" where
  "MissionItemRequestTopic_GenerateDatagram c =
     (let datagram = TopicDatagram_new;
          datagram = AddTerminal ''vehicleID'' (V_uint32 (mq_vehicleID c)) datagram;
          datagram = AddTerminal ''missionItemIndex'' (V_uint32 (mq_missionItemIndex c)) datagram
      in datagram)"

definition MissionItemRequestTopic_CreateFromDatagram ::
  "topic_value TopicDatagram \<Rightarrow> MissionItemRequestTopic \<Rightarrow> (MissionItemRequestTopic, unit) outcome" where
  "MissionItemRequestTopic_CreateFromDatagram datagram c =
     obind (read_field as_uint32 ''vehicleID'' (\<lambda>x c. c\<lparr>mq_vehicleID := x\<rparr>) datagram c) (\<lambda>c u.
     read_field as_uint32 ''missionItemIndex'' (\<lambda>x c. c\<lparr>mq_missionItemIndex := x\<rparr>) datagram c)"

record BatteryTopic =
  bat_voltage :: dbl
  bat_current :: dbl
  bat_remaining :: dbl

definition BatteryTopic_GenerateDatagram :: "BatteryTopic \<Rightarrow> topic_value TopicDatagram" where
  "BatteryTopic_GenerateDatagram c =
     (let datagram = TopicDatagram_new;
          datagram = AddTerminal ''voltage'' (V_double (bat_voltage c)) datagram;
          datagram = AddTerminal ''current'' (V_double (bat_current c)) datagram;
          datagram = AddTerminal ''remaining'' (V_double (bat_remaining c)) datagram
      in datagram)"

definition BatteryTopic_CreateFromDatagram ::
  "topic_value TopicDatagram \<Rightarrow> BatteryTopic \<Rightarrow> (BatteryTopic, unit) outcome" where
  "BatteryTopic_CreateFromDatagram datagram c =
     obind (read_field as_double ''voltage'' (\<lambda>x c. c\<lparr>bat_voltage := x\<rparr>) datagram c) (\<lambda>c u.
     obind (read_field as_double ''current'' (\<lambda>x c. c\<lparr>bat_current := x\<rparr>) datagram c) (\<lambda>c u.
     read_field as_double ''remaining'' (\<lambda>x c. c\<lparr>bat_remaining := x\<rparr>) datagram c))"

record FlightModeTopic =
  fm_flightModeString :: string

definition FlightModeTopic_GenerateDatagram :: "FlightModeTopic \<Rightarrow> topic_value TopicDatagram" where
  "FlightModeTopic_GenerateDatagram c =
     (let datagram = TopicDatagram_new;
          datagram = AddTerminal ''systemModeString'' (V_string (fm_flightModeString c)) datagram
      in datagram)"

definition FlightModeTopic_CreateFromDatagram ::
  "topic_value TopicDatagram \<Rightarrow> FlightModeTopic \<Rightarrow> (FlightModeTopic, unit) outcome" where
  "FlightModeTopic_CreateFromDatagram datagram c =
     read_field as_string ''systemModeString'' (\<lambda>x c. c\<lparr>fm_flightModeString := x\<rparr>) datagram c"

record SystemArmTopic =
  sa_armed :: bool

definition SystemArmTopic_GenerateDatagram :: "SystemArmTopic \<Rightarrow> topic_value TopicDatagram" where
  "SystemArmTopic_GenerateDatagram c =
     (let datagram = TopicDatagram_new;
          datagram = AddTerminal ''armed'' (V_bool (sa_armed c)) datagram
      in datagram)"

definition SystemArmTopic_CreateFromDatagram ::
  "topic_value TopicDatagram \<Rightarrow> SystemArmTopic \<Rightarrow> (SystemArmTopic, unit) outcome" where
  "SystemArmTopic_CreateFromDatagram datagram c =
     read_field as_bool ''armed'' (\<lambda>x c. c\<lparr>sa_armed := x\<rparr>) datagram c"

record SystemTimeTopic =
  sy_usec_since_epoch :: u64
  sy_ms_since_system_boot :: u32

definition SystemTimeTopic_GenerateDatagram :: "SystemTimeTopic \<Rightarrow> topic_value TopicDatagram" where
  "SystemTimeTopic_GenerateDatagram c =
     (let datagram = TopicDatagram_new;
          datagram = AddTerminal ''usec_since_epoch'' (V_uint64 (sy_usec_since_epoch c)) datagram;
          datagram = AddTerminal ''ms_since_system_boot'' (V_uint32 (sy_ms_since_system_boot c)) datagram
      in datagram)"

definition SystemTimeTopic_CreateFromDatagram ::
  "topic_value TopicDatagram \<Rightarrow> SystemTimeTopic \<Rightarrow> (SystemTimeTopic, unit) outcome" where
  "SystemTimeTopic_CreateFromDatagram datagram c =
     obind (read_field as_uint64 ''usec_since_epoch'' (\<lambda>x c. c\<lparr>sy_usec_since_epoch := x\<rparr>) datagram c) (\<lambda>c u.
     read_field as_uint32 ''ms_since_system_boot'' (\<lambda>x c. c\<lparr>sy_ms_since_system_boot := x\<rparr>) datagram c)"

lemmas component_simps = Let_def AddTerminal_def TopicDatagram_new_def read_field_def GetTerminal_def

text \<open>Every class reads back what it wrote.\<close>

interpretation scrubMessageTopic: topic_component "''scrub_message''" ScrubMessageTopic_GenerateDatagram ScrubMessageTopic_CreateFromDatagram
  by unfold_locales (simp add: component_simps ScrubMessageTopic_GenerateDatagram_def ScrubMessageTopic_CreateFromDatagram_def)

interpretation bidDescriptorTopic: topic_component "''bid_descriptor''" BidDescriptorTopic_GenerateDatagram BidDescriptorTopic_CreateFromDatagram
  by unfold_locales (simp add: component_simps BidDescriptorTopic_GenerateDatagram_def BidDescriptorTopic_CreateFromDatagram_def)

interpretation bidBundleTopic: topic_component "''bid_bundle''" BidBundleTopic_GenerateDatagram BidBundleTopic_CreateFromDatagram
  by unfold_locales (simp add: component_simps BidBundleTopic_GenerateDatagram_def BidBundleTopic_CreateFromDatagram_def)

interpretation taskStatusTopic: topic_component "''task_complete''" TaskStatusTopic_GenerateDatagram TaskStatusTopic_CreateFromDatagram
  by unfold_locales (simp add: component_simps TaskStatusTopic_GenerateDatagram_def TaskStatusTopic_CreateFromDatagram_def)

interpretation taskKeyTopic: topic_component "''task_key''" TaskKeyTopic_GenerateDatagram TaskKeyTopic_CreateFromDatagram
  by unfold_locales (simp add: component_simps TaskKeyTopic_GenerateDatagram_def TaskKeyTopic_CreateFromDatagram_def)

interpretation taskAssignmentTopic: topic_component "''task_assignment''" TaskAssignmentTopic_GenerateDatagram TaskAssignmentTopic_CreateFromDatagram
  by unfold_locales (simp add: component_simps TaskAssignmentTopic_GenerateDatagram_def TaskAssignmentTopic_CreateFromDatagram_def)

interpretation vehicleTaskStatusTopic: topic_component "''task_vehicle_status''" VehicleTaskStatusTopic_GenerateDatagram VehicleTaskStatusTopic_CreateFromDatagram
  by unfold_locales (simp add: component_simps VehicleTaskStatusTopic_GenerateDatagram_def VehicleTaskStatusTopic_CreateFromDatagram_def)

interpretation missionItemCurrentTopic: topic_component "''MissionItemCurrent''" MissionItemCurrentTopic_GenerateDatagram MissionItemCurrentTopic_CreateFromDatagram
  by unfold_locales (simp add: component_simps MissionItemCurrentTopic_GenerateDatagram_def MissionItemCurrentTopic_CreateFromDatagram_def)

interpretation missionItemReachedTopic: topic_component "''MissionItemReached''" MissionItemReachedTopic_GenerateDatagram MissionItemReachedTopic_CreateFromDatagram
  by unfold_locales (simp add: component_simps MissionItemReachedTopic_GenerateDatagram_def MissionItemReachedTopic_CreateFromDatagram_def)

interpretation missionItemRequestTopic: topic_component "''MissionItemRequest''" MissionItemRequestTopic_GenerateDatagram MissionItemRequestTopic_CreateFromDatagram
  by unfold_locales (simp add: component_simps MissionItemRequestTopic_GenerateDatagram_def MissionItemRequestTopic_CreateFromDatagram_def)

interpretation batteryTopic: topic_component "''battery''" BatteryTopic_GenerateDatagram BatteryTopic_CreateFromDatagram
  by unfold_locales (simp add: component_simps BatteryTopic_GenerateDatagram_def BatteryTopic_CreateFromDatagram_def)

interpretation flightModeTopic: topic_component "''system_operating_mode''" FlightModeTopic_GenerateDatagram FlightModeTopic_CreateFromDatagram
  by unfold_locales (simp add: component_simps FlightModeTopic_GenerateDatagram_def FlightModeTopic_CreateFromDatagram_def)

interpretation systemArmTopic: topic_component "''systemArm''" SystemArmTopic_GenerateDatagram SystemArmTopic_CreateFromDatagram
  by unfold_locales (simp add: component_simps SystemArmTopic_GenerateDatagram_def SystemArmTopic_CreateFromDatagram_def)

interpretation systemTimeTopic: topic_component "''systemTime''" SystemTimeTopic_GenerateDatagram SystemTimeTopic_CreateFromDatagram
  by unfold_locales (simp add: component_simps SystemTimeTopic_GenerateDatagram_def SystemTimeTopic_CreateFromDatagram_def)

section \<open>Topics of several components\<close>

datatype component =
    C_ScrubMessage ScrubMessageTopic
  | C_BidDescriptor BidDescriptorTopic
  | C_BidBundle BidBundleTopic
  | C_TaskStatus TaskStatusTopic
  | C_TaskKey TaskKeyTopic
  | C_TaskAssignment TaskAssignmentTopic
  | C_VehicleTaskStatus VehicleTaskStatusTopic
  | C_MissionItemCurrent MissionItemCurrentTopic
  | C_MissionItemReached MissionItemReachedTopic
  | C_MissionItemRequest MissionItemRequestTopic
  | C_Battery BatteryTopic
  | C_FlightMode FlightModeTopic
  | C_SystemArm SystemArmTopic
  | C_SystemTime SystemTimeTopic

text \<open>The static name of the class, and the two virtual methods.\<close>

primrec component_name :: "component \<Rightarrow> string" where
  "component_name (C_ScrubMessage c) = ''scrub_message''"
| "component_name (C_BidDescriptor c) = ''bid_descriptor''"
| "component_name (C_BidBundle c) = ''bid_bundle''"
| "component_name (C_TaskStatus c) = ''task_complete''"
| "component_name (C_TaskKey c) = ''task_key''"
| "component_name (C_TaskAssignment c) = ''task_assignment''"
| "component_name (C_VehicleTaskStatus c) = ''task_vehicle_status''"
| "component_name (C_MissionItemCurrent c) = ''MissionItemCurrent''"
| "component_name (C_MissionItemReached c) = ''MissionItemReached''"
| "component_name (C_MissionItemRequest c) = ''MissionItemRequest''"
| "component_name (C_Battery c) = ''battery''"
| "component_name (C_FlightMode c) = ''system_operating_mode''"
| "component_name (C_SystemArm c) = ''systemArm''"
| "component_name (C_SystemTime c) = ''systemTime''"

primrec component_generate :: "component \<Rightarrow> topic_value TopicDatagram" where
  "component_generate (C_ScrubMessage c) = ScrubMessageTopic_GenerateDatagram c"
| "component_generate (C_BidDescriptor c) = BidDescriptorTopic_GenerateDatagram c"
| "component_generate (C_BidBundle c) = BidBundleTopic_GenerateDatagram c"
| "component_generate (C_TaskStatus c) = TaskStatusTopic_GenerateDatagram c"
| "component_generate (C_TaskKey c) = TaskKeyTopic_GenerateDatagram c"
| "component_generate (C_TaskAssignment c) = TaskAssignmentTopic_GenerateDatagram c"
| "component_generate (C_VehicleTaskStatus c) = VehicleTaskStatusTopic_GenerateDatagram c"
| "component_generate (C_MissionItemCurrent c) = MissionItemCurrentTopic_GenerateDatagram c"
| "component_generate (C_MissionItemReached c) = MissionItemReachedTopic_GenerateDatagram c"
| "component_generate (C_MissionItemRequest c) = MissionItemRequestTopic_GenerateDatagram c"
| "component_generate (C_Battery c) = BatteryTopic_GenerateDatagram c"
| "component_generate (C_FlightMode c) = FlightModeTopic_GenerateDatagram c"
| "component_generate (C_SystemArm c) = SystemArmTopic_GenerateDatagram c"
| "component_generate (C_SystemTime c) = SystemTimeTopic_GenerateDatagram c"

primrec component_create :: "component \<Rightarrow> topic_value TopicDatagram \<Rightarrow> (component, unit) outcome" where
  "component_create (C_ScrubMessage c) d = apfst C_ScrubMessage (ScrubMessageTopic_CreateFromDatagram d c)"
| "component_create (C_BidDescriptor c) d = apfst C_BidDescriptor (BidDescriptorTopic_CreateFromDatagram d c)"
| "component_create (C_BidBundle c) d = apfst C_BidBundle (BidBundleTopic_CreateFromDatagram d c)"
| "component_create (C_TaskStatus c) d = apfst C_TaskStatus (TaskStatusTopic_CreateFromDatagram d c)"
| "component_create (C_TaskKey c) d = apfst C_TaskKey (TaskKeyTopic_CreateFromDatagram d c)"
| "component_create (C_TaskAssignment c) d = apfst C_TaskAssignment (TaskAssignmentTopic_CreateFromDatagram d c)"
| "component_create (C_VehicleTaskStatus c) d = apfst C_VehicleTaskStatus (VehicleTaskStatusTopic_CreateFromDatagram d c)"
| "component_create (C_MissionItemCurrent c) d = apfst C_MissionItemCurrent (MissionItemCurrentTopic_CreateFromDatagram d c)"
| "component_create (C_MissionItemReached c) d = apfst C_MissionItemReached (MissionItemReachedTopic_CreateFromDatagram d c)"
| "component_create (C_MissionItemRequest c) d = apfst C_MissionItemRequest (MissionItemRequestTopic_CreateFromDatagram d c)"
| "component_create (C_Battery c) d = apfst C_Battery (BatteryTopic_CreateFromDatagram d c)"
| "component_create (C_FlightMode c) d = apfst C_FlightMode (FlightModeTopic_CreateFromDatagram d c)"
| "component_create (C_SystemArm c) d = apfst C_SystemArm (SystemArmTopic_CreateFromDatagram d c)"
| "component_create (C_SystemTime c) d = apfst C_SystemTime (SystemTimeTopic_CreateFromDatagram d c)"

lemma component_create_generate:
  "component_name c0 = component_name c \<Longrightarrow> component_create c0 (component_generate c) = (c, Inr ())"
  by (cases c; cases c0)
    (simp_all add: scrubMessageTopic.create_generate bidDescriptorTopic.create_generate bidBundleTopic.create_generate taskStatusTopic.create_generate taskKeyTopic.create_generate taskAssignmentTopic.create_generate vehicleTaskStatusTopic.create_generate missionItemCurrentTopic.create_generate missionItemReachedTopic.create_generate missionItemRequestTopic.create_generate batteryTopic.create_generate flightModeTopic.create_generate systemArmTopic.create_generate systemTimeTopic.create_generate)

text \<open>
  A topic is made for a list of classes, here their names; a component is given to the first class it can be
  cast to.
\<close>

fun Topic_SetComponent ::
  "string list \<Rightarrow> component \<Rightarrow> topic_value TopicDatagram \<Rightarrow> (topic_value TopicDatagram, unit) outcome" where
  "Topic_SetComponent [] c d = (d, Inl (Runtime_Error ''Unknown component passed to topic''))"
| "Topic_SetComponent (T # Ts) c d =
     (if component_name c = T then (SetComponent T component_generate c d, Inr ())
      else Topic_SetComponent Ts c d)"

fun Topic_GetComponent ::
  "string list \<Rightarrow> component \<Rightarrow> topic_value TopicDatagram \<Rightarrow> (component, bool) outcome" where
  "Topic_GetComponent [] c d = (c, Inl (Runtime_Error ''Unknown component passed to topic''))"
| "Topic_GetComponent (T # Ts) c d =
     (if component_name c = T then GetComponent T (\<lambda>d c. component_create c d) d c
      else Topic_GetComponent Ts c d)"

fun Topic_SetComponents ::
  "string list \<Rightarrow> component list \<Rightarrow> topic_value TopicDatagram \<Rightarrow> (topic_value TopicDatagram, unit) outcome" where
  "Topic_SetComponents Ts [] d = (d, Inr ())"
| "Topic_SetComponents Ts (c # cs) d =
     obind (Topic_SetComponent Ts c d) (\<lambda>d u. Topic_SetComponents Ts cs d)"

lemma Topic_SetComponent_known:
  "component_name c \<in> set Ts \<Longrightarrow> Topic_SetComponent Ts c d
     = (AddNonTerminal (component_name c) (component_generate c) d, Inr ())"
  by (induction Ts) (auto simp: SetComponent_def)

lemma Topic_GetComponent_known:
  "component_name c \<in> set Ts \<Longrightarrow> Topic_GetComponent Ts c d =
     (case map_of (m_NonTerminalValues d) (component_name c) of
        None \<Rightarrow> (c, Inr False)
      | Some v \<Rightarrow> obind (component_create c v) (\<lambda>c u. (c, Inr True)))"
  by (induction Ts) (auto simp: GetComponent_def GetNonTerminal_def split: option.split)

lemma Topic_SetComponents_known:
  "\<lbrakk>component_name ` set cs \<subseteq> set Ts; distinct (map component_name cs);
     \<forall>c \<in> set cs. map_of (m_NonTerminalValues d) (component_name c) = None\<rbrakk> \<Longrightarrow>
   \<exists>d'. Topic_SetComponents Ts cs d = (d', Inr ())
     \<and> (\<forall>c \<in> set cs. map_of (m_NonTerminalValues d') (component_name c) = Some (component_generate c))
     \<and> (\<forall>n. n \<notin> component_name ` set cs \<longrightarrow> map_of (m_NonTerminalValues d') n = map_of (m_NonTerminalValues d) n)"
proof (induction cs arbitrary: d)
  case (Cons c cs)
  let ?d = "AddNonTerminal (component_name c) (component_generate c) d"
  have d: "map_of (m_NonTerminalValues ?d) n = (if n = component_name c then Some (component_generate c)
      else map_of (m_NonTerminalValues d) n)" for n
    using Cons.prems(3) by (simp add: AddNonTerminal_def)
  have "\<forall>c' \<in> set cs. map_of (m_NonTerminalValues ?d) (component_name c') = None"
    using Cons.prems(2,3) unfolding d by (auto simp: image_iff)
  moreover have "component_name ` set cs \<subseteq> set Ts" "distinct (map component_name cs)"
    using Cons.prems(1,2) by auto
  ultimately obtain d' where "Topic_SetComponents Ts cs ?d = (d', Inr ())"
    "\<forall>c \<in> set cs. map_of (m_NonTerminalValues d') (component_name c) = Some (component_generate c)"
    "\<forall>n. n \<notin> component_name ` set cs \<longrightarrow> map_of (m_NonTerminalValues d') n = map_of (m_NonTerminalValues ?d) n"
    using Cons.IH by blast
  then show ?case
    using Cons.prems(1,2) Topic_SetComponent_known [of c Ts d] unfolding d by auto
qed simp

section \<open>The latest data in the store\<close>

record 'v TopicStore =
  m_LatestTopic :: "(string, (ModuleCharacteristic, 'v TopicDatagram) umap) umap"
  m_LatestTopicComponentUpdateTime :: "(string, (ModuleCharacteristic, (string, etime) umap) umap) umap"

definition TopicStore_new :: "'v TopicStore" where
  "TopicStore_new = \<lparr>m_LatestTopic = [], m_LatestTopicComponentUpdateTime = []\<rparr>"

text \<open>\<open>operator[]\<close> of a map of maps, read and written: a missing entry is an empty one.\<close>

definition um_at :: "'v \<Rightarrow> 'k \<Rightarrow> ('k, 'v) umap \<Rightarrow> 'v" where
  "um_at v0 k m = (case map_of m k of None \<Rightarrow> v0 | Some v \<Rightarrow> v)"

definition set_time ::
  "string \<Rightarrow> ModuleCharacteristic \<Rightarrow> etime \<Rightarrow> string
     \<Rightarrow> (string, (ModuleCharacteristic, (string, etime) umap) umap) umap
     \<Rightarrow> (string, (ModuleCharacteristic, (string, etime) umap) umap) umap" where
  "set_time topicName sender time name m =
     um_put topicName (um_put sender (um_put name time (um_at [] sender (um_at [] topicName m)))
       (um_at [] topicName m)) m"

definition setTopicDatagram ::
  "string \<Rightarrow> ModuleCharacteristic \<Rightarrow> etime \<Rightarrow> 'v TopicDatagram \<Rightarrow> 'v TopicStore \<Rightarrow> 'v TopicStore" where
  "setTopicDatagram topicName sender time value st =
     (let m = m_LatestTopic st;
          m = (if map_of m topicName = None then um_insert topicName [] m else m);
          inner = um_at [] topicName m;
          inner = (if map_of inner sender = None then um_insert sender TopicDatagram_new inner else inner);
          inner = um_put sender (MergeDatagram value (um_at TopicDatagram_new sender inner)) inner
      in st\<lparr>m_LatestTopic := um_put topicName inner m,
            m_LatestTopicComponentUpdateTime := fold (set_time topicName sender time)
              (ListTerminals value @ ListNonTerminals value) (m_LatestTopicComponentUpdateTime st)\<rparr>)"

definition getAllLatestTopics ::
  "ModuleCharacteristic \<Rightarrow> 'v TopicStore \<Rightarrow> (string, 'v TopicDatagram) umap" where
  "getAllLatestTopics sender st = fold (\<lambda>(topic, inner) topicMap.
     fold (\<lambda>(c, d) topicMap. if module_eq c sender then um_put topic d topicMap else topicMap) inner topicMap)
     (m_LatestTopic st) []"

definition GetCurrentTopicDatagram ::
  "string \<Rightarrow> ModuleCharacteristic \<Rightarrow> 'v TopicStore \<Rightarrow> cpp_error + 'v TopicDatagram" where
  "GetCurrentTopicDatagram topicName sender st = (case map_of (m_LatestTopic st) topicName of
     None \<Rightarrow> Inl Out_Of_Range
   | Some inner \<Rightarrow> (case map_of inner sender of None \<Rightarrow> Inl Out_Of_Range | Some d \<Rightarrow> Inr d))"

section \<open>Lemmas\<close>

lemma map_of_insert_all: "map_of (insert_all es m) = map_of es ++ map_of m"
proof (induction es arbitrary: m)
  case (Cons e es)
  then show ?case
    by (cases e) (auto simp: insert_all_def map_add_def fun_eq_iff split: option.splits)
qed (simp add: insert_all_def)

lemma map_of_overwrite_all: "um_ok es \<Longrightarrow> map_of (overwrite_all es m) = map_of m ++ map_of es"
proof (induction es arbitrary: m)
  case (Cons e es)
  obtain k v where e: "e = (k, v)" by (cases e)
  have k: "map_of es k = None" "um_ok es"
    using Cons.prems by (auto simp: e um_ok_def map_of_eq_None_iff)
  define m' where "m' = (if map_of m k = None then um_insert k v m else um_put k v m)"
  have m': "map_of m' = (map_of m)(k \<mapsto> v)" by (auto simp: m'_def fun_eq_iff)
  have "overwrite_all (e # es) m = overwrite_all es m'"
    by (simp add: overwrite_all_def e m'_def)
  then have "map_of (overwrite_all (e # es) m) = (map_of m)(k \<mapsto> v) ++ map_of es"
    by (simp only: Cons.IH [OF k(2)] m')
  then show ?case using k(1) by (auto simp: e map_add_def fun_eq_iff split: option.splits)
qed (simp add: overwrite_all_def)

definition datagram_ok :: "'v TopicDatagram \<Rightarrow> bool" where
  "datagram_ok d \<longleftrightarrow> um_ok (m_TerminalValues d) \<and> um_ok (m_NonTerminalValues d)"

lemma MergeDatagram_values:
  assumes "datagram_ok value"
  shows "map_of (m_TerminalValues (MergeDatagram value d)) = map_of (m_TerminalValues d) ++ map_of (m_TerminalValues value)"
    "map_of (m_NonTerminalValues (MergeDatagram value d)) =
       map_of (m_NonTerminalValues d) ++ map_of (m_NonTerminalValues value)"
  using assms by (simp_all add: MergeDatagram_def datagram_ok_def map_of_overwrite_all)

text \<open>What the store holds for a topic and a sender.\<close>

definition stored :: "string \<Rightarrow> ModuleCharacteristic \<Rightarrow> 'v TopicStore \<Rightarrow> 'v TopicDatagram option" where
  "stored topic sender st =
     (case GetCurrentTopicDatagram topic sender st of Inl _ \<Rightarrow> None | Inr d \<Rightarrow> Some d)"

lemma stored_set:
  "stored topic sender (setTopicDatagram topic' sender' time value st) =
     (if topic' = topic \<and> sender' = sender
      then Some (MergeDatagram value (case stored topic sender st of None \<Rightarrow> TopicDatagram_new | Some d \<Rightarrow> d))
      else stored topic sender st)"
  by (auto simp: stored_def GetCurrentTopicDatagram_def setTopicDatagram_def um_at_def Let_def
      split: option.splits sum.splits)

definition updated ::
  "string \<Rightarrow> ModuleCharacteristic \<Rightarrow> string \<Rightarrow> 'v TopicStore \<Rightarrow> etime option" where
  "updated topic sender name st =
     map_of (um_at [] sender (um_at [] topic (m_LatestTopicComponentUpdateTime st))) name"

lemma set_time_lookup:
  "map_of (um_at [] sender (um_at [] topic (set_time topic' sender' time name' m))) name =
     (if topic' = topic \<and> sender' = sender \<and> name' = name then Some time
      else map_of (um_at [] sender (um_at [] topic m)) name)"
  by (auto simp: set_time_def um_at_def)

lemma set_times_lookup:
  "map_of (um_at [] sender (um_at [] topic (fold (set_time topic' sender' time) names m))) name =
     (if topic' = topic \<and> sender' = sender \<and> name \<in> set names then Some time
      else map_of (um_at [] sender (um_at [] topic m)) name)"
  by (induction names arbitrary: m) (auto simp: set_time_lookup)

lemma updated_set:
  "updated topic sender name (setTopicDatagram topic' sender' time value st) =
     (if topic' = topic \<and> sender' = sender \<and> name \<in> set (ListTerminals value @ ListNonTerminals value)
      then Some time else updated topic sender name st)"
proof -
  have "m_LatestTopicComponentUpdateTime (setTopicDatagram topic' sender' time value st) =
      fold (set_time topic' sender' time) (ListTerminals value @ ListNonTerminals value)
        (m_LatestTopicComponentUpdateTime st)"
    by (simp add: setTopicDatagram_def Let_def)
  then show ?thesis by (simp only: updated_def set_times_lookup)
qed

type_synonym 'v topic_event = "string \<times> ModuleCharacteristic \<times> etime \<times> 'v TopicDatagram"

definition set_topics :: "'v topic_event list \<Rightarrow> 'v TopicStore" where
  "set_topics es = fold (\<lambda>(topic, sender, time, d). setTopicDatagram topic sender time d) es TopicStore_new"

text \<open>The newest of the events (newest first) of the topic and the sender that has a value.\<close>

fun newest :: "(etime \<Rightarrow> 'v TopicDatagram \<Rightarrow> 'a option) \<Rightarrow> string \<Rightarrow> ModuleCharacteristic \<Rightarrow> 'v topic_event list \<Rightarrow> 'a option" where
  "newest get topic sender [] = None"
| "newest get topic sender ((topic', sender', time, d) # es) =
     (if topic' = topic \<and> sender' = sender \<and> get time d \<noteq> None then get time d
      else newest get topic sender es)"

definition lookup :: "('v TopicDatagram \<Rightarrow> 'a option) \<Rightarrow> 'v TopicDatagram option \<Rightarrow> 'a option" where
  "lookup get d = (case d of None \<Rightarrow> None | Some d \<Rightarrow> get d)"

section \<open>Properties\<close>

text \<open>
  C33: What is put into a topic comes out of it: components of different classes that the topic is made
  for, set one after the other in an empty datagram, are all read back as they were, whatever the objects
  they are read into held, and a class of which no component was set reads nothing.
\<close>

theorem components_roundtrip:
  assumes "component_name ` set cs \<subseteq> set Ts" and "distinct (map component_name cs)"
    and "component_name c0 \<in> set Ts"
  shows "\<exists>d. Topic_SetComponents Ts cs TopicDatagram_new = (d, Inr ())
     \<and> (\<forall>c \<in> set cs. component_name c = component_name c0 \<longrightarrow> Topic_GetComponent Ts c0 d = (c, Inr True))
     \<and> (component_name c0 \<notin> component_name ` set cs \<longrightarrow> Topic_GetComponent Ts c0 d = (c0, Inr False))"
proof -
  have "\<forall>c \<in> set cs. map_of (m_NonTerminalValues TopicDatagram_new) (component_name c) = None"
    by (simp add: TopicDatagram_new_def)
  from Topic_SetComponents_known [OF assms(1,2) this] obtain d where
    d: "Topic_SetComponents Ts cs TopicDatagram_new = (d, Inr ())"
      "\<forall>c \<in> set cs. map_of (m_NonTerminalValues d) (component_name c) = Some (component_generate c)"
      "\<forall>n. n \<notin> component_name ` set cs \<longrightarrow>
         map_of (m_NonTerminalValues d) n = map_of (m_NonTerminalValues TopicDatagram_new) n"
    by blast
  have "Topic_GetComponent Ts c0 d = (c, Inr True)"
    if "c \<in> set cs" "component_name c = component_name c0" for c
    using d(2) that component_create_generate [of c0 c]
    by (auto simp: Topic_GetComponent_known [OF assms(3)] dest: bspec)
  moreover have "Topic_GetComponent Ts c0 d = (c0, Inr False)" if "component_name c0 \<notin> component_name ` set cs"
    using d(3) that by (simp add: Topic_GetComponent_known [OF assms(3)] TopicDatagram_new_def)
  ultimately show ?thesis using d(1) by blast
qed

theorem components_roundtrip_witness:
  "\<exists>d. Topic_SetComponents [''task_key'', ''systemArm'', ''battery'']
      [C_TaskKey \<lparr>tk_key = \<lparr>creatorID = 1, taskID = 2\<rparr>, tk_requesting = True\<rparr>, C_SystemArm \<lparr>sa_armed = True\<rparr>]
      TopicDatagram_new = (d, Inr ())
   \<and> Topic_GetComponent [''task_key'', ''systemArm'', ''battery''] (C_SystemArm \<lparr>sa_armed = False\<rparr>) d
       = (C_SystemArm \<lparr>sa_armed = True\<rparr>, Inr True)"
  using components_roundtrip [of "[C_TaskKey \<lparr>tk_key = \<lparr>creatorID = 1, taskID = 2\<rparr>, tk_requesting = True\<rparr>,
      C_SystemArm \<lparr>sa_armed = True\<rparr>]" "[''task_key'', ''systemArm'', ''battery'']"
      "C_SystemArm \<lparr>sa_armed = False\<rparr>"]
  by auto

text \<open>
  C34: The store keeps the latest value of everything: after any updates, a value is found for a topic and
  a sender exactly when an update of theirs had it, it is the value of the newest such update, and the
  time noted for a name is the time of the newest update that had the name.
\<close>

theorem latest_topic_wins:
  assumes "\<forall>(topic, sender, time, d) \<in> set es. datagram_ok d"
  shows "lookup (\<lambda>d. map_of (m_TerminalValues d) name) (stored topic sender (set_topics es))
       = newest (\<lambda>time d. map_of (m_TerminalValues d) name) topic sender (rev es)
     \<and> lookup (\<lambda>d. map_of (m_NonTerminalValues d) name) (stored topic sender (set_topics es))
       = newest (\<lambda>time d. map_of (m_NonTerminalValues d) name) topic sender (rev es)
     \<and> updated topic sender name (set_topics es)
       = newest (\<lambda>time d. if name \<in> set (ListTerminals d @ ListNonTerminals d) then Some time else None)
           topic sender (rev es)"
  using assms
proof (induction es rule: rev_induct)
  case Nil
  then show ?case
    by (simp add: set_topics_def TopicStore_new_def stored_def GetCurrentTopicDatagram_def lookup_def
        updated_def um_at_def)
next
  case (snoc e es)
  obtain topic' sender' time d where e: "e = (topic', sender', time, d)" by (cases e)
  have "set_topics (es @ [e]) = setTopicDatagram topic' sender' time d (set_topics es)"
    by (simp add: set_topics_def e)
  moreover have "datagram_ok d" using snoc.prems by (auto simp: e)
  ultimately show ?case
    using snoc
    by (auto simp: e stored_set updated_set MergeDatagram_values lookup_def map_add_def
        TopicDatagram_new_def split: option.splits)
qed

theorem latest_topic_wins_witness:
  "lookup (\<lambda>d. map_of (m_TerminalValues d) ''voltage'')
      (stored ''vehicle'' \<lparr>MaceInstance = 1, ModuleID = 2\<rparr> (set_topics
         [(''vehicle'', \<lparr>MaceInstance = 1, ModuleID = 2\<rparr>, etime_zero, Datagram [(''voltage'', 12::int)] []),
          (''vehicle'', \<lparr>MaceInstance = 1, ModuleID = 3\<rparr>, etime_zero, Datagram [(''voltage'', 9)] []),
          (''vehicle'', \<lparr>MaceInstance = 1, ModuleID = 2\<rparr>, etime_zero, Datagram [(''voltage'', 11)] []),
          (''vehicle'', \<lparr>MaceInstance = 1, ModuleID = 2\<rparr>, etime_zero, Datagram [(''current'', 4)] [])])) = Some 11"
  by (subst latest_topic_wins [THEN conjunct1]) (simp_all add: datagram_ok_def um_ok_def)

end
