(* ===== verification/HSM.thy ===== *)
theory HSM
  imports Prelude
begin

text \<open>
  The hierarchical state machine library (\<open>src/src/common/hsm.h\<close>): a stack of states, from the
  outermost to the innermost, that ask for transitions until none of them does.

  The states are objects \<open>'o\<close> of classes \<open>'k\<close>, the arguments of \<open>OnEnter\<close> are of type \<open>'a\<close>, and \<open>'w\<close> is
  what the states share, their owner. What a class of states does is a record of functions; a state is
  named by its depth on the stack. The overrides of states and the state values, which no machine of the
  program uses, are left out.
\<close>

section \<open>The machine\<close>

datatype ('k, 'a) Transition = No_Transition | Sibling 'k 'a | Inner 'k 'a | InnerEntry 'k 'a

type_synonym ('o, 'w) machine = "'o list \<times> 'w"

record ('k, 'a, 'o, 'w) StateOps =
  StateType :: "'o \<Rightarrow> 'k"
  GetTransition :: "'o list \<Rightarrow> nat \<Rightarrow> ('k, 'a) Transition"
  AllocateState :: "'k \<Rightarrow> 'w \<Rightarrow> 'o \<times> 'w"
  OnEnter :: "'a \<Rightarrow> nat \<Rightarrow> ('o, 'w) machine \<Rightarrow> (('o, 'w) machine, unit) outcome"
  OnExit :: "nat \<Rightarrow> ('o, 'w) machine \<Rightarrow> (('o, 'w) machine, unit) outcome"
  Update :: "nat \<Rightarrow> ('o, 'w) machine \<Rightarrow> (('o, 'w) machine, unit) outcome"

text \<open>Creating a state, pushing it and entering it; the new state is the innermost.\<close>

definition PushState ::
  "('k, 'a, 'o, 'w) StateOps \<Rightarrow> 'k \<Rightarrow> 'a \<Rightarrow> ('o, 'w) machine \<Rightarrow> (('o, 'w) machine, unit) outcome" where
  "PushState ops k a m =
     (let new = AllocateState ops k (snd m)
      in OnEnter ops a (length (fst m)) (fst m @ [fst new], snd new))"

fun PopStates ::
  "('k, 'a, 'o, 'w) StateOps \<Rightarrow> nat \<Rightarrow> ('o, 'w) machine \<Rightarrow> (('o, 'w) machine, unit) outcome" where
  "PopStates ops 0 m = (m, Inr ())"
| "PopStates ops (Suc n) m =
     obind (OnExit ops (length (fst m) - 1) m) (\<lambda>m u. PopStates ops n (butlast (fst m), snd m))"

definition PopStatesToDepth ::
  "('k, 'a, 'o, 'w) StateOps \<Rightarrow> nat \<Rightarrow> ('o, 'w) machine \<Rightarrow> (('o, 'w) machine, unit) outcome" where
  "PopStatesToDepth ops depth m = PopStates ops (length (fst m) - depth) m"

definition replace_state ::
  "('k, 'a, 'o, 'w) StateOps \<Rightarrow> nat \<Rightarrow> 'k \<Rightarrow> 'a \<Rightarrow> ('o, 'w) machine \<Rightarrow> (('o, 'w) machine, bool) outcome" where
  "replace_state ops depth k a m =
     obind (PopStatesToDepth ops depth m) (\<lambda>m u. obind (PushState ops k a m) (\<lambda>m u. (m, Inr True)))"

text \<open>
  \<open>ProcessStateTransitionsOnce\<close> goes from the outermost state inwards and stops at the first state whose
  transition takes effect; the result is whether one did.
\<close>

fun process_depths ::
  "('k, 'a, 'o, 'w) StateOps \<Rightarrow> nat list \<Rightarrow> ('o, 'w) machine \<Rightarrow> (('o, 'w) machine, bool) outcome" where
  "process_depths ops [] m = (m, Inr False)"
| "process_depths ops (d # ds) m = (case GetTransition ops (fst m) d of
     No_Transition \<Rightarrow> process_depths ops ds m
   | Inner k a \<Rightarrow>
       if Suc d < length (fst m) \<and> StateType ops (fst m ! Suc d) = k then process_depths ops ds m
       else replace_state ops (Suc d) k a m
   | InnerEntry k a \<Rightarrow>
       if Suc d < length (fst m) then process_depths ops ds m else replace_state ops (Suc d) k a m
   | Sibling k a \<Rightarrow> replace_state ops d k a m)"

definition ProcessStateTransitionsOnce ::
  "('k, 'a, 'o, 'w) StateOps \<Rightarrow> ('o, 'w) machine \<Rightarrow> (('o, 'w) machine, bool) outcome" where
  "ProcessStateTransitionsOnce ops m = process_depths ops [0..<length (fst m)] m"

text \<open>The loop, with the number of rounds made so far; the thousandth round fails the assertion.\<close>

function process_loop ::
  "('k, 'a, 'o, 'w) StateOps \<Rightarrow> nat \<Rightarrow> ('o, 'w) machine \<Rightarrow> (('o, 'w) machine, unit) outcome" where
  "process_loop ops n m = (case ProcessStateTransitionsOnce ops m of
     (m, Inl e) \<Rightarrow> (m, Inl e)
   | (m, Inr keepProcessing) \<Rightarrow>
       if n + 1 \<ge> 1000 then (m, Inl Assertion_Failed)
       else if keepProcessing then process_loop ops (n + 1) m else (m, Inr ()))"
  by pat_completeness auto
termination by (relation "measure (\<lambda>(ops, n, m). 1000 - n)") auto

declare process_loop.simps [simp del]

definition ProcessStateTransitions ::
  "('k, 'a, 'o, 'w) StateOps \<Rightarrow> 'k \<times> 'a \<Rightarrow> ('o, 'w) machine \<Rightarrow> (('o, 'w) machine, unit) outcome" where
  "ProcessStateTransitions ops initial m =
     obind (if fst m = [] then PushState ops (fst initial) (snd initial) m else (m, Inr ()))
       (\<lambda>m u. process_loop ops 0 m)"

fun update_depths ::
  "('k, 'a, 'o, 'w) StateOps \<Rightarrow> nat list \<Rightarrow> ('o, 'w) machine \<Rightarrow> (('o, 'w) machine, unit) outcome" where
  "update_depths ops [] m = (m, Inr ())"
| "update_depths ops (d # ds) m = obind (Update ops d m) (\<lambda>m u. update_depths ops ds m)"

definition UpdateStates ::
  "('k, 'a, 'o, 'w) StateOps \<Rightarrow> ('o, 'w) machine \<Rightarrow> (('o, 'w) machine, unit) outcome" where
  "UpdateStates ops m = update_depths ops [0..<length (fst m)] m"

section \<open>Hierarchies\<close>

text \<open>
  A hierarchy gives each class the class it stands in. The stack is a path of the hierarchy when it
  starts with a class that stands in none and each class stands in the one before.
\<close>

definition path_of :: "('k \<Rightarrow> 'k option) \<Rightarrow> 'k list \<Rightarrow> bool" where
  "path_of outer ks \<longleftrightarrow>
     (\<forall>i < length ks. outer (ks ! i) = (if i = 0 then None else Some (ks ! (i - 1))))"

lemma path_of_Nil [simp]: "path_of outer []"
  by (simp add: path_of_def)

lemma path_of_snoc:
  "path_of outer (ks @ [k]) \<longleftrightarrow> path_of outer ks \<and> outer k = (if ks = [] then None else Some (last ks))"
  by (auto simp: path_of_def nth_append less_Suc_eq last_conv_nth)

lemma path_of_take: "path_of outer ks \<Longrightarrow> path_of outer (take n ks)"
  by (auto simp: path_of_def)

lemma obind_Inr_iff: "obind r f = (s, Inr b) \<longleftrightarrow> (\<exists>s' a. r = (s', Inr a) \<and> f s' a = (s, Inr b))"
  by (cases r; cases "snd r") (auto simp: obind_def split: sum.splits)

lemma obind_Inl_iff:
  "obind r f = (s, Inl e) \<longleftrightarrow> r = (s, Inl e) \<or> (\<exists>s' a. r = (s', Inr a) \<and> f s' a = (s, Inl e))"
  by (cases r; cases "snd r") (auto simp: obind_def split: sum.splits)

lemma last_take: "d < length xs \<Longrightarrow> last (take (Suc d) xs) = xs ! d"
  by (simp add: take_Suc_conv_app_nth)

text \<open>
  What the engine asks of its client: transitions respect the hierarchy, a new state is of the class
  asked for, and the functions of a state leave the classes on the stack alone.
\<close>

locale state_hierarchy =
  fixes ops :: "('k, 'a, 'o, 'w) StateOps"
    and outer :: "'k \<Rightarrow> 'k option"
    and initial :: "'k \<times> 'a"
  assumes initial_outermost: "outer (fst initial) = None"
    and sibling_outer: "d < length st \<Longrightarrow> GetTransition ops st d = Sibling k a
      \<Longrightarrow> outer k = outer (StateType ops (st ! d))"
    and inner_outer: "d < length st \<Longrightarrow> GetTransition ops st d \<in> {Inner k a, InnerEntry k a}
      \<Longrightarrow> outer k = Some (StateType ops (st ! d))"
    and new_type: "StateType ops (fst (AllocateState ops k w)) = k"
    and enter_types: "OnEnter ops a d m = (m', r) \<Longrightarrow> d < length (fst m)
      \<Longrightarrow> map (StateType ops) (fst m') = map (StateType ops) (fst m)"
    and exit_types: "OnExit ops d m = (m', r)
      \<Longrightarrow> map (StateType ops) (fst m') = map (StateType ops) (fst m)"
    and update_types: "Update ops d m = (m', r)
      \<Longrightarrow> map (StateType ops) (fst m') = map (StateType ops) (fst m)"
begin

abbreviation types :: "('o, 'w) machine \<Rightarrow> 'k list" where
  "types m \<equiv> map (StateType ops) (fst m)"

lemma types_length: "types m' = types m \<Longrightarrow> length (fst m') = length (fst m)"
  by (metis length_map)

lemma PushState_types:
  "PushState ops k a m = (m', r) \<Longrightarrow> types m' = types m @ [k]"
  using enter_types [of a "length (fst m)" "(fst m @ [fst (AllocateState ops k (snd m))], _)"]
  by (fastforce simp: PushState_def Let_def new_type)

lemma PopStates_types:
  "PopStates ops n m = (m', Inr ()) \<Longrightarrow> types m' = take (length (fst m) - n) (types m)"
proof (induction n arbitrary: m)
  case (Suc n)
  then obtain m1 where m1: "OnExit ops (length (fst m) - 1) m = (m1, Inr ())"
    and pop: "PopStates ops n (butlast (fst m1), snd m1) = (m', Inr ())"
    by (auto simp: obind_Inr_iff)
  have t: "types m1 = types m" using exit_types [OF m1] .
  show ?case
    using Suc.IH [OF pop] types_length [OF t] t
    by (auto simp: butlast_conv_take take_map [symmetric] min_def)
qed simp

lemma PopStatesToDepth_types:
  "PopStatesToDepth ops d m = (m', Inr ()) \<Longrightarrow> types m' = take d (types m)"
  using PopStates_types [of "length (fst m) - d" m m'] by (cases "d \<le> length (fst m)")
    (auto simp: PopStatesToDepth_def)

lemma replace_state_types:
  assumes "replace_state ops d k a m = (m', Inr b)"
  shows "b \<and> types m' = take d (types m) @ [k]"
  using assms by (auto simp: replace_state_def obind_Inr_iff
      dest!: PopStatesToDepth_types PushState_types)

lemma process_depths_path:
  assumes "process_depths ops ds m = (m', Inr b)" "path_of outer (types m)" "\<forall>d \<in> set ds. d < length (fst m)"
  shows "path_of outer (types m')"
  using assms
proof (induction ds)
  case (Cons d ds)
  have d: "d < length (fst m)" using Cons.prems by simp
  have path: "path_of outer (types m)" using Cons.prems by simp
  show ?case
  proof (cases "GetTransition ops (fst m) d")
    case No_Transition
    then show ?thesis using Cons by simp
  next
    case (Sibling k a)
    then have m': "types m' = take d (types m) @ [k]"
      using Cons.prems replace_state_types by fastforce
    have "outer k = (if d = 0 then None else Some (types m ! (d - 1)))"
      using sibling_outer [OF d Sibling] path d by (auto simp: path_of_def)
    then show ?thesis using d path_of_take [OF path, of d]
      by (auto simp: m' path_of_snoc last_conv_nth take_map [symmetric])
  next
    case (Inner k a)
    have o: "outer k = Some (types m ! d)"
      using inner_outer [OF d, of k a] Inner d by auto
    show ?thesis
    proof (cases "Suc d < length (fst m) \<and> StateType ops (fst m ! Suc d) = k")
      case True
      then show ?thesis using Cons Inner by simp
    next
      case False
      then have "replace_state ops (Suc d) k a m = (m', Inr b)"
        using Cons.prems Inner by (simp add: False)
      then have m': "types m' = take (Suc d) (types m) @ [k]"
        using replace_state_types by simp
      show ?thesis using o path_of_take [OF path, of "Suc d"] last_take [of d "types m"] d
        by (auto simp: m' path_of_snoc)
    qed
  next
    case (InnerEntry k a)
    have o: "outer k = Some (types m ! d)"
      using inner_outer [OF d, of k a] InnerEntry d by auto
    show ?thesis
    proof (cases "Suc d < length (fst m)")
      case True
      then show ?thesis using Cons InnerEntry by simp
    next
      case False
      then have "replace_state ops (Suc d) k a m = (m', Inr b)"
        using Cons.prems InnerEntry by simp
      then have m': "types m' = take (Suc d) (types m) @ [k]"
        using replace_state_types by simp
      show ?thesis using o path_of_take [OF path, of "Suc d"] last_take [of d "types m"] d
        by (auto simp: m' path_of_snoc)
    qed
  qed
qed simp

lemma once_path:
  "ProcessStateTransitionsOnce ops m = (m', Inr b) \<Longrightarrow> path_of outer (types m) \<Longrightarrow> path_of outer (types m')"
  using process_depths_path [of "[0..<length (fst m)]" m m' b]
  by (simp add: ProcessStateTransitionsOnce_def)

lemma process_loop_path:
  "process_loop ops n m = (m', Inr ()) \<Longrightarrow> path_of outer (types m) \<Longrightarrow> path_of outer (types m')"
proof (induction "1000 - n" arbitrary: n m rule: less_induct)
  case less
  obtain m1 b where once: "ProcessStateTransitionsOnce ops m = (m1, Inr b)" and n: "n + 1 < 1000"
    using less.prems(1) by (auto simp: process_loop.simps [of ops n m] split: prod.splits sum.splits if_splits)
  show ?case
  proof (cases b)
    case True
    then have "process_loop ops (n + 1) m1 = (m', Inr ())"
      using less.prems(1) once n by (simp add: process_loop.simps [of ops n m])
    then show ?thesis using less.hyps [of "n + 1" m1] n once_path [OF once less.prems(2)] by simp
  next
    case False
    then show ?thesis using less.prems once n once_path [OF once less.prems(2)]
      by (simp add: process_loop.simps [of ops n m])
  qed
qed

lemma process_path:
  assumes "ProcessStateTransitions ops initial m = (m', Inr ())" "path_of outer (types m)"
  shows "path_of outer (types m')"
proof (cases "fst m = []")
  case True
  then obtain m1 where m1: "PushState ops (fst initial) (snd initial) m = (m1, Inr ())"
    and loop: "process_loop ops 0 m1 = (m', Inr ())"
    using assms(1) by (auto simp: ProcessStateTransitions_def obind_Inr_iff)
  have "path_of outer (types m1)"
    using PushState_types [OF m1] initial_outermost True by (simp add: path_of_def)
  then show ?thesis using process_loop_path [OF loop] by simp
next
  case False
  then show ?thesis using assms process_loop_path [of 0 m m']
    by (simp add: ProcessStateTransitions_def)
qed

lemma update_depths_types: "update_depths ops ds m = (m', r) \<Longrightarrow> types m' = types m"
proof (induction ds arbitrary: m)
  case (Cons d ds)
  obtain m1 q where up: "Update ops d m = (m1, q)" by fastforce
  then show ?case using Cons update_types [OF up] by (cases q) auto
qed simp

lemma UpdateStates_types: "UpdateStates ops m = (m', r) \<Longrightarrow> types m' = types m"
  by (simp add: UpdateStates_def update_depths_types)

end

section \<open>Invariants\<close>

text \<open>
  An invariant is kept by the engine when it is kept by entering a new state, by leaving and dropping the
  innermost state, and by updates. The arguments that transitions carry may satisfy a condition, which
  entering a state can use; it can also use where in the hierarchy the state is.
\<close>

locale state_invariant = state_hierarchy ops outer initial
  for ops :: "('k, 'a, 'o, 'w) StateOps" and outer initial +
  fixes inv :: "('o, 'w) machine \<Rightarrow> bool"
    and args_ok :: "'a \<Rightarrow> bool"
  assumes initial_args: "args_ok (snd initial)"
    and transition_args: "inv m \<Longrightarrow> d < length (fst m)
      \<Longrightarrow> GetTransition ops (fst m) d \<in> {Sibling k a, Inner k a, InnerEntry k a} \<Longrightarrow> args_ok a"
    and push_inv: "inv m \<Longrightarrow> args_ok a \<Longrightarrow> path_of outer (map (StateType ops) (fst m) @ [k])
      \<Longrightarrow> PushState ops k a m = (m', Inr ()) \<Longrightarrow> inv m'"
    and pop_inv: "inv m \<Longrightarrow> fst m \<noteq> [] \<Longrightarrow> OnExit ops (length (fst m) - 1) m = (m', Inr ())
      \<Longrightarrow> inv (butlast (fst m'), snd m')"
    and update_inv: "inv m \<Longrightarrow> d < length (fst m) \<Longrightarrow> Update ops d m = (m', Inr ()) \<Longrightarrow> inv m'"
begin

lemma PopStates_inv:
  "PopStates ops n m = (m', Inr ()) \<Longrightarrow> n \<le> length (fst m) \<Longrightarrow> inv m \<Longrightarrow> inv m'"
proof (induction n arbitrary: m)
  case (Suc n)
  then obtain m1 where m1: "OnExit ops (length (fst m) - 1) m = (m1, Inr ())"
    and pop: "PopStates ops n (butlast (fst m1), snd m1) = (m', Inr ())"
    by (auto simp: obind_Inr_iff)
  have "fst m \<noteq> []" using Suc.prems by auto
  then have "inv (butlast (fst m1), snd m1)" using pop_inv [OF Suc.prems(3) _ m1] by simp
  then show ?case
    using Suc.IH [OF pop] types_length [OF exit_types [OF m1]] Suc.prems(2) by simp
qed simp

lemma replace_state_inv:
  assumes "replace_state ops d k a m = (m', Inr b)" "inv m" "args_ok a"
    "path_of outer (types m)" "path_of outer (types m')"
  shows "inv m'"
proof -
  obtain m1 where pop: "PopStatesToDepth ops d m = (m1, Inr ())"
    and push: "PushState ops k a m1 = (m', Inr ())"
    using assms(1) by (auto simp: replace_state_def obind_Inr_iff)
  have "inv m1" using pop PopStates_inv assms(2) by (auto simp: PopStatesToDepth_def)
  then show ?thesis using push_inv [OF _ assms(3) _ push] assms(5) PushState_types [OF push] by simp
qed

lemma process_depths_inv:
  assumes "process_depths ops ds m = (m', Inr b)" "path_of outer (types m)" "path_of outer (types m')"
    "\<forall>d \<in> set ds. d < length (fst m)" "inv m"
  shows "inv m'"
  using assms
proof (induction ds)
  case (Cons d ds)
  have d: "d < length (fst m)" using Cons.prems by simp
  show ?case
  proof (cases "GetTransition ops (fst m) d")
    case (Sibling k a)
    then show ?thesis using Cons.prems replace_state_inv [of d k a m m' b] transition_args [OF _ d, of k a]
      by auto
  next
    case (Inner k a)
    then show ?thesis using Cons replace_state_inv [of "Suc d" k a m m' b] transition_args [OF _ d, of k a]
      by (auto split: if_splits)
  next
    case (InnerEntry k a)
    then show ?thesis using Cons replace_state_inv [of "Suc d" k a m m' b] transition_args [OF _ d, of k a]
      by (auto split: if_splits)
  qed (use Cons in auto)
qed simp

lemma once_inv:
  assumes "ProcessStateTransitionsOnce ops m = (m', Inr b)" "path_of outer (types m)" "inv m"
  shows "path_of outer (types m') \<and> inv m'"
  using process_depths_inv [of "[0..<length (fst m)]" m m' b] once_path [OF assms(1,2)] assms
  by (simp add: ProcessStateTransitionsOnce_def)

lemma process_loop_inv:
  "process_loop ops n m = (m', Inr ()) \<Longrightarrow> path_of outer (types m) \<Longrightarrow> inv m \<Longrightarrow> inv m'"
proof (induction "1000 - n" arbitrary: n m rule: less_induct)
  case less
  obtain m1 b where once: "ProcessStateTransitionsOnce ops m = (m1, Inr b)" and n: "n + 1 < 1000"
    using less.prems(1) by (auto simp: process_loop.simps [of ops n m] split: prod.splits sum.splits if_splits)
  have m1: "path_of outer (types m1)" "inv m1" using once_inv [OF once] less.prems by auto
  show ?case
  proof (cases b)
    case True
    then have "process_loop ops (n + 1) m1 = (m', Inr ())"
      using less.prems(1) once n by (simp add: process_loop.simps [of ops n m])
    then show ?thesis using less.hyps [of "n + 1" m1] n m1 by simp
  next
    case False
    then show ?thesis using less.prems once n m1 by (simp add: process_loop.simps [of ops n m])
  qed
qed

lemma process_inv:
  assumes "ProcessStateTransitions ops initial m = (m', Inr ())" "path_of outer (types m)" "inv m"
  shows "inv m'"
proof (cases "fst m = []")
  case True
  then obtain m1 where m1: "PushState ops (fst initial) (snd initial) m = (m1, Inr ())"
    and loop: "process_loop ops 0 m1 = (m', Inr ())"
    using assms(1) by (auto simp: ProcessStateTransitions_def obind_Inr_iff)
  have p: "path_of outer (types m1)"
    using PushState_types [OF m1] initial_outermost True by (simp add: path_of_def)
  have "inv m1" using push_inv [OF assms(3) initial_args _ m1] PushState_types [OF m1] p by simp
  then show ?thesis using process_loop_inv [OF loop p] by simp
next
  case False
  then show ?thesis using assms process_loop_inv [of 0 m m'] by (simp add: ProcessStateTransitions_def)
qed

lemma update_depths_inv:
  "update_depths ops ds m = (m', Inr ()) \<Longrightarrow> \<forall>d \<in> set ds. d < length (fst m) \<Longrightarrow> inv m \<Longrightarrow> inv m'"
proof (induction ds arbitrary: m)
  case (Cons d ds)
  then obtain m1 where m1: "Update ops d m = (m1, Inr ())" and rest: "update_depths ops ds m1 = (m', Inr ())"
    by (auto simp: obind_Inr_iff)
  show ?case
    using Cons.IH [OF rest] update_inv [OF Cons.prems(3) _ m1] types_length [OF update_types [OF m1]]
      Cons.prems(2) by simp
qed simp

lemma UpdateStates_inv: "UpdateStates ops m = (m', Inr ()) \<Longrightarrow> inv m \<Longrightarrow> inv m'"
  by (auto simp: UpdateStates_def intro: update_depths_inv)

end

section \<open>Machines that settle\<close>

lemma process_depths_False:
  "process_depths ops ds m = (m', Inr False) \<Longrightarrow> m' = m"
proof (induction ds)
  case (Cons d ds)
  then show ?case
    by (auto simp: replace_state_def obind_Inr_iff split: Transition.splits if_splits)
qed simp

lemma once_False: "ProcessStateTransitionsOnce ops m = (m', Inr False) \<Longrightarrow> m' = m"
  by (simp add: ProcessStateTransitionsOnce_def process_depths_False)

text \<open>
  What a round does: the first transition that takes effect replaces the states from some depth on, or
  fails to.
\<close>

definition takes_effect :: "('k, 'a, 'o, 'w) StateOps \<Rightarrow> 'o list \<Rightarrow> nat \<Rightarrow> 'k \<Rightarrow> 'a \<Rightarrow> nat \<Rightarrow> bool" where
  "takes_effect ops st d k a n \<longleftrightarrow>
     (GetTransition ops st d = Sibling k a \<and> n = d)
   \<or> (GetTransition ops st d = Inner k a \<and> n = Suc d \<and> \<not> (n < length st \<and> StateType ops (st ! n) = k))
   \<or> (GetTransition ops st d = InnerEntry k a \<and> n = Suc d \<and> length st \<le> n)"

lemma process_depths_replaces:
  "process_depths ops ds m = (m', r) \<Longrightarrow> r \<noteq> Inr False \<Longrightarrow>
   \<exists>d \<in> set ds. \<exists>k a n. takes_effect ops (fst m) d k a n \<and> replace_state ops n k a m = (m', r)"
proof (induction ds)
  case (Cons d ds)
  then show ?case
    by (cases "GetTransition ops (fst m) d") (fastforce simp: takes_effect_def split: if_splits)+
qed simp

lemma once_replaces:
  assumes "ProcessStateTransitionsOnce ops m = (m', r)" "r \<noteq> Inr False"
  obtains d k a n where "d < length (fst m)" "takes_effect ops (fst m) d k a n"
    "replace_state ops n k a m = (m', r)"
  using process_depths_replaces [of ops "[0..<length (fst m)]" m m' r] assms
  by (auto simp: ProcessStateTransitionsOnce_def)

text \<open>
  A machine settles when each transition lowers a rank. The invariant is one that a round of the loop
  keeps; errors of the client's functions end the loop.
\<close>

locale settling =
  fixes ops :: "('k, 'a, 'o, 'w) StateOps"
    and inv :: "('o, 'w) machine \<Rightarrow> bool"
    and rank :: "('o, 'w) machine \<Rightarrow> nat"
  assumes round: "inv m \<Longrightarrow> ProcessStateTransitionsOnce ops m = (m', Inr True) \<Longrightarrow> inv m' \<and> rank m' < rank m"
    and round_error: "inv m \<Longrightarrow> ProcessStateTransitionsOnce ops m = (m', Inl e) \<Longrightarrow> e \<noteq> Assertion_Failed"
begin

lemma loop_settles:
  assumes "inv m" "rank m + n < 999" "process_loop ops n m = (m', r)"
  shows "r \<noteq> Inl Assertion_Failed \<and>
    (r = Inr () \<longrightarrow> inv m' \<and> rank m' \<le> rank m \<and> ProcessStateTransitionsOnce ops m' = (m', Inr False))"
  using assms
proof (induction "rank m" arbitrary: m n rule: less_induct)
  case less
  obtain m1 q where once: "ProcessStateTransitionsOnce ops m = (m1, q)" by fastforce
  show ?case
  proof (cases q)
    case (Inl e)
    then show ?thesis using less.prems once round_error [of m m1 e]
      by (auto simp: process_loop.simps [of ops n m])
  next
    case (Inr b)
    show ?thesis
    proof (cases b)
      case True
      then have r1: "inv m1" "rank m1 < rank m" using round [of m m1] less.prems once Inr by auto
      have "process_loop ops (n + 1) m1 = (m', r)" using less.prems once Inr True
        by (simp add: process_loop.simps [of ops n m])
      then show ?thesis using less.hyps [OF r1(2) r1(1), of "n + 1"] less.prems r1 by auto
    next
      case False
      then have "m1 = m" using once_False [of ops m m1] once Inr by simp
      then show ?thesis using less.prems once Inr False
        by (auto simp: process_loop.simps [of ops n m])
    qed
  qed
qed

end

end
