(* ===== verification/Flight_Data.thy ===== *)
theory Flight_Data
  imports Prelude
begin

text \<open>
  Data of the flight state machine: the names of its states (\<open>data/mace_hsm_state.h\<close>), the progress
  towards a target (\<open>module_vehicle_ardupilot/ardupilot_target_progess.{h,cpp}\<close>) and the thread that is to
  repeat guided targets (\<open>guided_timeout_controller.{h,cpp}\<close> on \<open>common/thread_manager.h\<close>).
\<close>

section \<open>The states\<close>

datatype MACEHSMState =
    STATE_GROUNDED
  | STATE_GROUNDED_IDLE
  | STATE_GROUNDED_ARMING
  | STATE_GROUNDED_ARMED
  | STATE_GROUNDED_DISARMING
  | STATE_GROUNDED_DISARMED
  | STATE_TAKEOFF
  | STATE_TAKEOFF_CLIMBING
  | STATE_TAKEOFF_TRANSITIONING
  | STATE_TAKEOFF_COMPLETE
  | STATE_FLIGHT
  | STATE_FLIGHT_AUTO
  | STATE_FLIGHT_BRAKE
  | STATE_FLIGHT_LAND
  | STATE_FLIGHT_LOITER
  | STATE_FLIGHT_MANUAL
  | STATE_FLIGHT_STABILIZE
  | STATE_FLIGHT_RTL
  | STATE_FLIGHT_FBW
  | STATE_FLIGHT_UNKNOWN
  | STATE_LANDING
  | STATE_LANDING_TRANSITIONING
  | STATE_LANDING_DESCENDING
  | STATE_LANDING_COMPLETE
  | STATE_FLIGHT_GUIDED
  | STATE_FLIGHT_GUIDED_IDLE
  | STATE_FLIGHT_GUIDED_SPATIALITEM
  | STATE_FLIGHT_GUIDED_QUEUE
  | STATE_FLIGHT_GUIDED_ATTTARGET
  | STATE_FLIGHT_GUIDED_GEOTARGET
  | STATE_FLIGHT_GUIDED_CARTARGET
  | STATE_UNKNOWN

fun MACEHSMStateToString :: "MACEHSMState \<Rightarrow> string" where
  "MACEHSMStateToString STATE_GROUNDED = ''Grounded''"
| "MACEHSMStateToString STATE_GROUNDED_IDLE = ''Grounded Idle''"
| "MACEHSMStateToString STATE_GROUNDED_ARMING = ''Grounded Arming''"
| "MACEHSMStateToString STATE_GROUNDED_ARMED = ''Grounded Armed''"
| "MACEHSMStateToString STATE_GROUNDED_DISARMING = ''Grounded Disarming''"
| "MACEHSMStateToString STATE_GROUNDED_DISARMED = ''Grounded Disarmed''"
| "MACEHSMStateToString STATE_TAKEOFF = ''Flight Takeoff''"
| "MACEHSMStateToString STATE_TAKEOFF_CLIMBING = ''Flight Takeoff Climbing''"
| "MACEHSMStateToString STATE_TAKEOFF_TRANSITIONING = ''Flight Takeoff Transitioning''"
| "MACEHSMStateToString STATE_TAKEOFF_COMPLETE = ''Flight Takeoff Complete''"
| "MACEHSMStateToString STATE_FLIGHT = ''Flight''"
| "MACEHSMStateToString STATE_FLIGHT_AUTO = ''Flight Auto''"
| "MACEHSMStateToString STATE_FLIGHT_BRAKE = ''Flight Brake''"
| "MACEHSMStateToString STATE_FLIGHT_LAND = ''Flight Land''"
| "MACEHSMStateToString STATE_FLIGHT_LOITER = ''Flight Loiter''"
| "MACEHSMStateToString STATE_FLIGHT_MANUAL = ''Flight Manual''"
| "MACEHSMStateToString STATE_FLIGHT_STABILIZE = ''Flight Stabilize''"
| "MACEHSMStateToString STATE_FLIGHT_RTL = ''Flight RTL''"
| "MACEHSMStateToString STATE_FLIGHT_FBW = ''Flight FBW''"
| "MACEHSMStateToString STATE_FLIGHT_UNKNOWN = ''Flight Unknown''"
| "MACEHSMStateToString STATE_LANDING = ''Flight Landing''"
| "MACEHSMStateToString STATE_LANDING_TRANSITIONING = ''Flight Landing Transitioning''"
| "MACEHSMStateToString STATE_LANDING_DESCENDING = ''Flight Landing Descent''"
| "MACEHSMStateToString STATE_LANDING_COMPLETE = ''Flight Landing Complete''"
| "MACEHSMStateToString STATE_FLIGHT_GUIDED = ''Flight Guided''"
| "MACEHSMStateToString STATE_FLIGHT_GUIDED_IDLE = ''Flight Guided Idle''"
| "MACEHSMStateToString STATE_FLIGHT_GUIDED_SPATIALITEM = ''Flight Guided Spatial Item''"
| "MACEHSMStateToString STATE_FLIGHT_GUIDED_QUEUE = ''Flight Guided Queue''"
| "MACEHSMStateToString STATE_FLIGHT_GUIDED_ATTTARGET = ''Flight Guided AttTarget''"
| "MACEHSMStateToString STATE_FLIGHT_GUIDED_GEOTARGET = ''Flight Guided GeoTarget''"
| "MACEHSMStateToString STATE_FLIGHT_GUIDED_CARTARGET = ''Flight Guided CartTarget''"
| "MACEHSMStateToString STATE_UNKNOWN = ''Unknown''"

text \<open>The comparisons of \<open>MACEHSMStateFromString\<close>, in their order.\<close>

definition hsm_state_names :: "(string \<times> MACEHSMState) list" where
  "hsm_state_names =
    [(''Grounded'', STATE_GROUNDED),
     (''Grounded Idle'', STATE_GROUNDED_IDLE),
     (''Grounded Arming'', STATE_GROUNDED_ARMING),
     (''Grounded Armed'', STATE_GROUNDED_ARMED),
     (''Grounded Disarming'', STATE_GROUNDED_DISARMING),
     (''Grounded Disarmed'', STATE_GROUNDED_DISARMED),
     (''Flight'', STATE_FLIGHT),
     (''Flight Takeoff'', STATE_TAKEOFF),
     (''Flight Takeoff Climbing'', STATE_TAKEOFF_CLIMBING),
     (''Flight Takeoff Transitioning'', STATE_TAKEOFF_TRANSITIONING),
     (''Flight Takeoff Complete'', STATE_TAKEOFF_COMPLETE),
     (''Flight Manual'', STATE_FLIGHT_MANUAL),
     (''Flight Stabilize'', STATE_FLIGHT_STABILIZE),
     (''Flight Guided'', STATE_FLIGHT_GUIDED),
     (''Flight Guided Idle'', STATE_FLIGHT_GUIDED_IDLE),
     (''Flight Guided Spatial Item'', STATE_FLIGHT_GUIDED_SPATIALITEM),
     (''Flight Guided Queue'', STATE_FLIGHT_GUIDED_QUEUE),
     (''Flight Guided AttTarget'', STATE_FLIGHT_GUIDED_ATTTARGET),
     (''Flight Guided GeoTarget'', STATE_FLIGHT_GUIDED_GEOTARGET),
     (''Flight Guided CartTarget'', STATE_FLIGHT_GUIDED_CARTARGET),
     (''Flight Auto'', STATE_FLIGHT_AUTO),
     (''Flight Brake'', STATE_FLIGHT_BRAKE),
     (''Flight RTL'', STATE_FLIGHT_RTL),
     (''Flight Loiter'', STATE_FLIGHT_LOITER),
     (''Flight Brake'', STATE_FLIGHT_BRAKE),
     (''Flight FBW'', STATE_FLIGHT_FBW),
     (''Flight Land'', STATE_FLIGHT_LAND),
     (''Flight Landing'', STATE_LANDING),
     (''Flight Landing Transitioning'', STATE_LANDING_TRANSITIONING),
     (''Flight Landing Descent'', STATE_LANDING_DESCENDING),
     (''Flight Landing Complete'', STATE_LANDING_COMPLETE),
     (''Flight Unknown'', STATE_FLIGHT_UNKNOWN),
     (''Unknown'', STATE_UNKNOWN)]"

definition MACEHSMStateFromString :: "string \<Rightarrow> cpp_error + MACEHSMState" where
  "MACEHSMStateFromString str = (case map_of hsm_state_names str of
     Some s \<Rightarrow> Inr s
   | None \<Rightarrow> Inl (Runtime_Error ''Unknown MACE HSM state string seen''))"

text \<open>
  The names of the states of the flight state machine are read back, and only they are read:
  \<open>MACEHSMStateFromString\<close> is the inverse of \<open>MACEHSMStateToString\<close>.
\<close>

lemma hsm_state_names_roundtrip:
  "MACEHSMStateFromString str = Inr s \<longleftrightarrow> str = MACEHSMStateToString s"
proof
  assume "MACEHSMStateFromString str = Inr s"
  then have "(str, s) \<in> set hsm_state_names"
    by (auto simp: MACEHSMStateFromString_def split: option.splits dest: map_of_SomeD)
  then show "str = MACEHSMStateToString s"
    by (auto simp: hsm_state_names_def)
next
  assume "str = MACEHSMStateToString s"
  then show "MACEHSMStateFromString str = Inr s"
    by (cases s) (simp_all add: MACEHSMStateFromString_def hsm_state_names_def)
qed

section \<open>Progress towards a target\<close>

definition dbl_le :: "dbl \<Rightarrow> dbl \<Rightarrow> bool" where
  "dbl_le a b \<longleftrightarrow> dbl_lt a b \<or> (a = b \<and> a \<noteq> NaN)"

datatype ControllerState = TRACKING | HUNTING | ACHIEVED

text \<open>The two starting times, which nothing reads, are left out.\<close>

record ArdupilotTargetProgess =
  progress_state :: ControllerState
  distanceThresholdAchieved :: dbl
  distanceThresholdHunting :: dbl
  maxDuration_Hunting :: dbl

definition ArdupilotTargetProgess_new :: "dbl \<Rightarrow> dbl \<Rightarrow> dbl \<Rightarrow> ArdupilotTargetProgess" where
  "ArdupilotTargetProgess_new achievedDistance huntingDistance maxHuntingDuration =
     \<lparr>progress_state = TRACKING, distanceThresholdAchieved = achievedDistance,
      distanceThresholdHunting = huntingDistance, maxDuration_Hunting = maxHuntingDuration\<rparr>"

definition updateTargetState :: "dbl \<Rightarrow> ArdupilotTargetProgess \<Rightarrow> ArdupilotTargetProgess" where
  "updateTargetState distance p =
     (if dbl_lt (distanceThresholdHunting p) distance then p\<lparr>progress_state := TRACKING\<rparr>
      else if dbl_le distance (distanceThresholdHunting p) \<and> dbl_lt (distanceThresholdAchieved p) distance
      then p\<lparr>progress_state := HUNTING\<rparr>
      else if dbl_le distance (distanceThresholdAchieved p) then p\<lparr>progress_state := ACHIEVED\<rparr>
      else p)"

definition target_achieved :: "ArdupilotTargetProgess \<Rightarrow> bool" where
  "target_achieved p \<longleftrightarrow> progress_state p = ACHIEVED"

section \<open>Repeating a guided target\<close>

text \<open>
  \<open>GuidedTimeoutController\<close> is a \<open>Thread\<close>: \<open>mThread\<close> says that its thread exists, \<open>mToExit\<close> that it is asked
  to end. What the thread is to take over is queued as a lambda, here the target it sets.
  \<open>isThreadActive\<close> is as in \<open>thread_manager.h\<close>: it looks at \<open>mToExit\<close> only.
\<close>

record 't GuidedTimeoutController =
  mThread :: bool
  mToExit :: bool
  m_LambdasToRun :: "'t list"
  m_CurrentTarget :: "'t option"
  m_Timeout_running :: bool

definition GuidedTimeoutController_new :: "'t GuidedTimeoutController" where
  "GuidedTimeoutController_new =
     \<lparr>mThread = False, mToExit = False, m_LambdasToRun = [], m_CurrentTarget = None,
      m_Timeout_running = False\<rparr>"

definition isThreadActive :: "'t GuidedTimeoutController \<Rightarrow> bool" where
  "isThreadActive g = (if mToExit g = False then True else False)"

text \<open>Stopping joins the thread, which drops what is queued and stops the timer before it ends.\<close>

definition Thread_stop :: "'t GuidedTimeoutController \<Rightarrow> 't GuidedTimeoutController" where
  "Thread_stop g = (if mThread g
     then g\<lparr>mToExit := True, m_LambdasToRun := [], m_Timeout_running := False, mThread := False\<rparr> else g)"

definition Thread_start :: "'t GuidedTimeoutController \<Rightarrow> 't GuidedTimeoutController" where
  "Thread_start g = (Thread_stop g)\<lparr>mToExit := False, mThread := True\<rparr>"

definition clearTarget :: "'t GuidedTimeoutController \<Rightarrow> 't GuidedTimeoutController" where
  "clearTarget g = Thread_stop g"

definition registerCurrentTarget :: "'t \<Rightarrow> 't GuidedTimeoutController \<Rightarrow> 't GuidedTimeoutController" where
  "registerCurrentTarget commandTarget g =
     (if isThreadActive g then g\<lparr>m_LambdasToRun := m_LambdasToRun g @ [commandTarget]\<rparr>
      else Thread_start (g\<lparr>m_CurrentTarget := Some commandTarget, m_Timeout_running := True\<rparr>))"

text \<open>
  One round of the thread's loop: the queued targets are taken over, and when the timeout has
  elapsed the current target is given to the callback.
\<close>

definition timeout_round :: "bool \<Rightarrow> 't GuidedTimeoutController \<Rightarrow> 't GuidedTimeoutController \<times> 't option list" where
  "timeout_round elapsed g =
     (if \<not> mThread g then (g, [])
      else let g = (if m_LambdasToRun g = [] then g
                    else g\<lparr>m_CurrentTarget := Some (last (m_LambdasToRun g)), m_LambdasToRun := [],
                           m_Timeout_running := True\<rparr>)
           in (g, if elapsed then [m_CurrentTarget g] else []))"

lemma timeout_thread_never_starts:
  assumes "set fs \<subseteq> insert clearTarget (range registerCurrentTarget \<union> range (\<lambda>e g. fst (timeout_round e g)))"
    "\<not> mThread g \<and> \<not> mToExit g"
  shows "\<not> mThread (fold (\<lambda>f. f) fs g) \<and> \<not> mToExit (fold (\<lambda>f. f) fs g)"
  using assms
proof (induction fs arbitrary: g)
  case (Cons f fs)
  have "\<not> mThread (f g) \<and> \<not> mToExit (f g)"
    using Cons.prems
    by (auto simp: clearTarget_def Thread_stop_def registerCurrentTarget_def isThreadActive_def timeout_round_def)
  then show ?case using Cons.IH [of "f g"] Cons.prems(1) by simp
qed simp

text \<open>
  A guided target is sent once and never repeated: however targets are registered and cleared, the thread that is
  to repeat them is not started, since a thread that was never started counts as active.
\<close>

lemma guided_targets_never_repeated:
  assumes "set fs \<subseteq> insert clearTarget (range registerCurrentTarget \<union> range (\<lambda>e g. fst (timeout_round e g)))"
  shows "snd (timeout_round elapsed (fold (\<lambda>f. f) fs GuidedTimeoutController_new)) = []"
  using timeout_thread_never_starts [OF assms, of GuidedTimeoutController_new]
  by (simp add: GuidedTimeoutController_new_def timeout_round_def)

lemma guided_targets_never_repeated_witness:
  "snd (timeout_round True (fold (\<lambda>f. f)
     [registerCurrentTarget 3, registerCurrentTarget 4, clearTarget, registerCurrentTarget (5 :: nat)]
     GuidedTimeoutController_new)) = []"
  by (rule guided_targets_never_repeated) auto

end
