(* ===== verification/Flight_Controllers.thy ===== *)
theory Flight_Controllers
  imports Prelude
begin

text \<open>
  The controllers of a vehicle and its observed data, as the flight states use them: the life of a
  controller in \<open>controllers/generic_controller.h\<close> with \<open>actions/action_send.h\<close> and
  \<open>actions/action_finish.h\<close>, the collection of controllers in \<open>controllers/controller_collection.h\<close>, and
  the notifiers of \<open>data/data_get_set_notifier.h\<close>.

  Controllers and states are objects on the heap and named by addresses that are never given twice. What
  a lambda does when it is called is given by its name; the states define it. A message is represented
  by the request it carries. The thread that \<open>Shutdown\<close> detaches runs as one step, at any later time. The
  requests that are queued in the shared retransmission queue (theory \<open>Transmit_Queue\<close>) are represented
  by the controllers that queued them: a controller sends to one vehicle only, so that it has at most one.
\<close>

section \<open>Commands\<close>

datatype CoordinateSystemTypes = CARTESIAN | GEODETIC | NOT_IMPLIED | UNKNOWN

text \<open>
  What the flight states look at in a position: its system, its dimension, whether a translational
  component is set, and the altitude if it is set.
\<close>

record Position =
  coordinateSystem :: CoordinateSystemTypes
  is3D :: bool
  areTranslationalComponentsValid :: bool
  targetAltitude :: "dbl option"

datatype MissionCommandAction = MISSIONCA_START | MISSIONCA_PAUSE | MISSIONCA_RESUME

text \<open>A kinematic target has a position or none, and all of its velocities are valid or not.\<close>

datatype DynamicTarget = KINEMATIC "Position option" bool | ORIENTATION

text \<open>
  The commands a vehicle is given, with \<open>None\<close> for a null pointer: the position of a spatial command, the
  spatial action of \<open>Action_ExecuteSpatialItem\<close> (whether it is a waypoint, and its position), the
  target of \<open>Action_DynamicTarget\<close>. A home is set to the current position or to the given one.
\<close>

datatype Command =
    ActionArm bool
  | SpatialTakeoff "Position option"
  | SpatialLand "Position option"
  | SpatialRTL
  | ActionMissionCommand MissionCommandAction
  | ActionChangeMode string
  | SpatialHome bool "Position option"
  | Action_ExecuteSpatialItem "(bool \<times> Position option) option"
  | Action_DynamicTarget "DynamicTarget option"

section \<open>Lambdas\<close>

text \<open>
  The lambdas given to \<open>AddLambda_Finished\<close>, by the state that gives them; those given to
  \<open>setLambda_Shutdown\<close>, which remove what stands under a name, and, when \<open>prepareModeController\<close> gave them,
  tell their state; those given to \<open>AddNotifier\<close>.
\<close>

datatype FinishLambda =
    ModeController_Finished
  | HomeController_Finished
  | GroundedDisarmed_Finished
  | GroundedArming_Finished
  | GroundedDisarming_Finished
  | Takeoff_Finished
  | Takeoff_ChangeMode_Finished
  | TakeoffClimbing_Finished
  | TakeoffTransitioning_Finished
  | Landing_Finished
  | LandingTransitioning_Finished
  | LandingDescent_Finished
  | Flight_MissionCommand_Finished
  | FlightRTL_Finished
  | GoTo_Finished

datatype ShutdownLambda = Remove_Named string | Remove_And_Notify nat string

datatype Notifier =
    Climb_Notifier Position dbl
  | TakeoffTransition_Notifier Position
  | LandingTransition_Notifier Position
  | Descent_Notifier dbl
  | GoTo_Notifier Position

section \<open>The vehicle\<close>

datatype ControllerKind =
    ControllerSystemMode | CommandARM | CommandTakeoff | CommandLand | CommandRTL
  | Command_HomePositionSet | ControllerGuidedMissionItem | ControllerGuidedTargetItem

datatype Request =
    Request_Mode string
  | Request_Arm bool
  | Request_Takeoff Position
  | Request_Land "Position option"
  | Request_RTL
  | Request_Home bool "Position option"
  | Request_GoTo Position
  | Request_Target DynamicTarget

record Controller =
  controllerKind :: ControllerKind
  m_FinishLambda :: "(nat, FinishLambda) umap"
  m_ShutdownLambda :: "ShutdownLambda option"
  isControllerActive :: bool
  m_MessageBehaviors :: bool   \<comment> \<open>until they are cleared\<close>

text \<open>
  When the thread of \<open>Shutdown\<close> runs, next to the call that started it: before that call goes on, before
  it creates the next controller, or later.
\<close>

datatype Schedule = Thread_First | Thread_Between | Thread_Later

record Vehicle =
  vehicleArm :: "bool option"
  vehicleMode :: "string option"
  systemTypeRotary :: bool
  controllers :: "(string, nat) umap"
  live :: "(nat, Controller) umap"
  transmissions :: "nat list"
  shutdowns :: "nat list"
  globalNotifiers :: "(nat, Notifier) umap"
  localNotifiers :: "(nat, Notifier) umap"
  modeNotifiers :: "nat list"
  requests :: "Request list"
  fresh :: nat
  schedule :: Schedule

definition Vehicle_new :: Vehicle where
  "Vehicle_new =
     \<lparr>vehicleArm = None, vehicleMode = None, systemTypeRotary = False, controllers = [], live = [],
      transmissions = [], shutdowns = [], globalNotifiers = [], localNotifiers = [], modeNotifiers = [],
      requests = [], fresh = 0, schedule = Thread_Later\<rparr>"

text \<open>What \<open>get\<close> returns; items that were never set have the values of their default constructors.\<close>

definition getSystemArm :: "Vehicle \<Rightarrow> bool" where
  "getSystemArm w = (vehicleArm w = Some True)"

definition getFlightModeString :: "Vehicle \<Rightarrow> string" where
  "getFlightModeString w = (case vehicleMode w of None \<Rightarrow> '''' | Some s \<Rightarrow> s)"

section \<open>Controllers\<close>

definition new_controller :: "ControllerKind \<Rightarrow> Vehicle \<Rightarrow> nat \<times> Vehicle" where
  "new_controller k w =
     (fresh w,
      w\<lparr>fresh := fresh w + 1,
        live := um_put (fresh w)
          \<lparr>controllerKind = k, m_FinishLambda = [], m_ShutdownLambda = None,
           isControllerActive = False, m_MessageBehaviors = True\<rparr> (live w)\<rparr>)"

definition modify_controller :: "nat \<Rightarrow> (Controller \<Rightarrow> Controller) \<Rightarrow> Vehicle \<Rightarrow> Vehicle" where
  "modify_controller i f w = (case map_of (live w) i of
     None \<Rightarrow> w
   | Some c \<Rightarrow> w\<lparr>live := um_put i (f c) (live w)\<rparr>)"

definition AddLambda_Finished :: "nat \<Rightarrow> nat \<Rightarrow> FinishLambda \<Rightarrow> Vehicle \<Rightarrow> Vehicle" where
  "AddLambda_Finished i host l =
     modify_controller i (\<lambda>c. c\<lparr>m_FinishLambda := um_insert host l (m_FinishLambda c)\<rparr>)"

definition setLambda_Shutdown :: "nat \<Rightarrow> ShutdownLambda \<Rightarrow> Vehicle \<Rightarrow> Vehicle" where
  "setLambda_Shutdown i l = modify_controller i (\<lambda>c. c\<lparr>m_ShutdownLambda := Some l\<rparr>)"

text \<open>
  \<open>Send\<close> makes the controller active and queues the request; one that is still queued for the same vehicle
  makes the queue ignore it.
\<close>

definition Send :: "nat \<Rightarrow> Request \<Rightarrow> Vehicle \<Rightarrow> Vehicle" where
  "Send i r w =
     (let w = modify_controller i (\<lambda>c. c\<lparr>isControllerActive := True\<rparr>) w
      in if i \<in> set (transmissions w) then w
         else w\<lparr>transmissions := transmissions w @ [i], requests := requests w @ [r]\<rparr>)"

definition Broadcast :: "Request \<Rightarrow> Vehicle \<Rightarrow> Vehicle" where
  "Broadcast r w = w\<lparr>requests := requests w @ [r]\<rparr>"

text \<open>The thread of \<open>Shutdown\<close> is started.\<close>

definition Shutdown :: "nat \<Rightarrow> Vehicle \<Rightarrow> Vehicle" where
  "Shutdown i w = w\<lparr>shutdowns := shutdowns w @ [i]\<rparr>"

section \<open>The collection\<close>

definition collection_At :: "string \<Rightarrow> Vehicle \<Rightarrow> nat option" where
  "collection_At name w = map_of (controllers w) name"

definition collection_Exist :: "string \<Rightarrow> Vehicle \<Rightarrow> bool" where
  "collection_Exist name w = (map_of (controllers w) name \<noteq> None)"

definition collection_Insert :: "string \<Rightarrow> nat \<Rightarrow> Vehicle \<Rightarrow> Vehicle" where
  "collection_Insert name i w = w\<lparr>controllers := um_insert name i (controllers w)\<rparr>"

definition collection_Remove :: "string \<Rightarrow> Vehicle \<Rightarrow> nat option \<times> Vehicle" where
  "collection_Remove name w =
     (map_of (controllers w) name, w\<lparr>controllers := um_erase name (controllers w)\<rparr>)"

text \<open>\<open>delete\<close> of what \<open>Remove\<close> returned; deleting a null pointer does nothing.\<close>

definition delete_controller :: "nat option \<Rightarrow> Vehicle \<Rightarrow> Vehicle" where
  "delete_controller p w = (case p of None \<Rightarrow> w | Some i \<Rightarrow> w\<lparr>live := um_erase i (live w)\<rparr>)"

text \<open>\<open>ForAll\<close> with \<open>RemoveHost\<close>, as every state calls it when it is left.\<close>

definition RemoveHost :: "nat \<Rightarrow> Controller \<Rightarrow> Controller" where
  "RemoveHost host c = c\<lparr>m_FinishLambda := um_erase host (m_FinishLambda c)\<rparr>"

definition ForAll :: "(Controller \<Rightarrow> Controller) \<Rightarrow> Vehicle \<Rightarrow> Vehicle" where
  "ForAll f w = fold (\<lambda>e. modify_controller (snd e) f) (controllers w) w"

text \<open>
  The steps with which the states bring a controller to work: create it, add the lambdas, send the
  request, insert it.
\<close>

definition start_controller ::
  "ControllerKind \<Rightarrow> nat \<Rightarrow> FinishLambda \<Rightarrow> string \<Rightarrow> Request \<Rightarrow> Vehicle \<Rightarrow> Vehicle" where
  "start_controller k host l name r w =
     (let (i, w) = new_controller k w;
          w = AddLambda_Finished i host l w;
          w = setLambda_Shutdown i (Remove_Named name) w;
          w = Send i r w
      in collection_Insert name i w)"

section \<open>Notifiers\<close>

definition AddNotifier :: "nat \<Rightarrow> 'n \<Rightarrow> (nat, 'n) umap \<Rightarrow> (nat, 'n) umap" where
  "AddNotifier obj func m_Funcs =
     (if map_of m_Funcs obj = None then um_insert obj func m_Funcs else um_put obj func m_Funcs)"

definition RemoveNotifier :: "nat \<Rightarrow> (nat, 'n) umap \<Rightarrow> (nat, 'n) umap" where
  "RemoveNotifier obj m_Funcs =
     (if map_of m_Funcs obj \<noteq> None then um_erase obj m_Funcs else m_Funcs)"

text \<open>Whether \<open>set\<close> takes the value, and then calls the notifiers.\<close>

definition set_takes :: "'v option \<Rightarrow> 'v \<Rightarrow> bool" where
  "set_takes old v \<longleftrightarrow> old \<noteq> Some v"

end
