(* ===== verification/Flight_States.thy ===== *)
theory Flight_States
  imports HSM Flight_Data Flight_Controllers
begin

text \<open>
  The flight states of a copter: \<open>module_vehicle_ardupilot/flight_states/abstract_state_ardupilot\<close> and
  \<open>abstract_root_state\<close>, and the thirty states in \<open>module_vehicle_arducopter/flight_states\<close>.

  A state is a record with the fields of its class; \<open>currentState\<close>, which the constructor sets to the
  enumerator of the class and nothing changes, is its class as well. The functions of a state are given
  the depth at which it stands; \<open>None\<close> as an argument of \<open>OnEnter\<close> is the null pointer, \<open>No_Args\<close> the
  overload without an argument. Printing is left out.
\<close>

section \<open>States\<close>

record StateObject =
  this :: nat
  currentState :: MACEHSMState
  desiredState :: MACEHSMState
  currentCommand :: "Command option"
  m_oldModeControllerShutdown :: bool
  guidedProgress :: ArdupilotTargetProgess
  commandAccepted :: bool
  m_TimeoutController :: "DynamicTarget GuidedTimeoutController"

datatype OnEnterArgs = No_Args | Command_Arg "Command option"

type_synonym copter = "(StateObject, Vehicle) machine"
type_synonym copter_transition = "(MACEHSMState, OnEnterArgs) Transition"

text \<open>
  The constructors: the state it is in is the one it desires. Four classes follow their progress from
  one metre, the descent from zero.
\<close>

definition AllocateState_copter :: "MACEHSMState \<Rightarrow> Vehicle \<Rightarrow> StateObject \<times> Vehicle" where
  "AllocateState_copter k w =
     (\<lparr>this = fresh w, currentState = k, desiredState = k, currentCommand = None,
       m_oldModeControllerShutdown = False,
       guidedProgress =
         (if k = STATE_LANDING_DESCENDING then ArdupilotTargetProgess_new (Fin 0) (Fin 10) (Fin 10)
          else if k \<in> {STATE_TAKEOFF_CLIMBING, STATE_TAKEOFF_TRANSITIONING, STATE_LANDING_TRANSITIONING,
                       STATE_FLIGHT_GUIDED_SPATIALITEM}
          then ArdupilotTargetProgess_new (Fin 1) (Fin 10) (Fin 10)
          else ArdupilotTargetProgess_new (Fin (1 / 2)) (Fin 10) (Fin 20)),
       commandAccepted = False, m_TimeoutController = GuidedTimeoutController_new\<rparr>,
      w\<lparr>fresh := fresh w + 1\<rparr>)"

definition state_at :: "nat \<Rightarrow> copter \<Rightarrow> StateObject" where
  "state_at d m = fst m ! d"

definition update_state :: "nat \<Rightarrow> (StateObject \<Rightarrow> StateObject) \<Rightarrow> copter \<Rightarrow> copter" where
  "update_state d f m = ((fst m)[d := f (fst m ! d)], snd m)"

definition update_vehicle :: "(Vehicle \<Rightarrow> Vehicle) \<Rightarrow> copter \<Rightarrow> copter" where
  "update_vehicle f m = (fst m, f (snd m))"

definition setDesiredStateEnum :: "nat \<Rightarrow> MACEHSMState \<Rightarrow> copter \<Rightarrow> copter" where
  "setDesiredStateEnum d s = update_state d (\<lambda>x. x\<lparr>desiredState := s\<rparr>)"

definition clearCommand :: "nat \<Rightarrow> copter \<Rightarrow> copter" where
  "clearCommand d = update_state d (\<lambda>x. x\<lparr>currentCommand := None\<rparr>)"

definition setCurrentCommand :: "nat \<Rightarrow> Command \<Rightarrow> copter \<Rightarrow> copter" where
  "setCurrentCommand d c = update_state d (\<lambda>x. x\<lparr>currentCommand := Some c\<rparr>)"

definition IsInInnerState :: "MACEHSMState \<Rightarrow> StateObject list \<Rightarrow> nat \<Rightarrow> bool" where
  "IsInInnerState k st d = list_ex (\<lambda>x. currentState x = k) (drop (Suc d) st)"

definition IsInState :: "MACEHSMState \<Rightarrow> copter \<Rightarrow> bool" where
  "IsInState k m = list_ex (\<lambda>x. currentState x = k) (fst m)"

text \<open>A controller of the state at depth \<open>d\<close>.\<close>

definition start_for ::
  "nat \<Rightarrow> ControllerKind \<Rightarrow> FinishLambda \<Rightarrow> string \<Rightarrow> Request \<Rightarrow> copter \<Rightarrow> copter" where
  "start_for d k l name r m = update_vehicle (start_controller k (this (state_at d m)) l name r) m"

section \<open>The base classes\<close>

text \<open>
  The thread of \<open>Shutdown\<close>: the controller's requests are dropped, it no longer reads messages, and its
  lambda runs. That of \<open>prepareModeController\<close> belongs to a state and uses it.
\<close>

definition run_ShutdownLambda :: "ShutdownLambda \<Rightarrow> copter \<Rightarrow> (copter, unit) outcome" where
  "run_ShutdownLambda l m = (case l of
     Remove_Named name \<Rightarrow>
       let (ptr, w) = collection_Remove name (snd m) in ((fst m, delete_controller ptr w), Inr ())
   | Remove_And_Notify host name \<Rightarrow>
       (case find (\<lambda>d. this (fst m ! d) = host) [0..<length (fst m)] of
          None \<Rightarrow> (m, Inl Undefined_Behaviour)
        | Some d \<Rightarrow>
            let w = (if collection_At name (snd m) = None then snd m
                     else let (ptr, w) = collection_Remove name (snd m) in delete_controller ptr w)
            in (update_state d (\<lambda>x. x\<lparr>m_oldModeControllerShutdown := True\<rparr>) (fst m, w), Inr ())))"

definition Shutdown_thread :: "nat \<Rightarrow> copter \<Rightarrow> (copter, unit) outcome" where
  "Shutdown_thread i m =
     (let m = update_vehicle (\<lambda>w. w\<lparr>shutdowns := remove1 i (shutdowns w)\<rparr>) m
      in case map_of (live (snd m)) i of
           None \<Rightarrow> (m, Inl Undefined_Behaviour)
         | Some c \<Rightarrow>
             let m = update_vehicle (\<lambda>w. modify_controller i (\<lambda>c. c\<lparr>m_MessageBehaviors := False\<rparr>)
                       (w\<lparr>transmissions := removeAll i (transmissions w)\<rparr>)) m
             in (case m_ShutdownLambda c of
                   None \<Rightarrow> (m, Inr ())
                 | Some l \<Rightarrow> run_ShutdownLambda l m))"

text \<open>
  \<open>prepareModeController\<close> shuts down the controller that stands under the name and waits until its thread
  says so; \<open>m_oldModeControllerShutdown\<close> may still be set from an earlier one, and then nothing is
  waited for.
\<close>

definition await_old_controller :: "nat \<Rightarrow> nat \<Rightarrow> copter \<Rightarrow> (copter, unit) outcome" where
  "await_old_controller d old m =
     (let m = update_vehicle (Shutdown old) m;
          shut = m_oldModeControllerShutdown (state_at d m);
          clear = update_state d (\<lambda>x. x\<lparr>m_oldModeControllerShutdown := False\<rparr>)
      in if \<not> shut \<or> schedule (snd m) = Thread_First
         then obind (Shutdown_thread old m) (\<lambda>m u.
                if \<not> m_oldModeControllerShutdown (state_at d m) then (m, Inl Blocked)
                else (clear m, Inr ()))
         else if schedule (snd m) = Thread_Between then Shutdown_thread old (clear m)
         else (clear m, Inr ()))"

definition prepareModeController :: "nat \<Rightarrow> copter \<Rightarrow> (copter, nat) outcome" where
  "prepareModeController d m =
     obind (case collection_At ''modeController'' (snd m) of
              None \<Rightarrow> (m, Inr ())
            | Some old \<Rightarrow> await_old_controller d old m)
       (\<lambda>m u.
          let (i, w) = new_controller ControllerSystemMode (snd m);
              w = setLambda_Shutdown i (Remove_And_Notify (this (state_at d m)) ''modeController'') w
          in ((fst m, collection_Insert ''modeController'' i w), Inr i))"

definition AbstractStateArdupilot_OnExit :: "nat \<Rightarrow> copter \<Rightarrow> copter" where
  "AbstractStateArdupilot_OnExit d m =
     clearCommand d (update_vehicle (ForAll (RemoveHost (this (state_at d m)))) m)"

definition AbstractRootState_handleCommand :: "nat \<Rightarrow> Command \<Rightarrow> copter \<Rightarrow> (copter, bool) outcome" where
  "AbstractRootState_handleCommand d command m = (case command of
     ActionChangeMode mode \<Rightarrow>
       obind (prepareModeController d m) (\<lambda>m i.
         (update_vehicle (\<lambda>w. Send i (Request_Mode mode)
            (AddLambda_Finished i (this (state_at d m)) ModeController_Finished w)) m, Inr True))
   | SpatialHome current position \<Rightarrow>
       if \<not> current \<and> position = None then (m, Inl Undefined_Behaviour)
       else (start_for d Command_HomePositionSet HomeController_Finished ''setHomeController''
               (Request_Home current position) m, Inr True)
   | _ \<Rightarrow> (m, Inr False))"

section \<open>Unknown\<close>

definition Unknown_GetTransition :: "StateObject \<Rightarrow> copter_transition" where
  "Unknown_GetTransition x =
     (if currentState x = desiredState x then No_Transition
      else case desiredState x of
        STATE_GROUNDED \<Rightarrow> Sibling STATE_GROUNDED No_Args
      | STATE_TAKEOFF \<Rightarrow> Sibling STATE_TAKEOFF No_Args
      | STATE_FLIGHT \<Rightarrow> Sibling STATE_FLIGHT No_Args
      | STATE_LANDING \<Rightarrow> Sibling STATE_LANDING No_Args
      | _ \<Rightarrow> No_Transition)"

definition Unknown_Update :: "nat \<Rightarrow> copter \<Rightarrow> copter" where
  "Unknown_Update d m =
     setDesiredStateEnum d (if \<not> getSystemArm (snd m) then STATE_GROUNDED else STATE_FLIGHT) m"

section \<open>Grounded\<close>

definition Grounded_GetTransition :: "StateObject \<Rightarrow> copter_transition" where
  "Grounded_GetTransition x =
     (if currentState x = desiredState x then No_Transition
      else case desiredState x of
        STATE_GROUNDED_IDLE \<Rightarrow> InnerEntry STATE_GROUNDED_IDLE No_Args
      | STATE_GROUNDED_ARMING \<Rightarrow> InnerEntry STATE_GROUNDED_ARMING No_Args
      | STATE_GROUNDED_ARMED \<Rightarrow> InnerEntry STATE_GROUNDED_ARMED No_Args
      | STATE_GROUNDED_DISARMING \<Rightarrow> InnerEntry STATE_GROUNDED_DISARMING No_Args
      | STATE_GROUNDED_DISARMED \<Rightarrow> InnerEntry STATE_GROUNDED_DISARMED No_Args
      | STATE_TAKEOFF \<Rightarrow> Sibling STATE_TAKEOFF (Command_Arg (currentCommand x))
      | STATE_TAKEOFF_CLIMBING \<Rightarrow> Sibling STATE_TAKEOFF (Command_Arg (currentCommand x))
      | STATE_TAKEOFF_TRANSITIONING \<Rightarrow> Sibling STATE_TAKEOFF (Command_Arg (currentCommand x))
      | STATE_FLIGHT \<Rightarrow> Sibling STATE_FLIGHT No_Args
      | _ \<Rightarrow> No_Transition)"

definition Grounded_handleCommand ::
  "(copter \<Rightarrow> (copter, bool) outcome) \<Rightarrow> nat \<Rightarrow> Command \<Rightarrow> copter \<Rightarrow> (copter, bool) outcome" where
  "Grounded_handleCommand inner d command m = (case command of
     ActionChangeMode _ \<Rightarrow> AbstractRootState_handleCommand d command m
   | SpatialHome _ _ \<Rightarrow> AbstractRootState_handleCommand d command m
   | _ \<Rightarrow> inner m)"

definition Grounded_OnEnter :: "nat \<Rightarrow> copter \<Rightarrow> copter" where
  "Grounded_OnEnter d m =
     setDesiredStateEnum d
       (if getSystemArm (snd m) then STATE_GROUNDED_ARMED
        else if vehicleArm (snd m) \<noteq> None \<and> \<not> getSystemArm (snd m)
                \<and> getFlightModeString (snd m) \<noteq> ''STABILIZE''
        then STATE_GROUNDED_DISARMED
        else STATE_GROUNDED_IDLE) m"

definition GroundedIdle_GetTransition :: "StateObject \<Rightarrow> copter_transition" where
  "GroundedIdle_GetTransition x =
     (if currentState x = desiredState x then No_Transition
      else case desiredState x of
        STATE_GROUNDED_ARMING \<Rightarrow> Sibling STATE_GROUNDED_ARMING (Command_Arg (currentCommand x))
      | STATE_GROUNDED_ARMED \<Rightarrow> Sibling STATE_GROUNDED_ARMED No_Args
      | _ \<Rightarrow> No_Transition)"

definition GroundedIdle_handleCommand :: "nat \<Rightarrow> Command \<Rightarrow> copter \<Rightarrow> (copter, bool) outcome" where
  "GroundedIdle_handleCommand d command m = (case command of
     ActionArm request \<Rightarrow>
       if request then (setDesiredStateEnum d STATE_GROUNDED_ARMING m, Inr True) else (m, Inr False)
   | SpatialTakeoff _ \<Rightarrow>
       (setCurrentCommand d command (setDesiredStateEnum d STATE_GROUNDED_ARMING m), Inr True)
   | _ \<Rightarrow> (m, Inr False))"

definition GroundedIdle_Update :: "nat \<Rightarrow> copter \<Rightarrow> copter" where
  "GroundedIdle_Update d m =
     (if getSystemArm (snd m) then setDesiredStateEnum d STATE_GROUNDED_ARMED m else m)"

definition GroundedDisarmed_GetTransition :: "StateObject \<Rightarrow> copter_transition" where
  "GroundedDisarmed_GetTransition x =
     (if currentState x = desiredState x then No_Transition
      else case desiredState x of
        STATE_GROUNDED_IDLE \<Rightarrow> Sibling STATE_GROUNDED_IDLE No_Args
      | _ \<Rightarrow> No_Transition)"

definition GroundedDisarmed_OnEnter :: "OnEnterArgs \<Rightarrow> nat \<Rightarrow> copter \<Rightarrow> copter" where
  "GroundedDisarmed_OnEnter args d m =
     (if args \<noteq> No_Args \<and> getFlightModeString (snd m) = ''STABILIZE''
      then setDesiredStateEnum d STATE_GROUNDED_IDLE m
      else start_for d ControllerSystemMode GroundedDisarmed_Finished
             ''State_GroundedDisarmed_modeController'' (Request_Mode ''STABILIZE'') m)"

definition GroundedArming_GetTransition :: "StateObject \<Rightarrow> copter_transition" where
  "GroundedArming_GetTransition x =
     (if currentState x = desiredState x then No_Transition
      else case desiredState x of
        STATE_GROUNDED_IDLE \<Rightarrow> Sibling STATE_GROUNDED_IDLE No_Args
      | STATE_GROUNDED_ARMED \<Rightarrow> Sibling STATE_GROUNDED_ARMED (Command_Arg (currentCommand x))
      | _ \<Rightarrow> No_Transition)"

definition GroundedArming_handleCommand :: "nat \<Rightarrow> Command \<Rightarrow> copter \<Rightarrow> (copter, bool) outcome" where
  "GroundedArming_handleCommand d command m = (clearCommand d m, Inr True)"

definition GroundedArming_Update :: "nat \<Rightarrow> copter \<Rightarrow> copter" where
  "GroundedArming_Update d m =
     (if getSystemArm (snd m) then setDesiredStateEnum d STATE_GROUNDED_ARMED m else m)"

definition GroundedArming_OnEnter :: "OnEnterArgs \<Rightarrow> nat \<Rightarrow> copter \<Rightarrow> copter" where
  "GroundedArming_OnEnter args d m =
     (let m = start_for d CommandARM GroundedArming_Finished ''armController'' (Request_Arm True) m
      in case args of
           Command_Arg (Some command) \<Rightarrow> setCurrentCommand d command m
         | _ \<Rightarrow> m)"

definition GroundedArmed_GetTransition :: "StateObject \<Rightarrow> copter_transition" where
  "GroundedArmed_GetTransition x =
     (if currentState x = desiredState x then No_Transition
      else case desiredState x of
        STATE_GROUNDED_DISARMING \<Rightarrow> Sibling STATE_GROUNDED_DISARMING No_Args
      | STATE_GROUNDED_IDLE \<Rightarrow> Sibling STATE_GROUNDED_IDLE No_Args
      | _ \<Rightarrow> No_Transition)"

definition GroundedArmed_handleCommand :: "nat \<Rightarrow> Command \<Rightarrow> copter \<Rightarrow> (copter, bool) outcome" where
  "GroundedArmed_handleCommand d command m =
     (let m = clearCommand d m
      in case command of
           ActionArm request \<Rightarrow>
             if request then (m, Inr False)
             else (setDesiredStateEnum d STATE_GROUNDED_DISARMING m, Inr True)
         | SpatialTakeoff _ \<Rightarrow>
             let m = setDesiredStateEnum d STATE_TAKEOFF m
             in if d = 0 then (m, Inl Undefined_Behaviour)
                else (setCurrentCommand (d - 1) command (setDesiredStateEnum (d - 1) STATE_TAKEOFF m), Inr True)
         | _ \<Rightarrow> (m, Inr False))"

definition GroundedArmed_Update :: "nat \<Rightarrow> copter \<Rightarrow> copter" where
  "GroundedArmed_Update d m =
     (if \<not> getSystemArm (snd m) then setDesiredStateEnum d STATE_GROUNDED_IDLE m else m)"

definition GroundedArmed_OnEnter :: "OnEnterArgs \<Rightarrow> nat \<Rightarrow> copter \<Rightarrow> (copter, unit) outcome" where
  "GroundedArmed_OnEnter args d m = (case args of
     No_Args \<Rightarrow>
       if d = 0 then (m, Inl Undefined_Behaviour)
       else (setDesiredStateEnum (d - 1) STATE_FLIGHT m, Inr ())
   | Command_Arg None \<Rightarrow> (m, Inr ())
   | Command_Arg (Some command) \<Rightarrow>
       obind (GroundedArmed_handleCommand d command m) (\<lambda>m b. (m, Inr ())))"

definition GroundedDisarming_GetTransition :: "StateObject \<Rightarrow> copter_transition" where
  "GroundedDisarming_GetTransition x =
     (if currentState x = desiredState x then No_Transition
      else case desiredState x of
        STATE_GROUNDED_DISARMED \<Rightarrow> Sibling STATE_GROUNDED_DISARMED No_Args
      | _ \<Rightarrow> No_Transition)"

definition GroundedDisarming_handleCommand :: "nat \<Rightarrow> Command \<Rightarrow> copter \<Rightarrow> (copter, bool) outcome" where
  "GroundedDisarming_handleCommand d command m = (case command of
     ActionArm _ \<Rightarrow> (m, Inr False)
   | _ \<Rightarrow> (setCurrentCommand d command m, Inr False))"

definition GroundedDisarming_Update :: "nat \<Rightarrow> copter \<Rightarrow> copter" where
  "GroundedDisarming_Update d m =
     (if \<not> getSystemArm (snd m) then setDesiredStateEnum d STATE_GROUNDED_DISARMED m else m)"

definition GroundedDisarming_OnEnter :: "OnEnterArgs \<Rightarrow> nat \<Rightarrow> copter \<Rightarrow> (copter, unit) outcome" where
  "GroundedDisarming_OnEnter args d m =
     (let m = start_for d CommandARM GroundedDisarming_Finished ''disarmController'' (Request_Arm False) m
      in case args of
           Command_Arg (Some command) \<Rightarrow>
             obind (GroundedDisarming_handleCommand d command m) (\<lambda>m b. (m, Inr ()))
         | _ \<Rightarrow> (m, Inr ()))"

section \<open>Takeoff\<close>

definition Takeoff_GetTransition :: "StateObject list \<Rightarrow> nat \<Rightarrow> copter_transition" where
  "Takeoff_GetTransition st d =
     (let x = st ! d in
      if currentState x = desiredState x then No_Transition
      else if IsInInnerState STATE_TAKEOFF_COMPLETE st d then Sibling STATE_FLIGHT No_Args
      else case desiredState x of
        STATE_GROUNDED \<Rightarrow> Sibling STATE_GROUNDED (Command_Arg (currentCommand x))
      | STATE_TAKEOFF_CLIMBING \<Rightarrow> InnerEntry STATE_TAKEOFF_CLIMBING (Command_Arg (currentCommand x))
      | STATE_TAKEOFF_TRANSITIONING \<Rightarrow>
          InnerEntry STATE_TAKEOFF_TRANSITIONING (Command_Arg (currentCommand x))
      | STATE_FLIGHT \<Rightarrow> Sibling STATE_FLIGHT (Command_Arg (currentCommand x))
      | _ \<Rightarrow> No_Transition)"

definition Takeoff_handleCommand :: "nat \<Rightarrow> Command \<Rightarrow> copter \<Rightarrow> (copter, bool) outcome" where
  "Takeoff_handleCommand d command m =
     (let m = clearCommand d m
      in case command of
           SpatialHome _ _ \<Rightarrow> AbstractRootState_handleCommand d command m
         | ActionChangeMode _ \<Rightarrow>
             (case collection_At ''modeController'' (snd m) of
                None \<Rightarrow> (m, Inl Undefined_Behaviour)
              | Some i \<Rightarrow>
                  (update_vehicle (AddLambda_Finished i (this (state_at d m)) Takeoff_ChangeMode_Finished) m,
                   Inr False))
         | SpatialTakeoff _ \<Rightarrow> (setCurrentCommand d command m, Inr True)
         | _ \<Rightarrow> (m, Inr False))"

definition Takeoff_Update :: "nat \<Rightarrow> copter \<Rightarrow> copter" where
  "Takeoff_Update d m =
     (if \<not> getSystemArm (snd m) then setDesiredStateEnum d STATE_GROUNDED m
      else if getFlightModeString (snd m) = ''GUIDED'' then setDesiredStateEnum d STATE_TAKEOFF_CLIMBING m
      else m)"

definition Takeoff_OnEnter :: "OnEnterArgs \<Rightarrow> nat \<Rightarrow> copter \<Rightarrow> (copter, unit) outcome" where
  "Takeoff_OnEnter args d m =
     (let entered = start_for d ControllerSystemMode Takeoff_Finished ''modeController''
                      (Request_Mode ''GUIDED'') m
      in case args of
           No_Args \<Rightarrow> (entered, Inr ())
         | Command_Arg None \<Rightarrow> (m, Inr ())
         | Command_Arg (Some command) \<Rightarrow>
             obind (Takeoff_handleCommand d command entered) (\<lambda>m b. (m, Inr ())))"

definition TakeoffClimbing_GetTransition :: "StateObject \<Rightarrow> copter_transition" where
  "TakeoffClimbing_GetTransition x =
     (if currentState x = desiredState x then No_Transition
      else case desiredState x of
        STATE_TAKEOFF_TRANSITIONING \<Rightarrow>
          Sibling STATE_TAKEOFF_TRANSITIONING (Command_Arg (currentCommand x))
      | STATE_TAKEOFF_COMPLETE \<Rightarrow> Sibling STATE_TAKEOFF_COMPLETE (Command_Arg (currentCommand x))
      | _ \<Rightarrow> No_Transition)"

text \<open>The altitude that is climbed to: that of the position when it is set, and zero otherwise.\<close>

definition climb_altitude :: "Position \<Rightarrow> dbl" where
  "climb_altitude p = (case coordinateSystem p of
     GEODETIC \<Rightarrow> (case targetAltitude p of Some a \<Rightarrow> a | None \<Rightarrow> Fin 0)
   | CARTESIAN \<Rightarrow> (case targetAltitude p of Some a \<Rightarrow> a | None \<Rightarrow> Fin 0)
   | _ \<Rightarrow> Fin 0)"

definition notify_global :: "nat \<Rightarrow> Notifier \<Rightarrow> copter \<Rightarrow> copter" where
  "notify_global d n m = update_vehicle
     (\<lambda>w. w\<lparr>globalNotifiers := AddNotifier (this (state_at d m)) n (globalNotifiers w)\<rparr>) m"

definition notify_local :: "nat \<Rightarrow> Notifier \<Rightarrow> copter \<Rightarrow> copter" where
  "notify_local d n m = update_vehicle
     (\<lambda>w. w\<lparr>localNotifiers := AddNotifier (this (state_at d m)) n (localNotifiers w)\<rparr>) m"

definition TakeoffClimbing_handleCommand :: "nat \<Rightarrow> Command \<Rightarrow> copter \<Rightarrow> (copter, bool) outcome" where
  "TakeoffClimbing_handleCommand d command m =
     (let m = clearCommand d m
      in case command of
           SpatialTakeoff position \<Rightarrow>
             let m = setCurrentCommand d command m
             in (case position of
                   None \<Rightarrow> (m, Inl Undefined_Behaviour)
                 | Some p \<Rightarrow>
                     if is3D p
                     then (start_for d CommandTakeoff TakeoffClimbing_Finished ''takeoffClimb''
                             (Request_Takeoff p) (notify_global d (Climb_Notifier p (climb_altitude p)) m),
                           Inr True)
                     else (m, Inr False))
         | _ \<Rightarrow> (m, Inr False))"

definition TakeoffClimbing_Update :: "nat \<Rightarrow> copter \<Rightarrow> copter" where
  "TakeoffClimbing_Update d m =
     (if getFlightModeString (snd m) \<in> {''BRAKE'', ''LOITER''}
      then setDesiredStateEnum d STATE_TAKEOFF_COMPLETE m else m)"

definition TakeoffTransitioning_GetTransition :: "StateObject \<Rightarrow> copter_transition" where
  "TakeoffTransitioning_GetTransition x =
     (if currentState x = desiredState x then No_Transition
      else case desiredState x of
        STATE_TAKEOFF_COMPLETE \<Rightarrow> Sibling STATE_TAKEOFF_COMPLETE (Command_Arg (currentCommand x))
      | _ \<Rightarrow> No_Transition)"

definition TakeoffTransitioning_handleCommand :: "nat \<Rightarrow> Command \<Rightarrow> copter \<Rightarrow> (copter, bool) outcome" where
  "TakeoffTransitioning_handleCommand d command m =
     (let m = clearCommand d m
      in case command of
           SpatialTakeoff position \<Rightarrow>
             let m = setCurrentCommand d command m
             in (case position of
                   None \<Rightarrow> (m, Inl Undefined_Behaviour)
                 | Some p \<Rightarrow>
                     let m = (if coordinateSystem p = GEODETIC
                              then notify_global d (TakeoffTransition_Notifier p) m
                              else if coordinateSystem p = CARTESIAN
                              then notify_local d (TakeoffTransition_Notifier p) m
                              else m)
                     in (start_for d ControllerGuidedMissionItem TakeoffTransitioning_Finished
                           ''takeoffTransition'' (Request_GoTo p) m, Inr True))
         | _ \<Rightarrow> (m, Inr False))"

section \<open>Landing\<close>

definition Landing_GetTransition :: "StateObject list \<Rightarrow> nat \<Rightarrow> copter_transition" where
  "Landing_GetTransition st d =
     (let x = st ! d in
      if currentState x = desiredState x then No_Transition
      else if IsInInnerState STATE_LANDING_COMPLETE st d then Sibling STATE_GROUNDED No_Args
      else case desiredState x of
        STATE_LANDING_TRANSITIONING \<Rightarrow>
          InnerEntry STATE_LANDING_TRANSITIONING (Command_Arg (currentCommand x))
      | STATE_LANDING_DESCENDING \<Rightarrow> InnerEntry STATE_LANDING_DESCENDING (Command_Arg (currentCommand x))
      | STATE_GROUNDED \<Rightarrow> Sibling STATE_GROUNDED (Command_Arg (currentCommand x))
      | STATE_FLIGHT \<Rightarrow> Sibling STATE_FLIGHT (Command_Arg (currentCommand x))
      | _ \<Rightarrow> No_Transition)"

definition Landing_handleCommand :: "nat \<Rightarrow> Command \<Rightarrow> copter \<Rightarrow> (copter, bool) outcome" where
  "Landing_handleCommand d command m =
     (let m = clearCommand d m
      in case command of
           ActionChangeMode _ \<Rightarrow> AbstractRootState_handleCommand d command m
         | SpatialHome _ _ \<Rightarrow> AbstractRootState_handleCommand d command m
         | SpatialLand _ \<Rightarrow>
             (start_for d ControllerSystemMode Landing_Finished ''modeController''
                (Request_Mode ''GUIDED'') (setCurrentCommand d command m), Inr True)
         | _ \<Rightarrow> (m, Inr False))"

definition Landing_Update :: "nat \<Rightarrow> copter \<Rightarrow> copter" where
  "Landing_Update d m =
     (if \<not> getSystemArm (snd m) then setDesiredStateEnum d STATE_GROUNDED m
      else if getFlightModeString (snd m) = ''GUIDED''
      then setDesiredStateEnum d STATE_LANDING_TRANSITIONING m
      else m)"

definition Landing_OnEnter :: "OnEnterArgs \<Rightarrow> nat \<Rightarrow> copter \<Rightarrow> (copter, unit) outcome" where
  "Landing_OnEnter args d m = (case args of
     Command_Arg (Some command) \<Rightarrow>
       (case command of
          SpatialLand position \<Rightarrow>
            if position \<noteq> None \<and> areTranslationalComponentsValid (the position)
            then obind (Landing_handleCommand d command m) (\<lambda>m b. (m, Inr ()))
            else (setDesiredStateEnum d STATE_LANDING_DESCENDING (setCurrentCommand d command m), Inr ())
        | _ \<Rightarrow> (m, Inr ()))
   | _ \<Rightarrow> (setDesiredStateEnum d STATE_LANDING_DESCENDING m, Inr ()))"

definition LandingTransitioning_handleCommand :: "nat \<Rightarrow> Command \<Rightarrow> copter \<Rightarrow> (copter, bool) outcome" where
  "LandingTransitioning_handleCommand d command m =
     (let m = clearCommand d m
      in case command of
           SpatialLand position \<Rightarrow>
             let m = setCurrentCommand d command m
             in (case position of
                   None \<Rightarrow> (m, Inl Undefined_Behaviour)
                 | Some p \<Rightarrow>
                     if areTranslationalComponentsValid p
                     then let m = (if coordinateSystem p = GEODETIC
                                   then notify_global d (LandingTransition_Notifier p) m
                                   else setDesiredStateEnum d STATE_LANDING_DESCENDING m)
                          in (start_for d ControllerGuidedMissionItem LandingTransitioning_Finished
                                ''landingTransition'' (Request_GoTo p) m, Inr True)
                     else (m, Inr False))
         | _ \<Rightarrow> (m, Inr False))"

definition LandingDescent_GetTransition :: "StateObject \<Rightarrow> copter_transition" where
  "LandingDescent_GetTransition x =
     (if currentState x = desiredState x then No_Transition
      else case desiredState x of
        STATE_LANDING_COMPLETE \<Rightarrow>
          if currentCommand x = None then Sibling STATE_LANDING_COMPLETE No_Args
          else Sibling STATE_LANDING_COMPLETE (Command_Arg (currentCommand x))
      | _ \<Rightarrow> No_Transition)"

definition LandingDescent_handleCommand :: "nat \<Rightarrow> Command \<Rightarrow> copter \<Rightarrow> (copter, bool) outcome" where
  "LandingDescent_handleCommand d command m =
     (let m = clearCommand d m
      in case command of
           SpatialLand position \<Rightarrow>
             let m = setCurrentCommand d command m;
                 m = (case position of
                        Some p \<Rightarrow>
                          if is3D p
                          then let altitude = (case targetAltitude p of Some a \<Rightarrow> a | None \<Rightarrow> Fin 0)
                               in (case coordinateSystem p of
                                     GEODETIC \<Rightarrow> notify_global d (Descent_Notifier altitude) m
                                   | CARTESIAN \<Rightarrow> notify_local d (Descent_Notifier altitude) m
                                   | _ \<Rightarrow> m)
                          else notify_local d (Descent_Notifier (Fin 0)) m
                      | None \<Rightarrow> notify_local d (Descent_Notifier (Fin 0)) m)
             in (start_for d CommandLand LandingDescent_Finished ''landingDescent''
                   (Request_Land position) m, Inr True)
         | _ \<Rightarrow> (m, Inr False))"

definition LandingDescent_Update :: "nat \<Rightarrow> copter \<Rightarrow> copter" where
  "LandingDescent_Update d m =
     (let m = (if getFlightModeString (snd m) \<in> {''BRAKE'', ''LOITER''}
               then setDesiredStateEnum d STATE_LANDING_COMPLETE m else m)
      in if \<not> getSystemArm (snd m) then setDesiredStateEnum d STATE_GROUNDED_IDLE m else m)"

section \<open>Flight\<close>

definition checkTransitionFromMode :: "string \<Rightarrow> nat \<Rightarrow> copter \<Rightarrow> copter" where
  "checkTransitionFromMode mode d =
     setDesiredStateEnum d
       (if mode = ''AUTO'' then STATE_FLIGHT_AUTO
        else if mode = ''BRAKE'' then STATE_FLIGHT_BRAKE
        else if mode = ''GUIDED'' then STATE_FLIGHT_GUIDED
        else if mode = ''LAND'' then STATE_LANDING
        else if mode = ''LOITER'' then STATE_FLIGHT_LOITER
        else if mode = ''STABILIZE'' then STATE_FLIGHT_MANUAL
        else if mode = ''RTL'' then STATE_FLIGHT_RTL
        else STATE_FLIGHT_UNKNOWN)"

definition Flight_GetTransition :: "StateObject \<Rightarrow> copter_transition" where
  "Flight_GetTransition x =
     (if currentState x = desiredState x then No_Transition
      else case desiredState x of
        STATE_FLIGHT_AUTO \<Rightarrow> Inner STATE_FLIGHT_AUTO No_Args
      | STATE_FLIGHT_BRAKE \<Rightarrow> Inner STATE_FLIGHT_BRAKE No_Args
      | STATE_FLIGHT_GUIDED \<Rightarrow> Inner STATE_FLIGHT_GUIDED No_Args
      | STATE_LANDING \<Rightarrow> Sibling STATE_LANDING (Command_Arg (currentCommand x))
      | STATE_FLIGHT_LOITER \<Rightarrow> Inner STATE_FLIGHT_LOITER (Command_Arg (currentCommand x))
      | STATE_FLIGHT_MANUAL \<Rightarrow> Inner STATE_FLIGHT_MANUAL No_Args
      | STATE_FLIGHT_RTL \<Rightarrow> Inner STATE_FLIGHT_RTL No_Args
      | STATE_GROUNDED \<Rightarrow> Sibling STATE_GROUNDED No_Args
      | STATE_FLIGHT_UNKNOWN \<Rightarrow> Inner STATE_FLIGHT_UNKNOWN No_Args
      | _ \<Rightarrow> No_Transition)"

definition Flight_change_mode :: "nat \<Rightarrow> string \<Rightarrow> copter \<Rightarrow> copter" where
  "Flight_change_mode d mode =
     start_for d ControllerSystemMode Flight_MissionCommand_Finished ''modeController'' (Request_Mode mode)"

definition Flight_handleCommand ::
  "(copter \<Rightarrow> (copter, bool) outcome) \<Rightarrow> nat \<Rightarrow> Command \<Rightarrow> copter \<Rightarrow> (copter, bool) outcome" where
  "Flight_handleCommand inner d command m = (case command of
     ActionMissionCommand action \<Rightarrow>
       (case action of
          MISSIONCA_PAUSE \<Rightarrow>
            (Flight_change_mode d (if systemTypeRotary (snd m) then ''BRAKE'' else ''LOITER'') m, Inr True)
        | MISSIONCA_START \<Rightarrow>
            if \<not> IsInState STATE_FLIGHT_GUIDED m then (Flight_change_mode d ''AUTO'' m, Inr True)
            else inner m
        | MISSIONCA_RESUME \<Rightarrow> inner m)
   | SpatialHome _ _ \<Rightarrow> AbstractRootState_handleCommand d command m
   | ActionChangeMode _ \<Rightarrow> AbstractRootState_handleCommand d command m
   | SpatialLand _ \<Rightarrow> (setDesiredStateEnum d STATE_LANDING (setCurrentCommand d command m), Inr True)
   | SpatialRTL \<Rightarrow>
       (start_for d CommandRTL FlightRTL_Finished ''RTLController'' Request_RTL m, Inr True)
   | Action_ExecuteSpatialItem _ \<Rightarrow> if \<not> IsInState STATE_FLIGHT_GUIDED m then (m, Inr False) else inner m
   | Action_DynamicTarget _ \<Rightarrow> if \<not> IsInState STATE_FLIGHT_GUIDED m then (m, Inr False) else inner m
   | _ \<Rightarrow> inner m)"

definition Flight_Update :: "nat \<Rightarrow> copter \<Rightarrow> copter" where
  "Flight_Update d m = (if \<not> getSystemArm (snd m) then setDesiredStateEnum d STATE_GROUNDED m else m)"

definition Flight_enter_mode :: "nat \<Rightarrow> copter \<Rightarrow> copter" where
  "Flight_enter_mode d m =
     (let m = update_vehicle (\<lambda>w. w\<lparr>modeNotifiers := List.insert (this (state_at d m)) (modeNotifiers w)\<rparr>) m
      in checkTransitionFromMode (getFlightModeString (snd m)) d m)"

definition Flight_OnEnter ::
  "(Command \<Rightarrow> copter \<Rightarrow> (copter, bool) outcome) \<Rightarrow> OnEnterArgs \<Rightarrow> nat \<Rightarrow> copter \<Rightarrow> (copter, unit) outcome" where
  "Flight_OnEnter handle args d m = (case args of
     Command_Arg (Some command) \<Rightarrow>
       obind (handle command (Flight_enter_mode d m)) (\<lambda>m b. (m, Inr ()))
   | _ \<Rightarrow> (Flight_enter_mode d m, Inr ()))"

definition Flight_OnExit :: "nat \<Rightarrow> copter \<Rightarrow> copter" where
  "Flight_OnExit d m =
     update_vehicle (\<lambda>w. w\<lparr>modeNotifiers := removeAll (this (state_at d m)) (modeNotifiers w)\<rparr>)
       (AbstractStateArdupilot_OnExit d m)"

section \<open>Guided flight\<close>

definition Guided_GetTransition :: "StateObject \<Rightarrow> copter_transition" where
  "Guided_GetTransition x =
     (if currentState x = desiredState x then No_Transition
      else case desiredState x of
        STATE_FLIGHT_GUIDED_IDLE \<Rightarrow> Inner STATE_FLIGHT_GUIDED_IDLE (Command_Arg (currentCommand x))
      | STATE_FLIGHT_GUIDED_ATTTARGET \<Rightarrow>
          Inner STATE_FLIGHT_GUIDED_ATTTARGET (Command_Arg (currentCommand x))
      | STATE_FLIGHT_GUIDED_CARTARGET \<Rightarrow>
          Inner STATE_FLIGHT_GUIDED_CARTARGET (Command_Arg (currentCommand x))
      | STATE_FLIGHT_GUIDED_GEOTARGET \<Rightarrow>
          Inner STATE_FLIGHT_GUIDED_GEOTARGET (Command_Arg (currentCommand x))
      | STATE_FLIGHT_GUIDED_QUEUE \<Rightarrow> Inner STATE_FLIGHT_GUIDED_QUEUE (Command_Arg (currentCommand x))
      | STATE_FLIGHT_GUIDED_SPATIALITEM \<Rightarrow>
          Inner STATE_FLIGHT_GUIDED_SPATIALITEM (Command_Arg (currentCommand x))
      | _ \<Rightarrow> No_Transition)"

text \<open>A target goes to the inner state that follows such targets, which is entered if it is not there.\<close>

definition Guided_target ::
  "(copter \<Rightarrow> (copter, bool) outcome) \<Rightarrow> nat \<Rightarrow> MACEHSMState \<Rightarrow> copter \<Rightarrow> (copter, bool) outcome" where
  "Guided_target inner d k m =
     (if IsInState k m then inner m else (setDesiredStateEnum d k m, Inr True))"

definition Guided_handleCommand ::
  "(copter \<Rightarrow> (copter, bool) outcome) \<Rightarrow> nat \<Rightarrow> Command \<Rightarrow> copter \<Rightarrow> (copter, bool) outcome" where
  "Guided_handleCommand inner d command m = (case command of
     Action_ExecuteSpatialItem _ \<Rightarrow>
       if IsInState STATE_FLIGHT_GUIDED_SPATIALITEM m then inner m
       else (setDesiredStateEnum d STATE_FLIGHT_GUIDED_SPATIALITEM (setCurrentCommand d command m), Inr True)
   | Action_DynamicTarget target \<Rightarrow>
       let m = setCurrentCommand d command m
       in (case target of
             None \<Rightarrow> (m, Inl Undefined_Behaviour)
           | Some (KINEMATIC position _) \<Rightarrow>
               if position \<noteq> None \<and> coordinateSystem (the position) = GEODETIC
               then Guided_target inner d STATE_FLIGHT_GUIDED_GEOTARGET m
               else Guided_target inner d STATE_FLIGHT_GUIDED_CARTARGET m
           | Some ORIENTATION \<Rightarrow> Guided_target inner d STATE_FLIGHT_GUIDED_ATTTARGET m)
   | _ \<Rightarrow> (m, Inr False))"

definition SpatialItem_GetTransition :: "StateObject \<Rightarrow> copter_transition" where
  "SpatialItem_GetTransition x =
     (if currentState x = desiredState x then No_Transition
      else case desiredState x of
        STATE_FLIGHT_GUIDED_IDLE \<Rightarrow> Sibling STATE_FLIGHT_GUIDED_IDLE No_Args
      | _ \<Rightarrow> No_Transition)"

definition processSpatialWaypoint :: "nat \<Rightarrow> Position option \<Rightarrow> copter \<Rightarrow> (copter, unit) outcome" where
  "processSpatialWaypoint d position m =
     (let m = update_state d (\<lambda>x. x\<lparr>commandAccepted := False\<rparr>) m
      in case position of
           None \<Rightarrow> (m, Inl Undefined_Behaviour)
         | Some p \<Rightarrow>
             if coordinateSystem p \<in> {GEODETIC, CARTESIAN}
             then let m = (if coordinateSystem p = GEODETIC then notify_global d (GoTo_Notifier p) m
                           else notify_local d (GoTo_Notifier p) m)
                  in (case collection_At ''goToController'' (snd m) of
                        None \<Rightarrow> (m, Inl Undefined_Behaviour)
                      | Some i \<Rightarrow> (update_vehicle (Send i (Request_GoTo p)) m, Inr ()))
             else (setDesiredStateEnum d STATE_FLIGHT_GUIDED_IDLE m, Inr ()))"

definition SpatialItem_handleCommand :: "nat \<Rightarrow> Command \<Rightarrow> copter \<Rightarrow> (copter, bool) outcome" where
  "SpatialItem_handleCommand d command m = (case command of
     Action_ExecuteSpatialItem action \<Rightarrow>
       let m = setCurrentCommand d command m
       in (case action of
             None \<Rightarrow> (m, Inl Undefined_Behaviour)
           | Some (waypoint, position) \<Rightarrow>
               if \<not> waypoint then (m, Inr False)
               else obind (processSpatialWaypoint d position m) (\<lambda>m u. (m, Inr False)))
   | _ \<Rightarrow> (m, Inr False))"

definition SpatialItem_OnEnter :: "OnEnterArgs \<Rightarrow> nat \<Rightarrow> copter \<Rightarrow> (copter, unit) outcome" where
  "SpatialItem_OnEnter args d m = (case args of
     Command_Arg (Some (Action_ExecuteSpatialItem action)) \<Rightarrow>
       let (i, w) = new_controller ControllerGuidedMissionItem (snd m);
           w = AddLambda_Finished i (this (state_at d m)) GoTo_Finished w;
           w = collection_Insert ''goToController'' i w
       in obind (SpatialItem_handleCommand d (Action_ExecuteSpatialItem action) (fst m, w))
            (\<lambda>m b. (m, Inr ()))
   | _ \<Rightarrow> (m, Inr ()))"

text \<open>The controller of the state is removed and deleted, with its requests still queued.\<close>

definition remove_own_controller :: "string \<Rightarrow> copter \<Rightarrow> copter" where
  "remove_own_controller name m =
     (if collection_Exist name (snd m)
      then let (ptr, w) = collection_Remove name (snd m) in (fst m, delete_controller ptr w)
      else m)"

definition remove_global_notifier :: "nat \<Rightarrow> copter \<Rightarrow> copter" where
  "remove_global_notifier d m = update_vehicle
     (\<lambda>w. w\<lparr>globalNotifiers := RemoveNotifier (this (state_at d m)) (globalNotifiers w)\<rparr>) m"

definition remove_local_notifier :: "nat \<Rightarrow> copter \<Rightarrow> copter" where
  "remove_local_notifier d m = update_vehicle
     (\<lambda>w. w\<lparr>localNotifiers := RemoveNotifier (this (state_at d m)) (localNotifiers w)\<rparr>) m"

text \<open>The three states that follow dynamic targets, by the name of their controller.\<close>

definition constructAndSendTarget :: "string \<Rightarrow> DynamicTarget \<Rightarrow> copter \<Rightarrow> (copter, unit) outcome" where
  "constructAndSendTarget name target m = (case collection_At name (snd m) of
     None \<Rightarrow> (m, Inl Undefined_Behaviour)
   | Some i \<Rightarrow> (update_vehicle (Broadcast (Request_Target target)) m, Inr ()))"

definition register_target :: "nat \<Rightarrow> DynamicTarget \<Rightarrow> copter \<Rightarrow> copter" where
  "register_target d target =
     update_state d (\<lambda>x. x\<lparr>m_TimeoutController := registerCurrentTarget target (m_TimeoutController x)\<rparr>)"

definition clear_target :: "nat \<Rightarrow> copter \<Rightarrow> copter" where
  "clear_target d = update_state d (\<lambda>x. x\<lparr>m_TimeoutController := clearTarget (m_TimeoutController x)\<rparr>)"

definition AttTarget_handleCommand :: "nat \<Rightarrow> Command \<Rightarrow> copter \<Rightarrow> (copter, bool) outcome" where
  "AttTarget_handleCommand d command m = (case command of
     Action_DynamicTarget t \<Rightarrow>
       let m = setCurrentCommand d command (clear_target d m)
       in (case t of
             None \<Rightarrow> (m, Inl Undefined_Behaviour)
           | Some target \<Rightarrow>
               obind (constructAndSendTarget ''AttitudeTargetController'' target m) (\<lambda>m u.
                 (register_target d target m, Inr True)))
   | _ \<Rightarrow> (m, Inr False))"

definition KinematicTarget_handleCommand ::
  "string \<Rightarrow> nat \<Rightarrow> Command \<Rightarrow> copter \<Rightarrow> (copter, bool) outcome" where
  "KinematicTarget_handleCommand name d command m = (case command of
     Action_DynamicTarget t \<Rightarrow>
       let m = setCurrentCommand d command (clear_target d m)
       in (case t of
             None \<Rightarrow> (m, Inl Undefined_Behaviour)
           | Some ORIENTATION \<Rightarrow> (m, Inr False)
           | Some (KINEMATIC position velocitiesValid) \<Rightarrow>
               obind (constructAndSendTarget name (KINEMATIC position velocitiesValid) m) (\<lambda>m u.
                 (if velocitiesValid then register_target d (KINEMATIC position velocitiesValid) m else m,
                  Inr True)))
   | _ \<Rightarrow> (m, Inr False))"

definition CarTarget_handleCommand :: "nat \<Rightarrow> Command \<Rightarrow> copter \<Rightarrow> (copter, bool) outcome" where
  "CarTarget_handleCommand = KinematicTarget_handleCommand ''CartesianTargetController''"

definition GeoTarget_handleCommand :: "nat \<Rightarrow> Command \<Rightarrow> copter \<Rightarrow> (copter, bool) outcome" where
  "GeoTarget_handleCommand = KinematicTarget_handleCommand ''GeodeticTargetController''"

definition enter_target ::
  "string \<Rightarrow> (nat \<Rightarrow> Command \<Rightarrow> copter \<Rightarrow> (copter, bool) outcome) \<Rightarrow> OnEnterArgs \<Rightarrow> nat \<Rightarrow> copter
     \<Rightarrow> (copter, unit) outcome" where
  "enter_target name handle args d m = (case args of
     Command_Arg (Some (Action_DynamicTarget t)) \<Rightarrow>
       let (i, w) = new_controller ControllerGuidedTargetItem (snd m);
           w = collection_Insert name i w
       in obind (handle d (Action_DynamicTarget t) (fst m, w)) (\<lambda>m b. (m, Inr ()))
   | _ \<Rightarrow> (m, Inr ()))"

section \<open>All states\<close>

definition copter_GetTransition :: "StateObject list \<Rightarrow> nat \<Rightarrow> copter_transition" where
  "copter_GetTransition st d = (case currentState (st ! d) of
     STATE_UNKNOWN \<Rightarrow> Unknown_GetTransition (st ! d)
   | STATE_GROUNDED \<Rightarrow> Grounded_GetTransition (st ! d)
   | STATE_GROUNDED_IDLE \<Rightarrow> GroundedIdle_GetTransition (st ! d)
   | STATE_GROUNDED_ARMING \<Rightarrow> GroundedArming_GetTransition (st ! d)
   | STATE_GROUNDED_ARMED \<Rightarrow> GroundedArmed_GetTransition (st ! d)
   | STATE_GROUNDED_DISARMING \<Rightarrow> GroundedDisarming_GetTransition (st ! d)
   | STATE_GROUNDED_DISARMED \<Rightarrow> GroundedDisarmed_GetTransition (st ! d)
   | STATE_TAKEOFF \<Rightarrow> Takeoff_GetTransition st d
   | STATE_TAKEOFF_CLIMBING \<Rightarrow> TakeoffClimbing_GetTransition (st ! d)
   | STATE_TAKEOFF_TRANSITIONING \<Rightarrow> TakeoffTransitioning_GetTransition (st ! d)
   | STATE_LANDING \<Rightarrow> Landing_GetTransition st d
   | STATE_LANDING_DESCENDING \<Rightarrow> LandingDescent_GetTransition (st ! d)
   | STATE_FLIGHT \<Rightarrow> Flight_GetTransition (st ! d)
   | STATE_FLIGHT_GUIDED \<Rightarrow> Guided_GetTransition (st ! d)
   | STATE_FLIGHT_GUIDED_SPATIALITEM \<Rightarrow> SpatialItem_GetTransition (st ! d)
   | _ \<Rightarrow> No_Transition)"

text \<open>
  A command is handled by the class of the state it is given to. The number is how many states there are
  from this one on: a state without an inner state that passes the command on uses a null pointer.
\<close>

fun handleCommand_at :: "nat \<Rightarrow> nat \<Rightarrow> Command \<Rightarrow> copter \<Rightarrow> (copter, bool) outcome" where
  "handleCommand_at 0 d command m = (m, Inl Undefined_Behaviour)"
| "handleCommand_at (Suc n) d command m = (case currentState (fst m ! d) of
     STATE_GROUNDED \<Rightarrow> Grounded_handleCommand (handleCommand_at n (Suc d) command) d command m
   | STATE_GROUNDED_IDLE \<Rightarrow> GroundedIdle_handleCommand d command m
   | STATE_GROUNDED_ARMING \<Rightarrow> GroundedArming_handleCommand d command m
   | STATE_GROUNDED_ARMED \<Rightarrow> GroundedArmed_handleCommand d command m
   | STATE_GROUNDED_DISARMING \<Rightarrow> GroundedDisarming_handleCommand d command m
   | STATE_TAKEOFF \<Rightarrow> Takeoff_handleCommand d command m
   | STATE_TAKEOFF_CLIMBING \<Rightarrow> TakeoffClimbing_handleCommand d command m
   | STATE_TAKEOFF_TRANSITIONING \<Rightarrow> TakeoffTransitioning_handleCommand d command m
   | STATE_TAKEOFF_COMPLETE \<Rightarrow> (m, Inr True)
   | STATE_LANDING \<Rightarrow> Landing_handleCommand d command m
   | STATE_LANDING_TRANSITIONING \<Rightarrow> LandingTransitioning_handleCommand d command m
   | STATE_LANDING_DESCENDING \<Rightarrow> LandingDescent_handleCommand d command m
   | STATE_FLIGHT \<Rightarrow> Flight_handleCommand (handleCommand_at n (Suc d) command) d command m
   | STATE_FLIGHT_GUIDED \<Rightarrow> Guided_handleCommand (handleCommand_at n (Suc d) command) d command m
   | STATE_FLIGHT_GUIDED_SPATIALITEM \<Rightarrow> SpatialItem_handleCommand d command m
   | STATE_FLIGHT_GUIDED_ATTTARGET \<Rightarrow> AttTarget_handleCommand d command m
   | STATE_FLIGHT_GUIDED_CARTARGET \<Rightarrow> CarTarget_handleCommand d command m
   | STATE_FLIGHT_GUIDED_GEOTARGET \<Rightarrow> GeoTarget_handleCommand d command m
   | _ \<Rightarrow> (m, Inr False))"

definition copter_handleCommand :: "nat \<Rightarrow> Command \<Rightarrow> copter \<Rightarrow> (copter, bool) outcome" where
  "copter_handleCommand d command m = handleCommand_at (length (fst m) - d) d command m"

text \<open>\<open>OnEnter\<close> of the states that do nothing but handle the command they are given.\<close>

definition enter_with_command ::
  "(nat \<Rightarrow> Command \<Rightarrow> copter \<Rightarrow> (copter, bool) outcome) \<Rightarrow> OnEnterArgs \<Rightarrow> nat \<Rightarrow> copter
     \<Rightarrow> (copter, unit) outcome" where
  "enter_with_command handle args d m = (case args of
     Command_Arg (Some command) \<Rightarrow> obind (handle d command m) (\<lambda>m b. (m, Inr ()))
   | _ \<Rightarrow> (m, Inr ()))"

definition copter_OnEnter :: "OnEnterArgs \<Rightarrow> nat \<Rightarrow> copter \<Rightarrow> (copter, unit) outcome" where
  "copter_OnEnter args d m = (case currentState (fst m ! d) of
     STATE_GROUNDED \<Rightarrow> (Grounded_OnEnter d m, Inr ())
   | STATE_GROUNDED_DISARMED \<Rightarrow> (GroundedDisarmed_OnEnter args d m, Inr ())
   | STATE_GROUNDED_ARMING \<Rightarrow> (GroundedArming_OnEnter args d m, Inr ())
   | STATE_GROUNDED_ARMED \<Rightarrow> GroundedArmed_OnEnter args d m
   | STATE_GROUNDED_DISARMING \<Rightarrow> GroundedDisarming_OnEnter args d m
   | STATE_TAKEOFF \<Rightarrow> Takeoff_OnEnter args d m
   | STATE_TAKEOFF_CLIMBING \<Rightarrow> enter_with_command TakeoffClimbing_handleCommand args d m
   | STATE_TAKEOFF_TRANSITIONING \<Rightarrow> enter_with_command TakeoffTransitioning_handleCommand args d m
   | STATE_LANDING \<Rightarrow> Landing_OnEnter args d m
   | STATE_LANDING_TRANSITIONING \<Rightarrow> enter_with_command LandingTransitioning_handleCommand args d m
   | STATE_LANDING_DESCENDING \<Rightarrow> enter_with_command LandingDescent_handleCommand args d m
   | STATE_FLIGHT \<Rightarrow> Flight_OnEnter (copter_handleCommand d) args d m
   | STATE_FLIGHT_GUIDED \<Rightarrow> (setDesiredStateEnum d STATE_FLIGHT_GUIDED_IDLE m, Inr ())
   | STATE_FLIGHT_GUIDED_SPATIALITEM \<Rightarrow> SpatialItem_OnEnter args d m
   | STATE_FLIGHT_GUIDED_ATTTARGET \<Rightarrow>
       enter_target ''AttitudeTargetController'' AttTarget_handleCommand args d m
   | STATE_FLIGHT_GUIDED_CARTARGET \<Rightarrow>
       enter_target ''CartesianTargetController'' CarTarget_handleCommand args d m
   | STATE_FLIGHT_GUIDED_GEOTARGET \<Rightarrow>
       enter_target ''GeodeticTargetController'' GeoTarget_handleCommand args d m
   | _ \<Rightarrow> (m, Inr ()))"

text \<open>\<open>OnExit\<close> of the states that override it; guided flight and two of its inner states do nothing.\<close>

definition TakeoffClimbing_OnExit :: "nat \<Rightarrow> copter \<Rightarrow> copter" where
  "TakeoffClimbing_OnExit d m = remove_global_notifier d (AbstractStateArdupilot_OnExit d m)"

definition TakeoffTransitioning_OnExit :: "nat \<Rightarrow> copter \<Rightarrow> copter" where
  "TakeoffTransitioning_OnExit d m = remove_global_notifier d (AbstractStateArdupilot_OnExit d m)"

definition LandingTransitioning_OnExit :: "nat \<Rightarrow> copter \<Rightarrow> copter" where
  "LandingTransitioning_OnExit d m = remove_global_notifier d (AbstractStateArdupilot_OnExit d m)"

definition LandingDescent_OnExit :: "nat \<Rightarrow> copter \<Rightarrow> copter" where
  "LandingDescent_OnExit d m = 
     remove_global_notifier d (remove_local_notifier d (AbstractStateArdupilot_OnExit d m))"

definition SpatialItem_OnExit :: "nat \<Rightarrow> copter \<Rightarrow> copter" where
  "SpatialItem_OnExit d m = 
     remove_own_controller ''goToController'' (remove_global_notifier d (AbstractStateArdupilot_OnExit d m))"

definition AttTarget_OnExit :: "nat \<Rightarrow> copter \<Rightarrow> copter" where
  "AttTarget_OnExit d m = 
     remove_own_controller ''AttitudeTargetController'' (remove_global_notifier d
       (AbstractStateArdupilot_OnExit d (clear_target d m)))"

definition CarTarget_OnExit :: "nat \<Rightarrow> copter \<Rightarrow> copter" where
  "CarTarget_OnExit d m = 
     remove_own_controller ''CartesianTargetController''
       (remove_global_notifier d (AbstractStateArdupilot_OnExit d m))"

definition GeoTarget_OnExit :: "nat \<Rightarrow> copter \<Rightarrow> copter" where
  "GeoTarget_OnExit d m = 
     remove_own_controller ''GeodeticTargetController''
       (remove_global_notifier d (AbstractStateArdupilot_OnExit d m))"

definition copter_OnExit :: "nat \<Rightarrow> copter \<Rightarrow> (copter, unit) outcome" where
  "copter_OnExit d m =
     ((case currentState (fst m ! d) of
         STATE_FLIGHT \<Rightarrow> Flight_OnExit d m
       | STATE_TAKEOFF_CLIMBING \<Rightarrow> TakeoffClimbing_OnExit d m
       | STATE_TAKEOFF_TRANSITIONING \<Rightarrow> TakeoffTransitioning_OnExit d m
       | STATE_LANDING_TRANSITIONING \<Rightarrow> LandingTransitioning_OnExit d m
       | STATE_LANDING_DESCENDING \<Rightarrow> LandingDescent_OnExit d m
       | STATE_FLIGHT_GUIDED \<Rightarrow> m
       | STATE_FLIGHT_GUIDED_IDLE \<Rightarrow> m
       | STATE_FLIGHT_GUIDED_QUEUE \<Rightarrow> m
       | STATE_FLIGHT_GUIDED_SPATIALITEM \<Rightarrow> SpatialItem_OnExit d m
       | STATE_FLIGHT_GUIDED_ATTTARGET \<Rightarrow> AttTarget_OnExit d m
       | STATE_FLIGHT_GUIDED_CARTARGET \<Rightarrow> CarTarget_OnExit d m
       | STATE_FLIGHT_GUIDED_GEOTARGET \<Rightarrow> GeoTarget_OnExit d m
       | _ \<Rightarrow> AbstractStateArdupilot_OnExit d m), Inr ())"

lemmas exit_defs =
  Flight_OnExit_def TakeoffClimbing_OnExit_def TakeoffTransitioning_OnExit_def LandingTransitioning_OnExit_def
  LandingDescent_OnExit_def SpatialItem_OnExit_def AttTarget_OnExit_def
  CarTarget_OnExit_def GeoTarget_OnExit_def

definition copter_Update :: "nat \<Rightarrow> copter \<Rightarrow> (copter, unit) outcome" where
  "copter_Update d m =
     ((case currentState (fst m ! d) of
         STATE_UNKNOWN \<Rightarrow> Unknown_Update d m
       | STATE_GROUNDED_IDLE \<Rightarrow> GroundedIdle_Update d m
       | STATE_GROUNDED_ARMING \<Rightarrow> GroundedArming_Update d m
       | STATE_GROUNDED_ARMED \<Rightarrow> GroundedArmed_Update d m
       | STATE_GROUNDED_DISARMING \<Rightarrow> GroundedDisarming_Update d m
       | STATE_TAKEOFF \<Rightarrow> Takeoff_Update d m
       | STATE_TAKEOFF_CLIMBING \<Rightarrow> TakeoffClimbing_Update d m
       | STATE_LANDING \<Rightarrow> Landing_Update d m
       | STATE_LANDING_DESCENDING \<Rightarrow> LandingDescent_Update d m
       | STATE_FLIGHT \<Rightarrow> Flight_Update d m
       | _ \<Rightarrow> m), Inr ())"

definition copter_ops :: "(MACEHSMState, OnEnterArgs, StateObject, Vehicle) StateOps" where
  "copter_ops =
     \<lparr>StateType = currentState, GetTransition = copter_GetTransition,
      AllocateState = AllocateState_copter, OnEnter = copter_OnEnter, OnExit = copter_OnExit,
      Update = copter_Update\<rparr>"

lemma copter_ops_simps [simp]:
  "StateType copter_ops = currentState"
  "GetTransition copter_ops = copter_GetTransition"
  "AllocateState copter_ops = AllocateState_copter"
  "OnEnter copter_ops = copter_OnEnter"
  "OnExit copter_ops = copter_OnExit"
  "Update copter_ops = copter_Update"
  by (simp_all add: copter_ops_def)

end
