(* ===== verification/Copter.thy ===== *)
theory Copter
  imports Flight_States
begin

text \<open>
  The module of a copter (\<open>module_vehicle_arducopter/module_vehicle_arducopter.cpp\<close>,
  \<open>module_vehicle_ardupilot.cpp\<close>) around its state machine: what the lambdas of the states do when a
  controller finishes or an item of data changes, and the events the module reacts to.

  Events are steps that do not interleave, but for the threads of \<open>Shutdown\<close>, which are events of their own. The
  module exists, and has been started, before the first event; the vehicle and its state machine exist
  from the first heartbeat on. Decoding of messages is left out: a heartbeat has the name of its mode,
  or none when the number is not in the table, and a report of the position has the altitude and the
  distances that geodesy gives.
\<close>

section \<open>Finished controllers\<close>

text \<open>A lambda that uses its state needs the state to be on the stack.\<close>

definition depth_of :: "nat \<Rightarrow> StateObject list \<Rightarrow> nat option" where
  "depth_of host st = find (\<lambda>d. this (st ! d) = host) [0..<length st]"

definition on_host :: "nat \<Rightarrow> (nat \<Rightarrow> copter \<Rightarrow> copter) \<Rightarrow> copter \<Rightarrow> (copter, unit) outcome" where
  "on_host host f m = (case depth_of host (fst m) of
     None \<Rightarrow> (m, Inl Undefined_Behaviour)
   | Some d \<Rightarrow> (f d m, Inr ()))"

definition on_outer :: "nat \<Rightarrow> MACEHSMState \<Rightarrow> copter \<Rightarrow> (copter, unit) outcome" where
  "on_outer host s m = (case depth_of host (fst m) of
     None \<Rightarrow> (m, Inl Undefined_Behaviour)
   | Some 0 \<Rightarrow> (m, Inl Undefined_Behaviour)
   | Some (Suc d) \<Rightarrow> (setDesiredStateEnum d s m, Inr ()))"

text \<open>\<open>MAV_RESULT_ACCEPTED\<close> and \<open>MAV_MISSION_ACCEPTED\<close> are zero, as is the code of a timeout.\<close>

definition MAV_ACCEPTED :: u8 where
  "MAV_ACCEPTED = 0"

definition shut_down :: "nat \<Rightarrow> copter \<Rightarrow> copter" where
  "shut_down i = update_vehicle (Shutdown i)"

definition desire :: "nat \<Rightarrow> MACEHSMState \<Rightarrow> copter \<Rightarrow> (copter, unit) outcome" where
  "desire host s = on_host host (\<lambda>d. setDesiredStateEnum d s)"

text \<open>
  The lambdas, one by one, in the order of \<open>FinishLambda\<close>: the controller \<open>i\<close> has finished, for the state
  \<open>host\<close>.
\<close>

definition ModeController_finished :: "nat \<Rightarrow> nat \<Rightarrow> bool \<Rightarrow> u8 \<Rightarrow> copter \<Rightarrow> (copter, unit) outcome" where
  "ModeController_finished host i completed code m = (shut_down i m, Inr ())"

definition HomeController_finished :: "nat \<Rightarrow> nat \<Rightarrow> bool \<Rightarrow> u8 \<Rightarrow> copter \<Rightarrow> (copter, unit) outcome" where
  "HomeController_finished host i completed code m = (shut_down i m, Inr ())"

definition GroundedDisarmed_finished :: "nat \<Rightarrow> nat \<Rightarrow> bool \<Rightarrow> u8 \<Rightarrow> copter \<Rightarrow> (copter, unit) outcome" where
  "GroundedDisarmed_finished host i completed code m = desire host STATE_GROUNDED_IDLE (shut_down i m)"

definition GroundedArming_finished :: "nat \<Rightarrow> nat \<Rightarrow> bool \<Rightarrow> u8 \<Rightarrow> copter \<Rightarrow> (copter, unit) outcome" where
  "GroundedArming_finished host i completed code m = 
     (if \<not> completed \<or> code \<noteq> MAV_ACCEPTED then desire host STATE_GROUNDED_IDLE (shut_down i m)
      else (shut_down i m, Inr ()))"

definition GroundedDisarming_finished :: "nat \<Rightarrow> nat \<Rightarrow> bool \<Rightarrow> u8 \<Rightarrow> copter \<Rightarrow> (copter, unit) outcome" where
  "GroundedDisarming_finished host i completed code m = 
     (if \<not> completed \<or> code \<noteq> MAV_ACCEPTED then desire host STATE_GROUNDED_ARMED (shut_down i m)
      else (shut_down i m, Inr ()))"

definition Takeoff_finished :: "nat \<Rightarrow> nat \<Rightarrow> bool \<Rightarrow> u8 \<Rightarrow> copter \<Rightarrow> (copter, unit) outcome" where
  "Takeoff_finished host i completed code m = 
     desire host (if completed \<and> code = MAV_ACCEPTED then STATE_TAKEOFF_CLIMBING else STATE_GROUNDED)
       (shut_down i m)"

definition Takeoff_ChangeMode_finished :: "nat \<Rightarrow> nat \<Rightarrow> bool \<Rightarrow> u8 \<Rightarrow> copter \<Rightarrow> (copter, unit) outcome" where
  "Takeoff_ChangeMode_finished host i completed code m = 
     (if completed \<and> code = MAV_ACCEPTED
      then obind (desire host STATE_FLIGHT m) (\<lambda>m u. (shut_down i m, Inr ()))
      else (shut_down i m, Inr ()))"

definition TakeoffClimbing_finished :: "nat \<Rightarrow> nat \<Rightarrow> bool \<Rightarrow> u8 \<Rightarrow> copter \<Rightarrow> (copter, unit) outcome" where
  "TakeoffClimbing_finished host i completed code m = 
     (if \<not> completed \<and> code \<noteq> MAV_ACCEPTED
      then obind (on_outer host STATE_GROUNDED m) (\<lambda>m u. (shut_down i m, Inr ()))
      else (shut_down i m, Inr ()))"

definition TakeoffTransitioning_finished :: "nat \<Rightarrow> nat \<Rightarrow> bool \<Rightarrow> u8 \<Rightarrow> copter \<Rightarrow> (copter, unit) outcome" where
  "TakeoffTransitioning_finished host i completed code m = (shut_down i m, Inr ())"

definition Landing_finished :: "nat \<Rightarrow> nat \<Rightarrow> bool \<Rightarrow> u8 \<Rightarrow> copter \<Rightarrow> (copter, unit) outcome" where
  "Landing_finished host i completed code m = 
     desire host (if completed \<and> code = MAV_ACCEPTED then STATE_LANDING_TRANSITIONING else STATE_FLIGHT)
       (shut_down i m)"

definition LandingTransitioning_finished :: "nat \<Rightarrow> nat \<Rightarrow> bool \<Rightarrow> u8 \<Rightarrow> copter \<Rightarrow> (copter, unit) outcome" where
  "LandingTransitioning_finished host i completed code m = (shut_down i m, Inr ())"

definition LandingDescent_finished :: "nat \<Rightarrow> nat \<Rightarrow> bool \<Rightarrow> u8 \<Rightarrow> copter \<Rightarrow> (copter, unit) outcome" where
  "LandingDescent_finished host i completed code m = 
     (if \<not> completed \<and> code \<noteq> MAV_ACCEPTED
      then obind (on_outer host STATE_FLIGHT m) (\<lambda>m u. (shut_down i m, Inr ()))
      else (shut_down i m, Inr ()))"

definition Flight_MissionCommand_finished :: "nat \<Rightarrow> nat \<Rightarrow> bool \<Rightarrow> u8 \<Rightarrow> copter \<Rightarrow> (copter, unit) outcome" where
  "Flight_MissionCommand_finished host i completed code m = (shut_down i m, Inr ())"

definition FlightRTL_finished :: "nat \<Rightarrow> nat \<Rightarrow> bool \<Rightarrow> u8 \<Rightarrow> copter \<Rightarrow> (copter, unit) outcome" where
  "FlightRTL_finished host i completed code m = 
     (if completed \<and> code = MAV_ACCEPTED
      then obind (desire host STATE_FLIGHT_RTL m) (\<lambda>m u. (shut_down i m, Inr ()))
      else (shut_down i m, Inr ()))"

definition GoTo_finished :: "nat \<Rightarrow> nat \<Rightarrow> bool \<Rightarrow> u8 \<Rightarrow> copter \<Rightarrow> (copter, unit) outcome" where
  "GoTo_finished host i completed code m = 
     (if \<not> completed then desire host STATE_FLIGHT_GUIDED_IDLE m
      else if code \<noteq> MAV_ACCEPTED then desire host STATE_FLIGHT_GUIDED_IDLE m
      else on_host host (\<lambda>d. update_state d (\<lambda>x. x\<lparr>commandAccepted := True\<rparr>)) m)"

definition run_FinishLambda ::
  "FinishLambda \<Rightarrow> nat \<Rightarrow> nat \<Rightarrow> bool \<Rightarrow> u8 \<Rightarrow> copter \<Rightarrow> (copter, unit) outcome" where
  "run_FinishLambda l = (case l of
     ModeController_Finished \<Rightarrow> ModeController_finished
   | HomeController_Finished \<Rightarrow> HomeController_finished
   | GroundedDisarmed_Finished \<Rightarrow> GroundedDisarmed_finished
   | GroundedArming_Finished \<Rightarrow> GroundedArming_finished
   | GroundedDisarming_Finished \<Rightarrow> GroundedDisarming_finished
   | Takeoff_Finished \<Rightarrow> Takeoff_finished
   | Takeoff_ChangeMode_Finished \<Rightarrow> Takeoff_ChangeMode_finished
   | TakeoffClimbing_Finished \<Rightarrow> TakeoffClimbing_finished
   | TakeoffTransitioning_Finished \<Rightarrow> TakeoffTransitioning_finished
   | Landing_Finished \<Rightarrow> Landing_finished
   | LandingTransitioning_Finished \<Rightarrow> LandingTransitioning_finished
   | LandingDescent_Finished \<Rightarrow> LandingDescent_finished
   | Flight_MissionCommand_Finished \<Rightarrow> Flight_MissionCommand_finished
   | FlightRTL_Finished \<Rightarrow> FlightRTL_finished
   | GoTo_Finished \<Rightarrow> GoTo_finished)"

lemmas finish_defs =
  shut_down_def desire_def ModeController_finished_def HomeController_finished_def GroundedDisarmed_finished_def GroundedArming_finished_def
  GroundedDisarming_finished_def Takeoff_finished_def Takeoff_ChangeMode_finished_def TakeoffClimbing_finished_def
  TakeoffTransitioning_finished_def Landing_finished_def LandingTransitioning_finished_def LandingDescent_finished_def
  Flight_MissionCommand_finished_def FlightRTL_finished_def GoTo_finished_def

fun run_lambdas ::
  "(nat \<times> FinishLambda) list \<Rightarrow> nat \<Rightarrow> bool \<Rightarrow> u8 \<Rightarrow> copter \<Rightarrow> (copter, unit) outcome" where
  "run_lambdas [] i completed code m = (m, Inr ())"
| "run_lambdas ((host, l) # ls) i completed code m =
     obind (run_FinishLambda l host i completed code m) (\<lambda>m u. run_lambdas ls i completed code m)"

definition onFinished :: "nat \<Rightarrow> bool \<Rightarrow> u8 \<Rightarrow> copter \<Rightarrow> (copter, unit) outcome" where
  "onFinished i completed code m = (case map_of (live (snd m)) i of
     None \<Rightarrow> (m, Inl Undefined_Behaviour)
   | Some c \<Rightarrow> run_lambdas (m_FinishLambda c) i completed code m)"

text \<open>
  An acknowledgement is read by every registered controller that is active and waits for messages of its
  kind: those of a command by all controllers of the command, those of a mission item by all that send
  items. Then the controller's request is taken from the queue.
\<close>

datatype Acknowledgement =
    Ack_SET_MODE | Ack_COMPONENT_ARM_DISARM | Ack_NAV_TAKEOFF | Ack_NAV_LAND
  | Ack_NAV_RETURN_TO_LAUNCH | Ack_DO_SET_HOME | Ack_MISSION

fun acknowledged_by :: "Acknowledgement \<Rightarrow> ControllerKind \<Rightarrow> bool" where
  "acknowledged_by Ack_SET_MODE k = (k = ControllerSystemMode)"
| "acknowledged_by Ack_COMPONENT_ARM_DISARM k = (k = CommandARM)"
| "acknowledged_by Ack_NAV_TAKEOFF k = (k = CommandTakeoff)"
| "acknowledged_by Ack_NAV_LAND k = (k = CommandLand)"
| "acknowledged_by Ack_NAV_RETURN_TO_LAUNCH k = (k = CommandRTL)"
| "acknowledged_by Ack_DO_SET_HOME k = (k = Command_HomePositionSet)"
| "acknowledged_by Ack_MISSION k = (k = ControllerGuidedMissionItem)"

definition RemoveTransmission_of :: "nat \<Rightarrow> Vehicle \<Rightarrow> Vehicle" where
  "RemoveTransmission_of i w =
     (let w = modify_controller i (\<lambda>c. c\<lparr>isControllerActive := False\<rparr>) w
      in w\<lparr>transmissions := removeAll i (transmissions w)\<rparr>)"

definition ReceiveMessage :: "Acknowledgement \<Rightarrow> u8 \<Rightarrow> nat \<Rightarrow> copter \<Rightarrow> (copter, unit) outcome" where
  "ReceiveMessage ack code i m = (case map_of (live (snd m)) i of
     None \<Rightarrow> (m, Inl Undefined_Behaviour)
   | Some c \<Rightarrow>
       if isControllerActive c \<and> m_MessageBehaviors c \<and> acknowledged_by ack (controllerKind c)
       then obind (onFinished i True code m) (\<lambda>m u. (update_vehicle (RemoveTransmission_of i) m, Inr ()))
       else (m, Inr ()))"

fun receive_each :: "Acknowledgement \<Rightarrow> u8 \<Rightarrow> nat list \<Rightarrow> copter \<Rightarrow> (copter, unit) outcome" where
  "receive_each ack code [] m = (m, Inr ())"
| "receive_each ack code (i # is) m =
     obind (ReceiveMessage ack code i m) (\<lambda>m u. receive_each ack code is m)"

definition Receive :: "Acknowledgement \<Rightarrow> u8 \<Rightarrow> copter \<Rightarrow> (copter, unit) outcome" where
  "Receive ack code m = receive_each ack code (map snd (controllers (snd m))) m"

text \<open>The retransmission queue gives up a request of a controller, or repeats it.\<close>

definition transmission_fails :: "nat \<Rightarrow> copter \<Rightarrow> (copter, unit) outcome" where
  "transmission_fails i m =
     (if i \<notin> set (transmissions (snd m)) then (m, Inr ())
      else obind (onFinished i False 0 m) (\<lambda>m u.
        (update_vehicle (\<lambda>w. w\<lparr>transmissions := removeAll i (transmissions w)\<rparr>) m, Inr ())))"

definition retransmit :: "nat \<Rightarrow> copter \<Rightarrow> (copter, unit) outcome" where
  "retransmit i m =
     (if i \<in> set (transmissions (snd m)) \<and> map_of (live (snd m)) i = None
      then (m, Inl Undefined_Behaviour) else (m, Inr ()))"

section \<open>Reports of the position\<close>

record PositionReport =
  reportedAltitude :: dbl
  distanceBetween2D :: "Position \<Rightarrow> dbl"
  distanceTo :: "Position \<Rightarrow> dbl"

definition progress_to :: "dbl \<Rightarrow> nat \<Rightarrow> copter \<Rightarrow> copter" where
  "progress_to distance d = update_state d (\<lambda>x. x\<lparr>guidedProgress := updateTargetState distance (guidedProgress x)\<rparr>)"

definition when_achieved :: "dbl \<Rightarrow> (nat \<Rightarrow> copter \<Rightarrow> copter) \<Rightarrow> nat \<Rightarrow> copter \<Rightarrow> copter" where
  "when_achieved distance f d m =
     (let m = progress_to distance d m
      in if target_achieved (guidedProgress (state_at d m)) then f d m else m)"

definition Climb_notified :: "Position \<Rightarrow> dbl \<Rightarrow> PositionReport \<Rightarrow> nat \<Rightarrow> copter \<Rightarrow> copter" where
  "Climb_notified p altitude r =
     when_achieved (dbl_abs (dbl_sub altitude (reportedAltitude r)))
       (\<lambda>d. setDesiredStateEnum d
          (if areTranslationalComponentsValid p then STATE_TAKEOFF_TRANSITIONING else STATE_TAKEOFF_COMPLETE))"

definition TakeoffTransition_notified :: "Position \<Rightarrow> PositionReport \<Rightarrow> nat \<Rightarrow> copter \<Rightarrow> copter" where
  "TakeoffTransition_notified p r =
     when_achieved (dbl_abs (distanceBetween2D r p)) (\<lambda>d. setDesiredStateEnum d STATE_TAKEOFF_COMPLETE)"

definition LandingTransition_notified :: "Position \<Rightarrow> PositionReport \<Rightarrow> nat \<Rightarrow> copter \<Rightarrow> copter" where
  "LandingTransition_notified p r =
     when_achieved (dbl_abs (distanceBetween2D r p)) (\<lambda>d. setDesiredStateEnum d STATE_LANDING_DESCENDING)"

definition Descent_notified :: "dbl \<Rightarrow> PositionReport \<Rightarrow> nat \<Rightarrow> copter \<Rightarrow> copter" where
  "Descent_notified altitude r =
     when_achieved (dbl_abs (dbl_sub (reportedAltitude r) altitude))
       (\<lambda>d m. setDesiredStateEnum d STATE_LANDING_COMPLETE (clearCommand d m))"

definition GoTo_notified :: "Position \<Rightarrow> PositionReport \<Rightarrow> nat \<Rightarrow> copter \<Rightarrow> copter" where
  "GoTo_notified p r d m =
     (if commandAccepted (state_at d m) then progress_to (dbl_abs (distanceTo r p)) d m else m)"

definition run_Notifier :: "PositionReport \<Rightarrow> Notifier \<Rightarrow> nat \<Rightarrow> copter \<Rightarrow> copter" where
  "run_Notifier r n = (case n of
     Climb_Notifier p altitude \<Rightarrow> Climb_notified p altitude r
   | TakeoffTransition_Notifier p \<Rightarrow> TakeoffTransition_notified p r
   | LandingTransition_Notifier p \<Rightarrow> LandingTransition_notified p r
   | Descent_Notifier altitude \<Rightarrow> Descent_notified altitude r
   | GoTo_Notifier p \<Rightarrow> GoTo_notified p r)"

lemmas notified_defs =
  Climb_notified_def TakeoffTransition_notified_def LandingTransition_notified_def Descent_notified_def
  GoTo_notified_def

fun run_notifiers :: "PositionReport \<Rightarrow> (nat \<times> Notifier) list \<Rightarrow> copter \<Rightarrow> (copter, unit) outcome" where
  "run_notifiers r [] m = (m, Inr ())"
| "run_notifiers r ((host, n) # ns) m =
     obind (on_host host (run_Notifier r n) m) (\<lambda>m u. run_notifiers r ns m)"

section \<open>The module\<close>

definition ProgressStateMachineStates :: "copter \<Rightarrow> (copter, unit) outcome" where
  "ProgressStateMachineStates m =
     obind (ProcessStateTransitions copter_ops (STATE_UNKNOWN, No_Args) m)
       (\<lambda>m u. UpdateStates copter_ops m)"

text \<open>The nine handlers \<open>Command_...\<close> give the command to the outermost state and progress the machine.\<close>

definition module_Command :: "Command \<Rightarrow> copter \<Rightarrow> (copter, unit) outcome" where
  "module_Command command m =
     (if fst m = [] then (m, Inl Undefined_Behaviour)
      else obind (copter_handleCommand 0 command m) (\<lambda>m b. ProgressStateMachineStates m))"

fun mode_notifiers :: "nat list \<Rightarrow> copter \<Rightarrow> (copter, unit) outcome" where
  "mode_notifiers [] m = (m, Inr ())"
| "mode_notifiers (host # hosts) m =
     obind (on_host host (\<lambda>d m. checkTransitionFromMode (getFlightModeString (snd m)) d m) m)
       (\<lambda>m u. mode_notifiers hosts m)"

definition set_vehicleMode :: "string \<Rightarrow> copter \<Rightarrow> (copter, unit) outcome" where
  "set_vehicleMode mode m =
     (if set_takes (vehicleMode (snd m)) mode
      then let m = update_vehicle (\<lambda>w. w\<lparr>vehicleMode := Some mode\<rparr>) m
           in mode_notifiers (modeNotifiers (snd m)) m
      else (m, Inr ()))"

text \<open>\<open>MAV_MODE_FLAG_DECODE_POSITION_SAFETY\<close> is the bit of a heartbeat that says the vehicle is armed.\<close>

definition MAV_MODE_FLAG_DECODE_POSITION_SAFETY :: u8 where
  "MAV_MODE_FLAG_DECODE_POSITION_SAFETY = 128"

definition VehicleHeartbeatInfo ::
  "string option \<Rightarrow> u8 \<Rightarrow> bool \<Rightarrow> copter option \<Rightarrow> (copter, unit) outcome" where
  "VehicleHeartbeatInfo mode base_mode rotary s =
     (let m = (case s of None \<Rightarrow> ([], Vehicle_new) | Some m \<Rightarrow> m)
      in case mode of
           None \<Rightarrow> (m, Inl Out_Of_Range)
         | Some name \<Rightarrow>
             obind (set_vehicleMode name m) (\<lambda>m u.
               ProgressStateMachineStates
                 (update_vehicle (\<lambda>w. w\<lparr>vehicleArm :=
                    Some (and base_mode MAV_MODE_FLAG_DECODE_POSITION_SAFETY \<noteq> 0),
                    systemTypeRotary := rotary\<rparr>) m)))"

datatype Event =
    Heartbeat "string option" u8 bool
  | Command_Event Command Schedule
  | Ack_Event Acknowledgement u8
  | Global_Position PositionReport
  | Local_Position PositionReport
  | Other_Message
  | Transmission_Fails nat
  | Retransmission nat
  | Shutdown_Runs nat

text \<open>
  One event. A command before the first heartbeat uses a null pointer; messages are ignored until then.
  A message other than a heartbeat ends in \<open>ProgressStateMachineStates\<close>.
\<close>

definition with_machine ::
  "(copter \<Rightarrow> (copter, unit) outcome) \<Rightarrow> copter option \<Rightarrow> (copter option, unit) outcome" where
  "with_machine f s = (case s of
     None \<Rightarrow> (None, Inr ())
   | Some m \<Rightarrow> (let (m, r) = f m in (Some m, r)))"

definition copter_step :: "Event \<Rightarrow> copter option \<Rightarrow> (copter option, unit) outcome" where
  "copter_step e s = (case e of
     Heartbeat mode base_mode rotary \<Rightarrow>
       (let (m, r) = VehicleHeartbeatInfo mode base_mode rotary s in (Some m, r))
   | Command_Event command sched \<Rightarrow>
       (if s = None then (s, Inl Undefined_Behaviour)
        else with_machine (\<lambda>m. module_Command command (update_vehicle (\<lambda>w. w\<lparr>schedule := sched\<rparr>) m)) s)
   | Ack_Event ack code \<Rightarrow>
       with_machine (\<lambda>m. obind (Receive ack code m) (\<lambda>m u. ProgressStateMachineStates m)) s
   | Global_Position r \<Rightarrow>
       with_machine (\<lambda>m. obind (run_notifiers r (globalNotifiers (snd m)) m)
                           (\<lambda>m u. ProgressStateMachineStates m)) s
   | Local_Position r \<Rightarrow>
       with_machine (\<lambda>m. obind (run_notifiers r (localNotifiers (snd m)) m)
                           (\<lambda>m u. ProgressStateMachineStates m)) s
   | Other_Message \<Rightarrow> with_machine ProgressStateMachineStates s
   | Transmission_Fails i \<Rightarrow> with_machine (transmission_fails i) s
   | Retransmission i \<Rightarrow> with_machine (retransmit i) s
   | Shutdown_Runs i \<Rightarrow>
       with_machine (\<lambda>m. if i \<in> set (shutdowns (snd m)) then Shutdown_thread i m else (m, Inr ())) s)"

text \<open>The histories of a module, from its start, of events that satisfy \<open>P\<close> and did not fail.\<close>

inductive copter_reach :: "(Event \<Rightarrow> bool) \<Rightarrow> copter option \<Rightarrow> bool" for P where
  start: "copter_reach P None"
| event: "copter_reach P s \<Longrightarrow> P e \<Longrightarrow> copter_step e s = (s', Inr ()) \<Longrightarrow> copter_reach P s'"

text \<open>Running a list of events until one fails.\<close>

fun copter_run :: "Event list \<Rightarrow> copter option \<Rightarrow> (copter option, unit) outcome" where
  "copter_run [] s = (s, Inr ())"
| "copter_run (e # es) s = obind (copter_step e s) (\<lambda>s u. copter_run es s)"

lemma copter_run_reach:
  "copter_run es s = (s', Inr ()) \<Longrightarrow> \<forall>e \<in> set es. P e \<Longrightarrow> copter_reach P s \<Longrightarrow> copter_reach P s'"
  by (induction es s rule: copter_run.induct)
    (auto simp: obind_def split: prod.splits sum.splits intro: copter_reach.event)

end
