(* ===== verification/Copter_Frames.thy ===== *)
theory Copter_Frames
  imports Copter
begin

text \<open>
  What a step of the flight states of a copter leaves alone: the classes and addresses of the states on the
  stack; that what controllers and the notifiers of the global position and the mode call belongs to
  states on the stack; and any condition on commands that the states' commands satisfy.
\<close>

section \<open>The hierarchy\<close>

fun outer_of :: "MACEHSMState \<Rightarrow> MACEHSMState option" where
  "outer_of STATE_UNKNOWN = None"
| "outer_of STATE_GROUNDED = None"
| "outer_of STATE_TAKEOFF = None"
| "outer_of STATE_FLIGHT = None"
| "outer_of STATE_LANDING = None"
| "outer_of STATE_GROUNDED_IDLE = Some STATE_GROUNDED"
| "outer_of STATE_GROUNDED_ARMING = Some STATE_GROUNDED"
| "outer_of STATE_GROUNDED_ARMED = Some STATE_GROUNDED"
| "outer_of STATE_GROUNDED_DISARMING = Some STATE_GROUNDED"
| "outer_of STATE_GROUNDED_DISARMED = Some STATE_GROUNDED"
| "outer_of STATE_TAKEOFF_CLIMBING = Some STATE_TAKEOFF"
| "outer_of STATE_TAKEOFF_TRANSITIONING = Some STATE_TAKEOFF"
| "outer_of STATE_TAKEOFF_COMPLETE = Some STATE_TAKEOFF"
| "outer_of STATE_FLIGHT_AUTO = Some STATE_FLIGHT"
| "outer_of STATE_FLIGHT_BRAKE = Some STATE_FLIGHT"
| "outer_of STATE_FLIGHT_LAND = Some STATE_FLIGHT"
| "outer_of STATE_FLIGHT_LOITER = Some STATE_FLIGHT"
| "outer_of STATE_FLIGHT_MANUAL = Some STATE_FLIGHT"
| "outer_of STATE_FLIGHT_STABILIZE = Some STATE_FLIGHT"
| "outer_of STATE_FLIGHT_RTL = Some STATE_FLIGHT"
| "outer_of STATE_FLIGHT_FBW = Some STATE_FLIGHT"
| "outer_of STATE_FLIGHT_UNKNOWN = Some STATE_FLIGHT"
| "outer_of STATE_FLIGHT_GUIDED = Some STATE_FLIGHT"
| "outer_of STATE_LANDING_TRANSITIONING = Some STATE_LANDING"
| "outer_of STATE_LANDING_DESCENDING = Some STATE_LANDING"
| "outer_of STATE_LANDING_COMPLETE = Some STATE_LANDING"
| "outer_of STATE_FLIGHT_GUIDED_IDLE = Some STATE_FLIGHT_GUIDED"
| "outer_of STATE_FLIGHT_GUIDED_SPATIALITEM = Some STATE_FLIGHT_GUIDED"
| "outer_of STATE_FLIGHT_GUIDED_QUEUE = Some STATE_FLIGHT_GUIDED"
| "outer_of STATE_FLIGHT_GUIDED_ATTTARGET = Some STATE_FLIGHT_GUIDED"
| "outer_of STATE_FLIGHT_GUIDED_GEOTARGET = Some STATE_FLIGHT_GUIDED"
| "outer_of STATE_FLIGHT_GUIDED_CARTARGET = Some STATE_FLIGHT_GUIDED"

section \<open>Frames\<close>

text \<open>
  What the vehicle has registered fits the states on the stack, which are given with their addresses and
  classes. The global position notifies states that withdraw when they are left, the mode notifies
  flight; registered controllers exist, are registered once, and call states that withdraw from them.
\<close>

type_synonym places = "(nat \<times> MACEHSMState) list"

definition places :: "StateObject list \<Rightarrow> places" where
  "places st = map (\<lambda>x. (this x, currentState x)) st"

definition withdraws :: "MACEHSMState \<Rightarrow> bool" where
  "withdraws k \<longleftrightarrow> k \<notin> {STATE_FLIGHT_GUIDED, STATE_FLIGHT_GUIDED_IDLE, STATE_FLIGHT_GUIDED_QUEUE}"

definition follows_position :: "MACEHSMState \<Rightarrow> bool" where
  "follows_position k \<longleftrightarrow> k \<in> {STATE_TAKEOFF_CLIMBING, STATE_TAKEOFF_TRANSITIONING,
     STATE_LANDING_TRANSITIONING, STATE_LANDING_DESCENDING, STATE_FLIGHT_GUIDED_SPATIALITEM}"

definition may_finish :: "places \<Rightarrow> nat \<Rightarrow> FinishLambda \<Rightarrow> bool" where
  "may_finish ps h l \<longleftrightarrow> (\<exists>k. (h, k) \<in> set ps \<and> withdraws k
     \<and> (l \<in> {TakeoffClimbing_Finished, LandingDescent_Finished} \<longrightarrow> outer_of k \<noteq> None))"

definition hosts_ok :: "places \<Rightarrow> Controller \<Rightarrow> bool" where
  "hosts_ok ps c \<longleftrightarrow> (\<forall>(h, l) \<in> set (m_FinishLambda c). may_finish ps h l)"

definition places_ok :: "places \<Rightarrow> nat \<Rightarrow> bool" where
  "places_ok ps n \<longleftrightarrow> distinct (map fst ps) \<and> (\<forall>(a, k) \<in> set ps. a < n)"

definition notifiers_ok :: "places \<Rightarrow> Vehicle \<Rightarrow> bool" where
  "notifiers_ok ps w \<longleftrightarrow>
     (\<forall>(h, n) \<in> set (globalNotifiers w). \<exists>k. (h, k) \<in> set ps \<and> follows_position k)
   \<and> (\<forall>h \<in> set (modeNotifiers w). (h, STATE_FLIGHT) \<in> set ps)"

definition controllers_ok :: "places \<Rightarrow> Vehicle \<Rightarrow> bool" where
  "controllers_ok ps w \<longleftrightarrow>
     distinct (map snd (controllers w)) \<and> (\<forall>i. map_of (live w) i \<noteq> None \<longrightarrow> i < fresh w)
   \<and> (\<forall>i \<in> snd ` set (controllers w). \<exists>c. map_of (live w) i = Some c \<and> hosts_ok ps c)"

definition vehicle_ok :: "places \<Rightarrow> Vehicle \<Rightarrow> bool" where
  "vehicle_ok ps w \<longleftrightarrow> places_ok ps (fresh w) \<and> notifiers_ok ps w \<and> controllers_ok ps w"

lemma places_ok_mono: "places_ok ps n \<Longrightarrow> n \<le> n' \<Longrightarrow> places_ok ps n'"
  by (auto simp: places_ok_def)

lemma controllers_ok_cong:
  "controllers_ok ps w \<Longrightarrow> controllers w' = controllers w \<Longrightarrow> live w' = live w \<Longrightarrow> fresh w \<le> fresh w'
    \<Longrightarrow> controllers_ok ps w'"
  by (auto simp: controllers_ok_def intro: less_le_trans)

lemma notifiers_ok_cong:
  "notifiers_ok ps w \<Longrightarrow> globalNotifiers w' = globalNotifiers w \<Longrightarrow> modeNotifiers w' = modeNotifiers w
    \<Longrightarrow> notifiers_ok ps w'"
  by (simp add: notifiers_ok_def)

lemma registered_hosts:
  assumes "vehicle_ok ps w" "i \<in> snd ` set (controllers w)" "map_of (live w) i = Some c"
  shows "hosts_ok ps c"
  using assms unfolding vehicle_ok_def controllers_ok_def by (metis option.inject)

lemma vehicle_ok_cong:
  assumes "vehicle_ok ps w" "globalNotifiers w' = globalNotifiers w" "modeNotifiers w' = modeNotifiers w"
    "controllers w' = controllers w" "live w' = live w" "fresh w' = fresh w"
  shows "vehicle_ok ps w'"
  using assms controllers_ok_cong [of ps w w'] notifiers_ok_cong [of ps w w'] by (simp add: vehicle_ok_def)

text \<open>A controller that is not registered and may be.\<close>

definition pending :: "places \<Rightarrow> nat \<Rightarrow> Vehicle \<Rightarrow> bool" where
  "pending ps i w \<longleftrightarrow> (\<exists>c. map_of (live w) i = Some c \<and> hosts_ok ps c) \<and> i \<notin> snd ` set (controllers w)"

lemma new_controller_ok:
  assumes "vehicle_ok ps w" "new_controller k w = (i, w')"
  shows "vehicle_ok ps w' \<and> pending ps i w'"
proof -
  have i: "i = fresh w" and w': "controllers w' = controllers w" "fresh w' = fresh w + 1"
    "globalNotifiers w' = globalNotifiers w" "modeNotifiers w' = modeNotifiers w"
    and live: "\<And>j. j \<noteq> i \<Longrightarrow> map_of (live w') j = map_of (live w) j"
    and own: "\<exists>c. map_of (live w') i = Some c \<and> hosts_ok ps c"
    using assms(2) by (auto simp: new_controller_def hosts_ok_def)
  have reg: "\<forall>j \<in> snd ` set (controllers w). j < fresh w"
    using assms(1) by (force simp: vehicle_ok_def controllers_ok_def)
  have "controllers_ok ps w'"
    using assms(1) i w' live own reg unfolding vehicle_ok_def controllers_ok_def
    by (metis less_Suc_eq less_irrefl_nat Suc_eq_plus1)
  then show ?thesis
    using assms(1) i w' own reg places_ok_mono [of ps "fresh w" "fresh w'"] notifiers_ok_cong [of ps w w']
    by (auto simp: vehicle_ok_def pending_def)
qed

lemma modify_controller_simps [simp]:
  "controllers (modify_controller i f w) = controllers w"
  "fresh (modify_controller i f w) = fresh w"
  "globalNotifiers (modify_controller i f w) = globalNotifiers w"
  "modeNotifiers (modify_controller i f w) = modeNotifiers w"
  "map_of (live (modify_controller i f w)) j =
     (if j = i then map_option f (map_of (live w) j) else map_of (live w) j)"
  by (auto simp: modify_controller_def split: option.splits)

lemma modify_controller_ok:
  assumes "vehicle_ok ps w" "\<And>c. hosts_ok ps c \<Longrightarrow> hosts_ok ps (f c)"
  shows "vehicle_ok ps (modify_controller i f w)"
proof -
  have "controllers_ok ps (modify_controller i f w)"
    using assms by (fastforce simp: vehicle_ok_def controllers_ok_def)
  then show ?thesis using assms(1) notifiers_ok_cong [of ps w "modify_controller i f w"]
    by (simp add: vehicle_ok_def)
qed

lemma modify_controller_pending:
  assumes "pending ps j w" "\<And>c. hosts_ok ps c \<Longrightarrow> hosts_ok ps (f c)"
  shows "pending ps j (modify_controller i f w)"
  using assms by (auto simp: pending_def)

lemma AddLambda_ok:
  assumes "may_finish ps h l"
  shows "vehicle_ok ps w \<Longrightarrow> vehicle_ok ps (AddLambda_Finished i h l w)"
    and "pending ps j w \<Longrightarrow> pending ps j (AddLambda_Finished i h l w)"
  using assms unfolding AddLambda_Finished_def
  by (auto intro!: modify_controller_ok modify_controller_pending
      simp: hosts_ok_def um_insert_def split: option.splits)

lemma setLambda_ok:
  "vehicle_ok ps w \<Longrightarrow> vehicle_ok ps (setLambda_Shutdown i l w)"
  "pending ps j w \<Longrightarrow> pending ps j (setLambda_Shutdown i l w)"
  unfolding setLambda_Shutdown_def
  by (auto intro!: modify_controller_ok modify_controller_pending simp: hosts_ok_def)

lemma Send_ok:
  "vehicle_ok ps w \<Longrightarrow> vehicle_ok ps (Send i r w)"
  "pending ps j w \<Longrightarrow> pending ps j (Send i r w)"
proof -
  let ?w = "modify_controller i (\<lambda>c. c\<lparr>isControllerActive := True\<rparr>) w"
  show "vehicle_ok ps (Send i r w)" if "vehicle_ok ps w"
    using modify_controller_ok [OF that, of "\<lambda>c. c\<lparr>isControllerActive := True\<rparr>" i]
    by (auto simp: Send_def Let_def hosts_ok_def intro: vehicle_ok_cong)
  show "pending ps j (Send i r w)" if "pending ps j w"
    using modify_controller_pending [OF that, of "\<lambda>c. c\<lparr>isControllerActive := True\<rparr>" i]
    by (simp add: Send_def Let_def hosts_ok_def) (simp add: pending_def)
qed

lemma Insert_ok:
  assumes "vehicle_ok ps w" "pending ps i w"
  shows "vehicle_ok ps (collection_Insert name i w)"
proof -
  have "controllers_ok ps (collection_Insert name i w)"
    using assms by (auto simp: vehicle_ok_def controllers_ok_def collection_Insert_def pending_def um_insert_def
        split: option.splits)
  then show ?thesis using assms(1) notifiers_ok_cong [of ps w "collection_Insert name i w"]
    by (simp add: vehicle_ok_def collection_Insert_def)
qed

text \<open>A name taken out of the collection: what it stood for is no longer registered.\<close>

lemma Remove_delete_ok:
  assumes "vehicle_ok ps w" "collection_Remove name w = (p, w')"
  shows "vehicle_ok ps (delete_controller p w')"
proof -
  let ?w = "delete_controller p w'"
  have p: "p = map_of (controllers w) name"
    and c: "controllers ?w = um_erase name (controllers w)"
    and same: "fresh ?w = fresh w" "globalNotifiers ?w = globalNotifiers w" "modeNotifiers ?w = modeNotifiers w"
    using assms(2) by (auto simp: collection_Remove_def delete_controller_def split: option.splits)
  have live: "map_of (live ?w) j = (if Some j = p then None else map_of (live w) j)" for j
    using assms(2) by (auto simp: collection_Remove_def delete_controller_def split: option.splits)
  have ok: "controllers_ok ps w" using assms(1) by (simp add: vehicle_ok_def)
  have d: "distinct (map snd (um_erase name (controllers w)))"
    using ok by (simp add: controllers_ok_def AList.delete_eq distinct_map_filter)
  have gone: "Some j \<noteq> p" if j: "j \<in> snd ` set (um_erase name (controllers w))" for j
  proof
    assume "Some j = p"
    then have "(name, j) \<in> set (controllers w)" using p by (metis map_of_SomeD)
    moreover obtain n where "(n, j) \<in> set (controllers w)" "n \<noteq> name"
      using j unfolding set_um_erase by auto
    moreover have "inj_on snd (set (controllers w))"
      using ok by (simp add: controllers_ok_def distinct_map)
    ultimately show False by (metis inj_onD prod.inject snd_conv)
  qed
  have "controllers_ok ps ?w"
    using ok d gone live c same
    by (auto simp: controllers_ok_def set_um_erase image_iff Ball_def)
  then show ?thesis
    using assms(1) same notifiers_ok_cong [of ps w ?w] by (simp add: vehicle_ok_def)
qed

text \<open>
  What a step inside the states does not change: the places on the stack; that the vehicle fits them;
  that the commands the states hold satisfy a condition.
\<close>

definition held :: "(Command \<Rightarrow> bool) \<Rightarrow> copter \<Rightarrow> bool" where
  "held Q m \<longleftrightarrow> (\<forall>x \<in> set (fst m). \<forall>c. currentCommand x = Some c \<longrightarrow> Q c)"

definition frame :: "(Command \<Rightarrow> bool) \<Rightarrow> copter \<Rightarrow> copter \<Rightarrow> bool" where
  "frame Q m m' \<longleftrightarrow> places (fst m') = places (fst m)
   \<and> (vehicle_ok (places (fst m)) (snd m) \<longrightarrow> vehicle_ok (places (fst m)) (snd m'))
   \<and> (held Q m \<longrightarrow> held Q m')"

text \<open>A state of class \<open>k\<close> at depth \<open>d\<close>.\<close>

definition stands :: "MACEHSMState \<Rightarrow> nat \<Rightarrow> copter \<Rightarrow> bool" where
  "stands k d m \<longleftrightarrow> d < length (fst m) \<and> currentState (fst m ! d) = k"

lemma places_simps [simp]:
  "length (places st) = length st"
  "d < length st \<Longrightarrow> places st ! d = (this (st ! d), currentState (st ! d))"
  by (simp_all add: places_def)

lemma places_in: "stands k d m \<Longrightarrow> (this (fst m ! d), k) \<in> set (places (fst m))"
  by (auto simp: stands_def places_def)

lemma frame_length: "frame Q m m' \<Longrightarrow> length (fst m') = length (fst m)"
  using places_simps(1) by (metis frame_def)

lemma frame_stands: "frame Q m m' \<Longrightarrow> stands k d m \<Longrightarrow> stands k d m' \<and> this (fst m' ! d) = this (fst m ! d)"
  using frame_length [of Q m m'] places_simps(2) [of d "fst m"] places_simps(2) [of d "fst m'"]
  by (auto simp: frame_def stands_def)

named_theorems frame_intros

lemma frame_refl [simp, frame_intros]: "frame Q m m"
  by (simp add: frame_def)

lemma frame_trans: "frame Q m m' \<Longrightarrow> frame Q m' m'' \<Longrightarrow> frame Q m m''"
  by (simp add: frame_def)

lemma frame_obind [frame_intros]:
  assumes "frame Q m0 (fst r)"
    and "\<And>m a. r = (m, Inr a) \<Longrightarrow> frame Q m0 m \<Longrightarrow> frame Q m0 (fst (f m a))"
  shows "frame Q m0 (fst (obind r f))"
  using assms by (cases r; cases "snd r") auto

lemma frame_update_state:
  assumes "frame Q m0 m"
    and "\<And>x. this (f x) = this x \<and> currentState (f x) = currentState x
      \<and> (\<forall>c. currentCommand (f x) = Some c \<longrightarrow> currentCommand x = Some c \<or> Q c)"
  shows "frame Q m0 (update_state d f m)"
proof -
  have "places ((fst m)[d := f (fst m ! d)]) = places (fst m)"
  proof (cases "d < length (fst m)")
    case True
    then show ?thesis using assms(2) by (simp add: places_def map_update list_update_same_conv)
  qed (simp add: list_update_beyond)
  moreover have "held Q (update_state d f m)" if h: "held Q m"
    unfolding held_def
  proof (intro ballI allI impI)
    fix x c assume x: "x \<in> set (fst (update_state d f m))" and c: "currentCommand x = Some c"
    show "Q c"
    proof (cases "d < length (fst m)")
      case True
      then have "x \<in> set (fst m) \<or> x = f (fst m ! d)"
        using x set_update_subset_insert [of "fst m" d "f (fst m ! d)"] by (auto simp: update_state_def)
      then show ?thesis using h c True assms(2) [of "fst m ! d"] unfolding held_def by (metis nth_mem)
    next
      case False
      then show ?thesis using x h c by (simp add: update_state_def held_def list_update_beyond)
    qed
  qed
  ultimately show ?thesis using assms(1) by (simp add: frame_def update_state_def)
qed

lemma frame_setDesired [frame_intros]: "frame Q m0 m \<Longrightarrow> frame Q m0 (setDesiredStateEnum d s m)"
  by (simp add: setDesiredStateEnum_def frame_update_state)

lemma frame_clearCommand [frame_intros]: "frame Q m0 m \<Longrightarrow> frame Q m0 (clearCommand d m)"
  by (simp add: clearCommand_def frame_update_state)

lemma frame_setCurrentCommand [frame_intros]:
  "frame Q m0 m \<Longrightarrow> Q c \<Longrightarrow> frame Q m0 (setCurrentCommand d c m)"
  by (simp add: setCurrentCommand_def frame_update_state)

lemma frame_vehicle:
  assumes "frame Q m0 m" "\<And>w. vehicle_ok (places (fst m0)) w \<Longrightarrow> w = snd m \<Longrightarrow> vehicle_ok (places (fst m0)) (f w)"
  shows "frame Q m0 (update_vehicle f m)"
  using assms by (auto simp: frame_def update_vehicle_def held_def)

lemma may_finish_stands:
  assumes "frame Q m0 m" "stands k d m0" "withdraws k"
    "l \<in> {TakeoffClimbing_Finished, LandingDescent_Finished} \<Longrightarrow> outer_of k \<noteq> None"
  shows "may_finish (places (fst m0)) (this (state_at d m)) l"
  using assms places_in [OF assms(2)] frame_stands [OF assms(1,2)]
  by (auto simp: may_finish_def state_at_def)

lemma start_controller_ok:
  assumes "vehicle_ok ps w" "may_finish ps h l"
  shows "vehicle_ok ps (start_controller k h l name r w)"
  using assms new_controller_ok [of ps w k]
  by (auto simp: start_controller_def Let_def split: prod.splits intro!: Insert_ok Send_ok setLambda_ok AddLambda_ok)

lemma frame_start_for [frame_intros]:
  assumes "frame Q m0 m" "stands k d m0" "withdraws k"
    "l \<in> {TakeoffClimbing_Finished, LandingDescent_Finished} \<Longrightarrow> outer_of k \<noteq> None"
  shows "frame Q m0 (start_for d c l name r m)"
  unfolding start_for_def
  using may_finish_stands [OF assms] by (auto intro!: frame_vehicle [OF assms(1)] start_controller_ok)

lemma set_AddNotifier: "set (AddNotifier h n fs) \<subseteq> insert (h, n) (set fs)"
proof -
  have "set (um_put h n fs) \<subseteq> insert (h, n) (set fs)" by (induction fs) auto
  then show ?thesis by (auto simp: AddNotifier_def um_insert_def split: if_splits option.splits)
qed

lemma frame_notify_global [frame_intros]:
  assumes "frame Q m0 m" "stands k d m0" "follows_position k"
  shows "frame Q m0 (notify_global d n m)"
proof -
  have k: "(this (state_at d m), k) \<in> set (places (fst m0))"
    using frame_stands [OF assms(1,2)] places_in [OF assms(2)] by (simp add: state_at_def)
  have "vehicle_ok ps (w\<lparr>globalNotifiers := AddNotifier h n (globalNotifiers w)\<rparr>)"
    if "vehicle_ok ps w" "(h, k) \<in> set ps" for w ps h
  proof -
    let ?w = "w\<lparr>globalNotifiers := AddNotifier h n (globalNotifiers w)\<rparr>"
    have "notifiers_ok ps ?w"
      using that assms(3) set_AddNotifier [of h n "globalNotifiers w"]
      by (fastforce simp: vehicle_ok_def notifiers_ok_def)
    then show ?thesis using that controllers_ok_cong [of ps w ?w] by (simp add: vehicle_ok_def)
  qed
  then show ?thesis using k unfolding notify_global_def by (intro frame_vehicle [OF assms(1)]) auto
qed

lemma frame_vehicle_same:
  assumes "frame Q m0 m" "\<And>w. globalNotifiers (f w) = globalNotifiers w \<and> modeNotifiers (f w) = modeNotifiers w
    \<and> controllers (f w) = controllers w \<and> live (f w) = live w \<and> fresh (f w) = fresh w"
  shows "frame Q m0 (update_vehicle f m)"
  using assms by (intro frame_vehicle [OF assms(1)]) (blast intro: vehicle_ok_cong)

lemma frame_notify_local [frame_intros]: "frame Q m0 m \<Longrightarrow> frame Q m0 (notify_local d n m)"
  by (simp add: notify_local_def frame_vehicle_same)

lemma frame_Shutdown [frame_intros]: "frame Q m0 m \<Longrightarrow> frame Q m0 (update_vehicle (Shutdown i) m)"
  by (simp add: Shutdown_def frame_vehicle_same)

lemma frame_Broadcast [frame_intros]: "frame Q m0 m \<Longrightarrow> frame Q m0 (update_vehicle (Broadcast r) m)"
  by (simp add: Broadcast_def frame_vehicle_same)

lemma frame_Send [frame_intros]: "frame Q m0 m \<Longrightarrow> frame Q m0 (update_vehicle (Send i r) m)"
  by (auto intro: frame_vehicle Send_ok)

lemma frame_pair [frame_intros]: "frame Q m0 m \<Longrightarrow> frame Q m0 (fst (m, r))"
  by simp

section \<open>The states within their frames\<close>

lemma frame_Remove_delete:
  "frame Q m0 m \<Longrightarrow> collection_Remove n (snd m) = (p, w) \<Longrightarrow> frame Q m0 (fst m, delete_controller p w)"
  using Remove_delete_ok [of "places (fst m0)" "snd m" n p w] by (auto simp: frame_def held_def)

lemma frame_run_ShutdownLambda: "frame Q m0 m \<Longrightarrow> frame Q m0 (fst (run_ShutdownLambda l m))"
  by (auto simp: run_ShutdownLambda_def Let_def frame_Remove_delete
      split: ShutdownLambda.split prod.splits option.splits intro!: frame_update_state)

lemma frame_Shutdown_thread [frame_intros]: "frame Q m0 m \<Longrightarrow> frame Q m0 (fst (Shutdown_thread i m))"
proof -
  assume m: "frame Q m0 m"
  have m1: "frame Q m0 (update_vehicle (\<lambda>w. w\<lparr>shutdowns := remove1 i (shutdowns w)\<rparr>) m)" (is "frame _ _ ?m1")
    using m by (rule frame_vehicle_same) simp
  have "vehicle_ok ps (modify_controller i (\<lambda>c. c\<lparr>m_MessageBehaviors := False\<rparr>)
      (w\<lparr>transmissions := removeAll i (transmissions w)\<rparr>))" if "vehicle_ok ps w" for ps w
    by (rule modify_controller_ok) (auto simp: hosts_ok_def intro: vehicle_ok_cong [OF that])
  then have "frame Q m0 (update_vehicle (\<lambda>w. modify_controller i (\<lambda>c. c\<lparr>m_MessageBehaviors := False\<rparr>)
      (w\<lparr>transmissions := removeAll i (transmissions w)\<rparr>)) ?m1)"
    by (intro frame_vehicle [OF m1]) auto
  then show ?thesis using m1
    by (auto simp: Shutdown_thread_def Let_def frame_run_ShutdownLambda split: option.splits)
qed

lemma frame_await_old_controller [frame_intros]:
  assumes "frame Q m0 m"
  shows "frame Q m0 (fst (await_old_controller d old m))"
  using assms
  by (auto simp: await_old_controller_def Let_def
      intro!: frame_intros frame_update_state)

lemma frame_prepareModeController [frame_intros]:
  assumes "frame Q m0 m"
  shows "frame Q m0 (fst (prepareModeController d m))"
proof -
  have new: "frame Q m0 (fst m, collection_Insert name i (setLambda_Shutdown i l w))"
    if "new_controller k (snd m) = (i, w)" "frame Q m0 m" for name i l k m w
    using that new_controller_ok [of "places (fst m0)" "snd m" k i w]
    by (auto simp: frame_def held_def intro!: Insert_ok setLambda_ok)
  show ?thesis
    unfolding prepareModeController_def
  proof (rule frame_obind)
    show "frame Q m0 (fst (case collection_At ''modeController'' (snd m) of None \<Rightarrow> (m, Inr ())
        | Some old \<Rightarrow> await_old_controller d old m))"
      using assms by (auto split: option.splits intro!: frame_intros)
  qed (auto simp: Let_def split: prod.splits intro: new)
qed

lemma frame_add_and_send:
  assumes "frame Q m0 m" "stands k d m0" "withdraws k"
    "l \<in> {TakeoffClimbing_Finished, LandingDescent_Finished} \<Longrightarrow> outer_of k \<noteq> None"
  shows "frame Q m0 (update_vehicle (\<lambda>w. Send i r (AddLambda_Finished i (this (state_at d m)) l w)) m)"
    and "frame Q m0 (update_vehicle (AddLambda_Finished i (this (state_at d m)) l) m)"
  using may_finish_stands [OF assms]
  by (auto intro!: frame_vehicle [OF assms(1)] Send_ok AddLambda_ok)

text \<open>The condition on a state that its commands need.\<close>

definition handler :: "(Command \<Rightarrow> bool) \<Rightarrow> MACEHSMState \<Rightarrow> nat \<Rightarrow> Command \<Rightarrow> copter \<Rightarrow> copter \<Rightarrow> bool" where
  "handler Q k d c m0 m \<longleftrightarrow> frame Q m0 m \<and> stands k d m0 \<and> withdraws k \<and> Q c"

lemma frame_root_handleCommand:
  assumes "handler Q k d c m0 m"
  shows "frame Q m0 (fst (AbstractRootState_handleCommand d c m))"
  using assms unfolding handler_def
  by (auto simp: AbstractRootState_handleCommand_def
      split: Command.splits intro!: frame_intros frame_add_and_send(1))

lemma frame_GroundedIdle_handleCommand: "frame Q m0 m \<Longrightarrow> Q c \<Longrightarrow> frame Q m0 (fst (GroundedIdle_handleCommand d c m))"
  by (auto simp: GroundedIdle_handleCommand_def Let_def split: Command.splits intro!: frame_intros)

lemma frame_GroundedArming_handleCommand: "frame Q m0 m \<Longrightarrow> Q c \<Longrightarrow> frame Q m0 (fst (GroundedArming_handleCommand d c m))"
  by (auto simp: GroundedArming_handleCommand_def Let_def split: Command.splits intro!: frame_intros)

lemma frame_GroundedArmed_handleCommand: "frame Q m0 m \<Longrightarrow> Q c \<Longrightarrow> frame Q m0 (fst (GroundedArmed_handleCommand d c m))"
  by (auto simp: GroundedArmed_handleCommand_def Let_def split: Command.splits intro!: frame_intros)

lemma frame_GroundedDisarming_handleCommand: "frame Q m0 m \<Longrightarrow> Q c \<Longrightarrow> frame Q m0 (fst (GroundedDisarming_handleCommand d c m))"
  by (auto simp: GroundedDisarming_handleCommand_def Let_def split: Command.splits intro!: frame_intros)

lemma frame_Takeoff_handleCommand:
  "handler Q STATE_TAKEOFF d c m0 m \<Longrightarrow> frame Q m0 (fst (Takeoff_handleCommand d c m))"
  using frame_root_handleCommand [of Q STATE_TAKEOFF d c m0 "clearCommand d m"]
  unfolding Takeoff_handleCommand_def Let_def
  by (auto simp: handler_def split: Command.splits option.splits intro!: frame_intros frame_add_and_send(2))

lemma frame_TakeoffClimbing_handleCommand:
  "handler Q STATE_TAKEOFF_CLIMBING d c m0 m \<Longrightarrow> frame Q m0 (fst (TakeoffClimbing_handleCommand d c m))"
  unfolding TakeoffClimbing_handleCommand_def Let_def handler_def
  by (auto simp: follows_position_def split: Command.splits option.splits intro!: frame_intros)

lemma frame_TakeoffTransitioning_handleCommand:
  "handler Q STATE_TAKEOFF_TRANSITIONING d c m0 m
    \<Longrightarrow> frame Q m0 (fst (TakeoffTransitioning_handleCommand d c m))"
  unfolding TakeoffTransitioning_handleCommand_def Let_def handler_def
  by (auto simp: follows_position_def split: Command.splits option.splits intro!: frame_intros)

lemma frame_Landing_handleCommand:
  "handler Q STATE_LANDING d c m0 m \<Longrightarrow> frame Q m0 (fst (Landing_handleCommand d c m))"
  using frame_root_handleCommand [of Q STATE_LANDING d c m0 "clearCommand d m"]
  unfolding Landing_handleCommand_def Let_def
  by (auto simp: handler_def split: Command.splits option.splits intro!: frame_intros)

lemma frame_LandingTransitioning_handleCommand:
  "handler Q STATE_LANDING_TRANSITIONING d c m0 m
    \<Longrightarrow> frame Q m0 (fst (LandingTransitioning_handleCommand d c m))"
  unfolding LandingTransitioning_handleCommand_def Let_def handler_def
  by (auto simp: follows_position_def split: Command.splits option.splits intro!: frame_intros)

lemma frame_LandingDescent_handleCommand:
  "handler Q STATE_LANDING_DESCENDING d c m0 m
    \<Longrightarrow> frame Q m0 (fst (LandingDescent_handleCommand d c m))"
  unfolding LandingDescent_handleCommand_def Let_def handler_def
  by (auto simp: follows_position_def split: Command.splits option.splits CoordinateSystemTypes.splits
      intro!: frame_intros)

lemma frame_Grounded_handleCommand:
  assumes "handler Q STATE_GROUNDED d c m0 m" "\<And>m. frame Q m0 m \<Longrightarrow> frame Q m0 (fst (inner m))"
  shows "frame Q m0 (fst (Grounded_handleCommand inner d c m))"
  using assms frame_root_handleCommand [OF assms(1)] unfolding Grounded_handleCommand_def
  by (auto simp: handler_def split: Command.splits)

lemma frame_Flight_handleCommand:
  assumes "handler Q STATE_FLIGHT d c m0 m" "\<And>m. frame Q m0 m \<Longrightarrow> frame Q m0 (fst (inner m))"
  shows "frame Q m0 (fst (Flight_handleCommand inner d c m))"
  using assms frame_root_handleCommand [OF assms(1)] unfolding Flight_handleCommand_def Flight_change_mode_def
  by (auto simp: handler_def split: Command.splits MissionCommandAction.splits intro!: frame_intros)

lemma frame_Guided_target:
  assumes "frame Q m0 m" "\<And>m. frame Q m0 m \<Longrightarrow> frame Q m0 (fst (inner m))"
  shows "frame Q m0 (fst (Guided_target inner d k m))"
  using assms by (auto simp: Guided_target_def intro!: frame_intros)

lemma frame_Guided_handleCommand:
  assumes "frame Q m0 m" "Q c" "\<And>m. frame Q m0 m \<Longrightarrow> frame Q m0 (fst (inner m))"
  shows "frame Q m0 (fst (Guided_handleCommand inner d c m))"
  unfolding Guided_handleCommand_def
  using assms(3) frame_setCurrentCommand [OF assms(1,2), of d] assms(1,2)
  by (auto simp: Let_def split: Command.splits option.splits DynamicTarget.splits
      intro!: frame_setDesired frame_Guided_target)

lemma frame_processSpatialWaypoint:
  assumes "frame Q m0 m" "stands STATE_FLIGHT_GUIDED_SPATIALITEM d m0"
  shows "frame Q m0 (fst (processSpatialWaypoint d p m))"
  unfolding processSpatialWaypoint_def Let_def using assms
  by (auto simp: follows_position_def split: option.splits intro!: frame_intros frame_update_state)

lemma frame_SpatialItem_handleCommand:
  assumes "frame Q m0 m" "Q c" "stands STATE_FLIGHT_GUIDED_SPATIALITEM d m0"
  shows "frame Q m0 (fst (SpatialItem_handleCommand d c m))"
  unfolding SpatialItem_handleCommand_def Let_def using assms
  by (auto split: Command.splits option.splits intro!: frame_intros frame_processSpatialWaypoint)

lemma frame_constructAndSendTarget [frame_intros]:
  "frame Q m0 m \<Longrightarrow> frame Q m0 (fst (constructAndSendTarget n t m))"
  by (auto simp: constructAndSendTarget_def split: option.splits intro!: frame_intros)

lemma frame_targets [frame_intros]:
  "frame Q m0 m \<Longrightarrow> frame Q m0 (clear_target d m)"
  "frame Q m0 m \<Longrightarrow> frame Q m0 (register_target d t m)"
  by (simp_all add: clear_target_def register_target_def frame_update_state)

lemma frame_target_handleCommand:
  assumes "frame Q m0 m" "Q c"
  shows "frame Q m0 (fst (AttTarget_handleCommand d c m))"
    "frame Q m0 (fst (KinematicTarget_handleCommand n d c m))"
  unfolding AttTarget_handleCommand_def KinematicTarget_handleCommand_def Let_def using assms
  by (auto split: Command.splits option.splits DynamicTarget.splits intro!: frame_intros)

lemma frame_handleCommand_at:
  "frame Q m0 m \<Longrightarrow> Q c \<Longrightarrow> n + d \<le> length (fst m0) \<Longrightarrow> frame Q m0 (fst (handleCommand_at n d c m))"
proof (induction n arbitrary: d m)
  case (Suc n)
  let ?k = "currentState (fst m ! d)"
  have inner: "frame Q m0 m' \<Longrightarrow> frame Q m0 (fst (handleCommand_at n (Suc d) c m'))" for m'
    using Suc by simp
  have d: "stands ?k d m0"
    using Suc.prems frame_length [OF Suc.prems(1)] frame_stands [OF Suc.prems(1), of "currentState (fst m0 ! d)" d]
    by (auto simp: stands_def)
  then have h: "withdraws ?k \<Longrightarrow> handler Q ?k d c m0 m"
    using Suc.prems by (simp add: handler_def)
  show ?case
    using Suc.prems d h inner
    by (cases ?k) (auto simp: withdraws_def CarTarget_handleCommand_def GeoTarget_handleCommand_def
        intro: frame_GroundedIdle_handleCommand frame_GroundedArming_handleCommand
          frame_GroundedArmed_handleCommand frame_GroundedDisarming_handleCommand
          frame_Takeoff_handleCommand frame_TakeoffClimbing_handleCommand
          frame_TakeoffTransitioning_handleCommand frame_Landing_handleCommand
          frame_LandingTransitioning_handleCommand frame_LandingDescent_handleCommand
          frame_Grounded_handleCommand frame_Flight_handleCommand frame_Guided_handleCommand
          frame_SpatialItem_handleCommand frame_target_handleCommand)
qed simp

lemma frame_copter_handleCommand:
  "frame Q m0 m \<Longrightarrow> Q c \<Longrightarrow> d \<le> length (fst m0) \<Longrightarrow> frame Q m0 (fst (copter_handleCommand d c m))"
  using frame_handleCommand_at [of Q m0 m c "length (fst m) - d" d] frame_length [of Q m0 m]
  by (simp add: copter_handleCommand_def)

section \<open>Entering and updating\<close>

lemma frame_Grounded_OnEnter: "frame Q m0 m \<Longrightarrow> frame Q m0 (Grounded_OnEnter d m)"
  by (simp add: Grounded_OnEnter_def frame_intros)

lemma frame_GroundedDisarmed_OnEnter:
  "frame Q m0 m \<Longrightarrow> stands STATE_GROUNDED_DISARMED d m0 \<Longrightarrow> frame Q m0 (GroundedDisarmed_OnEnter args d m)"
  by (auto simp: GroundedDisarmed_OnEnter_def withdraws_def intro!: frame_intros)

text \<open>The command with which a state is entered satisfies the condition.\<close>

definition args_hold :: "(Command \<Rightarrow> bool) \<Rightarrow> OnEnterArgs \<Rightarrow> bool" where
  "args_hold Q args \<longleftrightarrow> (\<forall>c. args = Command_Arg (Some c) \<longrightarrow> Q c)"

lemma args_hold_simps [simp]:
  "args_hold Q No_Args" "args_hold Q (Command_Arg None)" "args_hold Q (Command_Arg (Some c)) = Q c"
  by (simp_all add: args_hold_def)

definition enters :: "(Command \<Rightarrow> bool) \<Rightarrow> MACEHSMState \<Rightarrow> nat \<Rightarrow> OnEnterArgs \<Rightarrow> copter \<Rightarrow> copter \<Rightarrow> bool" where
  "enters Q k d args m0 m \<longleftrightarrow> frame Q m0 m \<and> stands k d m0 \<and> args_hold Q args"

lemma frame_GroundedArming_OnEnter:
  "enters Q STATE_GROUNDED_ARMING d args m0 m \<Longrightarrow> frame Q m0 (GroundedArming_OnEnter args d m)"
  by (auto simp: GroundedArming_OnEnter_def enters_def withdraws_def Let_def
      split: OnEnterArgs.split option.split intro!: frame_intros)

lemma frame_GroundedArmed_OnEnter:
  "enters Q STATE_GROUNDED_ARMED d args m0 m \<Longrightarrow> frame Q m0 (fst (GroundedArmed_OnEnter args d m))"
  by (auto simp: GroundedArmed_OnEnter_def enters_def
      split: OnEnterArgs.split option.split intro!: frame_intros frame_GroundedArmed_handleCommand)

lemma frame_GroundedDisarming_OnEnter:
  assumes "enters Q STATE_GROUNDED_DISARMING d args m0 m"
  shows "frame Q m0 (fst (GroundedDisarming_OnEnter args d m))"
proof -
  have "frame Q m0 (start_for d CommandARM GroundedDisarming_Finished ''disarmController'' (Request_Arm False) m)"
    using assms by (auto simp: enters_def withdraws_def intro!: frame_intros)
  then show ?thesis using assms
    by (auto simp: GroundedDisarming_OnEnter_def enters_def Let_def
        split: OnEnterArgs.split option.split intro!: frame_obind frame_GroundedDisarming_handleCommand)
qed

lemma frame_Takeoff_OnEnter:
  assumes "enters Q STATE_TAKEOFF d args m0 m"
  shows "frame Q m0 (fst (Takeoff_OnEnter args d m))"
proof -
  have "frame Q m0 (start_for d ControllerSystemMode Takeoff_Finished ''modeController'' (Request_Mode ''GUIDED'') m)"
    using assms by (auto simp: enters_def withdraws_def intro!: frame_intros)
  then show ?thesis using assms
    by (auto simp: Takeoff_OnEnter_def enters_def Let_def handler_def withdraws_def
        split: OnEnterArgs.split option.split intro!: frame_obind frame_Takeoff_handleCommand)
qed

lemma frame_enter_with_command:
  assumes "enters Q k d args m0 m" "\<And>c m. frame Q m0 m \<Longrightarrow> Q c \<Longrightarrow> frame Q m0 (fst (handle d c m))"
  shows "frame Q m0 (fst (enter_with_command handle args d m))"
proof (cases "\<exists>c. args = Command_Arg (Some c)")
  case True
  then obtain c where c: "args = Command_Arg (Some c)" "Q c" using assms(1) by (auto simp: enters_def)
  have "frame Q m0 (fst (handle d c m))" using assms c by (simp add: enters_def)
  then show ?thesis using c by (simp add: enter_with_command_def frame_obind)
qed (use assms in \<open>auto simp: enter_with_command_def enters_def split: OnEnterArgs.split option.split\<close>)

lemma frame_Landing_OnEnter:
  assumes "enters Q STATE_LANDING d args m0 m"
  shows "frame Q m0 (fst (Landing_OnEnter args d m))"
  using assms by (auto simp: Landing_OnEnter_def enters_def handler_def withdraws_def
      split: OnEnterArgs.splits option.splits Command.splits intro!: frame_intros frame_Landing_handleCommand)

lemma frame_Flight_enter_mode:
  assumes "frame Q m0 m" "stands STATE_FLIGHT d m0"
  shows "frame Q m0 (Flight_enter_mode d m)"
proof -
  let ?ps = "places (fst m0)" and ?h = "this (state_at d m)"
  have k: "(?h, STATE_FLIGHT) \<in> set ?ps"
    using frame_stands [OF assms] places_in [OF assms(2)] by (simp add: state_at_def)
  have "frame Q m0 (update_vehicle (\<lambda>w. w\<lparr>modeNotifiers := List.insert ?h (modeNotifiers w)\<rparr>) m)"
  proof (rule frame_vehicle [OF assms(1)])
    fix w assume w: "vehicle_ok ?ps w"
    let ?w = "w\<lparr>modeNotifiers := List.insert ?h (modeNotifiers w)\<rparr>"
    have "notifiers_ok ?ps ?w" using w k by (auto simp: vehicle_ok_def notifiers_ok_def)
    then show "vehicle_ok ?ps ?w"
      using w controllers_ok_cong [of ?ps w ?w] by (simp add: vehicle_ok_def)
  qed
  then show ?thesis
    by (simp add: Flight_enter_mode_def checkTransitionFromMode_def Let_def frame_setDesired)
qed

lemma frame_Flight_OnEnter:
  assumes "enters Q STATE_FLIGHT d args m0 m"
    "\<And>c m. frame Q m0 m \<Longrightarrow> Q c \<Longrightarrow> frame Q m0 (fst (handle c m))"
  shows "frame Q m0 (fst (Flight_OnEnter handle args d m))"
proof (cases "\<exists>c. args = Command_Arg (Some c)")
  case True
  then obtain c where c: "args = Command_Arg (Some c)" "Q c" using assms(1) by (auto simp: enters_def)
  have "frame Q m0 (fst (handle c (Flight_enter_mode d m)))"
    using assms c frame_Flight_enter_mode [of Q m0 m d] by (simp add: enters_def)
  then show ?thesis using c by (simp add: Flight_OnEnter_def frame_obind)
qed (use assms frame_Flight_enter_mode [of Q m0 m d] in
  \<open>auto simp: Flight_OnEnter_def enters_def split: OnEnterArgs.split option.split\<close>)

text \<open>A new controller under a name, with a lambda of the state or none.\<close>

lemma frame_new_controller:
  assumes "frame Q m0 m" "new_controller k (snd m) = (i, w)"
  shows "frame Q m0 (fst m, collection_Insert name i w)"
    and "may_finish (places (fst m0)) h l
      \<Longrightarrow> frame Q m0 (fst m, collection_Insert name i (AddLambda_Finished i h l w))"
  using assms new_controller_ok [of "places (fst m0)" "snd m" k i w]
  by (auto simp: frame_def held_def intro!: Insert_ok AddLambda_ok)

lemma frame_SpatialItem_OnEnter:
  assumes "enters Q STATE_FLIGHT_GUIDED_SPATIALITEM d args m0 m"
  shows "frame Q m0 (fst (SpatialItem_OnEnter args d m))"
proof -
  obtain i w where new: "new_controller ControllerGuidedMissionItem (snd m) = (i, w)" by fastforce
  have m: "frame Q m0 m" "stands STATE_FLIGHT_GUIDED_SPATIALITEM d m0" using assms by (auto simp: enters_def)
  have "frame Q m0 (fst m, collection_Insert ''goToController'' i
      (AddLambda_Finished i (this (state_at d m)) GoTo_Finished w))"
    using m may_finish_stands [OF m, of GoTo_Finished]
    by (intro frame_new_controller(2) [OF m(1) new]) (simp add: withdraws_def)
  then show ?thesis using assms m new
    by (auto simp: SpatialItem_OnEnter_def enters_def Let_def
        split: OnEnterArgs.split option.split Command.split
        intro!: frame_obind frame_SpatialItem_handleCommand)
qed

lemma frame_enter_target:
  assumes "enters Q k d args m0 m" "\<And>c m. frame Q m0 m \<Longrightarrow> Q c \<Longrightarrow> frame Q m0 (fst (handle d c m))"
  shows "frame Q m0 (fst (enter_target name handle args d m))"
proof -
  obtain i w where new: "new_controller ControllerGuidedTargetItem (snd m) = (i, w)" by fastforce
  have m: "frame Q m0 m" using assms(1) by (simp add: enters_def)
  have handled: "frame Q m0 (fst (handle d c (fst m, collection_Insert name i w)))" if "Q c" for c
    using assms(2) [OF frame_new_controller(1) [OF m new]] that by simp
  show ?thesis using assms(1) m new handled
    by (auto simp: enter_target_def enters_def Let_def
        split: OnEnterArgs.split option.split Command.split intro!: frame_obind)
qed

lemma frame_copter_OnEnter:
  assumes "frame Q m0 m" "d < length (fst m0)" "args_hold Q args"
  shows "frame Q m0 (fst (copter_OnEnter args d m))"
proof -
  let ?k = "currentState (fst m ! d)"
  have d: "stands ?k d m0"
    using frame_stands [OF assms(1), of "currentState (fst m0 ! d)" d] assms(2) by (auto simp: stands_def)
  then have e: "enters Q ?k d args m0 m" using assms by (simp add: enters_def)
  have h: "handler Q ?k d c m0 m'" if "frame Q m0 m'" "Q c" "withdraws ?k" for c m'
    using that d by (simp add: handler_def)
  show ?thesis
    using assms d e h
    by (cases ?k) (auto simp: copter_OnEnter_def withdraws_def CarTarget_handleCommand_def GeoTarget_handleCommand_def
        intro!: frame_Grounded_OnEnter frame_GroundedDisarmed_OnEnter frame_GroundedArming_OnEnter
          frame_GroundedArmed_OnEnter frame_GroundedDisarming_OnEnter frame_Takeoff_OnEnter
          frame_enter_with_command [OF e] frame_TakeoffClimbing_handleCommand
          frame_TakeoffTransitioning_handleCommand frame_Landing_OnEnter
          frame_LandingTransitioning_handleCommand frame_LandingDescent_handleCommand
          frame_Flight_OnEnter frame_copter_handleCommand frame_SpatialItem_OnEnter
          frame_enter_target [OF e] frame_target_handleCommand frame_setDesired)
qed

lemmas update_defs =
  Unknown_Update_def GroundedIdle_Update_def GroundedArming_Update_def GroundedArmed_Update_def
  GroundedDisarming_Update_def Takeoff_Update_def TakeoffClimbing_Update_def Landing_Update_def
  LandingDescent_Update_def Flight_Update_def

lemma frame_copter_Update: "frame Q m0 m \<Longrightarrow> frame Q m0 (fst (copter_Update d m))"
  by (cases "currentState (fst m ! d)")
    (auto simp: copter_Update_def update_defs Let_def intro!: frame_setDesired)

section \<open>Finished controllers and notifiers\<close>

lemma frame_on_host:
  assumes "frame Q m0 m" "\<And>d. frame Q m0 (f d m)"
  shows "frame Q m0 (fst (on_host h f m))"
  using assms by (auto simp: on_host_def split: option.split)

lemma frame_on_outer: "frame Q m0 m \<Longrightarrow> frame Q m0 (fst (on_outer h s m))"
  by (auto simp: on_outer_def split: option.split nat.split intro!: frame_setDesired)

lemma frame_run_FinishLambda:
  assumes "frame Q m0 m"
  shows "frame Q m0 (fst (run_FinishLambda l h i completed code m))"
  using assms
  by (auto simp: run_FinishLambda_def finish_defs Let_def split: FinishLambda.split
      intro!: frame_obind frame_on_host frame_on_outer frame_setDesired frame_Shutdown frame_update_state)

lemma frame_run_lambdas: "frame Q m0 m \<Longrightarrow> frame Q m0 (fst (run_lambdas ls i completed code m))"
  by (induction ls i completed code m rule: run_lambdas.induct)
    (auto intro!: frame_obind frame_run_FinishLambda)

lemma frame_onFinished: "frame Q m0 m \<Longrightarrow> frame Q m0 (fst (onFinished i completed code m))"
  by (auto simp: onFinished_def split: option.split intro: frame_run_lambdas)

lemma frame_RemoveTransmission: "frame Q m0 m \<Longrightarrow> frame Q m0 (update_vehicle (RemoveTransmission_of i) m)"
proof (rule frame_vehicle)
  fix w assume w: "vehicle_ok (places (fst m0)) w"
  have "vehicle_ok (places (fst m0)) (modify_controller i (\<lambda>c. c\<lparr>isControllerActive := False\<rparr>) w)"
    using w by (rule modify_controller_ok) (simp add: hosts_ok_def)
  then show "vehicle_ok (places (fst m0)) (RemoveTransmission_of i w)"
    unfolding RemoveTransmission_of_def Let_def by (rule vehicle_ok_cong) simp_all
qed

lemma frame_ReceiveMessage: "frame Q m0 m \<Longrightarrow> frame Q m0 (fst (ReceiveMessage ack code i m))"
  by (auto simp: ReceiveMessage_def split: option.split
      intro!: frame_obind frame_onFinished frame_RemoveTransmission)

lemma frame_receive_each: "frame Q m0 m \<Longrightarrow> frame Q m0 (fst (receive_each ack code is m))"
  by (induction ack code "is" m rule: receive_each.induct) (auto intro!: frame_obind frame_ReceiveMessage)

lemma frame_Receive: "frame Q m0 m \<Longrightarrow> frame Q m0 (fst (Receive ack code m))"
  by (simp add: Receive_def frame_receive_each)

lemma frame_transmission_fails: "frame Q m0 m \<Longrightarrow> frame Q m0 (fst (transmission_fails i m))"
  by (auto simp: transmission_fails_def intro!: frame_obind frame_onFinished frame_vehicle_same)

lemma frame_retransmit: "frame Q m0 m \<Longrightarrow> frame Q m0 (fst (retransmit i m))"
  by (simp add: retransmit_def)

lemma frame_when_achieved:
  assumes "frame Q m0 m" "\<And>m. frame Q m0 m \<Longrightarrow> frame Q m0 (f d m)"
  shows "frame Q m0 (when_achieved x f d m)"
  using assms by (simp add: when_achieved_def progress_to_def Let_def frame_update_state)

lemma frame_run_Notifier: "frame Q m0 m \<Longrightarrow> frame Q m0 (run_Notifier r n d m)"
  by (auto simp: run_Notifier_def notified_defs progress_to_def split: Notifier.split
      intro!: frame_when_achieved frame_setDesired frame_clearCommand frame_update_state)

lemma frame_run_notifiers: "frame Q m0 m \<Longrightarrow> frame Q m0 (fst (run_notifiers r ns m))"
  by (induction r ns m rule: run_notifiers.induct) (auto intro!: frame_obind frame_on_host frame_run_Notifier)

lemma frame_checkTransitionFromMode: "frame Q m0 m \<Longrightarrow> frame Q m0 (checkTransitionFromMode mode d m)"
  by (simp add: checkTransitionFromMode_def frame_setDesired)

lemma frame_mode_notifiers: "frame Q m0 m \<Longrightarrow> frame Q m0 (fst (mode_notifiers hs m))"
  by (induction hs m rule: mode_notifiers.induct)
    (auto intro!: frame_obind frame_on_host frame_checkTransitionFromMode)

lemma frame_set_vehicleMode: "frame Q m0 m \<Longrightarrow> frame Q m0 (fst (set_vehicleMode mode m))"
  by (auto simp: set_vehicleMode_def Let_def intro!: frame_mode_notifiers frame_vehicle_same)

section \<open>Pushing and popping\<close>

lemma hosts_ok_mono: "hosts_ok ps c \<Longrightarrow> set ps \<subseteq> set ps' \<Longrightarrow> hosts_ok ps' c"
  by (fastforce simp: hosts_ok_def may_finish_def)

lemma vehicle_ok_push:
  assumes "vehicle_ok ps w" "AllocateState_copter k w = (x, w')"
  shows "vehicle_ok (ps @ [(this x, currentState x)]) w' \<and> currentState x = k \<and> currentCommand x = None"
proof -
  have w': "w' = w\<lparr>fresh := fresh w + 1\<rparr>" and x: "this x = fresh w" "currentState x = k" "currentCommand x = None"
    using assms(2) by (auto simp: AllocateState_copter_def)
  have "places_ok (ps @ [(fresh w, k)]) (fresh w + 1)"
    using assms(1) by (fastforce simp: vehicle_ok_def places_ok_def)
  moreover have "notifiers_ok (ps @ [(fresh w, k)]) w'"
    using assms(1) w' by (fastforce simp: vehicle_ok_def notifiers_ok_def)
  moreover have "controllers_ok (ps @ [(fresh w, k)]) w'"
    using assms(1) w' hosts_ok_mono [of ps _ "ps @ [(fresh w, k)]"]
    unfolding vehicle_ok_def controllers_ok_def by (fastforce intro: less_SucI)
  ultimately show ?thesis using w' x by (simp add: vehicle_ok_def)
qed

text \<open>Nothing the vehicle has registered calls the state at an address.\<close>

definition released :: "nat \<Rightarrow> Vehicle \<Rightarrow> bool" where
  "released h w \<longleftrightarrow> (\<forall>i \<in> snd ` set (controllers w). \<forall>c. map_of (live w) i = Some c
     \<longrightarrow> h \<notin> fst ` set (m_FinishLambda c))"

definition forgets :: "nat \<Rightarrow> Vehicle \<Rightarrow> bool" where
  "forgets h w \<longleftrightarrow> released h w \<and> h \<notin> fst ` set (globalNotifiers w) \<and> h \<notin> set (modeNotifiers w)"

lemma hosts_ok_snoc:
  assumes "hosts_ok (ps @ [(h, k)]) c" "h \<notin> fst ` set (m_FinishLambda c)"
  shows "hosts_ok ps c"
  unfolding hosts_ok_def
proof (intro ballI, clarify)
  fix a l assume a: "(a, l) \<in> set (m_FinishLambda c)"
  then have "may_finish (ps @ [(h, k)]) a l" using assms(1) by (auto simp: hosts_ok_def)
  moreover have "a \<noteq> h" using assms(2) a by force
  ultimately show "may_finish ps a l" by (auto simp: may_finish_def)
qed

lemma vehicle_ok_pop:
  assumes "vehicle_ok (ps @ [(h, k)]) w" "forgets h w"
  shows "vehicle_ok ps w"
proof -
  have "places_ok ps (fresh w)" using assms(1) by (auto simp: vehicle_ok_def places_ok_def)
  moreover have "notifiers_ok ps w"
    unfolding notifiers_ok_def
  proof (intro conjI ballI, clarify)
    fix a n assume a: "(a, n) \<in> set (globalNotifiers w)"
    then have "\<exists>k'. (a, k') \<in> set (ps @ [(h, k)]) \<and> follows_position k'"
      using assms(1) unfolding vehicle_ok_def notifiers_ok_def by blast
    moreover have "a \<noteq> h" using assms(2) a by (force simp: forgets_def)
    ultimately show "\<exists>k. (a, k) \<in> set ps \<and> follows_position k" by force
  next
    fix a assume "a \<in> set (modeNotifiers w)"
    then show "(a, STATE_FLIGHT) \<in> set ps" using assms by (auto simp: vehicle_ok_def notifiers_ok_def forgets_def)
  qed
  moreover have "hosts_ok ps c" if "i \<in> snd ` set (controllers w)" "map_of (live w) i = Some c" for i c
    using hosts_ok_snoc [OF registered_hosts [OF assms(1) that]] assms(2) that
    by (auto simp: forgets_def released_def)
  then have "controllers_ok ps w"
    using assms(1) unfolding vehicle_ok_def controllers_ok_def by blast
  ultimately show ?thesis by (simp add: vehicle_ok_def)
qed

lemma fold_modify_controllers:
  "distinct (map snd cs) \<Longrightarrow>
   map_of (live (fold (\<lambda>e. modify_controller (snd e) f) cs w)) j =
     (if j \<in> snd ` set cs then map_option f (map_of (live w) j) else map_of (live w) j)"
  by (induction cs arbitrary: w) auto

lemma fold_modify_same [simp]:
  "controllers (fold (\<lambda>e. modify_controller (snd e) f) cs w) = controllers w"
  "fresh (fold (\<lambda>e. modify_controller (snd e) f) cs w) = fresh w"
  "globalNotifiers (fold (\<lambda>e. modify_controller (snd e) f) cs w) = globalNotifiers w"
  "modeNotifiers (fold (\<lambda>e. modify_controller (snd e) f) cs w) = modeNotifiers w"
  by (induction cs arbitrary: w) auto

lemma ForAll_RemoveHost:
  assumes "vehicle_ok ps w"
  shows "vehicle_ok ps (ForAll (RemoveHost h) w)" "released h (ForAll (RemoveHost h) w)"
proof -
  have m: "map_of (live (ForAll (RemoveHost h) w)) j =
      (if j \<in> snd ` set (controllers w) then map_option (RemoveHost h) (map_of (live w) j) else map_of (live w) j)" for j
    using assms fold_modify_controllers [of "controllers w"]
    by (simp add: ForAll_def vehicle_ok_def controllers_ok_def)
  have same: "controllers (ForAll (RemoveHost h) w) = controllers w" "fresh (ForAll (RemoveHost h) w) = fresh w"
    "globalNotifiers (ForAll (RemoveHost h) w) = globalNotifiers w"
    "modeNotifiers (ForAll (RemoveHost h) w) = modeNotifiers w"
    by (simp_all add: ForAll_def)
  have h: "hosts_ok ps c \<Longrightarrow> hosts_ok ps (RemoveHost h c)" for c
    by (auto simp: hosts_ok_def RemoveHost_def set_um_erase)
  have ok: "controllers_ok ps w" using assms by (simp add: vehicle_ok_def)
  have "\<exists>c. map_of (live (ForAll (RemoveHost h) w)) i = Some c \<and> hosts_ok ps c"
    if "i \<in> snd ` set (controllers w)" for i
    using ok that h unfolding controllers_ok_def m by (metis option.simps(9))
  then have "controllers_ok ps (ForAll (RemoveHost h) w)"
    using ok by (simp add: controllers_ok_def m same)
  then show "vehicle_ok ps (ForAll (RemoveHost h) w)"
    using assms same notifiers_ok_cong [of ps w "ForAll (RemoveHost h) w"] by (simp add: vehicle_ok_def)
  show "released h (ForAll (RemoveHost h) w)"
    by (auto simp: released_def m same RemoveHost_def set_um_erase)
qed

end
