(* ===== verification/Copter_Safety.thy ===== *)
theory Copter_Safety
  imports Copter_Frames
begin

text \<open>
  What the module of a copter guarantees over all histories: the stack of its state machine is a path of
  the hierarchy of flight states, and what it has registered with controllers and with the notifiers of
  the global position and the mode belongs to states on the stack, so that acknowledgements, positions and
  heartbeats never reach a state that is gone. The locales of \<open>HSM\<close> are interpreted on the copter here.
\<close>

section \<open>Leaving a state\<close>

lemma frame_base_OnExit: "frame Q m0 m \<Longrightarrow> frame Q m0 (AbstractStateArdupilot_OnExit d m)"
  by (auto simp: AbstractStateArdupilot_OnExit_def intro!: frame_clearCommand frame_vehicle ForAll_RemoveHost(1))

lemma frame_withdraw_global: "frame Q m0 m \<Longrightarrow> frame Q m0 (remove_global_notifier d m)"
proof -
  assume m: "frame Q m0 m"
  have "vehicle_ok ps (w\<lparr>globalNotifiers := RemoveNotifier h (globalNotifiers w)\<rparr>)" if w: "vehicle_ok ps w" for ps w h
  proof -
    let ?w = "w\<lparr>globalNotifiers := RemoveNotifier h (globalNotifiers w)\<rparr>"
    have "notifiers_ok ps ?w" using w by (auto simp: vehicle_ok_def notifiers_ok_def RemoveNotifier_def set_um_erase)
    then show ?thesis using w controllers_ok_cong [of ps w ?w] by (simp add: vehicle_ok_def)
  qed
  then show ?thesis using m by (auto simp: remove_global_notifier_def intro!: frame_vehicle)
qed

lemma frame_withdraw_mode:
  "frame Q m0 m \<Longrightarrow> frame Q m0 (update_vehicle (\<lambda>w. w\<lparr>modeNotifiers := removeAll h (modeNotifiers w)\<rparr>) m)"
proof (rule frame_vehicle)
  fix w :: Vehicle and ps assume w: "vehicle_ok ps w"
  let ?w = "w\<lparr>modeNotifiers := removeAll h (modeNotifiers w)\<rparr>"
  have "notifiers_ok ps ?w" using w by (auto simp: vehicle_ok_def notifiers_ok_def)
  then show "vehicle_ok ps ?w" using w controllers_ok_cong [of ps w ?w] by (simp add: vehicle_ok_def)
qed

lemma frame_remove_local_notifier: "frame Q m0 m \<Longrightarrow> frame Q m0 (remove_local_notifier d m)"
  by (simp add: remove_local_notifier_def frame_vehicle_same)

lemma frame_remove_own_controller: "frame Q m0 m \<Longrightarrow> frame Q m0 (remove_own_controller name m)"
  by (auto simp: remove_own_controller_def intro: frame_Remove_delete split: prod.split)

lemma frame_copter_OnExit: "frame Q m0 m \<Longrightarrow> frame Q m0 (fst (copter_OnExit d m))"
  by (cases "currentState (fst m ! d)")
    (auto simp: copter_OnExit_def exit_defs Let_def
      intro!: frame_base_OnExit frame_withdraw_global frame_withdraw_mode frame_remove_local_notifier
        frame_remove_own_controller frame_targets)

lemma exit_simps [simp]:
  "snd (update_state d f m) = snd m"
  "snd (update_vehicle g m) = g (snd m)"
  "fst (update_vehicle g m) = fst m"
  "snd (clearCommand d m) = snd m"
  "snd (clear_target d m) = snd m"
  "length (fst (clear_target d m)) = length (fst m)"
  "length (fst (clearCommand d m)) = length (fst m)"
  "d < length (fst m) \<Longrightarrow> this (state_at d (clear_target d m)) = this (state_at d m)"
  "d < length (fst m) \<Longrightarrow> this (state_at d (clearCommand d m)) = this (state_at d m)"
  "state_at d (update_vehicle g m) = state_at d m"
  by (simp_all add: update_state_def update_vehicle_def clearCommand_def clear_target_def state_at_def)

lemma one_class_per_address:
  "vehicle_ok ps w \<Longrightarrow> (h, k) \<in> set ps \<Longrightarrow> (h, k') \<in> set ps \<Longrightarrow> k' = k"
  by (auto simp: vehicle_ok_def places_ok_def dest: eq_key_imp_eq_value)

lemma unnotified:
  assumes "vehicle_ok ps w" "(h, k) \<in> set ps"
  shows "\<not> follows_position k \<Longrightarrow> h \<notin> fst ` set (globalNotifiers w)"
    and "k \<noteq> STATE_FLIGHT \<Longrightarrow> h \<notin> set (modeNotifiers w)"
    and "\<not> withdraws k \<Longrightarrow> released h w"
proof -
  show "h \<notin> fst ` set (globalNotifiers w)" if k: "\<not> follows_position k"
  proof
    assume "h \<in> fst ` set (globalNotifiers w)"
    then obtain n where "(h, n) \<in> set (globalNotifiers w)" by auto
    then have "\<exists>k'. (h, k') \<in> set ps \<and> follows_position k'"
      using assms(1) unfolding vehicle_ok_def notifiers_ok_def by blast
    then show False using one_class_per_address [OF assms] k by auto
  qed
  show "h \<notin> set (modeNotifiers w)" if "k \<noteq> STATE_FLIGHT"
    using one_class_per_address [OF assms, of STATE_FLIGHT] that assms(1)
    by (auto simp: vehicle_ok_def notifiers_ok_def)
  show "released h w" if k: "\<not> withdraws k"
    unfolding released_def
  proof (intro ballI allI impI notI)
    fix i c assume i: "i \<in> snd ` set (controllers w)" "map_of (live w) i = Some c"
      and "h \<in> fst ` set (m_FinishLambda c)"
    then obtain l where "(h, l) \<in> set (m_FinishLambda c)" by auto
    then have "may_finish ps h l" using registered_hosts [OF assms(1) i] by (auto simp: hosts_ok_def)
    then show False using one_class_per_address [OF assms] k by (auto simp: may_finish_def)
  qed
qed

lemma released_cong: "released h w \<Longrightarrow> controllers w' = controllers w \<Longrightarrow> live w' = live w \<Longrightarrow> released h w'"
  by (simp add: released_def)

lemma released_remove_own: "released h (snd m) \<Longrightarrow> released h (snd (remove_own_controller name m))"
  by (fastforce simp: remove_own_controller_def collection_Remove_def delete_controller_def released_def
      set_um_erase AList.delete_conv split: option.splits if_splits)

lemma remove_own_same [simp]:
  "globalNotifiers (snd (remove_own_controller name m)) = globalNotifiers (snd m)"
  "modeNotifiers (snd (remove_own_controller name m)) = modeNotifiers (snd m)"
  by (auto simp: remove_own_controller_def collection_Remove_def delete_controller_def split: option.splits)

lemma exit_forgets:
  assumes "vehicle_ok (places (fst m)) (snd m)" "d < length (fst m)"
  shows "forgets (this (fst m ! d)) (snd (fst (copter_OnExit d m)))"
proof -
  let ?h = "this (fst m ! d)" and ?k = "currentState (fst m ! d)" and ?w = "snd m"
  have k: "(?h, ?k) \<in> set (places (fst m))" using assms(2) by (auto simp: places_def)
  note u = unnotified [OF assms(1) k]
  have h: "state_at d m = fst m ! d" by (simp add: state_at_def)
  have r: "released ?h (ForAll (RemoveHost ?h) ?w)" using ForAll_RemoveHost(2) [OF assms(1)] .
  have same: "globalNotifiers (ForAll (RemoveHost ?h) ?w) = globalNotifiers ?w"
    "modeNotifiers (ForAll (RemoveHost ?h) ?w) = modeNotifiers ?w"
    by (simp_all add: ForAll_def)
  have rem: "?h \<notin> fst ` set (RemoveNotifier ?h ns)" for ns :: "(nat, Notifier) umap"
    by (auto simp: RemoveNotifier_def set_um_erase map_of_eq_None_iff)
  show ?thesis
    using u r same assms(2) h rem
    by (cases ?k) (auto simp: copter_OnExit_def exit_defs Let_def AbstractStateArdupilot_OnExit_def
        remove_global_notifier_def remove_local_notifier_def forgets_def follows_position_def withdraws_def
        intro!: released_remove_own elim: released_cong)
qed

section \<open>The interpretations\<close>

lemmas transition_defs =
  Unknown_GetTransition_def Grounded_GetTransition_def GroundedIdle_GetTransition_def
  GroundedArming_GetTransition_def GroundedArmed_GetTransition_def GroundedDisarming_GetTransition_def
  GroundedDisarmed_GetTransition_def Takeoff_GetTransition_def TakeoffClimbing_GetTransition_def
  TakeoffTransitioning_GetTransition_def Landing_GetTransition_def LandingDescent_GetTransition_def
  Flight_GetTransition_def Guided_GetTransition_def SpatialItem_GetTransition_def

lemma sibling_class:
  "copter_GetTransition st d = Sibling k a \<Longrightarrow> outer_of k = outer_of (currentState (st ! d))"
  by (cases "currentState (st ! d)")
    (auto simp: copter_GetTransition_def transition_defs Let_def split: if_splits MACEHSMState.splits)

lemma inner_class:
  "copter_GetTransition st d \<in> {Inner k a, InnerEntry k a} \<Longrightarrow> outer_of k = Some (currentState (st ! d))"
  by (cases "currentState (st ! d)")
    (auto simp: copter_GetTransition_def transition_defs Let_def split: if_splits MACEHSMState.splits)

lemma transition_command:
  "copter_GetTransition st d \<in> {Sibling k a, Inner k a, InnerEntry k a}
    \<Longrightarrow> a = No_Args \<or> a = Command_Arg (currentCommand (st ! d))"
  by (cases "currentState (st ! d)")
    (auto simp: copter_GetTransition_def transition_defs Let_def split: if_splits MACEHSMState.splits)

lemma frame_classes: "frame Q m m' \<Longrightarrow> map currentState (fst m') = map currentState (fst m)"
proof -
  assume "frame Q m m'"
  then have "map snd (places (fst m')) = map snd (places (fst m))" by (simp add: frame_def)
  then show ?thesis by (simp add: places_def comp_def)
qed

abbreviation any_command :: "Command \<Rightarrow> bool" where
  "any_command \<equiv> \<lambda>c. True"

interpretation copter: state_hierarchy copter_ops outer_of "(STATE_UNKNOWN, No_Args)"
proof unfold_locales
  fix m m' :: copter and a d r
  show "OnEnter copter_ops a d m = (m', r) \<Longrightarrow> d < length (fst m)
      \<Longrightarrow> map (StateType copter_ops) (fst m') = map (StateType copter_ops) (fst m)"
    using frame_classes [OF frame_copter_OnEnter [of any_command m m d a]] by (simp add: args_hold_def)
  show "OnExit copter_ops d m = (m', r)
      \<Longrightarrow> map (StateType copter_ops) (fst m') = map (StateType copter_ops) (fst m)"
    using frame_classes [OF frame_copter_OnExit [of any_command m m d]] by simp
  show "Update copter_ops d m = (m', r)
      \<Longrightarrow> map (StateType copter_ops) (fst m') = map (StateType copter_ops) (fst m)"
    using frame_classes [OF frame_copter_Update [of any_command m m d]] by simp
qed (auto simp: sibling_class inner_class AllocateState_copter_def)

text \<open>The invariant: what is registered fits the stack, and the commands of the states satisfy \<open>Q\<close>.\<close>

definition copter_inv :: "(Command \<Rightarrow> bool) \<Rightarrow> copter \<Rightarrow> bool" where
  "copter_inv Q m \<longleftrightarrow> vehicle_ok (places (fst m)) (snd m) \<and> held Q m"

lemma frame_inv: "frame Q m m' \<Longrightarrow> copter_inv Q m \<Longrightarrow> copter_inv Q m'"
  by (simp add: frame_def copter_inv_def)

lemma inv_command: "copter_inv Q m \<Longrightarrow> d < length (fst m) \<Longrightarrow> currentCommand (fst m ! d) = Some c \<Longrightarrow> Q c"
  using nth_mem [of d "fst m"] unfolding copter_inv_def held_def by blast

lemma copter_push_inv:
  assumes "copter_inv Q m" "args_hold Q a"
  shows "copter_inv Q (fst (PushState copter_ops k a m))"
proof -
  obtain x w where new: "AllocateState_copter k (snd m) = (x, w)" by fastforce
  let ?m = "(fst m @ [x], w)"
  have "copter_inv Q ?m"
    using assms(1) vehicle_ok_push [of "places (fst m)" "snd m" k x w] new
    by (auto simp: copter_inv_def held_def places_def)
  then show ?thesis
    using frame_inv [OF frame_copter_OnEnter [of Q ?m ?m "length (fst m)" a]] assms(2) new
    by (simp add: PushState_def)
qed

lemma copter_pop_inv:
  assumes "copter_inv Q m" "fst m \<noteq> []" "copter_OnExit (length (fst m) - 1) m = (m', r)"
  shows "copter_inv Q (butlast (fst m'), snd m')"
proof -
  let ?d = "length (fst m) - 1"
  have f: "frame Q m m'" using frame_copter_OnExit [of Q m m ?d] assms(3) by simp
  have inv: "copter_inv Q m'" using frame_inv [OF f assms(1)] .
  have "fst m' \<noteq> []" using frame_length [OF f] assms(2) by auto
  then obtain sts x where sts: "fst m' = sts @ [x]" by (metis rev_exhaust)
  have d: "?d = length sts" using frame_length [OF f] sts by (metis diff_Suc_1 length_append_singleton)
  have "this x = this (fst m ! ?d)"
    using frame_stands [OF f, of "currentState (fst m ! ?d)" ?d] assms(2) sts d
    by (simp add: stands_def nth_append)
  then have "forgets (this x) (snd m')"
    using exit_forgets [of m ?d] assms by (simp add: copter_inv_def)
  then show ?thesis using inv vehicle_ok_pop [of "places sts" "this x" "currentState x" "snd m'"] sts
    by (auto simp: copter_inv_def held_def places_def)
qed

interpretation copter: state_invariant copter_ops outer_of "(STATE_UNKNOWN, No_Args)" "copter_inv Q" "args_hold Q"
  for Q
proof unfold_locales
  fix m m' :: copter and d k and a :: OnEnterArgs and r
  show "copter_inv Q m \<Longrightarrow> d < length (fst m)
      \<Longrightarrow> GetTransition copter_ops (fst m) d \<in> {Sibling k a, Inner k a, InnerEntry k a} \<Longrightarrow> args_hold Q a"
    using transition_command [of "fst m" d k a] inv_command [of Q m d]
    by (auto simp: args_hold_def)
  show "copter_inv Q m \<Longrightarrow> args_hold Q a \<Longrightarrow> path_of outer_of (map (StateType copter_ops) (fst m) @ [k])
      \<Longrightarrow> PushState copter_ops k a m = (m', Inr ()) \<Longrightarrow> copter_inv Q m'"
    using copter_push_inv [of Q m a k] by simp
  show "copter_inv Q m \<Longrightarrow> fst m \<noteq> [] \<Longrightarrow> OnExit copter_ops (length (fst m) - 1) m = (m', Inr ())
      \<Longrightarrow> copter_inv Q (butlast (fst m'), snd m')"
    using copter_pop_inv [of Q m m'] by simp
  show "copter_inv Q m \<Longrightarrow> d < length (fst m) \<Longrightarrow> Update copter_ops d m = (m', Inr ()) \<Longrightarrow> copter_inv Q m'"
    using frame_inv [OF frame_copter_Update [of Q m m d]] by simp
qed simp

section \<open>All histories\<close>

abbreviation classes :: "copter \<Rightarrow> MACEHSMState list" where
  "classes m \<equiv> map currentState (fst m)"

definition sound :: "(Command \<Rightarrow> bool) \<Rightarrow> copter \<Rightarrow> bool" where
  "sound Q m \<longleftrightarrow> copter_inv Q m \<and> path_of outer_of (classes m)"

lemma frame_sound: "frame Q m m' \<Longrightarrow> sound Q m \<Longrightarrow> sound Q m'"
  by (simp add: sound_def frame_inv frame_classes)

lemma sound_progress:
  assumes "ProgressStateMachineStates m = (m', Inr ())" "sound Q m"
  shows "sound Q m'"
proof -
  obtain m1 where m1: "ProcessStateTransitions copter_ops (STATE_UNKNOWN, No_Args) m = (m1, Inr ())"
    and m': "UpdateStates copter_ops m1 = (m', Inr ())"
    using assms(1) by (auto simp: ProgressStateMachineStates_def obind_Inr_iff)
  have "path_of outer_of (classes m1)" "copter_inv Q m1"
    using copter.process_path [OF m1] copter.process_inv [OF m1, of Q] assms(2) by (auto simp: sound_def)
  then show ?thesis
    using copter.UpdateStates_types [OF m'] copter.UpdateStates_inv [OF m', of Q] by (simp add: sound_def)
qed

lemma sound_new: "sound Q ([], Vehicle_new)"
  by (simp add: sound_def copter_inv_def vehicle_ok_def places_def places_ok_def notifiers_ok_def
      controllers_ok_def held_def Vehicle_new_def)

lemma sound_vehicle_same:
  assumes "sound Q m" "\<And>w. globalNotifiers (f w) = globalNotifiers w \<and> modeNotifiers (f w) = modeNotifiers w
    \<and> controllers (f w) = controllers w \<and> live (f w) = live w \<and> fresh (f w) = fresh w"
  shows "sound Q (update_vehicle f m)"
  by (rule frame_sound [OF frame_vehicle_same [OF frame_refl]]) (use assms in simp_all)

lemma sound_heartbeat:
  assumes "VehicleHeartbeatInfo mode base rotary s = (m', Inr ())" "\<And>m. s = Some m \<Longrightarrow> sound Q m"
  shows "sound Q m'"
proof -
  let ?m = "case s of None \<Rightarrow> ([], Vehicle_new) | Some m \<Rightarrow> m"
  have m: "sound Q ?m" using assms(2) sound_new by (auto split: option.split)
  obtain name m1 where m1: "set_vehicleMode name ?m = (m1, Inr ())"
    and m': "ProgressStateMachineStates (update_vehicle (\<lambda>w. w\<lparr>vehicleArm :=
        Some (and base MAV_MODE_FLAG_DECODE_POSITION_SAFETY \<noteq> 0), systemTypeRotary := rotary\<rparr>) m1) = (m', Inr ())"
    using assms(1) by (auto simp: VehicleHeartbeatInfo_def Let_def obind_Inr_iff split: option.splits)
  have "sound Q m1" using frame_sound [OF frame_set_vehicleMode [of Q ?m ?m name] m] m1 by simp
  then show ?thesis by (intro sound_progress [OF m'] sound_vehicle_same) simp_all
qed

text \<open>The commands of a history.\<close>

definition commands_in :: "(Command \<Rightarrow> bool) \<Rightarrow> Event list \<Rightarrow> bool" where
  "commands_in Q es \<longleftrightarrow> (\<forall>c t. Command_Event c t \<in> set es \<longrightarrow> Q c)"

lemma commands_in_simps [simp]:
  "commands_in Q []"
  "commands_in Q (e # es) \<longleftrightarrow> (\<forall>c t. e = Command_Event c t \<longrightarrow> Q c) \<and> commands_in Q es"
  "commands_in any_command es"
  by (auto simp: commands_in_def)

lemma with_machine_Inr:
  "with_machine f s = (s', Inr ()) \<Longrightarrow> s' = Some m' \<Longrightarrow> \<exists>m. s = Some m \<and> f m = (m', Inr ())"
  by (auto simp: with_machine_def split: option.splits prod.splits)

lemma frame_then_progress:
  assumes "obind r (\<lambda>m u. ProgressStateMachineStates m) = (m', Inr ())" "frame Q m (fst r)" "sound Q m"
  shows "sound Q m'"
proof -
  obtain m1 a where "r = (m1, Inr a)" "ProgressStateMachineStates m1 = (m', Inr ())"
    using assms(1) by (auto simp: obind_Inr_iff)
  then show ?thesis using assms(2,3) frame_sound [of Q m m1] sound_progress [of m1 m' Q] by simp
qed

lemma sound_step:
  assumes "copter_step e s = (Some m', Inr ())" "\<And>m. s = Some m \<Longrightarrow> sound Q m"
    "\<And>c t. e = Command_Event c t \<Longrightarrow> Q c"
  shows "sound Q m'"
proof (cases e)
  case (Heartbeat mode base rotary)
  then have "VehicleHeartbeatInfo mode base rotary s = (m', Inr ())"
    using assms(1) by (auto simp: copter_step_def split: prod.splits)
  then show ?thesis using sound_heartbeat assms(2) by blast
next
  case (Command_Event c t)
  then obtain m where m: "s = Some m"
    and step: "module_Command c (update_vehicle (\<lambda>w. w\<lparr>schedule := t\<rparr>) m) = (m', Inr ())"
    using assms(1) by (auto simp: copter_step_def split: if_splits dest: with_machine_Inr)
  let ?m = "update_vehicle (\<lambda>w. w\<lparr>schedule := t\<rparr>) m"
  obtain m1 b where m1: "copter_handleCommand 0 c ?m = (m1, Inr b)"
    and m': "ProgressStateMachineStates m1 = (m', Inr ())"
    using step by (auto simp: module_Command_def obind_Inr_iff split: if_splits)
  have "sound Q ?m" using assms(2) [OF m] by (rule sound_vehicle_same) simp
  then have "sound Q m1"
    using frame_sound [OF frame_copter_handleCommand [of Q ?m ?m c 0]] assms(3) Command_Event m1 by simp
  then show ?thesis using sound_progress [OF m'] by simp
next
  case (Ack_Event ack code)
  then obtain m where "s = Some m" "obind (Receive ack code m) (\<lambda>m u. ProgressStateMachineStates m) = (m', Inr ())"
    using assms(1) by (auto simp: copter_step_def dest: with_machine_Inr)
  then show ?thesis using frame_then_progress [OF _ frame_Receive [of Q m m]] assms(2) by simp
next
  case (Global_Position r)
  then obtain m where "s = Some m"
    "obind (run_notifiers r (globalNotifiers (snd m)) m) (\<lambda>m u. ProgressStateMachineStates m) = (m', Inr ())"
    using assms(1) by (auto simp: copter_step_def dest: with_machine_Inr)
  then show ?thesis using frame_then_progress [OF _ frame_run_notifiers [of Q m m]] assms(2) by simp
next
  case (Local_Position r)
  then obtain m where "s = Some m"
    "obind (run_notifiers r (localNotifiers (snd m)) m) (\<lambda>m u. ProgressStateMachineStates m) = (m', Inr ())"
    using assms(1) by (auto simp: copter_step_def dest: with_machine_Inr)
  then show ?thesis using frame_then_progress [OF _ frame_run_notifiers [of Q m m]] assms(2) by simp
next
  case Other_Message
  then obtain m where "s = Some m" "ProgressStateMachineStates m = (m', Inr ())"
    using assms(1) by (auto simp: copter_step_def dest: with_machine_Inr)
  then show ?thesis using sound_progress [of m m' Q] assms(2) by simp
next
  case (Transmission_Fails i)
  then obtain m where "s = Some m" "transmission_fails i m = (m', Inr ())"
    using assms(1) by (auto simp: copter_step_def dest: with_machine_Inr)
  then show ?thesis using frame_sound [OF frame_transmission_fails [of Q m m i]] assms(2) by simp
next
  case (Retransmission i)
  then obtain m where "s = Some m" "retransmit i m = (m', Inr ())"
    using assms(1) by (auto simp: copter_step_def dest: with_machine_Inr)
  then show ?thesis using frame_sound [OF frame_retransmit [of Q m m i]] assms(2) by simp
next
  case (Shutdown_Runs i)
  then obtain m where "s = Some m" "m' = m \<or> Shutdown_thread i m = (m', Inr ())"
    using assms(1) by (auto simp: copter_step_def dest!: with_machine_Inr split: if_splits)
  then show ?thesis using frame_sound [OF frame_Shutdown_thread [of Q m m i]] assms(2) by auto
qed

lemma sound_run:
  assumes "copter_run es s = (Some m, Inr ())" "commands_in Q es" "\<And>m. s = Some m \<Longrightarrow> sound Q m"
  shows "sound Q m"
  using assms
proof (induction es arbitrary: s)
  case (Cons e es)
  then obtain s1 where s1: "copter_step e s = (s1, Inr ())" and rest: "copter_run es s1 = (Some m, Inr ())"
    by (auto simp: obind_Inr_iff)
  have "sound Q m1" if "s1 = Some m1" for m1
    using sound_step [of e s m1 Q] s1 that Cons.prems by auto
  then show ?case using Cons.IH [OF rest] Cons.prems(2) by simp
qed simp

section \<open>Calls back into the states\<close>

lemma depth_of_place:
  assumes "(h, k) \<in> set (places st)" "distinct (map fst (places st))"
  obtains d where "depth_of h st = Some d" "d < length st" "currentState (st ! d) = k"
proof -
  obtain j where j: "j < length st" "this (st ! j) = h" "currentState (st ! j) = k"
    using assms(1) by (auto simp: places_def in_set_conv_nth)
  then obtain d where d: "depth_of h st = Some d"
    unfolding depth_of_def by (cases "find (\<lambda>d. this (st ! d) = h) [0..<length st]") (auto simp: find_None_iff)
  then have "d < length st" "this (st ! d) = h" by (auto simp: depth_of_def find_Some_iff)
  moreover have "map fst (places st) = map this st" by (simp add: places_def)
  ultimately have "d = j"
    using assms(2) j nth_eq_iff_index_eq [of "map this st" d j] by simp
  then show thesis using that [OF d] j by simp
qed

lemma sound_places: "sound Q m \<Longrightarrow> distinct (map fst (places (fst m)))"
  by (simp add: sound_def copter_inv_def vehicle_ok_def places_ok_def)

lemma on_host_ok:
  assumes "sound Q m" "(h, k) \<in> set (places (fst m))"
  shows "snd (on_host h f m) = Inr ()"
proof -
  obtain d where "depth_of h (fst m) = Some d" using depth_of_place [OF assms(2) sound_places [OF assms(1)]] .
  then show ?thesis by (simp add: on_host_def)
qed

lemma on_outer_ok:
  assumes "sound Q m" "(h, k) \<in> set (places (fst m))" "outer_of k \<noteq> None"
  shows "snd (on_outer h s m) = Inr ()"
proof -
  obtain d where d: "depth_of h (fst m) = Some d" "d < length (fst m)" "currentState (fst m ! d) = k"
    using depth_of_place [OF assms(2) sound_places [OF assms(1)]] .
  then have "outer_of k = (if d = 0 then None else Some (classes m ! (d - 1)))"
    using assms(1) by (auto simp: sound_def path_of_def)
  then have "d \<noteq> 0" using assms(3) by (auto split: if_splits)
  then obtain j where "d = Suc j" by (cases d) auto
  then show ?thesis using d by (simp add: on_outer_def)
qed

lemma obind_ok: "snd r = Inr a \<Longrightarrow> snd (f (fst r) a) = b \<Longrightarrow> snd (obind r f) = b"
  by (cases r) (auto simp: obind_def)

lemma run_FinishLambda_ok:
  assumes "sound Q m" "may_finish (places (fst m)) h l"
  shows "snd (run_FinishLambda l h i completed code m) = Inr ()"
proof -
  obtain k where k: "(h, k) \<in> set (places (fst m))"
    "l \<in> {TakeoffClimbing_Finished, LandingDescent_Finished} \<Longrightarrow> outer_of k \<noteq> None"
    using assms(2) by (auto simp: may_finish_def)
  have shut: "sound Q (update_vehicle (Shutdown i) m)"
    using assms(1) by (intro sound_vehicle_same) (simp_all add: Shutdown_def)
  have host: "snd (on_host h f m) = Inr ()" "snd (on_host h f (update_vehicle (Shutdown i) m)) = Inr ()" for f
    using on_host_ok [OF assms(1) k(1)] on_host_ok [OF shut, of h k] k(1) by auto
  show ?thesis
    using host on_outer_ok [OF assms(1) k(1)] k(2)
    by (cases l) (auto simp: run_FinishLambda_def finish_defs Let_def intro!: obind_ok)
qed

lemma run_lambdas_ok:
  "sound Q m \<Longrightarrow> \<forall>(h, l) \<in> set ls. may_finish (places (fst m)) h l
    \<Longrightarrow> snd (run_lambdas ls i completed code m) = Inr ()"
proof (induction ls arbitrary: m)
  case (Cons e ls)
  obtain h l where e: "e = (h, l)" by fastforce
  let ?r = "run_FinishLambda l h i completed code m"
  have f: "frame Q m (fst ?r)" by (simp add: frame_run_FinishLambda)
  have "\<forall>(h, l) \<in> set ls. may_finish (places (fst (fst ?r))) h l" using f Cons.prems by (simp add: frame_def)
  then have "snd (run_lambdas ls i completed code (fst ?r)) = Inr ()"
    using Cons.IH [OF frame_sound [OF f]] Cons.prems(1) by simp
  then show ?case using run_FinishLambda_ok [of Q m h l] Cons.prems e by (simp add: obind_ok)
qed simp

lemma sound_registered:
  assumes "sound Q m" "i \<in> snd ` set (controllers (snd m))"
  obtains c where "map_of (live (snd m)) i = Some c" "\<forall>(h, l) \<in> set (m_FinishLambda c). may_finish (places (fst m)) h l"
  using assms by (auto simp: sound_def copter_inv_def vehicle_ok_def controllers_ok_def hosts_ok_def)

lemma onFinished_ok:
  assumes "sound Q m" "i \<in> snd ` set (controllers (snd m))"
  shows "snd (onFinished i completed code m) = Inr ()"
proof -
  obtain c where "map_of (live (snd m)) i = Some c" "\<forall>(h, l) \<in> set (m_FinishLambda c). may_finish (places (fst m)) h l"
    using sound_registered [OF assms] .
  then show ?thesis using run_lambdas_ok [OF assms(1)] by (simp add: onFinished_def)
qed

lemma controllers_run_FinishLambda:
  "controllers (snd (fst (run_FinishLambda l h i completed code m))) = controllers (snd m)"
  by (auto simp: run_FinishLambda_def finish_defs Let_def Shutdown_def on_host_def on_outer_def setDesiredStateEnum_def obind_def
      split: FinishLambda.split option.split nat.split)

lemma controllers_onFinished: "controllers (snd (fst (onFinished i completed code m))) = controllers (snd m)"
proof -
  have "controllers (snd (fst (run_lambdas ls i completed code m))) = controllers (snd m)" for ls
  proof (induction ls arbitrary: m)
    case (Cons e ls)
    then show ?case using controllers_run_FinishLambda [of "snd e" "fst e" i completed code m]
      by (cases e) (auto simp: obind_def split: prod.splits sum.splits)
  qed simp
  then show ?thesis by (simp add: onFinished_def split: option.split)
qed

lemma ReceiveMessage_ok:
  assumes "sound Q m" "i \<in> snd ` set (controllers (snd m))"
  shows "snd (ReceiveMessage ack code i m) = Inr ()"
    and "controllers (snd (fst (ReceiveMessage ack code i m))) = controllers (snd m)"
proof -
  obtain c where c: "map_of (live (snd m)) i = Some c" using sound_registered [OF assms] .
  then show "snd (ReceiveMessage ack code i m) = Inr ()"
    using onFinished_ok [OF assms] by (auto simp: ReceiveMessage_def intro!: obind_ok)
  show "controllers (snd (fst (ReceiveMessage ack code i m))) = controllers (snd m)"
    using c controllers_onFinished [of i True code m]
    by (auto simp: ReceiveMessage_def RemoveTransmission_of_def Let_def obind_def split: prod.splits sum.splits)
qed

lemma receive_each_ok:
  "sound Q m \<Longrightarrow> set is \<subseteq> snd ` set (controllers (snd m)) \<Longrightarrow> snd (receive_each ack code is m) = Inr ()"
proof (induction "is" arbitrary: m)
  case (Cons i "is")
  let ?r = "ReceiveMessage ack code i m"
  have f: "sound Q (fst ?r)" using frame_sound [OF frame_ReceiveMessage [of Q m m]] Cons.prems(1) by simp
  have "snd (receive_each ack code is (fst ?r)) = Inr ()"
    using Cons.IH [OF f] Cons.prems ReceiveMessage_ok(2) [of Q m i] by simp
  then show ?case using ReceiveMessage_ok(1) [of Q m i] Cons.prems by (simp add: obind_ok)
qed simp

lemma Receive_ok: "sound Q m \<Longrightarrow> snd (Receive ack code m) = Inr ()"
  using receive_each_ok [of Q m "map snd (controllers (snd m))"] by (simp add: Receive_def)

lemma run_notifiers_ok:
  "sound Q m \<Longrightarrow> \<forall>(h, n) \<in> set ns. \<exists>k. (h, k) \<in> set (places (fst m)) \<Longrightarrow> snd (run_notifiers r ns m) = Inr ()"
proof (induction ns arbitrary: m)
  case (Cons e ns)
  obtain h n where e: "e = (h, n)" by fastforce
  let ?r = "on_host h (run_Notifier r n) m"
  have f: "frame Q m (fst ?r)" by (simp add: frame_on_host frame_run_Notifier)
  have "\<forall>(h, n) \<in> set ns. \<exists>k. (h, k) \<in> set (places (fst (fst ?r)))" using f Cons.prems by (simp add: frame_def)
  then have "snd (run_notifiers r ns (fst ?r)) = Inr ()"
    using Cons.IH [OF frame_sound [OF f]] Cons.prems(1) by simp
  then show ?case using on_host_ok [of Q m h] Cons.prems e by (auto simp: obind_ok)
qed simp

lemma global_notifiers_ok: "sound Q m \<Longrightarrow> snd (run_notifiers r (globalNotifiers (snd m)) m) = Inr ()"
  by (rule run_notifiers_ok) (auto simp: sound_def copter_inv_def vehicle_ok_def notifiers_ok_def)

lemma mode_notifiers_ok:
  "sound Q m \<Longrightarrow> \<forall>h \<in> set hs. (h, STATE_FLIGHT) \<in> set (places (fst m)) \<Longrightarrow> snd (mode_notifiers hs m) = Inr ()"
proof (induction hs arbitrary: m)
  case (Cons h hs)
  let ?r = "on_host h (\<lambda>d m. checkTransitionFromMode (getFlightModeString (snd m)) d m) m"
  have f: "frame Q m (fst ?r)" by (rule frame_on_host) (simp_all add: frame_checkTransitionFromMode)
  have "snd (mode_notifiers hs (fst ?r)) = Inr ()"
    using Cons.IH [OF frame_sound [OF f]] Cons.prems f by (simp add: frame_def)
  then show ?case using on_host_ok [of Q m h STATE_FLIGHT] Cons.prems by (simp add: obind_ok)
qed simp

lemma set_vehicleMode_ok:
  assumes "sound Q m"
  shows "snd (set_vehicleMode mode m) = Inr ()"
proof -
  let ?m = "update_vehicle (\<lambda>w. w\<lparr>vehicleMode := Some mode\<rparr>) m"
  have s: "sound Q ?m" using assms by (rule sound_vehicle_same) simp
  then have "snd (mode_notifiers (modeNotifiers (snd ?m)) ?m) = Inr ()"
    by (rule mode_notifiers_ok) (use s in \<open>auto simp: sound_def copter_inv_def vehicle_ok_def notifiers_ok_def\<close>)
  then show ?thesis by (simp add: set_vehicleMode_def Let_def)
qed

section \<open>Properties\<close>

text \<open>A history: a vehicle is armed, takes off to twenty metres in guided mode, and is told to go to a place.\<close>

definition takeoff_place :: Position where
  "takeoff_place = \<lparr>coordinateSystem = GEODETIC, is3D = True, areTranslationalComponentsValid = False,
     targetAltitude = Some (Fin 20)\<rparr>"

definition altitude_report :: "real \<Rightarrow> PositionReport" where
  "altitude_report a = \<lparr>reportedAltitude = Fin a, distanceBetween2D = (\<lambda>p. Fin 0), distanceTo = (\<lambda>p. Fin 0)\<rparr>"

definition takeoff_history :: "Event list" where
  "takeoff_history =
     [Heartbeat (Some ''STABILIZE'') 0 True, Heartbeat (Some ''STABILIZE'') 0 True,
      Command_Event (SpatialTakeoff (Some takeoff_place)) Thread_Later,
      Ack_Event Ack_COMPONENT_ARM_DISARM 0, Shutdown_Runs 4, Heartbeat (Some ''STABILIZE'') 128 True,
      Other_Message, Ack_Event Ack_SET_MODE 0, Shutdown_Runs 7, Heartbeat (Some ''GUIDED'') 128 True,
      Global_Position (altitude_report 5)]"

definition guided_history :: "Event list" where
  "guided_history = takeoff_history @
     [Global_Position (altitude_report 19.5),
      Command_Event (Action_ExecuteSpatialItem (Some (True, Some takeoff_place))) Thread_Later,
      Ack_Event Ack_MISSION 0]"

lemma sound_history: "copter_run es None = (Some m, Inr ()) \<Longrightarrow> sound any_command m"
  by (rule sound_run [of es None]) simp_all

text \<open>
  C21: The stack of the state machine is a path of the hierarchy of flight states after any history of heartbeats,
  commands, acknowledgements, reports, timeouts and threads that does not fail: the outermost state
  stands in none, and each state stands in the state before.
\<close>

lemma copter_stack_is_path:
  assumes "copter_run es None = (Some m, Inr ())"
  shows "path_of outer_of (map currentState (fst m))"
  using sound_history [OF assms] by (simp add: sound_def)

lemma guided_history_run:
  "\<exists>m. copter_run guided_history None = (Some m, Inr ())
     \<and> map currentState (fst m) = [STATE_FLIGHT, STATE_FLIGHT_GUIDED, STATE_FLIGHT_GUIDED_SPATIALITEM]
     \<and> globalNotifiers (snd m) \<noteq> [] \<and> modeNotifiers (snd m) \<noteq> [] \<and> controllers (snd m) \<noteq> []"
proof -
  have "map_prod (map_option (\<lambda>m. (map currentState (fst m), globalNotifiers (snd m) = [],
        modeNotifiers (snd m) = [], controllers (snd m) = []))) id (copter_run guided_history None)
      = (Some ([STATE_FLIGHT, STATE_FLIGHT_GUIDED, STATE_FLIGHT_GUIDED_SPATIALITEM], False, False, False), Inr ())"
    by code_simp
  then show ?thesis by (cases "copter_run guided_history None") auto
qed

lemma copter_stack_is_path_witness:
  "\<exists>m. copter_run guided_history None = (Some m, Inr ()) \<and> length (fst m) = 3
     \<and> path_of outer_of (map currentState (fst m))"
proof -
  obtain m where m: "copter_run guided_history None = (Some m, Inr ())"
    "map currentState (fst m) = [STATE_FLIGHT, STATE_FLIGHT_GUIDED, STATE_FLIGHT_GUIDED_SPATIALITEM]"
    by (rule exE [OF guided_history_run]) simp
  have "length (fst m) = 3" using arg_cong [OF m(2), of length] by simp
  with m(1) copter_stack_is_path [OF m(1)] show ?thesis by (intro exI [of _ m]) simp
qed



end
