(* ===== verification/Copter_Settling.thy ===== *)
theory Copter_Settling
  imports Copter_Safety
begin

text \<open>
  The state machine of a copter settles: a transition lowers a rank of the states on the stack and the
  states they desire, so that processing the transitions ends after a few rounds, long before the
  assertion of the engine. The one condition is on waypoints, whose system must be known.
\<close>

section \<open>Views\<close>

type_synonym view = "MACEHSMState \<times> MACEHSMState"

abbreviation views :: "copter \<Rightarrow> view list" where
  "views m \<equiv> map (\<lambda>x. (currentState x, desiredState x)) (fst m)"

lemma views_update_state:
  assumes "currentState (f (fst m ! d)) = currentState (fst m ! d) \<and> desiredState (f (fst m ! d)) = desiredState (fst m ! d)"
  shows "views (update_state d f m) = views m"
  using assms by (cases "d < length (fst m)") (simp_all add: update_state_def map_update list_update_same_conv list_update_beyond)

lemma views_simps [simp]:
  "views (update_vehicle g m) = views m"
  "views (clearCommand d m) = views m"
  "views (setCurrentCommand d c m) = views m"
  "views (start_for d k l name r m) = views m"
  "views (notify_global d n m) = views m"
  "views (notify_local d n m) = views m"
  "views (clear_target d m) = views m"
  "views (register_target d t m) = views m"
  by (simp_all add: clearCommand_def setCurrentCommand_def views_update_state start_for_def notify_global_def
      notify_local_def clear_target_def register_target_def update_vehicle_def)

lemma views_setDesired [simp]:
  "views (setDesiredStateEnum d s m) = (views m)[d := (fst (views m ! d), s)]"
  by (cases "d < length (fst m)") (simp_all add: setDesiredStateEnum_def update_state_def map_update list_update_beyond)

lemma views_obind:
  assumes "views (fst r) = vs" "\<And>m a. r = (m, Inr a) \<Longrightarrow> views m = vs \<Longrightarrow> views (fst (f m a)) = vs"
  shows "views (fst (obind r f)) = vs"
proof (cases "snd r")
  case (Inl e)
  then show ?thesis using assms(1) by (cases r) simp
next
  case (Inr a)
  then show ?thesis using assms(1) assms(2) [of "fst r" a] by (cases r) simp
qed

lemma views_Pair [simp]: "views (fst m, w) = views m"
  by simp

lemma views_run_ShutdownLambda [simp]: "views (fst (run_ShutdownLambda l m)) = views m"
proof -
  have "views (update_state d (\<lambda>x. x\<lparr>m_oldModeControllerShutdown := b\<rparr>) m) = views m" for d b and m :: copter
    by (rule views_update_state) simp
  then show ?thesis
    by (simp add: run_ShutdownLambda_def Let_def split: ShutdownLambda.split prod.split option.split)
qed

lemma views_Shutdown_thread [simp]: "views (fst (Shutdown_thread i m)) = views m"
  by (simp add: Shutdown_thread_def Let_def update_vehicle_def split: option.split)

lemma views_await [simp]: "views (fst (await_old_controller d i m)) = views m"
proof -
  have clear: "views (update_state d (\<lambda>x. x\<lparr>m_oldModeControllerShutdown := False\<rparr>) m) = views m" for m
    by (rule views_update_state) simp
  show ?thesis
    by (auto simp: await_old_controller_def Let_def clear intro!: views_obind)
qed

lemma views_prepareModeController [simp]: "views (fst (prepareModeController d m)) = views m"
  unfolding prepareModeController_def
  by (intro views_obind) (auto simp: Let_def split: prod.split option.split)

lemma views_root_handleCommand [simp]: "views (fst (AbstractRootState_handleCommand d c m)) = views m"
  by (auto simp: AbstractRootState_handleCommand_def split: Command.split intro!: views_obind)

lemma views_handleCommand [simp]:
  "views (fst (GroundedDisarming_handleCommand d c m)) = views m"
  "views (fst (Takeoff_handleCommand d c m)) = views m"
  "views (fst (TakeoffClimbing_handleCommand d c m)) = views m"
  "views (fst (TakeoffTransitioning_handleCommand d c m)) = views m"
  "views (fst (Landing_handleCommand d c m)) = views m"
  "views (fst (LandingDescent_handleCommand d c m)) = views m"
  by (simp_all add: GroundedDisarming_handleCommand_def Takeoff_handleCommand_def
      TakeoffClimbing_handleCommand_def TakeoffTransitioning_handleCommand_def Landing_handleCommand_def
      LandingDescent_handleCommand_def Let_def
      split: Command.split option.split CoordinateSystemTypes.split)

lemma views_constructAndSendTarget [simp]: "views (fst (constructAndSendTarget n t m)) = views m"
  by (simp add: constructAndSendTarget_def split: option.split)

lemma views_target_handleCommand [simp]:
  "views (fst (AttTarget_handleCommand d c m)) = views m"
  "views (fst (KinematicTarget_handleCommand n d c m)) = views m"
proof -
  have "views (fst (obind (constructAndSendTarget n t m') (\<lambda>m u. (f m, Inr True)))) = views m'"
    if "\<And>m. views (f m) = views m" for n t m' and f :: "copter \<Rightarrow> copter"
    using that by (intro views_obind) simp_all
  then show "views (fst (AttTarget_handleCommand d c m)) = views m"
    "views (fst (KinematicTarget_handleCommand n d c m)) = views m"
    by (simp_all add: AttTarget_handleCommand_def KinematicTarget_handleCommand_def Let_def
        split: Command.split option.split DynamicTarget.split)
qed

section \<open>Entering\<close>

text \<open>What a state desires once it is entered.\<close>

fun entry :: "MACEHSMState \<Rightarrow> MACEHSMState list" where
  "entry STATE_GROUNDED = [STATE_GROUNDED_ARMED, STATE_GROUNDED_DISARMED, STATE_GROUNDED_IDLE]"
| "entry STATE_GROUNDED_DISARMED = [STATE_GROUNDED_DISARMED, STATE_GROUNDED_IDLE]"
| "entry STATE_GROUNDED_ARMED = [STATE_GROUNDED_ARMED, STATE_GROUNDED_DISARMING, STATE_TAKEOFF]"
| "entry STATE_LANDING = [STATE_LANDING, STATE_LANDING_DESCENDING]"
| "entry STATE_LANDING_TRANSITIONING = [STATE_LANDING_TRANSITIONING, STATE_LANDING_DESCENDING]"
| "entry STATE_FLIGHT =
     [STATE_FLIGHT_AUTO, STATE_FLIGHT_BRAKE, STATE_FLIGHT_GUIDED, STATE_LANDING, STATE_FLIGHT_LOITER,
      STATE_FLIGHT_MANUAL, STATE_FLIGHT_RTL, STATE_FLIGHT_UNKNOWN]"
| "entry STATE_FLIGHT_GUIDED = [STATE_FLIGHT_GUIDED_IDLE]"
| "entry k = [k]"

definition grown :: "view list \<Rightarrow> MACEHSMState \<Rightarrow> view list \<Rightarrow> bool" where
  "grown vs k vs' \<longleftrightarrow> (\<exists>e \<in> set (entry k). vs' = vs @ [(k, e)]
     \<or> (k = STATE_GROUNDED_ARMED \<and> vs \<noteq> []
        \<and> (\<exists>x \<in> {STATE_FLIGHT, STATE_TAKEOFF}. vs' = butlast vs @ [(fst (last vs), x), (k, e)])))"

text \<open>The system of a waypoint is known.\<close>

fun placed :: "Command \<Rightarrow> bool" where
  "placed (Action_ExecuteSpatialItem (Some (True, Some p))) \<longleftrightarrow> coordinateSystem p \<in> {GEODETIC, CARTESIAN}"
| "placed c \<longleftrightarrow> True"

lemma set_desired_last:
  "length vs = d \<Longrightarrow> (vs @ [v])[d := w] = vs @ [w]"
  "length vs = d \<Longrightarrow> (vs @ [v]) ! d = v"
  by (metis list_update_length, metis nth_append_length)

lemma set_desired_outer:
  "length vs = Suc d \<Longrightarrow> (vs @ [v])[d := (fst ((vs @ [v]) ! d), x)] = butlast vs @ [(fst (last vs), x), v]"
  by (cases vs rule: rev_cases) (auto simp: nth_append)

lemma views_fst: "r = (m', q) \<Longrightarrow> views (fst r) = vs \<Longrightarrow> views m' = vs"
  by simp

lemma views_obind_Inr:
  assumes "obind r (\<lambda>m b. (m, Inr ())) = (m', Inr ())"
  shows "m' = fst r"
  using assms by (cases r; cases "snd r") auto

lemma entered_alike:
  assumes "views m = vs @ [(k, k)]" "length vs = d" "k \<in> set (entry k)"
  shows "enter_with_command TakeoffClimbing_handleCommand a d m = (m', Inr ()) \<Longrightarrow> grown vs k (views m')"
    and "enter_with_command TakeoffTransitioning_handleCommand a d m = (m', Inr ()) \<Longrightarrow> grown vs k (views m')"
    and "enter_with_command LandingDescent_handleCommand a d m = (m', Inr ()) \<Longrightarrow> grown vs k (views m')"
    and "GroundedDisarming_OnEnter a d m = (m', Inr ()) \<Longrightarrow> grown vs k (views m')"
    and "Takeoff_OnEnter a d m = (m', Inr ()) \<Longrightarrow> grown vs k (views m')"
    and "enter_target n AttTarget_handleCommand a d m = (m', Inr ()) \<Longrightarrow> grown vs k (views m')"
    and "enter_target n (KinematicTarget_handleCommand n) a d m = (m', Inr ()) \<Longrightarrow> grown vs k (views m')"
proof -
  have g: "grown vs k (views m')" if "views m' = views m" for m'
    using that assms by (auto simp: grown_def)
  show "enter_with_command TakeoffClimbing_handleCommand a d m = (m', Inr ()) \<Longrightarrow> grown vs k (views m')"
    "enter_with_command TakeoffTransitioning_handleCommand a d m = (m', Inr ()) \<Longrightarrow> grown vs k (views m')"
    "enter_with_command LandingDescent_handleCommand a d m = (m', Inr ()) \<Longrightarrow> grown vs k (views m')"
    by (auto simp: enter_with_command_def split: OnEnterArgs.splits option.splits
        dest!: views_obind_Inr intro!: g)
  show "GroundedDisarming_OnEnter a d m = (m', Inr ()) \<Longrightarrow> grown vs k (views m')"
    "Takeoff_OnEnter a d m = (m', Inr ()) \<Longrightarrow> grown vs k (views m')"
    by (auto simp: GroundedDisarming_OnEnter_def Takeoff_OnEnter_def Let_def
        split: OnEnterArgs.splits option.splits dest!: views_obind_Inr intro!: g)
  show "enter_target n AttTarget_handleCommand a d m = (m', Inr ()) \<Longrightarrow> grown vs k (views m')"
    "enter_target n (KinematicTarget_handleCommand n) a d m = (m', Inr ()) \<Longrightarrow> grown vs k (views m')"
    by (auto simp: enter_target_def Let_def split: OnEnterArgs.splits option.splits Command.splits prod.splits
        dest!: views_obind_Inr intro!: g)
qed

lemma entered_GroundedArmed:
  assumes "GroundedArmed_OnEnter a d m = (m', Inr ())" "views m = vs @ [(STATE_GROUNDED_ARMED, STATE_GROUNDED_ARMED)]"
    "length vs = d"
  shows "grown vs STATE_GROUNDED_ARMED (views m')"
proof (cases d)
  case 0
  then show ?thesis using assms
    by (auto simp: GroundedArmed_OnEnter_def GroundedArmed_handleCommand_def Let_def grown_def set_desired_last
        split: OnEnterArgs.splits option.splits Command.splits if_splits)
next
  case (Suc j)
  then have "length vs = Suc j" using assms(3) by simp
  note u = set_desired_outer [OF this]
  show ?thesis using assms Suc
    by (auto simp: GroundedArmed_OnEnter_def GroundedArmed_handleCommand_def Let_def grown_def set_desired_last u
        split: OnEnterArgs.splits option.splits Command.splits if_splits)
qed

lemma entered_GroundedDisarmed:
  assumes "views m = vs @ [(STATE_GROUNDED_DISARMED, STATE_GROUNDED_DISARMED)]" "length vs = d"
  shows "grown vs STATE_GROUNDED_DISARMED (views (GroundedDisarmed_OnEnter a d m))"
  using assms by (auto simp: GroundedDisarmed_OnEnter_def grown_def set_desired_last)

lemma entered_GroundedArming:
  assumes "views m = vs @ [(STATE_GROUNDED_ARMING, STATE_GROUNDED_ARMING)]"
  shows "grown vs STATE_GROUNDED_ARMING (views (GroundedArming_OnEnter a d m))"
  using assms by (auto simp: GroundedArming_OnEnter_def Let_def grown_def split: OnEnterArgs.split option.split)

lemma entered_Grounded:
  assumes "views m = vs @ [(STATE_GROUNDED, STATE_GROUNDED)]" "length vs = d"
  shows "grown vs STATE_GROUNDED (views (Grounded_OnEnter d m))"
  using assms by (auto simp: Grounded_OnEnter_def grown_def set_desired_last)

lemma entered_Landing:
  assumes "Landing_OnEnter a d m = (m', Inr ())" "views m = vs @ [(STATE_LANDING, STATE_LANDING)]" "length vs = d"
  shows "grown vs STATE_LANDING (views m')"
  using assms
  by (auto simp: Landing_OnEnter_def grown_def set_desired_last
      split: OnEnterArgs.splits option.splits Command.splits if_splits dest!: views_obind_Inr)

lemma entered_LandingTransitioning:
  assumes "enter_with_command LandingTransitioning_handleCommand a d m = (m', Inr ())"
    "views m = vs @ [(STATE_LANDING_TRANSITIONING, STATE_LANDING_TRANSITIONING)]" "length vs = d"
  shows "grown vs STATE_LANDING_TRANSITIONING (views m')"
  using assms
  by (auto simp: enter_with_command_def LandingTransitioning_handleCommand_def Let_def grown_def set_desired_last
      split: OnEnterArgs.splits option.splits Command.splits if_splits dest!: views_obind_Inr)

lemma views_Flight_enter_mode:
  assumes "views m = vs @ [(STATE_FLIGHT, STATE_FLIGHT)]" "length vs = d"
  shows "\<exists>e \<in> set (entry STATE_FLIGHT). views (Flight_enter_mode d m) = vs @ [(STATE_FLIGHT, e)]"
  using assms by (auto simp: Flight_enter_mode_def checkTransitionFromMode_def Let_def set_desired_last)

text \<open>Flight is entered without an inner state, so that a command it would pass on fails.\<close>

lemma entered_Flight:
  assumes "Flight_OnEnter (copter_handleCommand d) a d m = (m', Inr ())"
    "views m = vs @ [(STATE_FLIGHT, STATE_FLIGHT)]" "length vs = d"
  shows "grown vs STATE_FLIGHT (views m')"
proof -
  let ?m = "Flight_enter_mode d m"
  obtain e where e: "e \<in> set (entry STATE_FLIGHT)" "views ?m = vs @ [(STATE_FLIGHT, e)]"
    using views_Flight_enter_mode [OF assms(2,3)] by blast
  have len: "length (fst ?m) = Suc d" using arg_cong [OF e(2), of length] assms(3) by simp
  have cls: "currentState (fst ?m ! d) = STATE_FLIGHT"
    using arg_cong [OF e(2), of "\<lambda>vs. fst (vs ! d)"] len assms(3) by (simp add: set_desired_last)
  show ?thesis
  proof (cases "\<exists>c. a = Command_Arg (Some c)")
    case False
    then have "m' = ?m" using assms(1) by (auto simp: Flight_OnEnter_def split: OnEnterArgs.splits option.splits)
    then show ?thesis using e by (auto simp: grown_def)
  next
    case True
    then obtain c where "obind (copter_handleCommand d c ?m) (\<lambda>m b. (m, Inr ())) = (m', Inr ())"
      using assms(1) by (auto simp: Flight_OnEnter_def)
    then obtain b where "copter_handleCommand d c ?m = (m', Inr b)"
      by (auto simp: obind_Inr_iff)
    then have "Flight_handleCommand (handleCommand_at 0 (Suc d) c) d c ?m = (m', Inr b)"
      using cls len by (simp add: copter_handleCommand_def)
    moreover have "views m' = views ?m" if "AbstractRootState_handleCommand d c' ?m = (m', Inr b)" for c'
      using views_root_handleCommand [of d c' ?m] that by simp
    ultimately have "views m' = views ?m \<or> views m' = vs @ [(STATE_FLIGHT, STATE_LANDING)]"
      using e(2) assms(3)
      by (auto simp: Flight_handleCommand_def Flight_change_mode_def set_desired_last
          split: Command.splits MissionCommandAction.splits if_splits)
    then show ?thesis using e by (auto simp: grown_def)
  qed
qed

lemma entered_SpatialItem:
  assumes "SpatialItem_OnEnter a d m = (m', Inr ())" "args_hold placed a"
    "views m = vs @ [(STATE_FLIGHT_GUIDED_SPATIALITEM, STATE_FLIGHT_GUIDED_SPATIALITEM)]"
  shows "grown vs STATE_FLIGHT_GUIDED_SPATIALITEM (views m')"
proof -
  have accepted: "views (update_state d (\<lambda>x. x\<lparr>commandAccepted := False\<rparr>) m) = views m" for m
    by (rule views_update_state) simp
  have way: "views (fst (processSpatialWaypoint d (Some p) m)) = views m"
    if "coordinateSystem p \<in> {GEODETIC, CARTESIAN}" for p m
    using that accepted by (auto simp: processSpatialWaypoint_def Let_def split: option.split)
  have "views (fst (SpatialItem_handleCommand d c m)) = views m"
    if "placed c" for c m
    using that way accepted
    by (auto simp: SpatialItem_handleCommand_def processSpatialWaypoint_def Let_def
        split: Command.split option.split intro!: views_obind)
  then have "views m' = views m" using assms(1,2)
    by (auto simp: SpatialItem_OnEnter_def Let_def
        split: OnEnterArgs.splits option.splits Command.splits prod.splits dest!: views_obind_Inr)
  then show ?thesis using assms(3) by (auto simp: grown_def)
qed

lemma entered:
  assumes "copter_OnEnter a d m = (m', Inr ())" "views m = vs @ [(k, k)]" "length vs = d" "args_hold placed a"
  shows "grown vs k (views m')"
proof -
  have "length (fst m) = Suc d" using arg_cong [OF assms(2), of length] assms(3) by simp
  then have k: "currentState (fst m ! d) = k"
    using arg_cong [OF assms(2), of "\<lambda>vs. fst (vs ! d)"] assms(3) by (simp add: set_desired_last)
  have self: "j \<in> set (entry j) \<Longrightarrow> grown vs j (vs @ [(j, j)])" for j
    by (auto simp: grown_def)
  note alike = entered_alike [OF assms(2,3)]
  show ?thesis
  proof (cases k)
    case STATE_GROUNDED
    then show ?thesis using assms k entered_Grounded [of m vs d] by (auto simp: copter_OnEnter_def)
  next
    case STATE_GROUNDED_DISARMED
    then show ?thesis using assms k entered_GroundedDisarmed [of m vs d a] by (auto simp: copter_OnEnter_def)
  next
    case STATE_GROUNDED_ARMING
    then show ?thesis using assms k entered_GroundedArming [of m vs a d] by (auto simp: copter_OnEnter_def)
  next
    case STATE_GROUNDED_ARMED
    then show ?thesis using assms k entered_GroundedArmed [of a d m m' vs] by (simp add: copter_OnEnter_def)
  next
    case STATE_LANDING
    then show ?thesis using assms k entered_Landing [of a d m m' vs] by (simp add: copter_OnEnter_def)
  next
    case STATE_LANDING_TRANSITIONING
    then show ?thesis using assms k entered_LandingTransitioning [of a d m m' vs] by (simp add: copter_OnEnter_def)
  next
    case STATE_FLIGHT
    then show ?thesis using assms k entered_Flight [of d a m m' vs] by (simp add: copter_OnEnter_def)
  next
    case STATE_FLIGHT_GUIDED_SPATIALITEM
    then show ?thesis using assms k entered_SpatialItem [of a d m m' vs] by (simp add: copter_OnEnter_def)
  next
    case STATE_TAKEOFF_CLIMBING
    then show ?thesis using assms k alike(1) by (simp add: copter_OnEnter_def)
  next
    case STATE_TAKEOFF_TRANSITIONING
    then show ?thesis using assms k alike(2) by (simp add: copter_OnEnter_def)
  next
    case STATE_LANDING_DESCENDING
    then show ?thesis using assms k alike(3) by (simp add: copter_OnEnter_def)
  next
    case STATE_GROUNDED_DISARMING
    then show ?thesis using assms k alike(4) by (simp add: copter_OnEnter_def)
  next
    case STATE_TAKEOFF
    then show ?thesis using assms k alike(5) by (simp add: copter_OnEnter_def)
  next
    case STATE_FLIGHT_GUIDED_ATTTARGET
    then show ?thesis using assms k alike(6) by (simp add: copter_OnEnter_def)
  next
    case STATE_FLIGHT_GUIDED_CARTARGET
    then show ?thesis using assms k alike(7) by (simp add: copter_OnEnter_def CarTarget_handleCommand_def GeoTarget_handleCommand_def)
  next
    case STATE_FLIGHT_GUIDED_GEOTARGET
    then show ?thesis using assms k alike(7) by (simp add: copter_OnEnter_def CarTarget_handleCommand_def GeoTarget_handleCommand_def)
  next
    case STATE_FLIGHT_GUIDED
    then show ?thesis using assms k by (auto simp: copter_OnEnter_def grown_def set_desired_last)
  qed (use assms k self in \<open>auto simp: copter_OnEnter_def\<close>)
qed

lemma push_grown:
  assumes "PushState copter_ops k a m = (m', Inr ())" "args_hold placed a"
  shows "grown (views m) k (views m')"
proof -
  obtain x w where new: "AllocateState_copter k (snd m) = (x, w)" by fastforce
  then have "currentState x = k" "desiredState x = k" by (auto simp: AllocateState_copter_def)
  then show ?thesis
    using entered [of a "length (fst m)" "(fst m @ [x], w)" m' "views m" k] assms new
    by (simp add: PushState_def)
qed

lemma views_remove_own [simp]: "views (remove_own_controller n m) = views m"
  by (simp add: remove_own_controller_def split: prod.split)

lemma views_OnExit: "copter_OnExit d m = (m', r) \<Longrightarrow> views m' = views m"
  by (cases "currentState (fst m ! d)")
    (auto simp: copter_OnExit_def exit_defs Let_def AbstractStateArdupilot_OnExit_def
      remove_global_notifier_def remove_local_notifier_def)

lemma views_PopStates: "PopStates copter_ops n m = (m', Inr ()) \<Longrightarrow> views m' = take (length (fst m) - n) (views m)"
proof (induction n arbitrary: m)
  case (Suc n)
  then obtain m1 where m1: "copter_OnExit (length (fst m) - 1) m = (m1, Inr ())"
    and pop: "PopStates copter_ops n (butlast (fst m1), snd m1) = (m', Inr ())"
    by (auto simp: obind_Inr_iff)
  have v: "views m1 = views m" using views_OnExit [OF m1] .
  then have "length (fst m1) = length (fst m)" by (metis length_map)
  then show ?case using Suc.IH [OF pop] v
    by (auto simp: butlast_conv_take take_map [symmetric] min_def)
qed simp

lemma replace_grown:
  assumes "replace_state copter_ops d k a m = (m', Inr b)" "args_hold placed a" "d \<le> length (fst m)"
  shows "grown (take d (views m)) k (views m')"
proof -
  obtain m1 where pop: "PopStatesToDepth copter_ops d m = (m1, Inr ())"
    and push: "PushState copter_ops k a m1 = (m', Inr ())"
    using assms(1) by (auto simp: replace_state_def obind_Inr_iff)
  have "views m1 = take d (views m)"
    using views_PopStates [of "length (fst m) - d" m m1] pop assms(3) by (simp add: PopStatesToDepth_def)
  then show ?thesis using push_grown [OF push assms(2)] by simp
qed

section \<open>The rank\<close>

text \<open>
  The rank of the states inside a state, for each of the outermost states; a state that is pending
  desires another state than the one it is.
\<close>

definition ground_rank :: "view list \<Rightarrow> nat" where
  "ground_rank vs = (case vs of [] \<Rightarrow> 4 | (c, e) # _ \<Rightarrow>
     if c = e then 0 else if c \<in> {STATE_GROUNDED_ARMED, STATE_GROUNDED_DISARMED} then 1 else 3)"

definition takeoff_rank :: "view list \<Rightarrow> nat" where
  "takeoff_rank vs = (case vs of [] \<Rightarrow> 3 | (c, e) # _ \<Rightarrow>
     if c = e then 0 else if c = STATE_TAKEOFF_CLIMBING then 2
     else if c = STATE_TAKEOFF_TRANSITIONING then 1 else 0)"

definition landing_rank :: "view list \<Rightarrow> nat" where
  "landing_rank vs = (case vs of [] \<Rightarrow> 2 | (c, e) # _ \<Rightarrow>
     if (c, e) = (STATE_LANDING_DESCENDING, STATE_LANDING_COMPLETE) then 1 else 0)"

definition landed :: "view list \<Rightarrow> bool" where
  "landed vs \<longleftrightarrow> (case vs of [] \<Rightarrow> False | (c, e) # _ \<Rightarrow>
     c = STATE_LANDING_COMPLETE \<or> (c, e) = (STATE_LANDING_DESCENDING, STATE_LANDING_COMPLETE))"

definition inner_to :: "MACEHSMState \<Rightarrow> MACEHSMState \<Rightarrow> view list \<Rightarrow> bool" where
  "inner_to k e vs \<longleftrightarrow> outer_of e = Some k \<and> (case vs of [] \<Rightarrow> True | (c, _) # _ \<Rightarrow> c \<noteq> e)"

definition guided_rank :: "view list \<Rightarrow> nat" where
  "guided_rank vs = (case vs of (STATE_FLIGHT_GUIDED, e) # inner \<Rightarrow>
     (if inner_to STATE_FLIGHT_GUIDED e inner then 2 else 0)
     + (case inner of (STATE_FLIGHT_GUIDED_SPATIALITEM, STATE_FLIGHT_GUIDED_IDLE) # _ \<Rightarrow> 3 | _ \<Rightarrow> 0)
   | _ \<Rightarrow> 0)"

fun rank :: "view list \<Rightarrow> nat" where
  "rank ((STATE_GROUNDED, e) # vs) = 14 + ground_rank vs"
| "rank ((STATE_TAKEOFF, e) # vs) = (if e = STATE_TAKEOFF then 0 else 20) + takeoff_rank vs"
| "rank ((STATE_LANDING, e) # vs) =
     (if e \<in> {STATE_GROUNDED, STATE_FLIGHT} \<or> (e \<noteq> STATE_LANDING \<and> landed vs) then 20 else 0) + landing_rank vs"
| "rank ((STATE_FLIGHT, e) # vs) =
     (if e = STATE_LANDING then 4 else if e = STATE_GROUNDED then 19
      else if inner_to STATE_FLIGHT e vs then 10 else 0) + guided_rank vs"
| "rank vs = 30"

lemma rank_bound: "rank vs \<le> 30"
  by (induction vs rule: rank.induct)
    (auto simp: ground_rank_def takeoff_rank_def landing_rank_def guided_rank_def
      split: list.split MACEHSMState.split)

section \<open>Transitions by views\<close>

text \<open>The siblings: a state that desires another one, and the state that replaces it.\<close>

definition siblings :: "(MACEHSMState \<times> MACEHSMState \<times> MACEHSMState) list" where
  "siblings =
     [(STATE_UNKNOWN, STATE_GROUNDED, STATE_GROUNDED), (STATE_UNKNOWN, STATE_TAKEOFF, STATE_TAKEOFF),
      (STATE_UNKNOWN, STATE_FLIGHT, STATE_FLIGHT), (STATE_UNKNOWN, STATE_LANDING, STATE_LANDING),
      (STATE_GROUNDED, STATE_TAKEOFF, STATE_TAKEOFF), (STATE_GROUNDED, STATE_TAKEOFF_CLIMBING, STATE_TAKEOFF),
      (STATE_GROUNDED, STATE_TAKEOFF_TRANSITIONING, STATE_TAKEOFF), (STATE_GROUNDED, STATE_FLIGHT, STATE_FLIGHT),
      (STATE_TAKEOFF, STATE_GROUNDED, STATE_GROUNDED), (STATE_TAKEOFF, STATE_FLIGHT, STATE_FLIGHT),
      (STATE_LANDING, STATE_GROUNDED, STATE_GROUNDED), (STATE_LANDING, STATE_FLIGHT, STATE_FLIGHT),
      (STATE_FLIGHT, STATE_LANDING, STATE_LANDING), (STATE_FLIGHT, STATE_GROUNDED, STATE_GROUNDED),
      (STATE_GROUNDED_IDLE, STATE_GROUNDED_ARMING, STATE_GROUNDED_ARMING),
      (STATE_GROUNDED_IDLE, STATE_GROUNDED_ARMED, STATE_GROUNDED_ARMED),
      (STATE_GROUNDED_DISARMED, STATE_GROUNDED_IDLE, STATE_GROUNDED_IDLE),
      (STATE_GROUNDED_ARMING, STATE_GROUNDED_IDLE, STATE_GROUNDED_IDLE),
      (STATE_GROUNDED_ARMING, STATE_GROUNDED_ARMED, STATE_GROUNDED_ARMED),
      (STATE_GROUNDED_ARMED, STATE_GROUNDED_DISARMING, STATE_GROUNDED_DISARMING),
      (STATE_GROUNDED_ARMED, STATE_GROUNDED_IDLE, STATE_GROUNDED_IDLE),
      (STATE_GROUNDED_DISARMING, STATE_GROUNDED_DISARMED, STATE_GROUNDED_DISARMED),
      (STATE_TAKEOFF_CLIMBING, STATE_TAKEOFF_TRANSITIONING, STATE_TAKEOFF_TRANSITIONING),
      (STATE_TAKEOFF_CLIMBING, STATE_TAKEOFF_COMPLETE, STATE_TAKEOFF_COMPLETE),
      (STATE_TAKEOFF_TRANSITIONING, STATE_TAKEOFF_COMPLETE, STATE_TAKEOFF_COMPLETE),
      (STATE_LANDING_DESCENDING, STATE_LANDING_COMPLETE, STATE_LANDING_COMPLETE),
      (STATE_FLIGHT_GUIDED_SPATIALITEM, STATE_FLIGHT_GUIDED_IDLE, STATE_FLIGHT_GUIDED_IDLE)]"

text \<open>A takeoff or a landing that is complete inside is left, unless it desires itself.\<close>

lemma sibling_cases:
  assumes "copter_GetTransition st d = Sibling k a"
  shows "(currentState (st ! d), desiredState (st ! d), k) \<in> set siblings
    \<or> (currentState (st ! d) = STATE_TAKEOFF \<and> desiredState (st ! d) \<noteq> STATE_TAKEOFF \<and> k = STATE_FLIGHT)
    \<or> (currentState (st ! d) = STATE_LANDING \<and> desiredState (st ! d) \<noteq> STATE_LANDING
        \<and> IsInInnerState STATE_LANDING_COMPLETE st d \<and> k = STATE_GROUNDED)"
  using assms
  by (cases "currentState (st ! d)")
    (auto simp: copter_GetTransition_def transition_defs Let_def siblings_def split: if_splits MACEHSMState.splits)

lemma inner_cases:
  "copter_GetTransition st d = Inner k a \<Longrightarrow> k = desiredState (st ! d)
    \<and> currentState (st ! d) \<in> {STATE_FLIGHT, STATE_FLIGHT_GUIDED}"
  "copter_GetTransition st d = InnerEntry k a \<Longrightarrow> k = desiredState (st ! d)
    \<and> currentState (st ! d) \<in> {STATE_GROUNDED, STATE_TAKEOFF, STATE_LANDING} \<and> k \<noteq> STATE_LANDING_COMPLETE"
  by (cases "currentState (st ! d)";
    auto simp: copter_GetTransition_def transition_defs Let_def split: if_splits MACEHSMState.splits)+

text \<open>The rank of a state that has replaced all others.\<close>

lemma newborn_rank:
  assumes "grown [] k vs"
  shows "k = STATE_GROUNDED \<Longrightarrow> rank vs = 18" "k = STATE_TAKEOFF \<Longrightarrow> rank vs = 3"
    "k = STATE_LANDING \<Longrightarrow> rank vs = 2" "k = STATE_FLIGHT \<Longrightarrow> rank vs \<le> 10"
  using assms
  by (auto simp: grown_def ground_rank_def takeoff_rank_def landing_rank_def guided_rank_def inner_to_def landed_def)

lemma outermost_sibling:
  assumes "(c, e, k) \<in> set siblings \<or> (c = STATE_TAKEOFF \<and> e \<noteq> STATE_TAKEOFF \<and> k = STATE_FLIGHT)
      \<or> (c = STATE_LANDING \<and> e \<noteq> STATE_LANDING \<and> landed vs \<and> k = STATE_GROUNDED)"
    "outer_of c = None" "grown [] k vs'"
  shows "rank vs' < rank ((c, e) # vs)"
  using assms(1,2) newborn_rank [OF assms(3)]
  by (auto simp: siblings_def)

lemma inner_entry:
  assumes "outer_of e = Some c" "e \<noteq> STATE_LANDING_COMPLETE" "grown [(c, e)] e vs'"
    "c \<in> {STATE_GROUNDED, STATE_TAKEOFF, STATE_LANDING}"
  shows "rank vs' < rank [(c, e)]"
  using assms
  by (cases e) (auto simp: grown_def ground_rank_def takeoff_rank_def landing_rank_def landed_def)

lemma flight_inner:
  assumes "outer_of e = Some STATE_FLIGHT" "inner_to STATE_FLIGHT e inner" "grown [(STATE_FLIGHT, e)] e vs'"
  shows "rank vs' < rank ((STATE_FLIGHT, e) # inner)"
  using assms by (cases e) (auto simp: grown_def inner_to_def guided_rank_def)

lemma guided_less:
  "guided_rank ((STATE_FLIGHT_GUIDED, e') # vs') < guided_rank ((STATE_FLIGHT_GUIDED, e1) # vs)
    \<Longrightarrow> rank ((STATE_FLIGHT, e) # (STATE_FLIGHT_GUIDED, e') # vs') < rank ((STATE_FLIGHT, e) # (STATE_FLIGHT_GUIDED, e1) # vs)"
  by (simp add: inner_to_def)

lemma guided_rank_inner:
  "inner_to STATE_FLIGHT_GUIDED e vs \<Longrightarrow> 2 \<le> guided_rank ((STATE_FLIGHT_GUIDED, e) # vs)"
  by (simp add: guided_rank_def)

lemma guided_rank_entered:
  "outer_of e = Some STATE_FLIGHT_GUIDED \<Longrightarrow> x \<in> set (entry e) \<Longrightarrow> guided_rank [(STATE_FLIGHT_GUIDED, e), (e, x)] = 0"
  by (cases e) (simp_all add: guided_rank_def inner_to_def)

lemma guided_inner:
  assumes "outer_of e1 = Some STATE_FLIGHT_GUIDED" "inner_to STATE_FLIGHT_GUIDED e1 inner"
    "grown [(STATE_FLIGHT, e), (STATE_FLIGHT_GUIDED, e1)] e1 vs'"
  shows "rank vs' < rank ((STATE_FLIGHT, e) # (STATE_FLIGHT_GUIDED, e1) # inner)"
proof -
  obtain x where "x \<in> set (entry e1)" "vs' = [(STATE_FLIGHT, e), (STATE_FLIGHT_GUIDED, e1), (e1, x)]"
    using assms(1,3) by (auto simp: grown_def)
  then show ?thesis
    using guided_rank_entered [OF assms(1)] guided_rank_inner [OF assms(2)] by (simp add: guided_less del: rank.simps)
qed

lemma child_sibling:
  assumes "(c1, e1, k) \<in> set siblings" "outer_of c1 = Some c" "outer_of c = None" "grown [(c, e)] k vs'"
  shows "rank vs' < rank ((c, e) # (c1, e1) # inner)"
  using assms
  by (auto simp: siblings_def grown_def ground_rank_def takeoff_rank_def landing_rank_def landed_def)

lemma waypoint_sibling:
  assumes "(c2, e2, k) \<in> set siblings" "outer_of c2 = Some STATE_FLIGHT_GUIDED"
    "grown [(STATE_FLIGHT, e), (STATE_FLIGHT_GUIDED, e1)] k vs'"
  shows "rank vs' < rank ((STATE_FLIGHT, e) # (STATE_FLIGHT_GUIDED, e1) # (c2, e2) # inner)"
proof -
  have c: "c2 = STATE_FLIGHT_GUIDED_SPATIALITEM" "e2 = STATE_FLIGHT_GUIDED_IDLE" "k = STATE_FLIGHT_GUIDED_IDLE"
    using assms(1,2) by (auto simp: siblings_def)
  then have "vs' = [(STATE_FLIGHT, e), (STATE_FLIGHT_GUIDED, e1), (k, k)]"
    using assms(3) by (simp add: grown_def)
  then show ?thesis using c by (auto simp: guided_rank_def inner_to_def intro!: guided_less simp del: rank.simps)
qed

section \<open>A round\<close>

lemma three_levels: "outer_of c = Some b \<Longrightarrow> outer_of b = Some a \<Longrightarrow> b = STATE_FLIGHT_GUIDED \<and> a = STATE_FLIGHT"
  by (cases c) auto

lemma path_nth:
  assumes "path_of outer_of (map currentState st)" "d < length st"
  shows "outer_of (currentState (st ! d)) = (if d = 0 then None else Some (currentState (st ! (d - 1))))"
  using assms by (auto simp: path_of_def)

lemma landing_complete_inside:
  assumes "path_of outer_of (map currentState (x # st))" "IsInInnerState STATE_LANDING_COMPLETE (x # st) 0"
  shows "landed (map (\<lambda>x. (currentState x, desiredState x)) st)"
proof -
  obtain j where j: "j < length st" "currentState (st ! j) = STATE_LANDING_COMPLETE"
    using assms(2) by (auto simp: IsInInnerState_def list_ex_iff in_set_conv_nth)
  have l: "currentState ((x # st) ! j) = STATE_LANDING"
    using path_nth [OF assms(1), of "Suc j"] j by simp
  have "j = 0" using path_nth [OF assms(1), of j] j l by (simp split: if_splits)
  then show ?thesis using j by (cases st) (simp_all add: landed_def)
qed

text \<open>The three depths at which a transition can be.\<close>

abbreviation view :: "StateObject \<Rightarrow> view" where
  "view x \<equiv> (currentState x, desiredState x)"

lemma lowers_outermost:
  assumes path: "path_of outer_of (map currentState (x # st))" and eff: "takes_effect copter_ops (x # st) 0 k a n"
    and grown: "grown (take n (map view (x # st))) k vs'"
  shows "rank vs' < rank (map view (x # st))"
proof -
  have c: "outer_of (currentState x) = None" using path_nth [OF path, of 0] by simp
  consider (s) "copter_GetTransition (x # st) 0 = Sibling k a" "n = 0"
    | (i) "copter_GetTransition (x # st) 0 = Inner k a" "n = 1" "\<not> (1 < length (x # st) \<and> currentState ((x # st) ! 1) = k)"
    | (e) "copter_GetTransition (x # st) 0 = InnerEntry k a" "n = 1" "st = []"
    using eff by (auto simp: takes_effect_def)
  then show ?thesis
  proof cases
    case s
    then show ?thesis
      using sibling_cases [OF s(1)] c grown landing_complete_inside [OF path]
      by (auto intro!: outermost_sibling)
  next
    case i
    have "currentState x = STATE_FLIGHT" "k = desiredState x" "outer_of k = Some STATE_FLIGHT"
      using inner_cases(1) [OF i(1)] inner_class [of "x # st" 0 k a] i(1) c by auto
    moreover have "inner_to STATE_FLIGHT k (map view st)"
      using calculation i(3) by (cases st) (auto simp: inner_to_def)
    ultimately show ?thesis
      using flight_inner [of "desiredState x" "map view st" vs'] i(2) grown by simp
  next
    case e
    then show ?thesis
      using inner_cases(2) [OF e(1)] inner_class [of "x # st" 0 k a] grown
      by (auto intro!: inner_entry)
  qed
qed

lemma lowers_child:
  assumes path: "path_of outer_of (map currentState (x # y # st))"
    and eff: "takes_effect copter_ops (x # y # st) 1 k a n"
    and grown: "grown (take n (map view (x # y # st))) k vs'"
  shows "rank vs' < rank (map view (x # y # st))"
proof -
  have c: "outer_of (currentState x) = None" "outer_of (currentState y) = Some (currentState x)"
    using path_nth [OF path, of 0] path_nth [OF path, of 1] by simp_all
  consider (s) "copter_GetTransition (x # y # st) 1 = Sibling k a" "n = 1"
    | (i) "copter_GetTransition (x # y # st) 1 = Inner k a" "n = 2"
        "\<not> (2 < length (x # y # st) \<and> currentState ((x # y # st) ! 2) = k)"
    | (e) "copter_GetTransition (x # y # st) 1 = InnerEntry k a"
    using eff by (auto simp: takes_effect_def numeral_2_eq_2)
  then show ?thesis
  proof cases
    case s
    then show ?thesis
      using sibling_cases [OF s(1)] c grown
      by (auto intro!: child_sibling [OF _ c(2)])
  next
    case i
    have y: "currentState y = STATE_FLIGHT_GUIDED" "k = desiredState y" "outer_of k = Some STATE_FLIGHT_GUIDED"
      using inner_cases(1) [OF i(1)] inner_class [of "x # y # st" 1 k a] i(1) c by auto
    then have "currentState x = STATE_FLIGHT" using c(2) by simp
    then show ?thesis
      using y i(2,3) grown by (auto simp: inner_to_def numeral_2_eq_2 split: list.split intro!: guided_inner simp del: rank.simps)
  next
    case e
    then show ?thesis using inner_cases(2) [OF e(1)] c by auto
  qed
qed

lemma lowers_inmost:
  assumes path: "path_of outer_of (map currentState (x # y # z # st))"
    and eff: "takes_effect copter_ops (x # y # z # st) 2 k a n"
    and grown: "grown (take n (map view (x # y # z # st))) k vs'"
  shows "rank vs' < rank (map view (x # y # z # st))"
proof -
  let ?st = "x # y # z # st"
  have "outer_of (currentState y) = Some (currentState x)" "outer_of (currentState z) = Some (currentState y)"
    using path_nth [OF path, of 1] path_nth [OF path, of 2] by (simp_all add: numeral_2_eq_2)
  then have c: "currentState x = STATE_FLIGHT" "currentState y = STATE_FLIGHT_GUIDED"
    "outer_of (currentState z) = Some STATE_FLIGHT_GUIDED"
    using three_levels [of "currentState z" "currentState y" "currentState x"] by auto
  have z: "?st ! 2 = z" by (simp add: numeral_2_eq_2)
  have inner: "copter_GetTransition ?st 2 \<noteq> Inner k a" "copter_GetTransition ?st 2 \<noteq> InnerEntry k a"
    using inner_cases [of ?st 2 k a] c z by auto
  then have s: "copter_GetTransition ?st 2 = Sibling k a" "n = 2"
    using eff by (auto simp: takes_effect_def)
  then show ?thesis
    using sibling_cases [OF s(1)] c z grown
    by (auto simp: numeral_2_eq_2 intro!: waypoint_sibling simp del: rank.simps)
qed

lemma copter_depth: "path_of outer_of (map currentState st) \<Longrightarrow> length st \<le> 3"
proof (rule ccontr)
  assume p: "path_of outer_of (map currentState st)" and "\<not> length st \<le> 3"
  then have "outer_of (currentState (st ! 1)) = Some (currentState (st ! 0))"
    "outer_of (currentState (st ! 2)) = Some (currentState (st ! 1))"
    "outer_of (currentState (st ! 3)) = Some (currentState (st ! 2))"
    using path_nth [OF p, of 1] path_nth [OF p, of 2] path_nth [OF p, of 3] by simp_all
  then show False using three_levels [of "currentState (st ! 2)" "currentState (st ! 1)"]
      three_levels [of "currentState (st ! 3)" "currentState (st ! 2)"] by simp
qed

lemma round_lowers:
  assumes path: "path_of outer_of (classes m)" and inv: "copter_inv placed m"
    and round: "ProcessStateTransitionsOnce copter_ops m = (m', Inr True)"
  shows "rank (views m') < rank (views m)"
proof -
  obtain d k a n where d: "d < length (fst m)" and eff: "takes_effect copter_ops (fst m) d k a n"
    and rep: "replace_state copter_ops n k a m = (m', Inr True)"
    by (rule once_replaces [OF round]) simp_all
  have "args_hold placed a"
    using copter.transition_args [of placed m d k a] inv d eff by (auto simp: takes_effect_def)
  moreover have "n \<le> length (fst m)" using eff d by (auto simp: takes_effect_def)
  ultimately have g: "grown (take n (map view (fst m))) k (views m')" using replace_grown [OF rep] by simp
  have "length (fst m) \<le> 3" using copter_depth [OF path] .
  then consider (a) x st where "d = 0" "fst m = x # st" | (b) x y st where "d = 1" "fst m = x # y # st"
    | (c) x y z st where "d = 2" "fst m = x # y # z # st"
    using d by (cases "fst m"; cases "tl (fst m)"; cases "tl (tl (fst m))"; cases d; cases "d - 1") auto
  then show ?thesis
  proof cases
    case (a x st)
    then show ?thesis using lowers_outermost [of x st k _ n "views m'"] path eff g unfolding a by blast
  next
    case (b x y st)
    then show ?thesis using lowers_child [of x y st k _ n "views m'"] path eff g unfolding b by blast
  next
    case (c x y z st)
    then show ?thesis using lowers_inmost [of x y z st k _ n "views m'"] path eff g unfolding c by blast
  qed
qed

section \<open>Other errors\<close>

text \<open>No function of the states fails the engine's assertion.\<close>

definition no_assertion :: "(copter, 'a) outcome \<Rightarrow> bool" where
  "no_assertion r \<longleftrightarrow> snd r \<noteq> Inl Assertion_Failed"

named_theorems quiet

lemma no_assertion_simps [simp]:
  "no_assertion (m, Inr a)"
  "no_assertion (m, Inl e) \<longleftrightarrow> e \<noteq> Assertion_Failed"
  by (simp_all add: no_assertion_def)

lemma no_assertion_obind [quiet]: "no_assertion r \<Longrightarrow> (\<And>m a. no_assertion (f m a)) \<Longrightarrow> no_assertion (obind r f)"
  by (cases r; cases "snd r") (simp_all add: no_assertion_def)

lemma quiet_base [quiet]:
  "no_assertion (run_ShutdownLambda l m)"
  "no_assertion (constructAndSendTarget n t m)"
  "no_assertion (processSpatialWaypoint d p m)"
  by (auto simp: run_ShutdownLambda_def Let_def constructAndSendTarget_def processSpatialWaypoint_def
      split: ShutdownLambda.split prod.split option.split)

lemma quiet_Shutdown_thread [quiet]: "no_assertion (Shutdown_thread i m)"
  by (auto simp: Shutdown_thread_def Let_def split: option.split intro: quiet)

lemma quiet_await [quiet]: "no_assertion (await_old_controller d i m)"
  by (auto simp: await_old_controller_def Let_def intro!: quiet)

lemma quiet_prepareModeController [quiet]: "no_assertion (prepareModeController d m)"
  by (auto simp: prepareModeController_def Let_def split: option.split prod.split intro!: quiet)

lemma quiet_root [quiet]: "no_assertion (AbstractRootState_handleCommand d c m)"
  by (auto simp: AbstractRootState_handleCommand_def split: Command.split intro!: quiet)

lemma quiet_handleCommand [quiet]:
  "no_assertion (GroundedIdle_handleCommand d c m)"
  "no_assertion (GroundedArming_handleCommand d c m)"
  "no_assertion (GroundedArmed_handleCommand d c m)"
  "no_assertion (GroundedDisarming_handleCommand d c m)"
  "no_assertion (Takeoff_handleCommand d c m)"
  "no_assertion (TakeoffClimbing_handleCommand d c m)"
  "no_assertion (TakeoffTransitioning_handleCommand d c m)"
  "no_assertion (Landing_handleCommand d c m)"
  "no_assertion (LandingTransitioning_handleCommand d c m)"
  "no_assertion (LandingDescent_handleCommand d c m)"
  "no_assertion (SpatialItem_handleCommand d c m)"
  "no_assertion (AttTarget_handleCommand d c m)"
  "no_assertion (KinematicTarget_handleCommand n d c m)"
  by (auto simp: GroundedIdle_handleCommand_def GroundedArming_handleCommand_def GroundedArmed_handleCommand_def
      GroundedDisarming_handleCommand_def Takeoff_handleCommand_def TakeoffClimbing_handleCommand_def
      TakeoffTransitioning_handleCommand_def Landing_handleCommand_def LandingTransitioning_handleCommand_def
      LandingDescent_handleCommand_def SpatialItem_handleCommand_def AttTarget_handleCommand_def
      KinematicTarget_handleCommand_def Let_def
      split: Command.split option.split DynamicTarget.split intro!: quiet)

lemma quiet_outer_handleCommand:
  assumes "\<And>m. no_assertion (inner m)"
  shows "no_assertion (Grounded_handleCommand inner d c m)"
    "no_assertion (Flight_handleCommand inner d c m)"
    "no_assertion (Guided_handleCommand inner d c m)"
  using assms
  by (auto simp: Grounded_handleCommand_def Flight_handleCommand_def Guided_handleCommand_def Guided_target_def Let_def
      split: Command.split option.split DynamicTarget.split MissionCommandAction.split intro!: quiet)

lemma quiet_copter_handleCommand [quiet]: "no_assertion (copter_handleCommand d c m)"
proof -
  have "no_assertion (handleCommand_at n d c m)" for n
  proof (induction n arbitrary: d m)
    case (Suc n)
    then show ?case
      by (cases "currentState (fst m ! d)")
        (auto simp: CarTarget_handleCommand_def GeoTarget_handleCommand_def intro!: quiet quiet_outer_handleCommand)
  qed simp
  then show ?thesis by (simp add: copter_handleCommand_def)
qed

lemma quiet_enter [quiet]:
  "(\<And>c. no_assertion (handle d c m)) \<Longrightarrow> no_assertion (enter_with_command handle args d m)"
  "(\<And>d c m. no_assertion (handle d c m)) \<Longrightarrow> no_assertion (enter_target n handle args d m)"
  "no_assertion (GroundedArmed_OnEnter args d m)"
  "no_assertion (GroundedDisarming_OnEnter args d m)"
  "no_assertion (Takeoff_OnEnter args d m)"
  "no_assertion (Landing_OnEnter args d m)"
  "no_assertion (SpatialItem_OnEnter args d m)"
  "no_assertion (Flight_OnEnter (copter_handleCommand d) args d m)"
  by (auto simp: enter_with_command_def enter_target_def GroundedArmed_OnEnter_def GroundedDisarming_OnEnter_def
      Takeoff_OnEnter_def Landing_OnEnter_def SpatialItem_OnEnter_def Flight_OnEnter_def Let_def
      split: OnEnterArgs.split option.split Command.split prod.split intro!: quiet)

lemma quiet_copter_OnEnter [quiet]: "no_assertion (copter_OnEnter args d m)"
  by (auto simp: copter_OnEnter_def CarTarget_handleCommand_def GeoTarget_handleCommand_def
      split: MACEHSMState.split intro!: quiet)

lemma quiet_PopStates [quiet]: "no_assertion (PopStates copter_ops n m)"
  by (induction n arbitrary: m) (auto simp: copter_OnExit_def exit_defs Let_def)

lemma quiet_replace [quiet]: "no_assertion (replace_state copter_ops d k a m)"
  by (auto simp: replace_state_def PopStatesToDepth_def PushState_def Let_def intro!: quiet)

lemma quiet_round:
  assumes "ProcessStateTransitionsOnce copter_ops m = (m', Inl e)"
  shows "e \<noteq> Assertion_Failed"
proof -
  obtain d k a n where "replace_state copter_ops n k a m = (m', Inl e)"
    by (rule once_replaces [OF assms]) simp_all
  then show ?thesis using quiet_replace [of n k a m] by (simp add: no_assertion_def)
qed

section \<open>Settling\<close>

interpretation copter: settling copter_ops
  "\<lambda>m. path_of outer_of (classes m) \<and> copter_inv placed m" "\<lambda>m. rank (views m)"
proof unfold_locales
  fix m m' :: copter and e
  assume m: "path_of outer_of (classes m) \<and> copter_inv placed m"
  show "ProcessStateTransitionsOnce copter_ops m = (m', Inr True)
      \<Longrightarrow> (path_of outer_of (classes m') \<and> copter_inv placed m') \<and> rank (views m') < rank (views m)"
    using m copter.once_inv [of m m' True placed] round_lowers [of m m'] by simp
  show "ProcessStateTransitionsOnce copter_ops m = (m', Inl e) \<Longrightarrow> e \<noteq> Assertion_Failed"
    by (rule quiet_round)
qed

lemma quiet_progress:
  assumes "sound placed m"
  shows "no_assertion (ProgressStateMachineStates m)"
proof -
  have loop: "no_assertion (process_loop copter_ops 0 m)" if "sound placed m" for m
  proof -
    obtain m' r where run: "process_loop copter_ops 0 m = (m', r)" by fastforce
    have "rank (views m) + 0 < 999" using rank_bound [of "views m"] by simp
    then show ?thesis using copter.loop_settles [OF _ _ run] that run
      by (simp add: sound_def no_assertion_def)
  qed
  have update: "no_assertion (UpdateStates copter_ops m)" for m
  proof -
    have "no_assertion (update_depths copter_ops ds m)" for ds
      by (induction ds arbitrary: m) (auto simp: copter_Update_def)
    then show ?thesis by (simp add: UpdateStates_def)
  qed
  have "no_assertion (ProcessStateTransitions copter_ops (STATE_UNKNOWN, No_Args) m)"
  proof (cases "fst m = []")
    case True
    obtain m1 r where push: "PushState copter_ops STATE_UNKNOWN No_Args m = (m1, r)" by fastforce
    have "no_assertion (m1, r)"
      using quiet_copter_OnEnter push by (metis PushState_def copter_ops_simps(4))
    moreover have "sound placed m1" if "r = Inr ()"
      using copter_push_inv [of placed m No_Args STATE_UNKNOWN] copter.PushState_types [OF push] push assms True
      by (simp add: sound_def path_of_def)
    ultimately show ?thesis using True push loop
      by (cases r) (simp_all add: ProcessStateTransitions_def)
  next
    case False
    then show ?thesis using loop [OF assms] by (simp add: ProcessStateTransitions_def)
  qed
  then show ?thesis unfolding ProgressStateMachineStates_def by (auto intro: no_assertion_obind update)
qed

lemma quiet_onFinished: "no_assertion (onFinished i completed code m)"
proof -
  have "no_assertion (run_FinishLambda l h i completed code m)" for l h m
    by (auto simp: run_FinishLambda_def finish_defs Let_def on_host_def on_outer_def
        split: FinishLambda.split option.split nat.split intro!: quiet)
  then have "no_assertion (run_lambdas ls i completed code m)" for ls
    by (induction ls arbitrary: m) (auto intro!: quiet)
  then show ?thesis by (simp add: onFinished_def split: option.split)
qed

lemma quiet_events [quiet]:
  "no_assertion (Receive ack code m)"
  "no_assertion (run_notifiers r ns m)"
  "no_assertion (set_vehicleMode mode m)"
  "no_assertion (transmission_fails i m)"
  "no_assertion (retransmit i m)"
proof -
  have "no_assertion (receive_each ack code is m)" for "is"
    by (induction "is" arbitrary: m)
      (auto simp: ReceiveMessage_def quiet_onFinished split: option.split intro!: quiet)
  then show "no_assertion (Receive ack code m)" by (simp add: Receive_def)
  show "no_assertion (run_notifiers r ns m)"
  proof (induction ns arbitrary: m)
    case (Cons e ns)
    then show ?case by (cases e) (simp add: on_host_def split: option.split)
  qed simp
  have "no_assertion (mode_notifiers hs m)" for hs m
  proof (induction hs arbitrary: m)
    case (Cons h hs)
    then show ?case by (simp add: on_host_def split: option.split)
  qed simp
  then show "no_assertion (set_vehicleMode mode m)" by (simp add: set_vehicleMode_def Let_def)
  show "no_assertion (transmission_fails i m)"
    by (auto simp: transmission_fails_def quiet_onFinished intro!: quiet)
  show "no_assertion (retransmit i m)" by (simp add: retransmit_def)
qed

lemma quiet_then_progress:
  assumes "no_assertion r" "frame placed m (fst r)" "sound placed m"
  shows "no_assertion (obind r (\<lambda>m u. ProgressStateMachineStates m))"
proof (cases "snd r")
  case (Inl e)
  then show ?thesis using assms(1) by (cases r) simp
next
  case (Inr a)
  then show ?thesis using quiet_progress frame_sound [OF assms(2,3)] by (cases r) simp
qed

lemma quiet_with_machine:
  assumes "with_machine f s = (s', r)" "\<And>m. s = Some m \<Longrightarrow> no_assertion (f m)"
  shows "r \<noteq> Inl Assertion_Failed"
  using assms by (auto simp: with_machine_def no_assertion_def split: option.splits prod.splits)

lemma quiet_heartbeat:
  assumes "\<And>m. s = Some m \<Longrightarrow> sound placed m"
  shows "no_assertion (VehicleHeartbeatInfo mode base rotary s)"
proof (cases mode)
  case None
  then show ?thesis by (simp add: VehicleHeartbeatInfo_def Let_def)
next
  case (Some name)
  let ?m = "case s of None \<Rightarrow> ([], Vehicle_new) | Some m \<Rightarrow> m"
  have m: "sound placed ?m" using assms sound_new by (auto split: option.split)
  obtain m1 r where set: "set_vehicleMode name ?m = (m1, r)" by fastforce
  have "sound placed m1" using frame_sound [OF frame_set_vehicleMode [of placed ?m ?m name] m] set by simp
  then have "no_assertion (ProgressStateMachineStates (update_vehicle f m1))"
    if "\<And>w. globalNotifiers (f w) = globalNotifiers w \<and> modeNotifiers (f w) = modeNotifiers w
      \<and> controllers (f w) = controllers w \<and> live (f w) = live w \<and> fresh (f w) = fresh w" for f
    using that by (intro quiet_progress sound_vehicle_same) auto
  then show ?thesis using quiet_events(3) [of name ?m] Some set
    by (cases r) (simp_all add: VehicleHeartbeatInfo_def Let_def)
qed

lemma quiet_command:
  assumes "sound placed m" "placed c"
  shows "no_assertion (module_Command c m)"
  using quiet_then_progress [OF quiet_copter_handleCommand frame_copter_handleCommand [of placed m m c 0] assms(1)]
    assms(2)
  by (simp add: module_Command_def)

lemma quiet_step:
  assumes "copter_step e s = (s', r)" "\<And>m. s = Some m \<Longrightarrow> sound placed m" "\<And>c t. e = Command_Event c t \<Longrightarrow> placed c"
  shows "r \<noteq> Inl Assertion_Failed"
proof (cases e)
  case (Heartbeat mode base rotary)
  then show ?thesis using assms(1) quiet_heartbeat [of s mode base rotary, OF assms(2)]
    by (auto simp: copter_step_def no_assertion_def split: prod.splits)
next
  case (Command_Event c t)
  have "sound placed (update_vehicle (\<lambda>w. w\<lparr>schedule := t\<rparr>) m)" if "s = Some m" for m
    using assms(2) [OF that] by (rule sound_vehicle_same) simp
  then show ?thesis using assms(1,3) Command_Event
    by (auto simp: copter_step_def split: if_splits dest!: quiet_with_machine intro!: quiet_command)
next
  case (Ack_Event ack code)
  then have "with_machine (\<lambda>m. obind (Receive ack code m) (\<lambda>m u. ProgressStateMachineStates m)) s = (s', r)"
    using assms(1) by (simp add: copter_step_def)
  then show ?thesis
    by (rule quiet_with_machine) (rule quiet_then_progress [OF quiet_events(1) frame_Receive [OF frame_refl] assms(2)])
next
  case (Global_Position q)
  then have "with_machine (\<lambda>m. obind (run_notifiers q (globalNotifiers (snd m)) m)
      (\<lambda>m u. ProgressStateMachineStates m)) s = (s', r)"
    using assms(1) by (simp add: copter_step_def)
  then show ?thesis
    by (rule quiet_with_machine) (rule quiet_then_progress [OF quiet_events(2) frame_run_notifiers [OF frame_refl] assms(2)])
next
  case (Local_Position q)
  then have "with_machine (\<lambda>m. obind (run_notifiers q (localNotifiers (snd m)) m)
      (\<lambda>m u. ProgressStateMachineStates m)) s = (s', r)"
    using assms(1) by (simp add: copter_step_def)
  then show ?thesis
    by (rule quiet_with_machine) (rule quiet_then_progress [OF quiet_events(2) frame_run_notifiers [OF frame_refl] assms(2)])
next
  case Other_Message
  then have "with_machine ProgressStateMachineStates s = (s', r)" using assms(1) by (simp add: copter_step_def)
  then show ?thesis by (rule quiet_with_machine) (rule quiet_progress [OF assms(2)])
next
  case (Transmission_Fails i)
  then have "with_machine (transmission_fails i) s = (s', r)" using assms(1) by (simp add: copter_step_def)
  then show ?thesis by (rule quiet_with_machine) (rule quiet)
next
  case (Retransmission i)
  then have "with_machine (retransmit i) s = (s', r)" using assms(1) by (simp add: copter_step_def)
  then show ?thesis by (rule quiet_with_machine) (rule quiet)
next
  case (Shutdown_Runs i)
  then have "with_machine (\<lambda>m. if i \<in> set (shutdowns (snd m)) then Shutdown_thread i m else (m, Inr ())) s = (s', r)"
    using assms(1) by (simp add: copter_step_def)
  then show ?thesis by (rule quiet_with_machine) (simp add: quiet)
qed

lemma quiet_run:
  "copter_run es s = (s', r) \<Longrightarrow> commands_in placed es \<Longrightarrow> (\<And>m. s = Some m \<Longrightarrow> sound placed m)
    \<Longrightarrow> r \<noteq> Inl Assertion_Failed"
proof (induction es arbitrary: s)
  case (Cons e es)
  obtain s1 q where step: "copter_step e s = (s1, q)" by fastforce
  have q: "q \<noteq> Inl Assertion_Failed" using quiet_step [OF step] Cons.prems by simp
  show ?case
  proof (cases q)
    case (Inl x)
    then show ?thesis using Cons.prems(1) step q by simp
  next
    case (Inr u)
    then have "sound placed m1" if "s1 = Some m1" for m1
      using sound_step [of e s m1 placed] step that Cons.prems by simp
    then show ?thesis using Cons.IH [of s1] Cons.prems(1,2) step Inr by simp
  qed
qed auto

section \<open>Properties\<close>

text \<open>
  C4: The state machine settles after every event: whatever happens to a vehicle that is only sent to places whose
  coordinate system is known, the transitions of the flight states end before the assertion on the
  number of rounds.
\<close>

lemma copter_always_settles:
  assumes "copter_run es None = (s, r)" "commands_in placed es"
  shows "r \<noteq> Inl Assertion_Failed"
  using quiet_run [OF assms] by simp

lemma copter_always_settles_witness:
  "commands_in placed guided_history \<and> snd (copter_run guided_history None) \<noteq> Inl Assertion_Failed"
proof -
  have c: "commands_in placed guided_history"
    by (simp add: guided_history_def takeoff_history_def takeoff_place_def)
  show ?thesis using copter_always_settles [OF prod.collapse [symmetric] c] c by simp
qed

end
