(* ===== verification/Copter_Properties.thy ===== *)
theory Copter_Properties
  imports Copter_Settling
begin

text \<open>
  What the flight states of a copter do in particular situations: a waypoint whose coordinate system is not
  known, and a landing at a place.
\<close>

section \<open>Waypoints\<close>

text \<open>A waypoint whose coordinate system is not known: guided flight goes between its inner states for ever.\<close>

definition unplaced :: "Command \<Rightarrow> bool" where
  "unplaced c \<longleftrightarrow> (\<exists>p. c = Action_ExecuteSpatialItem (Some (True, Some p)) \<and> coordinateSystem p \<notin> {GEODETIC, CARTESIAN})"

definition spinning :: "copter \<Rightarrow> bool" where
  "spinning m \<longleftrightarrow> (\<exists>x y z w c. m = ([x, y, z], w) \<and> view x = (STATE_FLIGHT, STATE_FLIGHT_GUIDED)
     \<and> view y = (STATE_FLIGHT_GUIDED, STATE_FLIGHT_GUIDED_SPATIALITEM) \<and> currentCommand y = Some c \<and> unplaced c
     \<and> (currentState z = STATE_FLIGHT_GUIDED_IDLE
        \<or> view z = (STATE_FLIGHT_GUIDED_SPATIALITEM, STATE_FLIGHT_GUIDED_IDLE)))"

lemma fst_remove_own [simp]: "fst (remove_own_controller n m) = fst m"
  by (simp add: remove_own_controller_def split: prod.split)

lemma spin_round:
  assumes "spinning m"
  shows "\<exists>m'. ProcessStateTransitionsOnce copter_ops m = (m', Inr True) \<and> spinning m'"
proof -
  obtain x y z w p where m: "m = ([x, y, z], w)" and x: "currentState x = STATE_FLIGHT" "desiredState x = STATE_FLIGHT_GUIDED"
    and y: "currentState y = STATE_FLIGHT_GUIDED" "desiredState y = STATE_FLIGHT_GUIDED_SPATIALITEM"
      "currentCommand y = Some (Action_ExecuteSpatialItem (Some (True, Some p)))"
    and p: "coordinateSystem p \<notin> {GEODETIC, CARTESIAN}"
    and z: "currentState z = STATE_FLIGHT_GUIDED_IDLE
        \<or> view z = (STATE_FLIGHT_GUIDED_SPATIALITEM, STATE_FLIGHT_GUIDED_IDLE)"
    using assms by (auto simp: spinning_def unplaced_def)
  have ds: "[0..<length (fst m)] = [0, 1, 2]" by (simp add: m upt_rec)
  have keep: "unplaced (Action_ExecuteSpatialItem (Some (True, Some p)))" using p by (simp add: unplaced_def)
  show ?thesis
    using z
  proof
    assume "currentState z = STATE_FLIGHT_GUIDED_IDLE"
    then show ?thesis using x y p keep
      by (auto simp: ProcessStateTransitionsOnce_def ds m copter_GetTransition_def Flight_GetTransition_def
          Guided_GetTransition_def replace_state_def PopStatesToDepth_def copter_OnExit_def exit_defs PushState_def Let_def
          AllocateState_copter_def copter_OnEnter_def SpatialItem_OnEnter_def SpatialItem_handleCommand_def
          processSpatialWaypoint_def update_state_def setCurrentCommand_def setDesiredStateEnum_def spinning_def
          numeral_2_eq_2 split: prod.split)
  next
    assume "view z = (STATE_FLIGHT_GUIDED_SPATIALITEM, STATE_FLIGHT_GUIDED_IDLE)"
    then show ?thesis using x y p keep
      by (auto simp: ProcessStateTransitionsOnce_def ds m copter_GetTransition_def Flight_GetTransition_def
          Guided_GetTransition_def SpatialItem_GetTransition_def replace_state_def PopStatesToDepth_def
          copter_OnExit_def exit_defs PushState_def Let_def AllocateState_copter_def copter_OnEnter_def
          AbstractStateArdupilot_OnExit_def remove_global_notifier_def clearCommand_def update_state_def
          update_vehicle_def spinning_def numeral_2_eq_2)
  qed
qed

lemma spin_loop: "spinning m \<Longrightarrow> snd (process_loop copter_ops n m) = Inl Assertion_Failed"
proof (induction "1000 - n" arbitrary: n m rule: less_induct)
  case less
  obtain m' where "ProcessStateTransitionsOnce copter_ops m = (m', Inr True)" "spinning m'"
    using spin_round [OF less.prems] by blast
  then show ?case
    using less.hyps [of "n + 1" m'] by (simp add: process_loop.simps [of copter_ops n m])
qed



section \<open>Landing\<close>

text \<open>A vehicle on its way to the place where it is to land, in the air.\<close>

definition approaching :: "copter \<Rightarrow> bool" where
  "approaching m \<longleftrightarrow> classes m = [STATE_LANDING, STATE_LANDING_TRANSITIONING]
     \<and> desiredState (fst m ! 0) = STATE_LANDING_TRANSITIONING \<and> getSystemArm (snd m)"

lemma run_Notifier_same:
  "snd (run_Notifier r n d m) = snd m"
  "j \<noteq> d \<Longrightarrow> fst (run_Notifier r n d m) ! j = fst m ! j"
  by (auto simp: run_Notifier_def notified_defs when_achieved_def progress_to_def update_state_def setDesiredStateEnum_def
      clearCommand_def Let_def split: Notifier.split)

lemma approaching_notifiers:
  assumes "sound Q m" "approaching m" "\<forall>(h, n) \<in> set ns. \<exists>k. (h, k) \<in> set (places (fst m)) \<and> follows_position k"
    "run_notifiers r ns m = (m', q)"
  shows "approaching m'"
  using assms
proof (induction ns arbitrary: m)
  case (Cons e ns)
  obtain h n k where e: "e = (h, n)" "(h, k) \<in> set (places (fst m))" "follows_position k"
    using Cons.prems(3) by (cases e) auto
  obtain d where d: "depth_of h (fst m) = Some d" "d < length (fst m)" "currentState (fst m ! d) = k"
    using depth_of_place [OF e(2) sound_places [OF Cons.prems(1)]] .
  have "currentState (fst m ! 0) = STATE_LANDING"
    using Cons.prems(2) by (auto simp: approaching_def map_eq_Cons_conv)
  then have "d \<noteq> 0" using d(3) e(3) by (intro notI) (simp add: follows_position_def)
  let ?m = "run_Notifier r n d m"
  have f: "frame Q m ?m" by (simp add: frame_run_Notifier)
  have "approaching ?m"
    using Cons.prems(2) run_Notifier_same(1) [of r n d m] run_Notifier_same(2) [of 0 d r n m] \<open>d \<noteq> 0\<close> frame_classes [OF f]
    by (simp add: approaching_def)
  moreover have "run_notifiers r ns ?m = (m', q)" using Cons.prems(4) d(1) e(1) by (simp add: on_host_def)
  ultimately show ?case
    using Cons.IH [of ?m] frame_sound [OF f Cons.prems(1)] Cons.prems(3) f by (simp add: frame_def)
qed simp

lemma approaching_progress:
  assumes "approaching m"
  shows "\<exists>m'. ProgressStateMachineStates m = (m', Inr ()) \<and> approaching m'"
proof -
  obtain x y w where m: "m = ([x, y], w)" and k: "currentState x = STATE_LANDING"
    "currentState y = STATE_LANDING_TRANSITIONING" "desiredState x = STATE_LANDING_TRANSITIONING" "getSystemArm w"
    using assms by (cases m) (auto simp: approaching_def map_eq_Cons_conv)
  have ds: "[0..<length (fst m)] = [0, 1]" by (simp add: m upt_rec)
  have "ProcessStateTransitionsOnce copter_ops m = (m, Inr False)"
    using k by (simp add: ProcessStateTransitionsOnce_def ds) (simp add: m copter_GetTransition_def
        Landing_GetTransition_def IsInInnerState_def)
  then have "ProcessStateTransitions copter_ops (STATE_UNKNOWN, No_Args) m = (m, Inr ())"
    by (simp add: ProcessStateTransitions_def process_loop.simps [of copter_ops 0 m]) (simp add: m)
  moreover have "approaching (fst (UpdateStates copter_ops m)) \<and> snd (UpdateStates copter_ops m) = Inr ()"
    using k by (simp add: UpdateStates_def ds) (simp add: m copter_Update_def Landing_Update_def
        setDesiredStateEnum_def update_state_def approaching_def)
  ultimately show ?thesis
    by (cases "UpdateStates copter_ops m") (simp add: ProgressStateMachineStates_def)
qed

text \<open>
  C30: A vehicle that is to land at a place never descends: once it is on its way, no report of its position, however
  close, takes it any further, because the state that transits desires the descent and has no transition
  to it.
\<close>

lemma landing_at_place_never_descends:
  assumes "copter_run es None = (Some m, Inr ())" "approaching m"
  shows "\<exists>m'. copter_run (map Global_Position rs) (Some m) = (Some m', Inr ())
    \<and> map currentState (fst m') = [STATE_LANDING, STATE_LANDING_TRANSITIONING]"
proof -
  have stays: "\<exists>m'. copter_run (map Global_Position rs) (Some m) = (Some m', Inr ()) \<and> approaching m'"
    if "sound any_command m" "approaching m" for m
    using that
  proof (induction rs arbitrary: m)
    case (Cons r rs)
    let ?ns = "globalNotifiers (snd m)"
    obtain m1 where m1: "run_notifiers r ?ns m = (m1, Inr ())"
      using global_notifiers_ok [OF Cons.prems(1), of r] by (metis prod.collapse)
    have "\<forall>(h, n) \<in> set ?ns. \<exists>k. (h, k) \<in> set (places (fst m)) \<and> follows_position k"
      using Cons.prems(1) by (simp add: sound_def copter_inv_def vehicle_ok_def notifiers_ok_def)
    then have "approaching m1" using approaching_notifiers [OF Cons.prems] m1 by blast
    then obtain m2 where m2: "ProgressStateMachineStates m1 = (m2, Inr ())" "approaching m2"
      using approaching_progress by blast
    have step: "copter_step (Global_Position r) (Some m) = (Some m2, Inr ())"
      by (simp add: copter_step_def with_machine_def m1 m2)
    have "sound any_command m2" using sound_step [OF step, of any_command] Cons.prems(1) by simp
    then show ?case using Cons.IH [OF _ m2(2)] step by simp
  qed simp
  obtain m' where m': "copter_run (map Global_Position rs) (Some m) = (Some m', Inr ())" "approaching m'"
    by (rule exE [OF stays [OF sound_history [OF assms(1)] assms(2)]]) (erule conjE)
  from m'(2) have "classes m' = [STATE_LANDING, STATE_LANDING_TRANSITIONING]" by (simp add: approaching_def)
  with m'(1) show ?thesis by (intro exI [of _ m'] conjI)
qed

text \<open>A history in which a flying vehicle is told to land at a place, and has accepted the mode for it.\<close>

definition landing_place :: Position where
  "landing_place = \<lparr>coordinateSystem = GEODETIC, is3D = True, areTranslationalComponentsValid = True,
     targetAltitude = Some (Fin 20)\<rparr>"

definition landing_history :: "Event list" where
  "landing_history =
     [Heartbeat (Some ''GUIDED'') 128 True, Heartbeat (Some ''GUIDED'') 128 True, Heartbeat (Some ''GUIDED'') 128 True,
      Command_Event (SpatialLand (Some landing_place)) Thread_Later, Ack_Event Ack_SET_MODE 0]"

lemma landing_at_place_never_descends_witness:
  "\<exists>m m'. copter_run landing_history None = (Some m, Inr ()) \<and> globalNotifiers (snd m) \<noteq> []
     \<and> copter_run (map Global_Position [altitude_report 20, altitude_report 5]) (Some m) = (Some m', Inr ())
     \<and> map currentState (fst m') = [STATE_LANDING, STATE_LANDING_TRANSITIONING]"
proof -
  have "map_prod (map_option (\<lambda>m. (map currentState (fst m), desiredState (fst m ! 0), getSystemArm (snd m),
        globalNotifiers (snd m) = []))) id (copter_run landing_history None)
    = (Some ([STATE_LANDING, STATE_LANDING_TRANSITIONING], STATE_LANDING_TRANSITIONING, True, False), Inr ())"
    by code_simp
  then obtain m where m: "copter_run landing_history None = (Some m, Inr ())" "approaching m"
    "globalNotifiers (snd m) \<noteq> []"
    by (cases "copter_run landing_history None") (auto simp: approaching_def)
  obtain m' where "copter_run (map Global_Position [altitude_report 20, altitude_report 5]) (Some m) = (Some m', Inr ())"
    "map currentState (fst m') = [STATE_LANDING, STATE_LANDING_TRANSITIONING]"
    by (rule exE [OF landing_at_place_never_descends [OF m(1,2)]]) (erule conjE)
  with m(1,3) show ?thesis by (intro exI conjI)
qed

end
