(* ===== verification/Generic_Controller.thy ===== *)
theory Generic_Controller
  imports Transmit_Queue
begin

text \<open>
  The controllers that exchange messages until they are answered (\<open>src/src/controllers/generic_controller.h\<close>)
  and the actions they are put together from (\<open>src/src/controllers/actions\<close>), over the retransmission queue
  of \<open>Transmit_Queue\<close>.

  The types: \<open>'c\<close> the components that communicate, \<open>'k\<close> the objects that identify a transmission, \<open>'i\<close> the
  numbers of messages, \<open>'m\<close> the messages. The queue keeps transmissions under pairs of an object and
  the number of the message that ends them (\<open>ObjectIntTuple\<close>). What \<open>TransmitMessage\<close> is called with is
  logged in \<open>transmitted\<close>, the calls of \<open>onFinished\<close> in \<open>finishes\<close>. Methods that the actions leave to the
  concrete controller are arguments; they return \<open>None\<close> where the method returns false.
\<close>

section \<open>The controller\<close>

record ('c, 'k, 'i, 'm) GenericController =
  transmitQueue :: "('c, 'k \<times> 'i) KeyedQueue"
  transmitActions :: "(int, 'm \<times> 'c) umap"   \<comment> \<open>message and sender of each entry\<close>
  controllerActive :: bool
  monitorActive :: bool
  transmitted :: "('m \<times> 'c \<times> 'c) list"      \<comment> \<open>message, sender, target\<close>
  finishes :: "(bool \<times> u8) list"

definition onFinished :: "bool \<Rightarrow> u8 \<Rightarrow> ('c, 'k, 'i, 'm, 'z) GenericController_scheme
    \<Rightarrow> ('c, 'k, 'i, 'm, 'z) GenericController_scheme" where
  "onFinished completed finishCode c = c\<lparr>finishes := finishes c @ [(completed, finishCode)]\<rparr>"

definition EncodeMessage :: "'m \<Rightarrow> 'c \<Rightarrow> 'c \<Rightarrow> ('c, 'k, 'i, 'm, 'z) GenericController_scheme
    \<Rightarrow> ('c, 'k, 'i, 'm, 'z) GenericController_scheme" where
  "EncodeMessage m sender target c = c\<lparr>transmitted := transmitted c @ [(m, sender, target)]\<rparr>"

text \<open>
  \<open>QueueTransmission\<close> for one object and the numbers of the messages that end the transmission: when one of
  these pairs is queued already the queue is left as it is, with the action it has.
\<close>

definition queue_message ::
  "'k \<Rightarrow> 'i list \<Rightarrow> 'c \<Rightarrow> int list \<Rightarrow> 'm \<times> 'c \<Rightarrow> ('c, 'k, 'i, 'm, 'z) GenericController_scheme
     \<Rightarrow> (('c, 'k, 'i, 'm, 'z) GenericController_scheme, unit) outcome" where
  "queue_message key messagesID target draws action c =
     (let keys = map (Pair key) messagesID;
          c = c\<lparr>controllerActive := True\<rparr>
      in if list_ex (\<lambda>k. map_of (m_ActiveTransmissions (transmitQueue c)) k \<noteq> None) keys then (c, Inr ())
         else case QueueTransmission keys [target] draws (transmitQueue c) of
                None \<Rightarrow> (c, Inl Blocked)
              | Some (q, r) \<Rightarrow>
                  (c\<lparr>transmitQueue := q,
                     transmitActions := um_put (the (map_of (m_ActiveTransmissions q) (hd keys))) action
                                          (transmitActions c)\<rparr>, r))"

declare RemoveTransmission.simps [code]

definition RemoveTransmission_received ::
  "'k \<Rightarrow> 'i \<Rightarrow> 'c \<Rightarrow> ('c, 'k, 'i, 'm, 'z) GenericController_scheme
     \<Rightarrow> (('c, 'k, 'i, 'm, 'z) GenericController_scheme, unit) outcome" where
  "RemoveTransmission_received key messageID receivedFrom c =
     (let c = c\<lparr>controllerActive := False\<rparr>
      in case RemoveTransmission (key, messageID) (Some receivedFrom) (transmitQueue c) of
           None \<Rightarrow> (c, Inl Blocked)
         | Some q \<Rightarrow> (c\<lparr>transmitQueue := q\<rparr>, Inr ()))"

text \<open>The thread of \<open>ClearTransmissions\<close>.\<close>

definition ClearTransmissions :: "('c, 'k, 'i, 'm, 'z) GenericController_scheme
    \<Rightarrow> ('c, 'k, 'i, 'm, 'z) GenericController_scheme" where
  "ClearTransmissions c = c\<lparr>transmitQueue := RemoveAllTransmissions (transmitQueue c)\<rparr>"

text \<open>
  The transmissions that the queue asks for: the action of an entry sends its message to the only target.
\<close>

fun transmit_each :: "(int \<times> 'c list) list \<Rightarrow> ('c, 'k, 'i, 'm, 'z) GenericController_scheme
    \<Rightarrow> (('c, 'k, 'i, 'm, 'z) GenericController_scheme, unit) outcome" where
  "transmit_each [] c = (c, Inr ())"
| "transmit_each ((num, targets) # sends) c =
     (case (targets, map_of (transmitActions c) num) of
        ([target], Some (m, sender)) \<Rightarrow> transmit_each sends (EncodeMessage m sender target c)
      | ([target], None) \<Rightarrow> (c, Inl Undefined_Behaviour)
      | _ \<Rightarrow> (c, Inl (Runtime_Error ''Queued transmission with one target, but received multiple to send out'')))"

text \<open>The loop of the queue at one entry; a transmission that failed calls \<open>onFinished(false)\<close>.\<close>

definition attempt_entry :: "int \<Rightarrow> int \<Rightarrow> ('c, 'k, 'i, 'm, 'z) GenericController_scheme
    \<Rightarrow> (('c, 'k, 'i, 'm, 'z) GenericController_scheme, unit) outcome" where
  "attempt_entry now num c =
     (let (q, r) = attempt now num (transmitQueue c);
          sends = drop (length (sent (transmitQueue c))) (sent q);
          failed = drop (length (failures (transmitQueue c))) (failures q)
      in obind (transmit_each sends (fold (\<lambda>n. onFinished False 0) failed (c\<lparr>transmitQueue := q\<rparr>)))
           (\<lambda>c u. (c, r)))"

definition reap_entry :: "int \<Rightarrow> ('c, 'k, 'i, 'm, 'z) GenericController_scheme
    \<Rightarrow> ('c, 'k, 'i, 'm, 'z) GenericController_scheme" where
  "reap_entry num c = c\<lparr>transmitQueue := reap num (transmitQueue c)\<rparr>"

text \<open>
  \<open>ReceiveMessage\<close>: the behaviours, in the order they were added, until one uses the message. A behaviour
  here also looks at the number of the message and leaves other messages unused.
\<close>

fun first_use :: "('m \<Rightarrow> 'c \<Rightarrow> 's \<Rightarrow> ('s, bool) outcome) list \<Rightarrow> 'm \<Rightarrow> 'c \<Rightarrow> 's \<Rightarrow> ('s, bool) outcome" where
  "first_use [] m sender c = (c, Inr False)"
| "first_use (b # bs) m sender c =
     obind (b m sender c) (\<lambda>c used. if used then (c, Inr True) else first_use bs m sender c)"

definition ReceiveMessage ::
  "('m \<Rightarrow> 'c \<Rightarrow> ('c, 'k, 'i, 'm, 'z) GenericController_scheme
     \<Rightarrow> (('c, 'k, 'i, 'm, 'z) GenericController_scheme, bool) outcome) list
   \<Rightarrow> 'm \<Rightarrow> 'c \<Rightarrow> ('c, 'k, 'i, 'm, 'z) GenericController_scheme
   \<Rightarrow> (('c, 'k, 'i, 'm, 'z) GenericController_scheme, bool) outcome" where
  "ReceiveMessage m_MessageBehaviors message sender c =
     (if monitorActive c \<and> \<not> controllerActive c then (c, Inr False)
      else first_use m_MessageBehaviors message sender c)"

section \<open>Actions\<close>

text \<open>\<open>ActionSend::Send\<close> and \<open>ActionRequest::Request\<close>, whose method always succeeds.\<close>

definition ActionSend_Send ::
  "('d \<Rightarrow> 'c \<Rightarrow> 'c \<Rightarrow> ('c, 'k, 'i, 'm, 'z) GenericController_scheme
      \<Rightarrow> (('c, 'k, 'i, 'm, 'z) GenericController_scheme, ('m \<times> 'k) option) outcome)
   \<Rightarrow> 'i \<Rightarrow> int list \<Rightarrow> 'd \<Rightarrow> 'c \<Rightarrow> 'c \<Rightarrow> ('c, 'k, 'i, 'm, 'z) GenericController_scheme
   \<Rightarrow> (('c, 'k, 'i, 'm, 'z) GenericController_scheme, unit) outcome" where
  "ActionSend_Send Construct_Send MESSAGE_ACK_ID draws data sender target c =
     obind (Construct_Send data sender target c) (\<lambda>c r. case r of
       None \<Rightarrow> (c, Inr ())
     | Some (cmd, queueObj) \<Rightarrow> queue_message queueObj [MESSAGE_ACK_ID] target draws (cmd, sender) c)"

definition ActionRequest_Request ::
  "('c \<Rightarrow> 'c \<Rightarrow> ('c, 'k, 'i, 'm, 'z) GenericController_scheme
      \<Rightarrow> (('c, 'k, 'i, 'm, 'z) GenericController_scheme, 'm \<times> 'k) outcome)
   \<Rightarrow> 'i list \<Rightarrow> int list \<Rightarrow> 'c \<Rightarrow> 'c \<Rightarrow> ('c, 'k, 'i, 'm, 'z) GenericController_scheme
   \<Rightarrow> (('c, 'k, 'i, 'm, 'z) GenericController_scheme, unit) outcome" where
  "ActionRequest_Request Request_Construct expectedResponses draws sender target c =
     obind (Request_Construct sender target c) (\<lambda>c (cmd, queueObj).
       queue_message queueObj expectedResponses target draws (cmd, sender) c)"

text \<open>\<open>NextTransmission\<close> of \<open>ActionIntermediateRespond\<close>.\<close>

definition NextTransmission ::
  "'i list \<Rightarrow> int list \<Rightarrow> 'm \<Rightarrow> 'c \<Rightarrow> 'k \<Rightarrow> 'c \<Rightarrow> ('c, 'k, 'i, 'm, 'z) GenericController_scheme
   \<Rightarrow> (('c, 'k, 'i, 'm, 'z) GenericController_scheme, unit) outcome" where
  "NextTransmission expectedResponses draws cmd sender queueObj target c =
     queue_message queueObj expectedResponses target draws (cmd, sender) c"

text \<open>
  \<open>ActionIntermediateReceive\<close>: \<open>BuildData_Send\<close> gives the answer, the component that answers, and the
  objects of the transmission that has ended and of the next.
\<close>

definition ActionIntermediateReceive ::
  "('m \<Rightarrow> 'c \<Rightarrow> ('c, 'k, 'i, 'm, 'z) GenericController_scheme
      \<Rightarrow> (('c, 'k, 'i, 'm, 'z) GenericController_scheme, ('m \<times> 'c \<times> 'k \<times> 'k) option) outcome)
   \<Rightarrow> 'i \<Rightarrow> ('m \<Rightarrow> 'c \<Rightarrow> 'k \<Rightarrow> 'c \<Rightarrow> ('c, 'k, 'i, 'm, 'z) GenericController_scheme
      \<Rightarrow> (('c, 'k, 'i, 'm, 'z) GenericController_scheme, unit) outcome)
   \<Rightarrow> 'm \<Rightarrow> 'c \<Rightarrow> ('c, 'k, 'i, 'm, 'z) GenericController_scheme
   \<Rightarrow> (('c, 'k, 'i, 'm, 'z) GenericController_scheme, bool) outcome" where
  "ActionIntermediateReceive BuildData_Send MESSAGE_REQUEST_ID nextStep msg sender c =
     obind (BuildData_Send msg sender c) (\<lambda>c r. case r of
       None \<Rightarrow> (c, Inr False)
     | Some (ack, vehicleFrom, receiveQueueObj, respondQueueObj) \<Rightarrow>
         obind (RemoveTransmission_received receiveQueueObj MESSAGE_REQUEST_ID sender c) (\<lambda>c u.
         obind (nextStep ack vehicleFrom respondQueueObj sender c) (\<lambda>c u. (c, Inr True))))"

text \<open>\<open>ActionFinalReceiveRespond\<close>; \<open>onDataReceived\<close> takes the final object, \<open>FinalResponse\<close> sends the answer.\<close>

definition FinalResponse :: "'m \<Rightarrow> 'c \<Rightarrow> 'c \<Rightarrow> ('c, 'k, 'i, 'm, 'z) GenericController_scheme
    \<Rightarrow> ('c, 'k, 'i, 'm, 'z) GenericController_scheme" where
  "FinalResponse cmd sender target c = EncodeMessage cmd sender target c"

definition ActionFinalReceiveRespond ::
  "('m \<Rightarrow> 'c \<Rightarrow> ('c, 'k, 'i, 'm, 'z) GenericController_scheme
      \<Rightarrow> (('c, 'k, 'i, 'm, 'z) GenericController_scheme, ('m \<times> 'd \<times> 'c \<times> 'k) option) outcome)
   \<Rightarrow> ('d \<Rightarrow> ('c, 'k, 'i, 'm, 'z) GenericController_scheme \<Rightarrow> ('c, 'k, 'i, 'm, 'z) GenericController_scheme)
   \<Rightarrow> 'i \<Rightarrow> 'm \<Rightarrow> 'c \<Rightarrow> ('c, 'k, 'i, 'm, 'z) GenericController_scheme
   \<Rightarrow> (('c, 'k, 'i, 'm, 'z) GenericController_scheme, bool) outcome" where
  "ActionFinalReceiveRespond Construct_FinalObjectAndResponse onDataReceived MESSAGE_REQUEST_ID msg sender c =
     obind (Construct_FinalObjectAndResponse msg sender c) (\<lambda>c r. case r of
       None \<Rightarrow> (c, Inr False)
     | Some (ack, finalObj, moduleFor, queueObj) \<Rightarrow>
         obind (RemoveTransmission_received queueObj MESSAGE_REQUEST_ID sender c) (\<lambda>c u.
           (FinalResponse ack moduleFor sender (onDataReceived finalObj c), Inr True)))"

definition ActionFinish ::
  "('m \<Rightarrow> 'c \<Rightarrow> ('c, 'k, 'i, 'm, 'z) GenericController_scheme
      \<Rightarrow> (('c, 'k, 'i, 'm, 'z) GenericController_scheme, (u8 \<times> 'k) option) outcome)
   \<Rightarrow> 'i \<Rightarrow> 'm \<Rightarrow> 'c \<Rightarrow> ('c, 'k, 'i, 'm, 'z) GenericController_scheme
   \<Rightarrow> (('c, 'k, 'i, 'm, 'z) GenericController_scheme, bool) outcome" where
  "ActionFinish Finish_Receive MESSAGE_REQUEST_ID msg sender c =
     obind (Finish_Receive msg sender c) (\<lambda>c r. case r of
       None \<Rightarrow> (c, Inr False)
     | Some (code, queueObj) \<Rightarrow>
         obind (RemoveTransmission_received queueObj MESSAGE_REQUEST_ID sender (onFinished True code c))
           (\<lambda>c u. (c, Inr True)))"

text \<open>\<open>ActionUnsolicitedReceiveRespond\<close>, which ends no transmission.\<close>

definition ActionUnsolicitedReceiveRespond ::
  "('m \<Rightarrow> 'c \<Rightarrow> ('c, 'k, 'i, 'm, 'z) GenericController_scheme
      \<Rightarrow> (('c, 'k, 'i, 'm, 'z) GenericController_scheme, ('m \<times> 'c \<times> 'd) option) outcome)
   \<Rightarrow> ('d \<Rightarrow> ('c, 'k, 'i, 'm, 'z) GenericController_scheme \<Rightarrow> ('c, 'k, 'i, 'm, 'z) GenericController_scheme)
   \<Rightarrow> 'm \<Rightarrow> 'c \<Rightarrow> ('c, 'k, 'i, 'm, 'z) GenericController_scheme
   \<Rightarrow> (('c, 'k, 'i, 'm, 'z) GenericController_scheme, bool) outcome" where
  "ActionUnsolicitedReceiveRespond Construct_FinalObjectAndResponse onDataReceived msg sender c =
     obind (Construct_FinalObjectAndResponse msg sender c) (\<lambda>c r. case r of
       None \<Rightarrow> (c, Inr False)
     | Some (ack, componentResponding, finalObj) \<Rightarrow>
         (EncodeMessage ack componentResponding sender (onDataReceived finalObj c), Inr True))"

section \<open>What a controller says\<close>

text \<open>The messages it has transmitted or may transmit.\<close>

definition spoken :: "('c, 'k, 'i, 'm, 'z) GenericController_scheme \<Rightarrow> 'm set" where
  "spoken c = fst ` set (transmitted c) \<union> fst ` snd ` set (transmitActions c)"

lemma spoken_EncodeMessage [simp]: "spoken (EncodeMessage m sender target c) = insert m (spoken c)"
  by (simp add: spoken_def EncodeMessage_def)

lemma spoken_finished [simp]: "spoken (onFinished b code c) = spoken c"
  by (simp add: spoken_def onFinished_def)

lemma spoken_queue: "spoken (fst (queue_message key ids target draws (m, sender) c)) \<subseteq> insert m (spoken c)"
  by (auto simp: spoken_def queue_message_def Let_def split: option.split dest!: subsetD [OF set_um_put])

lemma spoken_remove [simp]: "spoken (fst (RemoveTransmission_received key i from c)) = spoken c"
  by (simp add: spoken_def RemoveTransmission_received_def Let_def split: option.split)

lemma spoken_clear [simp]: "spoken (ClearTransmissions c) = spoken c"
  by (simp add: spoken_def ClearTransmissions_def)

lemma spoken_reap [simp]: "spoken (reap_entry n c) = spoken c"
  by (simp add: spoken_def reap_entry_def)

lemma spoken_transmit: "spoken (fst (transmit_each sends c)) \<subseteq> spoken c"
proof (induction sends c rule: transmit_each.induct)
  case (2 num targets sends c)
  show ?case
  proof (cases "\<exists>t m s. targets = [t] \<and> map_of (transmitActions c) num = Some (m, s)")
    case True
    then obtain t m s where t: "targets = [t]" "map_of (transmitActions c) num = Some (m, s)" by blast
    then have "m \<in> spoken c" by (force simp: spoken_def dest: map_of_SomeD)
    then show ?thesis using 2 [OF refl t(1) refl t(2)] t by auto
  next
    case False
    then show ?thesis by (auto split: list.split option.split)
  qed
qed simp

lemma spoken_fold_finished [simp]: "spoken (fold (\<lambda>n. onFinished b code) ns c) = spoken c"
  by (induction ns arbitrary: c) simp_all

lemma spoken_set_queue [simp]: "spoken (c\<lparr>transmitQueue := q\<rparr>) = spoken c"
  by (simp add: spoken_def)

lemma fst_obind_keep: "fst (obind r (\<lambda>c u. (c, x))) = fst r"
  by (cases r; cases "snd r") (auto simp: obind_def)

lemma spoken_attempt: "spoken (fst (attempt_entry now n c)) \<subseteq> spoken c"
proof (cases "attempt now n (transmitQueue c)")
  case (Pair q r)
  show ?thesis
    using spoken_transmit [of "drop (length (sent (transmitQueue c))) (sent q)"
        "fold (\<lambda>n. onFinished False 0) (drop (length (failures (transmitQueue c))) (failures q)) (c\<lparr>transmitQueue := q\<rparr>)"]
    by (simp add: attempt_entry_def Pair fst_obind_keep)
qed

section \<open>Controllers that do not fail\<close>

text \<open>The queue and its actions agree: every queued transmission has one target and an action.\<close>

definition controller_ok :: "('c, 'k, 'i, 'm, 'z) GenericController_scheme \<Rightarrow> bool" where
  "controller_ok c \<longleftrightarrow> queue_ok (transmitQueue c)
     \<and> (\<forall>n ts. map_of (m_ActiveTransmissionToTargets (transmitQueue c)) n = Some ts \<longrightarrow>
          length ts = 1 \<and> map_of (transmitActions c) n \<noteq> None)"

lemma QueueTransmission_new:
  assumes ok: "queue_ok q" and new: "\<not> list_ex (\<lambda>k. map_of (m_ActiveTransmissions q) k \<noteq> None) keys" "keys \<noteq> []"
    and q': "QueueTransmission keys targets draws q = Some (q', r)"
  shows "\<exists>n. map_of (m_ActiveTransmissions q') (hd keys) = Some n
    \<and> map_of (m_ActiveTransmits q) n = None
    \<and> map_of (m_ActiveTransmissionToTargets q') = (map_of (m_ActiveTransmissionToTargets q))(n \<mapsto> targets)"
proof -
  obtain n where n: "find (\<lambda>num. map_of (m_ActiveTransmits q) num = None) draws = Some n"
    using q' new by (auto simp: QueueTransmission_def queue_task_def split: option.splits)
  have free: "map_of (m_ActiveTransmits q) n = None" using n by (auto simp: find_Some_iff)
  then have "n \<notin> {n. \<exists>t. map_of (m_ActiveTransmits q) n = Some t \<and> active t}" by simp
  then have "n \<notin> dom (map_of (m_ActiveTransmissionsToKeyMap q))"
    "n \<notin> dom (map_of (m_ActiveTransmissionToTargets q))"
    using queue_okD(1) [OF ok] unfolding in_sync_def sync_def by argo+
  then have none: "map_of (m_ActiveTransmissionsToKeyMap q) n = None"
    "map_of (m_ActiveTransmissionToTargets q) n = None" by auto
  have "map_of (m_ActiveTransmissions q) (hd keys) = None" using new by (cases keys) auto
  then show ?thesis using q' new n none free
    by (auto simp: QueueTransmission_def queue_task_def Execute_def Let_def split: if_splits)
qed

lemma queue_message_ok:
  assumes ok: "controller_ok c" and ids: "ids \<noteq> []"
  shows "controller_ok (fst (queue_message key ids target draws action c))
     \<and> snd (queue_message key ids target draws action c) \<in> {Inr (), Inl Blocked}"
proof -
  let ?keys = "map (Pair key) ids" and ?q = "transmitQueue c" and ?r = "queue_message key ids target draws action c"
  have q: "queue_ok ?q" using ok by (simp add: controller_ok_def)
  have same: ?thesis if "?r = (c\<lparr>controllerActive := True\<rparr>, r)" "r \<in> {Inr (), Inl Blocked}" for r
    using ok that by (simp add: controller_ok_def)
  consider (known) "list_ex (\<lambda>k. map_of (m_ActiveTransmissions ?q) k \<noteq> None) ?keys"
    | (blocked) "\<not> list_ex (\<lambda>k. map_of (m_ActiveTransmissions ?q) k \<noteq> None) ?keys"
        "QueueTransmission ?keys [target] draws ?q = None"
    | (queued) q' r where "\<not> list_ex (\<lambda>k. map_of (m_ActiveTransmissions ?q) k \<noteq> None) ?keys"
        "QueueTransmission ?keys [target] draws ?q = Some (q', r)"
    by (cases "QueueTransmission ?keys [target] draws ?q") auto
  then show ?thesis
  proof cases
    case known
    then show ?thesis by (intro same [of "Inr ()"]) (simp_all add: queue_message_def)
  next
    case blocked
    then show ?thesis by (intro same [of "Inl Blocked"]) (simp_all add: queue_message_def)
  next
    case (queued q' r)
    note k = QueueTransmission_ok [OF q queued(2)]
    obtain n where n: "map_of (m_ActiveTransmissions q') (hd ?keys) = Some n"
      "map_of (m_ActiveTransmissionToTargets q') = (map_of (m_ActiveTransmissionToTargets ?q))(n \<mapsto> [target])"
      using QueueTransmission_new [OF q queued(1) _ queued(2)] ids by auto
    have "?r = (c\<lparr>controllerActive := True, transmitQueue := q',
        transmitActions := um_put n action (transmitActions c)\<rparr>, Inr ())"
      using queued n(1) k by (simp add: queue_message_def)
    then show ?thesis using ok n(2) k by (auto simp: controller_ok_def)
  qed
qed

lemma removed_targets:
  assumes "queue_ok q" "\<And>n ts. map_of (m_ActiveTransmissionToTargets q) n = Some ts \<Longrightarrow> length ts = 1"
    "map_of (m_ActiveTransmissionToTargets (removed key (Some from) q)) n = Some ts"
  shows "map_of (m_ActiveTransmissionToTargets q) n = Some ts"
proof (cases "map_of (m_ActiveTransmissions q) key")
  case (Some i)
  obtain ks ts' where ks: "map_of (m_ActiveTransmissionsToKeyMap q) i = Some ks"
    and ts': "map_of (m_ActiveTransmissionToTargets q) i = Some ts'"
    using in_sync_queued [OF queue_okD(1) [OF assms(1)] Some] by blast
  obtain t where t: "ts' = [t]" using assms(2) [OF ts'] by (cases ts') auto
  show ?thesis
    using assms(3) Some ts' t
    by (cases "t = from") (auto simp: removed_def drop_transmission_eq [OF ks] split: if_splits)
qed (use assms(3) in \<open>simp add: removed_def\<close>)

lemma remove_received_ok:
  assumes ok: "controller_ok c"
  shows "controller_ok (fst (RemoveTransmission_received key i from c))"
    "snd (RemoveTransmission_received key i from c) = Inr ()"
proof -
  have q: "queue_ok (transmitQueue c)" using ok by (simp add: controller_ok_def)
  note r = RemoveTransmission_ok [OF q, of "(key, i)" "Some from"]
  have "length ts = 1 \<and> map_of (transmitActions c) n \<noteq> None"
    if "map_of (m_ActiveTransmissionToTargets (removed (key, i) (Some from) (transmitQueue c))) n = Some ts" for n ts
    using removed_targets [OF q _ that] ok by (auto simp: controller_ok_def)
  then show "controller_ok (fst (RemoveTransmission_received key i from c))"
    "snd (RemoveTransmission_received key i from c) = Inr ()"
    using r by (simp_all add: RemoveTransmission_received_def controller_ok_def)
qed

lemma attempt_parts:
  assumes "queue_ok q" "attempt now n q = (q', r)"
  shows "(sent q' = sent q \<or> (\<exists>ts. map_of (m_ActiveTransmissionToTargets q) n = Some ts \<and> sent q' = sent q @ [(n, ts)]))
    \<and> (\<forall>k ts. map_of (m_ActiveTransmissionToTargets q') k = Some ts \<longrightarrow> map_of (m_ActiveTransmissionToTargets q) k = Some ts)
    \<and> (\<exists>fs. failures q' = failures q @ fs)"
  using assms(2)
  by (auto simp: attempt_def failFunction_def transmitFunction_def Let_def split: option.splits if_splits)

lemma controller_ok_finished [simp]: "controller_ok (fold (\<lambda>n. onFinished b code) ns c) = controller_ok c"
  by (induction ns arbitrary: c) (simp_all add: controller_ok_def onFinished_def)

lemma finished_same [simp]:
  "transmitActions (fold (\<lambda>n. onFinished b code) ns c) = transmitActions c"
  "transmitQueue (fold (\<lambda>n. onFinished b code) ns c) = transmitQueue c"
  by (induction ns arbitrary: c) (simp_all add: onFinished_def)

lemma attempt_entry_ok:
  assumes ok: "controller_ok c"
  shows "controller_ok (fst (attempt_entry now n c)) \<and> snd (attempt_entry now n c) = Inr ()"
proof -
  let ?q = "transmitQueue c"
  obtain q' r where q': "attempt now n ?q = (q', r)" by (cases "attempt now n ?q")
  have q: "queue_ok ?q" using ok by (simp add: controller_ok_def)
  have k: "queue_ok q'" "r = Inr ()" using attempt_ok [OF q, of now n] q' by simp_all
  note parts = attempt_parts [OF q q']
  let ?c = "fold (\<lambda>n. onFinished False 0) (drop (length (failures ?q)) (failures q')) (c\<lparr>transmitQueue := q'\<rparr>)"
  have c: "controller_ok ?c"
    unfolding controller_ok_finished
    using ok k(1) parts unfolding controller_ok_def by simp blast
  have sends: "drop (length (sent ?q)) (sent q') = []
      \<or> (\<exists>t m s. drop (length (sent ?q)) (sent q') = [(n, [t])] \<and> map_of (transmitActions ?c) n = Some (m, s))"
  proof -
    have "length ts = 1 \<and> map_of (transmitActions c) n \<noteq> None"
      if "map_of (m_ActiveTransmissionToTargets ?q) n = Some ts" for ts
      using ok that by (simp add: controller_ok_def)
    then show ?thesis using parts by (fastforce simp: length_Suc_conv)
  qed
  then have "controller_ok (fst (transmit_each (drop (length (sent ?q)) (sent q')) ?c))
      \<and> snd (transmit_each (drop (length (sent ?q)) (sent q')) ?c) = Inr ()"
    using c by (auto simp: controller_ok_def EncodeMessage_def)
  then show ?thesis
    using k(2) by (cases "transmit_each (drop (length (sent ?q)) (sent q')) ?c") (simp add: attempt_entry_def q')
qed

lemma reap_entry_ok: "controller_ok c \<Longrightarrow> controller_ok (reap_entry n c)"
  using reap_ok [of "transmitQueue c" n]
  by (simp add: controller_ok_def reap_entry_def)
    (simp add: reap_def RemoveTransmissionFromQueue_eq split: if_splits)

section \<open>Actions keep a controller in order\<close>

text \<open>What the queue and the log do not touch: the part that a concrete controller adds.\<close>

lemma more_same [simp]:
  "GenericController.more (onFinished b code c) = GenericController.more c"
  "GenericController.more (EncodeMessage m sender target c) = GenericController.more c"
  "GenericController.more (ClearTransmissions c) = GenericController.more c"
  "GenericController.more (reap_entry n c) = GenericController.more c"
  by (simp_all add: onFinished_def EncodeMessage_def ClearTransmissions_def reap_entry_def)

lemma more_queue [simp]: "GenericController.more (fst (queue_message key ids target draws a c)) = GenericController.more c"
  by (simp add: queue_message_def Let_def split: option.split)

lemma more_remove [simp]: "GenericController.more (fst (RemoveTransmission_received key i from c)) = GenericController.more c"
  by (simp add: RemoveTransmission_received_def Let_def split: option.split)

lemma more_transmit [simp]: "GenericController.more (fst (transmit_each sends c)) = GenericController.more c"
  by (induction sends c rule: transmit_each.induct) (auto split: list.split option.split)

lemma more_finished_all [simp]:
  "GenericController.more (fold (\<lambda>n. onFinished b code) ns c) = GenericController.more c"
  by (induction ns arbitrary: c) simp_all

lemma more_attempt [simp]: "GenericController.more (fst (attempt_entry now n c)) = GenericController.more c"
  by (simp add: attempt_entry_def fst_obind_keep split: prod.split)

lemma controller_ok_EncodeMessage [simp]: "controller_ok (EncodeMessage m sender target c) = controller_ok c"
  by (simp add: controller_ok_def EncodeMessage_def)

lemma controller_ok_onFinished [simp]: "controller_ok (onFinished b code c) = controller_ok c"
  by (simp add: controller_ok_def onFinished_def)

text \<open>
  A step that transmits at most the messages \<open>M\<close> and touches nothing else: it may only wait for a number that
  is free.
\<close>

definition keeps_order ::
  "'m set \<Rightarrow> ('c, 'k, 'i, 'm, 'z) GenericController_scheme \<Rightarrow> 'a
    \<Rightarrow> (('c, 'k, 'i, 'm, 'z) GenericController_scheme, 'a) outcome \<Rightarrow> bool" where
  "keeps_order M c x r \<longleftrightarrow> controller_ok (fst r) \<and> snd r \<in> {Inr x, Inl Blocked}
     \<and> spoken (fst r) \<subseteq> M \<union> spoken c \<and> GenericController.more (fst r) = GenericController.more c"

lemma keeps_queue:
  "controller_ok c \<Longrightarrow> ids \<noteq> [] \<Longrightarrow> keeps_order {m} c () (queue_message key ids target draws (m, sender) c)"
  using queue_message_ok [of c ids key target draws "(m, sender)"] spoken_queue [of key ids target draws m sender c]
  by (auto simp: keeps_order_def)

lemma keeps_attempt: "controller_ok c \<Longrightarrow> keeps_order {} c () (attempt_entry now n c)"
  using attempt_entry_ok [of c now n] spoken_attempt [of now n c] by (auto simp: keeps_order_def)

lemma keeps_reap: "controller_ok c \<Longrightarrow> keeps_order {} c () (reap_entry n c, Inr ())"
  by (simp add: keeps_order_def reap_entry_ok)

lemma obind_const: "obind r (\<lambda>c u. (c, Inr x)) = (fst r, map_sum id (\<lambda>u. x) (snd r))"
  by (cases r; cases "snd r") auto

lemma keeps_intermediate:
  assumes "BuildData_Send m s c = (c', Inr (Some (ack, from, k, k')))" "controller_ok c'" "ids \<noteq> []"
  shows "keeps_order {ack} c' True (ActionIntermediateReceive BuildData_Send i (NextTransmission ids draws) m s c)"
proof -
  let ?r = "RemoveTransmission_received k i s c'"
  note r = remove_received_ok [OF assms(2), of k i s]
  have eq: "?r = (fst ?r, Inr ())" using r(2) by (metis prod.collapse)
  have "keeps_order {ack} (fst ?r) () (queue_message k' ids s draws (ack, from) (fst ?r))"
    by (rule keeps_queue [OF r(1) assms(3)])
  then show ?thesis
    unfolding ActionIntermediateReceive_def assms(1)
    by (simp add: eq [symmetric] NextTransmission_def)
      (subst eq, auto simp: keeps_order_def obind_const)
qed

lemma keeps_final:
  assumes "Construct m s c = (c', Inr (Some (ack, obj, for, k)))" "controller_ok c'"
    "\<And>c. controller_ok (f obj c) = controller_ok c" "\<And>c. spoken (f obj c) = spoken c"
  shows "\<exists>c''. ActionFinalReceiveRespond Construct f i m s c = (EncodeMessage ack for s (f obj c''), Inr True)
     \<and> controller_ok c'' \<and> spoken c'' = spoken c' \<and> GenericController.more c'' = GenericController.more c'"
proof -
  let ?r = "RemoveTransmission_received k i s c'"
  note r = remove_received_ok [OF assms(2), of k i s]
  have eq: "?r = (fst ?r, Inr ())" using r(2) by (metis prod.collapse)
  have "ActionFinalReceiveRespond Construct f i m s c = (EncodeMessage ack for s (f obj (fst ?r)), Inr True)"
    unfolding ActionFinalReceiveRespond_def assms(1)
    by (simp add: FinalResponse_def) (subst eq, simp)
  then show ?thesis using r(1) by (intro exI [of _ "fst ?r"]) simp
qed

section \<open>A controller that waits for one answer\<close>

text \<open>Nothing but one message is queued, which the target has to answer; it was sent \<open>tries\<close> times.\<close>

definition asking ::
  "'c \<Rightarrow> 'k \<times> 'i \<Rightarrow> int \<Rightarrow> int \<Rightarrow> 'm \<times> 'c \<Rightarrow> ('c, 'k, 'i, 'm, 'z) GenericController_scheme \<Rightarrow> bool" where
  "asking v key n tries ask c \<longleftrightarrow> (\<exists>t. m_ActiveTransmits (transmitQueue c) = [(n, t)] \<and> numTries t = tries \<and> active t)
     \<and> m_ActiveTransmissions (transmitQueue c) = [(key, n)]
     \<and> m_ActiveTransmissionsToKeyMap (transmitQueue c) = [(n, [key])]
     \<and> m_ActiveTransmissionToTargets (transmitQueue c) = [(n, [v])]
     \<and> controllerActive c \<and> map_of (transmitActions c) n = Some ask"

definition quiet :: "('c, 'k, 'i, 'm, 'z) GenericController_scheme \<Rightarrow> bool" where
  "quiet c \<longleftrightarrow> m_ActiveTransmits (transmitQueue c) = [] \<and> m_ActiveTransmissions (transmitQueue c) = []
     \<and> m_ActiveTransmissionsToKeyMap (transmitQueue c) = [] \<and> m_ActiveTransmissionToTargets (transmitQueue c) = []"

lemma quiet_queue:
  assumes "quiet c"
  shows "\<exists>c'. queue_message key [i] v [n] ask c = (c', Inr ()) \<and> asking v (key, i) n 0 ask c'
     \<and> GenericController.more c' = GenericController.more c \<and> m_NumRetries (transmitQueue c') = m_NumRetries (transmitQueue c)"
  using assms
  by (simp add: queue_message_def quiet_def QueueTransmission_def queue_task_def Execute_def um_insert_def Let_def asking_def)

lemma asking_removed:
  assumes "asking v (key, i) n tries ask c"
  shows "\<exists>c'. RemoveTransmission_received key i v c = (c', Inr ()) \<and> quiet c'
     \<and> GenericController.more c' = GenericController.more c \<and> m_NumRetries (transmitQueue c') = m_NumRetries (transmitQueue c)"
  using assms
  by (auto simp: asking_def RemoveTransmission_received_def RemoveTransmission.simps acknowledge_def Let_def
      drop_transmission_def RemoveTransmissionFromQueue_def quiet_def)

lemma asking_attempt:
  assumes "asking v key n 0 (m, s) c" "m_NumRetries (transmitQueue c) > 0"
  shows "\<exists>c'. attempt_entry now n c = (c', Inr ()) \<and> asking v key n 1 (m, s) c' \<and> m \<in> fst ` set (transmitted c')
     \<and> GenericController.more c' = GenericController.more c \<and> m_NumRetries (transmitQueue c') = m_NumRetries (transmitQueue c)"
  using assms
  by (auto simp: asking_def attempt_entry_def attempt_def transmitFunction_def EncodeMessage_def)

text \<open>The expected answer ends the transmission and begins the next.\<close>

lemma asking_next:
  assumes "BuildData_Send m v c = (c', Inr (Some (ack, s, key, key')))" "asking v (key, i) n tries ask c'"
  shows "\<exists>c''. ActionIntermediateReceive BuildData_Send i (NextTransmission [i'] [n]) m v c = (c'', Inr True)
     \<and> asking v (key', i') n 0 (ack, s) c''
     \<and> GenericController.more c'' = GenericController.more c' \<and> m_NumRetries (transmitQueue c'') = m_NumRetries (transmitQueue c')"
proof -
  obtain d where d: "RemoveTransmission_received key i v c' = (d, Inr ())" "quiet d"
    "GenericController.more d = GenericController.more c'" "m_NumRetries (transmitQueue d) = m_NumRetries (transmitQueue c')"
    using asking_removed [OF assms(2)] by blast
  then show ?thesis
    using quiet_queue [OF d(2), of key' i' v n "(ack, s)"] assms(1)
    by (auto simp: ActionIntermediateReceive_def NextTransmission_def)
qed

lemma asking_final:
  assumes "Construct m v c = (c', Inr (Some (ack, obj, for, key)))" "asking v (key, i) n tries ask c'"
    "\<And>c. quiet (f obj c) = quiet c"
  shows "\<exists>d. ActionFinalReceiveRespond Construct f i m v c = (EncodeMessage ack for v (f obj d), Inr True)
     \<and> quiet d \<and> GenericController.more d = GenericController.more c'"
  using asking_removed [OF assms(2)] assms(1) by (auto simp: ActionFinalReceiveRespond_def FinalResponse_def)

section \<open>Sessions\<close>

text \<open>
  A session is a history of events; \<open>possible\<close> says which events may happen in a state, such as the arrival
  of the answer to a message that was transmitted. Nothing says that an event happens, or only once, or in
  the order in which it became possible: messages get lost, are repeated and overtake each other.
\<close>

fun run_all :: "('e \<Rightarrow> 's \<Rightarrow> ('s, unit) outcome) \<Rightarrow> 'e list \<Rightarrow> 's \<Rightarrow> ('s, unit) outcome" where
  "run_all step [] s = (s, Inr ())"
| "run_all step (e # es) s = obind (step e s) (\<lambda>s u. run_all step es s)"

fun all_possible :: "('e \<Rightarrow> 's \<Rightarrow> ('s, unit) outcome) \<Rightarrow> ('s \<Rightarrow> 'e \<Rightarrow> bool) \<Rightarrow> 'e list \<Rightarrow> 's \<Rightarrow> bool" where
  "all_possible step possible [] s = True"
| "all_possible step possible (e # es) s =
     (possible s e \<and> (snd (step e s) = Inr () \<longrightarrow> all_possible step possible es (fst (step e s))))"

locale session =
  fixes step :: "'e \<Rightarrow> 's \<Rightarrow> ('s, unit) outcome"
    and possible :: "'s \<Rightarrow> 'e \<Rightarrow> bool"
    and inv :: "'s \<Rightarrow> bool"
  assumes step_inv: "inv s \<Longrightarrow> possible s e \<Longrightarrow> inv (fst (step e s))"
begin

lemma run_inv: "inv s \<Longrightarrow> all_possible step possible es s \<Longrightarrow> inv (fst (run_all step es s))"
proof (induction es arbitrary: s)
  case (Cons e es)
  have "inv (fst (step e s))" using step_inv Cons.prems by simp
  then show ?case
    using Cons.IH [of "fst (step e s)"] Cons.prems(2)
    by (cases "step e s"; cases "snd (step e s)") auto
qed simp

lemma run_result:
  assumes "\<And>s e. inv s \<Longrightarrow> possible s e \<Longrightarrow> ok (snd (step e s))" "ok (Inr ())"
    "inv s" "all_possible step possible es s"
  shows "ok (snd (run_all step es s))"
  using assms(3,4)
proof (induction es arbitrary: s)
  case (Cons e es)
  have "inv (fst (step e s))" "ok (snd (step e s))" using step_inv assms(1) Cons.prems by simp_all
  then show ?case
    using Cons.IH [of "fst (step e s)"] Cons.prems(2)
    by (cases "step e s"; cases "snd (step e s)") auto
qed (simp add: assms(2))

end

end
