(* ===== verification/Mission_Items.thy ===== *)
theory Mission_Items
  imports Prelude
begin

text \<open>
  The items of missions (\<open>data_generic_command_item\<close>) and their exchange with the autopilot
  (\<open>data_interface_MAVLINK\<close>): the classes of items with their copy constructors, the conversion to
  \<open>mavlink_mission_item_t\<close> and the conversion back.

  The messages of MAVLink are records with the fields of the protocol. Their parameters and
  coordinates are of type \<open>float\<close>: \<open>to_float\<close>, an argument of the definitions, is the rounding
  of a \<open>double\<close> to single precision. Names and descriptions are left out.
\<close>

section \<open>Positions\<close>

datatype GeodeticFrameTypes =
    CF_GLOBAL_UNKNOWN | CF_GLOBAL_AMSL | CF_GLOBAL_RELATIVE_ALT | CF_GLOBAL_INT
  | CF_GLOBAL_RELATIVE_ALT_INT | CF_GLOBAL_TERRAIN_ALT | CF_GLOBAL_TERRAIN_ALT_INT

datatype CartesianFrameTypes =
    CF_LOCAL_UNKNOWN | CF_LOCAL_NED | CF_LOCAL_ENU | CF_LOCAL_OFFSET_NED | CF_BODY_OFFSET_NED
  | CF_BODY_NED | CF_BODY_ENU

datatype AltitudeReferenceTypes =
  REF_ALT_UNKNOWN | REF_ALT_MSL | REF_ALT_RELATIVE | REF_ALT_OFFSET | REF_ALT_TERRAIN

text \<open>
  \<open>CoordinateFrameTypes\<close> has the frames of both kinds, with the numbers of \<open>MAV_FRAME\<close>; the two functions
  \<open>getCoordinateFrame\<close> are the constructors.
\<close>

datatype CoordinateFrameTypes = Global_Frame GeodeticFrameTypes | Local_Frame CartesianFrameTypes

text \<open>
  The four classes of positions. \<open>position_z\<close> is only there in three dimensions; \<open>position_x\<close> is the
  longitude and \<open>position_y\<close> the latitude of a geodetic position.
\<close>

record Pose =
  explicitFrame :: CoordinateFrameTypes
  threeDimensional :: bool
  position_x :: dbl
  position_y :: dbl
  position_z :: dbl
  altitudeFrameType :: AltitudeReferenceTypes
  dimensionMask :: "16 word"

definition ignoreAllPositions :: "16 word" where
  "ignoreAllPositions = 7"

definition isAnyPositionValid :: "Pose \<Rightarrow> bool" where
  "isAnyPositionValid p = (if xor (dimensionMask p) ignoreAllPositions > 0 then True else False)"

definition validateDimension :: "16 word \<Rightarrow> Pose \<Rightarrow> Pose" where
  "validateDimension v p = p\<lparr>dimensionMask := and (dimensionMask p) (not v)\<rparr>"

definition setLatitude :: "dbl \<Rightarrow> Pose \<Rightarrow> Pose" where
  "setLatitude lat p = validateDimension 2 (p\<lparr>position_y := lat\<rparr>)"

definition setLongitude :: "dbl \<Rightarrow> Pose \<Rightarrow> Pose" where
  "setLongitude lon p = validateDimension 1 (p\<lparr>position_x := lon\<rparr>)"

definition setAltitude :: "dbl \<Rightarrow> Pose \<Rightarrow> Pose" where
  "setAltitude alt p = validateDimension 4 (p\<lparr>position_z := alt\<rparr>)"

definition updatePosition :: "dbl \<Rightarrow> dbl \<Rightarrow> dbl \<Rightarrow> Pose \<Rightarrow> Pose" where
  "updatePosition lat lon alt p =
     setAltitude alt (setLatitude lat (setLongitude lon p))"

text \<open>The coordinates of a new position are not initialised; \<open>unset\<close> stands for what is there.\<close>

definition GeodeticPosition_3D_new :: "dbl \<Rightarrow> Pose" where
  "GeodeticPosition_3D_new unset =
     \<lparr>explicitFrame = Global_Frame CF_GLOBAL_RELATIVE_ALT, threeDimensional = True, position_x = unset,
      position_y = unset, position_z = unset, altitudeFrameType = REF_ALT_RELATIVE,
      dimensionMask = ignoreAllPositions\<rparr>"

definition geodetic_at :: "dbl \<Rightarrow> dbl \<Rightarrow> dbl \<Rightarrow> Pose" where
  "geodetic_at lat lon alt =
     \<lparr>explicitFrame = Global_Frame CF_GLOBAL_RELATIVE_ALT, threeDimensional = True, position_x = lon,
      position_y = lat, position_z = alt, altitudeFrameType = REF_ALT_RELATIVE, dimensionMask = 0\<rparr>"

lemma updatePosition_new [simp]:
  "updatePosition lat lon alt (GeodeticPosition_3D_new unset)
     = geodetic_at lat lon alt"
  by (simp add: updatePosition_def setLatitude_def setLongitude_def setAltitude_def validateDimension_def
      GeodeticPosition_3D_new_def geodetic_at_def ignoreAllPositions_def)

section \<open>Items\<close>

datatype getORset = GET_COMMAND | SET_COMMAND | EXECUTE_COMMAND

datatype SpeedFrame = GROUNDSPEED | AIRSPEED

record ItemBase =
  originatingSystem :: u32
  targetSystem :: u32
  targetComponent :: u32
  actionType :: getORset

definition ItemBase_new :: "u32 \<Rightarrow> u32 \<Rightarrow> ItemBase" where
  "ItemBase_new systemOrigin systemTarget = \<lparr>originatingSystem = systemOrigin, targetSystem = systemTarget,
     targetComponent = 0, actionType = SET_COMMAND\<rparr>"

text \<open>
  The classes that missions consist of; an item of any other class is \<open>Other_Item\<close>. The position is a
  pointer that may be null; a loiter has a direction, a radius and its duration or its turns.
\<close>

datatype AbstractCommandItem =
    ActionChangeSpeed ItemBase SpeedFrame dbl
  | SpatialLand ItemBase "Pose option"
  | SpatialLoiter_Time ItemBase "Pose option" LoiterDirection dbl dbl
  | SpatialLoiter_Turns ItemBase "Pose option" LoiterDirection dbl u32
  | SpatialLoiter_Unlimited ItemBase "Pose option" LoiterDirection dbl
  | SpatialRTL ItemBase "Pose option"
  | SpatialTakeoff ItemBase "Pose option"
  | SpatialWaypoint ItemBase "Pose option"
  | Other_Item ItemBase

record SpatialHome =
  home_base :: ItemBase
  home_position :: "Pose option"
  setPosToCurrent :: bool

definition SpatialHome_new :: SpatialHome where
  "SpatialHome_new = \<lparr>home_base = ItemBase_new 0 0, home_position = None, setPosToCurrent = False\<rparr>"

text \<open>
  The copy constructors: the one of \<open>SpatialLoiter_Time\<close> initialises the base class with no systems and
  no position.
\<close>

fun copy_item :: "AbstractCommandItem \<Rightarrow> AbstractCommandItem" where
  "copy_item (SpatialLoiter_Time b p direction radius duration) =
     SpatialLoiter_Time (ItemBase_new 0 0) None direction radius duration"
| "copy_item item = item"

fun item_base :: "AbstractCommandItem \<Rightarrow> ItemBase" where
  "item_base (ActionChangeSpeed b f s) = b"
| "item_base (SpatialLand b p) = b"
| "item_base (SpatialLoiter_Time b p d r t) = b"
| "item_base (SpatialLoiter_Turns b p d r n) = b"
| "item_base (SpatialLoiter_Unlimited b p d r) = b"
| "item_base (SpatialRTL b p) = b"
| "item_base (SpatialTakeoff b p) = b"
| "item_base (SpatialWaypoint b p) = b"
| "item_base (Other_Item b) = b"

fun map_base :: "(ItemBase \<Rightarrow> ItemBase) \<Rightarrow> AbstractCommandItem \<Rightarrow> AbstractCommandItem" where
  "map_base g (ActionChangeSpeed b f s) = ActionChangeSpeed (g b) f s"
| "map_base g (SpatialLand b p) = SpatialLand (g b) p"
| "map_base g (SpatialLoiter_Time b p d r t) = SpatialLoiter_Time (g b) p d r t"
| "map_base g (SpatialLoiter_Turns b p d r n) = SpatialLoiter_Turns (g b) p d r n"
| "map_base g (SpatialLoiter_Unlimited b p d r) = SpatialLoiter_Unlimited (g b) p d r"
| "map_base g (SpatialRTL b p) = SpatialRTL (g b) p"
| "map_base g (SpatialTakeoff b p) = SpatialTakeoff (g b) p"
| "map_base g (SpatialWaypoint b p) = SpatialWaypoint (g b) p"
| "map_base g (Other_Item b) = Other_Item (g b)"

definition setOriginatingSystem :: "u32 \<Rightarrow> AbstractCommandItem \<Rightarrow> AbstractCommandItem" where
  "setOriginatingSystem systemID = map_base (\<lambda>b. b\<lparr>originatingSystem := systemID\<rparr>)"

definition setTargetSystem :: "u32 \<Rightarrow> AbstractCommandItem \<Rightarrow> AbstractCommandItem" where
  "setTargetSystem systemID = map_base (\<lambda>b. b\<lparr>targetSystem := systemID\<rparr>)"

definition getTargetSystem :: "AbstractCommandItem \<Rightarrow> u32" where
  "getTargetSystem item = targetSystem (item_base item)"

section \<open>Messages\<close>

datatype MAV_CMD =
    MAV_CMD_DO_CHANGE_SPEED | MAV_CMD_NAV_LAND | MAV_CMD_NAV_LOITER_TIME | MAV_CMD_NAV_LOITER_TURNS
  | MAV_CMD_NAV_LOITER_UNLIM | MAV_CMD_NAV_RETURN_TO_LAUNCH | MAV_CMD_NAV_TAKEOFF | MAV_CMD_NAV_WAYPOINT
  | MAV_CMD_Other "16 word"   \<comment> \<open>any other number\<close>

record mavlink_mission_item_t =
  mi_command :: MAV_CMD
  mi_frame :: CoordinateFrameTypes
  mi_param1 :: dbl
  mi_param2 :: dbl
  mi_param3 :: dbl
  mi_param4 :: dbl
  mi_x :: dbl
  mi_y :: dbl
  mi_z :: dbl
  mi_seq :: "16 word"
  mi_target_system :: u8
  mi_target_component :: u8
  mi_current :: u8
  mi_autocontinue :: u8
  mi_mission_type :: u8

definition initializeMAVLINKMissionItem :: mavlink_mission_item_t where
  "initializeMAVLINKMissionItem = \<lparr>mi_command = MAV_CMD_Other 0,
     mi_frame = Global_Frame CF_GLOBAL_RELATIVE_ALT,
     mi_param1 = Fin 0, mi_param2 = Fin 0, mi_param3 = Fin 0, mi_param4 = Fin 0, mi_x = Fin 0, mi_y = Fin 0,
     mi_z = Fin 0, mi_seq = 0, mi_target_system = 0, mi_target_component = 0, mi_current = 0,
     mi_autocontinue = 1, mi_mission_type = 0\<rparr>"

section \<open>To the autopilot\<close>

text \<open>
  A geodetic position in two dimensions is cast to the class for three dimensions, which it is not.
\<close>

definition updateMissionPosition ::
  "(dbl \<Rightarrow> dbl) \<Rightarrow> Pose option \<Rightarrow> mavlink_mission_item_t \<Rightarrow> cpp_error + mavlink_mission_item_t" where
  "updateMissionPosition to_float position item = (case position of
     None \<Rightarrow> Inr item
   | Some p \<Rightarrow>
       let item = item\<lparr>mi_frame := explicitFrame p\<rparr>
       in (case explicitFrame p of
             Local_Frame f \<Rightarrow>
               if threeDimensional p
               then Inr (item\<lparr>mi_x := to_float (position_x p), mi_y := to_float (position_y p),
                              mi_z := to_float (position_z p)\<rparr>)
               else Inr (item\<lparr>mi_x := to_float (position_x p), mi_y := to_float (position_y p)\<rparr>)
           | Global_Frame f \<Rightarrow>
               if threeDimensional p
               then Inr (item\<lparr>mi_x := to_float (position_y p), mi_y := to_float (position_x p),
                              mi_z := to_float (position_z p)\<rparr>)
               else Inl Undefined_Behaviour))"

definition convertHome :: "(dbl \<Rightarrow> dbl) \<Rightarrow> SpatialHome \<Rightarrow> cpp_error + mavlink_mission_item_t" where
  "convertHome to_float home =
     (let item = initializeMAVLINKMissionItem\<lparr>mi_frame := Global_Frame CF_GLOBAL_AMSL,
                   mi_command := MAV_CMD_NAV_WAYPOINT\<rparr>
      in case home_position home of
           None \<Rightarrow> Inl Undefined_Behaviour
         | Some p \<Rightarrow>
             if isAnyPositionValid p
             then updateMissionPosition to_float (Some p) (item\<lparr>mi_param1 := Fin 0\<rparr>)
             else Inr (item\<lparr>mi_param1 := Fin 1\<rparr>))"

definition start_item :: "MAV_CMD \<Rightarrow> ItemBase \<Rightarrow> 16 word \<Rightarrow> mavlink_mission_item_t" where
  "start_item command b itemIndex = initializeMAVLINKMissionItem\<lparr>mi_command := command, mi_seq := itemIndex,
     mi_target_system := ucast (targetSystem b)\<rparr>"

definition signed_radius :: "(dbl \<Rightarrow> dbl) \<Rightarrow> LoiterDirection \<Rightarrow> dbl \<Rightarrow> dbl" where
  "signed_radius to_float direction radius =
     (if direction = CW then to_float radius else to_float (dbl_sub (Fin 0) radius))"

definition convertChangeSpeed ::
  "(dbl \<Rightarrow> dbl) \<Rightarrow> ItemBase \<Rightarrow> SpeedFrame \<Rightarrow> dbl \<Rightarrow> 16 word \<Rightarrow> mavlink_mission_item_t" where
  "convertChangeSpeed to_float b speedFrame desiredSpeed itemIndex =
     (let item = (start_item MAV_CMD_DO_CHANGE_SPEED b itemIndex)
                   \<lparr>mi_param1 := Fin 0, mi_param2 := to_float desiredSpeed\<rparr>
      in if speedFrame = GROUNDSPEED then item\<lparr>mi_param1 := Fin 1\<rparr> else item)"

text \<open>\<open>convertLand\<close>, \<open>convertTakeoff\<close> and \<open>convertWaypoint\<close> differ in the command only.\<close>

definition convertSpatial ::
  "(dbl \<Rightarrow> dbl) \<Rightarrow> MAV_CMD \<Rightarrow> ItemBase \<Rightarrow> Pose option \<Rightarrow> 16 word \<Rightarrow> cpp_error + mavlink_mission_item_t" where
  "convertSpatial to_float command b position itemIndex =
     updateMissionPosition to_float position (start_item command b itemIndex)"

definition convertLoiter ::
  "(dbl \<Rightarrow> dbl) \<Rightarrow> MAV_CMD \<Rightarrow> dbl \<Rightarrow> ItemBase \<Rightarrow> Pose option \<Rightarrow> LoiterDirection \<Rightarrow> dbl \<Rightarrow> 16 word
     \<Rightarrow> cpp_error + mavlink_mission_item_t" where
  "convertLoiter to_float command param1 b position direction radius itemIndex =
     map_sum id (\<lambda>item. item\<lparr>mi_param3 := signed_radius to_float direction radius\<rparr>)
       (updateMissionPosition to_float position ((start_item command b itemIndex)\<lparr>mi_param1 := param1\<rparr>))"

definition convertRTL :: "ItemBase \<Rightarrow> 16 word \<Rightarrow> mavlink_mission_item_t" where
  "convertRTL b itemIndex = start_item MAV_CMD_NAV_RETURN_TO_LAUNCH b itemIndex"

text \<open>
  \<open>MACEMissionToMAVLINKMission\<close>: each item is copied before it is converted; the message of an item
  of another class is left as it is, without a value (\<open>None\<close>).
\<close>

fun to_mavlink ::
  "(dbl \<Rightarrow> dbl) \<Rightarrow> AbstractCommandItem \<Rightarrow> 16 word \<Rightarrow> cpp_error + mavlink_mission_item_t option" where
  "to_mavlink to_float (ActionChangeSpeed b f s) i = Inr (Some (convertChangeSpeed to_float b f s i))"
| "to_mavlink to_float (SpatialLand b p) i = map_sum id Some (convertSpatial to_float MAV_CMD_NAV_LAND b p i)"
| "to_mavlink to_float (SpatialLoiter_Time b p d r t) i =
     map_sum id Some (convertLoiter to_float MAV_CMD_NAV_LOITER_TIME (to_float t) b p d r i)"
| "to_mavlink to_float (SpatialLoiter_Turns b p d r n) i =
     map_sum id Some (convertLoiter to_float MAV_CMD_NAV_LOITER_TURNS (to_float (Fin (real (unat n)))) b p d r i)"
| "to_mavlink to_float (SpatialLoiter_Unlimited b p d r) i =
     map_sum id Some (convertLoiter to_float MAV_CMD_NAV_LOITER_UNLIM (Fin 0) b p d r i)"
| "to_mavlink to_float (SpatialRTL b p) i = Inr (Some (convertRTL b i))"
| "to_mavlink to_float (SpatialTakeoff b p) i =
     map_sum id Some (convertSpatial to_float MAV_CMD_NAV_TAKEOFF b p i)"
| "to_mavlink to_float (SpatialWaypoint b p) i =
     map_sum id Some (convertSpatial to_float MAV_CMD_NAV_WAYPOINT b p i)"
| "to_mavlink to_float (Other_Item b) i = Inr None"

definition MACEMissionToMAVLINKMission ::
  "(dbl \<Rightarrow> dbl) \<Rightarrow> AbstractCommandItem option \<Rightarrow> 16 word \<Rightarrow> cpp_error + mavlink_mission_item_t option" where
  "MACEMissionToMAVLINKMission to_float missionItem itemIndex = (case missionItem of
     None \<Rightarrow> Inl Undefined_Behaviour
   | Some item \<Rightarrow> to_mavlink to_float (copy_item item) itemIndex)"

section \<open>From the autopilot\<close>

definition getBasePosition :: "mavlink_mission_item_t \<Rightarrow> Pose" where
  "getBasePosition m = updatePosition (mi_x m) (mi_y m) (mi_z m) (GeodeticPosition_3D_new NaN)"

text \<open>The conversion of a \<open>float\<close> to \<open>unsigned int\<close> truncates; a value that does not fit has no meaning.\<close>

definition float_to_unsigned :: "dbl \<Rightarrow> cpp_error + u32" where
  "float_to_unsigned x = (case x of
     Fin r \<Rightarrow> if - 1 < r \<and> r < 2 ^ 32 then Inr (word_of_int (trunc r)) else Inl Undefined_Behaviour
   | _ \<Rightarrow> Inl Undefined_Behaviour)"

definition loiter_sense :: "dbl \<Rightarrow> LoiterDirection" where
  "loiter_sense param3 = (if dbl_lt (Fin 0) param3 then CW else CCW)"

text \<open>The functions \<open>convert...\<close> that the switch of \<open>Convert_MAVLINKTOMACE\<close> selects.\<close>

definition from_mavlink :: "u32 \<Rightarrow> mavlink_mission_item_t \<Rightarrow> cpp_error + AbstractCommandItem option" where
  "from_mavlink sysID m =
     (let b = ItemBase_new sysID sysID; p = Some (getBasePosition m);
          direction = loiter_sense (mi_param3 m); radius = dbl_abs (mi_param3 m)
      in case mi_command m of
           MAV_CMD_DO_CHANGE_SPEED \<Rightarrow>
             Inr (Some (ActionChangeSpeed b (if dbl_lt (Fin 0) (mi_param1 m) then GROUNDSPEED else AIRSPEED)
                          (mi_param2 m)))
         | MAV_CMD_NAV_LAND \<Rightarrow> Inr (Some (SpatialLand b p))
         | MAV_CMD_NAV_LOITER_TIME \<Rightarrow> Inr (Some (SpatialLoiter_Time b p direction radius (mi_param1 m)))
         | MAV_CMD_NAV_LOITER_TURNS \<Rightarrow>
             map_sum id (\<lambda>n. Some (SpatialLoiter_Turns b p direction radius n)) (float_to_unsigned (mi_param1 m))
         | MAV_CMD_NAV_LOITER_UNLIM \<Rightarrow> Inr (Some (SpatialLoiter_Unlimited b p direction radius))
         | MAV_CMD_NAV_RETURN_TO_LAUNCH \<Rightarrow> Inr (Some (SpatialRTL b None))
         | MAV_CMD_NAV_TAKEOFF \<Rightarrow> Inr (Some (SpatialTakeoff b p))
         | MAV_CMD_NAV_WAYPOINT \<Rightarrow> Inr (Some (SpatialWaypoint b p))
         | MAV_CMD_Other code \<Rightarrow> Inr None)"

definition Convert_MAVLINKTOMACE ::
  "u32 \<Rightarrow> mavlink_mission_item_t \<Rightarrow> cpp_error + AbstractCommandItem option" where
  "Convert_MAVLINKTOMACE sysID m =
     map_sum id (map_option (\<lambda>item. setTargetSystem sysID (setOriginatingSystem sysID (copy_item item))))
       (from_mavlink sysID m)"

section \<open>What survives the exchange\<close>

text \<open>
  A value that is exact in single precision, and a rounding as IEEE 754 has it: it keeps what is exact and
  does not change the sign.
\<close>

definition rounding :: "(dbl \<Rightarrow> dbl) \<Rightarrow> bool" where
  "rounding to_float \<longleftrightarrow> (\<forall>x. to_float (to_float x) = to_float x) \<and> (\<forall>n. n \<le> 2 ^ 24 \<longrightarrow> to_float (Fin (real n)) = Fin (real n))
     \<and> (\<forall>r. to_float (Fin (- r)) = dbl_neg (to_float (Fin r)))"

definition single :: "(dbl \<Rightarrow> dbl) \<Rightarrow> dbl \<Rightarrow> bool" where
  "single to_float x \<longleftrightarrow> to_float x = x"

text \<open>
  The items that the messages of MAVLink can carry: of the vehicle's own system, at a place relative to the
  home position whose coordinates are exact in single precision, with a positive radius.
\<close>

definition plain_place :: "(dbl \<Rightarrow> dbl) \<Rightarrow> Pose option \<Rightarrow> bool" where
  "plain_place to_float p \<longleftrightarrow> (\<exists>lat lon alt. p = Some (geodetic_at lat lon alt)
     \<and> single to_float lat \<and> single to_float lon \<and> single to_float alt)"

definition plain_radius :: "(dbl \<Rightarrow> dbl) \<Rightarrow> dbl \<Rightarrow> bool" where
  "plain_radius to_float r \<longleftrightarrow> (\<exists>x. r = Fin x \<and> 0 < x \<and> single to_float r)"

fun carried :: "(dbl \<Rightarrow> dbl) \<Rightarrow> AbstractCommandItem \<Rightarrow> bool" where
  "carried to_float (ActionChangeSpeed b f s) = single to_float s"
| "carried to_float (SpatialLand b p) = plain_place to_float p"
| "carried to_float (SpatialLoiter_Time b p d r t) = (plain_radius to_float r \<and> single to_float t)"
| "carried to_float (SpatialLoiter_Turns b p d r n) =
     (plain_place to_float p \<and> plain_radius to_float r \<and> unat n \<le> 2 ^ 24)"
| "carried to_float (SpatialLoiter_Unlimited b p d r) = (plain_place to_float p \<and> plain_radius to_float r)"
| "carried to_float (SpatialRTL b p) = (p = None)"
| "carried to_float (SpatialTakeoff b p) = plain_place to_float p"
| "carried to_float (SpatialWaypoint b p) = plain_place to_float p"
| "carried to_float (Other_Item b) = False"

lemma single_simps [simp]: "single to_float x \<Longrightarrow> to_float x = x"
  by (simp add: single_def)

lemma rounding_nat: "rounding to_float \<Longrightarrow> n \<le> 2 ^ 24 \<Longrightarrow> to_float (Fin (real n)) = Fin (real n)"
  by (simp add: rounding_def)

lemma rounding_zero: "rounding to_float \<Longrightarrow> to_float (Fin 0) = Fin 0"
  using rounding_nat [of to_float 0] by simp

lemma rounding_neg: "rounding to_float \<Longrightarrow> to_float (Fin r) = Fin r \<Longrightarrow> to_float (Fin (- r)) = Fin (- r)"
  by (simp add: rounding_def)

lemma radius_back:
  assumes "rounding to_float" "plain_radius to_float r"
  shows "loiter_sense (signed_radius to_float d r) = d" "dbl_abs (signed_radius to_float d r) = r"
proof -
  obtain x where x: "r = Fin x" "0 < x" "to_float (Fin x) = Fin x"
    using assms(2) by (auto simp: plain_radius_def single_def)
  have "signed_radius to_float d r = (if d = CW then Fin x else Fin (- x))"
    using x rounding_neg [OF assms(1) x(3)] by (simp add: signed_radius_def)
  then show "loiter_sense (signed_radius to_float d r) = d" "dbl_abs (signed_radius to_float d r) = r"
    using x(1,2) by (cases d; simp add: loiter_sense_def)+
qed

lemma float_to_unsigned_nat: "n < 2 ^ 32 \<Longrightarrow> float_to_unsigned (Fin (real n)) = Inr (of_nat n)"
  by (simp add: float_to_unsigned_def trunc_def)

lemma turns_back: "float_to_unsigned (Fin (real (unat (n :: u32)))) = Inr n"
proof -
  have "unat n < 2 ^ LENGTH(32)" by (rule unsigned_less)
  then have "float_to_unsigned (Fin (real (unat n))) = Inr (of_nat (unat n))"
    by (intro float_to_unsigned_nat) (simp del: of_nat_unat)
  then show ?thesis by (metis of_nat_unat ucast_id)
qed

lemma base_again [simp]:
  "(ItemBase_new a b)\<lparr>originatingSystem := c\<rparr> = ItemBase_new c b"
  "(ItemBase_new a b)\<lparr>targetSystem := c\<rparr> = ItemBase_new a c"
  by (simp_all add: ItemBase_new_def)

lemma getBasePosition_eq: "getBasePosition m = geodetic_at (mi_x m) (mi_y m) (mi_z m)"
  by (simp add: getBasePosition_def)

lemmas exchange_defs = MACEMissionToMAVLINKMission_def Convert_MAVLINKTOMACE_def from_mavlink_def Let_def
  convertSpatial_def convertLoiter_def convertChangeSpeed_def convertRTL_def start_item_def
  initializeMAVLINKMissionItem_def updateMissionPosition_def setTargetSystem_def setOriginatingSystem_def
  getBasePosition_eq

fun without_timed_place :: "AbstractCommandItem \<Rightarrow> AbstractCommandItem" where
  "without_timed_place (SpatialLoiter_Time b p d r t) = SpatialLoiter_Time b None d r t"
| "without_timed_place item = item"

lemma item_exchange:
  assumes "rounding to_float" "carried to_float item" "item_base item = ItemBase_new sysID sysID"
  shows "\<exists>m. MACEMissionToMAVLINKMission to_float (Some item) i = Inr (Some m) \<and> mi_seq m = i
    \<and> Convert_MAVLINKTOMACE sysID m = Inr (Some (without_timed_place item))"
proof (cases item)
  case (ActionChangeSpeed b f s)
  then show ?thesis using assms by (cases f) (simp_all add: exchange_defs)
next
  case (SpatialLoiter_Time b p d r t)
  then show ?thesis using assms by (auto simp: exchange_defs radius_back)
next
  case (SpatialLoiter_Turns b p d r n)
  then have n: "to_float (Fin (real (unat n))) = Fin (real (unat n))"
    using assms(1,2) by (simp add: rounding_nat del: of_nat_unat unsigned_of_nat)
  show ?thesis
    using assms SpatialLoiter_Turns n turns_back [of n]
    by (auto simp: exchange_defs radius_back plain_place_def geodetic_at_def)
qed (use assms in \<open>auto simp: exchange_defs radius_back rounding_zero plain_place_def geodetic_at_def\<close>)

text \<open>
  C40: An item that is sent to the autopilot and read back is what it was, when the message can carry it; only
  a timed loiter comes back without its place, since the copy constructor of its class drops it.
\<close>

lemma mission_item_roundtrip:
  assumes "rounding to_float" "carried to_float item" "item_base item = ItemBase_new sysID sysID"
  shows "\<exists>m. MACEMissionToMAVLINKMission to_float (Some item) i = Inr (Some m) \<and> mi_seq m = i
    \<and> Convert_MAVLINKTOMACE sysID m = Inr (Some (without_timed_place item))"
  by (rule item_exchange [OF assms])

text \<open>A rounding that is as good as exact, for examples.\<close>

lemma rounding_id: "rounding (\<lambda>x. x)"
  by (simp add: rounding_def)

lemma mission_item_roundtrip_witness:
  "\<exists>m. MACEMissionToMAVLINKMission (\<lambda>x. x)
       (Some (SpatialLoiter_Turns (ItemBase_new 1 1) (Some (geodetic_at (Fin 35) (Fin 79) (Fin 20))) CCW (Fin 15) 3)) 2
       = Inr (Some m)
     \<and> Convert_MAVLINKTOMACE 1 m = Inr (Some
         (SpatialLoiter_Turns (ItemBase_new 1 1) (Some (geodetic_at (Fin 35) (Fin 79) (Fin 20))) CCW (Fin 15) 3))"
  using mission_item_roundtrip [OF rounding_id, of
    "SpatialLoiter_Turns (ItemBase_new 1 1) (Some (geodetic_at (Fin 35) (Fin 79) (Fin 20))) CCW (Fin 15) 3" 1 2]
  by (auto simp: plain_place_def plain_radius_def single_def)

text \<open>A timed loiter loses its place and its system on each way, also without an exchange of messages.\<close>

lemma timed_loiter_loses_place:
  "Convert_MAVLINKTOMACE sysID m = Inr (Some (SpatialLoiter_Time b p d r t)) \<Longrightarrow> p = None"
  by (auto simp: exchange_defs map_sum_def float_to_unsigned_def split: MAV_CMD.splits if_splits sum.splits dbl.splits)

end
