(* ===== verification/Vehicle_Mission.thy ===== *)
theory Vehicle_Mission
  imports Generic_Controller Mission_Items Mission
begin

text \<open>
  The controller that exchanges missions with the autopilot of a vehicle
  (\<open>MAVLINKUXVControllers::ControllerMission\<close>, \<open>src/src/controllers/controllers_MAVLINK/controller_mission.h\<close>): the
  download of the mission item by item, and the upload, in which the vehicle asks for the items.

  The key of a vehicle is an \<open>int\<close>; every transmission is queued under the same object, the null pointer.
  The messages of MAVLink are records with the fields of the protocol. \<open>to_float\<close> rounds a double to single
  precision, as in \<open>Mission_Items\<close>; \<open>draws\<close> are the random numbers that the queue draws.
\<close>

section \<open>Messages\<close>

record mavlink_mission_request_list_t =
  rl_target_system :: u8
  rl_target_component :: u8
  rl_mission_type :: u8

record mavlink_mission_count_t =
  mc_count :: "16 word"
  mc_target_system :: u8
  mc_target_component :: u8
  mc_mission_type :: u8

record mavlink_mission_request_t =
  mr_seq :: "16 word"
  mr_target_system :: u8
  mr_target_component :: u8
  mr_mission_type :: u8

record mavlink_mission_ack_t =
  ma_target_system :: u8
  ma_target_component :: u8
  ma_type :: u8
  ma_mission_type :: u8

datatype mavlink_message_t =
    MISSION_REQUEST_LIST mavlink_mission_request_list_t
  | MISSION_COUNT mavlink_mission_count_t
  | MISSION_REQUEST mavlink_mission_request_t
  | MISSION_ITEM mavlink_mission_item_t
  | MISSION_ACK mavlink_mission_ack_t

text \<open>The numbers of the messages that end a transmission.\<close>

datatype msgid = ID_MISSION_COUNT | ID_MISSION_REQUEST | ID_MISSION_ITEM | ID_MISSION_ACK

definition MAV_MISSION_ACCEPTED :: u8 where
  "MAV_MISSION_ACCEPTED = 0"

section \<open>The controller\<close>

type_synonym MissionDownloadResult = "SpatialHome \<times> AbstractCommandItem MissionList"

text \<open>\<open>onDataReceived\<close> hands a mission to those who asked for it: its calls are logged in \<open>delivered\<close>.\<close>

record ControllerMission = "(int, unit, msgid, mavlink_message_t) GenericController" +
  m_MissionDownloadCount :: int
  m_MissionDownloading :: "MissionDownloadResult option"
  m_MissionUploading :: "MissionDownloadResult option"
  delivered :: "(int \<times> MissionDownloadResult) list"

definition ControllerMission_new :: "int \<Rightarrow> int \<Rightarrow> ControllerMission" where
  "ControllerMission_new waitForRetries numRetries =
     \<lparr>transmitQueue = KeyedQueue_new waitForRetries numRetries, transmitActions = [], controllerActive = False,
      monitorActive = True, transmitted = [], finishes = [], m_MissionDownloadCount = - 1,
      m_MissionDownloading = None, m_MissionUploading = None, delivered = []\<rparr>"

type_synonym 'a mission_result = "(ControllerMission, 'a) outcome"

definition onDataReceived :: "int \<times> MissionDownloadResult \<Rightarrow> ControllerMission \<Rightarrow> ControllerMission" where
  "onDataReceived d c = c\<lparr>delivered := delivered c @ [d]\<rparr>"

text \<open>The constructed objects of the request for the list.\<close>

definition Request_Construct :: "int \<Rightarrow> int \<Rightarrow> ControllerMission \<Rightarrow> (mavlink_message_t \<times> unit) mission_result" where
  "Request_Construct sender target c =
     (c\<lparr>m_MissionDownloading := Some (SpatialHome_new, MissionList_default)\<rparr>,
      Inr (MISSION_REQUEST_LIST \<lparr>rl_target_system = word_of_int target, rl_target_component = 0,
             rl_mission_type = 0\<rparr>, ()))"

text \<open>\<open>Finish_Receive\<close> of a count: only a mission without items, not even the home position, ends here.\<close>

definition Finish_Receive_count :: "mavlink_message_t \<Rightarrow> int \<Rightarrow> ControllerMission \<Rightarrow> (u8 \<times> unit) option mission_result" where
  "Finish_Receive_count message sender c = (case message of
     MISSION_COUNT msg \<Rightarrow> if mc_count msg = 0 then (c, Inr (Some (- 1, ()))) else (c, Inr None)
   | _ \<Rightarrow> (c, Inr None))"

definition BuildData_Send_count ::
  "mavlink_message_t \<Rightarrow> int \<Rightarrow> ControllerMission \<Rightarrow> (mavlink_message_t \<times> int \<times> unit \<times> unit) option mission_result" where
  "BuildData_Send_count message sender c = (case message of
     MISSION_COUNT msg \<Rightarrow>
       if mc_count msg > 0
       then (let c = c\<lparr>m_MissionDownloadCount := int (unat (mc_count msg))\<rparr>
             in case m_MissionDownloading c of
                  None \<Rightarrow> (c, Inl Undefined_Behaviour)
                | Some (home, list) \<Rightarrow>
                    (c\<lparr>m_MissionDownloading := Some (home, initializeQueue (unat (mc_count msg) - 1) list)\<rparr>,
                     Inr (Some (MISSION_REQUEST \<lparr>mr_seq = 0, mr_target_system = mc_target_system msg,
                            mr_target_component = mc_target_component msg, mr_mission_type = mc_mission_type msg\<rparr>,
                          sender, (), ()))))
       else (c, Inr None)
   | _ \<Rightarrow> (c, Inr None))"

definition home_place :: "mavlink_mission_item_t \<Rightarrow> Pose" where
  "home_place msg = setAltitude (mi_z msg) (setLongitude (mi_y msg) (setLatitude (mi_x msg)
     ((GeodeticPosition_3D_new NaN)\<lparr>explicitFrame := Global_Frame CF_GLOBAL_AMSL,
        altitudeFrameType := REF_ALT_MSL\<rparr>)))"

definition home_from :: "mavlink_mission_item_t \<Rightarrow> int \<Rightarrow> SpatialHome \<Rightarrow> SpatialHome" where
  "home_from msg sender home = home\<lparr>home_position := Some (home_place msg),
     home_base := (home_base home)\<lparr>originatingSystem := word_of_int sender, targetSystem := word_of_int sender\<rparr>\<rparr>"

definition ReceiveMissionItem :: "mavlink_mission_item_t \<Rightarrow> int \<Rightarrow> ControllerMission \<Rightarrow> unit mission_result" where
  "ReceiveMissionItem msg sender c = (case m_MissionDownloading c of
     None \<Rightarrow> (c, Inl Undefined_Behaviour)
   | Some (home, list) \<Rightarrow>
       if mi_seq msg = 0
       then (c\<lparr>m_MissionDownloading := Some (home_from msg sender home, list)\<rparr>, Inr ())
       else (case Convert_MAVLINKTOMACE (word_of_int sender) msg of
               Inl e \<Rightarrow> (c, Inl e)
             | Inr newMissionItem \<Rightarrow>
                 (case replaceMissionItemAtIndex newMissionItem (ucast (mi_seq msg) - 1) list of
                    (list, r) \<Rightarrow> (c\<lparr>m_MissionDownloading := Some (home, list)\<rparr>, r))))"

definition BuildData_Send_item ::
  "mavlink_message_t \<Rightarrow> int \<Rightarrow> ControllerMission \<Rightarrow> (mavlink_message_t \<times> int \<times> unit \<times> unit) option mission_result" where
  "BuildData_Send_item message sender c = (case message of
     MISSION_ITEM msg \<Rightarrow>
       if m_MissionDownloadCount c = - 1 then (c, Inr None)
       else if int (unat (mi_seq msg)) < m_MissionDownloadCount c - 1
       then obind (ReceiveMissionItem msg sender c) (\<lambda>c u.
              (c, Inr (Some (MISSION_REQUEST \<lparr>mr_seq = mi_seq msg + 1, mr_target_system = mi_target_system msg,
                         mr_target_component = mi_target_component msg, mr_mission_type = mi_mission_type msg\<rparr>,
                       sender, (), ()))))
       else (c, Inr None)
   | _ \<Rightarrow> (c, Inr None))"

definition Construct_FinalObjectAndResponse ::
  "mavlink_message_t \<Rightarrow> int \<Rightarrow> ControllerMission
     \<Rightarrow> (mavlink_message_t \<times> (int \<times> MissionDownloadResult) \<times> int \<times> unit) option mission_result" where
  "Construct_FinalObjectAndResponse message sender c = (case message of
     MISSION_ITEM msg \<Rightarrow>
       if int (unat (mi_seq msg)) = m_MissionDownloadCount c - 1
       then obind (ReceiveMissionItem msg sender c) (\<lambda>c u.
              case m_MissionDownloading c of
                None \<Rightarrow> (c, Inl Undefined_Behaviour)
              | Some data \<Rightarrow>
                  (c\<lparr>m_MissionDownloadCount := - 1, m_MissionDownloading := None\<rparr>,
                   Inr (Some (MISSION_ACK \<lparr>ma_target_system = mi_target_system msg,
                          ma_target_component = mi_target_component msg, ma_type = MAV_MISSION_ACCEPTED,
                          ma_mission_type = mi_mission_type msg\<rparr>, (sender, data), sender, ()))))
       else (c, Inr None)
   | _ \<Rightarrow> (c, Inr None))"

definition Construct_Send ::
  "MissionDownloadResult \<Rightarrow> int \<Rightarrow> int \<Rightarrow> ControllerMission \<Rightarrow> (mavlink_message_t \<times> unit) option mission_result" where
  "Construct_Send data sender target c =
     (c\<lparr>m_MissionUploading := Some data\<rparr>,
      Inr (Some (MISSION_COUNT \<lparr>mc_count = of_nat (getQueueSize (snd data) + 1),
             mc_target_system = word_of_int target, mc_target_component = 1, mc_mission_type = 0\<rparr>, ())))"

text \<open>
  The vehicle asks for an item. The return value of the conversion is ignored: the message that is
  transmitted for an item that cannot be converted was never initialised.
\<close>

definition upload_item :: "(dbl \<Rightarrow> dbl) \<Rightarrow> MissionDownloadResult \<Rightarrow> mavlink_mission_request_t \<Rightarrow> cpp_error + mavlink_mission_item_t" where
  "upload_item to_float uploading msg =
     (if mr_seq msg = 0
      then map_sum id (\<lambda>cmd. cmd\<lparr>mi_target_system := mr_target_system msg, mi_target_component := 1\<rparr>)
             (convertHome to_float (fst uploading))
      else (case getMissionItem (ucast (mr_seq msg) - 1) (snd uploading) of
              Inl e \<Rightarrow> Inl e
            | Inr ptrItem \<Rightarrow>
                (case MACEMissionToMAVLINKMission to_float ptrItem (mr_seq msg) of
                   Inl e \<Rightarrow> Inl e
                 | Inr None \<Rightarrow> Inl Undefined_Behaviour
                 | Inr (Some cmd) \<Rightarrow> Inr (cmd\<lparr>mi_target_component := 1\<rparr>))))"

definition BuildData_Send_request ::
  "(dbl \<Rightarrow> dbl) \<Rightarrow> mavlink_message_t \<Rightarrow> int \<Rightarrow> ControllerMission
     \<Rightarrow> (mavlink_message_t \<times> int \<times> unit \<times> unit) option mission_result" where
  "BuildData_Send_request to_float message sender c = (case message of
     MISSION_REQUEST msg \<Rightarrow>
       (case m_MissionUploading c of
          None \<Rightarrow> (c, Inr None)
        | Some uploading \<Rightarrow>
            (case upload_item to_float uploading msg of
               Inl e \<Rightarrow> (c, Inl e)
             | Inr cmd \<Rightarrow> (c, Inr (Some (MISSION_ITEM cmd, sender, (), ())))))
   | _ \<Rightarrow> (c, Inr None))"

definition Finish_Receive_ack :: "mavlink_message_t \<Rightarrow> int \<Rightarrow> ControllerMission \<Rightarrow> (u8 \<times> unit) option mission_result" where
  "Finish_Receive_ack message sender c = (case message of
     MISSION_ACK msg \<Rightarrow> (c\<lparr>m_MissionUploading := None\<rparr>, Inr (Some (ma_type msg, ())))
   | _ \<Rightarrow> (c, Inr None))"

text \<open>The actions, in the order in which the constructor adds their behaviours.\<close>

definition mission_behaviors ::
  "(dbl \<Rightarrow> dbl) \<Rightarrow> int list \<Rightarrow> (mavlink_message_t \<Rightarrow> int \<Rightarrow> ControllerMission \<Rightarrow> bool mission_result) list" where
  "mission_behaviors to_float draws =
     [ActionFinish Finish_Receive_count ID_MISSION_COUNT,
      ActionIntermediateReceive BuildData_Send_count ID_MISSION_COUNT (NextTransmission [ID_MISSION_ITEM] draws),
      ActionIntermediateReceive BuildData_Send_item ID_MISSION_ITEM (NextTransmission [ID_MISSION_ITEM] draws),
      ActionFinalReceiveRespond Construct_FinalObjectAndResponse onDataReceived ID_MISSION_ITEM,
      ActionIntermediateReceive (BuildData_Send_request to_float) ID_MISSION_REQUEST
        (NextTransmission [ID_MISSION_REQUEST, ID_MISSION_ACK] draws),
      ActionFinish Finish_Receive_ack ID_MISSION_ACK]"

definition receive :: "(dbl \<Rightarrow> dbl) \<Rightarrow> int list \<Rightarrow> mavlink_message_t \<Rightarrow> int \<Rightarrow> ControllerMission \<Rightarrow> bool mission_result" where
  "receive to_float draws = ReceiveMessage (mission_behaviors to_float draws)"

definition GetMissions :: "int list \<Rightarrow> int \<Rightarrow> ControllerMission \<Rightarrow> unit mission_result" where
  "GetMissions draws vehicle =
     ActionRequest_Request Request_Construct [ID_MISSION_COUNT] draws vehicle vehicle"

definition UploadMission ::
  "int list \<Rightarrow> AbstractCommandItem MissionList \<Rightarrow> SpatialHome \<Rightarrow> int \<Rightarrow> ControllerMission \<Rightarrow> unit mission_result" where
  "UploadMission draws mission home vehicle =
     ActionSend_Send Construct_Send ID_MISSION_REQUEST draws (home, mission) vehicle vehicle"

section \<open>The parts of a session\<close>

text \<open>
  What happens to a controller after a request was made: the loop of the queue attempts an entry, a failed entry is
  removed, a message comes in.
\<close>

datatype mission_event =
    Attempt_Entry int int                     \<comment> \<open>time and number of the entry\<close>
  | Reap_Entry int
  | Message "int list" mavlink_message_t int  \<comment> \<open>numbers drawn, message and sender\<close>

fun mission_step :: "(dbl \<Rightarrow> dbl) \<Rightarrow> mission_event \<Rightarrow> ControllerMission \<Rightarrow> unit mission_result" where
  "mission_step to_float (Attempt_Entry now n) c = attempt_entry now n c"
| "mission_step to_float (Reap_Entry n) c = (reap_entry n c, Inr ())"
| "mission_step to_float (Message draws m sender) c = obind (receive to_float draws m sender c) (\<lambda>c used. (c, Inr ()))"

lemma mission_more:
  "GenericController.more c = GenericController.more d \<Longrightarrow> m_MissionDownloadCount c = m_MissionDownloadCount d"
  "GenericController.more c = GenericController.more d \<Longrightarrow> m_MissionDownloading c = m_MissionDownloading d"
  "GenericController.more c = GenericController.more d \<Longrightarrow> m_MissionUploading c = m_MissionUploading d"
  "GenericController.more c = GenericController.more d \<Longrightarrow> delivered c = delivered d"
  by (cases c; cases d; simp)+

lemma mission_fields_ok [simp]:
  "controller_ok (c\<lparr>m_MissionDownloadCount := n\<rparr>) = controller_ok c"
  "controller_ok (c\<lparr>m_MissionDownloading := d\<rparr>) = controller_ok c"
  "controller_ok (c\<lparr>m_MissionUploading := u\<rparr>) = controller_ok c"
  "controller_ok (c\<lparr>delivered := l\<rparr>) = controller_ok c"
  by (simp_all add: controller_ok_def)

lemma mission_fields_spoken [simp]:
  "spoken (c\<lparr>m_MissionDownloadCount := n\<rparr>) = spoken c"
  "spoken (c\<lparr>m_MissionDownloading := d\<rparr>) = spoken c"
  "spoken (c\<lparr>m_MissionUploading := u\<rparr>) = spoken c"
  "spoken (c\<lparr>delivered := l\<rparr>) = spoken c"
  by (simp_all add: spoken_def)

text \<open>Which behaviour takes a message.\<close>

lemma unused:
  "BuildData_Send m s c = (c, Inr None) \<Longrightarrow> ActionIntermediateReceive BuildData_Send i next m s c = (c, Inr False)"
  "Finish_Receive m s c = (c, Inr None) \<Longrightarrow> ActionFinish Finish_Receive i m s c = (c, Inr False)"
  "Construct m s c = (c, Inr None) \<Longrightarrow> ActionFinalReceiveRespond Construct f i m s c = (c, Inr False)"
  by (simp_all add: ActionIntermediateReceive_def ActionFinish_def ActionFinalReceiveRespond_def)

lemmas mission_constructs = Finish_Receive_count_def BuildData_Send_count_def BuildData_Send_item_def
  Construct_FinalObjectAndResponse_def BuildData_Send_request_def Finish_Receive_ack_def

lemma receive_count:
  assumes "mc_count k > 0" "controllerActive c \<or> \<not> monitorActive c"
    "snd (ActionIntermediateReceive BuildData_Send_count ID_MISSION_COUNT
        (NextTransmission [ID_MISSION_ITEM] draws) (MISSION_COUNT k) s c) \<noteq> Inr False"
  shows "receive to_float draws (MISSION_COUNT k) s c =
    ActionIntermediateReceive BuildData_Send_count ID_MISSION_COUNT
      (NextTransmission [ID_MISSION_ITEM] draws) (MISSION_COUNT k) s c"
proof -
  let ?r = "ActionIntermediateReceive BuildData_Send_count ID_MISSION_COUNT
      (NextTransmission [ID_MISSION_ITEM] draws) (MISSION_COUNT k) s c"
  obtain c' x where r: "?r = (c', x)" by (cases ?r)
  show ?thesis
    using assms r
    by (cases x) (auto simp: receive_def ReceiveMessage_def mission_behaviors_def unused Finish_Receive_count_def)
qed

lemma receive_item_next:
  assumes "m_MissionDownloadCount c \<noteq> - 1" "int (unat (mi_seq m)) < m_MissionDownloadCount c - 1"
    "controllerActive c \<or> \<not> monitorActive c"
    "snd (ActionIntermediateReceive BuildData_Send_item ID_MISSION_ITEM
      (NextTransmission [ID_MISSION_ITEM] draws) (MISSION_ITEM m) s c) \<noteq> Inr False"
  shows "receive to_float draws (MISSION_ITEM m) s c =
    ActionIntermediateReceive BuildData_Send_item ID_MISSION_ITEM
      (NextTransmission [ID_MISSION_ITEM] draws) (MISSION_ITEM m) s c"
proof -
  let ?r = "ActionIntermediateReceive BuildData_Send_item ID_MISSION_ITEM
      (NextTransmission [ID_MISSION_ITEM] draws) (MISSION_ITEM m) s c"
  obtain c' x where r: "?r = (c', x)" by (cases ?r)
  show ?thesis
    using assms r
    by (cases x) (auto simp: receive_def ReceiveMessage_def mission_behaviors_def unused Finish_Receive_count_def
        BuildData_Send_count_def)
qed

lemma receive_item_final:
  assumes "int (unat (mi_seq m)) = m_MissionDownloadCount c - 1" "controllerActive c \<or> \<not> monitorActive c"
    "ActionFinalReceiveRespond Construct_FinalObjectAndResponse onDataReceived ID_MISSION_ITEM (MISSION_ITEM m) s c
       = (c', Inr True)"
  shows "receive to_float draws (MISSION_ITEM m) s c = (c', Inr True)"
proof -
  have "BuildData_Send_item (MISSION_ITEM m) s c = (c, Inr None)"
    using assms(1) by (auto simp: BuildData_Send_item_def)
  then show ?thesis
    using assms by (auto simp: receive_def ReceiveMessage_def mission_behaviors_def unused Finish_Receive_count_def
        BuildData_Send_count_def)
qed

lemma receive_item_idle:
  assumes "m_MissionDownloadCount c = - 1"
  shows "receive to_float draws (MISSION_ITEM m) s c = (c, Inr False)"
proof -
  have "int (unat (mi_seq m)) \<noteq> - 2" by linarith
  then have "Construct_FinalObjectAndResponse (MISSION_ITEM m) s c = (c, Inr None)"
    using assms by (simp add: Construct_FinalObjectAndResponse_def)
  then show ?thesis
    using assms by (simp add: receive_def ReceiveMessage_def mission_behaviors_def unused Finish_Receive_count_def
        BuildData_Send_count_def BuildData_Send_item_def BuildData_Send_request_def Finish_Receive_ack_def)
qed

lemma receive_inactive:
  "monitorActive c \<Longrightarrow> \<not> controllerActive c \<Longrightarrow> receive to_float draws m s c = (c, Inr False)"
  by (simp add: receive_def ReceiveMessage_def)

end
