(* ===== verification/Mission_Download.thy ===== *)
theory Mission_Download
  imports Vehicle_Mission
begin

text \<open>
  The download of a mission from a vehicle that answers what it is asked, over a network that loses messages,
  repeats them and changes their order (\<open>MAVLINKUXVControllers::ControllerMission\<close>).
\<close>

section \<open>The vehicle\<close>

text \<open>
  The vehicle has the list \<open>W\<close> of items, the home position first, each with its number. The mission that a
  download should deliver has the home position of the first item and the converted other items.
\<close>

definition item_read :: "int \<Rightarrow> mavlink_mission_item_t \<Rightarrow> AbstractCommandItem option" where
  "item_read v m = (case Convert_MAVLINKTOMACE (word_of_int v) m of Inr i \<Rightarrow> i | Inl e \<Rightarrow> None)"

definition mission_on_vehicle :: "int \<Rightarrow> mavlink_mission_item_t list \<Rightarrow> bool" where
  "mission_on_vehicle v W \<longleftrightarrow> W \<noteq> [] \<and> length W < 2 ^ 16 \<and> (\<forall>k < length W. mi_seq (W ! k) = of_nat k)
     \<and> (\<forall>m \<in> set (tl W). \<exists>i. Convert_MAVLINKTOMACE (word_of_int v) m = Inr i)"

definition mission_of :: "int \<Rightarrow> mavlink_mission_item_t list \<Rightarrow> MissionDownloadResult" where
  "mission_of v W = (home_from (hd W) v SpatialHome_new,
     MissionList_default\<lparr>missionQueue := map (item_read v) (tl W)\<rparr>)"

text \<open>
  What may happen: the queue works; the count of the mission comes in, once, when the list was requested; an item
  comes in, any number of times and at any time after it was requested.
\<close>

fun download_possible :: "int \<Rightarrow> mavlink_mission_item_t list \<Rightarrow> ControllerMission \<Rightarrow> mission_event \<Rightarrow> bool" where
  "download_possible v W c (Message draws m s) \<longleftrightarrow> s = v \<and> (case m of
      MISSION_COUNT k \<Rightarrow> unat (mc_count k) = length W \<and> m_MissionDownloadCount c = - 1 \<and> delivered c = []
        \<and> (\<exists>r. MISSION_REQUEST_LIST r \<in> fst ` set (transmitted c))
    | MISSION_ITEM i \<Rightarrow> (\<exists>r. MISSION_REQUEST r \<in> fst ` set (transmitted c) \<and> unat (mr_seq r) < length W
        \<and> i = W ! unat (mr_seq r))
    | _ \<Rightarrow> False)"
| "download_possible v W c e \<longleftrightarrow> True"

section \<open>The invariant\<close>

text \<open>\<open>received k\<close>: every item before the \<open>k\<close>-th is in its place.\<close>

definition items_before :: "int \<Rightarrow> mavlink_mission_item_t list \<Rightarrow> nat \<Rightarrow> MissionDownloadResult \<Rightarrow> bool" where
  "items_before v W k d \<longleftrightarrow> k \<le> length W \<and> (0 < k \<longrightarrow> fst d = fst (mission_of v W))
     \<and> (\<forall>j < k - 1. missionQueue (snd d) ! j = missionQueue (snd (mission_of v W)) ! j)"

definition collecting :: "int \<Rightarrow> mavlink_mission_item_t list \<Rightarrow> MissionDownloadResult \<Rightarrow> bool" where
  "collecting v W d \<longleftrightarrow> fst d \<in> {SpatialHome_new, fst (mission_of v W)}
     \<and> snd d = MissionList_default\<lparr>missionQueue := missionQueue (snd d)\<rparr>
     \<and> length (missionQueue (snd d)) = length W - 1"

definition download_inv :: "int \<Rightarrow> mavlink_mission_item_t list \<Rightarrow> ControllerMission \<Rightarrow> bool" where
  "download_inv v W c \<longleftrightarrow> controller_ok c \<and>
     (if delivered c \<noteq> [] then delivered c = [(v, mission_of v W)] \<and> m_MissionDownloadCount c = - 1
      else if m_MissionDownloadCount c = - 1
      then m_MissionDownloading c = Some (SpatialHome_new, MissionList_default)
         \<and> (\<forall>r. MISSION_REQUEST r \<notin> spoken c)
      else m_MissionDownloadCount c = int (length W)
         \<and> (\<exists>d. m_MissionDownloading c = Some d \<and> collecting v W d
              \<and> (\<forall>r. MISSION_REQUEST r \<in> spoken c \<longrightarrow> unat (mr_seq r) < length W \<and> items_before v W (unat (mr_seq r)) d)))"

lemma home_from_again [simp]: "home_from m v (home_from m v h) = home_from m v h"
  by (simp add: home_from_def)

lemma queue_update_same: "l\<lparr>missionQueue := missionQueue l\<rparr> = (l :: 'i MissionList)"
  by simp

lemma collect_item:
  assumes W: "mission_on_vehicle v W" "k < length W" and d: "collecting v W d" "items_before v W k d"
    and c: "m_MissionDownloading c = Some d"
  shows "\<exists>d'. ReceiveMissionItem (W ! k) v c = (c\<lparr>m_MissionDownloading := Some d'\<rparr>, Inr ())
     \<and> collecting v W d' \<and> items_before v W (Suc k) d'
     \<and> (\<forall>j. items_before v W j d \<longrightarrow> items_before v W j d')"
proof -
  obtain home list where hl: "d = (home, list)" by (cases d)
  have seq: "mi_seq (W ! k) = of_nat k" using W by (simp add: mission_on_vehicle_def)
  have small: "k < 2 ^ LENGTH(16)" using W by (simp add: mission_on_vehicle_def)
  show ?thesis
  proof (cases k)
    case 0
    then have m: "W ! 0 = hd W" using W(2) by (simp add: hd_conv_nth)
    let ?d = "(home_from (hd W) v home, list)"
    have home: "home_from (hd W) v home = fst (mission_of v W)"
      using d(1) hl by (auto simp: collecting_def mission_of_def)
    have "ReceiveMissionItem (W ! k) v c = (c\<lparr>m_MissionDownloading := Some ?d\<rparr>, Inr ())"
      using seq 0 c hl by (simp add: ReceiveMissionItem_def m)
    moreover have "collecting v W ?d" using d(1) hl home by (simp add: collecting_def)
    moreover have "items_before v W (Suc k) ?d" using home W(2) by (simp add: items_before_def 0 Suc_le_eq)
    moreover have "items_before v W j d \<longrightarrow> items_before v W j ?d" for j
      using hl home by (simp add: items_before_def)
    ultimately show ?thesis by blast
  next
    case (Suc i)
    have unat: "unat (of_nat k :: 16 word) = k"
      using small by (simp add: unsigned_of_nat take_bit_nat_eq_self)
    have nz: "mi_seq (W ! k) \<noteq> 0" using seq unat Suc by (metis nat.distinct(1) unat_0)
    have idx: "unat (ucast (of_nat k :: 16 word) - 1 :: u32) = i"
    proof -
      have "of_nat (unat (of_nat k :: 16 word)) = (ucast (of_nat k :: 16 word) :: u32)"
        by (rule of_nat_unat)
      then have u: "(ucast (of_nat k :: 16 word) :: u32) = of_nat k" unfolding unat by (rule sym)
      have "(ucast (of_nat k :: 16 word) :: u32) - 1 = of_nat i" unfolding u by (simp add: Suc)
      then show ?thesis using small Suc by (simp add: unsigned_of_nat take_bit_nat_eq_self)
    qed
    have eq: "list = MissionList_default\<lparr>missionQueue := missionQueue list\<rparr>"
      using d(1) hl by (simp add: collecting_def)
    have l: "list\<lparr>missionQueue := Q\<rparr> = MissionList_default\<lparr>missionQueue := Q\<rparr>" for Q
      using arg_cong [OF eq, of "missionQueue_update (\<lambda>_. Q)"] by simp
    have i: "i < length (missionQueue list)" "i < length (tl W)"
      using d(1) hl W(2) Suc by (auto simp: collecting_def)
    have nth: "W ! k = tl W ! i" using Suc W(2) i(2) by (simp add: nth_tl)
    then obtain x where x: "Convert_MAVLINKTOMACE (word_of_int v) (W ! k) = Inr x"
      using W(1) i(2) unfolding mission_on_vehicle_def by (metis nth_mem)
    have right: "missionQueue (snd (mission_of v W)) ! i = x"
      using i(2) x nth by (simp add: mission_of_def item_read_def)
    let ?d = "(home, list\<lparr>missionQueue := (missionQueue list)[i := x]\<rparr>)"
    have "ReceiveMissionItem (W ! k) v c = (c\<lparr>m_MissionDownloading := Some ?d\<rparr>, Inr ())"
      using nz c hl x idx [folded seq] i(1) by (simp add: ReceiveMissionItem_def replaceMissionItemAtIndex_def)
    moreover have "collecting v W ?d"
      using d(1) hl l by (simp add: collecting_def)
    moreover have "items_before v W (Suc k) ?d"
    proof -
      have "missionQueue list ! j = missionQueue (snd (mission_of v W)) ! j" if "j < i" for j
        using d(2) hl that Suc by (simp add: items_before_def)
      then show ?thesis
        using d(2) hl right i(1) W(2) Suc by (auto simp: items_before_def nth_list_update less_Suc_eq)
    qed
    moreover have "items_before v W j d \<longrightarrow> items_before v W j ?d" for j
      using hl right i(1) by (auto simp: items_before_def nth_list_update)
    ultimately show ?thesis by blast
  qed
qed

section \<open>The steps\<close>

lemma inv_quiet:
  assumes "download_inv v W c" "controller_ok c'" "spoken c' \<subseteq> spoken c"
    "GenericController.more c' = GenericController.more c"
  shows "download_inv v W c'"
  using assms(1,2,3) mission_more [OF assms(4)] unfolding download_inv_def
  by (auto split: if_splits)

lemma inv_ok: "download_inv v W c \<Longrightarrow> controller_ok c"
  by (simp add: download_inv_def)

text \<open>A message changes the controller and ends well, or waits for a number.\<close>

definition step_good :: "int \<Rightarrow> mavlink_mission_item_t list \<Rightarrow> (ControllerMission, bool) outcome \<Rightarrow> bool" where
  "step_good v W r \<longleftrightarrow> download_inv v W (fst r) \<and> (\<forall>e. snd r = Inl e \<longrightarrow> e = Blocked)"

lemma step_good_ignored: "download_inv v W c \<Longrightarrow> step_good v W (c, Inr b)"
  by (simp add: step_good_def)

lemma collecting_start:
  "W \<noteq> [] \<Longrightarrow> collecting v W (SpatialHome_new, initializeQueue (length W - 1) MissionList_default)"
  by (simp add: collecting_def initializeQueue_def Let_def MissionList_default_def)

lemma count_step:
  assumes W: "mission_on_vehicle v W" and inv: "download_inv v W c"
    and k: "unat (mc_count k) = length W" "m_MissionDownloadCount c = - 1" "delivered c = []"
  shows "step_good v W (receive to_float draws (MISSION_COUNT k) v c)"
proof (cases "controllerActive c \<or> \<not> monitorActive c")
  case active: True
  let ?list = "initializeQueue (length W - 1) MissionList_default :: AbstractCommandItem MissionList"
  let ?c = "c\<lparr>m_MissionDownloadCount := int (length W), m_MissionDownloading := Some (SpatialHome_new, ?list)\<rparr>"
  let ?ask = "MISSION_REQUEST \<lparr>mr_seq = 0, mr_target_system = mc_target_system k,
      mr_target_component = mc_target_component k, mr_mission_type = mc_mission_type k\<rparr>"
  let ?r = "ActionIntermediateReceive BuildData_Send_count ID_MISSION_COUNT
      (NextTransmission [ID_MISSION_ITEM] draws) (MISSION_COUNT k) v c"
  have ne: "W \<noteq> []" using W by (simp add: mission_on_vehicle_def)
  then have pos: "mc_count k > 0" using k(1) by (metis length_greater_0_conv unat_gt_0 word_neq_0_conv)
  have c: "m_MissionDownloading c = Some (SpatialHome_new, MissionList_default)"
    "\<And>r. MISSION_REQUEST r \<notin> spoken c"
    using inv k(2,3) by (auto simp: download_inv_def)
  have b: "BuildData_Send_count (MISSION_COUNT k) v c = (?c, Inr (Some (?ask, v, (), ())))"
    using pos c(1) k(1) by (simp add: BuildData_Send_count_def Let_def)
  have keeps: "keeps_order {?ask} ?c True ?r"
    by (rule keeps_intermediate [where BuildData_Send = BuildData_Send_count, OF b]) (use inv in \<open>simp_all add: download_inv_def\<close>)
  note more = mission_more [where c = "fst ?r" and d = ?c]
  have fields: "m_MissionDownloadCount (fst ?r) = int (length W)" "delivered (fst ?r) = []"
    "m_MissionDownloading (fst ?r) = Some (SpatialHome_new, ?list)"
    using keeps more k(3) by (simp_all add: keeps_order_def)
  have asked: "mr_seq r = 0" if "MISSION_REQUEST r \<in> spoken (fst ?r)" for r
    using keeps c(2) that by (auto simp: keeps_order_def)
  have "download_inv v W (fst ?r)"
    unfolding download_inv_def fields
    using keeps asked ne collecting_start [OF ne] by (auto simp: keeps_order_def items_before_def)
  then have "step_good v W ?r" using keeps by (auto simp: step_good_def keeps_order_def)
  moreover have "receive to_float draws (MISSION_COUNT k) v c = ?r"
    using keeps by (intro receive_count [OF pos active]) (auto simp: keeps_order_def)
  ultimately show ?thesis by simp
next
  case False
  then show ?thesis using inv by (simp add: receive_inactive step_good_ignored)
qed

lemma item_step:
  assumes W: "mission_on_vehicle v W" and inv: "download_inv v W c"
    and r: "MISSION_REQUEST r \<in> spoken c" and k: "k = unat (mr_seq r)" "k < length W"
  shows "step_good v W (receive to_float draws (MISSION_ITEM (W ! k)) v c)"
proof (cases "(controllerActive c \<or> \<not> monitorActive c) \<and> m_MissionDownloadCount c \<noteq> - 1")
  case True
  then have active: "controllerActive c \<or> \<not> monitorActive c" and n: "m_MissionDownloadCount c \<noteq> - 1" by auto
  have none: "delivered c = []" using inv n by (auto simp: download_inv_def split: if_splits)
  obtain d where count: "m_MissionDownloadCount c = int (length W)"
    and d: "m_MissionDownloading c = Some d" "collecting v W d"
    and asked: "\<And>r. MISSION_REQUEST r \<in> spoken c \<Longrightarrow> unat (mr_seq r) < length W \<and> items_before v W (unat (mr_seq r)) d"
    using inv n none by (auto simp: download_inv_def)
  obtain d' where store: "ReceiveMissionItem (W ! k) v c = (c\<lparr>m_MissionDownloading := Some d'\<rparr>, Inr ())"
    and d': "collecting v W d'" "items_before v W (Suc k) d'"
      "\<And>j. items_before v W j d \<Longrightarrow> items_before v W j d'"
    using collect_item [OF W k(2) d(2) _ d(1)] asked [OF r] k(1) by blast
  have small: "k < 2 ^ LENGTH(16)" "length W < 2 ^ LENGTH(16)"
    using W k(2) by (simp_all add: mission_on_vehicle_def)
  have seq: "mi_seq (W ! k) = of_nat k" using W k(2) by (simp add: mission_on_vehicle_def)
  have unat: "unat (mi_seq (W ! k)) = k"
    unfolding seq using small(1) by (simp add: unsigned_of_nat take_bit_nat_eq_self)
  show ?thesis
  proof (cases "Suc k < length W")
    case more: True
    let ?ask = "MISSION_REQUEST \<lparr>mr_seq = mi_seq (W ! k) + 1, mr_target_system = mi_target_system (W ! k),
        mr_target_component = mi_target_component (W ! k), mr_mission_type = mi_mission_type (W ! k)\<rparr>"
    let ?r = "ActionIntermediateReceive BuildData_Send_item ID_MISSION_ITEM
        (NextTransmission [ID_MISSION_ITEM] draws) (MISSION_ITEM (W ! k)) v c"
    let ?c = "c\<lparr>m_MissionDownloading := Some d'\<rparr>"
    have b: "BuildData_Send_item (MISSION_ITEM (W ! k)) v c = (?c, Inr (Some (?ask, v, (), ())))"
      using more n count unat store by (simp add: BuildData_Send_item_def)
    have keeps: "keeps_order {?ask} ?c True ?r"
      by (rule keeps_intermediate [where BuildData_Send = BuildData_Send_item, OF b]) (use inv in \<open>simp_all add: download_inv_def\<close>)
    have fields: "m_MissionDownloadCount (fst ?r) = int (length W)" "delivered (fst ?r) = []"
      "m_MissionDownloading (fst ?r) = Some d'"
      using keeps mission_more [where c = "fst ?r" and d = ?c] none count by (simp_all add: keeps_order_def)
    have "unat (mi_seq (W ! k) + 1) = Suc k"
    proof -
      have "mi_seq (W ! k) + 1 = of_nat (Suc k)" unfolding seq by simp
      then show ?thesis using more small(2) by (simp add: unsigned_of_nat take_bit_nat_eq_self del: of_nat_Suc)
    qed
    then have "unat (mr_seq r) < length W \<and> items_before v W (unat (mr_seq r)) d'"
      if "MISSION_REQUEST r \<in> spoken (fst ?r)" for r
      using keeps asked [of r] d'(2,3) more that by (auto simp: keeps_order_def)
    then have "download_inv v W (fst ?r)"
      unfolding download_inv_def fields using keeps d'(1) by (simp add: keeps_order_def)
    then have "step_good v W ?r" using keeps by (auto simp: step_good_def keeps_order_def)
    moreover have "receive to_float draws (MISSION_ITEM (W ! k)) v c = ?r"
      using keeps more count unat n by (intro receive_item_next active) (auto simp: keeps_order_def)
    ultimately show ?thesis by simp
  next
    case False
    then have last: "Suc k = length W" using k(2) by simp
    have "d' = mission_of v W"
    proof (rule prod_eqI)
      have "missionQueue (snd d') = missionQueue (snd (mission_of v W))"
        using d'(1,2) last by (intro nth_equalityI) (auto simp: collecting_def items_before_def mission_of_def)
      then show "snd d' = snd (mission_of v W)"
        using d'(1) by (simp add: collecting_def mission_of_def)
    qed (use d'(2) in \<open>simp add: items_before_def\<close>)
    let ?c = "c\<lparr>m_MissionDownloading := None, m_MissionDownloadCount := - 1\<rparr>"
    obtain ack where b: "Construct_FinalObjectAndResponse (MISSION_ITEM (W ! k)) v c
        = (?c, Inr (Some (ack, (v, mission_of v W), v, ())))"
      using last count unat store \<open>d' = mission_of v W\<close> by (simp add: Construct_FinalObjectAndResponse_def)
    obtain c'' where f: "ActionFinalReceiveRespond Construct_FinalObjectAndResponse onDataReceived ID_MISSION_ITEM
        (MISSION_ITEM (W ! k)) v c = (EncodeMessage ack v v (onDataReceived (v, mission_of v W) c''), Inr True)"
      and c'': "controller_ok c''" "GenericController.more c'' = GenericController.more ?c"
      using keeps_final [where Construct = Construct_FinalObjectAndResponse and f = onDataReceived and i = ID_MISSION_ITEM, OF b] inv
      by (auto simp: download_inv_def onDataReceived_def)
    let ?e = "EncodeMessage ack v v (onDataReceived (v, mission_of v W) c'')"
    have "delivered ?e = [(v, mission_of v W)]" "m_MissionDownloadCount ?e = - 1"
      using mission_more [OF c''(2)] none by (simp_all add: EncodeMessage_def onDataReceived_def)
    then have "download_inv v W ?e"
      using c''(1) by (simp add: download_inv_def) (simp add: onDataReceived_def)
    then show ?thesis
      using receive_item_final [OF _ active f] count unat last by (simp add: step_good_def)
  qed
next
  case False
  then show ?thesis using inv by (auto simp: receive_inactive receive_item_idle step_good_ignored)
qed

section \<open>Downloads are correct\<close>

lemma download_step:
  assumes "mission_on_vehicle v W" "download_inv v W c" "download_possible v W c e"
  shows "download_inv v W (fst (mission_step to_float e c))
     \<and> snd (mission_step to_float e c) \<in> {Inr (), Inl Blocked}"
proof -
  have message: ?thesis if "e = Message draws m v" "step_good v W (receive to_float draws m v c)" for draws m
    using that by (cases "receive to_float draws m v c"; cases "snd (receive to_float draws m v c)")
      (auto simp: step_good_def)
  show ?thesis
  proof (cases e)
    case (Attempt_Entry now n)
    then show ?thesis
      using keeps_attempt [OF inv_ok [OF assms(2)], of now n] inv_quiet [OF assms(2)] by (simp add: keeps_order_def)
  next
    case (Reap_Entry n)
    then show ?thesis
      using keeps_reap [OF inv_ok [OF assms(2)], of n] inv_quiet [OF assms(2)] by (simp add: keeps_order_def)
  next
    case (Message draws m s)
    have heard: "x \<in> spoken c" if "x \<in> fst ` set (transmitted c)" for x using that by (simp add: spoken_def)
    show ?thesis
    proof (cases m)
      case (MISSION_COUNT k)
      then show ?thesis using message count_step [OF assms(1,2)] assms(3) Message by auto
    next
      case (MISSION_ITEM i)
      then obtain r where "MISSION_REQUEST r \<in> fst ` set (transmitted c)" "unat (mr_seq r) < length W"
        "i = W ! unat (mr_seq r)" "s = v" using assms(3) Message by auto
      then show ?thesis
        using message [of draws m] item_step [OF assms(1,2) heard refl] Message MISSION_ITEM by blast
    qed (use assms(3) Message in simp_all)
  qed
qed

interpretation download: session "mission_step to_float" "download_possible v W"
  "\<lambda>c. mission_on_vehicle v W \<and> download_inv v W c" for to_float v W
  by unfold_locales (use download_step in blast)

text \<open>The state after \<open>GetMissions\<close>.\<close>

lemma controller_new_ok: "controller_ok (ControllerMission_new w r)"
  by (simp add: controller_ok_def ControllerMission_new_def queue_ok_def in_sync_new)
    (simp add: KeyedQueue_new_def)

lemma download_start:
  assumes "GetMissions draws v (ControllerMission_new w r) = (c, res)"
  shows "download_inv v W c"
proof -
  let ?c = "(ControllerMission_new w r)\<lparr>m_MissionDownloading := Some (SpatialHome_new, MissionList_default)\<rparr>"
  let ?m = "MISSION_REQUEST_LIST \<lparr>rl_target_system = word_of_int v, rl_target_component = 0, rl_mission_type = 0\<rparr>"
  have "(c, res) = queue_message () [ID_MISSION_COUNT] v draws (?m, v) ?c"
    using assms by (simp add: GetMissions_def ActionRequest_Request_def Request_Construct_def)
  then have keeps: "keeps_order {?m} ?c () (c, res)"
    using keeps_queue [where c = ?c and ids = "[ID_MISSION_COUNT]"] controller_new_ok by simp
  have "spoken ?c = {}" by (simp add: spoken_def ControllerMission_new_def)
  then show ?thesis
    using keeps mission_more [where c = c and d = ?c]
    by (auto simp: keeps_order_def download_inv_def ControllerMission_new_def)
qed

section \<open>Downloads come to an end\<close>

text \<open>The rounds of a network that loses nothing: the queue transmits and the answer comes in.\<close>

definition round :: "int \<Rightarrow> int \<Rightarrow> int \<Rightarrow> mavlink_message_t \<Rightarrow> mission_event list" where
  "round v now n m = [Attempt_Entry now n, Message [n] m v]"

definition lossless :: "int \<Rightarrow> int \<Rightarrow> int \<Rightarrow> mavlink_mission_item_t list \<Rightarrow> mission_event list" where
  "lossless v now n W = round v now n (MISSION_COUNT \<lparr>mc_count = of_nat (length W), mc_target_system = 255,
       mc_target_component = 0, mc_mission_type = 0\<rparr>)
     @ concat (map (\<lambda>m. round v now n (MISSION_ITEM m)) W)"

lemma run_all_append:
  "run_all step (es @ fs) s = obind (run_all step es s) (\<lambda>s u. run_all step fs s)"
proof (induction es arbitrary: s)
  case (Cons e es)
  then show ?case by (cases "step e s"; cases "snd (step e s)") auto
qed simp

lemma all_possible_append:
  "all_possible step P (es @ fs) s \<longleftrightarrow> all_possible step P es s
     \<and> (snd (run_all step es s) = Inr () \<longrightarrow> all_possible step P fs (fst (run_all step es s)))"
proof (induction es arbitrary: s)
  case (Cons e es)
  then show ?case by (cases "step e s"; cases "snd (step e s)") auto
qed simp

text \<open>The controller waits for the item \<open>k\<close>.\<close>

definition wants :: "int \<Rightarrow> int \<Rightarrow> mavlink_mission_item_t list \<Rightarrow> nat \<Rightarrow> ControllerMission \<Rightarrow> bool" where
  "wants v n W k c \<longleftrightarrow> download_inv v W c \<and> delivered c = [] \<and> m_MissionDownloadCount c = int (length W)
     \<and> m_NumRetries (transmitQueue c) > 0
     \<and> (\<exists>r. unat (mr_seq r) = k \<and> asking v ((), ID_MISSION_ITEM) n 0 (MISSION_REQUEST r, v) c)"

definition finished :: "int \<Rightarrow> mavlink_mission_item_t list \<Rightarrow> ControllerMission \<Rightarrow> bool" where
  "finished v W c \<longleftrightarrow> delivered c = [(v, mission_of v W)] \<and> quiet c
     \<and> (\<exists>ack. ma_type ack = MAV_MISSION_ACCEPTED \<and> last (transmitted c) = (MISSION_ACK ack, v, v))"

lemma asking_fields [simp]:
  "asking v key n tries ask (c\<lparr>m_MissionDownloadCount := x\<rparr>) = asking v key n tries ask c"
  "asking v key n tries ask (c\<lparr>m_MissionDownloading := y\<rparr>) = asking v key n tries ask c"
  by (simp_all add: asking_def)

lemma quiet_delivered [simp]: "quiet (onDataReceived d c) = quiet c" "quiet (EncodeMessage m s t c') = quiet c'"
  by (simp_all add: quiet_def onDataReceived_def EncodeMessage_def)

text \<open>A good step does not lose the shape of the invariant; what it knows about the stored item.\<close>

lemma wants_round:
  assumes W: "mission_on_vehicle v W" and k: "k < length W" and c: "wants v n W k c"
  shows "\<exists>c'. run_all (mission_step to_float) (round v now n (MISSION_ITEM (W ! k))) c = (c', Inr ())
     \<and> all_possible (mission_step to_float) (download_possible v W) (round v now n (MISSION_ITEM (W ! k))) c
     \<and> (if Suc k < length W then wants v n W (Suc k) c' else finished v W c')"
proof -
  obtain r where r: "unat (mr_seq r) = k" "asking v ((), ID_MISSION_ITEM) n 0 (MISSION_REQUEST r, v) c"
    using c by (auto simp: wants_def)
  have retries: "m_NumRetries (transmitQueue c) > 0" using c by (simp add: wants_def)
  obtain a where a: "attempt_entry now n c = (a, Inr ())" "asking v ((), ID_MISSION_ITEM) n 1 (MISSION_REQUEST r, v) a"
    "MISSION_REQUEST r \<in> fst ` set (transmitted a)" "GenericController.more a = GenericController.more c"
    "m_NumRetries (transmitQueue a) = m_NumRetries (transmitQueue c)"
    using asking_attempt [OF r(2) retries] by blast
  note same = mission_more [OF a(4)]
  have inv: "download_inv v W a"
    using download_step [of v W c "Attempt_Entry now n" to_float] W c a(1) by (simp add: wants_def)
  have active: "controllerActive a \<or> \<not> monitorActive a" using a(2) by (simp add: asking_def)
  have count: "m_MissionDownloadCount a = int (length W)" and none: "delivered a = []"
    using c same by (simp_all add: wants_def)
  let ?m = "Message [n] (MISSION_ITEM (W ! k)) v"
  have possible: "download_possible v W a ?m" using a(3) r(1) k by auto
  note good = download_step [OF W inv possible, of to_float]
  have said: "MISSION_REQUEST r \<in> spoken a" using a(3) by (simp add: spoken_def)
  obtain d where d: "m_MissionDownloading a = Some d" "collecting v W d"
    and asked: "\<And>r. MISSION_REQUEST r \<in> spoken a \<Longrightarrow> unat (mr_seq r) < length W \<and> items_before v W (unat (mr_seq r)) d"
    using inv count none by (auto simp: download_inv_def)
  have before: "items_before v W k d" using asked [OF said] r(1) by simp
  obtain d' where store: "ReceiveMissionItem (W ! k) v a = (a\<lparr>m_MissionDownloading := Some d'\<rparr>, Inr ())"
    using collect_item [OF W k d(2) before d(1)] by blast
  have unat: "unat (mi_seq (W ! k)) = k"
    using W k by (simp add: mission_on_vehicle_def unsigned_of_nat take_bit_nat_eq_self)
  have run: "run_all (mission_step to_float) (round v now n (MISSION_ITEM (W ! k))) c = mission_step to_float ?m a"
    using a(1) by (cases "mission_step to_float ?m a"; cases "snd (mission_step to_float ?m a)") (auto simp: round_def)
  have all: "all_possible (mission_step to_float) (download_possible v W) (round v now n (MISSION_ITEM (W ! k))) c"
    using a(1) possible by (simp add: round_def)
  show ?thesis
  proof (cases "Suc k < length W")
    case True
    let ?ask = "\<lparr>mr_seq = mi_seq (W ! k) + 1, mr_target_system = mi_target_system (W ! k),
        mr_target_component = mi_target_component (W ! k), mr_mission_type = mi_mission_type (W ! k)\<rparr>"
    have b: "BuildData_Send_item (MISSION_ITEM (W ! k)) v a
        = (a\<lparr>m_MissionDownloading := Some d'\<rparr>, Inr (Some (MISSION_REQUEST ?ask, v, (), ())))"
      using True count unat store by (simp add: BuildData_Send_item_def)
    obtain e where e: "ActionIntermediateReceive BuildData_Send_item ID_MISSION_ITEM
          (NextTransmission [ID_MISSION_ITEM] [n]) (MISSION_ITEM (W ! k)) v a = (e, Inr True)"
      "asking v ((), ID_MISSION_ITEM) n 0 (MISSION_REQUEST ?ask, v) e"
      "GenericController.more e = GenericController.more (a\<lparr>m_MissionDownloading := Some d'\<rparr>)"
      "m_NumRetries (transmitQueue e) = m_NumRetries (transmitQueue a)"
      using asking_next [where BuildData_Send = BuildData_Send_item, OF b] a(2) by fastforce
    have "receive to_float [n] (MISSION_ITEM (W ! k)) v a = (e, Inr True)"
      using receive_item_next [of a "W ! k" "[n]" v to_float] active count unat True e(1) by simp
    then have step: "mission_step to_float ?m a = (e, Inr ())" by simp
    have "unat (mi_seq (W ! k) + 1) = Suc k"
    proof -
      have "mi_seq (W ! k) + 1 = of_nat (Suc k)" "length W < 2 ^ LENGTH(16)"
        using W k by (simp_all add: mission_on_vehicle_def)
      then show ?thesis using True by (simp add: unsigned_of_nat take_bit_nat_eq_self del: of_nat_Suc)
    qed
    then have "wants v n W (Suc k) e"
      using good step e(2,4) mission_more [OF e(3)] count none a(5) c
      unfolding wants_def by (auto intro!: exI [of _ ?ask])
    then show ?thesis using run all step True by auto
  next
    case False
    then have last: "Suc k = length W" using k by simp
    let ?ack = "\<lparr>ma_target_system = mi_target_system (W ! k), ma_target_component = mi_target_component (W ! k),
        ma_type = MAV_MISSION_ACCEPTED, ma_mission_type = mi_mission_type (W ! k)\<rparr>"
    let ?c = "a\<lparr>m_MissionDownloading := None, m_MissionDownloadCount := - 1\<rparr>"
    have b: "Construct_FinalObjectAndResponse (MISSION_ITEM (W ! k)) v a
        = (?c, Inr (Some (MISSION_ACK ?ack, (v, d'), v, ())))"
      using last count unat store by (simp add: Construct_FinalObjectAndResponse_def)
    obtain e where e: "ActionFinalReceiveRespond Construct_FinalObjectAndResponse onDataReceived ID_MISSION_ITEM
        (MISSION_ITEM (W ! k)) v a = (EncodeMessage (MISSION_ACK ?ack) v v (onDataReceived (v, d') e), Inr True)"
      "quiet e"
      using asking_final [where Construct = Construct_FinalObjectAndResponse and f = onDataReceived, OF b] a(2)
      by fastforce
    let ?e = "EncodeMessage (MISSION_ACK ?ack) v v (onDataReceived (v, d') e)"
    have step: "mission_step to_float ?m a = (?e, Inr ())"
      using receive_item_final [OF _ active e(1), of to_float "[n]"] count unat last by simp
    have "delivered ?e \<noteq> []" by (simp add: EncodeMessage_def onDataReceived_def)
    then have "delivered ?e = [(v, mission_of v W)]" using good step by (simp add: download_inv_def)
    then have "finished v W ?e" using e(2) by (simp add: finished_def) (simp add: EncodeMessage_def)
    then show ?thesis using run all step False by auto
  qed
qed

lemma items_round:
  assumes W: "mission_on_vehicle v W"
  shows "k < length W \<Longrightarrow> wants v n W k c \<Longrightarrow>
    \<exists>c'. run_all (mission_step to_float) (concat (map (\<lambda>m. round v now n (MISSION_ITEM m)) (drop k W))) c = (c', Inr ())
     \<and> all_possible (mission_step to_float) (download_possible v W)
         (concat (map (\<lambda>m. round v now n (MISSION_ITEM m)) (drop k W))) c
     \<and> finished v W c'"
proof (induction "length W - k" arbitrary: k c)
  case (Suc x)
  obtain c' where c': "run_all (mission_step to_float) (round v now n (MISSION_ITEM (W ! k))) c = (c', Inr ())"
    "all_possible (mission_step to_float) (download_possible v W) (round v now n (MISSION_ITEM (W ! k))) c"
    "if Suc k < length W then wants v n W (Suc k) c' else finished v W c'"
    using wants_round [OF W Suc.prems, of to_float now] by blast
  have drop: "drop k W = W ! k # drop (Suc k) W" using Suc.prems(1) by (simp add: Cons_nth_drop_Suc)
  show ?case
  proof (cases "Suc k < length W")
    case True
    then show ?thesis
      using Suc.hyps(1) [of "Suc k" c'] Suc.hyps(2) c' unfolding drop
      by (auto simp: run_all_append all_possible_append)
  next
    case False
    then show ?thesis using c' unfolding drop by (simp add: run_all_append all_possible_append)
  qed
qed simp

lemma lossless_download:
  assumes W: "mission_on_vehicle v W" and r: "r > 0"
  shows "\<exists>c c'. GetMissions [n] v (ControllerMission_new w r) = (c, Inr ())
     \<and> all_possible (mission_step to_float) (download_possible v W) (lossless v now n W) c
     \<and> run_all (mission_step to_float) (lossless v now n W) c = (c', Inr ())
     \<and> finished v W c'"
proof -
  let ?m = "MISSION_REQUEST_LIST \<lparr>rl_target_system = word_of_int v, rl_target_component = 0, rl_mission_type = 0\<rparr>"
  let ?count = "\<lparr>mc_count = of_nat (length W), mc_target_system = 255, mc_target_component = 0, mc_mission_type = 0\<rparr>"
  let ?new = "(ControllerMission_new w r)\<lparr>m_MissionDownloading := Some (SpatialHome_new, MissionList_default)\<rparr>"
  have "quiet ?new" by (simp add: quiet_def ControllerMission_new_def KeyedQueue_new_def)
  then obtain c where c: "queue_message () [ID_MISSION_COUNT] v [n] (?m, v) ?new = (c, Inr ())"
    "asking v ((), ID_MISSION_COUNT) n 0 (?m, v) c" "GenericController.more c = GenericController.more ?new"
    "m_NumRetries (transmitQueue c) = r"
    using quiet_queue [of ?new "()" ID_MISSION_COUNT v n "(?m, v)"]
    by (auto simp: ControllerMission_new_def KeyedQueue_new_def)
  have get: "GetMissions [n] v (ControllerMission_new w r) = (c, Inr ())"
    using c(1) by (simp add: GetMissions_def ActionRequest_Request_def Request_Construct_def)
  have retries: "m_NumRetries (transmitQueue c) > 0" using c(4) r by simp
  obtain a where a: "attempt_entry now n c = (a, Inr ())" "asking v ((), ID_MISSION_COUNT) n 1 (?m, v) a"
    "?m \<in> fst ` set (transmitted a)" "GenericController.more a = GenericController.more c"
    "m_NumRetries (transmitQueue a) = r"
    using asking_attempt [OF c(2) retries] unfolding c(4) by blast
  have inv: "download_inv v W a"
    using download_step [OF W download_start [OF get], of "Attempt_Entry now n" to_float] a(1) by simp
  have ne: "W \<noteq> []" and small: "length W < 2 ^ LENGTH(16)" using W by (simp_all add: mission_on_vehicle_def)
  have size: "unat (mc_count ?count) = length W"
    using small by (simp add: unsigned_of_nat take_bit_nat_eq_self)
  then have pos: "mc_count ?count > 0" using ne by (metis length_greater_0_conv unat_gt_0 word_neq_0_conv)
  have fields: "m_MissionDownloading a = Some (SpatialHome_new, MissionList_default)"
    "m_MissionDownloadCount a = - 1" "delivered a = []"
    using mission_more [of a ?new] a(4) c(3) by (simp_all add: ControllerMission_new_def)
  have possible: "download_possible v W a (Message [n] (MISSION_COUNT ?count) v)"
    using fields size a(3) by auto
  let ?ask = "\<lparr>mr_seq = 0, mr_target_system = 255, mr_target_component = 0, mr_mission_type = 0\<rparr>"
  have b: "BuildData_Send_count (MISSION_COUNT ?count) v a = (a\<lparr>m_MissionDownloadCount := int (length W),
      m_MissionDownloading := Some (SpatialHome_new, initializeQueue (length W - 1) MissionList_default)\<rparr>,
      Inr (Some (MISSION_REQUEST ?ask, v, (), ())))"
    using pos fields(1) size by (simp add: BuildData_Send_count_def Let_def del: of_nat_0_less_iff)
  obtain e where e: "ActionIntermediateReceive BuildData_Send_count ID_MISSION_COUNT
        (NextTransmission [ID_MISSION_ITEM] [n]) (MISSION_COUNT ?count) v a = (e, Inr True)"
    "asking v ((), ID_MISSION_ITEM) n 0 (MISSION_REQUEST ?ask, v) e"
    "GenericController.more e = GenericController.more (a\<lparr>m_MissionDownloadCount := int (length W),
      m_MissionDownloading := Some (SpatialHome_new, initializeQueue (length W - 1) MissionList_default)\<rparr>)"
    "m_NumRetries (transmitQueue e) = r"
    using asking_next [where BuildData_Send = BuildData_Send_count, OF b] a(2,5) by fastforce
  have "receive to_float [n] (MISSION_COUNT ?count) v a = (e, Inr True)"
    using receive_count [OF pos, of a "[n]" v to_float] a(2) e(1) by (simp add: asking_def)
  then have step: "mission_step to_float (Message [n] (MISSION_COUNT ?count) v) a = (e, Inr ())" by simp
  have "download_inv v W e" using download_step [OF W inv possible, of to_float] step by simp
  then have "wants v n W 0 e"
    using e(2,4) mission_more [OF e(3)] fields r unfolding wants_def by (auto intro!: exI [of _ ?ask])
  then obtain c' where
    "run_all (mission_step to_float) (concat (map (\<lambda>m. round v now n (MISSION_ITEM m)) W)) e = (c', Inr ())"
    "all_possible (mission_step to_float) (download_possible v W) (concat (map (\<lambda>m. round v now n (MISSION_ITEM m)) W)) e"
    "finished v W c'"
    using items_round [OF W, of 0 n e to_float now] ne by auto
  then show ?thesis
    using get a(1) step possible by (simp add: lossless_def run_all_append all_possible_append round_def)
qed

text \<open>A vehicle with its home position and the command to return to it.\<close>

definition ex_home :: mavlink_mission_item_t where
  "ex_home = initializeMAVLINKMissionItem\<lparr>mi_command := MAV_CMD_NAV_WAYPOINT, mi_x := NaN, mi_y := NaN, mi_z := NaN\<rparr>"

definition ex_return :: "16 word \<Rightarrow> mavlink_mission_item_t" where
  "ex_return k = initializeMAVLINKMissionItem\<lparr>mi_command := MAV_CMD_NAV_RETURN_TO_LAUNCH, mi_seq := k\<rparr>"

lemma ex_on_vehicle: "mission_on_vehicle 1 [ex_home, ex_return 1]"
  by (auto simp: mission_on_vehicle_def ex_home_def ex_return_def exchange_defs less_Suc_eq)

section \<open>Properties\<close>

text \<open>
  C7: A download over a network that loses, repeats and reorders messages delivers the right mission or none:
  whatever the history of attempts, failures and answers after \<open>GetMissions\<close>, as long as the vehicle
  answers what it was asked and its count comes in once, no behaviour throws (a call for which every drawn number is
  taken does not return), and a mission is handed on at most once, with every item of the vehicle in its place and
  the vehicle's home position.
\<close>

theorem download_correct:
  assumes "mission_on_vehicle v W" "GetMissions draws v (ControllerMission_new w r) = (c, res)"
    "all_possible (mission_step to_float) (download_possible v W) es c"
  shows "delivered (fst (run_all (mission_step to_float) es c)) \<in> {[], [(v, mission_of v W)]}
     \<and> snd (run_all (mission_step to_float) es c) \<in> {Inr (), Inl Blocked}"
proof -
  have start: "mission_on_vehicle v W \<and> download_inv v W c" using assms(1) download_start [OF assms(2)] by blast
  have "snd (run_all (mission_step to_float) es c) \<in> {Inr (), Inl Blocked}"
  proof (rule download.run_result [OF _ _ start assms(3)])
    show "snd (mission_step to_float e c) \<in> {Inr (), Inl Blocked}"
      if "mission_on_vehicle v W \<and> download_inv v W c" "download_possible v W c e" for c e
      using download_step that by blast
  qed simp
  moreover have "delivered (fst (run_all (mission_step to_float) es c)) \<in> {[], [(v, mission_of v W)]}"
    using download.run_inv [OF start assms(3)] by (auto simp: download_inv_def split: if_splits)
  ultimately show ?thesis by blast
qed

theorem download_correct_witness:
  "\<exists>c. delivered (fst (run_all (mission_step (\<lambda>x. x)) (lossless 1 0 7 [ex_home, ex_return 1]) c))
     \<in> {[], [(1, mission_of 1 [ex_home, ex_return 1])]}"
proof -
  obtain c where c: "GetMissions [7] 1 (ControllerMission_new 100 3) = (c, Inr ())"
    "all_possible (mission_step (\<lambda>x. x)) (download_possible 1 [ex_home, ex_return 1])
       (lossless 1 0 7 [ex_home, ex_return 1]) c"
    using lossless_download [OF ex_on_vehicle, of 3 7 100 "\<lambda>x. x" 0] by auto
  show ?thesis using download_correct [OF ex_on_vehicle c] by blast
qed

text \<open>
  C9: Over a network that loses nothing a download comes to an end: after \<open>GetMissions\<close>, when the vehicle sends
  its count and then each item it is asked for, once and in order, the mission is handed on with every item, the
  vehicle is told that it was accepted, and nothing is queued any more; this is one of the histories of a vehicle
  that answers what it is asked.
\<close>

theorem download_completes:
  assumes W: "mission_on_vehicle v W" and r: "r > 0"
  shows "\<exists>c c'. GetMissions [n] v (ControllerMission_new w r) = (c, Inr ())
     \<and> all_possible (mission_step to_float) (download_possible v W) (lossless v now n W) c
     \<and> run_all (mission_step to_float) (lossless v now n W) c = (c', Inr ())
     \<and> finished v W c'"
  by (rule lossless_download [OF assms])

theorem download_completes_witness:
  "\<exists>c c'. GetMissions [7] 1 (ControllerMission_new 100 3) = (c, Inr ())
     \<and> run_all (mission_step (\<lambda>x. x)) (lossless 1 0 7 [ex_home, ex_return 1]) c = (c', Inr ())
     \<and> finished 1 [ex_home, ex_return 1] c'"
  using download_completes [OF ex_on_vehicle, of 3 7 100 "\<lambda>x. x" 0] by auto

section \<open>Where it goes wrong\<close>

text \<open>The controller after some messages of vehicle 1, each of which finds the number 7 free.\<close>

definition after_messages :: "mavlink_message_t list \<Rightarrow> unit mission_result" where
  "after_messages ms = obind (GetMissions [7] 1 (ControllerMission_new 100 3)) (\<lambda>c u.
     run_all (mission_step (\<lambda>x. x)) (map (\<lambda>m. Message [7] m 1) ms) c)"

definition ex_count :: "16 word \<Rightarrow> mavlink_message_t" where
  "ex_count k = MISSION_COUNT \<lparr>mc_count = k, mc_target_system = 255, mc_target_component = 0, mc_mission_type = 0\<rparr>"

text \<open>
  A count that comes in twice, because the request for the list was repeated, empties the mission that was
  received so far: the download ends with the last item and hands on a mission with a null pointer in it.
\<close>

theorem repeated_count_loses_items:
  "map (map (\<lambda>i. i = None) \<circ> missionQueue \<circ> snd \<circ> snd) (delivered (fst (after_messages
     [ex_count 3, MISSION_ITEM ex_home, MISSION_ITEM (ex_return 1), ex_count 3, MISSION_ITEM (ex_return 2)])))
   = [[True, False]]"
  by code_simp

text \<open>Any acknowledgement ends the download of a mission: the controller ignores the items from then on.\<close>

theorem stray_ack_stalls:
  "delivered (fst (after_messages
     [ex_count 2, MISSION_ACK \<lparr>ma_target_system = 255, ma_target_component = 0, ma_type = 0, ma_mission_type = 0\<rparr>,
      MISSION_ITEM ex_home, MISSION_ITEM (ex_return 1)])) = []"
  by code_simp

text \<open>
  A second request for the mission while items still come in replaces the mission by an empty one but leaves
  the count: the next item is written past the end of the list.
\<close>

theorem second_request_overruns:
  "snd (obind (after_messages [ex_count 3, MISSION_ITEM ex_home]) (\<lambda>c u.
     obind (GetMissions [8] 1 c) (\<lambda>c u. receive (\<lambda>x. x) [9] (MISSION_ITEM (ex_return 1)) 1 c)))
   = Inl Undefined_Behaviour"
  by code_simp

text \<open>A count that comes in during an upload is taken for an answer to a request: there is no mission to fill.\<close>

theorem count_during_upload:
  "snd (obind (UploadMission [7] MissionList_default SpatialHome_new 1 (ControllerMission_new 100 3)) (\<lambda>c u.
     receive (\<lambda>x. x) [7] (ex_count 1) 1 c)) = Inl Undefined_Behaviour"
  by code_simp

end
