(* ===== verification/Mission_Upload.thy ===== *)
theory Mission_Upload
  imports Mission_Download
begin

text \<open>
  The upload of a mission to a vehicle (\<open>MAVLINKUXVControllers::ControllerMission\<close>), in which the vehicle asks for
  the items, and the mission that a download gives back after it.
\<close>

section \<open>The answers to requests\<close>

lemma updateMissionPosition_seq:
  "updateMissionPosition to_float p item = Inr m \<Longrightarrow> mi_seq m = mi_seq item"
  by (auto simp: updateMissionPosition_def Let_def split: option.splits CoordinateFrameTypes.splits if_splits)

lemma to_mavlink_seq: "to_mavlink to_float item i = Inr (Some m) \<Longrightarrow> mi_seq m = i"
  by (cases item) (auto simp: convertSpatial_def convertLoiter_def convertChangeSpeed_def convertRTL_def start_item_def
      map_sum_def Let_def dest!: updateMissionPosition_seq split: sum.splits if_splits)

lemma upload_item_seq:
  assumes "upload_item to_float data r = Inr m"
  shows "mi_seq m = mr_seq r"
proof (cases "mr_seq r = 0")
  case True
  then show ?thesis
    using assms by (auto simp: upload_item_def convertHome_def initializeMAVLINKMissionItem_def map_sum_def Let_def
        dest!: updateMissionPosition_seq split: option.splits sum.splits if_splits)
next
  case False
  then show ?thesis
    using assms by (auto simp: upload_item_def MACEMissionToMAVLINKMission_def dest!: to_mavlink_seq
        split: sum.splits option.splits)
qed

text \<open>Every item that the vehicle may ask for can be converted.\<close>

definition sendable :: "(dbl \<Rightarrow> dbl) \<Rightarrow> MissionDownloadResult \<Rightarrow> bool" where
  "sendable to_float data \<longleftrightarrow> (\<forall>r. unat (mr_seq r) \<le> getQueueSize (snd data)
     \<longrightarrow> (\<exists>m. upload_item to_float data r = Inr m))"

section \<open>Uploads\<close>

text \<open>
  The vehicle, or anyone, sends what it likes, but asks only for items that there are, and does not announce a
  mission of its own.
\<close>

fun upload_possible :: "MissionDownloadResult \<Rightarrow> ControllerMission \<Rightarrow> mission_event \<Rightarrow> bool" where
  "upload_possible data c (Message draws m s) \<longleftrightarrow> (case m of
      MISSION_COUNT k \<Rightarrow> False
    | MISSION_REQUEST r \<Rightarrow> unat (mr_seq r) \<le> getQueueSize (snd data)
    | _ \<Rightarrow> True)"
| "upload_possible data c e \<longleftrightarrow> True"

definition upload_inv :: "(dbl \<Rightarrow> dbl) \<Rightarrow> MissionDownloadResult \<Rightarrow> ControllerMission \<Rightarrow> bool" where
  "upload_inv to_float data c \<longleftrightarrow> controller_ok c \<and> m_MissionDownloadCount c = - 1
     \<and> m_MissionUploading c \<in> {None, Some data}
     \<and> (\<forall>m. MISSION_ITEM m \<in> spoken c \<longrightarrow> (\<exists>r. upload_item to_float data r = Inr m))"

lemma upload_quiet:
  assumes "upload_inv to_float data c" "keeps_order M c x r"
    "\<forall>m. MISSION_ITEM m \<in> M \<longrightarrow> (\<exists>r. upload_item to_float data r = Inr m)"
  shows "upload_inv to_float data (fst r)"
proof -
  have "GenericController.more (fst r) = GenericController.more c" using assms(2) by (simp add: keeps_order_def)
  note same = mission_more [OF this]
  have ok: "controller_ok (fst r)" "spoken (fst r) \<subseteq> M \<union> spoken c" using assms(2) by (simp_all add: keeps_order_def)
  have "\<exists>r. upload_item to_float data r = Inr m" if "MISSION_ITEM m \<in> spoken (fst r)" for m
    using assms(1,3) ok(2) that unfolding upload_inv_def by blast
  then show ?thesis using assms(1) ok(1) unfolding upload_inv_def same by blast
qed

lemma receive_request:
  "receive to_float draws (MISSION_REQUEST r) s c =
    (if monitorActive c \<and> \<not> controllerActive c then (c, Inr False)
     else ActionIntermediateReceive (BuildData_Send_request to_float) ID_MISSION_REQUEST
            (NextTransmission [ID_MISSION_REQUEST, ID_MISSION_ACK] draws) (MISSION_REQUEST r) s c)"
proof -
  let ?r = "ActionIntermediateReceive (BuildData_Send_request to_float) ID_MISSION_REQUEST
            (NextTransmission [ID_MISSION_REQUEST, ID_MISSION_ACK] draws) (MISSION_REQUEST r) s c"
  obtain c' x where r: "?r = (c', x)" by (cases ?r)
  have ack: "ActionFinish Finish_Receive_ack ID_MISSION_ACK (MISSION_REQUEST r) s c' = (c', Inr False)"
    by (simp add: unused Finish_Receive_ack_def)
  show ?thesis
    using r ack by (cases x)
      (auto simp: receive_def ReceiveMessage_def mission_behaviors_def unused Finish_Receive_count_def
        BuildData_Send_count_def BuildData_Send_item_def Construct_FinalObjectAndResponse_def)
qed

lemma receive_ack:
  "receive to_float draws (MISSION_ACK a) s c =
    (if monitorActive c \<and> \<not> controllerActive c then (c, Inr False)
     else ActionFinish Finish_Receive_ack ID_MISSION_ACK (MISSION_ACK a) s c)"
proof -
  let ?r = "ActionFinish Finish_Receive_ack ID_MISSION_ACK (MISSION_ACK a) s c"
  obtain c' x where r: "?r = (c', x)" by (cases ?r)
  show ?thesis
    using r by (cases x)
      (auto simp: receive_def ReceiveMessage_def mission_behaviors_def unused Finish_Receive_count_def
        BuildData_Send_count_def BuildData_Send_item_def Construct_FinalObjectAndResponse_def BuildData_Send_request_def)
qed

lemma receive_list: "receive to_float draws (MISSION_REQUEST_LIST l) s c = (c, Inr False)"
  by (simp add: receive_def ReceiveMessage_def mission_behaviors_def unused mission_constructs)

lemma upload_step:
  assumes data: "sendable to_float data" and inv: "upload_inv to_float data c" and e: "upload_possible data c e"
  shows "upload_inv to_float data (fst (mission_step to_float e c))
     \<and> snd (mission_step to_float e c) \<in> {Inr (), Inl Blocked}"
proof (cases e)
  case (Attempt_Entry now n)
  have "keeps_order {} c () (attempt_entry now n c)" using inv by (simp add: keeps_attempt upload_inv_def)
  note keeps = this
  show ?thesis using upload_quiet [OF inv keeps] keeps Attempt_Entry by (simp add: keeps_order_def)
next
  case (Reap_Entry n)
  have "keeps_order {} c () (reap_entry n c, Inr ())" using inv by (simp add: keeps_reap upload_inv_def)
  note keeps = this
  show ?thesis using upload_quiet [OF inv keeps] Reap_Entry by simp
next
  case (Message draws m s)
  have ok: "controller_ok c" and idle: "m_MissionDownloadCount c = - 1" using inv by (simp_all add: upload_inv_def)
  have result: ?thesis if "upload_inv to_float data (fst (receive to_float draws m s c))"
    "snd (receive to_float draws m s c) \<in> {Inr True, Inr False, Inl Blocked}"
    using that Message by (cases "receive to_float draws m s c") auto
  show ?thesis
  proof (cases m)
    case (MISSION_REQUEST r)
    show ?thesis
    proof (cases "(monitorActive c \<and> \<not> controllerActive c) \<or> m_MissionUploading c = None")
      case True
      then have "receive to_float draws m s c = (c, Inr False)"
        unfolding MISSION_REQUEST receive_request by (auto simp: unused BuildData_Send_request_def)
      then show ?thesis using result inv by simp
    next
      case False
      then have up: "m_MissionUploading c = Some data" and active: "\<not> (monitorActive c \<and> \<not> controllerActive c)"
        using inv by (auto simp: upload_inv_def)
      obtain cmd where cmd: "upload_item to_float data r = Inr cmd"
        using data e Message MISSION_REQUEST by (auto simp: sendable_def)
      have b: "BuildData_Send_request to_float m s c = (c, Inr (Some (MISSION_ITEM cmd, s, (), ())))"
        using up cmd MISSION_REQUEST by (simp add: BuildData_Send_request_def)
      have keeps: "keeps_order {MISSION_ITEM cmd} c True (receive to_float draws m s c)"
        using keeps_intermediate [where BuildData_Send = "BuildData_Send_request to_float", OF b ok]
        unfolding MISSION_REQUEST receive_request if_not_P [OF active] by simp
      show ?thesis
        by (rule result) (use upload_quiet [OF inv keeps] keeps cmd in \<open>auto simp: keeps_order_def\<close>)
    qed
  next
    case (MISSION_ACK a)
    show ?thesis
    proof (cases "monitorActive c \<and> \<not> controllerActive c")
      case True
      then show ?thesis using result inv by (simp add: receive_inactive)
    next
      case False
      let ?c = "onFinished True (ma_type a) (c\<lparr>m_MissionUploading := None\<rparr>)"
      let ?r = "RemoveTransmission_received () ID_MISSION_ACK s ?c"
      have c: "upload_inv to_float data ?c"
        using inv by (simp add: upload_inv_def) (simp add: onFinished_def)
      then have r: "controller_ok (fst ?r)" "snd ?r = Inr ()"
        using remove_received_ok [of ?c "()" ID_MISSION_ACK s] by (simp_all add: upload_inv_def)
      have keeps: "keeps_order {} ?c () ?r" using r by (simp add: keeps_order_def)
      have "receive to_float draws m s c = (fst ?r, Inr True)"
        unfolding MISSION_ACK receive_ack if_not_P [OF False]
        using r(2) by (cases ?r) (simp add: ActionFinish_def Finish_Receive_ack_def)
      then show ?thesis using result upload_quiet [OF c keeps] by simp
    qed
  qed (use result e Message inv idle in \<open>simp_all add: receive_list receive_item_idle\<close>)
qed

interpretation upload: session "mission_step to_float" "upload_possible data"
  "\<lambda>c. sendable to_float data \<and> upload_inv to_float data c" for to_float data
  by unfold_locales (use upload_step in blast)

lemma upload_start:
  assumes "UploadMission draws list home v (ControllerMission_new w r) = (c, res)"
  shows "upload_inv to_float (home, list) c"
proof -
  let ?c = "(ControllerMission_new w r)\<lparr>m_MissionUploading := Some (home, list)\<rparr>"
  let ?m = "MISSION_COUNT \<lparr>mc_count = of_nat (getQueueSize list + 1), mc_target_system = word_of_int v,
      mc_target_component = 1, mc_mission_type = 0\<rparr>"
  have "(c, res) = queue_message () [ID_MISSION_REQUEST] v draws (?m, v) ?c"
    using assms by (simp add: UploadMission_def ActionSend_Send_def Construct_Send_def)
  then have keeps: "keeps_order {?m} ?c () (c, res)"
    using keeps_queue [where c = ?c and ids = "[ID_MISSION_REQUEST]"] controller_new_ok by simp
  have "upload_inv to_float (home, list) ?c"
    using controller_new_ok [of w r] by (simp add: upload_inv_def) (simp add: spoken_def ControllerMission_new_def)
  then show ?thesis using upload_quiet [OF _ keeps] by simp
qed

section \<open>What the vehicle stores\<close>

text \<open>A mission whose items and home position the messages can carry, all of the vehicle \<open>v\<close>.\<close>

definition carried_mission :: "(dbl \<Rightarrow> dbl) \<Rightarrow> int \<Rightarrow> dbl \<Rightarrow> dbl \<Rightarrow> dbl \<Rightarrow> AbstractCommandItem list \<Rightarrow> MissionDownloadResult \<Rightarrow> bool" where
  "carried_mission to_float v lat lon alt items data \<longleftrightarrow> rounding to_float
     \<and> home_position (fst data) = Some (geodetic_at lat lon alt)
     \<and> plain_place to_float (Some (geodetic_at lat lon alt))
     \<and> missionQueue (snd data) = map Some items \<and> length items < 2 ^ 16 - 1
     \<and> (\<forall>i \<in> set items. carried to_float i \<and> item_base i = ItemBase_new (word_of_int v) (word_of_int v))"

text \<open>The answers to its requests, which the vehicle keeps in their order.\<close>

definition stored :: "(dbl \<Rightarrow> dbl) \<Rightarrow> MissionDownloadResult \<Rightarrow> mavlink_mission_item_t list \<Rightarrow> bool" where
  "stored to_float data W \<longleftrightarrow> length W = getQueueSize (snd data) + 1
     \<and> (\<forall>k < length W. \<exists>r. mr_seq r = of_nat k \<and> upload_item to_float data r = Inr (W ! k))"

lemma word16_index:
  assumes "unat (s :: 16 word) = Suc i"
  shows "unat (ucast s - 1 :: u32) = i" "s \<noteq> 0"
proof -
  have u: "(ucast s :: u32) = of_nat (Suc i)" using assms by (metis of_nat_unat)
  have "(ucast s :: u32) - 1 = of_nat i" unfolding u by simp
  moreover have "Suc i < 2 ^ LENGTH(16)" unfolding assms [symmetric] by (rule unsigned_less)
  ultimately show "unat (ucast s - 1 :: u32) = i" by (simp add: unsigned_of_nat take_bit_nat_eq_self)
qed (use assms in auto)

lemma Convert_component [simp]:
  "Convert_MAVLINKTOMACE sysID (m\<lparr>mi_target_component := t\<rparr>) = Convert_MAVLINKTOMACE sysID m"
  by (simp add: Convert_MAVLINKTOMACE_def from_mavlink_def getBasePosition_def Let_def split: MAV_CMD.split)

lemma upload_item_next:
  assumes data: "carried_mission to_float v lat lon alt items data" and r: "unat (mr_seq r) = Suc i" "i < length items"
  shows "\<exists>m. upload_item to_float data r = Inr m
     \<and> Convert_MAVLINKTOMACE (word_of_int v) m = Inr (Some (without_timed_place (items ! i)))"
proof -
  have item: "carried to_float (items ! i)" "item_base (items ! i) = ItemBase_new (word_of_int v) (word_of_int v)"
    "rounding to_float" using data r(2) by (auto simp: carried_mission_def)
  obtain m where m: "MACEMissionToMAVLINKMission to_float (Some (items ! i)) (mr_seq r) = Inr (Some m)"
    "Convert_MAVLINKTOMACE (word_of_int v) m = Inr (Some (without_timed_place (items ! i)))"
    using item_exchange [OF item(3,1,2)] by blast
  have "getMissionItem (ucast (mr_seq r) - 1) (snd data) = Inr (Some (items ! i))"
    using data r(2) word16_index [OF r(1)] by (simp add: carried_mission_def getMissionItem_def)
  then have "upload_item to_float data r = Inr (m\<lparr>mi_target_component := 1\<rparr>)"
    using m(1) word16_index [OF r(1)] by (simp add: upload_item_def)
  then show ?thesis using m(2) by simp
qed

lemma upload_item_home:
  assumes data: "carried_mission to_float v lat lon alt items data" and r: "mr_seq r = 0"
  shows "\<exists>m. upload_item to_float data r = Inr m \<and> mi_x m = lat \<and> mi_y m = lon \<and> mi_z m = alt"
  using assms
  by (auto simp: carried_mission_def upload_item_def convertHome_def updateMissionPosition_def plain_place_def
      geodetic_at_def isAnyPositionValid_def ignoreAllPositions_def initializeMAVLINKMissionItem_def Let_def)

lemma carried_sendable:
  assumes "carried_mission to_float v lat lon alt items data"
  shows "sendable to_float data"
proof -
  have size: "getQueueSize (snd data) = length items" using assms by (simp add: carried_mission_def getQueueSize_def)
  have "\<exists>m. upload_item to_float data r = Inr m" if r: "unat (mr_seq r) \<le> length items" for r
  proof (cases "unat (mr_seq r)")
    case 0
    then show ?thesis using upload_item_home [OF assms, of r] by (auto simp: unat_eq_zero)
  next
    case (Suc i)
    then show ?thesis using upload_item_next [OF assms Suc] r by auto
  qed
  then show ?thesis by (simp add: sendable_def size)
qed

section \<open>Properties\<close>

text \<open>
  C10: An upload sends the vehicle what it asks for: whatever messages other than a \<open>MISSION_COUNT\<close>
  come in after \<open>UploadMission\<close>, in any order and repeated, as long as the vehicle asks for existing
  items only and every item can be converted, no behaviour throws (a call for which every drawn number is taken does
  not return), and each item that is transmitted is the conversion of the item with its number, the home position
  being number zero.
\<close>

theorem upload_correct:
  assumes "sendable to_float (home, list)"
    "UploadMission draws list home v (ControllerMission_new w r) = (c, res)"
    "all_possible (mission_step to_float) (upload_possible (home, list)) es c"
    "run_all (mission_step to_float) es c = (c', res')"
  shows "res' \<in> {Inr (), Inl Blocked} \<and> (\<forall>m. MISSION_ITEM m \<in> fst ` set (transmitted c') \<longrightarrow>
     (\<exists>r. mr_seq r = mi_seq m \<and> upload_item to_float (home, list) r = Inr m))"
proof -
  have start: "sendable to_float (home, list) \<and> upload_inv to_float (home, list) c"
    using assms(1) upload_start [OF assms(2)] by blast
  have "snd (run_all (mission_step to_float) es c) \<in> {Inr (), Inl Blocked}"
  proof (rule upload.run_result [OF _ _ start assms(3)])
    show "snd (mission_step to_float e c) \<in> {Inr (), Inl Blocked}"
      if "sendable to_float (home, list) \<and> upload_inv to_float (home, list) c" "upload_possible (home, list) c e" for c e
      using upload_step that by blast
  qed simp
  moreover have "\<exists>r. mr_seq r = mi_seq m \<and> upload_item to_float (home, list) r = Inr m"
    if "MISSION_ITEM m \<in> fst ` set (transmitted c')" for m
  proof -
    have "upload_inv to_float (home, list) c'" using upload.run_inv [OF start assms(3)] assms(4) by simp
    moreover have "MISSION_ITEM m \<in> spoken c'" using that by (simp add: spoken_def)
    ultimately obtain r where "upload_item to_float (home, list) r = Inr m" by (auto simp: upload_inv_def)
    then show ?thesis using upload_item_seq by metis
  qed
  ultimately show ?thesis using assms(4) by simp
qed

text \<open>
  C8: A mission that is uploaded and downloaded again has the same items and the same home position, when the messages
  can carry it: fewer than 65535 items, each of the vehicle itself (the target and the origin are its own number),
  with what a message holds of it exact in single precision, its place relative to the home altitude, a positive
  radius, at most \<open>2 ^ 24\<close> turns, and a home position in geodetic coordinates that are exact as well. The
  vehicle that stores the answers to its requests then has a mission that a download delivers with the same items, in
  their order, except that timed loiters have lost their place, and with the same home position. Of the mission only
  the queue of items and the home position are compared.
\<close>

theorem upload_download:
  assumes "carried_mission to_float v lat lon alt items data" "stored to_float data W"
  shows "mission_on_vehicle v W
     \<and> missionQueue (snd (mission_of v W)) = map (Some \<circ> without_timed_place) items
     \<and> map_option (\<lambda>p. (position_y p, position_x p, position_z p)) (home_position (fst (mission_of v W)))
         = Some (lat, lon, alt)"
proof -
  have len: "length W = Suc (length items)" "Suc (length items) < 2 ^ LENGTH(16)"
    using assms by (simp_all add: carried_mission_def stored_def getQueueSize_def)
  have at: "\<exists>r. mr_seq r = of_nat k \<and> unat (mr_seq r) = k \<and> upload_item to_float data r = Inr (W ! k)"
    if "k < length W" for k
    using assms(2) that len by (force simp: stored_def unsigned_of_nat take_bit_nat_eq_self)
  have tl: "Convert_MAVLINKTOMACE (word_of_int v) (tl W ! i) = Inr (Some (without_timed_place (items ! i)))"
    if i: "i < length items" for i
  proof -
    obtain r where r: "unat (mr_seq r) = Suc i" "upload_item to_float data r = Inr (W ! Suc i)"
      using at [of "Suc i"] i len by auto
    then show ?thesis using upload_item_next [OF assms(1) r(1) i] i len by (auto simp: nth_tl)
  qed
  have seq: "mi_seq (W ! k) = of_nat k" if "k < length W" for k
    using at [OF that] upload_item_seq by metis
  have ne: "W \<noteq> []" using len by auto
  have "\<exists>i. Convert_MAVLINKTOMACE (word_of_int v) m = Inr i" if m: "m \<in> set (tl W)" for m
  proof -
    obtain i where "i < length (tl W)" "m = tl W ! i" using m by (metis in_set_conv_nth)
    then show ?thesis using tl [of i] len by auto
  qed
  then have "mission_on_vehicle v W" using len seq ne by (simp add: mission_on_vehicle_def)
  moreover have "missionQueue (snd (mission_of v W)) = map (Some \<circ> without_timed_place) items"
    using tl len by (intro nth_equalityI) (simp_all add: mission_of_def item_read_def)
  moreover have "mi_x (hd W) = lat \<and> mi_y (hd W) = lon \<and> mi_z (hd W) = alt"
  proof -
    obtain r where r: "mr_seq r = 0" "upload_item to_float data r = Inr (W ! 0)" using at [of 0] len by auto
    then show ?thesis using upload_item_home [OF assms(1) r(1)] ne by (auto simp: hd_conv_nth)
  qed
  ultimately show ?thesis
    by (simp add: mission_of_def home_from_def home_place_def setAltitude_def setLongitude_def setLatitude_def
        validateDimension_def GeodeticPosition_3D_new_def)
qed

text \<open>A mission of one waypoint.\<close>

definition ex_waypoint :: AbstractCommandItem where
  "ex_waypoint = SpatialWaypoint (ItemBase_new 1 1) (Some (geodetic_at NaN NaN PInf))"

definition ex_mission :: MissionDownloadResult where
  "ex_mission = (SpatialHome_new\<lparr>home_position := Some (geodetic_at NaN NaN NInf)\<rparr>,
     MissionList_default\<lparr>missionQueue := [Some ex_waypoint]\<rparr>)"

lemma ex_carried: "carried_mission (\<lambda>x. x) 1 NaN NaN NInf [ex_waypoint] ex_mission"
  by (auto simp: carried_mission_def ex_mission_def ex_waypoint_def rounding_id plain_place_def single_def geodetic_at_def)

definition ex_request :: "16 word \<Rightarrow> mavlink_mission_request_t" where
  "ex_request k = \<lparr>mr_seq = k, mr_target_system = 1, mr_target_component = 0, mr_mission_type = 0\<rparr>"

definition ex_stored :: "mavlink_mission_item_t list" where
  "ex_stored = map (\<lambda>k. case upload_item (\<lambda>x. x) ex_mission (ex_request (of_nat k)) of Inr m \<Rightarrow> m | Inl e \<Rightarrow> ex_home) [0, 1]"

lemma ex_stored_ok: "stored (\<lambda>x. x) ex_mission ex_stored"
proof -
  have sendable: "\<exists>m. upload_item (\<lambda>x. x) ex_mission (ex_request (of_nat k)) = Inr m" if "k < 2" for k
    using carried_sendable [OF ex_carried] that
    by (auto simp: sendable_def ex_request_def ex_mission_def getQueueSize_def less_2_cases_iff)
  have "\<exists>r. mr_seq r = of_nat k \<and> upload_item (\<lambda>x. x) ex_mission r = Inr (ex_stored ! k)" if "k < 2" for k
    using sendable [OF that] that
    by (intro exI [of _ "ex_request (of_nat k)"]) (auto simp: ex_stored_def ex_request_def less_2_cases_iff)
  then show ?thesis by (simp add: stored_def ex_mission_def getQueueSize_def ex_stored_def numeral_2_eq_2)
qed

theorem upload_download_witness:
  "missionQueue (snd (mission_of 1 ex_stored)) = [Some ex_waypoint]"
  using upload_download [OF ex_carried ex_stored_ok] by (simp add: ex_waypoint_def)

text \<open>The requests of a vehicle, an item twice, and its acknowledgement.\<close>

definition ex_upload :: "mission_event list" where
  "ex_upload = [Message [7] (MISSION_REQUEST (ex_request 0)) 1, Attempt_Entry 5 7,
     Message [7] (MISSION_REQUEST (ex_request 1)) 1, Message [7] (MISSION_REQUEST (ex_request 1)) 1, Attempt_Entry 6 7,
     Message [7] (MISSION_ACK \<lparr>ma_target_system = 255, ma_target_component = 0, ma_type = 0, ma_mission_type = 0\<rparr>) 1]"

theorem upload_correct_witness:
  "\<exists>c c' res. UploadMission [7] (snd ex_mission) (fst ex_mission) 1 (ControllerMission_new 100 3) = (c, Inr ())
     \<and> run_all (mission_step (\<lambda>x. x)) ex_upload c = (c', res) \<and> res \<in> {Inr (), Inl Blocked}"
proof -
  obtain c where c: "UploadMission [7] (snd ex_mission) (fst ex_mission) 1 (ControllerMission_new 100 3) = (c, Inr ())"
    by (auto simp: UploadMission_def ActionSend_Send_def Construct_Send_def queue_message_def QueueTransmission_def
        queue_task_def Execute_def ControllerMission_new_def KeyedQueue_new_def um_insert_def Let_def)
  obtain c' res where run: "run_all (mission_step (\<lambda>x. x)) ex_upload c = (c', res)" by fastforce
  have "all_possible (mission_step (\<lambda>x. x)) (upload_possible (fst ex_mission, snd ex_mission)) ex_upload c"
    by (simp add: ex_upload_def ex_request_def ex_mission_def getQueueSize_def)
  then show ?thesis using upload_correct [OF _ c _ run] carried_sendable [OF ex_carried] c run by auto
qed

end
