(* ===== verification/Digimesh_Radio.thy ===== *)
theory Digimesh_Radio
  imports Prelude
begin

unbundle bit_operations_syntax

text \<open>
  The driver of the DigiMesh radio (\<open>src/src/DigiMesh\<close>): frames with their checksum, the stream of bytes from the
  serial port that is cut into frames, the numbers of frames that wait for an answer, and the behaviours that hand
  the answers on.

  A byte is an \<open>8 word\<close>. The objects of the class \<open>FramePersistanceBehavior\<close> are kept in a store and referred to by
  their place in it. Callbacks are of a type \<open>'cb\<close> and handlers of messages of a type \<open>'h\<close>; what they do to the
  state, which may have more fields than the radio's, is an argument. What \<open>MarshalOnThread\<close> is given is in
  \<open>marshaled\<close> until the thread of the link runs it, unless the caller is that thread, as \<open>onLinkThread\<close> says;
  \<open>written\<close> are the bytes written to the link, which is taken to be open.
\<close>

section \<open>Data of the protocol\<close>

type_synonym bytes = "u8 list"

definition START_BYTE :: u8 where "START_BYTE = 0x7e"
definition BROADCAST_ADDRESS :: u64 where "BROADCAST_ADDRESS = 0xffff"
definition FRAME_AT_COMMAND :: u8 where "FRAME_AT_COMMAND = 0x08"
definition FRAME_AT_COMMAND_RESPONSE :: u8 where "FRAME_AT_COMMAND_RESPONSE = 0x88"
definition FRAME_REMOTE_AT_COMMAND_RESPONSE :: u8 where "FRAME_REMOTE_AT_COMMAND_RESPONSE = 0x97"
definition FRAME_MODEM_STATUS :: u8 where "FRAME_MODEM_STATUS = 0x8a"
definition LEGACY_TX_STATUS :: u8 where "LEGACY_TX_STATUS = 0x89"
definition FRAME_TRANSMIT_REQUEST :: u8 where "FRAME_TRANSMIT_REQUEST = 0x10"
definition FRAME_TRANSMIT_STATUS :: u8 where "FRAME_TRANSMIT_STATUS = 0x8b"
definition FRAME_RECEIVE_PACKET :: u8 where "FRAME_RECEIVE_PACKET = 0x90"
definition FRAME_EXPLICIT_RECEIVE_PACKET :: u8 where "FRAME_EXPLICIT_RECEIVE_PACKET = 0x91"
definition PAYLOAD_TOO_LARGE :: u8 where "PAYLOAD_TOO_LARGE = 0x74"

lemmas frame_types = FRAME_AT_COMMAND_def FRAME_AT_COMMAND_RESPONSE_def FRAME_REMOTE_AT_COMMAND_RESPONSE_def
  FRAME_MODEM_STATUS_def LEGACY_TX_STATUS_def FRAME_TRANSMIT_REQUEST_def FRAME_TRANSMIT_STATUS_def
  FRAME_RECEIVE_PACKET_def FRAME_EXPLICIT_RECEIVE_PACKET_def

text \<open>The elements of the buffer are of type \<open>char\<close>, which is signed.\<close>

definition calc_checksum :: "bytes \<Rightarrow> nat \<Rightarrow> nat \<Rightarrow> u8" where
  "calc_checksum buf start end =
     ucast (((0xff :: u64) - fold (\<lambda>b sum. sum + scast b) (take (end - start) (drop start buf)) 0) AND 0xff)"

text \<open>
  Classes of answers (\<open>ATData\<close>) and their values. \<open>Integer\<close> throws a string when it is read, which is taken for a
  runtime error.
\<close>

datatype at_class = AT_Integer | AT_NodeDiscovery | AT_String | AT_TransmitStatus | AT_Void

record NodeDiscovery =
  network_addr :: "16 word"
  nd_addr :: u64
  NI :: bytes
  parent_net_addr :: "16 word"
  device_type :: u8
  profile_id :: "16 word"
  manufacturer_id :: "16 word"

record TransmitStatus =
  retries :: u8
  ts_status :: u8
  disoveryRequired :: u8

datatype at_value = Node NodeDiscovery | Text bytes | Status TransmitStatus | Nothing

text \<open>Big endian numbers, from bytes that are there.\<close>

definition be64 :: "bytes \<Rightarrow> u64" where
  "be64 bs = fold (\<lambda>i a. a OR push_bit (8 * (7 - i)) (ucast (bs ! i))) [0..<8] 0"

definition be16 :: "u8 \<Rightarrow> u8 \<Rightarrow> 16 word" where
  "be16 hi lo = push_bit 8 (ucast hi) OR ucast lo"

text \<open>Indices are not checked: an answer that is too short has no meaning.\<close>

definition DeSerialize_NodeDiscovery :: "bytes \<Rightarrow> cpp_error + at_value" where
  "DeSerialize_NodeDiscovery data =
     (if length data < 10 then Inl Undefined_Behaviour
      else let ni = takeWhile (\<lambda>b. b \<noteq> 0) (drop 10 data); rest = drop (10 + length ni) data
           in if length rest < 9 then Inl Undefined_Behaviour
              else Inr (Node \<lparr>network_addr = be16 (data ! 0) (data ! 1), nd_addr = be64 (drop 2 data), NI = ni,
                parent_net_addr = be16 (rest ! 1) (rest ! 2), device_type = rest ! 3,
                profile_id = be16 (rest ! 5) (rest ! 6), manufacturer_id = be16 (rest ! 7) (rest ! 8)\<rparr>))"

definition DeSerialize_TransmitStatus :: "bytes \<Rightarrow> cpp_error + at_value" where
  "DeSerialize_TransmitStatus data =
     (if length data < 7 then Inl Undefined_Behaviour
      else Inr (Status \<lparr>retries = data ! 4, ts_status = data ! 5, disoveryRequired = data ! 6\<rparr>))"

fun DeSerialize :: "at_class \<Rightarrow> bytes \<Rightarrow> cpp_error + at_value" where
  "DeSerialize AT_Integer data = Inl (Runtime_Error ''Not Implimented'')"
| "DeSerialize AT_NodeDiscovery data = DeSerialize_NodeDiscovery data"
| "DeSerialize AT_String data = Inr (Text data)"
| "DeSerialize AT_TransmitStatus data = DeSerialize_TransmitStatus data"
| "DeSerialize AT_Void data = Inr Nothing"

text \<open>What \<open>Integer<uint8_t>\<close> and \<open>String\<close> are written as.\<close>

definition Serialize_Integer8 :: "u8 \<Rightarrow> bytes" where
  "Serialize_Integer8 mInt = [mInt]"

definition Serialize_String :: "bytes \<Rightarrow> bytes" where
  "Serialize_String s = s @ [0]"

record Message =
  addr :: u64
  broadcast :: bool
  msg_data :: bytes

definition Message_DeSerialize :: "bytes \<Rightarrow> cpp_error + Message" where
  "Message_DeSerialize msg =
     (if length msg < 12 then Inl Undefined_Behaviour
      else Inr \<lparr>addr = be64 (drop 1 msg), broadcast = (msg ! 11 AND 0x03 = 0x02), msg_data = drop 12 msg\<rparr>)"

definition Message_DeSerializeExplicit :: "bytes \<Rightarrow> cpp_error + Message" where
  "Message_DeSerializeExplicit msg =
     (if length msg < 18 then Inl Undefined_Behaviour
      else Inr \<lparr>addr = be64 (drop 1 msg), broadcast = (msg ! 17 = 0x02), msg_data = drop 18 msg\<rparr>)"

section \<open>The radio\<close>

datatype persistance = ShutdownFirstResponse | CollectAfterTimeout

text \<open>
  The destructor of the behaviour with a timer destroys the thread of the timer, which is neither joined nor
  detached.
\<close>

definition ends_program :: "persistance \<Rightarrow> bool" where
  "ends_program p \<longleftrightarrow> p = CollectAfterTimeout"

text \<open>\<open>callback\<close> is what \<open>m_SendFramesUp\<close> and \<open>m_NewFrame\<close> captured, \<open>doneFrame\<close> what \<open>m_DoneBehavior\<close> did.\<close>

record 'cb Behavior =
  persists :: persistance
  callback :: "(at_class \<times> 'cb) option"
  collected :: "at_value list"
  doneFrame :: "nat option"

record Frame =
  framePersistance :: "nat option"
  inUse :: bool

record ('cb, 'h) DigiMeshRadio =
  m_CurrentFrames :: "Frame list"
  m_PreviousFrame :: int
  m_CurrBuf :: bytes
  m_MessageHandlers :: "'h list"
  behaviors :: "'cb Behavior list"
  marshaled :: "(nat \<times> nat \<times> bytes) list"   \<comment> \<open>number of the frame, behaviour, bytes\<close>
  written :: "bytes list"
  onLinkThread :: bool

definition DigiMeshRadio_new :: "'h list \<Rightarrow> ('cb, 'h) DigiMeshRadio" where
  "DigiMeshRadio_new handlers =
     \<lparr>m_CurrentFrames = replicate 256 \<lparr>framePersistance = None, inUse = False\<rparr>, m_PreviousFrame = 0, m_CurrBuf = [],
      m_MessageHandlers = handlers, behaviors = [], marshaled = [], written = [], onLinkThread = False\<rparr>"

type_synonym ('cb, 'h, 'z, 'a) radio_outcome = "(('cb, 'h, 'z) DigiMeshRadio_scheme, 'a) outcome"

definition set_inUse :: "nat \<Rightarrow> bool \<Rightarrow> ('cb, 'h, 'z) DigiMeshRadio_scheme \<Rightarrow> ('cb, 'h, 'z) DigiMeshRadio_scheme" where
  "set_inUse n b s = s\<lparr>m_CurrentFrames := (m_CurrentFrames s)[n := (m_CurrentFrames s ! n)\<lparr>inUse := b\<rparr>]\<rparr>"

text \<open>The loop of \<open>reserve_next_frame_id\<close>; the loop may not end.\<close>

partial_function (option) find_frame :: "int \<Rightarrow> (nat \<Rightarrow> bool) \<Rightarrow> int \<Rightarrow> int option" where
  "find_frame previous used framePrediction =
     (let framePrediction = framePrediction + 1;
          framePrediction = (if framePrediction > 255 then 1 else framePrediction)
      in if framePrediction = previous then Some (- 1)
         else if used (nat framePrediction) then find_frame previous used framePrediction
         else Some framePrediction)"

declare find_frame.simps [code]

definition reserve_next_frame_id :: "('cb, 'h, 'z) DigiMeshRadio_scheme \<Rightarrow> ('cb, 'h, 'z, int) radio_outcome" where
  "reserve_next_frame_id s =
     (case find_frame (m_PreviousFrame s) (\<lambda>n. inUse (m_CurrentFrames s ! n)) (m_PreviousFrame s) of
        None \<Rightarrow> (s, Inl Blocked)
      | Some n \<Rightarrow>
          if n = - 1 then (s, Inr (- 1))
          else ((set_inUse (nat n) True s)\<lparr>m_PreviousFrame := n\<rparr>, Inr n))"

section \<open>Sending\<close>

text \<open>A new object of \<open>FramePersistanceBehavior\<close>.\<close>

definition new_behavior ::
  "persistance \<Rightarrow> (at_class \<times> 'cb) option \<Rightarrow> ('cb, 'h, 'z) DigiMeshRadio_scheme
     \<Rightarrow> ('cb, 'h, 'z) DigiMeshRadio_scheme \<times> nat" where
  "new_behavior p cb s =
     (s\<lparr>behaviors := behaviors s @ [\<lparr>persists = p, callback = cb, collected = [], doneFrame = None\<rparr>]\<rparr>,
      length (behaviors s))"

definition setFinishBehavior :: "nat \<Rightarrow> nat \<Rightarrow> ('cb, 'h, 'z) DigiMeshRadio_scheme \<Rightarrow> ('cb, 'h, 'z) DigiMeshRadio_scheme" where
  "setFinishBehavior b frame_id s =
     s\<lparr>behaviors := (behaviors s)[b := (behaviors s ! b)\<lparr>doneFrame := Some frame_id\<rparr>]\<rparr>"

text \<open>
  What is given to \<open>MarshalOnThread\<close> assigns the behaviour to its frame, which destroys the behaviour that the frame
  had before, and writes the bytes.
\<close>

definition run_function :: "nat \<Rightarrow> nat \<Rightarrow> bytes \<Rightarrow> ('cb, 'h, 'z) DigiMeshRadio_scheme \<Rightarrow> ('cb, 'h, 'z, unit) radio_outcome" where
  "run_function frame_id b tx_buf s =
     (if (case framePersistance (m_CurrentFrames s ! frame_id) of
            None \<Rightarrow> False | Some old \<Rightarrow> ends_program (persists (behaviors s ! old)))
      then (s, Inl Terminated)
      else (s\<lparr>m_CurrentFrames := (m_CurrentFrames s)[frame_id := (m_CurrentFrames s ! frame_id)\<lparr>framePersistance := Some b\<rparr>],
              written := written s @ [tx_buf]\<rparr>, Inr ()))"

definition MarshalOnThread :: "nat \<Rightarrow> nat \<Rightarrow> bytes \<Rightarrow> ('cb, 'h, 'z) DigiMeshRadio_scheme \<Rightarrow> ('cb, 'h, 'z, unit) radio_outcome" where
  "MarshalOnThread frame_id b tx_buf s =
     (if onLinkThread s then run_function frame_id b tx_buf s
      else (s\<lparr>marshaled := marshaled s @ [(frame_id, b, tx_buf)]\<rparr>, Inr ()))"

text \<open>The thread of the link comes to the first function that was posted to it.\<close>

definition run_marshaled :: "('cb, 'h, 'z) DigiMeshRadio_scheme \<Rightarrow> ('cb, 'h, 'z, unit) radio_outcome" where
  "run_marshaled s = (case marshaled s of
     [] \<Rightarrow> (s, Inr ())
   | (n, b, tx_buf) # rest \<Rightarrow> run_function n b tx_buf (s\<lparr>marshaled := rest\<rparr>))"

text \<open>The bytes of a frame before the checksum is put at its end; lengths and numbers are cut to bytes.\<close>

definition message_bytes :: "nat \<Rightarrow> u64 \<Rightarrow> bytes \<Rightarrow> bytes" where
  "message_bytes frame_id address data =
     (let packet_length = 14 + length data
      in [START_BYTE, of_nat (packet_length div 256), of_nat packet_length, FRAME_TRANSMIT_REQUEST, of_nat frame_id]
         @ map (\<lambda>i. ucast (drop_bit (8 * (7 - i)) (address AND push_bit (8 * (7 - i)) 0xff))) [0..<8]
         @ [0xFF, 0xFE, 0, 0] @ data)"

definition command_bytes :: "nat \<Rightarrow> bytes \<Rightarrow> bytes \<Rightarrow> bytes" where
  "command_bytes frame_id parameterName data =
     (let n = 4 + length data
      in [START_BYTE, of_nat (n div 256), of_nat n, FRAME_AT_COMMAND, of_nat frame_id, parameterName ! 0,
          (parameterName @ [0]) ! 1] @ data)"

definition with_checksum :: "bytes \<Rightarrow> bytes" where
  "with_checksum tx_buf = tx_buf @ [calc_checksum tx_buf 3 (length tx_buf)]"

definition no_frame :: cpp_error where
  "no_frame = Runtime_Error ''Digimesh frame could not be established. Communication rate is likely too high for network to handle''"

definition construct_message ::
  "bytes \<Rightarrow> u64 \<Rightarrow> nat \<Rightarrow> ('cb, 'h, 'z) DigiMeshRadio_scheme \<Rightarrow> ('cb, 'h, 'z, unit) radio_outcome" where
  "construct_message data address frameBehavior s =
     obind (if callback (behaviors s ! frameBehavior) \<noteq> None then reserve_next_frame_id s else (s, Inr 0))
       (\<lambda>s frame_id.
          if frame_id = - 1 then (s, Inl no_frame)
          else MarshalOnThread (nat frame_id) frameBehavior (with_checksum (message_bytes (nat frame_id) address data))
                 (setFinishBehavior frameBehavior (nat frame_id) s))"

definition AT_command_helper ::
  "bytes \<Rightarrow> nat \<Rightarrow> bytes \<Rightarrow> ('cb, 'h, 'z) DigiMeshRadio_scheme \<Rightarrow> ('cb, 'h, 'z, int) radio_outcome" where
  "AT_command_helper parameterName frameBehavior data s =
     obind (reserve_next_frame_id s) (\<lambda>s frame_id.
       if frame_id = - 1 then (s, Inl no_frame)
       else if parameterName = [] then (s, Inl Undefined_Behaviour)
       else obind (MarshalOnThread (nat frame_id) frameBehavior (with_checksum (command_bytes (nat frame_id) parameterName data))
              (setFinishBehavior frameBehavior (nat frame_id) s)) (\<lambda>s u. (s, Inr frame_id)))"

text \<open>An exception destroys the new behaviour on its way.\<close>

definition GetATParameterAsync ::
  "at_class \<Rightarrow> persistance \<Rightarrow> bytes \<Rightarrow> 'cb \<Rightarrow> ('cb, 'h, 'z) DigiMeshRadio_scheme \<Rightarrow> ('cb, 'h, 'z, unit) radio_outcome" where
  "GetATParameterAsync T p parameterName cb s =
     (let (s, b) = new_behavior p (Some (T, cb)) s
      in (case AT_command_helper parameterName b [] s of
            (s, Inl e) \<Rightarrow> (s, Inl (if e = no_frame \<and> ends_program p then Terminated else e))
          | (s, Inr n) \<Rightarrow> (s, Inr ())))"

definition SetATParameterAsync ::
  "at_class \<Rightarrow> bytes \<Rightarrow> bytes \<Rightarrow> 'cb \<Rightarrow> ('cb, 'h, 'z) DigiMeshRadio_scheme \<Rightarrow> ('cb, 'h, 'z, unit) radio_outcome" where
  "SetATParameterAsync RT parameterName value cb s =
     (let (s, b) = new_behavior ShutdownFirstResponse (Some (RT, cb)) s
      in obind (AT_command_helper parameterName b value s) (\<lambda>s n. (s, Inr ())))"

text \<open>\<open>SendMessage\<close>, to all, to an address, or to an address with a callback for the status.\<close>

definition SendMessage ::
  "bytes \<Rightarrow> u64 \<Rightarrow> 'cb option \<Rightarrow> ('cb, 'h, 'z) DigiMeshRadio_scheme \<Rightarrow> ('cb, 'h, 'z, unit) radio_outcome" where
  "SendMessage data address cb s =
     (let (s, b) = new_behavior ShutdownFirstResponse (map_option (Pair AT_TransmitStatus) cb) s
      in construct_message data address b s)"

section \<open>Answers\<close>

text \<open>
  \<open>SendAndFinish\<close>: the frame is free again before the callback runs; the callback is dropped after it.
\<close>

definition SendAndFinish ::
  "('cb \<Rightarrow> at_value list \<Rightarrow> ('cb, 'h, 'z) DigiMeshRadio_scheme \<Rightarrow> ('cb, 'h, 'z, unit) radio_outcome)
    \<Rightarrow> nat \<Rightarrow> ('cb, 'h, 'z) DigiMeshRadio_scheme \<Rightarrow> ('cb, 'h, 'z, unit) radio_outcome" where
  "SendAndFinish on_return b s =
     (let s = (case doneFrame (behaviors s ! b) of None \<Rightarrow> s | Some n \<Rightarrow> set_inUse n False s)
      in case callback (behaviors s ! b) of
           None \<Rightarrow> (s, Inl Undefined_Behaviour)
         | Some (T, cb) \<Rightarrow>
             obind (on_return cb (collected (behaviors s ! b)) s) (\<lambda>s u.
               (s\<lparr>behaviors := (behaviors s)[b := (behaviors s ! b)\<lparr>callback := None\<rparr>]\<rparr>, Inr ())))"

definition AddFrameReturn ::
  "('cb \<Rightarrow> at_value list \<Rightarrow> ('cb, 'h, 'z) DigiMeshRadio_scheme \<Rightarrow> ('cb, 'h, 'z, unit) radio_outcome)
    \<Rightarrow> nat \<Rightarrow> at_class \<Rightarrow> bytes \<Rightarrow> ('cb, 'h, 'z) DigiMeshRadio_scheme \<Rightarrow> ('cb, 'h, 'z, unit) radio_outcome" where
  "AddFrameReturn on_return b T data s = (case DeSerialize T data of
     Inl e \<Rightarrow> (s, Inl e)
   | Inr x \<Rightarrow>
       let s = s\<lparr>behaviors := (behaviors s)[b := (behaviors s ! b)\<lparr>collected := collected (behaviors s ! b) @ [x]\<rparr>]\<rparr>
       in (case persists (behaviors s ! b) of
             ShutdownFirstResponse \<Rightarrow> SendAndFinish on_return b s
           | CollectAfterTimeout \<Rightarrow> (s, Inr ())))"

definition find_and_invokve_frame ::
  "('cb \<Rightarrow> at_value list \<Rightarrow> ('cb, 'h, 'z) DigiMeshRadio_scheme \<Rightarrow> ('cb, 'h, 'z, unit) radio_outcome)
    \<Rightarrow> nat \<Rightarrow> bytes \<Rightarrow> ('cb, 'h, 'z) DigiMeshRadio_scheme \<Rightarrow> ('cb, 'h, 'z, unit) radio_outcome" where
  "find_and_invokve_frame on_return frame_id data s =
     (let f = m_CurrentFrames s ! frame_id
      in case framePersistance f of
           None \<Rightarrow> (s, Inr ())
         | Some b \<Rightarrow>
             (case callback (behaviors s ! b) of
                None \<Rightarrow> (s, Inr ())
              | Some (T, cb) \<Rightarrow> if inUse f then AddFrameReturn on_return b T data s else (s, Inr ())))"

text \<open>The timer of \<open>CollectAfterTimeout\<close>.\<close>

definition timeout ::
  "('cb \<Rightarrow> at_value list \<Rightarrow> ('cb, 'h, 'z) DigiMeshRadio_scheme \<Rightarrow> ('cb, 'h, 'z, unit) radio_outcome)
    \<Rightarrow> nat \<Rightarrow> ('cb, 'h, 'z) DigiMeshRadio_scheme \<Rightarrow> ('cb, 'h, 'z, unit) radio_outcome" where
  "timeout on_return b s = SendAndFinish on_return b s"

section \<open>Receiving\<close>

definition handle_AT_command_response ::
  "('cb \<Rightarrow> at_value list \<Rightarrow> ('cb, 'h, 'z) DigiMeshRadio_scheme \<Rightarrow> ('cb, 'h, 'z, unit) radio_outcome)
    \<Rightarrow> bytes \<Rightarrow> ('cb, 'h, 'z) DigiMeshRadio_scheme \<Rightarrow> ('cb, 'h, 'z, unit) radio_outcome" where
  "handle_AT_command_response on_return buf s =
     (if length buf < 5 then (s, Inl Undefined_Behaviour)
      else find_and_invokve_frame on_return (unat (buf ! 1)) (drop 5 buf) s)"

definition handle_transmit_status ::
  "('cb \<Rightarrow> at_value list \<Rightarrow> ('cb, 'h, 'z) DigiMeshRadio_scheme \<Rightarrow> ('cb, 'h, 'z, unit) radio_outcome)
    \<Rightarrow> bytes \<Rightarrow> ('cb, 'h, 'z) DigiMeshRadio_scheme \<Rightarrow> ('cb, 'h, 'z, unit) radio_outcome" where
  "handle_transmit_status on_return data s =
     (if length data < 2 then (s, Inl Undefined_Behaviour)
      else obind (find_and_invokve_frame on_return (unat (data ! 1)) data s) (\<lambda>s u.
        if length data < 6 then (s, Inl Undefined_Behaviour)
        else if data ! 5 = PAYLOAD_TOO_LARGE then (s, Inl (Runtime_Error ''Transmit error, Payload too large''))
        else (s, Inr ())))"

definition handle_legacy_transmit_status :: "bytes \<Rightarrow> 's \<Rightarrow> ('s, unit) outcome" where
  "handle_legacy_transmit_status data s = (if length data < 3 then (s, Inl Undefined_Behaviour) else (s, Inr ()))"

fun call_handlers :: "('h \<Rightarrow> Message \<Rightarrow> 's \<Rightarrow> ('s, unit) outcome) \<Rightarrow> 'h list \<Rightarrow> Message \<Rightarrow> 's \<Rightarrow> ('s, unit) outcome" where
  "call_handlers on_message [] msg s = (s, Inr ())"
| "call_handlers on_message (h # hs) msg s =
     obind (on_message h msg s) (\<lambda>s u. call_handlers on_message hs msg s)"

definition handle_receive_packet ::
  "('h \<Rightarrow> Message \<Rightarrow> ('cb, 'h, 'z) DigiMeshRadio_scheme \<Rightarrow> ('cb, 'h, 'z, unit) radio_outcome)
    \<Rightarrow> bytes \<Rightarrow> bool \<Rightarrow> ('cb, 'h, 'z) DigiMeshRadio_scheme \<Rightarrow> ('cb, 'h, 'z, unit) radio_outcome" where
  "handle_receive_packet on_message data explicitFrame s =
     (case if explicitFrame then Message_DeSerializeExplicit data else Message_DeSerialize data of
        Inl e \<Rightarrow> (s, Inl e)
      | Inr msg \<Rightarrow> call_handlers on_message (m_MessageHandlers s) msg s)"

text \<open>The switch on the type of a packet, whose first byte is read without a check.\<close>

definition handle_packet ::
  "('h \<Rightarrow> Message \<Rightarrow> ('cb, 'h, 'z) DigiMeshRadio_scheme \<Rightarrow> ('cb, 'h, 'z, unit) radio_outcome)
    \<Rightarrow> ('cb \<Rightarrow> at_value list \<Rightarrow> ('cb, 'h, 'z) DigiMeshRadio_scheme \<Rightarrow> ('cb, 'h, 'z, unit) radio_outcome)
    \<Rightarrow> bytes \<Rightarrow> ('cb, 'h, 'z) DigiMeshRadio_scheme \<Rightarrow> ('cb, 'h, 'z, unit) radio_outcome" where
  "handle_packet on_message on_return packet s =
     (case packet of
        [] \<Rightarrow> (s, Inl Undefined_Behaviour)
      | type # rest \<Rightarrow>
          if type = FRAME_AT_COMMAND_RESPONSE then handle_AT_command_response on_return packet s
          else if type = FRAME_REMOTE_AT_COMMAND_RESPONSE then (s, Inr ())
          else if type = FRAME_MODEM_STATUS then (s, Inr ())
          else if type = FRAME_TRANSMIT_STATUS then handle_transmit_status on_return packet s
          else if type = LEGACY_TX_STATUS then handle_legacy_transmit_status packet s
          else if type = FRAME_RECEIVE_PACKET then handle_receive_packet on_message packet False s
          else if type = FRAME_EXPLICIT_RECEIVE_PACKET then handle_receive_packet on_message packet True s
          else (s, Inl (Runtime_Error ''unknown packet type received'')))"

text \<open>The length of a frame is computed in 16 bits.\<close>

definition packet_length :: "u8 \<Rightarrow> u8 \<Rightarrow> 16 word" where
  "packet_length hi lo = be16 hi lo + 4"

text \<open>
  The loop of \<open>ReceiveData\<close>; nothing but \<open>ReceiveData\<close> reads or writes \<open>m_CurrBuf\<close>, which is passed along. The
  iterators of a frame that is shorter than four bytes, which only a length that wrapped can be, do not form a
  range.
\<close>

function receive_loop ::
  "(bytes \<Rightarrow> 's \<Rightarrow> ('s, unit) outcome) \<Rightarrow> bytes \<Rightarrow> 's \<Rightarrow> (bytes \<times> 's, unit) outcome" where
  "receive_loop handle buf s =
     (if length buf < 3 then ((buf, s), Inr ())
      else if buf ! 0 \<noteq> START_BYTE then receive_loop handle (tl buf) s
      else let n = unat (packet_length (buf ! 1) (buf ! 2))
           in if length buf < n then ((buf, s), Inr ())
              else if n < 4 then ((buf, s), Inl Undefined_Behaviour)
              else let packet = drop 3 (take (n - 1) buf); checksum = buf ! (n - 1); buf = drop n buf
                   in if checksum + sum_list packet \<noteq> 0xFF then receive_loop handle buf s
                      else (case handle packet s of
                              (s, Inl e) \<Rightarrow> ((buf, s), Inl e)
                            | (s, Inr u) \<Rightarrow> receive_loop handle buf s))"
  by pat_completeness auto
termination
  by (relation "measure (\<lambda>(handle, buf, s). length buf)") auto

declare receive_loop.simps [simp del]

definition ReceiveData ::
  "('h \<Rightarrow> Message \<Rightarrow> ('cb, 'h, 'z) DigiMeshRadio_scheme \<Rightarrow> ('cb, 'h, 'z, unit) radio_outcome)
    \<Rightarrow> ('cb \<Rightarrow> at_value list \<Rightarrow> ('cb, 'h, 'z) DigiMeshRadio_scheme \<Rightarrow> ('cb, 'h, 'z, unit) radio_outcome)
    \<Rightarrow> bytes \<Rightarrow> ('cb, 'h, 'z) DigiMeshRadio_scheme \<Rightarrow> ('cb, 'h, 'z, unit) radio_outcome" where
  "ReceiveData on_message on_return buffer s =
     (case receive_loop (handle_packet on_message on_return) (m_CurrBuf s @ buffer) s of
        ((buf, s), r) \<Rightarrow> (s\<lparr>m_CurrBuf := buf\<rparr>, r))"

text \<open>The timer of the link reads what has come in and hands it to the radio, on the thread of the link.\<close>

definition readBytes ::
  "('h \<Rightarrow> Message \<Rightarrow> ('cb, 'h, 'z) DigiMeshRadio_scheme \<Rightarrow> ('cb, 'h, 'z, unit) radio_outcome)
    \<Rightarrow> ('cb \<Rightarrow> at_value list \<Rightarrow> ('cb, 'h, 'z) DigiMeshRadio_scheme \<Rightarrow> ('cb, 'h, 'z, unit) radio_outcome)
    \<Rightarrow> bytes \<Rightarrow> ('cb, 'h, 'z) DigiMeshRadio_scheme \<Rightarrow> ('cb, 'h, 'z, unit) radio_outcome" where
  "readBytes on_message on_return buffer s =
     (if buffer = [] then (s, Inr ())
      else (case ReceiveData on_message on_return buffer (s\<lparr>onLinkThread := True\<rparr>) of
              (s, r) \<Rightarrow> (s\<lparr>onLinkThread := False\<rparr>, r)))"

end
