(* ===== verification/Digimesh_Stream.thy ===== *)
theory Digimesh_Stream
  imports Digimesh_Radio
begin

unbundle bit_operations_syntax

text \<open>
  The stream of bytes that the radio receives. How the serial port cuts the stream into buffers makes no
  difference, and of a stream of packets, noise and damaged frames exactly the packets are handled, in their
  order.
\<close>

section \<open>Checksums and lengths\<close>

lemma take_bit_8_add: "take_bit 8 (take_bit 64 a + take_bit 64 b) = (take_bit 8 (a + b) :: int)"
  by (simp only: take_bit_add [of 8 "take_bit 64 a", symmetric] take_bit_add [of 8 a, symmetric]) simp

lemma ucast_add8: "ucast (a + b :: u64) = (ucast a + ucast b :: u8)"
  by transfer (simp add: take_bit_8_add)

lemma ucast_diff8: "ucast (a - b :: u64) = (ucast a - ucast b :: u8)"
  using ucast_add8 [of "a - b" b] by (simp add: eq_diff_eq)

lemma ucast_scast_u8 [simp]: "ucast (scast (b :: u8) :: u64) = b"
  by (rule bit_word_eqI) (simp add: bit_simps)

lemma ucast_low_byte: "ucast ((x :: u64) AND 0xff) = (ucast x :: u8)"
proof -
  have "(0xff :: u64) = mask 8" by (simp add: mask_eq_exp_minus_1)
  then show ?thesis by (rule ssubst) (rule bit_word_eqI, simp add: bit_simps)
qed

lemma ucast_sum: "(ucast (fold (\<lambda>b sum. sum + scast b) xs a :: u64) :: u8) = ucast a + sum_list xs"
  by (induction xs arbitrary: a) (simp_all add: ucast_add8)

text \<open>The sum over signed elements in 64 bits is, in its last byte, the sum of the bytes.\<close>

lemma calc_checksum_eq: "calc_checksum buf start end = 0xff - sum_list (take (end - start) (drop start buf))"
  by (simp add: calc_checksum_def ucast_low_byte ucast_diff8 ucast_sum)

lemma with_checksum_eq: "with_checksum buf = buf @ [0xff - sum_list (drop 3 buf)]"
  by (simp add: with_checksum_def calc_checksum_eq)

lemma unat_u8_less [simp]: "unat (b :: u8) < 256"
  using unsigned_less [of b, where ?'a = nat] by simp
lemma take_bit_16_u8 [simp]: "take_bit 16 (unat (b :: u8)) = unat b"
  by (rule take_bit_nat_eq_self) (rule less_trans [OF unat_u8_less], simp)

lemma be16_plus: "be16 hi lo = ucast hi * 256 + ucast lo"
proof -
  have "push_bit 8 (ucast hi) OR ucast lo = push_bit 8 (ucast hi) + (ucast lo :: 16 word)"
    by (rule disjunctive_add_eq_or [symmetric]) (rule bit_word_eqI, auto simp: bit_simps dest: bit_imp_le_length)
  then show ?thesis by (simp add: be16_def push_bit_eq_mult)
qed
lemma unat_be16: "unat (be16 hi lo) = 256 * unat hi + unat lo"
proof -
  have "unat hi < 256" "unat lo < 256" by simp_all
  then show ?thesis by (simp add: be16_plus unat_word_ariths unsigned_ucast_eq del: unat_u8_less)
qed
lemma unat_packet_length:
  assumes "n + 4 < 2 ^ 16"
  shows "unat (packet_length (of_nat (n div 256)) (of_nat n)) = n + 4"
proof -
  have "unat (of_nat (n div 256) :: u8) = n div 256" "unat (of_nat n :: u8) = n mod 256"
    using assms by (simp_all add: unsigned_of_nat take_bit_eq_mod)
  then have "unat (be16 (of_nat (n div 256)) (of_nat n)) = n" by (simp add: unat_be16)
  then show ?thesis using assms by (simp add: packet_length_def unat_word_ariths)
qed

section \<open>Cutting the stream\<close>

lemma receive_loop_short [simp]: "length buf < 3 \<Longrightarrow> receive_loop handle buf s = ((buf, s), Inr ())"
  by (simp add: receive_loop.simps [of handle buf])

lemma receive_loop_skip:
  "length buf \<ge> 3 \<Longrightarrow> buf ! 0 \<noteq> START_BYTE \<Longrightarrow> receive_loop handle buf s = receive_loop handle (tl buf) s"
  by (simp add: receive_loop.simps [of handle buf])

definition frame_length :: "bytes \<Rightarrow> nat" where
  "frame_length buf = unat (packet_length (buf ! 1) (buf ! 2))"

lemma receive_loop_start:
  assumes "length buf \<ge> 3" "buf ! 0 = START_BYTE"
  shows "receive_loop handle buf s =
    (let n = frame_length buf in
     if length buf < n then ((buf, s), Inr ())
     else if n < 4 then ((buf, s), Inl Undefined_Behaviour)
     else if buf ! (n - 1) + sum_list (drop 3 (take (n - 1) buf)) \<noteq> 0xFF then receive_loop handle (drop n buf) s
     else (case handle (drop 3 (take (n - 1) buf)) s of
             (s, Inl e) \<Rightarrow> ((drop n buf, s), Inl e)
           | (s, Inr u) \<Rightarrow> receive_loop handle (drop n buf) s))"
  using assms by (simp add: receive_loop.simps [of handle buf] frame_length_def Let_def)

lemma receive_loop_append:
  "receive_loop handle xs s = ((b, s'), r) \<Longrightarrow>
   receive_loop handle (xs @ ys) s =
     (case r of Inr u \<Rightarrow> receive_loop handle (b @ ys) s' | Inl e \<Rightarrow> ((b @ ys, s'), Inl e))"
proof (induction "length xs" arbitrary: xs s rule: less_induct)
  case less
  show ?case
  proof (cases "length xs < 3 \<or> xs ! 0 = START_BYTE \<and> length xs < frame_length xs")
    case True
    then have "receive_loop handle xs s = ((xs, s), Inr ())"
      by (cases "length xs < 3") (auto simp: receive_loop_start)
    then show ?thesis using less.prems by (simp split: sum.split)
  next
    case False
    show ?thesis
    proof (cases "xs ! 0 = START_BYTE")
      case noise: False
      then show ?thesis
        using False less.prems less.hyps [of "tl xs" s] by (cases xs) (auto simp: receive_loop_skip)
    next
      case start: True
      define n where "n = frame_length xs"
      have n: "frame_length (xs @ ys) = n" "(xs @ ys) ! 0 = START_BYTE" "n \<le> length xs" "3 \<le> length xs"
        using False start by (auto simp: n_def frame_length_def nth_append)
      note step = receive_loop_start [of xs handle s] receive_loop_start [of "xs @ ys" handle s]
      show ?thesis
        using less.prems less.hyps [of "drop n xs"] n start
        by (auto simp: step nth_append Let_def n_def [symmetric] split: if_splits sum.splits prod.splits)
    qed
  qed
qed

text \<open>The stream as its senders and the line made it, and what of it is to be handled.\<close>

datatype piece = Noise bytes | Damaged bytes u8 | Packet bytes

definition frame :: "bytes \<Rightarrow> u8 \<Rightarrow> bytes" where
  "frame p checksum = START_BYTE # of_nat (length p div 256) # of_nat (length p) # p @ [checksum]"

fun piece_bytes :: "piece \<Rightarrow> bytes" where
  "piece_bytes (Noise n) = n"
| "piece_bytes (Damaged p c) = frame p c"
| "piece_bytes (Packet p) = frame p (0xff - sum_list p)"

fun piece_ok :: "piece \<Rightarrow> bool" where
  "piece_ok (Noise n) = (START_BYTE \<notin> set n)"
| "piece_ok (Damaged p c) = (length p + 4 < 2 ^ 16 \<and> c + sum_list p \<noteq> 0xff)"
| "piece_ok (Packet p) = (length p + 4 < 2 ^ 16)"

fun packets :: "piece list \<Rightarrow> bytes list" where
  "packets [] = []"
| "packets (Packet p # ps) = p # packets ps"
| "packets (_ # ps) = packets ps"

fun handle_all :: "(bytes \<Rightarrow> 's \<Rightarrow> ('s, unit) outcome) \<Rightarrow> bytes list \<Rightarrow> 's \<Rightarrow> ('s, unit) outcome" where
  "handle_all handle [] s = (s, Inr ())"
| "handle_all handle (p # ps) s = obind (handle p s) (\<lambda>s u. handle_all handle ps s)"

lemma receive_loop_noise:
  "START_BYTE \<notin> set b \<Longrightarrow> length ys \<ge> 3 \<Longrightarrow> receive_loop handle (b @ ys) s = receive_loop handle ys s"
  by (induction b) (auto simp: receive_loop_skip)

lemma receive_loop_only_noise:
  "START_BYTE \<notin> set b \<Longrightarrow> receive_loop handle b s = ((drop (length b - 2) b, s), Inr ())"
proof (induction b)
  case (Cons a b)
  show ?case
  proof (cases "length b < 2")
    case False
    then have "length b - Suc 0 = Suc (length b - 2)" by simp
    then show ?thesis using Cons False receive_loop_skip [of "a # b" handle s] by auto
  qed simp
qed simp

lemma drop_at: "n = length xs \<Longrightarrow> drop n (xs @ ys) = ys"
  by simp

lemma receive_loop_frame:
  assumes "length p + 4 < 2 ^ 16"
  shows "receive_loop handle (frame p c @ ys) s =
    (if c + sum_list p \<noteq> 0xff then receive_loop handle ys s
     else (case handle p s of
             (s, Inl e) \<Rightarrow> ((ys, s), Inl e) | (s, Inr u) \<Rightarrow> receive_loop handle ys s))"
proof -
  define xs where "xs = frame p c @ ys"
  have start: "length xs \<ge> 3" "xs ! 0 = START_BYTE" and n: "frame_length xs = length p + 4"
    and parts: "xs ! (3 + length p) = c" "length xs = length p + 4 + length ys"
    using unat_packet_length [OF assms] by (simp_all add: xs_def frame_length_def frame_def nth_append)
  have "take (3 + length p) xs = [START_BYTE, of_nat (length p div 256), of_nat (length p)] @ p"
    by (simp add: xs_def frame_def numeral_3_eq_3)
  then have packet: "drop 3 (take (3 + length p) xs) = p"
    by simp
  have rest: "drop (length p + 4) xs = ys"
    unfolding xs_def by (rule drop_at) (simp add: frame_def)
  show ?thesis
    unfolding xs_def [symmetric] using receive_loop_start [OF start, of handle s]
    by (simp add: n parts packet rest Let_def)
qed

text \<open>What is left in the buffer after a stream is at most two bytes of noise.\<close>

definition residue :: "bytes \<Rightarrow> bool" where
  "residue b \<longleftrightarrow> length b < 3 \<and> START_BYTE \<notin> set b"

lemma residue_Nil [simp]: "residue []"
  by (simp add: residue_def)

lemma receive_loop_pieces:
  "\<forall>p \<in> set ps. piece_ok p \<Longrightarrow> START_BYTE \<notin> set b \<Longrightarrow> handle_all handle (packets ps) s = (s', r) \<Longrightarrow>
   \<exists>b'. (r = Inr () \<longrightarrow> residue b') \<and>
     receive_loop handle (b @ concat (map piece_bytes ps)) s = ((b', s'), r)"
proof (induction ps arbitrary: b s)
  case Nil
  then show ?case
    using set_drop_subset [of "length b - 2" b]
    by (auto simp: receive_loop_only_noise residue_def)
next
  case (Cons p ps)
  have frame: "length (frame q c @ ys) \<ge> 3" for q c ys by (simp add: frame_def)
  show ?case
  proof (cases p)
    case (Noise n)
    then show ?thesis using Cons.prems Cons.IH [of "b @ n" s] by simp
  next
    case (Damaged q c)
    then show ?thesis using Cons.prems Cons.IH [of "[]" s]
      by (simp add: receive_loop_noise [OF _ frame] receive_loop_frame)
  next
    case (Packet q)
    obtain s1 r1 where h: "handle q s = (s1, r1)" by fastforce
    show ?thesis
      using Packet h Cons.prems Cons.IH [of "[]" s1]
      by (cases r1) (auto simp: receive_loop_noise [OF _ frame] receive_loop_frame)
  qed
qed

section \<open>The buffer of the radio\<close>

text \<open>
  Nothing but \<open>ReceiveData\<close> uses the buffer: what a callback or a handler does is the same whatever the buffer
  holds, and leaves the buffer alone.
\<close>

definition ignores_buffer ::
  "(('cb, 'h, 'z) DigiMeshRadio_scheme \<Rightarrow> ('cb, 'h, 'z, 'a) radio_outcome) \<Rightarrow> bool" where
  "ignores_buffer f \<longleftrightarrow> (\<forall>s b. f (s\<lparr>m_CurrBuf := b\<rparr>) = (case f s of (s, r) \<Rightarrow> (s\<lparr>m_CurrBuf := b\<rparr>, r)))"

lemma ignores_bufferD: "ignores_buffer f \<Longrightarrow> f (s\<lparr>m_CurrBuf := b\<rparr>) = (case f s of (s, r) \<Rightarrow> (s\<lparr>m_CurrBuf := b\<rparr>, r))"
  by (simp add: ignores_buffer_def)

lemma buffer_last:
  "s\<lparr>m_CurrBuf := b, m_CurrentFrames := f\<rparr> = s\<lparr>m_CurrentFrames := f, m_CurrBuf := b\<rparr>"
  "s\<lparr>m_CurrBuf := b, behaviors := bs\<rparr> = s\<lparr>behaviors := bs, m_CurrBuf := b\<rparr>"
  by simp_all

lemma ignores_buffer_obind:
  "ignores_buffer f \<Longrightarrow> (\<And>x. ignores_buffer (\<lambda>s. g s x)) \<Longrightarrow> ignores_buffer (\<lambda>s. obind (f s) g)"
  by (auto simp: ignores_buffer_def obind_def split: prod.splits sum.splits)

lemma ignores_buffer_return [simp]: "ignores_buffer (\<lambda>s. (s, r))"
  by (simp add: ignores_buffer_def)

locale radio_client =
  fixes on_message :: "'h \<Rightarrow> Message \<Rightarrow> ('cb, 'h, 'z) DigiMeshRadio_scheme \<Rightarrow> ('cb, 'h, 'z, unit) radio_outcome"
    and on_return :: "'cb \<Rightarrow> at_value list \<Rightarrow> ('cb, 'h, 'z) DigiMeshRadio_scheme \<Rightarrow> ('cb, 'h, 'z, unit) radio_outcome"
  assumes on_message: "\<And>h m. ignores_buffer (on_message h m)"
    and on_return: "\<And>cb xs. ignores_buffer (on_return cb xs)"
begin

lemma SendAndFinish_ignores: "ignores_buffer (SendAndFinish on_return b)"
proof -
  have "on_return cb xs (s\<lparr>m_CurrBuf := buf\<rparr>) = (case on_return cb xs s of (s, r) \<Rightarrow> (s\<lparr>m_CurrBuf := buf\<rparr>, r))" for cb xs s buf
    by (rule ignores_bufferD [OF on_return])
  then show ?thesis
  by (simp add: ignores_buffer_def SendAndFinish_def set_inUse_def obind_def Let_def buffer_last(1)
      split: option.split prod.split sum.split)
qed

lemma AddFrameReturn_ignores: "ignores_buffer (AddFrameReturn on_return b T data)"
  using ignores_bufferD [OF SendAndFinish_ignores]
  by (simp add: ignores_buffer_def AddFrameReturn_def Let_def buffer_last(2)
      split: sum.split persistance.split)

lemma find_and_invokve_frame_ignores: "ignores_buffer (find_and_invokve_frame on_return n data)"
  using ignores_bufferD [OF AddFrameReturn_ignores]
  by (simp add: ignores_buffer_def find_and_invokve_frame_def Let_def split: option.split prod.split)

lemma call_handlers_ignores: "ignores_buffer (call_handlers on_message hs msg)"
  by (induction hs) (simp_all add: on_message ignores_buffer_obind)

lemma handle_packet_ignores: "ignores_buffer (handle_packet on_message on_return p)"
proof -
  have "ignores_buffer (handle_AT_command_response on_return p)"
    using ignores_bufferD [OF find_and_invokve_frame_ignores]
    by (simp add: ignores_buffer_def handle_AT_command_response_def)
  moreover have "ignores_buffer (handle_transmit_status on_return p)"
    using ignores_bufferD [OF find_and_invokve_frame_ignores]
    by (simp add: ignores_buffer_def handle_transmit_status_def obind_def split: prod.split sum.split)
  moreover have "ignores_buffer (handle_receive_packet on_message p e)" for e
    using ignores_bufferD [OF call_handlers_ignores]
    by (simp add: ignores_buffer_def handle_receive_packet_def split: prod.split sum.split)
  ultimately show ?thesis
    by (simp add: ignores_buffer_def handle_packet_def handle_legacy_transmit_status_def split: list.split)
qed

end

lemma receive_loop_ignores:
  assumes "\<And>p. ignores_buffer (handle p)"
  shows "receive_loop handle buf (s\<lparr>m_CurrBuf := b\<rparr>) =
    (case receive_loop handle buf s of ((buf', s'), r) \<Rightarrow> ((buf', s'\<lparr>m_CurrBuf := b\<rparr>), r))"
proof (induction "length buf" arbitrary: buf s rule: less_induct)
  case less
  note * = ignores_bufferD [OF assms]
  show ?case
  proof (cases "length buf < 3")
    case long: False
    show ?thesis
    proof (cases "buf ! 0 = START_BYTE")
      case True
      then show ?thesis
        using long less.hyps [of "drop (frame_length buf) buf"]
        by (simp add: receive_loop_start [OF _ True] Let_def * split: prod.split sum.split)
    next
      case False
      then show ?thesis using long less.hyps [of "tl buf"] by (simp add: receive_loop_skip)
    qed
  qed simp
qed

text \<open>The buffers that the serial port gives, one after the other.\<close>

fun receive_all ::
  "('h \<Rightarrow> Message \<Rightarrow> ('cb, 'h, 'z) DigiMeshRadio_scheme \<Rightarrow> ('cb, 'h, 'z, unit) radio_outcome)
    \<Rightarrow> ('cb \<Rightarrow> at_value list \<Rightarrow> ('cb, 'h, 'z) DigiMeshRadio_scheme \<Rightarrow> ('cb, 'h, 'z, unit) radio_outcome)
    \<Rightarrow> bytes list \<Rightarrow> ('cb, 'h, 'z) DigiMeshRadio_scheme \<Rightarrow> ('cb, 'h, 'z, unit) radio_outcome" where
  "receive_all on_message on_return [] s = (s, Inr ())"
| "receive_all on_message on_return (c # cs) s =
     obind (ReceiveData on_message on_return c s) (\<lambda>s u. receive_all on_message on_return cs s)"

context radio_client begin

lemma ReceiveData_append:
  "ReceiveData on_message on_return xs s = (s', Inr u) \<Longrightarrow>
   ReceiveData on_message on_return (xs @ ys) s = ReceiveData on_message on_return ys s'"
  using receive_loop_ignores [OF handle_packet_ignores]
  by (auto simp: ReceiveData_def receive_loop_append split: prod.splits
      simp flip: append_assoc)

lemma ReceiveData_append_error:
  "ReceiveData on_message on_return xs s = (s', Inl e) \<Longrightarrow>
   ReceiveData on_message on_return (xs @ ys) s = (s'\<lparr>m_CurrBuf := m_CurrBuf s' @ ys\<rparr>, Inl e)"
  by (auto simp: ReceiveData_def receive_loop_append split: prod.splits simp flip: append_assoc)

lemma receive_all_concat:
  assumes "cs \<noteq> []" and "receive_all on_message on_return cs s = (s', r)"
  shows "\<exists>rest. (r = Inr () \<longrightarrow> rest = []) \<and>
    ReceiveData on_message on_return (concat cs) s = (s'\<lparr>m_CurrBuf := m_CurrBuf s' @ rest\<rparr>, r)"
  using assms
proof (induction cs arbitrary: s rule: list_nonempty_induct)
  case (single c)
  then have "ReceiveData on_message on_return c s = (s', r)"
    by (auto simp: obind_def split: prod.splits sum.splits)
  then show ?case by (intro exI [of _ "[]"]) simp
next
  case (cons c cs)
  then show ?case
    by (cases "ReceiveData on_message on_return c s"; cases "snd (ReceiveData on_message on_return c s)")
      (auto simp: ReceiveData_append ReceiveData_append_error)
qed

lemma receive_all_pieces:
  assumes "cs \<noteq> []" and "concat cs = concat (map piece_bytes ps)" and "\<forall>p \<in> set ps. piece_ok p"
    and "START_BYTE \<notin> set (m_CurrBuf s)"
    and "handle_all (handle_packet on_message on_return) (packets ps) s = (s', Inr ())"
  shows "\<exists>b. residue b \<and> receive_all on_message on_return cs s = (s'\<lparr>m_CurrBuf := b\<rparr>, Inr ())"
proof -
  obtain b where b: "residue b"
      "ReceiveData on_message on_return (concat cs) s = (s'\<lparr>m_CurrBuf := b\<rparr>, Inr ())"
    using receive_loop_pieces [OF assms(3,4,5)] by (auto simp: ReceiveData_def assms(2))
  obtain s2 r where r: "receive_all on_message on_return cs s = (s2, r)" by fastforce
  show ?thesis using receive_all_concat [OF assms(1) r] b r by (cases r) auto
qed

end

end
