(* ===== verification/Digimesh_Messages.thy ===== *)
theory Digimesh_Messages
  imports Digimesh_Stream
begin

unbundle bit_operations_syntax

text \<open>
  Messages on the way: the frame that \<open>construct_message\<close> and \<open>AT_command_helper\<close> write, the packet in which the modem
  of another node hands a message on, and what the handlers of messages are given.
\<close>

section \<open>Addresses\<close>

definition addr_bytes :: "u64 \<Rightarrow> bytes" where
  "addr_bytes a = map (\<lambda>i. ucast (drop_bit (8 * (7 - i)) (a AND push_bit (8 * (7 - i)) 0xff))) [0..<8]"

lemma length_addr_bytes [simp]: "length (addr_bytes a) = 8"
  by (simp add: addr_bytes_def)

lemma addr_byte: "(ucast (drop_bit n (a AND push_bit n 0xff)) :: u8) = ucast (drop_bit n (a :: u64))"
proof -
  have "(0xff :: u64) = mask 8" by (simp add: mask_eq_exp_minus_1)
  then show ?thesis by (rule ssubst) (rule bit_word_eqI, auto simp: bit_simps dest: bit_imp_le_length)
qed

lemma addr_bytes_eq: "addr_bytes a = map (\<lambda>i. ucast (drop_bit (8 * (7 - i)) a)) [0..<8]"
  by (simp only: addr_bytes_def addr_byte)

lemma bit_fold_or:
  "bit (fold (\<lambda>i a. a OR f i) is (z :: u64)) n \<longleftrightarrow> bit z n \<or> (\<exists>i \<in> set is. bit (f i) n)"
  by (induction "is" arbitrary: z) (auto simp: bit_or_iff)

lemma be64_addr_bytes: "be64 (addr_bytes a @ rest) = a"
proof (rule bit_word_eqI)
  fix n assume "n < LENGTH(64)"
  then have n: "n < 64" by simp
  have nth: "(addr_bytes a @ rest) ! i = ucast (drop_bit (8 * (7 - i)) a)" if "i < 8" for i
    using that by (simp add: addr_bytes_eq nth_append)
  have "bit (be64 (addr_bytes a @ rest)) n \<longleftrightarrow>
      (\<exists>i \<in> {0..<8}. 8 * (7 - i) \<le> n \<and> n - 8 * (7 - i) < 8 \<and> bit a n)"
    using n by (simp add: be64_def bit_fold_or nth bit_simps) (intro bex_cong; auto simp: nth bit_simps)
  also have "\<dots> \<longleftrightarrow> bit a n"
  proof -
    have "7 - n div 8 \<in> {0..<8}" "8 * (7 - (7 - n div 8)) \<le> n" "n - 8 * (7 - (7 - n div 8)) < 8"
      using n by auto
    then show ?thesis by blast
  qed
  finally show "bit (be64 (addr_bytes a @ rest)) n = bit a n" .
qed

section \<open>What is written\<close>

definition request_packet :: "nat \<Rightarrow> u64 \<Rightarrow> bytes \<Rightarrow> bytes" where
  "request_packet n a data = FRAME_TRANSMIT_REQUEST # of_nat n # addr_bytes a @ [0xFF, 0xFE, 0, 0] @ data"

definition command_packet :: "nat \<Rightarrow> bytes \<Rightarrow> bytes \<Rightarrow> bytes" where
  "command_packet n name data = [FRAME_AT_COMMAND, of_nat n, name ! 0, (name @ [0]) ! 1] @ data"

lemma message_bytes_frame: "with_checksum (message_bytes n a data) = piece_bytes (Packet (request_packet n a data))"
proof -
  have "message_bytes n a data = [START_BYTE, of_nat (length (request_packet n a data) div 256),
      of_nat (length (request_packet n a data))] @ request_packet n a data"
    by (simp only: message_bytes_def request_packet_def Let_def append_Cons append_Nil addr_bytes_def [symmetric])
      simp
  then show ?thesis by (simp add: with_checksum_eq frame_def)
qed

lemma command_bytes_frame: "with_checksum (command_bytes n name data) = piece_bytes (Packet (command_packet n name data))"
  by (simp add: with_checksum_eq command_bytes_def command_packet_def frame_def)

section \<open>What is received\<close>

text \<open>The packet in which a modem hands on a message that came from the address \<open>a\<close>.\<close>

definition receive_packet :: "u64 \<Rightarrow> u8 \<Rightarrow> bytes \<Rightarrow> bytes" where
  "receive_packet a options data = FRAME_RECEIVE_PACKET # addr_bytes a @ [0xFF, 0xFE, options] @ data"

definition message_of :: "u64 \<times> u8 \<times> bytes \<Rightarrow> Message" where
  "message_of = (\<lambda>(a, options, data). \<lparr>addr = a, broadcast = (options AND 0x03 = 0x02), msg_data = data\<rparr>)"

lemma Message_receive_packet: "Message_DeSerialize (receive_packet a options data) = Inr (message_of (a, options, data))"
  by (simp add: Message_DeSerialize_def receive_packet_def message_of_def be64_addr_bytes nth_append)

text \<open>A program that notes what its handlers and its callbacks are given.\<close>

record ('cb, 'h) Radio_Log = "('cb, 'h) DigiMeshRadio" +
  heard :: "('h \<times> Message) list"
  answers :: "('cb \<times> at_value list) list"

type_synonym ('cb, 'h) log_outcome = "(('cb, 'h) Radio_Log, unit) outcome"

definition note_message :: "'h \<Rightarrow> Message \<Rightarrow> ('cb, 'h) Radio_Log \<Rightarrow> ('cb, 'h) log_outcome" where
  "note_message h m s = (s\<lparr>heard := heard s @ [(h, m)]\<rparr>, Inr ())"

definition note_answer :: "'cb \<Rightarrow> at_value list \<Rightarrow> ('cb, 'h) Radio_Log \<Rightarrow> ('cb, 'h) log_outcome" where
  "note_answer cb xs s = (s\<lparr>answers := answers s @ [(cb, xs)]\<rparr>, Inr ())"

interpretation noting: radio_client note_message note_answer
  by unfold_locales (simp_all add: ignores_buffer_def note_message_def note_answer_def)

lemma call_handlers_note:
  "call_handlers note_message hs m s = (s\<lparr>heard := heard s @ map (\<lambda>h. (h, m)) hs\<rparr>, Inr ())"
  by (induction hs arbitrary: s) (simp_all add: note_message_def)

lemma handle_receive_packet_note:
  "handle_packet note_message on_return (receive_packet a options data) s =
     (s\<lparr>heard := heard s @ map (\<lambda>h. (h, message_of (a, options, data))) (m_MessageHandlers s)\<rparr>, Inr ())"
proof -
  have "handle_packet note_message on_return (receive_packet a options data) s =
      handle_receive_packet note_message (receive_packet a options data) False s"
    by (simp add: handle_packet_def receive_packet_def frame_types)
  then show ?thesis by (simp add: handle_receive_packet_def Message_receive_packet call_handlers_note)
qed

lemma handle_all_note:
  "handle_all (handle_packet note_message on_return) (map (\<lambda>(a, options, data). receive_packet a options data) ms) s =
     (s\<lparr>heard := heard s @ concat (map (\<lambda>m. map (\<lambda>h. (h, message_of m)) (m_MessageHandlers s)) ms)\<rparr>, Inr ())"
  by (induction ms arbitrary: s) (auto simp: handle_receive_packet_note)

text \<open>
  C11: with noise without the start byte and frames damaged behind an intact length between them, and however the
  serial port cuts the stream, the messages
  that the modem hands on reach every handler, each once, in their order, with the data and the address that were
  sent; nothing else reaches a handler, and at most two bytes of noise stay in the buffer.
\<close>

theorem messages_heard_in_order:
  assumes "cs \<noteq> []" and "concat cs = concat (map piece_bytes ps)" and "\<forall>p \<in> set ps. piece_ok p"
    and "packets ps = map (\<lambda>(a, options, data). receive_packet a options data) ms"
    and "START_BYTE \<notin> set (m_CurrBuf s)"
  shows "\<exists>b. residue b \<and> receive_all note_message note_answer cs s =
    (s\<lparr>heard := heard s @ concat (map (\<lambda>m. map (\<lambda>h. (h, message_of m)) (m_MessageHandlers s)) ms),
       m_CurrBuf := b\<rparr>, Inr ())"
  using noting.receive_all_pieces [OF assms(1,2,3,5)] handle_all_note [of note_answer ms s] by (simp add: assms(4))

text \<open>
  C28: how the serial port cuts the stream into buffers makes no difference, whatever the bytes are: the packets are
  handled as if all the bytes had come at once, up to the first one whose handling throws.
\<close>

theorem buffers_do_not_matter:
  assumes "radio_client on_message on_return" and "cs \<noteq> []"
    and "receive_all on_message on_return cs s = (s', r)"
  shows "\<exists>rest. (r = Inr () \<longrightarrow> rest = []) \<and>
    ReceiveData on_message on_return (concat cs) s = (s'\<lparr>m_CurrBuf := m_CurrBuf s' @ rest\<rparr>, r)"
  using radio_client.receive_all_concat [OF assms] .

section \<open>Where the stream is lost\<close>

text \<open>
  The length that follows a start byte is believed. A start byte that is noise takes the packets after it for its
  own: nothing is handled until as many bytes are there as the two bytes after it say.
\<close>

lemma receive_loop_believes:
  assumes "length buf \<ge> 3" "buf ! 0 = START_BYTE" "length buf < frame_length buf"
  shows "receive_loop handle buf s = ((buf, s), Inr ())"
  using assms by (simp add: receive_loop_start Let_def)

text \<open>
  one stray start byte before a message deafens the radio: of the packets that follow none is handled before
  32260 bytes have come.
\<close>

theorem stray_start_byte_deafens:
  assumes "m_CurrBuf s = []" and "length p < 256" and "length (piece_bytes (Packet p)) + length ys < 0x7e03"
  shows "ReceiveData on_message on_return (START_BYTE # piece_bytes (Packet p) @ ys) s =
    (s\<lparr>m_CurrBuf := START_BYTE # piece_bytes (Packet p) @ ys\<rparr>, Inr ())"
proof -
  have "frame_length (START_BYTE # piece_bytes (Packet p) @ ys) = 0x7e04"
    using assms(2) by (simp add: frame_length_def frame_def packet_length_def be16_plus START_BYTE_def)
  then show ?thesis
    using assms receive_loop_believes [of "START_BYTE # piece_bytes (Packet p) @ ys" "handle_packet on_message on_return" s]
    by (simp add: ReceiveData_def frame_def)
qed

text \<open>
  a length from \<open>0xFFFC\<close> on wraps when the four bytes of the frame are added in 16 bits, and the packet is then
  cut from an impossible range: three bytes from the line are enough to take the program out of its meaning.
\<close>

theorem long_length_undefined:
  assumes "lo \<ge> 0xFC" and "m_CurrBuf s = []"
  shows "snd (ReceiveData on_message on_return [START_BYTE, 0xFF, lo] s) = Inl Undefined_Behaviour"
proof -
  have "252 \<le> unat lo" using assms(1) by (simp add: word_le_nat_alt)
  then obtain j where j: "unat lo = 252 + j" using le_Suc_ex by blast
  then have "j < 4" using unat_u8_less [of lo] by simp
  then have "frame_length [START_BYTE, 0xFF, lo] < 4"
    by (simp add: frame_length_def packet_length_def unat_word_ariths unat_be16 j)
  then show ?thesis
    using receive_loop_start [of "[START_BYTE, 0xFF, lo]" "handle_packet on_message on_return" s]
    by (simp add: ReceiveData_def assms(2) Let_def)
qed

section \<open>Instances\<close>

definition demo_radio :: "(nat, nat) Radio_Log" where
  "demo_radio = DigiMeshRadio.extend (DigiMeshRadio_new [0, 1]) \<lparr>heard = [], answers = []\<rparr>"

lemma demo_radio_simps [simp]:
  "m_CurrBuf demo_radio = []" "m_MessageHandlers demo_radio = [0, 1]" "heard demo_radio = []"
  by (simp_all add: demo_radio_def DigiMeshRadio.extend_def DigiMeshRadio_new_def)

text \<open>Noise, a damaged frame and a message, in buffers that cut the frames.\<close>

definition demo_pieces :: "piece list" where
  "demo_pieces = [Noise [1, 2], Damaged [0x90, 3] 0, Packet (receive_packet 0x0013a20040 1 [0x55, 0x7e])]"

definition demo_buffers :: "bytes list" where
  "demo_buffers = (let bs = concat (map piece_bytes demo_pieces) in [take 4 bs, [], take 9 (drop 4 bs), drop 13 bs])"

theorem messages_heard_in_order_witness:
  "\<exists>b. residue b \<and> receive_all note_message note_answer demo_buffers demo_radio =
    (demo_radio\<lparr>heard := [(0, \<lparr>addr = 0x0013a20040, broadcast = False, msg_data = [0x55, 0x7e]\<rparr>),
        (1, \<lparr>addr = 0x0013a20040, broadcast = False, msg_data = [0x55, 0x7e]\<rparr>)], m_CurrBuf := b\<rparr>, Inr ())"
proof -
  have cut: "take 4 bs @ take 9 (drop 4 bs) @ drop 13 bs = bs" for bs :: bytes
    using append_take_drop_id [of 9 "drop 4 bs"] by simp
  have "demo_buffers \<noteq> []" by (simp add: demo_buffers_def Let_def)
  moreover have "concat demo_buffers = concat (map piece_bytes demo_pieces)"
    by (simp only: demo_buffers_def Let_def concat.simps append_Nil append_Nil2 cut)
  moreover have "\<forall>p \<in> set demo_pieces. piece_ok p"
    by (simp add: demo_pieces_def START_BYTE_def receive_packet_def)
  moreover have "packets demo_pieces =
      map (\<lambda>(a, options, data). receive_packet a options data) [(0x0013a20040, 1, [0x55, 0x7e])]"
    by (simp add: demo_pieces_def)
  moreover have "START_BYTE \<notin> set (m_CurrBuf demo_radio)" by simp
  ultimately show ?thesis
    using messages_heard_in_order [of demo_buffers demo_pieces "[(0x0013a20040, 1, [0x55, 0x7e])]" demo_radio]
    by (simp add: message_of_def del: One_nat_def)
qed

theorem buffers_do_not_matter_witness:
  "receive_all note_message note_answer [[1], [2]] demo_radio = (demo_radio\<lparr>m_CurrBuf := [1, 2]\<rparr>, Inr ()) \<and>
   ReceiveData note_message note_answer [1, 2] demo_radio = (demo_radio\<lparr>m_CurrBuf := [1, 2]\<rparr>, Inr ())"
proof -
  have "receive_all note_message note_answer [[1], [2]] demo_radio = (demo_radio\<lparr>m_CurrBuf := [1, 2]\<rparr>, Inr ())"
    by (simp add: ReceiveData_def)
  then show ?thesis using buffers_do_not_matter [OF noting.radio_client_axioms, of "[[1], [2]]"] by fastforce
qed

theorem stray_start_byte_deafens_witness:
  "ReceiveData note_message note_answer (START_BYTE # piece_bytes (Packet [0x8a, 0]) @ [1, 2]) demo_radio =
    (demo_radio\<lparr>m_CurrBuf := START_BYTE # piece_bytes (Packet [0x8a, 0]) @ [1, 2]\<rparr>, Inr ())"
  by (rule stray_start_byte_deafens) (simp_all add: frame_def)

theorem long_length_undefined_witness:
  "snd (ReceiveData note_message note_answer [START_BYTE, 0xFF, 0xFD] demo_radio) = Inl Undefined_Behaviour"
  by (rule long_length_undefined) simp_all

end
