(* ===== verification/Digimesh_Requests.thy ===== *)
theory Digimesh_Requests
  imports Digimesh_Messages "HOL-Library.Multiset"
begin

text \<open>
  The numbers of frames and the requests that hold them. A number is in use as long as a request waits for the answer
  to it, no two requests wait for the same number, an answer goes to the request that holds its number or is ignored,
  and no callback runs twice or is lost.
\<close>

section \<open>The next number\<close>

text \<open>The numbers that the loop still has to try, up to the one that was given last.\<close>

definition candidates :: "int \<Rightarrow> int \<Rightarrow> int list" where
  "candidates previous k = (if previous \<le> k then [k + 1..255] @ [1..previous - 1] else [k + 1..previous - 1])"

lemma find_frame_candidates:
  assumes "1 \<le> previous" "previous \<le> 255" "1 \<le> k" "k \<le> 255"
  shows "find_frame previous used k =
    Some (case find (\<lambda>n. \<not> used (nat n)) (candidates previous k) of None \<Rightarrow> - 1 | Some n \<Rightarrow> n)"
  using assms(3,4)
proof (induction "length (candidates previous k)" arbitrary: k rule: less_induct)
  case less
  define k' where "k' = (if k + 1 > 255 then 1 else k + 1)"
  have loop: "find_frame previous used k =
      (if k' = previous then Some (- 1) else if used (nat k') then find_frame previous used k' else Some k')"
    by (subst find_frame.simps) (simp add: k'_def Let_def)
  have k': "1 \<le> k'" "k' \<le> 255" using less.prems by (auto simp: k'_def)
  show ?case
  proof (cases "k' = previous")
    case True
    then have "candidates previous k = []"
      using less.prems assms(1,2) by (auto simp: candidates_def k'_def split: if_splits)
    then show ?thesis by (simp add: loop True)
  next
    case False
    then have "candidates previous k = k' # candidates previous k'"
      using less.prems assms(1,2) by (auto simp: candidates_def k'_def upto_rec1 split: if_splits)
    then show ?thesis using less.hyps [of k'] k' by (simp add: loop False)
  qed
qed

lemma set_candidates: "1 \<le> previous \<Longrightarrow> previous \<le> 255 \<Longrightarrow> set (candidates previous previous) = {1..255} - {previous}"
  by (auto simp: candidates_def)

text \<open>
  The number that was given last is not tried again: with it free and every other number in use the loop gives up.
\<close>

lemma find_frame_spec:
  assumes "1 \<le> previous" "previous \<le> 255" and "find_frame previous used previous = Some n"
  shows "n = - 1 \<and> (\<forall>k \<in> {1..255} - {previous}. used (nat k)) \<or>
    n \<in> {1..255} - {previous} \<and> \<not> used (nat n)"
proof -
  let ?find = "find (\<lambda>n. \<not> used (nat n)) (candidates previous previous)"
  have n: "n = (case ?find of None \<Rightarrow> - 1 | Some n \<Rightarrow> n)"
    using find_frame_candidates [OF assms(1,2) assms(1,2), of used] assms(3) by simp
  note set = set_candidates [OF assms(1,2)]
  show ?thesis
  proof (cases ?find)
    case None
    have "\<forall>k \<in> {1..255} - {previous}. used (nat k)"
      using None unfolding set [symmetric] by (simp add: find_None_iff)
    then show ?thesis using n None by simp
  next
    case (Some k)
    then have "k \<in> set (candidates previous previous)" "\<not> used (nat k)"
      by (auto simp: find_Some_iff)
    then show ?thesis using n Some unfolding set by simp
  qed
qed

section \<open>Who waits for which number\<close>

text \<open>The behaviour \<open>b\<close> waits for an answer to the frame \<open>n\<close>.\<close>

definition holds :: "('cb, 'h, 'z) DigiMeshRadio_scheme \<Rightarrow> nat \<Rightarrow> nat \<Rightarrow> bool" where
  "holds s b n \<longleftrightarrow> b < length (behaviors s) \<and> callback (behaviors s ! b) \<noteq> None \<and> doneFrame (behaviors s ! b) = Some n"

definition knows :: "('cb, 'h, 'z) DigiMeshRadio_scheme \<Rightarrow> nat \<Rightarrow> nat \<Rightarrow> bool" where
  "knows s b n \<longleftrightarrow> n < 256 \<and> b < length (behaviors s) \<and> doneFrame (behaviors s ! b) = Some n"

definition used :: "('cb, 'h, 'z) DigiMeshRadio_scheme \<Rightarrow> nat \<Rightarrow> bool" where
  "used s n \<longleftrightarrow> inUse (m_CurrentFrames s ! n)"

definition numbers_ok :: "('cb, 'h, 'z) DigiMeshRadio_scheme \<Rightarrow> bool" where
  "numbers_ok s \<longleftrightarrow> length (m_CurrentFrames s) = 256 \<and> m_PreviousFrame s \<in> {0..255} \<and>
     (m_PreviousFrame s = 0 \<longrightarrow> (\<forall>n < 256. \<not> used s n)) \<and> \<not> used s 0"

definition holders_ok :: "('cb, 'h, 'z) DigiMeshRadio_scheme \<Rightarrow> bool" where
  "holders_ok s \<longleftrightarrow> (\<forall>n < 256. used s n \<longrightarrow> (\<exists>b. holds s b n)) \<and> (\<forall>b n. holds s b n \<longrightarrow> n < 256 \<and> used s n) \<and>
     (\<forall>b b' n. holds s b n \<longrightarrow> holds s b' n \<longrightarrow> b = b')"

definition links_ok :: "('cb, 'h, 'z) DigiMeshRadio_scheme \<Rightarrow> bool" where
  "links_ok s \<longleftrightarrow> (\<forall>n < 256. \<forall>b. framePersistance (m_CurrentFrames s ! n) = Some b \<longrightarrow> knows s b n) \<and>
     (\<forall>(n, b, tx) \<in> set (marshaled s). knows s b n)"

definition radio_ok :: "('cb, 'h, 'z) DigiMeshRadio_scheme \<Rightarrow> bool" where
  "radio_ok s \<longleftrightarrow> numbers_ok s \<and> holders_ok s \<and> links_ok s"

lemmas radio_ok_defs = radio_ok_def numbers_ok_def holders_ok_def links_ok_def

lemma radio_ok_new: "radio_ok (DigiMeshRadio_new hs)"
  by (auto simp: radio_ok_defs DigiMeshRadio_new_def holds_def knows_def used_def)

section \<open>Asking\<close>

lemma new_behavior_ok:
  assumes "radio_ok s" "new_behavior p cb s = (s', b)"
  shows "radio_ok s' \<and> b = length (behaviors s) \<and>
    s' = s\<lparr>behaviors := behaviors s @ [\<lparr>persists = p, callback = cb, collected = [], doneFrame = None\<rparr>]\<rparr>"
proof -
  have s': "s' = s\<lparr>behaviors := behaviors s @ [\<lparr>persists = p, callback = cb, collected = [], doneFrame = None\<rparr>]\<rparr>"
    and b: "b = length (behaviors s)"
    using assms(2) by (auto simp: new_behavior_def)
  have "holds s' b n = holds s b n" "knows s' b n = knows s b n" "used s' n = used s n" for b n
    by (auto simp: s' holds_def knows_def used_def nth_append)
  then have "radio_ok s'" using assms(1) by (simp add: radio_ok_defs) (simp add: s')
  then show ?thesis using s' b by simp
qed

text \<open>Reserving a number for the behaviour \<open>b\<close> and handing its frame to the thread of the link.\<close>

lemma reserve_next_frame_id_cases:
  assumes "numbers_ok s"
  obtains (full) "reserve_next_frame_id s = (s, Inr (- 1))"
      "m_PreviousFrame s \<in> {1..255}" "\<forall>n \<in> {1..<256} - {nat (m_PreviousFrame s)}. used s n"
  | (free) n where "reserve_next_frame_id s = ((set_inUse n True s)\<lparr>m_PreviousFrame := int n\<rparr>, Inr (int n))"
      "1 \<le> n" "n < 256" "\<not> used s n"
proof (cases "m_PreviousFrame s = 0")
  case True
  then have "\<not> used s 1" using assms by (simp add: numbers_ok_def)
  then have "find_frame (m_PreviousFrame s) (\<lambda>n. inUse (m_CurrentFrames s ! n)) (m_PreviousFrame s) = Some 1"
    by (subst find_frame.simps) (simp add: True used_def)
  then have "reserve_next_frame_id s = ((set_inUse 1 True s)\<lparr>m_PreviousFrame := int 1\<rparr>, Inr (int 1))"
    by (simp add: reserve_next_frame_id_def)
  then show ?thesis using free [of 1] \<open>\<not> used s 1\<close> by simp
next
  case False
  then have prev: "1 \<le> m_PreviousFrame s" "m_PreviousFrame s \<le> 255"
    using assms by (auto simp: numbers_ok_def)
  obtain k where k: "find_frame (m_PreviousFrame s) (\<lambda>n. inUse (m_CurrentFrames s ! n)) (m_PreviousFrame s) = Some k"
    using find_frame_candidates [OF prev prev] by blast
  from find_frame_spec [OF prev k] show ?thesis
  proof (elim disjE conjE)
    assume "k = - 1" and all: "\<forall>k \<in> {1..255} - {m_PreviousFrame s}. inUse (m_CurrentFrames s ! nat k)"
    moreover have "used s n" if n: "n \<in> {1..<256} - {nat (m_PreviousFrame s)}" for n
      using bspec [OF all, of "int n"] n by (auto simp: used_def)
    ultimately show ?thesis using full k prev by (simp add: reserve_next_frame_id_def)
  next
    assume "k \<in> {1..255} - {m_PreviousFrame s}" "\<not> inUse (m_CurrentFrames s ! nat k)"
    then have "1 \<le> nat k" "nat k < 256" "\<not> used s (nat k)" "0 \<le> k" "k \<noteq> - 1" by (auto simp: used_def)
    then show ?thesis using free [of "nat k"] k by (simp add: reserve_next_frame_id_def)
  qed
qed

text \<open>What the behaviour \<open>b\<close> and the frame \<open>n\<close> are after a number was given.\<close>

lemma assigned_ok:
  assumes ok: "radio_ok s" and n: "1 \<le> n" "n < 256" "\<not> used s n"
    and b: "b < length (behaviors s)" "doneFrame (behaviors s ! b) = None" "callback (behaviors s ! b) \<noteq> None"
  shows "radio_ok (setFinishBehavior b n ((set_inUse n True s)\<lparr>m_PreviousFrame := int n\<rparr>)) \<and>
    knows (setFinishBehavior b n ((set_inUse n True s)\<lparr>m_PreviousFrame := int n\<rparr>)) b n"
    (is "radio_ok ?s \<and> _")
proof -
  have holds: "holds ?s b' n' \<longleftrightarrow> (b' = b \<and> n' = n) \<or> (b' \<noteq> b \<and> holds s b' n')" for b' n'
    using b by (auto simp: holds_def setFinishBehavior_def set_inUse_def nth_list_update)
  have not_b: "\<not> holds s b n'" "\<not> knows s b n'" for n'
    using b by (auto simp: holds_def knows_def)
  have knows: "knows ?s b' n' \<longleftrightarrow> (b' = b \<and> n' = n) \<or> knows s b' n'" for b' n'
    using b n by (auto simp: knows_def setFinishBehavior_def set_inUse_def nth_list_update)
  have len: "length (m_CurrentFrames s) = 256" using ok by (simp add: radio_ok_defs)
  have used: "used ?s n' \<longleftrightarrow> n' = n \<or> used s n'" for n'
    using n len by (auto simp: used_def setFinishBehavior_def set_inUse_def nth_list_update)
  have persist: "framePersistance (m_CurrentFrames ?s ! n') = framePersistance (m_CurrentFrames s ! n')" for n'
    using n len by (auto simp: setFinishBehavior_def set_inUse_def nth_list_update)
  have rest: "length (m_CurrentFrames ?s) = 256" "m_PreviousFrame ?s = int n" "marshaled ?s = marshaled s"
    using len by (simp_all add: setFinishBehavior_def set_inUse_def)
  have "numbers_ok ?s" using ok n by (simp add: numbers_ok_def radio_ok_def rest used)
  moreover have "holders_ok ?s"
    using ok n not_b unfolding holders_ok_def radio_ok_def holds used by blast
  moreover have "links_ok ?s"
    using ok by (auto simp: links_ok_def radio_ok_def persist rest knows)
  moreover have "knows ?s b n" by (simp add: knows)
  ultimately show ?thesis by (simp add: radio_ok_def)
qed

text \<open>A message without callback goes out as frame 0, and its behaviour waits for nothing.\<close>

lemma unnumbered_ok:
  assumes ok: "radio_ok s" and b: "b < length (behaviors s)" "doneFrame (behaviors s ! b) = None"
    "callback (behaviors s ! b) = None"
  shows "radio_ok (setFinishBehavior b 0 s) \<and> knows (setFinishBehavior b 0 s) b 0" (is "radio_ok ?s \<and> _")
proof -
  have "holds ?s b' n' \<longleftrightarrow> holds s b' n'" "used ?s n' \<longleftrightarrow> used s n'" for b' n'
    using b by (auto simp: holds_def used_def setFinishBehavior_def nth_list_update)
  moreover have "knows ?s b' n' \<longleftrightarrow> (b' = b \<and> n' = 0) \<or> knows s b' n'" for b' n'
    using b by (auto simp: knows_def setFinishBehavior_def nth_list_update)
  ultimately show ?thesis
    using ok by (auto simp: radio_ok_defs setFinishBehavior_def)
qed

text \<open>The thread of the link changes only which behaviour a frame has.\<close>

lemma run_function_ok:
  assumes ok: "radio_ok s" and n: "knows s b n" and run: "run_function n b tx s = (s', r)"
  shows "radio_ok s' \<and> behaviors s' = behaviors s"
proof (cases "s' = s")
  case False
  let ?f = "(m_CurrentFrames s)[n := (m_CurrentFrames s ! n)\<lparr>framePersistance := Some b\<rparr>]"
  have s': "s' = s\<lparr>m_CurrentFrames := ?f, written := written s @ [tx]\<rparr>"
    using run False by (auto simp: run_function_def split: if_splits)
  have len: "length (m_CurrentFrames s) = 256" using ok by (simp add: radio_ok_defs)
  have same: "holds s' b n = holds s b n" "knows s' b n = knows s b n" for b n
    by (simp_all add: s' holds_def knows_def)
  have used: "used s' n' = used s n'" for n'
    using n len by (simp add: s' used_def knows_def nth_list_update)
  have persist: "framePersistance (m_CurrentFrames s' ! n') = (if n' = n then Some b
      else framePersistance (m_CurrentFrames s ! n'))" for n'
    using n len by (simp add: s' knows_def nth_list_update)
  show ?thesis
    using ok n by (simp add: radio_ok_defs same used persist) (auto simp: s')
qed (use ok in simp)

lemma radio_ok_marshaled: "radio_ok s \<Longrightarrow> set ms \<subseteq> {(n, b, tx). knows s b n} \<Longrightarrow> radio_ok (s\<lparr>marshaled := ms\<rparr>)"
proof -
  have "holds (s\<lparr>marshaled := ms\<rparr>) = holds s" "knows (s\<lparr>marshaled := ms\<rparr>) = knows s" "used (s\<lparr>marshaled := ms\<rparr>) = used s"
    by (simp_all add: fun_eq_iff holds_def knows_def used_def)
  then show "radio_ok s \<Longrightarrow> set ms \<subseteq> {(n, b, tx). knows s b n} \<Longrightarrow> ?thesis"
    by (simp add: radio_ok_defs) blast
qed

lemma radio_ok_known: "radio_ok s \<Longrightarrow> set (marshaled s) \<subseteq> {(n, b, tx). knows s b n}"
  by (auto simp: radio_ok_defs)

lemma MarshalOnThread_ok:
  assumes "radio_ok s" "knows s b n" "MarshalOnThread n b tx s = (s', r)"
  shows "radio_ok s' \<and> behaviors s' = behaviors s"
proof (cases "onLinkThread s")
  case True
  then show ?thesis using run_function_ok [OF assms(1,2)] assms(3) by (simp add: MarshalOnThread_def)
next
  case False
  have "radio_ok (s\<lparr>marshaled := marshaled s @ [(n, b, tx)]\<rparr>)"
    using radio_ok_marshaled [OF assms(1)] radio_ok_known [OF assms(1)] assms(2) by simp
  then show ?thesis using False assms(3) by (auto simp: MarshalOnThread_def)
qed

lemma run_marshaled_ok:
  assumes ok: "radio_ok s" and run: "run_marshaled s = (s', r)"
  shows "radio_ok s' \<and> behaviors s' = behaviors s"
proof (cases "marshaled s")
  case Nil
  then show ?thesis using assms by (simp add: run_marshaled_def)
next
  case (Cons m rest)
  obtain n b tx where m: "m = (n, b, tx)" by (cases m)
  have "radio_ok (s\<lparr>marshaled := rest\<rparr>)" "knows (s\<lparr>marshaled := rest\<rparr>) b n"
    using radio_ok_known [OF ok] Cons m by (auto simp: knows_def intro!: radio_ok_marshaled [OF ok])
  then show ?thesis
    using run_function_ok [of "s\<lparr>marshaled := rest\<rparr>" b n tx s' r] run Cons m by (simp add: run_marshaled_def)
qed

section \<open>Answering\<close>

text \<open>The state in which the behaviour \<open>b\<close>, which held \<open>n\<close>, has handed its answers to \<open>cb\<close>.\<close>

definition answered :: "nat \<Rightarrow> nat \<Rightarrow> 'cb \<Rightarrow> ('cb, 'h) Radio_Log \<Rightarrow> ('cb, 'h) Radio_Log" where
  "answered b n cb s =
     s\<lparr>m_CurrentFrames := (m_CurrentFrames s)[n := (m_CurrentFrames s ! n)\<lparr>inUse := False\<rparr>],
       behaviors := (behaviors s)[b := (behaviors s ! b)\<lparr>callback := None\<rparr>],
       answers := answers s @ [(cb, collected (behaviors s ! b))]\<rparr>"

lemma SendAndFinish_note:
  "callback (behaviors s ! b) = Some (T, cb) \<Longrightarrow> doneFrame (behaviors s ! b) = Some n \<Longrightarrow>
   SendAndFinish note_answer b s = (answered b n cb s, Inr ())"
  by (simp add: SendAndFinish_def note_answer_def set_inUse_def answered_def)

lemma answered_ok:
  assumes ok: "radio_ok s" and b: "holds s b n"
  shows "radio_ok (answered b n cb s)" (is "radio_ok ?s")
proof -
  have len: "length (m_CurrentFrames s) = 256" using ok by (simp add: radio_ok_defs)
  have holds: "holds ?s b' n' \<longleftrightarrow> b' \<noteq> b \<and> holds s b' n'" for b' n'
    using b by (auto simp: holds_def answered_def nth_list_update)
  have knows: "knows ?s b' n' \<longleftrightarrow> knows s b' n'" for b' n'
    using b by (auto simp: holds_def knows_def answered_def nth_list_update)
  have n: "n < 256" "used s n" using ok b unfolding radio_ok_def holders_ok_def by blast+
  have used: "used ?s n' \<longleftrightarrow> n' \<noteq> n \<and> used s n'" for n'
    using n len by (auto simp: used_def answered_def nth_list_update)
  have persist: "framePersistance (m_CurrentFrames ?s ! n') = framePersistance (m_CurrentFrames s ! n')" for n'
    using n len by (auto simp: answered_def nth_list_update)
  have same: "m_PreviousFrame ?s = m_PreviousFrame s" "marshaled ?s = marshaled s" "length (m_CurrentFrames ?s) = 256"
    using len by (simp_all add: answered_def)
  have b_n: "b' = b \<longleftrightarrow> n' = n" if "holds s b' n'" for b' n'
    using that b ok unfolding radio_ok_def holders_ok_def holds_def by force
  have "holders_ok ?s"
    using ok b_n unfolding holders_ok_def radio_ok_def holds used by blast
  moreover have "numbers_ok ?s" "links_ok ?s"
    using ok by (auto simp: radio_ok_defs same used persist knows)
  ultimately show ?thesis by (simp add: radio_ok_def)
qed

text \<open>One more answer in the collection of the behaviour \<open>b\<close>.\<close>

definition collect :: "nat \<Rightarrow> at_value \<Rightarrow> ('cb, 'h, 'z) DigiMeshRadio_scheme \<Rightarrow> ('cb, 'h, 'z) DigiMeshRadio_scheme" where
  "collect b x s =
     s\<lparr>behaviors := (behaviors s)[b := (behaviors s ! b)\<lparr>collected := collected (behaviors s ! b) @ [x]\<rparr>]\<rparr>"

lemma collect_simps [simp]:
  "holds (collect b x s) b' n \<longleftrightarrow> holds s b' n" "knows (collect b x s) b' n \<longleftrightarrow> knows s b' n"
  "used (collect b x s) n \<longleftrightarrow> used s n" "m_CurrentFrames (collect b x s) = m_CurrentFrames s"
  "m_PreviousFrame (collect b x s) = m_PreviousFrame s" "marshaled (collect b x s) = marshaled s"
  by (cases "b < length (behaviors s)"; auto simp: collect_def holds_def knows_def used_def nth_list_update)+

lemma collect_ok: "radio_ok s \<Longrightarrow> radio_ok (collect b x s)"
  by (simp add: radio_ok_defs)

lemma find_and_invokve_frame_cases:
  assumes ok: "radio_ok s" and n: "n < 256"
  obtains (ignored) "find_and_invokve_frame note_answer n data s = (s, Inr ())"
      "\<And>b. framePersistance (m_CurrentFrames s ! n) = Some b \<Longrightarrow> \<not> holds s b n"
  | (unread) b T cb e where "find_and_invokve_frame note_answer n data s = (s, Inl e)"
      "holds s b n" "callback (behaviors s ! b) = Some (T, cb)" "DeSerialize T data = Inl e"
  | (kept) b T cb x where "find_and_invokve_frame note_answer n data s = (collect b x s, Inr ())"
      "holds s b n" "callback (behaviors s ! b) = Some (T, cb)" "DeSerialize T data = Inr x"
      "persists (behaviors s ! b) = CollectAfterTimeout"
  | (handed) b T cb x where "find_and_invokve_frame note_answer n data s = (answered b n cb (collect b x s), Inr ())"
      "holds s b n" "callback (behaviors s ! b) = Some (T, cb)" "DeSerialize T data = Inr x"
      "persists (behaviors s ! b) = ShutdownFirstResponse"
proof (cases "\<exists>b. framePersistance (m_CurrentFrames s ! n) = Some b \<and> holds s b n")
  case True
  then obtain b T cb where b: "framePersistance (m_CurrentFrames s ! n) = Some b" "holds s b n"
      "callback (behaviors s ! b) = Some (T, cb)" "b < length (behaviors s)" "doneFrame (behaviors s ! b) = Some n"
    by (auto simp: holds_def)
  have "inUse (m_CurrentFrames s ! n)"
    using ok b(2) unfolding radio_ok_def holders_ok_def used_def by blast
  then have step: "find_and_invokve_frame note_answer n data s = AddFrameReturn note_answer b T data s"
    using b by (simp add: find_and_invokve_frame_def)
  show ?thesis
  proof (cases "DeSerialize T data")
    case (Inl e)
    then show ?thesis using unread [OF _ b(2,3)] step by (simp add: AddFrameReturn_def)
  next
    case (Inr x)
    have "AddFrameReturn note_answer b T data s = (case persists (behaviors s ! b) of
        ShutdownFirstResponse \<Rightarrow> SendAndFinish note_answer b (collect b x s) | CollectAfterTimeout \<Rightarrow> (collect b x s, Inr ()))"
      using b Inr by (simp add: AddFrameReturn_def collect_def split: persistance.split)
    moreover have "SendAndFinish note_answer b (collect b x s) = (answered b n cb (collect b x s), Inr ())"
      using b by (intro SendAndFinish_note) (simp_all add: collect_def)
    ultimately show ?thesis
      using kept [OF _ b(2,3) Inr] handed [OF _ b(2,3) Inr] step
      by (cases "persists (behaviors s ! b)") simp_all
  qed
next
  case False
  have "find_and_invokve_frame note_answer n data s = (s, Inr ())"
    using False ok n
    by (auto simp: find_and_invokve_frame_def Let_def radio_ok_def links_ok_def knows_def holds_def split: option.split)
  then show ?thesis using ignored False by blast
qed

section \<open>No callback is lost and none runs twice\<close>

text \<open>
  The callbacks of the requests that wait for an answer, which are those with a number, and the account of all that
  were accepted. A request that was refused has no number; its behaviour is gone with the exception.
\<close>

definition waits :: "'cb Behavior \<Rightarrow> 'cb multiset" where
  "waits b = (case (callback b, doneFrame b) of (Some (T, cb), Some n) \<Rightarrow> {#cb#} | _ \<Rightarrow> {#})"

fun waiting :: "'cb Behavior list \<Rightarrow> 'cb multiset" where
  "waiting [] = {#}"
| "waiting (b # bs) = waits b + waiting bs"

definition account :: "('cb, 'h) Radio_Log \<Rightarrow> 'cb multiset" where
  "account s = mset (map fst (answers s)) + waiting (behaviors s)"

text \<open>
  The behaviour that the frame \<open>n\<close> has or will have, when the thread of the link has run everything that was given
  to it: the objects that are not reached in this way are destroyed.
\<close>

definition owner :: "('cb, 'h, 'z) DigiMeshRadio_scheme \<Rightarrow> nat \<Rightarrow> nat option" where
  "owner s n = (case filter (\<lambda>(k, b, tx). k = n) (marshaled s) of
     [] \<Rightarrow> framePersistance (m_CurrentFrames s ! n) | m # ms \<Rightarrow> Some (fst (snd (last (m # ms)))))"

definition owned :: "('cb, 'h, 'z) DigiMeshRadio_scheme \<Rightarrow> bool" where
  "owned s \<longleftrightarrow> (\<forall>b n. holds s b n \<longrightarrow> owner s n = Some b)"

lemma waiting_append [simp]: "waiting (bs @ cs) = waiting bs + waiting cs"
  by (induction bs) auto

lemma waiting_update: "i < length bs \<Longrightarrow> waiting (bs[i := b]) + waits (bs ! i) = waiting bs + waits b"
  by (induction bs arbitrary: i) (auto simp: nth_Cons' list_update_code ac_simps split: nat.splits)

lemma waiting_update_same [simp]:
  "callback b = callback (bs ! i) \<Longrightarrow> doneFrame b = doneFrame (bs ! i) \<Longrightarrow> waiting (bs[i := b]) = waiting bs"
  using waiting_update [of i bs b] by (cases "i < length bs") (auto simp: list_update_beyond waits_def)

lemma waiting_drop:
  assumes "i < length bs" "callback (bs ! i) = Some (T, cb)" "doneFrame (bs ! i) = Some n" "callback b = None"
  shows "waiting bs = add_mset cb (waiting (bs[i := b]))"
  using waiting_update [OF assms(1), of b] assms(2-4) by (simp add: waits_def)

lemma waiting_number:
  assumes "i < length bs" "callback (bs ! i) = Some (T, cb)" "doneFrame (bs ! i) = None"
  shows "waiting (bs[i := (bs ! i)\<lparr>doneFrame := Some n\<rparr>]) = add_mset cb (waiting bs)"
  using waiting_update [OF assms(1), of "(bs ! i)\<lparr>doneFrame := Some n\<rparr>"] assms(2,3) by (simp add: waits_def)

lemma waiting_unnumbered:
  "i < length bs \<Longrightarrow> callback (bs ! i) = None \<Longrightarrow> waiting (bs[i := (bs ! i)\<lparr>doneFrame := Some n\<rparr>]) = waiting bs"
  using waiting_update [of i bs "(bs ! i)\<lparr>doneFrame := Some n\<rparr>"] by (simp add: waits_def)

lemma account_collect [simp]: "account (collect b x s) = account s"
  by (simp add: account_def collect_def)

lemma account_answered:
  "holds s b n \<Longrightarrow> callback (behaviors s ! b) = Some (T, cb) \<Longrightarrow> account (answered b n cb s) = account s"
  using waiting_drop [of b "behaviors s" T cb n "(behaviors s ! b)\<lparr>callback := None\<rparr>"]
  by (simp add: account_def answered_def holds_def)

lemma owned_collect [simp]: "owned (collect b x s) = owned s"
  by (simp add: owned_def owner_def cong: list.case_cong)

lemma owned_answered:
  assumes "owned s" "holds s b n" "n < length (m_CurrentFrames s)"
  shows "owned (answered b n cb s)"
proof -
  have "holds (answered b n cb s) b' n' \<Longrightarrow> holds s b' n'" for b' n'
    using assms(2) by (cases "b' = b") (auto simp: holds_def answered_def)
  moreover have "owner (answered b n cb s) n' = owner s n'" for n'
    using assms(3) by (cases "n' = n") (simp_all add: owner_def answered_def split: list.split)
  ultimately show ?thesis using assms(1) by (simp add: owned_def)
qed

text \<open>The thread of the link makes the first of its functions true: no owner changes.\<close>

lemma owned_run_marshaled:
  assumes "radio_ok s" "owned s" "run_marshaled s = (s', r)"
    and "r \<noteq> Inl Terminated"
  shows "owned s'"
proof (cases "marshaled s")
  case Nil
  then show ?thesis using assms by (simp add: run_marshaled_def)
next
  case (Cons m rest)
  obtain k c tx where m: "m = (k, c, tx)" by (cases m)
  have k: "k < length (m_CurrentFrames s)"
    using assms(1) Cons m by (auto simp: radio_ok_defs knows_def)
  have s': "s' = s\<lparr>marshaled := rest, m_CurrentFrames := (m_CurrentFrames s)[k := (m_CurrentFrames s ! k)\<lparr>framePersistance := Some c\<rparr>],
      written := written s @ [tx]\<rparr>"
    using assms(3,4) Cons m by (auto simp: run_marshaled_def run_function_def split: if_splits)
  have "owner s' n = owner s n" for n
  proof (cases "n = k")
    case True
    then show ?thesis
      using k by (cases "filter (\<lambda>(k, b, tx). k = n) rest") (auto simp: owner_def s' Cons m)
  next
    case False
    then show ?thesis by (simp add: owner_def s' Cons m split: list.split)
  qed
  moreover have "holds s' b n = holds s b n" for b n by (simp add: s' holds_def)
  ultimately show ?thesis using assms(2) by (simp add: owned_def)
qed

text \<open>A request that was given a number and whose frame is handed to the thread of the link owns the number.\<close>

lemma owner_marshaled:
  "owner (s\<lparr>marshaled := marshaled s @ [(n, b, tx)]\<rparr>) n' = (if n' = n then Some b else owner s n')"
proof (cases "n' = n")
  case True
  then show ?thesis by (cases "filter (\<lambda>(k, b, tx). k = n) (marshaled s)") (simp_all add: owner_def)
next
  case False
  then have "\<not> (case (n, b, tx) of (k, b, tx) \<Rightarrow> k = n')" by simp
  then show ?thesis using False by (simp add: owner_def cong: list.case_cong)
qed

lemma owned_marshaled:
  assumes "owned s" "\<And>b' n'. holds s' b' n' \<Longrightarrow> b' = b \<and> n' = n \<or> holds s b' n' \<and> n' \<noteq> n"
    and "\<And>n. owner s' n = owner s n"
  shows "owned (s'\<lparr>marshaled := marshaled s' @ [(n, b, tx)]\<rparr>)"
  unfolding owned_def
proof (intro allI impI)
  fix b' n' assume "holds (s'\<lparr>marshaled := marshaled s' @ [(n, b, tx)]\<rparr>) b' n'"
  then have "holds s' b' n'" by (simp add: holds_def)
  from assms(2) [OF this] show "owner (s'\<lparr>marshaled := marshaled s' @ [(n, b, tx)]\<rparr>) n' = Some b'"
    using assms(1) by (auto simp: owner_marshaled assms(3) owned_def)
qed

definition accounted :: "'cb multiset \<Rightarrow> ('cb, 'h) Radio_Log \<Rightarrow> bool" where
  "accounted A s \<longleftrightarrow> radio_ok s \<and> owned s \<and> account s = A"

lemmas accounted_defs = accounted_def account_def owned_def owner_def radio_ok_defs holds_def knows_def used_def

lemma accounted_find_and_invokve_frame:
  assumes "accounted A s" "n < 256"
  shows "accounted A (fst (find_and_invokve_frame note_answer n data s))"
proof -
  have ok: "radio_ok s" and own: "owned s" and A: "account s = A" using assms by (auto simp: accounted_def)
  have len: "n < length (m_CurrentFrames (collect b x s))" for b x using ok assms(2) by (simp add: radio_ok_defs)
  from ok assms(2) show ?thesis
  proof (cases rule: find_and_invokve_frame_cases [where data = data])
    case (handed b T cb x)
    have "callback (behaviors (collect b x s) ! b) = Some (T, cb)"
      using handed(2,3) by (simp add: collect_def holds_def)
    then show ?thesis
      using handed A collect_ok [OF ok] answered_ok [of "collect b x s" b n cb]
        account_answered [of "collect b x s" b n T cb] owned_answered [OF _ _ len, of b x b cb] own by (simp add: accounted_def)
  qed (use ok own A in \<open>simp_all add: accounted_def collect_ok\<close>)
qed

lemma accounted_heard [simp]: "accounted A (s\<lparr>heard := x\<rparr>) = accounted A s"
  by (simp add: accounted_defs cong: list.case_cong)

lemma accounted_CurrBuf [simp]: "accounted A (s\<lparr>m_CurrBuf := x\<rparr>) = accounted A s"
  by (simp add: accounted_defs cong: list.case_cong)

lemma accounted_handle_packet:
  assumes "accounted A s"
  shows "accounted A (fst (handle_packet note_message note_answer p s))"
proof -
  have "unat (b :: u8) < 256" for b by simp
  then have find: "accounted A (fst (find_and_invokve_frame note_answer (unat b) data s))" for b :: u8 and data
    using accounted_find_and_invokve_frame [OF assms] by blast
  have "accounted A (fst (handle_AT_command_response note_answer p s))"
    using find assms by (simp add: handle_AT_command_response_def)
  moreover have "accounted A (fst (handle_transmit_status note_answer p s))"
    using find [of "p ! 1" p] assms
    by (cases "find_and_invokve_frame note_answer (unat (p ! 1)) p s")
      (simp add: handle_transmit_status_def obind_def split: sum.split)
  moreover have "accounted A (fst (handle_receive_packet note_message p e s))" for e
    using assms by (simp add: handle_receive_packet_def call_handlers_note split: sum.split)
  ultimately show ?thesis
    using assms by (simp add: handle_packet_def handle_legacy_transmit_status_def split: list.split)
qed

lemma receive_loop_invariant:
  assumes "\<And>p s. I s \<Longrightarrow> I (fst (handle p s))" and "I s"
  shows "I (snd (fst (receive_loop handle buf s)))"
  using assms(2)
proof (induction "length buf" arbitrary: buf s rule: less_induct)
  case less
  show ?case
  proof (cases "length buf < 3")
    case long: False
    show ?thesis
    proof (cases "buf ! 0 = START_BYTE")
      case True
      let ?p = "drop 3 (take (frame_length buf - 1) buf)"
      obtain s' r where h: "handle ?p s = (s', r)" by fastforce
      then have "I s'" using assms(1) [OF less.prems, of ?p] by simp
      then show ?thesis
        using long less.prems less.hyps [of "drop (frame_length buf) buf"] h
        by (simp add: receive_loop_start [OF _ True] Let_def split: sum.split)
    next
      case False
      then show ?thesis using long less.prems less.hyps [of "tl buf"] by (simp add: receive_loop_skip)
    qed
  qed (use less.prems in simp)
qed

lemma accounted_ReceiveData:
  assumes "accounted A s"
  shows "accounted A (fst (ReceiveData note_message note_answer buffer s))"
proof -
  have "accounted A (snd (fst (receive_loop (handle_packet note_message note_answer) (m_CurrBuf s @ buffer) s)))"
    by (rule receive_loop_invariant [where I = "accounted A"]) (simp_all add: accounted_handle_packet assms)
  then show ?thesis by (auto simp: ReceiveData_def split: prod.split)
qed

lemma accounted_onLinkThread [simp]: "accounted A (s\<lparr>onLinkThread := x\<rparr>) = accounted A s"
  by (simp add: accounted_defs cong: list.case_cong)

lemma accounted_readBytes:
  assumes "accounted A s"
  shows "accounted A (fst (readBytes note_message note_answer buffer s))"
  using accounted_ReceiveData [of A "s\<lparr>onLinkThread := True\<rparr>" buffer] assms
  by (auto simp: readBytes_def split: prod.split)

lemma answers_run_function [simp]: "answers (fst (run_function n b tx s)) = answers s"
  by (simp add: run_function_def)

lemma answers_MarshalOnThread: "answers (fst (MarshalOnThread n b tx s)) = answers s"
  by (simp add: MarshalOnThread_def)

lemma answers_run_marshaled: "answers (fst (run_marshaled s)) = answers s"
  by (simp add: run_marshaled_def split: list.split)

section \<open>Histories\<close>

text \<open>
  What can happen to a radio: the program asks for something, the thread of the link runs, bytes come in, or the
  timer of a behaviour ends, which it does once.
\<close>

datatype 'cb request = Get at_class persistance bytes 'cb | Set at_class bytes bytes 'cb | Send bytes u64 "'cb option"

datatype 'cb event = Ask "'cb request" | Link_Runs | Incoming bytes | Timer_Ends nat

fun ask :: "'cb request \<Rightarrow> ('cb, 'h, 'z) DigiMeshRadio_scheme \<Rightarrow> ('cb, 'h, 'z, unit) radio_outcome" where
  "ask (Get T p name cb) s = GetATParameterAsync T p name cb s"
| "ask (Set T name value cb) s = SetATParameterAsync T name value cb s"
| "ask (Send data a cb) s = SendMessage data a cb s"

fun asked :: "'cb event \<Rightarrow> 'cb multiset" where
  "asked (Ask (Get T p name cb)) = {#cb#}"
| "asked (Ask (Set T name value cb)) = {#cb#}"
| "asked (Ask (Send data a (Some cb))) = {#cb#}"
| "asked e = {#}"

fun exec :: "'cb event \<Rightarrow> ('cb, 'h) Radio_Log \<Rightarrow> ('cb, 'h) log_outcome" where
  "exec (Ask q) s = ask q s"
| "exec Link_Runs s = run_marshaled s"
| "exec (Incoming buffer) s = readBytes note_message note_answer buffer s"
| "exec (Timer_Ends b) s =
     (if b < length (behaviors s) \<and> persists (behaviors s ! b) = CollectAfterTimeout \<and>
         callback (behaviors s ! b) \<noteq> None \<and> doneFrame (behaviors s ! b) \<noteq> None
      then timeout note_answer b s else (s, Inr ()))"

text \<open>
  A history has the results of its events. An event may throw an exception, which the program catches, but it has a
  meaning and it ends; the callbacks of a request are given to the radio when it is not refused.
\<close>

inductive radio_history :: "'h list \<Rightarrow> ('cb event \<times> (cpp_error + unit)) list \<Rightarrow> ('cb, 'h) Radio_Log \<Rightarrow> bool" for hs where
  start: "radio_history hs [] (DigiMeshRadio.extend (DigiMeshRadio_new hs) \<lparr>heard = [], answers = []\<rparr>)"
| step: "radio_history hs es s \<Longrightarrow> exec e s = (s', r) \<Longrightarrow> r = Inr () \<or> r = Inl (Runtime_Error m) \<Longrightarrow>
    radio_history hs (es @ [(e, r)]) s'"

fun accepted :: "'cb event \<times> (cpp_error + unit) \<Rightarrow> 'cb multiset" where
  "accepted (e, Inr u) = asked e"
| "accepted (e, Inl err) = {#}"

text \<open>The program asks on a thread of its own.\<close>

lemma MarshalOnThread_later:
  "\<not> onLinkThread s \<Longrightarrow> MarshalOnThread n b tx s = (s\<lparr>marshaled := marshaled s @ [(n, b, tx)]\<rparr>, Inr ())"
  by (simp add: MarshalOnThread_def)

lemma setFinishBehavior_holds:
  assumes "b < length (behaviors s)" "doneFrame (behaviors s ! b) = None"
    and "holds (setFinishBehavior b n (set_inUse n True s\<lparr>m_PreviousFrame := k\<rparr>)) b' n'"
  shows "b' = b \<and> n' = n \<or> holds s b' n'"
  using assms by (cases "b' = b") (auto simp: holds_def setFinishBehavior_def set_inUse_def)

lemma owner_numbered:
  "n < length (m_CurrentFrames s) \<Longrightarrow> owner (setFinishBehavior b n (set_inUse n True s\<lparr>m_PreviousFrame := k\<rparr>)) n' = owner s n'"
  by (cases "n' = n") (simp_all add: owner_def setFinishBehavior_def set_inUse_def split: list.split)

text \<open>A new behaviour that is given the free number \<open>n\<close>, and its frame.\<close>

lemma accounted_numbered:
  assumes acc: "accounted A s" and n: "1 \<le> n" "n < 256" "\<not> used s n"
    and b: "b < length (behaviors s)" "doneFrame (behaviors s ! b) = None" "callback (behaviors s ! b) = Some (T, cb)"
    and s': "s' = setFinishBehavior b n (set_inUse n True s\<lparr>m_PreviousFrame := int n\<rparr>)"
  shows "accounted (add_mset cb A) (s'\<lparr>marshaled := marshaled s' @ [(n, b, tx)]\<rparr>)"
proof -
  have ok: "radio_ok s" and own: "owned s" and A: "account s = A" using acc by (simp_all add: accounted_def)
  have s'_ok: "radio_ok s'" "knows s' b n" using assigned_ok [OF ok n b(1,2)] b(3) s' by simp_all
  have "radio_ok (s'\<lparr>marshaled := marshaled s' @ [(n, b, tx)]\<rparr>)"
    using radio_ok_marshaled [OF s'_ok(1)] radio_ok_known [OF s'_ok(1)] s'_ok(2) by simp
  moreover have "owned (s'\<lparr>marshaled := marshaled s' @ [(n, b, tx)]\<rparr>)"
  proof (rule owned_marshaled [OF own])
    fix b' n' assume "holds s' b' n'"
    then have "b' = b \<and> n' = n \<or> holds s b' n'" using setFinishBehavior_holds [OF b(1,2)] s' by blast
    moreover have "\<not> holds s b' n" using ok n unfolding radio_ok_def holders_ok_def by blast
    ultimately show "b' = b \<and> n' = n \<or> holds s b' n' \<and> n' \<noteq> n" by blast
  next
    have "n < length (m_CurrentFrames s)" using ok n by (simp add: radio_ok_defs)
    then show "owner s' n' = owner s n'" for n' by (simp add: s' owner_numbered)
  qed
  moreover have "account (s'\<lparr>marshaled := marshaled s' @ [(n, b, tx)]\<rparr>) = add_mset cb (account s)"
    using waiting_number [OF b(1,3,2), of n] by (simp add: account_def s' setFinishBehavior_def set_inUse_def)
  ultimately show ?thesis using A by (simp add: accounted_def)
qed

lemma accounted_new_behavior:
  assumes "accounted A s" "new_behavior p cb s = (s1, b)"
  shows "accounted A s1 \<and> b = length (behaviors s) \<and> onLinkThread s1 = onLinkThread s \<and>
    behaviors s1 = behaviors s @ [\<lparr>persists = p, callback = cb, collected = [], doneFrame = None\<rparr>]"
proof -
  have s1: "radio_ok s1" "b = length (behaviors s)"
      "s1 = s\<lparr>behaviors := behaviors s @ [\<lparr>persists = p, callback = cb, collected = [], doneFrame = None\<rparr>]\<rparr>"
    using new_behavior_ok [OF _ assms(2)] assms(1) by (auto simp: accounted_def)
  have "holds s1 b n = holds s b n" for b n by (auto simp: s1(3) holds_def nth_append)
  moreover have "owner s1 n = owner s n" for n by (simp add: s1(3) owner_def cong: list.case_cong)
  moreover have "account s1 = account s" by (simp add: s1(3) account_def waits_def split: option.split prod.split)
  ultimately show ?thesis using assms(1) s1 by (simp add: accounted_def owned_def)
qed

lemma accounted_AT_command:
  assumes ok: "accounted A s" "\<not> onLinkThread s" and new: "new_behavior p (Some (T, cb)) s = (s1, b)"
    and run: "AT_command_helper name b data s1 = (s', r)" and r: "r \<noteq> Inl Undefined_Behaviour"
  shows "(case r of Inl e \<Rightarrow> e = no_frame \<and> accounted A s' | Inr k \<Rightarrow> accounted (add_mset cb A) s') \<and> \<not> onLinkThread s'"
proof -
  note s1 = accounted_new_behavior [OF ok(1) new]
  have numbers: "numbers_ok s1" using s1 by (simp add: accounted_def radio_ok_def)
  then show ?thesis
  proof (cases rule: reserve_next_frame_id_cases)
    case full
    then show ?thesis using run s1 ok(2) by (auto simp: AT_command_helper_def)
  next
    case (free n)
    let ?s = "setFinishBehavior b n ((set_inUse n True s1)\<lparr>m_PreviousFrame := int n\<rparr>)"
    let ?tx = "with_checksum (command_bytes n name data)"
    have link: "\<not> onLinkThread ?s" using s1 ok(2) by (simp add: setFinishBehavior_def set_inUse_def)
    have "(s', r) = (?s\<lparr>marshaled := marshaled ?s @ [(n, b, ?tx)]\<rparr>, Inr (int n))"
      using run r free link by (auto simp: AT_command_helper_def MarshalOnThread_later split: if_splits)
    then show ?thesis
      using accounted_numbered [OF _ free(2-4), of A b T cb ?s ?tx] s1 link by simp
  qed
qed

lemma accounted_SendMessage:
  assumes ok: "accounted A s" "\<not> onLinkThread s" and run: "SendMessage data a cb s = (s', r)"
  shows "accounted (A + accepted (Ask (Send data a cb), r)) s' \<and> \<not> onLinkThread s'"
proof -
  obtain s1 b where new: "new_behavior ShutdownFirstResponse (map_option (Pair AT_TransmitStatus) cb) s = (s1, b)"
    by fastforce
  note s1 = accounted_new_behavior [OF ok(1) new]
  have numbers: "numbers_ok s1" using s1 by (simp add: accounted_def radio_ok_def)
  have send: "construct_message data a b s1 = (s', r)" using run new by (simp add: SendMessage_def)
  show ?thesis
  proof (cases cb)
    case None
    let ?s = "setFinishBehavior b 0 s1"
    let ?tx = "with_checksum (message_bytes 0 a data)"
    have s': "s' = ?s\<lparr>marshaled := marshaled ?s @ [(0, b, ?tx)]\<rparr>" "r = Inr ()"
      using send s1 None ok(2) by (auto simp: construct_message_def MarshalOnThread_def setFinishBehavior_def)
    have known: "radio_ok ?s \<and> knows ?s b 0" using s1 None by (intro unnumbered_ok) (simp_all add: accounted_def)
    have "radio_ok s'" using radio_ok_marshaled [of ?s] radio_ok_known [of ?s] known by (simp add: s')
    moreover have "owned s'"
      unfolding s'(1)
    proof (rule owned_marshaled [of s1])
      fix b' n' assume "holds ?s b' n'"
      then have "holds s1 b' n'" using s1 None by (cases "b' = b") (auto simp: holds_def setFinishBehavior_def nth_append split: if_splits)
      moreover have "\<not> holds s1 b' 0" using s1 unfolding accounted_def radio_ok_def holders_ok_def numbers_ok_def by blast
      ultimately show "b' = b \<and> n' = 0 \<or> holds s1 b' n' \<and> n' \<noteq> 0" by (cases n') auto
    qed (use s1 in \<open>simp_all add: accounted_def owner_def setFinishBehavior_def cong: list.case_cong\<close>)
    moreover have "account s' = account s1"
      using waiting_unnumbered [of b "behaviors s1" 0] s1 None by (simp add: account_def s' setFinishBehavior_def)
    ultimately show ?thesis using s1 None ok(2) by (simp add: accounted_def s' setFinishBehavior_def)
  next
    case (Some c)
    from numbers show ?thesis
    proof (cases rule: reserve_next_frame_id_cases)
      case full
      then show ?thesis using send s1 Some ok(2) by (auto simp: construct_message_def)
    next
      case (free n)
      let ?s = "setFinishBehavior b n ((set_inUse n True s1)\<lparr>m_PreviousFrame := int n\<rparr>)"
      let ?tx = "with_checksum (message_bytes n a data)"
      have link: "\<not> onLinkThread ?s" using s1 ok(2) by (simp add: setFinishBehavior_def set_inUse_def)
      have "(s', r) = (?s\<lparr>marshaled := marshaled ?s @ [(n, b, ?tx)]\<rparr>, Inr ())"
        using send s1 Some free link by (auto simp: construct_message_def MarshalOnThread_later)
      then show ?thesis
        using accounted_numbered [OF _ free(2-4), of A b AT_TransmitStatus c ?s ?tx] s1 Some link by simp
    qed
  qed
qed

lemma readBytes_offLink: "\<not> onLinkThread s \<Longrightarrow> \<not> onLinkThread (fst (readBytes on_message on_return buffer s))"
  by (auto simp: readBytes_def split: prod.split)

lemma run_marshaled_offLink: "onLinkThread (fst (run_marshaled s)) = onLinkThread s"
  by (simp add: run_marshaled_def run_function_def split: list.split prod.split)

lemma accounted_exec:
  assumes ok: "accounted A s" "\<not> onLinkThread s" and run: "exec e s = (s', r)" and r: "r = Inr () \<or> r = Inl (Runtime_Error m)"
  shows "accounted (A + accepted (e, r)) s' \<and> \<not> onLinkThread s'"
proof (cases e)
  case (Ask q)
  show ?thesis
  proof (cases q)
    case (Get T p name cb)
    obtain s1 b where new: "new_behavior p (Some (T, cb)) s = (s1, b)" by fastforce
    obtain s2 r2 where at: "AT_command_helper name b [] s1 = (s2, r2)" by fastforce
    have "r2 \<noteq> Inl Undefined_Behaviour" using run r Ask Get new at by (auto simp: GetATParameterAsync_def split: if_splits)
    from accounted_AT_command [OF ok new at this] show ?thesis
      using run r Ask Get new at by (auto simp: GetATParameterAsync_def split: sum.splits if_splits)
  next
    case (Set T name v cb)
    obtain s1 b where new: "new_behavior ShutdownFirstResponse (Some (T, cb)) s = (s1, b)" by fastforce
    obtain s2 r2 where at: "AT_command_helper name b v s1 = (s2, r2)" by fastforce
    have "r2 \<noteq> Inl Undefined_Behaviour" using run r Ask Set new at by (auto simp: SetATParameterAsync_def)
    from accounted_AT_command [OF ok new at this] show ?thesis
      using run r Ask Set new at by (cases r2) (auto simp: SetATParameterAsync_def)
  next
    case (Send data a cb)
    then show ?thesis using accounted_SendMessage [OF ok, of data a cb] run Ask by simp
  qed
next
  case Link_Runs
  have "answers s' = answers s" "\<not> onLinkThread s'"
    using run Link_Runs answers_run_marshaled [of s] run_marshaled_offLink [of s] ok(2) by simp_all
  moreover have "owned s'"
    using owned_run_marshaled [of s s' r] ok(1) run r Link_Runs by (auto simp: accounted_def)
  moreover have "accepted (e, r) = {#}" using Link_Runs by (cases r) simp_all
  ultimately show ?thesis
    using run_marshaled_ok [of s s' r] ok run Link_Runs by (simp add: accounted_def account_def)
next
  case (Incoming buffer)
  moreover have "accepted (e, r) = {#}" using Incoming by (cases r) simp_all
  ultimately show ?thesis
    using accounted_readBytes [OF ok(1), of buffer] readBytes_offLink [OF ok(2), of note_message note_answer buffer] run by simp
next
  case (Timer_Ends b)
  have none: "accepted (e, r) = {#}" using Timer_Ends by (cases r) simp_all
  show ?thesis
  proof (cases "b < length (behaviors s) \<and> persists (behaviors s ! b) = CollectAfterTimeout \<and>
         callback (behaviors s ! b) \<noteq> None \<and> doneFrame (behaviors s ! b) \<noteq> None")
    case True
    then obtain T cb n where b: "callback (behaviors s ! b) = Some (T, cb)" "doneFrame (behaviors s ! b) = Some n"
        "b < length (behaviors s)"
      by auto
    then have h: "holds s b n" by (simp add: holds_def)
    then have "n < length (m_CurrentFrames s)"
      using ok(1) unfolding accounted_def radio_ok_def holders_ok_def numbers_ok_def by metis
    moreover have "s' = answered b n cb s"
      using run True Timer_Ends SendAndFinish_note [OF b(1,2)] by (simp add: timeout_def)
    ultimately show ?thesis
      using ok b h answered_ok [of s b n cb] account_answered [of s b n T cb] owned_answered [of s b n cb]
      by (simp add: accounted_def none) (simp add: answered_def)
  next
    case False
    then show ?thesis using run ok none Timer_Ends by auto
  qed
qed

lemma history_accounted:
  "radio_history hs es s \<Longrightarrow> accounted (sum_list (map accepted es)) s \<and> \<not> onLinkThread s"
proof (induction rule: radio_history.induct)
  case start
  show ?case
    using radio_ok_new [of hs] by (simp add: accounted_defs DigiMeshRadio_new_def DigiMeshRadio.extend_def)
next
  case (step es s e s' r m)
  then show ?case using accounted_exec [of "sum_list (map accepted es)" s e s' r m] by simp
qed

text \<open>
  C12: in every history of a radio whose callbacks do not use the radio themselves and in which no event is
  undefined or ends the program (an exception is caught), the callbacks that have run and those of the requests that
  wait for an answer are together exactly the callbacks of the requests that were not refused: none is lost, none
  runs twice, and the callback of a refused request never runs. What waits can be answered: its number is in use,
  and the frame with this number has its behaviour, or will have it when the thread of the link has written what was
  given to it.
\<close>

theorem callbacks_accounted:
  assumes "radio_history hs es s"
  shows "mset (map fst (answers s)) + waiting (behaviors s) = sum_list (map accepted es)
    \<and> (\<forall>b n. holds s b n \<longrightarrow> inUse (m_CurrentFrames s ! n) \<and> owner s n = Some b)"
proof -
  have acc: "accounted (sum_list (map accepted es)) s" using history_accounted [OF assms] by simp
  have "inUse (m_CurrentFrames s ! n) \<and> owner s n = Some b" if "holds s b n" for b n
    using acc that unfolding accounted_def owned_def radio_ok_def holders_ok_def used_def by blast
  then show ?thesis using acc by (simp add: accounted_def account_def)
qed

text \<open>
  C13: in every history of a radio a number from 1 to 255 is in use exactly when one request waits for the answer to
  it, no two requests wait for the same number, and a new request is refused only when every number except the one
  given last is in use; otherwise it gets a number that was free.
\<close>

theorem numbers_held:
  assumes "radio_history hs es s"
  shows "(\<forall>n < 256. inUse (m_CurrentFrames s ! n) \<longleftrightarrow> (\<exists>!b. holds s b n)) \<and> (\<forall>b. \<not> holds s b 0) \<and>
    (\<exists>n. snd (reserve_next_frame_id s) = Inr n \<and>
      (n = - 1 \<and> (\<forall>k \<in> {1..<256} - {nat (m_PreviousFrame s)}. inUse (m_CurrentFrames s ! k)) \<or>
       n \<in> {1..255} \<and> \<not> inUse (m_CurrentFrames s ! nat n)))"
proof -
  have ok: "radio_ok s" using history_accounted [OF assms] by (simp add: accounted_def)
  have "\<forall>n < 256. inUse (m_CurrentFrames s ! n) \<longleftrightarrow> (\<exists>!b. holds s b n)"
    using ok unfolding radio_ok_def holders_ok_def used_def by blast
  moreover have "\<forall>b. \<not> holds s b 0"
    using ok unfolding radio_ok_def holders_ok_def numbers_ok_def by blast
  moreover have "\<exists>n. snd (reserve_next_frame_id s) = Inr n \<and>
      (n = - 1 \<and> (\<forall>k \<in> {1..<256} - {nat (m_PreviousFrame s)}. inUse (m_CurrentFrames s ! k)) \<or>
       n \<in> {1..255} \<and> \<not> inUse (m_CurrentFrames s ! nat n))"
  proof -
    have "numbers_ok s" using ok by (simp add: radio_ok_def)
    then show ?thesis by (cases rule: reserve_next_frame_id_cases) (auto simp: used_def)
  qed
  ultimately show ?thesis by blast
qed

text \<open>
  C14: the status of a transmission with the number \<open>n\<close>, other than \<open>PAYLOAD_TOO_LARGE\<close>
  (which throws before it is handed on), goes to the callback of the request that holds \<open>n\<close> and to no
  other, and the number is free after it, when that request waits for a status, ends with the first answer, and the
  link has written its frame; if no request holds \<open>n\<close>, nothing happens.
\<close>

theorem status_reaches_its_sender:
  assumes "radio_history hs es s" and "p = FRAME_TRANSMIT_STATUS # n # rest" and "length p = 7"
    and "p ! 5 \<noteq> PAYLOAD_TOO_LARGE"
  shows "(\<forall>b cb. holds s b (unat n) \<and> framePersistance (m_CurrentFrames s ! unat n) = Some b \<and>
        callback (behaviors s ! b) = Some (AT_TransmitStatus, cb) \<and> persists (behaviors s ! b) = ShutdownFirstResponse \<longrightarrow>
        (\<exists>s'. handle_packet note_message note_answer p s = (s', Inr ()) \<and>
          answers s' = answers s @ [(cb, collected (behaviors s ! b) @
            [Status \<lparr>retries = p ! 4, ts_status = p ! 5, disoveryRequired = p ! 6\<rparr>])] \<and>
          \<not> inUse (m_CurrentFrames s' ! unat n))) \<and>
     ((\<forall>b. \<not> holds s b (unat n)) \<longrightarrow> handle_packet note_message note_answer p s = (s, Inr ()))"
    (is "(\<forall>b cb. ?holder b cb \<longrightarrow> ?answered b cb) \<and> (_ \<longrightarrow> ?ignored)")
proof -
  have ok: "radio_ok s" using history_accounted [OF assms(1)] by (simp add: accounted_def)
  have len: "length (m_CurrentFrames s) = 256" using ok by (simp add: radio_ok_defs)
  have same: "b = b'" if "holds s b k" "holds s b' k" for b b' k
    using that ok unfolding radio_ok_def holders_ok_def by blast
  have step: "handle_packet note_message note_answer p s = find_and_invokve_frame note_answer (unat n) p s"
    if "snd (find_and_invokve_frame note_answer (unat n) p s) = Inr ()"
    using that assms
    by (cases "find_and_invokve_frame note_answer (unat n) p s")
      (simp add: handle_packet_def handle_transmit_status_def frame_types)
  have holder: ?thesis if "holds s b (unat n)" "\<forall>cb. ?holder b cb \<longrightarrow> ?answered b cb" for b
    using that same by metis
  show ?thesis
    using ok unat_u8_less [of n]
  proof (cases rule: find_and_invokve_frame_cases [where data = p])
    case ignored
    then show ?thesis using step by auto
  next
    case (unread b T cb e)
    have "T \<noteq> AT_TransmitStatus" using unread(4) assms(3) by (auto simp: DeSerialize_TransmitStatus_def)
    then show ?thesis by (intro holder [OF unread(2)]) (simp add: unread(3))
  next
    case (kept b T cb x)
    then show ?thesis by (intro holder [OF kept(2)]) simp
  next
    case (handed b T cb x)
    let ?s = "answered b (unat n) cb (collect b x s)"
    have ans: "answers ?s = answers s @ [(cb, collected (behaviors s ! b) @ [x])]"
      using handed(2) by (simp add: answered_def collect_def holds_def)
    have free: "\<not> inUse (m_CurrentFrames ?s ! unat n)"
      using len by (simp add: answered_def)
    have h: "handle_packet note_message note_answer p s = (?s, Inr ())"
      using step handed(1) by simp
    show ?thesis
    proof (rule holder [OF handed(2)], intro allI impI)
      fix cb' assume "?holder b cb'"
      then have cb: "T = AT_TransmitStatus" "cb' = cb" using handed(3) by auto
      then have "x = Status \<lparr>retries = p ! 4, ts_status = p ! 5, disoveryRequired = p ! 6\<rparr>"
        using handed(4) assms(3) by (simp add: DeSerialize_TransmitStatus_def)
      then show "?answered b cb'" using ans free h cb(2) by blast
    qed
  qed
qed

fun run_events :: "'cb event list \<Rightarrow> ('cb, 'h) Radio_Log \<Rightarrow> ('cb, 'h) log_outcome" where
  "run_events [] s = (s, Inr ())"
| "run_events (e # es) s = obind (exec e s) (\<lambda>s u. run_events es s)"

definition log_new :: "'h list \<Rightarrow> ('cb, 'h) Radio_Log" where
  "log_new hs = DigiMeshRadio.extend (DigiMeshRadio_new hs) \<lparr>heard = [], answers = []\<rparr>"

lemma run_events_history:
  "radio_history hs es s \<Longrightarrow> run_events fs s = (s', Inr ()) \<Longrightarrow>
   radio_history hs (es @ map (\<lambda>e. (e, Inr ())) fs) s'"
proof (induction fs arbitrary: es s)
  case (Cons e fs)
  obtain s1 r where e: "exec e s = (s1, r)" by fastforce
  then have r: "r = Inr ()" using Cons.prems by (cases r) auto
  then have "radio_history hs (es @ [(e, Inr ())]) s1" using Cons.prems(1) e by (auto intro: radio_history.step)
  then show ?case using Cons.IH [of "es @ [(e, Inr ())]" s1] Cons.prems(2) e r by simp
qed simp

lemma run_events_new:
  assumes "snd (run_events es (log_new hs)) = Inr ()"
  shows "radio_history hs (map (\<lambda>e. (e, Inr ())) es) (fst (run_events es (log_new hs)))"
  using run_events_history [OF radio_history.start [of hs], of es] assms
  by (cases "run_events es (log_new hs)") (simp add: log_new_def)

text \<open>A radio that has sent a message with a callback, and has been told that it arrived.\<close>

definition demo_sent :: "nat event list" where
  "demo_sent = [Ask (Send [0x55] 0x0013a20040 (Some 7)), Link_Runs]"

definition demo_history :: "(nat event \<times> (cpp_error + unit)) list" where
  "demo_history = map (\<lambda>e. (e, Inr ())) demo_sent"

definition demo_status :: bytes where
  "demo_status = [FRAME_TRANSMIT_STATUS, 1, 0xFF, 0xFE, 0, 0, 0]"

lemma demo_sent_history: "radio_history [0::nat] demo_history (fst (run_events demo_sent (log_new [0])))"
  unfolding demo_history_def by (rule run_events_new) code_simp

theorem callbacks_accounted_witness:
  "\<exists>s. radio_history [0::nat] demo_history s \<and>
     mset (map fst (answers s)) + waiting (behaviors s) = {#7#}"
  using demo_sent_history callbacks_accounted [OF demo_sent_history] by (fastforce simp: demo_sent_def demo_history_def)

theorem numbers_held_witness:
  "\<exists>s. radio_history [0::nat] demo_history s \<and> (\<exists>!b. holds s b 1)"
proof -
  have "inUse (m_CurrentFrames (fst (run_events demo_sent (log_new [0::nat]))) ! 1)" by code_simp
  then show ?thesis using demo_sent_history numbers_held [OF demo_sent_history] by auto
qed

theorem status_reaches_its_sender_witness:
  "\<exists>s s'. radio_history [0::nat] demo_history s \<and>
     handle_packet note_message note_answer demo_status s = (s', Inr ()) \<and>
     answers s' = [(7, [Status \<lparr>retries = 0, ts_status = 0, disoveryRequired = 0\<rparr>])]"
proof -
  let ?s = "fst (run_events demo_sent (log_new [0::nat]))"
  have "holds ?s 0 (unat (1 :: u8)) \<and> framePersistance (m_CurrentFrames ?s ! unat (1 :: u8)) = Some 0 \<and>
      callback (behaviors ?s ! 0) = Some (AT_TransmitStatus, 7) \<and> persists (behaviors ?s ! 0) = ShutdownFirstResponse"
    by code_simp
  moreover have "answers ?s = [] \<and> collected (behaviors ?s ! 0) = []" by code_simp
  ultimately show ?thesis
    using demo_sent_history
      status_reaches_its_sender [OF demo_sent_history, of demo_status 1 "[0xFF, 0xFE, 0, 0, 0]"]
    by (fastforce simp: demo_status_def PAYLOAD_TOO_LARGE_def)
qed

end
