(* ===== verification/Digimesh_Interop.thy ===== *)
theory Digimesh_Interop
  imports Digimesh_Messages
begin

unbundle bit_operations_syntax

text \<open>
  The library over the radio by which instances find each other (\<open>src/src/MACEDigiMeshWrapper\<close>): each node has
  resources, tells the others of them, and sends data to the node that has a resource.

  Names are lists of bytes. What a handler of the program is called with is noted in \<open>calls\<close>; what the handler does
  then is a step of its own.
\<close>

section \<open>Resources\<close>

type_synonym ResourceKey = "bytes list"
type_synonym ResourceValue = "u32 list"

definition containsKey :: "ResourceKey \<Rightarrow> ResourceKey \<Rightarrow> bool" where
  "containsKey this rhs \<longleftrightarrow> list_all (\<lambda>name. list_ex (\<lambda>mine. mine = name) this) rhs"

record ResourceList =
  m_InternalResources :: "(ResourceKey, ResourceValue list) umap"
  m_ResourcesToRadioAddr :: "(ResourceKey, (ResourceValue, u64) umap) umap"

definition ResourceList_new :: ResourceList where
  "ResourceList_new = \<lparr>m_InternalResources = [], m_ResourcesToRadioAddr = []\<rparr>"

text \<open>The first lines of both functions that add: a key that is new gets empty entries.\<close>

definition ensure_key :: "ResourceKey \<Rightarrow> ResourceList \<Rightarrow> ResourceList" where
  "ensure_key key r =
     (if map_of (m_ResourcesToRadioAddr r) key = None
      then r\<lparr>m_ResourcesToRadioAddr := um_insert key [] (m_ResourcesToRadioAddr r),
             m_InternalResources := um_insert key [] (m_InternalResources r)\<rparr>
      else r)"

definition addr_of :: "ResourceList \<Rightarrow> ResourceKey \<Rightarrow> ResourceValue \<Rightarrow> u64 option" where
  "addr_of r key val = Option.bind (map_of (m_ResourcesToRadioAddr r) key) (\<lambda>vs. map_of vs val)"

definition put_addr :: "ResourceKey \<Rightarrow> ResourceValue \<Rightarrow> u64 \<Rightarrow> ResourceList \<Rightarrow> ResourceList" where
  "put_addr key val a r = (case map_of (m_ResourcesToRadioAddr r) key of
     None \<Rightarrow> r
   | Some vs \<Rightarrow> r\<lparr>m_ResourcesToRadioAddr := um_put key (um_insert val a vs) (m_ResourcesToRadioAddr r)\<rparr>)"

definition erase_addr :: "ResourceKey \<Rightarrow> ResourceValue \<Rightarrow> ResourceList \<Rightarrow> ResourceList" where
  "erase_addr key val r = (case map_of (m_ResourcesToRadioAddr r) key of
     None \<Rightarrow> r
   | Some vs \<Rightarrow> r\<lparr>m_ResourcesToRadioAddr := um_put key (um_erase val vs) (m_ResourcesToRadioAddr r)\<rparr>)"

definition AddInternalResource :: "ResourceKey \<Rightarrow> ResourceValue \<Rightarrow> ResourceList \<Rightarrow> (ResourceList, unit) outcome" where
  "AddInternalResource key val r =
     (let r = ensure_key key r
      in if addr_of r key val \<noteq> None then (r, Inl (Runtime_Error ''Resource of given ID already exists''))
         else let r = put_addr key val 0 r
              in (case map_of (m_InternalResources r) key of
                    None \<Rightarrow> (r, Inl Out_Of_Range)
                  | Some vs \<Rightarrow> (r\<lparr>m_InternalResources := um_put key (vs @ [val]) (m_InternalResources r)\<rparr>, Inr ())))"

definition RemoveInternalResource :: "ResourceKey \<Rightarrow> ResourceValue \<Rightarrow> ResourceList \<Rightarrow> (ResourceList, unit) outcome" where
  "RemoveInternalResource key val r =
     (if addr_of r key val = None then (r, Inr ())
      else let r = erase_addr key val r
           in (case map_of (m_InternalResources r) key of
                 None \<Rightarrow> (r, Inl Out_Of_Range)
               | Some vs \<Rightarrow> (r\<lparr>m_InternalResources := um_put key (remove1 val vs) (m_InternalResources r)\<rparr>, Inr ())))"

definition AddExternalResource :: "ResourceKey \<Rightarrow> ResourceValue \<Rightarrow> u64 \<Rightarrow> ResourceList \<Rightarrow> (ResourceList, bool) outcome" where
  "AddExternalResource key val a r =
     (let r = ensure_key key r
      in (case addr_of r key val of
            Some a' \<Rightarrow>
              if a' \<noteq> 0 \<and> a' \<noteq> a
              then (r, Inl (Runtime_Error ''Given Resource has already been added with a different address''))
              else (r, Inr False)
          | None \<Rightarrow> (put_addr key val a r, Inr True)))"

definition RemoveExternalResource :: "ResourceKey \<Rightarrow> ResourceValue \<Rightarrow> ResourceList \<Rightarrow> ResourceList" where
  "RemoveExternalResource key val r = (if addr_of r key val = None then r else erase_addr key val r)"

definition HasAddr :: "ResourceKey \<Rightarrow> ResourceValue \<Rightarrow> ResourceList \<Rightarrow> bool" where
  "HasAddr key val r \<longleftrightarrow> addr_of r key val \<noteq> None"

definition GetAddr :: "ResourceKey \<Rightarrow> ResourceValue \<Rightarrow> ResourceList \<Rightarrow> cpp_error + u64" where
  "GetAddr key val r = (case addr_of r key val of None \<Rightarrow> Inl Out_Of_Range | Some a \<Rightarrow> Inr a)"

definition getResourcesMatch :: "ResourceKey \<Rightarrow> bool \<Rightarrow> ResourceList \<Rightarrow> (ResourceKey \<times> ResourceValue) list" where
  "getResourcesMatch key internalOnly r =
     concat (map (\<lambda>(k, vs). if containsKey k key
                  then map (\<lambda>(v, a). (k, v)) (filter (\<lambda>(v, a). \<not> (internalOnly \<and> a \<noteq> 0)) vs) else [])
       (m_ResourcesToRadioAddr r))"

section \<open>The node\<close>

text \<open>What the callbacks that are given to the radio captured.\<close>

datatype radio_callback = AP_set | NI_set | Status_of ResourceKey ResourceValue

text \<open>The radio has one handler of messages, the one the constructor adds.\<close>

datatype radio_handler = On_message_received

datatype 'f call =
    Call_Data 'f bytes
  | Call_New 'f ResourceValue u64
  | Call_New_Generic 'f ResourceKey ResourceValue u64
  | Call_Removed 'f ResourceValue
  | Call_Removed_Generic 'f ResourceKey ResourceValue
  | Call_NotReached 'f ResourceValue u8
  | Call_NotReached_Generic 'f ResourceKey ResourceValue u8

record 'f Interop = "(radio_callback, radio_handler) DigiMeshRadio" +
  m_NIMutex :: bool
  m_NodeName :: bytes
  m_Handlers_Data :: "'f list"
  m_Handlers_NewRemoteVehicle :: "ResourceKey \<rightharpoonup> 'f list"
  m_Handlers_RemoteVehicleRemoved :: "ResourceKey \<rightharpoonup> 'f list"
  m_Handlers_VehicleNotReached :: "ResourceKey \<rightharpoonup> 'f list"
  m_Handlers_NewRemoteVehicle_Generic :: "'f list"
  m_Handlers_RemoteVehicleRemoved_Generic :: "'f list"
  m_Handlers_VehicleNotReached_Generic :: "'f list"
  m_Resources :: ResourceList
  calls :: "'f call list"

type_synonym ('f, 'a) node_outcome = "('f Interop, 'a) outcome"

definition Notify :: "('f \<Rightarrow> 'f call) \<Rightarrow> 'f list \<Rightarrow> 'f Interop \<Rightarrow> 'f Interop" where
  "Notify call lambdas s = s\<lparr>calls := calls s @ map call lambdas\<rparr>"

definition Interop_fields :: "bytes \<Rightarrow> 'f Interop" where
  "Interop_fields nameOfNode = DigiMeshRadio.extend (DigiMeshRadio_new [])
     \<lparr>m_NIMutex = True, m_NodeName = nameOfNode, m_Handlers_Data = [], m_Handlers_NewRemoteVehicle = (\<lambda>_. None),
      m_Handlers_RemoteVehicleRemoved = (\<lambda>_. None), m_Handlers_VehicleNotReached = (\<lambda>_. None),
      m_Handlers_NewRemoteVehicle_Generic = [], m_Handlers_RemoteVehicleRemoved_Generic = [],
      m_Handlers_VehicleNotReached_Generic = [], m_Resources = ResourceList_new, calls = []\<rparr>"

text \<open>
  The constructor. A node with a name sets two parameters of the radio, the second in the callback of the first; the
  callback of the second unlocks the mutex.
\<close>

definition Interop_new :: "bytes \<Rightarrow> ('f, unit) node_outcome" where
  "Interop_new nameOfNode =
     obind (if nameOfNode \<noteq> []
            then SetATParameterAsync AT_Void [0x41, 0x50] (Serialize_Integer8 1) AP_set (Interop_fields nameOfNode)
            else (Interop_fields nameOfNode, Inr ()))
       (\<lambda>s u. (s\<lparr>m_MessageHandlers := [On_message_received]\<rparr>, Inr ()))"

section \<open>What goes out\<close>

definition PACKET_DATA :: u8 where "PACKET_DATA = 0x01"
definition COMPONENT_ITEM_PRESENT :: u8 where "COMPONENT_ITEM_PRESENT = 0x02"
definition CONTAINED_VECHILES_REQUEST :: u8 where "CONTAINED_VECHILES_REQUEST = 0x03"
definition REMOVE_COMPONENT_ITEM :: u8 where "REMOVE_COMPONENT_ITEM = 0x04"

lemmas packet_types = PACKET_DATA_def COMPONENT_ITEM_PRESENT_def CONTAINED_VECHILES_REQUEST_def REMOVE_COMPONENT_ITEM_def

text \<open>
  The first character of a name is written without a look at it, the others up to a zero; of an empty name the
  character behind its end would be read.
\<close>

fun name_bytes :: "bytes \<Rightarrow> cpp_error + bytes" where
  "name_bytes [] = Inl Undefined_Behaviour"
| "name_bytes (c # cs) = Inr (c # takeWhile (\<lambda>b. b \<noteq> 0) cs @ [0])"

definition id_bytes :: "u32 \<Rightarrow> bytes" where
  "id_bytes ID = map (\<lambda>i. ucast (drop_bit (8 * (3 - i)) ID)) [0..<4]"

fun names_bytes :: "ResourceKey \<Rightarrow> cpp_error + bytes" where
  "names_bytes [] = Inr []"
| "names_bytes (n # ns) = (case name_bytes n of
     Inl e \<Rightarrow> Inl e
   | Inr b \<Rightarrow> (case names_bytes ns of Inl e \<Rightarrow> Inl e | Inr bs \<Rightarrow> Inr (b @ bs)))"

fun items_bytes :: "(bytes \<times> u32) list \<Rightarrow> cpp_error + bytes" where
  "items_bytes [] = Inr []"
| "items_bytes ((n, ID) # items) = (case name_bytes n of
     Inl e \<Rightarrow> Inl e
   | Inr b \<Rightarrow> (case items_bytes items of Inl e \<Rightarrow> Inl e | Inr bs \<Rightarrow> Inr (b @ id_bytes ID @ bs)))"

definition item_message :: "u8 \<Rightarrow> ResourceKey \<Rightarrow> ResourceValue \<Rightarrow> cpp_error + bytes" where
  "item_message type key resource =
     (if length key \<noteq> length resource
      then Inl (Runtime_Error ''given resource key and resource val don't match in size!'')
      else (case items_bytes (zip key resource) of Inl e \<Rightarrow> Inl e | Inr bs \<Rightarrow> Inr (type # bs)))"

definition send_packet :: "cpp_error + bytes \<Rightarrow> 'f Interop \<Rightarrow> ('f, unit) node_outcome" where
  "send_packet packet s = (case packet of
     Inl e \<Rightarrow> (s, Inl e)
   | Inr p \<Rightarrow> SendMessage p BROADCAST_ADDRESS None s)"

definition send_item_present_message :: "ResourceKey \<Rightarrow> ResourceValue \<Rightarrow> 'f Interop \<Rightarrow> ('f, unit) node_outcome" where
  "send_item_present_message key resource s = send_packet (item_message COMPONENT_ITEM_PRESENT key resource) s"

definition send_item_remove_message :: "ResourceKey \<Rightarrow> ResourceValue \<Rightarrow> 'f Interop \<Rightarrow> ('f, unit) node_outcome" where
  "send_item_remove_message key resource s = send_packet (item_message REMOVE_COMPONENT_ITEM key resource) s"

definition RequestContainedResources :: "ResourceKey \<Rightarrow> 'f Interop \<Rightarrow> ('f, unit) node_outcome" where
  "RequestContainedResources key s =
     send_packet (case names_bytes key of Inl e \<Rightarrow> Inl e | Inr bs \<Rightarrow> Inr (CONTAINED_VECHILES_REQUEST # bs)) s"

text \<open>\<open>MACEDigiMeshWrapper\<close> asks for the resources of each of its names when it is made, and when it is told to.\<close>

fun RequestRemoteResources :: "bytes list \<Rightarrow> 'f Interop \<Rightarrow> ('f, unit) node_outcome" where
  "RequestRemoteResources [] s = (s, Inr ())"
| "RequestRemoteResources (element # A) s =
     obind (RequestContainedResources [element] s) (\<lambda>s u. RequestRemoteResources A s)"

definition BroadcastData :: "bytes \<Rightarrow> 'f Interop \<Rightarrow> ('f, unit) node_outcome" where
  "BroadcastData data s = SendMessage (PACKET_DATA # data) BROADCAST_ADDRESS None s"

text \<open>Data to the node itself is handed to its handlers, and is sent all the same.\<close>

definition SendDataToAddress :: "u64 \<Rightarrow> bytes \<Rightarrow> radio_callback \<Rightarrow> 'f Interop \<Rightarrow> ('f, unit) node_outcome" where
  "SendDataToAddress a data cb s =
     (let s = (if a = 0 then Notify (\<lambda>f. Call_Data f data) (m_Handlers_Data s) s else s)
      in SendMessage (PACKET_DATA # data) a (Some cb) s)"

definition SendData :: "ResourceKey \<Rightarrow> ResourceValue \<Rightarrow> bytes \<Rightarrow> 'f Interop \<Rightarrow> ('f, bool) node_outcome" where
  "SendData resourceKey resourceValue data s =
     (if \<not> HasAddr resourceKey resourceValue (m_Resources s)
      then (s, Inl (Runtime_Error ''No address known for given target''))
      else (case GetAddr resourceKey resourceValue (m_Resources s) of
              Inl e \<Rightarrow> (s, Inl e)
            | Inr a \<Rightarrow> obind (SendDataToAddress a data (Status_of resourceKey resourceValue) s) (\<lambda>s u. (s, Inr True))))"

definition AddResource :: "ResourceKey \<Rightarrow> ResourceValue \<Rightarrow> 'f Interop \<Rightarrow> ('f, unit) node_outcome" where
  "AddResource key val s = (case AddInternalResource key val (m_Resources s) of
     (r, Inl e) \<Rightarrow> (s\<lparr>m_Resources := r\<rparr>, Inl e)
   | (r, Inr u) \<Rightarrow> send_item_present_message key val (s\<lparr>m_Resources := r\<rparr>))"

definition HasResource :: "ResourceKey \<Rightarrow> ResourceValue \<Rightarrow> 'f Interop \<Rightarrow> bool" where
  "HasResource key val s = HasAddr key val (m_Resources s)"

definition RemoveResource :: "ResourceKey \<Rightarrow> ResourceValue \<Rightarrow> 'f Interop \<Rightarrow> ('f, unit) node_outcome" where
  "RemoveResource key val s = (case RemoveInternalResource key val (m_Resources s) of
     (r, Inl e) \<Rightarrow> (s\<lparr>m_Resources := r\<rparr>, Inl e)
   | (r, Inr u) \<Rightarrow> send_item_remove_message key val (s\<lparr>m_Resources := r\<rparr>))"

section \<open>What comes in\<close>

text \<open>A name up to its zero, and what follows the zero; a message without the zero is read past its end.\<close>

definition read_name :: "bytes \<Rightarrow> cpp_error + bytes \<times> bytes" where
  "read_name msg =
     (let name = takeWhile (\<lambda>b. b \<noteq> 0) msg
      in if length name = length msg then Inl Undefined_Behaviour else Inr (name, drop (length name + 1) msg))"

definition read_id :: "bytes \<Rightarrow> cpp_error + u32 \<times> bytes" where
  "read_id msg =
     (if length msg < 4 then Inl Undefined_Behaviour
      else Inr (fold (\<lambda>i ID. ID OR push_bit (8 * (3 - i)) (ucast (msg ! i))) [0..<4] 0, drop 4 msg))"

definition read_item :: "bytes \<Rightarrow> cpp_error + (bytes \<times> u32) \<times> bytes" where
  "read_item msg = (case read_name msg of
     Inl e \<Rightarrow> Inl e
   | Inr (name, rest) \<Rightarrow> (case read_id rest of Inl e \<Rightarrow> Inl e | Inr (ID, rest) \<Rightarrow> Inr ((name, ID), rest)))"

lemma read_name_shorter: "read_name msg = Inr (name, rest) \<Longrightarrow> length rest < length msg"
  using length_takeWhile_le [of "\<lambda>b. b \<noteq> 0" msg] by (auto simp: read_name_def Let_def split: if_splits)

lemma read_item_shorter: "read_item msg = Inr (item, rest) \<Longrightarrow> length rest < length msg"
  using read_name_shorter [of msg]
  by (fastforce simp: read_item_def read_id_def split: sum.splits prod.splits if_splits)

text \<open>The loops over the bytes behind the type of the packet.\<close>

function read_items :: "bytes \<Rightarrow> ResourceKey \<Rightarrow> ResourceValue \<Rightarrow> cpp_error + ResourceKey \<times> ResourceValue" where
  "read_items msg key val =
     (if msg = [] then Inr (key, val)
      else (case read_item msg of
              Inl e \<Rightarrow> Inl e
            | Inr ((name, ID), rest) \<Rightarrow> read_items rest (key @ [name]) (val @ [ID])))"
  by pat_completeness auto
termination
  by (relation "measure (\<lambda>(msg, key, val). length msg)") (auto dest: read_item_shorter)

function read_names :: "bytes \<Rightarrow> ResourceKey \<Rightarrow> cpp_error + ResourceKey" where
  "read_names msg key =
     (if msg = [] then Inr key
      else (case read_name msg of Inl e \<Rightarrow> Inl e | Inr (name, rest) \<Rightarrow> read_names rest (key @ [name])))"
  by pat_completeness auto
termination
  by (relation "measure (\<lambda>(msg, key). length msg)") (auto dest: read_name_shorter)

declare read_items.simps [simp del] read_names.simps [simp del]

text \<open>
  The loop of a removal. Its condition is about the outer \<open>pos\<close>, which stays 1; the inner \<open>pos\<close>, which hides it, starts
  at 1 in every round.
\<close>

partial_function (option) read_removed ::
  "bytes \<Rightarrow> ResourceKey \<Rightarrow> ResourceValue \<Rightarrow> (cpp_error + ResourceKey \<times> ResourceValue) option" where
  "read_removed msg key val =
     (if 1 \<le> length msg
      then (case read_item (drop 1 msg) of
              Inl e \<Rightarrow> Some (Inl e)
            | Inr ((name, ID), rest) \<Rightarrow> read_removed msg (key @ [name]) (val @ [ID]))
      else Some (Inr (key, val)))"

definition onNewRemoteComponentItem :: "ResourceKey \<Rightarrow> ResourceValue \<Rightarrow> u64 \<Rightarrow> 'f Interop \<Rightarrow> ('f, unit) node_outcome" where
  "onNewRemoteComponentItem resourceKey resourceValue a s =
     (case AddExternalResource resourceKey resourceValue a (m_Resources s) of
        (r, Inl e) \<Rightarrow> (s\<lparr>m_Resources := r\<rparr>, Inl e)
      | (r, Inr newResource) \<Rightarrow>
          let s = s\<lparr>m_Resources := r\<rparr>
          in if \<not> newResource then (s, Inr ())
             else (case m_Handlers_NewRemoteVehicle s resourceKey of
                     Some fs \<Rightarrow> (Notify (\<lambda>f. Call_New f resourceValue a) fs s, Inr ())
                   | None \<Rightarrow> (Notify (\<lambda>f. Call_New_Generic f resourceKey resourceValue a)
                       (m_Handlers_NewRemoteVehicle_Generic s) s, Inr ())))"

definition onRemovedRemoteComponentItem :: "ResourceKey \<Rightarrow> ResourceValue \<Rightarrow> 'f Interop \<Rightarrow> 'f Interop" where
  "onRemovedRemoteComponentItem resourceKey resourceValue s =
     (let s = s\<lparr>m_Resources := RemoveExternalResource resourceKey resourceValue (m_Resources s)\<rparr>
      in case m_Handlers_RemoteVehicleRemoved s resourceKey of
           Some fs \<Rightarrow> Notify (\<lambda>f. Call_Removed f resourceValue) fs s
         | None \<Rightarrow> Notify (\<lambda>f. Call_Removed_Generic f resourceKey resourceValue)
             (m_Handlers_RemoteVehicleRemoved_Generic s) s)"

definition RetrieveComponentItems :: "ResourceKey \<Rightarrow> bool \<Rightarrow> 'f Interop \<Rightarrow> (ResourceKey \<times> ResourceValue) list" where
  "RetrieveComponentItems key internal s = getResourcesMatch key internal (m_Resources s)"

fun send_all_present :: "(ResourceKey \<times> ResourceValue) list \<Rightarrow> 'f Interop \<Rightarrow> ('f, unit) node_outcome" where
  "send_all_present [] s = (s, Inr ())"
| "send_all_present ((k, v) # items) s =
     obind (send_item_present_message k v s) (\<lambda>s u. send_all_present items s)"

definition on_message_received :: "bytes \<Rightarrow> u64 \<Rightarrow> 'f Interop \<Rightarrow> ('f, unit) node_outcome" where
  "on_message_received msg a s = (case msg of
     [] \<Rightarrow> (s, Inl Out_Of_Range)
   | type # rest \<Rightarrow>
       if type = PACKET_DATA then (Notify (\<lambda>f. Call_Data f rest) (m_Handlers_Data s) s, Inr ())
       else if type = COMPONENT_ITEM_PRESENT
       then (case read_items rest [] [] of
               Inl e \<Rightarrow> (s, Inl e) | Inr (key, val) \<Rightarrow> onNewRemoteComponentItem key val a s)
       else if type = CONTAINED_VECHILES_REQUEST
       then (case read_names rest [] of
               Inl e \<Rightarrow> (s, Inl e) | Inr key \<Rightarrow> send_all_present (RetrieveComponentItems key True s) s)
       else if type = REMOVE_COMPONENT_ITEM
       then (case read_removed msg [] [] of
               None \<Rightarrow> (s, Inl Blocked)
             | Some (Inl e) \<Rightarrow> (s, Inl e)
             | Some (Inr (key, val)) \<Rightarrow> (onRemovedRemoteComponentItem key val s, Inr ()))
       else (s, Inl (Runtime_Error ''Unknown packet type received over digimesh network'')))"

section \<open>The node on its radio\<close>

definition node_message :: "radio_handler \<Rightarrow> Message \<Rightarrow> 'f Interop \<Rightarrow> ('f, unit) node_outcome" where
  "node_message h m s = on_message_received (msg_data m) (addr m) s"

text \<open>The callbacks that the node has given to the radio; \<open>arr.at(0)\<close> is the status.\<close>

definition node_return :: "radio_callback \<Rightarrow> at_value list \<Rightarrow> 'f Interop \<Rightarrow> ('f, unit) node_outcome" where
  "node_return cb xs s = (case cb of
     AP_set \<Rightarrow> SetATParameterAsync AT_Void [0x4e, 0x49] (Serialize_String (takeWhile (\<lambda>b. b \<noteq> 0) (m_NodeName s))) NI_set s
   | NI_set \<Rightarrow> (s\<lparr>m_NIMutex := False\<rparr>, Inr ())
   | Status_of key val \<Rightarrow>
       (case xs of
          Status status # _ \<Rightarrow>
            if ts_status status = 0 then (s, Inr ())
            else (case m_Handlers_VehicleNotReached s key of
                    Some fs \<Rightarrow> (Notify (\<lambda>f. Call_NotReached f val (ts_status status)) fs s, Inr ())
                  | None \<Rightarrow> (Notify (\<lambda>f. Call_NotReached_Generic f key val (ts_status status))
                      (m_Handlers_VehicleNotReached_Generic s) s, Inr ()))
        | _ \<Rightarrow> (s, Inl Out_Of_Range)))"

definition hear_bytes :: "bytes \<Rightarrow> 'f Interop \<Rightarrow> ('f, unit) node_outcome" where
  "hear_bytes = readBytes node_message node_return"

text \<open>Handlers of the program.\<close>

definition add_handler :: "ResourceKey \<Rightarrow> 'f \<Rightarrow> (ResourceKey \<rightharpoonup> 'f list) \<Rightarrow> (ResourceKey \<rightharpoonup> 'f list)" where
  "add_handler key f hs = hs(key \<mapsto> (case hs key of None \<Rightarrow> [] | Some fs \<Rightarrow> fs) @ [f])"

definition AddHandler_Data :: "'f \<Rightarrow> 'f Interop \<Rightarrow> 'f Interop" where
  "AddHandler_Data f s = s\<lparr>m_Handlers_Data := m_Handlers_Data s @ [f]\<rparr>"

definition AddHandler_NewRemoteComponentItem :: "ResourceKey \<Rightarrow> 'f \<Rightarrow> 'f Interop \<Rightarrow> 'f Interop" where
  "AddHandler_NewRemoteComponentItem key f s =
     s\<lparr>m_Handlers_NewRemoteVehicle := add_handler key f (m_Handlers_NewRemoteVehicle s)\<rparr>"

definition AddHandler_RemoteComponentItemRemoved :: "ResourceKey \<Rightarrow> 'f \<Rightarrow> 'f Interop \<Rightarrow> 'f Interop" where
  "AddHandler_RemoteComponentItemRemoved key f s =
     s\<lparr>m_Handlers_RemoteVehicleRemoved := add_handler key f (m_Handlers_RemoteVehicleRemoved s)\<rparr>"

definition AddHandler_ComponentItemTransmitError :: "ResourceKey \<Rightarrow> 'f \<Rightarrow> 'f Interop \<Rightarrow> 'f Interop" where
  "AddHandler_ComponentItemTransmitError key f s =
     s\<lparr>m_Handlers_VehicleNotReached := add_handler key f (m_Handlers_VehicleNotReached s)\<rparr>"

definition AddHandler_NewRemoteComponentItem_Generic :: "'f \<Rightarrow> 'f Interop \<Rightarrow> 'f Interop" where
  "AddHandler_NewRemoteComponentItem_Generic f s =
     s\<lparr>m_Handlers_NewRemoteVehicle_Generic := m_Handlers_NewRemoteVehicle_Generic s @ [f]\<rparr>"

definition AddHandler_RemoteComponentItemRemoved_Generic :: "'f \<Rightarrow> 'f Interop \<Rightarrow> 'f Interop" where
  "AddHandler_RemoteComponentItemRemoved_Generic f s =
     s\<lparr>m_Handlers_RemoteVehicleRemoved_Generic := m_Handlers_RemoteVehicleRemoved_Generic s @ [f]\<rparr>"

definition AddHandler_ComponentItemTransmitError_Generic :: "'f \<Rightarrow> 'f Interop \<Rightarrow> 'f Interop" where
  "AddHandler_ComponentItemTransmitError_Generic f s =
     s\<lparr>m_Handlers_VehicleNotReached_Generic := m_Handlers_VehicleNotReached_Generic s @ [f]\<rparr>"

end
