(* ===== verification/Digimesh_Network.thy ===== *)
theory Digimesh_Network
  imports Digimesh_Interop
begin

unbundle bit_operations_syntax

text \<open>
  Nodes that talk over their radios. Every message about a resource is read as it was written, except that a removal
  is never handled; and in a network where every resource has one owner, every node that knows a resource knows its
  owner's address, nothing that is heard throws, and data for a resource reaches the handlers of its owner.
\<close>

section \<open>Names and numbers\<close>

definition good_name :: "bytes \<Rightarrow> bool" where
  "good_name n \<longleftrightarrow> n \<noteq> [] \<and> 0 \<notin> set n"

lemma name_bytes_good: "good_name n \<Longrightarrow> name_bytes n = Inr (n @ [0])"
  by (cases n) (auto simp: good_name_def takeWhile_eq_all_conv)

lemma read_name_bytes: "good_name n \<Longrightarrow> read_name (n @ 0 # rest) = Inr (n, rest)"
proof -
  assume "good_name n"
  then have "takeWhile (\<lambda>b. b \<noteq> 0) (n @ 0 # rest) = n"
    by (subst takeWhile_append2) (auto simp: good_name_def)
  then show ?thesis by (simp add: read_name_def)
qed

lemma length_id_bytes [simp]: "length (id_bytes ID) = 4"
  by (simp add: id_bytes_def)

lemma bit_fold_or32:
  "bit (fold (\<lambda>i a. a OR f i) is (z :: u32)) n \<longleftrightarrow> bit z n \<or> (\<exists>i \<in> set is. bit (f i) n)"
  by (induction "is" arbitrary: z) (auto simp: bit_or_iff)

lemma read_id_bytes: "read_id (id_bytes ID @ rest) = Inr (ID, rest)"
proof -
  have nth: "(id_bytes ID @ rest) ! i = ucast (drop_bit (8 * (3 - i)) ID)" if "i < 4" for i
    using that by (simp add: id_bytes_def nth_append)
  have "fold (\<lambda>i a. a OR push_bit (8 * (3 - i)) (ucast ((id_bytes ID @ rest) ! i))) [0..<4] 0 = ID"
  proof (rule bit_word_eqI)
    fix n assume "n < LENGTH(32)"
    then have n: "n < 32" by simp
    have "bit (fold (\<lambda>i a. a OR push_bit (8 * (3 - i)) (ucast ((id_bytes ID @ rest) ! i))) [0..<4] (0 :: u32)) n \<longleftrightarrow>
        (\<exists>i \<in> {0..<4}. 8 * (3 - i) \<le> n \<and> n - 8 * (3 - i) < 8 \<and> bit ID n)"
      using n by (simp add: bit_fold_or32 nth bit_simps) (intro bex_cong; auto simp: nth bit_simps)
    also have "\<dots> \<longleftrightarrow> bit ID n"
    proof -
      have "3 - n div 8 \<in> {0..<4}" "8 * (3 - (3 - n div 8)) \<le> n" "n - 8 * (3 - (3 - n div 8)) < 8"
        using n by auto
      then show ?thesis by blast
    qed
    finally show "bit (fold (\<lambda>i a. a OR push_bit (8 * (3 - i)) (ucast ((id_bytes ID @ rest) ! i))) [0..<4] (0 :: u32)) n = bit ID n" .
  qed
  then show ?thesis by (simp add: read_id_def)
qed

lemma read_item_bytes: "good_name n \<Longrightarrow> read_item (n @ 0 # id_bytes ID @ rest) = Inr ((n, ID), rest)"
  by (simp add: read_item_def read_name_bytes read_id_bytes)

section \<open>Messages about resources\<close>

lemma read_items_bytes:
  "length key = length val \<Longrightarrow> \<forall>n \<in> set key. good_name n \<Longrightarrow>
   \<exists>bs. items_bytes (zip key val) = Inr bs \<and> (\<forall>k v. read_items bs k v = Inr (k @ key, v @ val))"
proof (induction key val rule: list_induct2)
  case Nil
  then show ?case by (simp add: read_items.simps)
next
  case (Cons n key ID val)
  then obtain bs where bs: "items_bytes (zip key val) = Inr bs" "\<And>k v. read_items bs k v = Inr (k @ key, v @ val)"
    by auto
  then have "items_bytes (zip (n # key) (ID # val)) = Inr (n @ 0 # id_bytes ID @ bs)"
    using Cons.prems by (simp add: name_bytes_good)
  moreover have "read_items (n @ 0 # id_bytes ID @ bs) k v = Inr (k @ n # key, v @ ID # val)" for k v
    using bs(2) Cons.prems by (subst read_items.simps) (simp add: read_item_bytes)
  ultimately show ?case by auto
qed

lemma read_names_bytes:
  "\<forall>n \<in> set key. good_name n \<Longrightarrow> \<exists>bs. names_bytes key = Inr bs \<and> (\<forall>k. read_names bs k = Inr (k @ key))"
proof (induction key)
  case Nil
  then show ?case by (simp add: read_names.simps)
next
  case (Cons n key)
  then obtain bs where bs: "names_bytes key = Inr bs" "\<And>k. read_names bs k = Inr (k @ key)" by auto
  then have "names_bytes (n # key) = Inr (n @ 0 # bs)" using Cons.prems by (simp add: name_bytes_good)
  moreover have "read_names (n @ 0 # bs) k = Inr (k @ n # key)" for k
    using bs(2) Cons.prems by (subst read_names.simps) (simp add: read_name_bytes)
  ultimately show ?case by auto
qed

text \<open>A resource that can be written: as many names as numbers, and the names have characters and no zero.\<close>

definition writable :: "ResourceKey \<Rightarrow> ResourceValue \<Rightarrow> bool" where
  "writable key val \<longleftrightarrow> length key = length val \<and> (\<forall>n \<in> set key. good_name n)"

lemma present_message:
  assumes "writable key val"
  shows "\<exists>p. item_message COMPONENT_ITEM_PRESENT key val = Inr p \<and>
    (\<forall>a s. on_message_received p a s = onNewRemoteComponentItem key val a s)"
  using read_items_bytes [of key val] assms
  by (auto simp: writable_def item_message_def on_message_received_def packet_types)

lemma request_message:
  assumes "\<forall>n \<in> set key. good_name n"
  shows "\<exists>bs. names_bytes key = Inr bs \<and>
    (\<forall>a s. on_message_received (CONTAINED_VECHILES_REQUEST # bs) a s =
       send_all_present (RetrieveComponentItems key True s) s)"
  using read_names_bytes [OF assms] by (auto simp: on_message_received_def packet_types)

text \<open>
  C19: a message that says that a resource is present is read back as the key and the value it was written from, and
  so is a request for the resources that have certain names.
\<close>

theorem resource_messages_roundtrip:
  assumes "writable key val"
  shows "\<exists>p q. item_message COMPONENT_ITEM_PRESENT key val = Inr p \<and> names_bytes key = Inr q \<and>
    on_message_received p a s = onNewRemoteComponentItem key val a s \<and>
    on_message_received (CONTAINED_VECHILES_REQUEST # q) a s = send_all_present (RetrieveComponentItems key True s) s"
  using present_message [OF assms] request_message [of key] assms by (fastforce simp: writable_def)

lemma read_removed_Some:
  "read_removed msg key val = Some r \<Longrightarrow> msg \<noteq> [] \<longrightarrow> (\<exists>e. read_item (drop 1 msg) = Inl e \<and> r = Inl e)"
proof (erule read_removed.raw_induct
    [where P = "\<lambda>msg key val r. msg \<noteq> [] \<longrightarrow> (\<exists>e. read_item (drop 1 msg) = Inl e \<and> r = Inl e)", rotated])
  fix f :: "bytes \<Rightarrow> ResourceKey \<Rightarrow> ResourceValue \<Rightarrow> (cpp_error + ResourceKey \<times> ResourceValue) option" and msg key val r
  assume IH: "\<And>msg key val r. f msg key val = Some r \<Longrightarrow> msg \<noteq> [] \<longrightarrow> (\<exists>e. read_item (drop 1 msg) = Inl e \<and> r = Inl e)"
    and step: "(if 1 \<le> length msg
       then case read_item (drop 1 msg) of Inl e \<Rightarrow> Some (Inl e)
            | Inr ((name, ID), rest) \<Rightarrow> f msg (key @ [name]) (val @ [ID])
       else Some (Inr (key, val))) = Some r"
  show "msg \<noteq> [] \<longrightarrow> (\<exists>e. read_item (drop 1 msg) = Inl e \<and> r = Inl e)"
  proof
    assume msg: "msg \<noteq> []"
    show "\<exists>e. read_item (drop 1 msg) = Inl e \<and> r = Inl e"
    proof (cases "read_item (drop 1 msg)")
      case (Inl e)
      then show ?thesis using step msg by (simp add: Suc_le_eq)
    next
      case (Inr x)
      obtain name ID rest where x: "x = ((name, ID), rest)" by (metis prod.exhaust)
      have "f msg (key @ [name]) (val @ [ID]) = Some r" using step msg Inr x by (simp add: Suc_le_eq)
      then show ?thesis using IH msg by blast
    qed
  qed
qed

text \<open>
  C18: no message that says that a resource was removed is ever handled: the loop that reads it does not end, or it
  reads behind the end of the message. For a message that a node has sent it does not end.
\<close>

theorem removal_never_handled:
  "snd (on_message_received (REMOVE_COMPONENT_ITEM # rest) a s) \<in> {Inl Blocked, Inl Undefined_Behaviour} \<and>
   (writable key val \<and> key \<noteq> [] \<and> item_message REMOVE_COMPONENT_ITEM key val = Inr p \<longrightarrow>
      on_message_received p a s = (s, Inl Blocked))"
proof -
  have "snd (on_message_received (REMOVE_COMPONENT_ITEM # rest) a s) \<in> {Inl Blocked, Inl Undefined_Behaviour}"
  proof (cases "read_removed (REMOVE_COMPONENT_ITEM # rest) [] []")
    case (Some r)
    then obtain e where "read_item rest = Inl e" "r = Inl e" using read_removed_Some [OF Some] by auto
    moreover from this have "e = Undefined_Behaviour"
      by (auto simp: read_item_def read_name_def read_id_def Let_def split: sum.splits prod.splits if_splits)
    ultimately show ?thesis using Some by (simp add: on_message_received_def packet_types)
  qed (simp add: on_message_received_def packet_types)
  moreover have "on_message_received p a s = (s, Inl Blocked)"
    if key: "writable key val" "key \<noteq> []" and p: "item_message REMOVE_COMPONENT_ITEM key val = Inr p"
  proof -
    obtain n ns ID IDs where kv: "key = n # ns" "val = ID # IDs"
      using key by (cases key; cases val) (auto simp: writable_def)
    obtain bs where "p = REMOVE_COMPONENT_ITEM # n @ 0 # id_bytes ID @ bs"
      using key p kv by (auto simp: writable_def item_message_def name_bytes_good split: sum.splits)
    moreover from this have "read_removed p [] [] = None"
      using read_removed_Some [of p "[]" "[]"] key kv
      by (cases "read_removed p [] []") (auto simp: writable_def read_item_bytes)
    ultimately show ?thesis by (simp add: on_message_received_def packet_types)
  qed
  ultimately show ?thesis by blast
qed

section \<open>The buffer of a node\<close>

text \<open>Nothing that a node does looks at the buffer of its radio, so a node is a client of the stream.\<close>

lemma buffer_under:
  "s\<lparr>m_CurrBuf := b, m_PreviousFrame := p\<rparr> = s\<lparr>m_PreviousFrame := p, m_CurrBuf := b\<rparr>"
  "s\<lparr>m_CurrBuf := b, marshaled := ms\<rparr> = s\<lparr>marshaled := ms, m_CurrBuf := b\<rparr>"
  "s\<lparr>m_CurrBuf := b, written := ws\<rparr> = s\<lparr>written := ws, m_CurrBuf := b\<rparr>"
  by simp_all

lemma node_buffer_under:
  "s\<lparr>m_CurrBuf := b, m_Resources := r\<rparr> = s\<lparr>m_Resources := r, m_CurrBuf := b\<rparr>"
  "s\<lparr>m_CurrBuf := b, calls := c\<rparr> = s\<lparr>calls := c, m_CurrBuf := b\<rparr>"
  "s\<lparr>m_CurrBuf := b, m_NIMutex := u\<rparr> = s\<lparr>m_NIMutex := u, m_CurrBuf := b\<rparr>"
  by simp_all

lemmas buffer_unders = buffer_last buffer_under node_buffer_under

lemma reserve_ignores: "ignores_buffer reserve_next_frame_id"
  by (simp add: ignores_buffer_def reserve_next_frame_id_def set_inUse_def buffer_unders split: option.split)

lemma MarshalOnThread_ignores: "ignores_buffer (MarshalOnThread n b tx)"
  by (simp add: ignores_buffer_def MarshalOnThread_def run_function_def buffer_unders split: option.split)

lemma setFinish_buffer: "setFinishBehavior b n (s\<lparr>m_CurrBuf := x\<rparr>) = (setFinishBehavior b n s)\<lparr>m_CurrBuf := x\<rparr>"
  by (simp add: setFinishBehavior_def buffer_unders)

lemma construct_ignores: "ignores_buffer (construct_message data a b)"
  by (simp add: ignores_bufferD [OF reserve_ignores] ignores_bufferD [OF MarshalOnThread_ignores] ignores_buffer_def construct_message_def obind_def setFinish_buffer split: prod.split sum.split)

lemma SendMessage_ignores: "ignores_buffer (SendMessage data a cb)"
  by (simp add: ignores_bufferD [OF construct_ignores] ignores_buffer_def SendMessage_def new_behavior_def buffer_unders)

lemma AT_ignores: "ignores_buffer (AT_command_helper name b data)"
  by (simp add: ignores_bufferD [OF reserve_ignores] ignores_bufferD [OF MarshalOnThread_ignores] ignores_buffer_def AT_command_helper_def obind_def setFinish_buffer split: prod.split sum.split)

lemma SetAT_ignores: "ignores_buffer (SetATParameterAsync T name v cb)"
  by (simp add: ignores_bufferD [OF AT_ignores] ignores_buffer_def SetATParameterAsync_def new_behavior_def buffer_unders obind_def split: prod.split sum.split)

lemma Notify_buffer: "Notify call fs (s\<lparr>m_CurrBuf := b\<rparr>) = (Notify call fs s)\<lparr>m_CurrBuf := b\<rparr>"
  by (simp add: Notify_def buffer_unders)

lemma send_all_present_ignores: "ignores_buffer (send_all_present items)"
proof (induction items)
  case (Cons kv items)
  obtain k v where kv: "kv = (k, v)" by fastforce
  have "ignores_buffer (send_item_present_message k v)"
    by (simp add: ignores_buffer_def send_item_present_message_def send_packet_def ignores_bufferD [OF SendMessage_ignores] split: sum.split)
  then show ?case using Cons.IH ignores_buffer_obind [of "send_item_present_message k v" "\<lambda>s u. send_all_present items s"]
    by (simp add: kv)
qed simp

lemma onNew_ignores: "ignores_buffer (onNewRemoteComponentItem k v a)"
  by (simp add: ignores_buffer_def onNewRemoteComponentItem_def Let_def Notify_buffer buffer_unders
      split: prod.split sum.split option.split)

lemma onRemoved_buffer: "onRemovedRemoteComponentItem k v (s\<lparr>m_CurrBuf := b\<rparr>) = (onRemovedRemoteComponentItem k v s)\<lparr>m_CurrBuf := b\<rparr>"
  by (simp add: onRemovedRemoteComponentItem_def Let_def Notify_buffer buffer_unders split: option.split)

lemma on_message_received_ignores: "ignores_buffer (on_message_received msg a)"
  by (simp add: ignores_buffer_def on_message_received_def Notify_buffer onRemoved_buffer RetrieveComponentItems_def
      ignores_bufferD [OF onNew_ignores] ignores_bufferD [OF send_all_present_ignores]
      split: list.split sum.split option.split prod.split)

lemma node_return_ignores: "ignores_buffer (node_return cb xs)"
  by (simp add: ignores_buffer_def node_return_def Notify_buffer buffer_unders ignores_bufferD [OF SetAT_ignores]
      split: radio_callback.split list.split at_value.split option.split)

interpretation node: radio_client node_message node_return
proof
  show "ignores_buffer (node_message h m)" for h m
    using on_message_received_ignores by (simp add: ignores_buffer_def node_message_def)
qed (rule node_return_ignores)

section \<open>Instances\<close>

theorem resource_messages_roundtrip_witness:
  "item_message COMPONENT_ITEM_PRESENT [[0x56]] [7] = Inr [2, 0x56, 0, 0, 0, 0, 7] \<and>
   on_message_received [2, 0x56, 0, 0, 0, 0, 7] 1 (Interop_fields [] :: nat Interop) =
     onNewRemoteComponentItem [[0x56]] [7] 1 (Interop_fields [])"
proof -
  have "item_message COMPONENT_ITEM_PRESENT [[0x56]] [7] = Inr [2, 0x56, 0, 0, 0, 0, 7]" by code_simp
  moreover have "writable [[0x56]] [7]" by (simp add: writable_def good_name_def)
  ultimately show ?thesis using resource_messages_roundtrip [of "[[0x56]]" "[7]" 1 "Interop_fields [] :: nat Interop"] by auto
qed

theorem removal_never_handled_witness:
  "on_message_received [4, 0x56, 0, 0, 0, 0, 7] 1 (Interop_fields [] :: nat Interop) = (Interop_fields [], Inl Blocked)"
proof -
  have "item_message REMOVE_COMPONENT_ITEM [[0x56]] [7] = Inr [4, 0x56, 0, 0, 0, 0, 7]" by code_simp
  moreover have "writable [[0x56]] [7]" by (simp add: writable_def good_name_def)
  ultimately show ?thesis
    using removal_never_handled [of "[]" 1 "Interop_fields [] :: nat Interop" "[[0x56]]" "[7]" "[4, 0x56, 0, 0, 0, 0, 7]"]
    by simp
qed

end
