(* ===== verification/Digimesh_Discovery.thy ===== *)
theory Digimesh_Discovery
  imports Digimesh_Network
begin

text \<open>
  A network of nodes: whatever is added, sent, lost, repeated and reordered, a node that knows a resource knows the
  address of its owner, what is heard is handled without an exception, and data for a resource reaches its owner.
\<close>

section \<open>What a node does to its radio\<close>

text \<open>
  The radio of a node in which every request ends with the first answer, as all of this library do: every behaviour
  that a frame or the link refers to is there.
\<close>

definition calm :: "('cb, 'h, 'z) DigiMeshRadio_scheme \<Rightarrow> bool" where
  "calm s \<longleftrightarrow> length (m_CurrentFrames s) = 256 \<and> m_PreviousFrame s \<in> {0..255} \<and>
     (\<forall>n < 256. \<forall>b. framePersistance (m_CurrentFrames s ! n) = Some b \<longrightarrow> b < length (behaviors s)) \<and>
     (\<forall>b < length (behaviors s). persists (behaviors s ! b) = ShutdownFirstResponse) \<and>
     (\<forall>(n, b, tx) \<in> set (marshaled s). n < 256 \<and> b < length (behaviors s))"

text \<open>The frames that the node has written or that wait for the link.\<close>

definition txs :: "('cb, 'h, 'z) DigiMeshRadio_scheme \<Rightarrow> bytes set" where
  "txs s = set (written s) \<union> (\<lambda>(n, b, tx). tx) ` set (marshaled s)"

definition only_radio :: "('cb, 'h, 'z) DigiMeshRadio_scheme \<Rightarrow> ('cb, 'h, 'z) DigiMeshRadio_scheme \<Rightarrow> bool" where
  "only_radio s s' \<longleftrightarrow> (\<exists>f p bs ms ws. s' = s\<lparr>m_CurrentFrames := f, m_PreviousFrame := p, behaviors := bs,
     marshaled := ms, written := ws\<rparr>)"

lemma only_radioI [intro?]:
  "s' = s\<lparr>m_CurrentFrames := f, m_PreviousFrame := p, behaviors := bs, marshaled := ms, written := ws\<rparr> \<Longrightarrow> only_radio s s'"
  unfolding only_radio_def by blast

lemma only_radio_refl [simp]: "only_radio s s"
  by (rule only_radioI [where f = "m_CurrentFrames s" and p = "m_PreviousFrame s" and bs = "behaviors s" and ms = "marshaled s" and ws = "written s"]) simp

lemma only_radio_trans: "only_radio s s' \<Longrightarrow> only_radio s' s'' \<Longrightarrow> only_radio s s''"
  unfolding only_radio_def by force

lemma only_radio_same:
  "only_radio s s' \<Longrightarrow> m_CurrBuf s' = m_CurrBuf s \<and> m_MessageHandlers s' = m_MessageHandlers s \<and>
     onLinkThread s' = onLinkThread s \<and> DigiMeshRadio.more s' = DigiMeshRadio.more s"
  by (auto simp: only_radio_def)

lemma find_frame_range:
  "find_frame previous used k = Some n \<Longrightarrow> 0 \<le> k \<longrightarrow> n = - 1 \<or> 1 \<le> n \<and> n \<le> 255"
proof (erule find_frame.raw_induct
    [where P = "\<lambda>previous used k n. 0 \<le> k \<longrightarrow> n = - 1 \<or> 1 \<le> n \<and> n \<le> 255", rotated])
  fix f :: "int \<Rightarrow> (nat \<Rightarrow> bool) \<Rightarrow> int \<Rightarrow> int option" and previous used k n
  assume IH: "\<And>previous used k n. f previous used k = Some n \<Longrightarrow> 0 \<le> k \<longrightarrow> n = - 1 \<or> 1 \<le> n \<and> n \<le> 255"
    and step: "(let k = k + 1; k = if 255 < k then 1 else k
       in if k = previous then Some (- 1) else if used (nat k) then f previous used k else Some k) = Some n"
  show "0 \<le> k \<longrightarrow> n = - 1 \<or> 1 \<le> n \<and> n \<le> 255"
    using step IH [of previous used "if 255 < k + 1 then 1 else k + 1" n]
    by (auto simp: Let_def split: if_splits)
qed

lemma reserve_calm:
  assumes "calm s" "reserve_next_frame_id s = (s', r)"
  shows "calm s' \<and> only_radio s s' \<and> txs s' = txs s \<and> behaviors s' = behaviors s \<and>
    (r = Inl Blocked \<or> r = Inr (- 1) \<or> (\<exists>n. r = Inr (int n) \<and> n < 256))"
proof (cases "find_frame (m_PreviousFrame s) (\<lambda>n. inUse (m_CurrentFrames s ! n)) (m_PreviousFrame s)")
  case None
  then show ?thesis using assms by (simp add: reserve_next_frame_id_def)
next
  case (Some n)
  have n: "n = - 1 \<or> 1 \<le> n \<and> n \<le> 255" using find_frame_range [OF Some] assms(1) by (simp add: calm_def)
  show ?thesis
  proof (cases "n = - 1")
    case True
    then show ?thesis using assms Some by (simp add: reserve_next_frame_id_def)
  next
    case False
    then have k: "n = int (nat n)" "nat n < 256" using n by auto
    have s': "s' = (set_inUse (nat n) True s)\<lparr>m_PreviousFrame := n\<rparr>" "r = Inr n"
      using assms(2) Some False by (simp_all add: reserve_next_frame_id_def)
    have "framePersistance (m_CurrentFrames s' ! i) = framePersistance (m_CurrentFrames s ! i)" for i
      using k assms(1) by (simp add: s' set_inUse_def calm_def nth_list_update)
    then have "calm s'" using assms(1) n False by (simp add: calm_def) (simp add: s' set_inUse_def)
    moreover have "only_radio s s'"
      by (rule only_radioI [where f = "m_CurrentFrames s'" and p = n and bs = "behaviors s" and ms = "marshaled s" and ws = "written s"])
        (simp add: s' set_inUse_def)
    moreover have "txs s' = txs s" "behaviors s' = behaviors s" by (simp_all add: s' set_inUse_def txs_def)
    ultimately show ?thesis using s'(2) k by metis
  qed
qed

lemma run_function_calm:
  assumes "calm s" "n < 256" "b < length (behaviors s)"
  shows "\<exists>s'. run_function n b tx s = (s', Inr ()) \<and> calm s' \<and> only_radio s s' \<and> behaviors s' = behaviors s \<and>
    marshaled s' = marshaled s \<and> written s' = written s @ [tx]"
proof -
  let ?f = "(m_CurrentFrames s)[n := (m_CurrentFrames s ! n)\<lparr>framePersistance := Some b\<rparr>]"
  let ?s = "s\<lparr>m_CurrentFrames := ?f, written := written s @ [tx]\<rparr>"
  have "\<not> (case framePersistance (m_CurrentFrames s ! n) of None \<Rightarrow> False | Some old \<Rightarrow> ends_program (persists (behaviors s ! old)))"
    using assms(1,2) by (auto simp: calm_def ends_program_def split: option.split)
  then have "run_function n b tx s = (?s, Inr ())" by (simp add: run_function_def)
  moreover have "calm ?s" using assms by (auto simp: calm_def nth_list_update)
  moreover have "only_radio s ?s"
    by (rule only_radioI [where f = ?f and p = "m_PreviousFrame s" and bs = "behaviors s" and ms = "marshaled s" and ws = "written s @ [tx]"]) simp
  ultimately show ?thesis by (intro exI [of _ ?s]) simp
qed

lemma MarshalOnThread_calm:
  assumes "calm s" "n < 256" "b < length (behaviors s)"
  shows "\<exists>s'. MarshalOnThread n b tx s = (s', Inr ()) \<and> calm s' \<and> only_radio s s' \<and> txs s' = insert tx (txs s)"
proof (cases "onLinkThread s")
  case True
  then show ?thesis using run_function_calm [OF assms, of tx] by (auto simp: MarshalOnThread_def txs_def)
next
  case False
  let ?ms = "marshaled s @ [(n, b, tx)]"
  have "only_radio s (s\<lparr>marshaled := ?ms\<rparr>)"
    by (rule only_radioI [where f = "m_CurrentFrames s" and p = "m_PreviousFrame s" and bs = "behaviors s" and ms = ?ms and ws = "written s"]) simp
  moreover have "calm (s\<lparr>marshaled := ?ms\<rparr>)" using assms by (auto simp: calm_def)
  ultimately show ?thesis using False by (auto simp: MarshalOnThread_def txs_def)
qed

lemma setFinishBehavior_calm:
  assumes "calm s"
  shows "calm (setFinishBehavior b n s) \<and> only_radio s (setFinishBehavior b n s) \<and>
    txs (setFinishBehavior b n s) = txs s \<and> length (behaviors (setFinishBehavior b n s)) = length (behaviors s)"
proof -
  let ?bs = "(behaviors s)[b := (behaviors s ! b)\<lparr>doneFrame := Some n\<rparr>]"
  have "only_radio s (s\<lparr>behaviors := ?bs\<rparr>)"
    by (rule only_radioI [where f = "m_CurrentFrames s" and p = "m_PreviousFrame s" and bs = ?bs and ms = "marshaled s" and ws = "written s"]) simp
  moreover have "calm (s\<lparr>behaviors := ?bs\<rparr>)"
    using assms by (cases "b < length (behaviors s)") (auto simp: calm_def nth_list_update)
  ultimately show ?thesis by (simp add: setFinishBehavior_def txs_def)
qed

lemma new_behavior_calm:
  assumes "calm s" "new_behavior ShutdownFirstResponse cb s = (s', b)"
  shows "calm s' \<and> only_radio s s' \<and> txs s' = txs s \<and> b < length (behaviors s') \<and> callback (behaviors s' ! b) = cb"
proof -
  let ?bs = "behaviors s @ [\<lparr>persists = ShutdownFirstResponse, callback = cb, collected = [], doneFrame = None\<rparr>]"
  have s': "s' = s\<lparr>behaviors := ?bs\<rparr>" "b = length (behaviors s)" using assms(2) by (auto simp: new_behavior_def)
  have "only_radio s s'" unfolding s'
    by (rule only_radioI [where f = "m_CurrentFrames s" and p = "m_PreviousFrame s" and bs = ?bs and ms = "marshaled s" and ws = "written s"]) simp
  moreover have "calm s'" using assms(1) by (auto simp: calm_def s' nth_append less_Suc_eq)
  ultimately show ?thesis by (simp add: s' txs_def)
qed

text \<open>Sending posts one frame, or is refused and posts none; without a callback it is never refused.\<close>

lemma SendMessage_calm:
  assumes "calm s"
  shows "\<exists>s' r. SendMessage data a cb s = (s', r) \<and> calm s' \<and> only_radio s s' \<and>
    ((r = Inr () \<and> (\<exists>n < 256. txs s' = insert (with_checksum (message_bytes n a data)) (txs s))) \<or>
     (r \<in> {Inl no_frame, Inl Blocked} \<and> txs s' = txs s \<and> cb \<noteq> None))"
proof -
  obtain s1 b where new: "new_behavior ShutdownFirstResponse (map_option (Pair AT_TransmitStatus) cb) s = (s1, b)"
    by fastforce
  note s1 = new_behavior_calm [OF assms new]
  have send: "SendMessage data a cb s = construct_message data a b s1" by (simp add: SendMessage_def new)
  have post: "\<exists>s'. MarshalOnThread n b tx (setFinishBehavior b n s2) = (s', Inr ()) \<and> calm s' \<and> only_radio s s' \<and>
      txs s' = insert tx (txs s)"
    if prem: "calm s2" "only_radio s s2" "txs s2 = txs s" "b < length (behaviors s2)" "n < 256" for s2 n tx
  proof -
    let ?s = "setFinishBehavior b n s2"
    have fin: "calm ?s" "only_radio s2 ?s" "txs ?s = txs s2" "b < length (behaviors ?s)"
      using setFinishBehavior_calm [OF prem(1), of b n] prem(4) by simp_all
    obtain s' where s': "MarshalOnThread n b tx ?s = (s', Inr ())" "calm s'" "only_radio ?s s'" "txs s' = insert tx (txs ?s)"
      using MarshalOnThread_calm [OF fin(1) prem(5) fin(4), of tx] by blast
    have "only_radio s s'" using prem(2) fin(2) s'(3) only_radio_trans by blast
    then show ?thesis using s' fin(3) prem(3) by simp
  qed
  show ?thesis
  proof (cases cb)
    case None
    then have "construct_message data a b s1 =
        MarshalOnThread 0 b (with_checksum (message_bytes 0 a data)) (setFinishBehavior b 0 s1)"
      using s1 by (simp add: construct_message_def)
    moreover obtain s' where "MarshalOnThread 0 b (with_checksum (message_bytes 0 a data)) (setFinishBehavior b 0 s1) = (s', Inr ())"
        "calm s'" "only_radio s s'" "txs s' = insert (with_checksum (message_bytes 0 a data)) (txs s)"
      using post [of s1 0 "with_checksum (message_bytes 0 a data)"] s1 by auto
    ultimately show ?thesis
      unfolding send by (intro exI [of _ s'] exI [of _ "Inr ()"]) (simp, metis zero_less_numeral)
  next
    case (Some c)
    obtain s2 r where r: "reserve_next_frame_id s1 = (s2, r)" by fastforce
    have res: "calm s2 \<and> only_radio s1 s2 \<and> txs s2 = txs s1 \<and> behaviors s2 = behaviors s1 \<and>
        (r = Inl Blocked \<or> r = Inr (- 1) \<or> (\<exists>n. r = Inr (int n) \<and> n < 256))"
      using reserve_calm [OF _ r] s1 by blast
    have s2: "only_radio s s2" "txs s2 = txs s" using res s1 only_radio_trans by (blast, simp)
    from res consider "r = Inl Blocked" | "r = Inr (- 1)" | n where "r = Inr (int n)" "n < 256" by blast
    then show ?thesis
    proof cases
      case 1
      then show ?thesis using send s1 Some r res s2 by (auto simp: construct_message_def)
    next
      case 2
      then show ?thesis using send s1 Some r res s2 by (auto simp: construct_message_def)
    next
      case (3 n)
      then have "construct_message data a b s1 =
          MarshalOnThread n b (with_checksum (message_bytes n a data)) (setFinishBehavior b n s2)"
        using s1 Some r by (simp add: construct_message_def)
      moreover obtain s' where "MarshalOnThread n b (with_checksum (message_bytes n a data)) (setFinishBehavior b n s2) = (s', Inr ())"
          "calm s'" "only_radio s s'" "txs s' = insert (with_checksum (message_bytes n a data)) (txs s)"
        using post [of s2 n "with_checksum (message_bytes n a data)"] s1 s2 res 3(2) by auto
      ultimately show ?thesis
        unfolding send using 3(2) by (intro exI [of _ s'] exI [of _ "Inr ()"]) (simp, blast)
    qed
  qed
qed

text \<open>A parameter of the radio is set by a frame of commands.\<close>

lemma SetATParameterAsync_calm:
  assumes "calm s" "name \<noteq> []"
  shows "\<exists>s' r. SetATParameterAsync T name v cb s = (s', r) \<and> calm s' \<and> only_radio s s' \<and>
    (\<exists>txs'. txs s' = txs' \<union> txs s \<and> (\<forall>tx \<in> txs'. \<exists>n. tx = with_checksum (command_bytes n name v)))"
proof -
  obtain s1 b where new: "new_behavior ShutdownFirstResponse (Some (T, cb)) s = (s1, b)"
    by fastforce
  note s1 = new_behavior_calm [OF assms(1) new]
  obtain s2 r where r: "reserve_next_frame_id s1 = (s2, r)" by fastforce
  have res: "calm s2 \<and> only_radio s1 s2 \<and> txs s2 = txs s1 \<and> behaviors s2 = behaviors s1 \<and>
      (r = Inl Blocked \<or> r = Inr (- 1) \<or> (\<exists>n. r = Inr (int n) \<and> n < 256))"
    using reserve_calm [OF _ r] s1 by blast
  have s2: "only_radio s s2" "txs s2 = txs s" using res s1 only_radio_trans by (blast, simp)
  show ?thesis
  proof (cases "\<exists>n. r = Inr (int n) \<and> n < 256")
    case False
    then have "SetATParameterAsync T name v cb s = (s2, Inl Blocked) \<or> SetATParameterAsync T name v cb s = (s2, Inl no_frame)"
      using res r by (auto simp: SetATParameterAsync_def new AT_command_helper_def)
    then show ?thesis using res s2 by force
  next
    case True
    then obtain n where n: "r = Inr (int n)" "n < 256" by blast
    let ?s = "setFinishBehavior b n s2" and ?tx = "with_checksum (command_bytes n name v)"
    have fin: "calm ?s" "only_radio s2 ?s" "txs ?s = txs s2" "b < length (behaviors ?s)"
      using setFinishBehavior_calm [of s2 b n] res s1 by simp_all
    obtain s' where s': "MarshalOnThread n b ?tx ?s = (s', Inr ())" "calm s'" "only_radio ?s s'" "txs s' = insert ?tx (txs ?s)"
      using MarshalOnThread_calm [OF fin(1) n(2) fin(4), of ?tx] by blast
    have "SetATParameterAsync T name v cb s = (s', Inr ())"
      using r n s'(1) assms(2) by (simp add: SetATParameterAsync_def new AT_command_helper_def)
    moreover have "only_radio s s'" using s2(1) fin(2) s'(3) only_radio_trans by blast
    moreover have "txs s' = {?tx} \<union> txs s" using s'(4) fin(3) s2(2) by simp
    ultimately show ?thesis using s'(2) by blast
  qed
qed

section \<open>What a node knows\<close>

text \<open>A list of resources is a finite map from keys and values to addresses.\<close>

definition resources_ok :: "ResourceList \<Rightarrow> bool" where
  "resources_ok r \<longleftrightarrow> um_ok (m_ResourcesToRadioAddr r) \<and> (\<forall>(k, vs) \<in> set (m_ResourcesToRadioAddr r). um_ok vs) \<and>
     dom (map_of (m_InternalResources r)) = dom (map_of (m_ResourcesToRadioAddr r))"

lemma resources_ok_new [simp]: "resources_ok ResourceList_new"
  by (simp add: resources_ok_def ResourceList_new_def)

lemma addr_of_new [simp]: "addr_of ResourceList_new k v = None"
  by (simp add: addr_of_def ResourceList_new_def)

lemma um_insert_absent: "map_of m k = None \<Longrightarrow> set (um_insert k v m) = insert (k, v) (set m)"
  by (auto simp: um_insert_def)

lemma ensure_key_ok:
  assumes "resources_ok r"
  shows "resources_ok (ensure_key key r) \<and> addr_of (ensure_key key r) = addr_of r \<and>
    map_of (m_ResourcesToRadioAddr (ensure_key key r)) key \<noteq> None \<and>
    map_of (m_InternalResources (ensure_key key r)) key \<noteq> None"
proof (cases "map_of (m_ResourcesToRadioAddr r) key")
  case None
  moreover from this have "map_of (m_InternalResources r) key = None"
    using assms by (auto simp: resources_ok_def)
  ultimately show ?thesis
    using assms by (auto simp: ensure_key_def resources_ok_def addr_of_def um_insert_absent fun_eq_iff)
next
  case (Some vs)
  then have "map_of (m_InternalResources r) key \<noteq> None" using assms by (auto simp: resources_ok_def)
  then show ?thesis using Some assms by (simp add: ensure_key_def)
qed

lemma put_addr_ok:
  assumes "resources_ok r" "map_of (m_ResourcesToRadioAddr r) key \<noteq> None" "addr_of r key val = None"
  shows "resources_ok (put_addr key val a r) \<and> m_InternalResources (put_addr key val a r) = m_InternalResources r \<and>
    addr_of (put_addr key val a r) = (\<lambda>k v. if k = key \<and> v = val then Some a else addr_of r k v)"
proof -
  obtain vs where vs: "map_of (m_ResourcesToRadioAddr r) key = Some vs" using assms(2) by blast
  have ok: "um_ok (m_ResourcesToRadioAddr r)" "um_ok vs"
    using assms(1) map_of_SomeD [OF vs] by (auto simp: resources_ok_def)
  have "resources_ok (put_addr key val a r)"
    using assms(1) vs ok set_um_put [of key "um_insert val a vs" "m_ResourcesToRadioAddr r"]
    by (auto simp: put_addr_def resources_ok_def)
  moreover have "addr_of (put_addr key val a r) = (\<lambda>k v. if k = key \<and> v = val then Some a else addr_of r k v)"
    using vs assms(3) by (auto simp: put_addr_def addr_of_def fun_eq_iff)
  ultimately show ?thesis by (simp add: put_addr_def vs)
qed

lemma erase_addr_ok:
  assumes "resources_ok r"
  shows "resources_ok (erase_addr key val r) \<and> m_InternalResources (erase_addr key val r) = m_InternalResources r \<and>
    addr_of (erase_addr key val r) = (\<lambda>k v. if k = key \<and> v = val then None else addr_of r k v)"
proof (cases "map_of (m_ResourcesToRadioAddr r) key")
  case None
  then show ?thesis using assms by (auto simp: erase_addr_def addr_of_def fun_eq_iff)
next
  case vs: (Some vs)
  have ok: "um_ok (m_ResourcesToRadioAddr r)" "um_ok vs"
    using assms(1) map_of_SomeD [OF vs] by (auto simp: resources_ok_def)
  have "resources_ok (erase_addr key val r)"
    using assms(1) vs ok set_um_put [of key "um_erase val vs" "m_ResourcesToRadioAddr r"]
    by (auto simp: erase_addr_def resources_ok_def)
  moreover have "addr_of (erase_addr key val r) = (\<lambda>k v. if k = key \<and> v = val then None else addr_of r k v)"
    using vs by (auto simp: erase_addr_def addr_of_def fun_eq_iff)
  ultimately show ?thesis by (simp add: erase_addr_def vs)
qed

lemma AddInternalResource_ok:
  assumes "resources_ok r"
  shows "\<exists>r'. resources_ok r' \<and>
    (if addr_of r key val \<noteq> None
     then AddInternalResource key val r = (r', Inl (Runtime_Error ''Resource of given ID already exists'')) \<and> addr_of r' = addr_of r
     else AddInternalResource key val r = (r', Inr ()) \<and>
       addr_of r' = (\<lambda>k v. if k = key \<and> v = val then Some 0 else addr_of r k v))"
proof (cases "addr_of r key val")
  case (Some a)
  then show ?thesis using ensure_key_ok [OF assms, of key] by (auto simp: AddInternalResource_def Let_def)
next
  case None
  let ?r = "put_addr key val 0 (ensure_key key r)"
  have r: "resources_ok ?r" "m_InternalResources ?r = m_InternalResources (ensure_key key r)"
      "addr_of ?r = (\<lambda>k v. if k = key \<and> v = val then Some 0 else addr_of r k v)"
    using put_addr_ok [of "ensure_key key r" key val 0] ensure_key_ok [OF assms, of key] None by (simp_all cong: if_cong)
  obtain vs where vs: "map_of (m_InternalResources ?r) key = Some vs" using ensure_key_ok [OF assms, of key] r(2) by auto
  let ?r' = "?r\<lparr>m_InternalResources := um_put key (vs @ [val]) (m_InternalResources ?r)\<rparr>"
  have "AddInternalResource key val r = (?r', Inr ())"
    using None ensure_key_ok [OF assms, of key] vs by (simp add: AddInternalResource_def Let_def)
  moreover have "resources_ok ?r'" using r(1) vs by (auto simp: resources_ok_def)
  moreover have "addr_of ?r' = addr_of ?r" by (simp add: addr_of_def fun_eq_iff)
  ultimately show ?thesis using None r(3) by auto
qed

lemma AddExternalResource_ok:
  assumes "resources_ok r"
  shows "\<exists>r'. resources_ok r' \<and> (case addr_of r key val of
      Some a' \<Rightarrow> addr_of r' = addr_of r \<and> AddExternalResource key val a r = (r',
        if a' \<noteq> 0 \<and> a' \<noteq> a then Inl (Runtime_Error ''Given Resource has already been added with a different address'')
        else Inr False)
    | None \<Rightarrow> AddExternalResource key val a r = (r', Inr True) \<and>
        addr_of r' = (\<lambda>k v. if k = key \<and> v = val then Some a else addr_of r k v))"
proof (cases "addr_of r key val")
  case None
  then show ?thesis
    using ensure_key_ok [OF assms, of key] put_addr_ok [of "ensure_key key r" key val a]
    by (intro exI [of _ "put_addr key val a (ensure_key key r)"]) (simp add: AddExternalResource_def Let_def cong: if_cong)
next
  case (Some a')
  then show ?thesis
    using ensure_key_ok [OF assms, of key]
    by (intro exI [of _ "ensure_key key r"]) (simp add: AddExternalResource_def Let_def)
qed

lemma getResourcesMatch_internal:
  assumes "resources_ok r" "(k, v) \<in> set (getResourcesMatch key True r)"
  shows "addr_of r k v = Some 0"
proof -
  obtain vs where "(k, vs) \<in> set (m_ResourcesToRadioAddr r)" "(v, 0) \<in> set vs"
    using assms(2) by (auto simp: getResourcesMatch_def split: if_splits)
  moreover from this have "um_ok vs" "um_ok (m_ResourcesToRadioAddr r)" using assms(1) by (auto simp: resources_ok_def)
  ultimately show ?thesis by (simp add: addr_of_def um_ok_def map_of_is_SomeI)
qed

section \<open>What a node sends\<close>

lemma frame_inj: "piece_bytes (Packet p) = piece_bytes (Packet q) \<Longrightarrow> p = q"
  by (simp add: frame_def)

lemma message_frame_inj:
  assumes "with_checksum (message_bytes n a d) = with_checksum (message_bytes n' a' d')"
  shows "a = a' \<and> d = d'"
proof -
  have "request_packet n a d = request_packet n' a' d'"
    using assms frame_inj unfolding message_bytes_frame by blast
  then have "addr_bytes a @ [0xFF, 0xFE, 0, 0] @ d = addr_bytes a' @ [0xFF, 0xFE, 0, 0] @ d'"
    by (simp add: request_packet_def)
  then have "addr_bytes a = addr_bytes a'" "d = d'" by (simp_all add: append_eq_append_conv)
  then show ?thesis using be64_addr_bytes [of a "[]"] be64_addr_bytes [of a' "[]"] by simp
qed

lemma command_frame_differs: "with_checksum (command_bytes n name v) \<noteq> with_checksum (message_bytes n' a d)"
proof
  assume "with_checksum (command_bytes n name v) = with_checksum (message_bytes n' a d)"
  then have "command_packet n name v = request_packet n' a d"
    using frame_inj unfolding message_bytes_frame command_bytes_frame by blast
  then show False by (simp add: command_packet_def request_packet_def frame_types)
qed

text \<open>
  Every resource has an owner. What the node \<open>i\<close> may say: data, a request, and that a resource of its own is
  present.
\<close>

type_synonym owners = "ResourceKey \<Rightarrow> ResourceValue \<Rightarrow> nat"

definition said :: "owners \<Rightarrow> nat \<Rightarrow> bytes \<Rightarrow> bool" where
  "said own i d \<longleftrightarrow> (\<exists>x. d = PACKET_DATA # x) \<or>
     (\<exists>key bs. (\<forall>n \<in> set key. good_name n) \<and> names_bytes key = Inr bs \<and> d = CONTAINED_VECHILES_REQUEST # bs) \<or>
     (\<exists>key val. writable key val \<and> own key val = i \<and> item_message COMPONENT_ITEM_PRESENT key val = Inr d)"

definition tx_ok :: "owners \<Rightarrow> nat \<Rightarrow> bytes \<Rightarrow> bool" where
  "tx_ok own i tx \<longleftrightarrow> (\<forall>n a d. tx = with_checksum (message_bytes n a d) \<longrightarrow> said own i d)"

lemma tx_ok_message: "said own i d \<Longrightarrow> tx_ok own i (with_checksum (message_bytes n a d))"
  using message_frame_inj unfolding tx_ok_def by blast

lemma tx_ok_command: "tx_ok own i (with_checksum (command_bytes n name v))"
  using command_frame_differs unfolding tx_ok_def by blast

text \<open>What the node \<open>i\<close> knows: its own resources, at the address 0, and those of others at their owners' addresses.\<close>

definition knows_owners :: "(nat \<Rightarrow> u64) \<Rightarrow> owners \<Rightarrow> nat \<Rightarrow> ResourceList \<Rightarrow> bool" where
  "knows_owners A own i r \<longleftrightarrow> (\<forall>k v a. addr_of r k v = Some a \<longrightarrow>
     (if a = 0 then own k v = i \<and> writable k v else own k v \<noteq> i \<and> a = A (own k v)))"

definition node_ok :: "(nat \<Rightarrow> u64) \<Rightarrow> owners \<Rightarrow> nat \<Rightarrow> 'f Interop \<Rightarrow> bool" where
  "node_ok A own i s \<longleftrightarrow> calm s \<and> resources_ok (m_Resources s) \<and> knows_owners A own i (m_Resources s) \<and>
     (\<forall>tx \<in> txs s. tx_ok own i tx) \<and> m_MessageHandlers s = [On_message_received] \<and> START_BYTE \<notin> set (m_CurrBuf s)"

lemma node_ok_radio:
  assumes "node_ok A own i s" "only_radio s s'" "calm s'" "\<forall>tx \<in> txs s'. tx_ok own i tx"
  shows "node_ok A own i s' \<and> m_Resources s' = m_Resources s \<and> calls s' = calls s"
  using assms by (auto simp: node_ok_def only_radio_def)

lemma node_ok_unused [simp]:
  "node_ok A own i (s\<lparr>calls := x\<rparr>) = node_ok A own i s"
  "node_ok A own i (s\<lparr>m_NIMutex := b\<rparr>) = node_ok A own i s"
  "node_ok A own i (s\<lparr>onLinkThread := b\<rparr>) = node_ok A own i s"
  by (simp_all add: node_ok_def calm_def txs_def)

lemma node_ok_Notify [simp]: "node_ok A own i (Notify call fs s) = node_ok A own i s"
  by (simp add: Notify_def)

lemma node_ok_buffer: "node_ok A own i s \<Longrightarrow> START_BYTE \<notin> set b \<Longrightarrow> node_ok A own i (s\<lparr>m_CurrBuf := b\<rparr>)"
  by (simp add: node_ok_def calm_def txs_def)

lemma node_ok_resources:
  "node_ok A own i s \<Longrightarrow> resources_ok r \<Longrightarrow> knows_owners A own i r \<Longrightarrow> node_ok A own i (s\<lparr>m_Resources := r\<rparr>)"
  by (simp add: node_ok_def calm_def txs_def)

lemma SendMessage_node:
  assumes "node_ok A own i s" "said own i d"
  shows "\<exists>s' r. SendMessage d a cb s = (s', r) \<and> node_ok A own i s' \<and> m_Resources s' = m_Resources s \<and> calls s' = calls s \<and>
    (r = Inr () \<longrightarrow> (\<exists>n < 256. with_checksum (message_bytes n a d) \<in> txs s')) \<and>
    (r \<noteq> Inr () \<longrightarrow> r \<in> {Inl no_frame, Inl Blocked} \<and> cb \<noteq> None)"
proof -
  have calm: "calm s" and txs: "\<forall>tx \<in> txs s. tx_ok own i tx" using assms(1) by (auto simp: node_ok_def)
  obtain s' r where s': "SendMessage d a cb s = (s', r)" "calm s'" "only_radio s s'"
      "(r = Inr () \<and> (\<exists>n < 256. txs s' = insert (with_checksum (message_bytes n a d)) (txs s))) \<or>
       (r \<in> {Inl no_frame, Inl Blocked} \<and> txs s' = txs s \<and> cb \<noteq> None)"
    using SendMessage_calm [OF calm, of d a cb] by blast
  have "\<forall>tx \<in> txs s'. tx_ok own i tx" using s'(4) txs tx_ok_message [OF assms(2)] by auto
  then show ?thesis using node_ok_radio [OF assms(1) s'(3,2)] s'(1,4) by (intro exI [of _ s'] exI [of _ r]) auto
qed

lemma send_all_present_node:
  "node_ok A own i s \<Longrightarrow> \<forall>(k, v) \<in> set items. own k v = i \<and> writable k v \<Longrightarrow>
   \<exists>s'. send_all_present items s = (s', Inr ()) \<and> node_ok A own i s'"
proof (induction items arbitrary: s)
  case (Cons kv items)
  obtain k v where kv: "kv = (k, v)" by fastforce
  then obtain p where p: "item_message COMPONENT_ITEM_PRESENT k v = Inr p"
    using present_message [of k v] Cons.prems by auto
  have "said own i p" using p kv Cons.prems unfolding said_def by auto
  then obtain s1 where "SendMessage p BROADCAST_ADDRESS None s = (s1, Inr ())" "node_ok A own i s1"
    using SendMessage_node [OF Cons.prems(1), of p BROADCAST_ADDRESS None] by force
  then show ?case
    using Cons.IH [of s1] Cons.prems(2) by (simp add: kv send_item_present_message_def send_packet_def p)
qed simp

section \<open>What a node hears\<close>

lemma onNewRemoteComponentItem_node:
  assumes ok: "node_ok A own j s" and i: "own k v = i" "i \<noteq> j" "A i \<noteq> 0"
  shows "\<exists>s'. onNewRemoteComponentItem k v (A i) s = (s', Inr ()) \<and> node_ok A own j s' \<and>
    addr_of (m_Resources s') k v = Some (A i)"
proof -
  have r: "resources_ok (m_Resources s)" "knows_owners A own j (m_Resources s)" using ok by (auto simp: node_ok_def)
  obtain r' where r': "resources_ok r'" "case addr_of (m_Resources s) k v of
      Some a' \<Rightarrow> addr_of r' = addr_of (m_Resources s) \<and> AddExternalResource k v (A i) (m_Resources s) = (r',
        if a' \<noteq> 0 \<and> a' \<noteq> A i then Inl (Runtime_Error ''Given Resource has already been added with a different address'')
        else Inr False)
    | None \<Rightarrow> AddExternalResource k v (A i) (m_Resources s) = (r', Inr True) \<and>
        addr_of r' = (\<lambda>k' v'. if k' = k \<and> v' = v then Some (A i) else addr_of (m_Resources s) k' v')"
    using AddExternalResource_ok [OF r(1), of k v "A i"] by blast
  show ?thesis
  proof (cases "addr_of (m_Resources s) k v")
    case None
    have "knows_owners A own j r'" using r(2) r'(2) None i by (auto simp: knows_owners_def)
    then have "node_ok A own j (s\<lparr>m_Resources := r'\<rparr>)" using node_ok_resources [OF ok r'(1)] by simp
    then show ?thesis
      using r'(2) None by (auto simp: onNewRemoteComponentItem_def Let_def Notify_def split: option.split)
  next
    case (Some a)
    have a: "a = A i" using r(2) Some i by (auto simp: knows_owners_def split: if_splits)
    have "knows_owners A own j r'" using r(2) r'(2) Some by (simp add: knows_owners_def)
    then have "node_ok A own j (s\<lparr>m_Resources := r'\<rparr>)" using node_ok_resources [OF ok r'(1)] by simp
    then show ?thesis using r'(2) Some a by (simp add: onNewRemoteComponentItem_def)
  qed
qed

lemma on_message_received_node:
  assumes ok: "node_ok A own j s" and d: "said own i d" and i: "i \<noteq> j" "A i \<noteq> 0"
  shows "\<exists>s'. on_message_received d (A i) s = (s', Inr ()) \<and> node_ok A own j s'"
  using d unfolding said_def
proof (elim disjE exE conjE)
  fix x assume "d = PACKET_DATA # x"
  then show ?thesis using ok by (simp add: on_message_received_def)
next
  fix key bs assume key: "\<forall>n \<in> set key. good_name n" and bs: "names_bytes key = Inr bs"
    and d: "d = CONTAINED_VECHILES_REQUEST # bs"
  have "\<forall>(k, v) \<in> set (RetrieveComponentItems key True s). own k v = j \<and> writable k v"
    using ok getResourcesMatch_internal [of "m_Resources s"]
    by (fastforce simp: RetrieveComponentItems_def node_ok_def knows_owners_def)
  moreover have "on_message_received d (A i) s = send_all_present (RetrieveComponentItems key True s) s"
    using request_message [OF key] bs unfolding d by auto
  ultimately show ?thesis using send_all_present_node [OF ok] by simp
next
  fix key val assume kv: "writable key val" "own key val = i" "item_message COMPONENT_ITEM_PRESENT key val = Inr d"
  have "on_message_received d (A i) s = onNewRemoteComponentItem key val (A i) s"
    using present_message [OF kv(1)] kv(3) by auto
  then show ?thesis using onNewRemoteComponentItem_node [OF ok kv(2) i] by auto
qed

lemma hear_frame:
  assumes "START_BYTE \<notin> set (m_CurrBuf s)" "length p + 4 < 2 ^ 16"
  shows "hear_bytes (piece_bytes (Packet p)) s =
    (case handle_packet node_message node_return p (s\<lparr>onLinkThread := True\<rparr>) of
       (s', r) \<Rightarrow> (s'\<lparr>m_CurrBuf := [], onLinkThread := False\<rparr>, r))"
proof -
  let ?h = "handle_packet node_message node_return" and ?s = "s\<lparr>onLinkThread := True\<rparr>"
  have frame: "length (frame p c) \<ge> 3" "frame p c \<noteq> []" for c by (simp_all add: frame_def)
  have "receive_loop ?h (m_CurrBuf s @ frame p (0xff - sum_list p)) ?s =
      (case ?h p ?s of (s', Inl e) \<Rightarrow> (([], s'), Inl e) | (s', Inr u) \<Rightarrow> (([], s'), Inr ()))"
    using receive_loop_frame [OF assms(2), of ?h "0xff - sum_list p" "[]" ?s]
    by (simp add: receive_loop_noise [OF assms(1) frame(1)])
  then show ?thesis
    by (auto simp: hear_bytes_def readBytes_def ReceiveData_def frame(2) split: prod.split sum.split)
qed

lemma handle_receive_packet_node:
  "m_MessageHandlers s = [On_message_received] \<Longrightarrow>
   handle_packet node_message node_return (receive_packet a options d) s = on_message_received d a s"
proof -
  assume h: "m_MessageHandlers s = [On_message_received]"
  have "handle_packet node_message node_return (receive_packet a options d) s =
      handle_receive_packet node_message (receive_packet a options d) False s"
    by (simp add: handle_packet_def receive_packet_def frame_types)
  then show ?thesis
    by (cases "on_message_received d a s")
      (simp add: handle_receive_packet_def Message_receive_packet h node_message_def message_of_def obind_def split: sum.split)
qed

text \<open>A message of the node \<open>i\<close> to all or to the node \<open>j\<close>, as the modem of \<open>j\<close> hands it on.\<close>

definition hear_message :: "u64 \<Rightarrow> u8 \<Rightarrow> bytes \<Rightarrow> 'f Interop \<Rightarrow> ('f, unit) node_outcome" where
  "hear_message a options d s = hear_bytes (piece_bytes (Packet (receive_packet a options d))) s"

lemma hear_message_eq:
  assumes "node_ok A own j s" "length d + 16 < 2 ^ 16"
  shows "hear_message a options d s =
    (case on_message_received d a (s\<lparr>onLinkThread := True\<rparr>) of (s', r) \<Rightarrow> (s'\<lparr>m_CurrBuf := [], onLinkThread := False\<rparr>, r))"
proof -
  have "length (receive_packet a options d) = length d + 12" by (simp add: receive_packet_def)
  then show ?thesis
    using assms hear_frame [of s "receive_packet a options d"]
      handle_receive_packet_node [of "s\<lparr>onLinkThread := True\<rparr>" a options d]
    by (simp add: hear_message_def node_ok_def)
qed

lemma hear_message_node:
  assumes "node_ok A own j s" "said own i d" "i \<noteq> j" "A i \<noteq> 0" "length d + 16 < 2 ^ 16"
  shows "\<exists>s'. hear_message (A i) options d s = (s', Inr ()) \<and> node_ok A own j s'"
proof -
  have "node_ok A own j (s\<lparr>onLinkThread := True\<rparr>)" using assms(1) by simp
  then obtain s' where "on_message_received d (A i) (s\<lparr>onLinkThread := True\<rparr>) = (s', Inr ())" "node_ok A own j s'"
    using on_message_received_node assms(2-4) by blast
  then show ?thesis using hear_message_eq [OF assms(1,5), of "A i" options] by (simp add: node_ok_buffer)
qed

section \<open>Answers of the modem\<close>

lemma SetATParameterAsync_node:
  assumes ok: "node_ok A own i s" and name: "name \<noteq> []"
  shows "node_ok A own i (fst (SetATParameterAsync T name v cb s))"
proof -
  have calm: "calm s" and txs: "\<forall>tx \<in> txs s. tx_ok own i tx" using ok by (auto simp: node_ok_def)
  obtain s' r txs' where s': "SetATParameterAsync T name v cb s = (s', r)" "calm s'" "only_radio s s'"
      "txs s' = txs' \<union> txs s" "\<forall>tx \<in> txs'. \<exists>n. tx = with_checksum (command_bytes n name v)"
    using SetATParameterAsync_calm [OF calm name, of T v cb] by blast
  have "tx_ok own i tx" if tx: "tx \<in> txs s'" for tx
  proof (cases "tx \<in> txs'")
    case True
    then obtain n where "tx = with_checksum (command_bytes n name v)" using s'(5) by blast
    then show ?thesis by (simp add: tx_ok_command)
  next
    case False
    then show ?thesis using tx s'(4) txs by blast
  qed
  then show ?thesis using node_ok_radio [OF ok s'(3,2)] s'(1) by simp
qed

lemma node_return_node: "node_ok A own i s \<Longrightarrow> node_ok A own i (fst (node_return cb xs s))"
  using SetATParameterAsync_node [of A own i s "[0x4e, 0x49]"]
  by (cases cb) (auto simp: node_return_def split: list.split at_value.split option.split)

lemma node_ok_behaviors:
  assumes "node_ok A own i s" "persists x = persists (behaviors s ! b)"
  shows "node_ok A own i (s\<lparr>behaviors := (behaviors s)[b := x]\<rparr>)"
  using assms by (cases "b < length (behaviors s)") (auto simp: node_ok_def calm_def txs_def nth_list_update)

lemma set_inUse_node: "node_ok A own i s \<Longrightarrow> node_ok A own i (set_inUse n u s)"
  by (cases "n < 256") (auto simp: node_ok_def calm_def txs_def set_inUse_def nth_list_update)

lemma SendAndFinish_node:
  assumes "node_ok A own i s"
  shows "node_ok A own i (fst (SendAndFinish node_return b s))"
proof -
  let ?s = "case doneFrame (behaviors s ! b) of None \<Rightarrow> s | Some n \<Rightarrow> set_inUse n False s"
  have s: "node_ok A own i ?s" using assms set_inUse_node by (auto split: option.split)
  have "node_ok A own i (fst (obind (node_return cb xs ?s) (\<lambda>s u.
      (s\<lparr>behaviors := (behaviors s)[b := (behaviors s ! b)\<lparr>callback := None\<rparr>]\<rparr>, Inr ()))))" for cb xs
    using node_return_node [OF s, of cb xs]
    by (auto simp: obind_def node_ok_behaviors split: prod.split sum.split)
  then show ?thesis using s by (auto simp: SendAndFinish_def Let_def split: option.split)
qed

lemma find_and_invokve_frame_node:
  assumes "node_ok A own i s"
  shows "node_ok A own i (fst (find_and_invokve_frame node_return n data s))"
proof -
  have "node_ok A own i (fst (AddFrameReturn node_return b T data s))" for b T
  proof (cases "DeSerialize T data")
    case (Inr x)
    let ?s = "s\<lparr>behaviors := (behaviors s)[b := (behaviors s ! b)\<lparr>collected := collected (behaviors s ! b) @ [x]\<rparr>]\<rparr>"
    have "node_ok A own i ?s" using assms by (simp add: node_ok_behaviors)
    then show ?thesis using SendAndFinish_node [of A own i ?s b] Inr by (simp add: AddFrameReturn_def Let_def split: persistance.split)
  qed (simp add: AddFrameReturn_def assms)
  then show ?thesis using assms by (auto simp: find_and_invokve_frame_def Let_def split: option.split)
qed

text \<open>The status of a transmission, and the answer to a command.\<close>

definition answer_packet :: "bytes \<Rightarrow> bool" where
  "answer_packet p \<longleftrightarrow> p \<noteq> [] \<and> hd p \<in> {FRAME_TRANSMIT_STATUS, FRAME_AT_COMMAND_RESPONSE} \<and> length p + 4 < 2 ^ 16"

lemma answer_node:
  assumes ok: "node_ok A own i s" and p: "answer_packet p"
  shows "node_ok A own i (fst (hear_bytes (piece_bytes (Packet p)) s))"
proof -
  let ?s = "s\<lparr>onLinkThread := True\<rparr>"
  have s: "node_ok A own i ?s" using ok by simp
  note find = find_and_invokve_frame_node [OF s]
  have "node_ok A own i (fst (handle_AT_command_response node_return p ?s))"
    using find s by (simp add: handle_AT_command_response_def)
  moreover have "node_ok A own i (fst (handle_transmit_status node_return p ?s))"
    using find [of "unat (p ! 1)" p] s
    by (cases "find_and_invokve_frame node_return (unat (p ! 1)) p ?s")
      (simp add: handle_transmit_status_def obind_def split: sum.split)
  ultimately have "node_ok A own i (fst (handle_packet node_message node_return p ?s))"
    using p by (auto simp: answer_packet_def handle_packet_def frame_types split: list.split)
  moreover have "hear_bytes (piece_bytes (Packet p)) s =
      (case handle_packet node_message node_return p ?s of (s', r) \<Rightarrow> (s'\<lparr>m_CurrBuf := [], onLinkThread := False\<rparr>, r))"
    using hear_frame [of s p] ok p by (simp add: node_ok_def answer_packet_def)
  ultimately show ?thesis by (auto simp: node_ok_buffer split: prod.split)
qed

section \<open>The network\<close>

text \<open>What the program of a node does; \<open>may\<close> says that only owners add, and that names can be written.\<close>

datatype 'f action =
    Add ResourceKey ResourceValue
  | Send_To ResourceKey ResourceValue bytes
  | Broadcast bytes
  | Request ResourceKey
  | On_Data 'f
  | On_New ResourceKey 'f
  | On_New_Generic 'f
  | On_NotReached ResourceKey 'f
  | On_NotReached_Generic 'f

fun act :: "'f action \<Rightarrow> 'f Interop \<Rightarrow> 'f Interop" where
  "act (Add k v) s = fst (AddResource k v s)"
| "act (Send_To k v x) s = fst (SendData k v x s)"
| "act (Broadcast x) s = fst (BroadcastData x s)"
| "act (Request key) s = fst (RequestContainedResources key s)"
| "act (On_Data f) s = AddHandler_Data f s"
| "act (On_New k f) s = AddHandler_NewRemoteComponentItem k f s"
| "act (On_New_Generic f) s = AddHandler_NewRemoteComponentItem_Generic f s"
| "act (On_NotReached k f) s = AddHandler_ComponentItemTransmitError k f s"
| "act (On_NotReached_Generic f) s = AddHandler_ComponentItemTransmitError_Generic f s"

fun may :: "owners \<Rightarrow> nat \<Rightarrow> 'f action \<Rightarrow> bool" where
  "may own i (Add k v) \<longleftrightarrow> own k v = i \<and> writable k v"
| "may own i (Request key) \<longleftrightarrow> (\<forall>n \<in> set key. good_name n)"
| "may own i _ \<longleftrightarrow> True"

text \<open>
  Nodes with the addresses \<open>A\<close>. A frame that was written can be heard by every other node it is meant for, at any
  time, again and again, or never.
\<close>

definition meant_for :: "u64 \<Rightarrow> u64 \<Rightarrow> bool" where
  "meant_for a own_address \<longleftrightarrow> a = BROADCAST_ADDRESS \<or> a = own_address"

inductive network :: "(nat \<Rightarrow> u64) \<Rightarrow> owners \<Rightarrow> (nat \<Rightarrow> 'f Interop) \<Rightarrow> bool" for A own where
  start: "(\<And>i. Interop_new (names i) = (N i, Inr ())) \<Longrightarrow> network A own N"
| acts: "network A own N \<Longrightarrow> may own i e \<Longrightarrow> network A own (N(i := act e (N i)))"
| link: "network A own N \<Longrightarrow> network A own (N(i := fst (run_marshaled (N i))))"
| answer: "network A own N \<Longrightarrow> answer_packet p \<Longrightarrow> network A own (N(i := fst (hear_bytes (piece_bytes (Packet p)) (N i))))"
| hear: "network A own N \<Longrightarrow> i \<noteq> j \<Longrightarrow> with_checksum (message_bytes n a d) \<in> set (written (N i)) \<Longrightarrow>
    meant_for a (A j) \<Longrightarrow> length d + 16 < 2 ^ 16 \<Longrightarrow>
    network A own (N(j := fst (hear_message (A i) options d (N j))))"

lemma calm_new [simp]: "calm (Interop_fields name)" "txs (Interop_fields name) = {}" "m_CurrBuf (Interop_fields name) = []"
    "m_Resources (Interop_fields name) = ResourceList_new"
  by (simp_all add: Interop_fields_def calm_def txs_def DigiMeshRadio.extend_def DigiMeshRadio_new_def)

lemma node_ok_new:
  assumes "Interop_new name = (s, Inr ())"
  shows "node_ok A own i s"
proof -
  have ready: "node_ok A own i (s'\<lparr>m_MessageHandlers := [On_message_received]\<rparr>)"
    if "only_radio (Interop_fields name) s'" "calm s'" "\<forall>tx \<in> txs s'. tx_ok own i tx" for s' :: "'a Interop"
    using that calm_new(3,4) by (auto simp: node_ok_def only_radio_def calm_def txs_def knows_owners_def)
  show ?thesis
  proof (cases "name = []")
    case True
    then show ?thesis using ready [of "Interop_fields []"] calm_new assms by (auto simp: Interop_new_def)
  next
    case False
    let ?set = "SetATParameterAsync AT_Void [0x41, 0x50] (Serialize_Integer8 1) AP_set (Interop_fields name) :: ('a, unit) node_outcome"
    have "\<exists>s' r. ?set = (s', r) \<and> calm s' \<and> only_radio (Interop_fields name) s' \<and> (\<exists>txs'. txs s' = txs' \<union> txs (Interop_fields name :: 'a Interop) \<and>
        (\<forall>tx \<in> txs'. \<exists>n. tx = with_checksum (command_bytes n [0x41, 0x50] (Serialize_Integer8 1))))"
      by (rule SetATParameterAsync_calm) simp_all
    then obtain s' r txs' where s': "calm s'" "only_radio (Interop_fields name) s'"
        "txs s' = txs' \<union> txs (Interop_fields name :: 'a Interop)" "?set = (s', r)"
        "\<forall>tx \<in> txs'. \<exists>n. tx = with_checksum (command_bytes n [0x41, 0x50] (Serialize_Integer8 1))"
      by (elim exE conjE) (rule that)
    have "\<forall>tx \<in> txs s'. tx_ok own i tx" using s'(3,5) tx_ok_command by fastforce
    moreover have "s = s'\<lparr>m_MessageHandlers := [On_message_received]\<rparr>"
      using assms False s'(4) by (cases r) (simp_all add: Interop_new_def)
    ultimately show ?thesis using ready s'(1,2) by blast
  qed
qed

lemma act_node:
  assumes ok: "node_ok A own i s" and e: "may own i e"
  shows "node_ok A own i (act e s)"
proof (cases e)
  case (Add k v)
  then obtain p where p: "item_message COMPONENT_ITEM_PRESENT k v = Inr p"
    using present_message [of k v] e by auto
  have said: "said own i p" using e Add p unfolding said_def by auto
  have r: "resources_ok (m_Resources s)" "knows_owners A own i (m_Resources s)" using ok by (auto simp: node_ok_def)
  obtain r' where r': "resources_ok r'"
      "if addr_of (m_Resources s) k v \<noteq> None
       then AddInternalResource k v (m_Resources s) = (r', Inl (Runtime_Error ''Resource of given ID already exists'')) \<and>
         addr_of r' = addr_of (m_Resources s)
       else AddInternalResource k v (m_Resources s) = (r', Inr ()) \<and>
         addr_of r' = (\<lambda>k' v'. if k' = k \<and> v' = v then Some 0 else addr_of (m_Resources s) k' v')"
    using AddInternalResource_ok [OF r(1)] by blast
  have "knows_owners A own i r'" using r(2) r'(2) e Add by (auto simp: knows_owners_def split: if_splits)
  then have s: "node_ok A own i (s\<lparr>m_Resources := r'\<rparr>)" using node_ok_resources [OF ok r'(1)] by simp
  then show ?thesis
    using r'(2) SendMessage_node [OF s said, of BROADCAST_ADDRESS None] p
    by (auto simp: Add AddResource_def send_item_present_message_def send_packet_def split: if_splits)
next
  case (Send_To k v x)
  have said: "said own i (PACKET_DATA # x)" by (auto simp: said_def)
  have "node_ok A own i (fst (SendDataToAddress a x cb s))" for a cb
    using SendMessage_node [OF ok said, of a "Some cb"]
      SendMessage_node [of A own i "Notify (\<lambda>f. Call_Data f x) (m_Handlers_Data s) s", OF _ said, of a "Some cb"] ok
    by (auto simp: SendDataToAddress_def Let_def)
  then show ?thesis using ok
    by (auto simp: Send_To SendData_def obind_def split: sum.split prod.split)
      (metis fst_conv)+
next
  case (Broadcast x)
  then show ?thesis
    using SendMessage_node [OF ok, of "PACKET_DATA # x" BROADCAST_ADDRESS None] by (auto simp: BroadcastData_def said_def)
next
  case (Request key)
  then obtain bs where bs: "names_bytes key = Inr bs" using request_message [of key] e by auto
  then have "said own i (CONTAINED_VECHILES_REQUEST # bs)" using e Request by (auto simp: said_def)
  then show ?thesis
    using SendMessage_node [OF ok, of _ BROADCAST_ADDRESS None] bs
    by (fastforce simp: Request RequestContainedResources_def send_packet_def)
qed (use ok in \<open>simp_all add: node_ok_def calm_def txs_def AddHandler_Data_def AddHandler_NewRemoteComponentItem_def
    AddHandler_NewRemoteComponentItem_Generic_def AddHandler_ComponentItemTransmitError_def
    AddHandler_ComponentItemTransmitError_Generic_def\<close>)

lemma link_node:
  assumes "node_ok A own i s"
  shows "node_ok A own i (fst (run_marshaled s))"
proof (cases "marshaled s")
  case Nil
  then show ?thesis using assms by (simp add: run_marshaled_def)
next
  case (Cons m rest)
  obtain n b tx where m: "m = (n, b, tx)" by (cases m)
  let ?s = "s\<lparr>marshaled := rest\<rparr>"
  have calm: "calm ?s" "n < 256" "b < length (behaviors ?s)"
    using assms Cons m by (auto simp: node_ok_def calm_def)
  have s: "node_ok A own i ?s" using assms calm(1) Cons by (auto simp: node_ok_def txs_def)
  have tx: "tx_ok own i tx" using assms Cons m by (auto simp: node_ok_def txs_def)
  obtain s' where s': "run_function n b tx ?s = (s', Inr ())" "calm s'" "only_radio ?s s'"
      "marshaled s' = marshaled ?s" "written s' = written ?s @ [tx]"
    using run_function_calm [OF calm, of tx] by blast
  have "\<forall>tx \<in> txs s'. tx_ok own i tx" using s s'(4,5) tx by (auto simp: node_ok_def txs_def)
  then show ?thesis using node_ok_radio [OF s s'(3,2)] s'(1) by (simp add: run_marshaled_def Cons m)
qed

lemma network_node:
  assumes "network A own N" "\<And>i. A i \<noteq> 0"
  shows "node_ok A own i (N i)"
  using assms(1)
proof (induction arbitrary: i rule: network.induct)
  case (start names N)
  then show ?case using node_ok_new by blast
next
  case (acts N j e)
  then show ?case by (simp add: act_node)
next
  case (link N j)
  then show ?case by (simp add: link_node)
next
  case (answer N p j)
  then show ?case by (simp add: answer_node del: piece_bytes.simps)
next
  case (hear N k j n a d options)
  have "with_checksum (message_bytes n a d) \<in> txs (N k)" using hear.hyps by (auto simp: txs_def)
  then have "said own k d" using hear.IH [of k] unfolding node_ok_def tx_ok_def by blast
  then obtain s' where "hear_message (A k) options d (N j) = (s', Inr ())" "node_ok A own j s'"
    using hear_message_node [where A = A and options = options, OF hear.IH _ hear.hyps(2) assms(2) hear.hyps(5)] by blast
  then show ?case using hear.IH by simp
qed

lemma network_said:
  assumes "network A own N" "\<And>i. A i \<noteq> 0" "with_checksum (message_bytes n a d) \<in> txs (N i)"
  shows "said own i d"
  using network_node [OF assms(1,2), of i] assms(3) unfolding node_ok_def tx_ok_def by blast

lemma network_addr:
  assumes "network A own N" "\<And>i. A i \<noteq> 0" "addr_of (m_Resources (N j)) key val = Some a"
  shows "if own key val = j then a = 0 else a = A (own key val)"
  using network_node [OF assms(1,2), of j] assms(3)
  by (auto simp: node_ok_def knows_owners_def split: if_splits)

text \<open>
  in a network where only the owner of a resource adds it and no node removes one, after any history every node that
  knows a resource knows it under its owner's address, and under the address 0 exactly when it is its own.
\<close>

theorem addresses_are_owners:
  assumes "network A own N" and "\<And>i. A i \<noteq> 0" and "addr_of (m_Resources (N j)) key val = Some a"
  shows "if own key val = j then a = 0 else a = A (own key val)"
  by (rule network_addr [OF assms])

text \<open>
  after any history of such a network whatever a node has sent is handled by every other node without an
  exception.
\<close>

theorem hearing_never_throws:
  assumes "network A own N" and "\<And>i. A i \<noteq> 0" and "with_checksum (message_bytes n a d) \<in> set (written (N i))"
    and "i \<noteq> j" and "length d + 16 < 2 ^ 16"
  shows "snd (hear_message (A i) options d (N j)) = Inr ()"
proof -
  have "said own i d" using network_said [OF assms(1,2), of n a d i] assms(3) by (simp add: txs_def)
  then show ?thesis
    using hear_message_node [of A own j "N j" i d options] network_node [OF assms(1,2), of j] assms(2,4,5) by auto
qed

text \<open>
  C17: a resource that its owner adds becomes known: the message that goes out when it is added makes every other node
  that hears it, whatever it has heard before, know the resource under the owner's address.
\<close>

theorem added_resource_is_found:
  assumes "network A own N" and "\<And>i. A i \<noteq> 0" and "own key val = i" and "writable key val"
    and "AddResource key val (N i) = (s, Inr ())"
    and "item_message COMPONENT_ITEM_PRESENT key val = Inr d" and "length d + 16 < 2 ^ 16"
  shows "(\<exists>n. with_checksum (message_bytes n BROADCAST_ADDRESS d) \<in> txs s) \<and>
    (\<forall>j options. j \<noteq> i \<longrightarrow>
       (\<exists>s'. hear_message (A i) options d (N j) = (s', Inr ()) \<and> GetAddr key val (m_Resources s') = Inr (A i)))"
proof -
  have ok: "node_ok A own j (N j)" for j using network_node [OF assms(1,2)] .
  have d: "item_message COMPONENT_ITEM_PRESENT key val = Inr d"
      "\<And>a s. on_message_received d a s = onNewRemoteComponentItem key val a (s :: 'a Interop)"
    using present_message [OF assms(4)] assms(6) by auto
  have said: "said own i d" using assms(3,4) d(1) unfolding said_def by auto
  have ri: "resources_ok (m_Resources (N i))" "knows_owners A own i (m_Resources (N i))" using ok [of i] by (auto simp: node_ok_def)
  obtain r where r: "AddInternalResource key val (m_Resources (N i)) = (r, Inr ())" "resources_ok r"
      "addr_of r = (\<lambda>k v. if k = key \<and> v = val then Some 0 else addr_of (m_Resources (N i)) k v)"
    using AddInternalResource_ok [OF ri(1), of key val] assms(5) by (auto simp: AddResource_def split: if_splits)
  have knows: "knows_owners A own i r" using ri(2) assms(3,4) unfolding knows_owners_def r(3) by auto
  have sent: "send_item_present_message key val ((N i)\<lparr>m_Resources := r\<rparr>) = (s, Inr ())"
    using assms(5) r(1) by (simp add: AddResource_def)
  have "node_ok A own i ((N i)\<lparr>m_Resources := r\<rparr>)" using node_ok_resources [OF ok r(2) knows] .
  then obtain n where n: "with_checksum (message_bytes n BROADCAST_ADDRESS d) \<in> txs s"
    using SendMessage_node [OF _ said, of A _ BROADCAST_ADDRESS None] sent d(1)
    by (fastforce simp: send_item_present_message_def send_packet_def)
  have "\<exists>s'. hear_message (A i) options d (N j) = (s', Inr ()) \<and> GetAddr key val (m_Resources s') = Inr (A i)"
    if j: "j \<noteq> i" for j options
  proof -
    have "node_ok A own j ((N j)\<lparr>onLinkThread := True\<rparr>)" using ok by simp
    then obtain s' where "onNewRemoteComponentItem key val (A i) ((N j)\<lparr>onLinkThread := True\<rparr>) = (s', Inr ())"
        "addr_of (m_Resources s') key val = Some (A i)"
      using onNewRemoteComponentItem_node [of A own j _ key val i] assms(2,3) j by metis
    then show ?thesis
      using hear_message_eq [OF ok assms(7), of "A i" options] d(2) by (simp add: GetAddr_def)
  qed
  then show ?thesis using n by blast
qed

text \<open>
  C16: data for a resource that a node knows and does not own is sent to the owner's address, and when the owner hears
  it, each of its handlers of data is called with that data.
\<close>

theorem data_reaches_owner:
  assumes "network A own N" and "\<And>i. A i \<noteq> 0" and "SendData key val x (N j) = (s, Inr True)"
    and "own key val = i" and "i \<noteq> j" and "length x + 17 < 2 ^ 16"
  shows "\<exists>n. with_checksum (message_bytes n (A i) (PACKET_DATA # x)) \<in> txs s \<and>
    calls (fst (hear_message (A j) options (PACKET_DATA # x) (N i))) =
      calls (N i) @ map (\<lambda>f. Call_Data f x) (m_Handlers_Data (N i))"
proof -
  have ok: "node_ok A own k (N k)" for k using network_node [OF assms(1,2)] .
  have said: "said own j (PACKET_DATA # x)" by (simp add: said_def)
  obtain a where a: "addr_of (m_Resources (N j)) key val = Some a"
    using assms(3) by (cases "addr_of (m_Resources (N j)) key val") (auto simp: SendData_def HasAddr_def)
  then have "a = A i" using network_addr [OF assms(1,2) a] assms(4,5) by simp
  then have "SendMessage (PACKET_DATA # x) (A i) (Some (Status_of key val)) (N j) = (s, Inr ())"
    using assms(2,3) a
    by (auto simp: SendData_def HasAddr_def GetAddr_def SendDataToAddress_def obind_def split: prod.splits sum.splits)
  then obtain n where "with_checksum (message_bytes n (A i) (PACKET_DATA # x)) \<in> txs s"
    using SendMessage_node [OF ok said, of "A i" "Some (Status_of key val)"] by fastforce
  moreover have "on_message_received (PACKET_DATA # x) a s = (Notify (\<lambda>f. Call_Data f x) (m_Handlers_Data s) s, Inr ())"
    for a and s :: "'a Interop"
    by (simp add: on_message_received_def)
  then have "calls (fst (hear_message (A j) options (PACKET_DATA # x) (N i))) =
      calls (N i) @ map (\<lambda>f. Call_Data f x) (m_Handlers_Data (N i))"
    using hear_message_eq [OF ok [of i], of "PACKET_DATA # x" "A j" options] assms(6) by (simp add: Notify_def)
  ultimately show ?thesis by blast
qed

text \<open>A stream of messages, with noise and damaged frames between them.\<close>

lemma handle_all_node:
  "node_ok A own j s \<Longrightarrow> \<forall>(i, options, d) \<in> set ms. i \<noteq> j \<and> A i \<noteq> 0 \<and> said own i d \<Longrightarrow>
   \<exists>s'. handle_all (handle_packet node_message node_return)
     (map (\<lambda>(i, options, d). receive_packet (A i) options d) ms) s = (s', Inr ()) \<and> node_ok A own j s'"
proof (induction ms arbitrary: s)
  case (Cons m ms)
  obtain i options d where m: "m = (i, options, d)" by (cases m)
  then have d: "i \<noteq> j" "A i \<noteq> 0" "said own i d" using Cons.prems(2) by auto
  obtain s1 where s1: "on_message_received d (A i) s = (s1, Inr ())" "node_ok A own j s1"
    using on_message_received_node Cons.prems(1) d by blast
  then have "handle_packet node_message node_return (receive_packet (A i) options d) s = (s1, Inr ())"
    using handle_receive_packet_node [of s "A i" options d] Cons.prems(1) by (simp add: node_ok_def)
  then show ?case using Cons.IH [OF s1(2)] Cons.prems(2) by (simp add: m)
qed simp

text \<open>
  C15: after any history of such a network (no resource is removed, each has one owner and names without zero bytes,
  and no node has the address 0) a node that reads a stream of messages that other nodes have sent, in any order and
  any number of times, with noise without the start byte and frames damaged behind an intact length between them,
  and cut into buffers in any way, handles all of them without an exception, and what it knows afterwards is still
  where the owners are.
\<close>

theorem stream_keeps_owners:
  assumes "network A own N" and "\<And>i. A i \<noteq> 0" and "cs \<noteq> []"
    and "concat cs = concat (map piece_bytes ps)" and "\<forall>p \<in> set ps. piece_ok p"
    and "packets ps = map (\<lambda>(i, options, d). receive_packet (A i) options d) ms"
    and "\<forall>(i, options, d) \<in> set ms. i \<noteq> j \<and> (\<exists>n a. with_checksum (message_bytes n a d) \<in> set (written (N i)))"
  shows "\<exists>s. receive_all node_message node_return cs (N j) = (s, Inr ()) \<and>
    (\<forall>key val a. addr_of (m_Resources s) key val = Some a \<longrightarrow>
       a = (if own key val = j then 0 else A (own key val)))"
proof -
  have ok: "node_ok A own j (N j)" using network_node [OF assms(1,2)] .
  have "\<forall>(i, options, d) \<in> set ms. i \<noteq> j \<and> A i \<noteq> 0 \<and> said own i d"
    using assms(2,7) network_said [OF assms(1,2)] by (fastforce simp: txs_def)
  then obtain s where s: "handle_all (handle_packet node_message node_return) (packets ps) (N j) = (s, Inr ())"
      "node_ok A own j s"
    using handle_all_node [OF ok] unfolding assms(6) by blast
  have "START_BYTE \<notin> set (m_CurrBuf (N j))" using ok by (simp add: node_ok_def)
  then obtain b where "receive_all node_message node_return cs (N j) = (s\<lparr>m_CurrBuf := b\<rparr>, Inr ())"
    using node.receive_all_pieces [OF assms(3,4,5) _ s(1)] by blast
  moreover have "addr_of (m_Resources s) key val = Some a \<Longrightarrow> a = (if own key val = j then 0 else A (own key val))" for key val a
    using s(2) by (auto simp: node_ok_def knows_owners_def split: if_splits)
  ultimately show ?thesis by auto
qed

section \<open>Instances\<close>

text \<open>Two nodes; the first, at the address 1, owns every resource.\<close>

definition demo_address :: "nat \<Rightarrow> u64" where
  "demo_address i = (if i = 0 then 1 else 2)"

definition demo_owner :: owners where
  "demo_owner key val = 0"

definition demo_node :: "nat Interop" where
  "demo_node = fst (Interop_new [])"

definition demo_key :: ResourceKey where "demo_key = [[0x56]]"

definition demo_first :: "nat Interop" where
  "demo_first = fst (run_marshaled (act (Add demo_key [7]) (act (On_Data 3) demo_node)))"

definition demo_present :: bytes where
  "demo_present = [2, 0x56, 0, 0, 0, 0, 7]"

definition demo_second :: "nat Interop" where
  "demo_second = fst (hear_message 1 0 demo_present demo_node)"

lemma demo_address_simps [simp]: "demo_address i \<noteq> 0" "demo_address 0 = 1" "demo_address (Suc 0) = 2"
  by (simp_all add: demo_address_def)

lemma demo_owner_simps [simp]: "demo_owner key val = 0"
  by (simp add: demo_owner_def)

lemma demo_new: "network demo_address demo_owner (\<lambda>i. demo_node)"
  by (rule network.start [where names = "\<lambda>i. []"]) (simp add: demo_node_def Interop_new_def)

lemma demo_writable: "writable demo_key [7]"
  by (simp add: demo_key_def writable_def good_name_def)

lemma demo_added: "network demo_address demo_owner ((\<lambda>i. demo_node)(0 := demo_first))"
proof -
  let ?N = "(\<lambda>i. demo_node)(0 := act (On_Data 3) demo_node)"
  have "network demo_address demo_owner ?N" using network.acts [OF demo_new, of 0 "On_Data 3"] by simp
  from network.acts [OF this, of 0 "Add demo_key [7]"]
  have "network demo_address demo_owner (?N(0 := act (Add demo_key [7]) (?N 0)))" by (simp add: demo_writable)
  from network.link [OF this, of 0] show ?thesis by (simp add: demo_first_def)
qed

lemma demo_written: "with_checksum (message_bytes 0 BROADCAST_ADDRESS demo_present) \<in> set (written demo_first)"
  by code_simp

lemma demo_heard: "network demo_address demo_owner ((\<lambda>i. demo_node)(0 := demo_first, 1 := demo_second))"
  using network.hear [OF demo_added, of 0 1 0 BROADCAST_ADDRESS demo_present 0] demo_written
  by (simp add: demo_second_def meant_for_def demo_present_def del: act.simps)

theorem addresses_are_owners_witness:
  "addr_of (m_Resources demo_second) demo_key [7] = Some 1"
proof -
  have "HasAddr demo_key [7] (m_Resources demo_second)" by code_simp
  then obtain a where a: "addr_of (m_Resources demo_second) demo_key [7] = Some a" by (auto simp: HasAddr_def)
  then show ?thesis
    using addresses_are_owners [OF demo_heard, of 1 demo_key "[7]" a] by simp
qed

theorem hearing_never_throws_witness:
  "snd (hear_message 1 0 demo_present demo_node) = Inr ()"
  using hearing_never_throws [OF demo_added, of 0 BROADCAST_ADDRESS demo_present 0 1 0] demo_written
  by (simp add: demo_present_def)

theorem added_resource_is_found_witness:
  "\<exists>s'. hear_message 1 0 demo_present demo_node = (s', Inr ()) \<and> GetAddr demo_key [7] (m_Resources s') = Inr 1"
proof -
  obtain s where "AddResource demo_key [7] demo_node = (s, Inr ())"
  proof -
    have "snd (AddResource demo_key [7] demo_node) = Inr ()" by code_simp
    then show ?thesis using that by (cases "AddResource demo_key [7] demo_node") simp
  qed
  moreover have "item_message COMPONENT_ITEM_PRESENT demo_key [7] = Inr demo_present" by code_simp
  ultimately show ?thesis
    using added_resource_is_found [OF demo_new, of demo_key "[7]" 0 s demo_present] demo_writable
    by (force simp: demo_present_def)
qed

theorem data_reaches_owner_witness:
  "calls (fst (hear_message 2 0 [PACKET_DATA, 5] demo_first)) = [Call_Data 3 [5]]"
proof -
  obtain s where "SendData demo_key [7] [5] demo_second = (s, Inr True)"
  proof -
    have "snd (SendData demo_key [7] [5] demo_second) = Inr True" by code_simp
    then show ?thesis using that by (cases "SendData demo_key [7] [5] demo_second") simp
  qed
  moreover have "calls demo_first = [] \<and> m_Handlers_Data demo_first = [3]" by code_simp
  ultimately show ?thesis
    using data_reaches_owner [OF demo_heard, of demo_key "[7]" "[5]" 1 s 0 0] by simp
qed

theorem stream_keeps_owners_witness:
  "\<exists>s. receive_all node_message node_return [[1], piece_bytes (Packet (receive_packet 1 0 demo_present))] demo_node = (s, Inr ())"
  using stream_keeps_owners [OF demo_added, of "[[1], piece_bytes (Packet (receive_packet 1 0 demo_present))]"
      "[Noise [1], Packet (receive_packet 1 0 demo_present)]" "[(0, 0, demo_present)]" 1] demo_written
  by (auto simp: START_BYTE_def receive_packet_def demo_present_def simp del: piece_bytes.simps(2,3))

end
